(* ===== verification/CwPrelude.thy ===== *)
theory CwPrelude
  imports Complex_Main "HOL-Library.Sublist" "HOL-Library.Multiset"
begin

section \<open>Shared ground: Go values and generic lemmas\<close>

text \<open>
  What every component of the development shares: the types that stand for Go's basic values,
  the functions of Go's \<open>strings\<close>, \<open>strconv\<close> and \<open>math\<close> packages that the code calls, and
  generic lemmas on lists and maps.

  Conventions.
  \<^item> Go \<open>int\<close> and \<open>int64\<close> are \<open>int\<close>. Division truncates towards zero (\<open>go_div\<close>).
  \<^item> Go \<open>float64\<close> is \<open>real\<close>: the arithmetic is exact and rounding of the last bits is not
    modelled.
  \<^item> Go strings are byte strings (\<open>string\<close>). \<open>strings.ToLower\<close>, \<open>strings.EqualFold\<close> and
    \<open>strings.TrimSpace\<close> are given on ASCII: every byte outside ASCII is left as it is, which
    is what Go does for the scripts the data uses besides Latin (Hebrew has no letter case).
  \<^item> A \<open>time.Time\<close> is the number of nanoseconds since Go's zero time, so \<open>IsZero\<close> is \<open>= 0\<close>;
    a \<open>time.Duration\<close> is a number of nanoseconds.
  \<^item> A pointer that may be nil is an \<open>option\<close>.
\<close>

type_synonym gotime = int
type_synonym duration = int

named_theorems go_strings \<open>equations of the Go string functions\<close>
named_theorems go_arith \<open>facts on Go integer arithmetic\<close>

subsection \<open>Durations\<close>

abbreviation nanos_per_second :: int where "nanos_per_second \<equiv> 1000000000"

definition seconds :: "int \<Rightarrow> duration" where "seconds n = n * nanos_per_second"
definition minutes :: "int \<Rightarrow> duration" where "minutes n = n * (60 * nanos_per_second)"
definition hours :: "int \<Rightarrow> duration" where "hours n = n * (3600 * nanos_per_second)"

lemmas duration_defs = seconds_def minutes_def hours_def

subsection \<open>Integer division and float conversion\<close>

definition go_div :: "int \<Rightarrow> int \<Rightarrow> int" where
  "go_div a b = sgn a * sgn b * (\<bar>a\<bar> div \<bar>b\<bar>)"

text \<open>\<open>a % b\<close> of Go has the sign of the dividend.\<close>

definition go_mod :: "int \<Rightarrow> int \<Rightarrow> int" where
  "go_mod a b = a - b * go_div a b"

text \<open>\<open>int(x)\<close> on a \<open>float64\<close> drops the fraction.\<close>

definition go_trunc :: "real \<Rightarrow> int" where
  "go_trunc x = (if 0 \<le> x then \<lfloor>x\<rfloor> else \<lceil>x\<rceil>)"

text \<open>\<open>math.Round\<close> rounds half away from zero.\<close>

definition go_round :: "real \<Rightarrow> int" where
  "go_round x = (if 0 \<le> x then \<lfloor>x + 1 / 2\<rfloor> else \<lceil>x - 1 / 2\<rceil>)"

lemma go_div_nonneg [go_arith]: "0 \<le> a \<Longrightarrow> 0 < b \<Longrightarrow> go_div a b = a div b"
  by (cases "a = 0") (simp_all add: go_div_def)

lemma go_div_bounds:
  assumes "0 \<le> a" "0 < b"
  shows "0 \<le> go_div a b" "b * go_div a b \<le> a" "a < b * go_div a b + b"
proof -
  from assms have eq: "go_div a b = a div b" by (rule go_div_nonneg)
  from assms show "0 \<le> go_div a b" by (simp add: eq pos_imp_zdiv_nonneg_iff)
  have d: "a = b * (a div b) + a mod b" by simp
  from assms show "b * go_div a b \<le> a" unfolding eq
    using pos_mod_sign [of b a] d by linarith
  from assms show "a < b * go_div a b + b" unfolding eq
    using pos_mod_bound [of b a] d by linarith
qed

lemma div_between:
  fixes lo hi t c :: int
  assumes "lo * c \<le> t" "t \<le> hi * c" "0 < c"
  shows "lo \<le> t div c \<and> t div c \<le> hi"
  using zdiv_mono1 [OF assms(1,3)] zdiv_mono1 [OF assms(2,3)] assms(3) by simp

lemma go_trunc_less_iff:
  assumes "0 < n"
  shows "go_trunc x < n \<longleftrightarrow> x < of_int n"
proof (cases "0 \<le> x")
  case True
  then show ?thesis by (simp add: go_trunc_def floor_less_iff)
next
  case False
  then have "\<lceil>x\<rceil> \<le> 0" by (simp add: ceiling_le_iff)
  with False assms show ?thesis by (simp add: go_trunc_def) linarith
qed

lemma go_round_mono: "x \<le> y \<Longrightarrow> go_round x \<le> go_round y"
proof -
  assume "x \<le> y"
  consider "0 \<le> x" | "x < 0" "0 \<le> y" | "y < 0" by linarith
  then show ?thesis
  proof cases
    case 1
    with \<open>x \<le> y\<close> show ?thesis by (simp add: go_round_def floor_mono)
  next
    case 2
    then have "\<lceil>x - 1 / 2\<rceil> \<le> 0" "0 \<le> \<lfloor>y + 1 / 2\<rfloor>" by linarith+
    with 2 show ?thesis unfolding go_round_def by simp linarith
  next
    case 3
    with \<open>x \<le> y\<close> show ?thesis by (simp add: go_round_def ceiling_mono)
  qed
qed

lemma go_round_of_int [simp]: "go_round (of_int n) = n"
proof -
  have "\<lfloor>of_int n + 1 / 2 :: real\<rfloor> = n" "\<lceil>of_int n - 1 / 2 :: real\<rceil> = n" by linarith+
  then show ?thesis by (simp add: go_round_def)
qed

lemma go_round_range:
  assumes "of_int lo \<le> x" "x \<le> of_int hi"
  shows "lo \<le> go_round x" "go_round x \<le> hi"
  using go_round_mono [OF assms(1)] go_round_mono [OF assms(2)] by simp_all

subsection \<open>Strings\<close>

definition lower_char :: "char \<Rightarrow> char" where
  "lower_char c = (let n = (of_char c :: nat) in if 65 \<le> n \<and> n \<le> 90 then char_of (n + 32) else c)"

definition to_lower :: "string \<Rightarrow> string" where
  "to_lower s = map lower_char s"

definition equal_fold :: "string \<Rightarrow> string \<Rightarrow> bool" where
  "equal_fold s t \<longleftrightarrow> to_lower s = to_lower t"

definition is_space :: "char \<Rightarrow> bool" where
  "is_space c = (let n = (of_char c :: nat) in (9 \<le> n \<and> n \<le> 13) \<or> n = 32)"

definition trim_space :: "string \<Rightarrow> string" where
  "trim_space s = rev (dropWhile is_space (rev (dropWhile is_space s)))"

text \<open>\<open>strings.Contains\<close>: some position of the text starts with the pattern.\<close>

fun contains :: "string \<Rightarrow> string \<Rightarrow> bool" where
  "contains [] p = (p = [])"
| "contains (c # s) p = (prefix p (c # s) \<or> contains s p)"

text \<open>\<open>strings.Split\<close> on a one-byte separator (never empty: the empty string splits into
  one empty piece) and \<open>strings.Join\<close>.\<close>

fun split_on :: "char \<Rightarrow> string \<Rightarrow> string list" where
  "split_on sep [] = [[]]"
| "split_on sep (c # s) =
     (if c = sep then [] # split_on sep s
      else (case split_on sep s of [] \<Rightarrow> [[c]] | p # ps \<Rightarrow> (c # p) # ps))"

fun join_with :: "string \<Rightarrow> string list \<Rightarrow> string" where
  "join_with sep [] = []"
| "join_with sep [p] = p"
| "join_with sep (p # q # ps) = p @ sep @ join_with sep (q # ps)"

text \<open>\<open>strconv.Itoa\<close>.\<close>

definition digit_char :: "nat \<Rightarrow> char" where
  "digit_char d = char_of (48 + d)"

fun nat_digits :: "nat \<Rightarrow> string" where
  "nat_digits n = (if n < 10 then [digit_char n] else nat_digits (n div 10) @ [digit_char (n mod 10)])"

declare nat_digits.simps [simp del]

definition itoa :: "int \<Rightarrow> string" where
  "itoa i = (if i < 0 then ''-'' @ nat_digits (nat (- i)) else nat_digits (nat i))"

lemma contains_iff_sublist: "contains s p \<longleftrightarrow> sublist p s"
  by (induction s) (auto simp: sublist_Cons_right)

lemma split_on_nonempty [simp]: "split_on sep s \<noteq> []"
  by (cases s) (auto split: list.splits)

lemma join_with_Cons_head [go_strings]: "join_with sep ((c # p) # ps) = c # join_with sep (p # ps)"
  by (cases ps) simp_all

lemma join_split: "join_with [sep] (split_on sep s) = s"
proof (induction s)
  case (Cons c s)
  then show ?case
    by (cases "split_on sep s") (auto simp: go_strings)
qed simp

lemma split_on_no_sep: "p \<in> set (split_on sep s) \<Longrightarrow> sep \<notin> set p"
  by (induction s arbitrary: p) (auto split: if_splits list.splits)

lemma lower_char_code: "of_char (lower_char c) =
    (let n = (of_char c :: nat) in if 65 \<le> n \<and> n \<le> 90 then n + 32 else n)"
  by (simp add: lower_char_def Let_def)

lemma lower_char_idem [simp]: "lower_char (lower_char c) = lower_char c"
  by (simp add: lower_char_def Let_def)

lemma to_lower_idem [simp]: "to_lower (to_lower s) = to_lower s"
  by (simp add: to_lower_def comp_def)

lemma to_lower_append [go_strings]: "to_lower (s @ t) = to_lower s @ to_lower t"
  by (simp add: to_lower_def)

lemma to_lower_Nil [simp]: "to_lower [] = []"
  by (simp add: to_lower_def)

lemma to_lower_eq_Nil [simp]: "to_lower s = [] \<longleftrightarrow> s = []"
  by (simp add: to_lower_def)

lemma is_space_lower [simp]: "is_space (lower_char c) = is_space c"
  by (simp add: is_space_def lower_char_code Let_def)

lemma trim_to_lower: "trim_space (to_lower s) = to_lower (trim_space s)"
proof -
  have d: "dropWhile is_space (map lower_char xs) = map lower_char (dropWhile is_space xs)" for xs
    by (simp add: dropWhile_map comp_def)
  show ?thesis by (simp only: trim_space_def to_lower_def d rev_map)
qed

lemma equal_fold_refl [simp]: "equal_fold s s"
  by (simp add: equal_fold_def)

lemma equal_fold_sym: "equal_fold s t = equal_fold t s"
  by (auto simp: equal_fold_def)

lemma digit_char_inj: "d < 10 \<Longrightarrow> e < 10 \<Longrightarrow> digit_char d = digit_char e \<Longrightarrow> d = e"
proof -
  assume "d < 10" "e < 10" "digit_char d = digit_char e"
  then have "(of_char (char_of (48 + d) :: char) :: nat) = of_char (char_of (48 + e) :: char)"
    by (simp add: digit_char_def)
  with \<open>d < 10\<close> \<open>e < 10\<close> show "d = e" by simp
qed

lemma nat_digits_nonempty [simp]: "nat_digits n \<noteq> []"
  by (subst nat_digits.simps) simp


subsection \<open>Early returns\<close>

text \<open>A chain of \<open>if c \{ return false \}\<close> is the conjunction of the negated guards.\<close>

lemma early_false: "(if b then False else x) \<longleftrightarrow> \<not> b \<and> x"
  by simp

lemma early_None: "((if b then Some r else x) = None) \<longleftrightarrow> \<not> b \<and> x = None"
  by simp


subsection \<open>Lists\<close>

lemma length_filter_prefix:
  assumes "k \<le> length s" "\<And>i. i < k \<Longrightarrow> P (s ! i)"
  shows "k \<le> length (filter P s)"
proof -
  have "filter P (take k s) = take k s"
    using assms by (auto simp: filter_id_conv in_set_conv_nth)
  then have "length (filter P (take k s)) = k" using assms(1) by simp
  then show ?thesis
    by (metis append_take_drop_id filter_append le_add1 length_append)
qed

lemma length_filter_suffix:
  assumes "k \<le> length s" "\<And>i. k \<le> i \<Longrightarrow> i < length s \<Longrightarrow> P (s ! i)"
  shows "length s - k \<le> length (filter P s)"
proof -
  have "filter P (drop k s) = drop k s"
    using assms by (auto simp: filter_id_conv in_set_conv_nth)
  then have "length (filter P (drop k s)) = length s - k" by simp
  then show ?thesis
    by (metis append_take_drop_id filter_append le_add2 length_append)
qed

lemma length_filter_sort: "length (filter P (sort xs)) = length (filter P xs)"
  for xs :: "'a::linorder list"
  by (metis mset_filter mset_sort size_mset)

end
