(* ===== verification/Model.thy ===== *)
theory Model
  imports CwPrelude
begin

section \<open>The data model\<close>

text \<open>
  The records that travel between the components: listings as fetched (\<open>model.RawListing\<close>),
  listings as scored (\<open>model.Listing\<close>), saved searches (\<open>storage.Search\<close>), the filter criteria
  and source parameters derived from a search (internal/model/params.go), and the seller filter
  (internal/storage/seller_filter.go).
\<close>

subsection \<open>Listings\<close>

record raw_listing =
  rl_Token :: string
  rl_Manufacturer :: string
  rl_ManufacturerID :: int
  rl_ManufacturerNameHe :: string
  rl_Model :: string
  rl_ModelID :: int
  rl_ModelNameHe :: string
  rl_SubModel :: string
  rl_SubModelID :: int
  rl_BodyType :: string
  rl_Year :: int
  rl_Month :: int
  rl_EngineVolume :: real
  rl_HorsePower :: int
  rl_EngineType :: string
  rl_GearBox :: string
  rl_Km :: int
  rl_Hand :: int
  rl_Price :: int
  rl_City :: string
  rl_Area :: string
  rl_Description :: string
  rl_ImageURL :: string
  rl_PageLink :: string
  rl_Commercial :: "bool option"
  rl_OriginalOwnership :: string
  rl_CreatedAt :: gotime
  rl_UpdatedAt :: gotime

record score_info =
  si_Score :: int
  si_MedianPrice :: int
  si_MedianKm :: int
  si_CohortSize :: int

record fitness_dim =
  fd_Name :: string
  fd_Score :: real
  fd_Weight :: real

text \<open>\<open>model.Listing\<close> embeds \<open>RawListing\<close>: a record extension.\<close>

record listing = raw_listing +
  l_SearchName :: string
  l_DealScore :: "score_info option"
  l_FitnessScore :: real
  l_FitnessBreakdown :: "fitness_dim list"
  l_BasePrice :: "int option"
  l_SuspiciousReasons :: "string list"

text \<open>\<open>model.Listing\{RawListing: l, SearchName: name\}\<close>, the other fields at their zero value.\<close>

definition listing_of_raw :: "raw_listing \<Rightarrow> string \<Rightarrow> listing" where
  "listing_of_raw l name = raw_listing.extend l
     \<lparr>l_SearchName = name, l_DealScore = None, l_FitnessScore = 0, l_FitnessBreakdown = [],
      l_BasePrice = None, l_SuspiciousReasons = []\<rparr>"

definition raw_of_listing :: "listing \<Rightarrow> raw_listing" where
  "raw_of_listing l = raw_listing.truncate l"

subsection \<open>Searches\<close>

record search =
  s_ID :: int
  s_ChatID :: int
  s_UserSeq :: int
  s_Name :: string
  s_Source :: string
  s_Manufacturer :: int
  s_Model :: int
  s_YearMin :: int
  s_YearMax :: int
  s_PriceMin :: int
  s_PriceMax :: int
  s_EngineMinCC :: int
  s_MaxKm :: int
  s_MaxHand :: int
  s_Keywords :: string
  s_ExcludeKeys :: string
  s_SellerFilter :: string
  s_GearBox :: string
  s_PriceOnly :: bool
  s_PhotoOnly :: bool
  s_Active :: bool
  s_CreatedAt :: gotime
  s_ShareToken :: string

record filter_criteria =
  c_ManufacturerID :: int
  c_ModelID :: int
  c_YearMin :: int
  c_YearMax :: int
  c_PriceMin :: int
  c_PriceMax :: int
  c_EngineMinCC :: real
  c_EngineMaxCC :: real
  c_MaxKm :: int
  c_MaxHand :: int
  c_Keywords :: "string list"
  c_ExcludeKeys :: "string list"
  c_GearBox :: string
  c_SellerFilter :: string
  c_PriceOnly :: bool
  c_PhotoOnly :: bool

record source_params =
  p_Manufacturer :: int
  p_Model :: int
  p_YearMin :: int
  p_YearMax :: int
  p_PriceMin :: int
  p_PriceMax :: int
  p_Page :: int
  p_MaxKm :: int
  p_MaxHand :: int
  p_EngineMinCC :: int
  p_SellerFilter :: string
  p_PhotoOnly :: bool

text \<open>The zero values of the structs, as Go initialises them.\<close>

definition zero_raw_listing :: raw_listing where
  "zero_raw_listing =
    \<lparr>rl_Token = [], rl_Manufacturer = [], rl_ManufacturerID = 0, rl_ManufacturerNameHe = [], rl_Model = [],
     rl_ModelID = 0, rl_ModelNameHe = [], rl_SubModel = [], rl_SubModelID = 0, rl_BodyType = [], rl_Year = 0,
     rl_Month = 0, rl_EngineVolume = 0, rl_HorsePower = 0, rl_EngineType = [], rl_GearBox = [], rl_Km = 0,
     rl_Hand = 0, rl_Price = 0, rl_City = [], rl_Area = [], rl_Description = [], rl_ImageURL = [],
     rl_PageLink = [], rl_Commercial = None, rl_OriginalOwnership = [], rl_CreatedAt = 0, rl_UpdatedAt = 0\<rparr>"

definition zero_search :: search where
  "zero_search =
    \<lparr>s_ID = 0, s_ChatID = 0, s_UserSeq = 0, s_Name = [], s_Source = [], s_Manufacturer = 0, s_Model = 0,
     s_YearMin = 0, s_YearMax = 0, s_PriceMin = 0, s_PriceMax = 0, s_EngineMinCC = 0, s_MaxKm = 0,
     s_MaxHand = 0, s_Keywords = [], s_ExcludeKeys = [], s_SellerFilter = [], s_GearBox = [],
     s_PriceOnly = False, s_PhotoOnly = False, s_Active = False, s_CreatedAt = 0, s_ShareToken = []\<rparr>"

subsection \<open>From a search to criteria and parameters\<close>

text \<open>The loop that splits a comma-separated field and keeps the trimmed non-empty pieces.\<close>

fun append_trimmed :: "string list \<Rightarrow> string list \<Rightarrow> string list" where
  "append_trimmed acc [] = acc"
| "append_trimmed acc (kw # kws) =
     (let kw' = trim_space kw in append_trimmed (if kw' \<noteq> [] then acc @ [kw'] else acc) kws)"

definition FilterCriteriaFromSearch :: "search \<Rightarrow> filter_criteria" where
  "FilterCriteriaFromSearch s =
    (let criteria =
      \<lparr>c_ManufacturerID = s_Manufacturer s,
       c_ModelID = s_Model s,
       c_YearMin = s_YearMin s,
       c_YearMax = s_YearMax s,
       c_PriceMin = s_PriceMin s,
       c_PriceMax = s_PriceMax s,
       c_EngineMinCC = of_int (s_EngineMinCC s),
       c_EngineMaxCC = 0,
       c_MaxKm = s_MaxKm s,
       c_MaxHand = s_MaxHand s,
       c_Keywords = [],
       c_ExcludeKeys = [],
       c_GearBox = s_GearBox s,
       c_SellerFilter = s_SellerFilter s,
       c_PriceOnly = s_PriceOnly s,
       c_PhotoOnly = s_PhotoOnly s\<rparr>;
      criteria = (if s_Keywords s \<noteq> []
        then criteria\<lparr>c_Keywords := append_trimmed (c_Keywords criteria) (split_on (CHR '','') (s_Keywords s))\<rparr>
        else criteria);
      criteria = (if s_ExcludeKeys s \<noteq> []
        then criteria\<lparr>c_ExcludeKeys := append_trimmed (c_ExcludeKeys criteria) (split_on (CHR '','') (s_ExcludeKeys s))\<rparr>
        else criteria)
     in criteria)"

definition SourceParamsFromSearch :: "search \<Rightarrow> source_params" where
  "SourceParamsFromSearch s =
    \<lparr>p_Manufacturer = s_Manufacturer s,
     p_Model = s_Model s,
     p_YearMin = s_YearMin s,
     p_YearMax = s_YearMax s,
     p_PriceMin = s_PriceMin s,
     p_PriceMax = s_PriceMax s,
     p_Page = 0,
     p_MaxKm = s_MaxKm s,
     p_MaxHand = s_MaxHand s,
     p_EngineMinCC = s_EngineMinCC s,
     p_SellerFilter = s_SellerFilter s,
     p_PhotoOnly = s_PhotoOnly s\<rparr>"

subsection \<open>Seller filter\<close>

abbreviation SellerFilterAny :: string where "SellerFilterAny \<equiv> ''any''"
abbreviation SellerFilterPrivate :: string where "SellerFilterPrivate \<equiv> ''private''"
abbreviation SellerFilterCommercial :: string where "SellerFilterCommercial \<equiv> ''commercial''"

definition NormalizeSellerFilter :: "string \<Rightarrow> string" where
  "NormalizeSellerFilter s =
    (let t = to_lower (trim_space s) in
     if t = SellerFilterPrivate then SellerFilterPrivate
     else if t = SellerFilterCommercial \<or> t = ''dealer'' \<or> t = ''dealership'' then SellerFilterCommercial
     else SellerFilterAny)"

definition RawListingMatchesSellerFilter :: "bool option \<Rightarrow> string \<Rightarrow> bool" where
  "RawListingMatchesSellerFilter commercial sellerFilter =
    (let f = NormalizeSellerFilter sellerFilter in
     if f = SellerFilterPrivate then (case commercial of None \<Rightarrow> False | Some b \<Rightarrow> \<not> b)
     else if f = SellerFilterCommercial then (case commercial of None \<Rightarrow> False | Some b \<Rightarrow> b)
     else True)"

subsection \<open>Lemmas\<close>

lemma append_trimmed_eq:
  "append_trimmed acc kws = acc @ filter (\<lambda>k. k \<noteq> []) (map trim_space kws)"
  by (induction kws arbitrary: acc) (auto simp: Let_def)

lemma criteria_keywords:
  "c_Keywords (FilterCriteriaFromSearch s) =
     filter (\<lambda>k. k \<noteq> []) (map trim_space (split_on (CHR '','') (s_Keywords s)))"
  by (simp add: FilterCriteriaFromSearch_def Let_def append_trimmed_eq trim_space_def)

lemma criteria_exclude:
  "c_ExcludeKeys (FilterCriteriaFromSearch s) =
     filter (\<lambda>k. k \<noteq> []) (map trim_space (split_on (CHR '','') (s_ExcludeKeys s)))"
  by (simp add: FilterCriteriaFromSearch_def Let_def append_trimmed_eq trim_space_def)

lemma criteria_fields [simp]:
  "c_ManufacturerID (FilterCriteriaFromSearch s) = s_Manufacturer s"
  "c_ModelID (FilterCriteriaFromSearch s) = s_Model s"
  "c_YearMin (FilterCriteriaFromSearch s) = s_YearMin s"
  "c_YearMax (FilterCriteriaFromSearch s) = s_YearMax s"
  "c_PriceMin (FilterCriteriaFromSearch s) = s_PriceMin s"
  "c_PriceMax (FilterCriteriaFromSearch s) = s_PriceMax s"
  "c_EngineMinCC (FilterCriteriaFromSearch s) = of_int (s_EngineMinCC s)"
  "c_EngineMaxCC (FilterCriteriaFromSearch s) = 0"
  "c_MaxKm (FilterCriteriaFromSearch s) = s_MaxKm s"
  "c_MaxHand (FilterCriteriaFromSearch s) = s_MaxHand s"
  "c_GearBox (FilterCriteriaFromSearch s) = s_GearBox s"
  "c_SellerFilter (FilterCriteriaFromSearch s) = s_SellerFilter s"
  "c_PriceOnly (FilterCriteriaFromSearch s) = s_PriceOnly s"
  "c_PhotoOnly (FilterCriteriaFromSearch s) = s_PhotoOnly s"
  by (simp_all add: FilterCriteriaFromSearch_def Let_def)

lemma listing_of_raw_simps [simp]:
  "l_SearchName (listing_of_raw l n) = n"
  "l_DealScore (listing_of_raw l n) = None"
  "l_BasePrice (listing_of_raw l n) = None"
  "l_SuspiciousReasons (listing_of_raw l n) = []"
  "rl_Token (listing_of_raw l n) = rl_Token l"
  "rl_Km (listing_of_raw l n) = rl_Km l"
  "rl_City (listing_of_raw l n) = rl_City l"
  "rl_ImageURL (listing_of_raw l n) = rl_ImageURL l"
  "rl_Price (listing_of_raw l n) = rl_Price l"
  "rl_Year (listing_of_raw l n) = rl_Year l"
  "rl_SubModelID (listing_of_raw l n) = rl_SubModelID l"
  by (simp_all add: listing_of_raw_def raw_listing.defs)

lemma raw_of_listing_of_raw [simp]: "raw_of_listing (listing_of_raw l n) = l"
  by (simp add: listing_of_raw_def raw_of_listing_def raw_listing.defs)

lemma NormalizeSellerFilter_range:
  "NormalizeSellerFilter s \<in> {SellerFilterAny, SellerFilterPrivate, SellerFilterCommercial}"
  by (simp add: NormalizeSellerFilter_def Let_def)

end
