(* ===== verification/ListingFilter.thy ===== *)
theory ListingFilter
  imports Model
begin

section \<open>The stateless listing filter (internal/filter/filter.go)\<close>

text \<open>
  \<open>matches\<close> is the chain of early returns of the Go function, in its order; \<open>Apply\<close> lowercases the
  keywords of the criteria and keeps the listings that match. The two keyword loops with an early
  \<open>return false\<close> are \<open>list_ex\<close> over the keywords.
\<close>

definition seller_rejects :: "string \<Rightarrow> bool option \<Rightarrow> bool" where
  "seller_rejects sellerFilter commercial =
    (let sf = to_lower (trim_space sellerFilter) in
     if sf \<noteq> [] \<and> sf \<noteq> ''any'' then
       (case commercial of
          None \<Rightarrow> False
        | Some isCommercial \<Rightarrow>
            if sf = ''private'' \<and> isCommercial then True
            else if (sf = ''commercial'' \<or> sf = ''dealer'' \<or> sf = ''dealership'') \<and> \<not> isCommercial then True
            else False)
     else False)"

definition listing_text :: "('a) raw_listing_scheme \<Rightarrow> string" where
  "listing_text l = to_lower (rl_Description l @ '' '' @ rl_SubModel l)"

definition matches :: "filter_criteria \<Rightarrow> raw_listing \<Rightarrow> bool" where
  "matches c l =
    (if c_ManufacturerID c > 0 \<and> rl_ManufacturerID l \<noteq> c_ManufacturerID c then False
     else if c_ModelID c > 0 \<and> rl_ModelID l \<noteq> c_ModelID c then False
     else if c_PriceMin c > 0 \<and> rl_Price l > 0 \<and> rl_Price l < c_PriceMin c then False
     else if c_PriceMax c > 0 \<and> rl_Price l > c_PriceMax c then False
     else if c_YearMin c > 0 \<and> rl_Year l < c_YearMin c then False
     else if c_YearMax c > 0 \<and> rl_Year l > c_YearMax c then False
     else if c_EngineMinCC c > 0 \<and> rl_EngineVolume l < c_EngineMinCC c then False
     else if c_EngineMaxCC c > 0 \<and> rl_EngineVolume l > c_EngineMaxCC c then False
     else if c_MaxKm c > 0 \<and> rl_Km l > 0 \<and> rl_Km l > c_MaxKm c then False
     else if c_MaxHand c > 0 \<and> rl_Hand l > c_MaxHand c then False
     else if c_PriceOnly c \<and> rl_Price l \<le> 0 then False
     else if c_PhotoOnly c \<and> rl_ImageURL l = [] then False
     else if c_GearBox c \<noteq> [] \<and> rl_GearBox l \<noteq> [] \<and> \<not> equal_fold (rl_GearBox l) (c_GearBox c) then False
     else if seller_rejects (c_SellerFilter c) (rl_Commercial l) then False
     else let desc = listing_text l in
       if list_ex (\<lambda>kw. \<not> contains desc kw) (c_Keywords c) then False
       else if list_ex (\<lambda>ex. contains desc ex) (c_ExcludeKeys c) then False
       else True)"

definition lower_criteria :: "filter_criteria \<Rightarrow> filter_criteria" where
  "lower_criteria criteria = criteria
     \<lparr>c_Keywords := map to_lower (c_Keywords criteria),
      c_ExcludeKeys := map to_lower (c_ExcludeKeys criteria)\<rparr>"

text \<open>The loop over the listings with its accumulated result.\<close>

fun apply_loop :: "filter_criteria \<Rightarrow> raw_listing list \<Rightarrow> raw_listing list \<Rightarrow> raw_listing list" where
  "apply_loop c result [] = result"
| "apply_loop c result (l # ls) = apply_loop c (if matches c l then result @ [l] else result) ls"

definition Apply :: "filter_criteria \<Rightarrow> raw_listing list \<Rightarrow> raw_listing list" where
  "Apply criteria listings = apply_loop (lower_criteria criteria) [] listings"

subsection \<open>Lemmas\<close>

lemma Apply_eq_filter: "Apply c ls = filter (matches (lower_criteria c)) ls"
proof -
  have "apply_loop d acc ls = acc @ filter (matches d) ls" for d acc
    by (induction ls arbitrary: acc) auto
  then show ?thesis by (simp add: Apply_def)
qed

lemma lower_criteria_idem: "lower_criteria (lower_criteria c) = lower_criteria c"
  by (simp add: lower_criteria_def comp_def)

text \<open>Running the filter on its own output changes nothing.\<close>

lemma Apply_idem: "Apply c (Apply c ls) = Apply c ls"
  by (simp add: Apply_eq_filter)

lemma Apply_append: "Apply c (ls @ ms) = Apply c ls @ Apply c ms"
  by (simp add: Apply_eq_filter)

text \<open>The chain of early returns as one conjunction: the form every proof below uses.\<close>

lemmas matches_conj = matches_def [unfolded early_false Let_def]

text \<open>Every branch of the chain rejects, whatever the other fields say.\<close>

lemma matches_rejects:
  "c_ManufacturerID c > 0 \<Longrightarrow> rl_ManufacturerID l \<noteq> c_ManufacturerID c \<Longrightarrow> \<not> matches c l"
  "c_ModelID c > 0 \<Longrightarrow> rl_ModelID l \<noteq> c_ModelID c \<Longrightarrow> \<not> matches c l"
  "c_PriceMin c > 0 \<Longrightarrow> rl_Price l > 0 \<Longrightarrow> rl_Price l < c_PriceMin c \<Longrightarrow> \<not> matches c l"
  "c_PriceMax c > 0 \<Longrightarrow> rl_Price l > c_PriceMax c \<Longrightarrow> \<not> matches c l"
  "c_YearMin c > 0 \<Longrightarrow> rl_Year l < c_YearMin c \<Longrightarrow> \<not> matches c l"
  "c_YearMax c > 0 \<Longrightarrow> rl_Year l > c_YearMax c \<Longrightarrow> \<not> matches c l"
  "c_EngineMinCC c > 0 \<Longrightarrow> rl_EngineVolume l < c_EngineMinCC c \<Longrightarrow> \<not> matches c l"
  "c_MaxKm c > 0 \<Longrightarrow> rl_Km l > 0 \<Longrightarrow> rl_Km l > c_MaxKm c \<Longrightarrow> \<not> matches c l"
  "c_MaxHand c > 0 \<Longrightarrow> rl_Hand l > c_MaxHand c \<Longrightarrow> \<not> matches c l"
  by (simp_all only: matches_def if_True simp_thms if_cancel not_False_eq_True)

lemma matches_price_bounds:
  assumes "matches c l" "0 < rl_Price l"
  shows "c_PriceMin c > 0 \<Longrightarrow> c_PriceMin c \<le> rl_Price l"
    and "c_PriceMax c > 0 \<Longrightarrow> rl_Price l \<le> c_PriceMax c"
  using assms matches_rejects(3,4) by (meson not_le)+

text \<open>An unset criterion (zero, empty, false) constrains nothing.\<close>

definition no_criteria :: filter_criteria where
  "no_criteria =
    \<lparr>c_ManufacturerID = 0, c_ModelID = 0, c_YearMin = 0, c_YearMax = 0, c_PriceMin = 0, c_PriceMax = 0,
     c_EngineMinCC = 0, c_EngineMaxCC = 0, c_MaxKm = 0, c_MaxHand = 0, c_Keywords = [], c_ExcludeKeys = [],
     c_GearBox = [], c_SellerFilter = [], c_PriceOnly = False, c_PhotoOnly = False\<rparr>"

lemma seller_rejects_empty [simp]: "\<not> seller_rejects [] x"
  by (simp add: seller_rejects_def Let_def trim_space_def)

lemma matches_no_criteria: "matches no_criteria l"
  unfolding matches_conj by (simp add: no_criteria_def)

lemma lower_no_criteria: "lower_criteria no_criteria = no_criteria"
  by (simp add: lower_criteria_def no_criteria_def)

lemma Apply_no_criteria: "Apply no_criteria ls = ls"
  by (simp add: Apply_eq_filter lower_no_criteria matches_no_criteria)

text \<open>The seller filter of the post-fetch filter lets an unknown seller through, unlike
  \<open>RawListingMatchesSellerFilter\<close>; on a known seller they agree.\<close>

lemma seller_rejects_known:
  "seller_rejects f (Some b) \<longleftrightarrow> \<not> RawListingMatchesSellerFilter (Some b) f"
  by (auto simp: seller_rejects_def RawListingMatchesSellerFilter_def NormalizeSellerFilter_def Let_def)

lemma seller_rejects_unknown: "\<not> seller_rejects f None"
  by (simp add: seller_rejects_def Let_def)

end
