(* ===== verification/Percolator.thy ===== *)
theory Percolator
  imports ListingFilter
begin

section \<open>Reverse matching of listings against searches (internal/percolator/percolator.go)\<close>

text \<open>
  The percolator holds a snapshot of the active searches and answers which of them a listing
  satisfies. Its own filter \<open>matchesSearch\<close> works on a search directly; \<open>classifyRejection\<close>
  repeats the chain and names the first test that failed.
\<close>

record match_result =
  mr_SearchID :: int
  mr_ChatID :: int
  mr_SearchName :: string
  mr_Search :: search

record percolator =
  pc_rules :: "search list"

definition percolator_New :: percolator where
  "percolator_New = \<lparr>pc_rules = []\<rparr>"

definition Load :: "percolator \<Rightarrow> search list \<Rightarrow> percolator" where
  "Load p searches = p\<lparr>pc_rules := searches\<rparr>"

text \<open>One keyword of a comma-separated list, as the percolator reads it.\<close>

definition perc_keywords :: "string \<Rightarrow> string list" where
  "perc_keywords ks = map (\<lambda>kw. trim_space (to_lower kw)) (split_on (CHR '','') ks)"

definition matchesSearch :: "raw_listing \<Rightarrow> search \<Rightarrow> bool" where
  "matchesSearch l s =
    (if s_Manufacturer s > 0 \<and> rl_ManufacturerID l \<noteq> s_Manufacturer s then False
     else if s_Model s > 0 \<and> rl_ModelID l \<noteq> s_Model s then False
     else if s_YearMin s > 0 \<and> rl_Year l < s_YearMin s then False
     else if s_YearMax s > 0 \<and> rl_Year l > s_YearMax s then False
     else if s_PriceMin s > 0 \<and> rl_Price l > 0 \<and> rl_Price l < s_PriceMin s then False
     else if s_PriceMax s > 0 \<and> rl_Price l > s_PriceMax s then False
     else if s_MaxKm s > 0 \<and> rl_Km l > 0 \<and> rl_Km l > s_MaxKm s then False
     else if s_MaxHand s > 0 \<and> rl_Hand l > s_MaxHand s then False
     else if s_EngineMinCC s > 0 \<and> go_trunc (rl_EngineVolume l) < s_EngineMinCC s then False
     else if s_GearBox s \<noteq> [] \<and> rl_GearBox l \<noteq> [] \<and> \<not> equal_fold (s_GearBox s) (rl_GearBox l) then False
     else if seller_rejects (s_SellerFilter s) (rl_Commercial l) then False
     else if s_PriceOnly s \<and> rl_Price l \<le> 0 then False
     else if s_PhotoOnly s \<and> rl_ImageURL l = [] then False
     else if s_Keywords s \<noteq> [] \<and>
       (let desc = listing_text l in
        list_ex (\<lambda>kw. kw \<noteq> [] \<and> \<not> contains desc kw) (perc_keywords (s_Keywords s))) then False
     else if s_ExcludeKeys s \<noteq> [] \<and>
       (let desc = listing_text l in
        list_ex (\<lambda>kw. kw \<noteq> [] \<and> contains desc kw) (perc_keywords (s_ExcludeKeys s))) then False
     else True)"

datatype reject_reason =
    RejectWrongModel | RejectYearOut | RejectPriceOut | RejectKmOver
  | RejectHandOver | RejectEngineCC | RejectSeller | RejectOtherFilter

text \<open>\<open>None\<close> is the empty reason of the code.\<close>

definition classifyRejection :: "raw_listing \<Rightarrow> search \<Rightarrow> reject_reason option" where
  "classifyRejection l s =
    (if s_Manufacturer s > 0 \<and> rl_ManufacturerID l \<noteq> s_Manufacturer s then Some RejectWrongModel
     else if s_Model s > 0 \<and> rl_ModelID l \<noteq> s_Model s then Some RejectWrongModel
     else if s_YearMin s > 0 \<and> rl_Year l < s_YearMin s then Some RejectYearOut
     else if s_YearMax s > 0 \<and> rl_Year l > s_YearMax s then Some RejectYearOut
     else if s_PriceMin s > 0 \<and> rl_Price l > 0 \<and> rl_Price l < s_PriceMin s then Some RejectPriceOut
     else if s_PriceMax s > 0 \<and> rl_Price l > s_PriceMax s then Some RejectPriceOut
     else if s_MaxKm s > 0 \<and> rl_Km l > 0 \<and> rl_Km l > s_MaxKm s then Some RejectKmOver
     else if s_MaxHand s > 0 \<and> rl_Hand l > s_MaxHand s then Some RejectHandOver
     else if s_EngineMinCC s > 0 \<and> go_trunc (rl_EngineVolume l) < s_EngineMinCC s then Some RejectEngineCC
     else if s_GearBox s \<noteq> [] \<and> rl_GearBox l \<noteq> [] \<and> \<not> equal_fold (s_GearBox s) (rl_GearBox l)
       then Some RejectOtherFilter
     else if seller_rejects (s_SellerFilter s) (rl_Commercial l) then Some RejectSeller
     else if s_PriceOnly s \<and> rl_Price l \<le> 0 then Some RejectOtherFilter
     else if s_PhotoOnly s \<and> rl_ImageURL l = [] then Some RejectOtherFilter
     else if s_Keywords s \<noteq> [] \<and>
       (let desc = listing_text l in
        list_ex (\<lambda>kw. kw \<noteq> [] \<and> \<not> contains desc kw) (perc_keywords (s_Keywords s))) then Some RejectOtherFilter
     else if s_ExcludeKeys s \<noteq> [] \<and>
       (let desc = listing_text l in
        list_ex (\<lambda>kw. kw \<noteq> [] \<and> contains desc kw) (perc_keywords (s_ExcludeKeys s))) then Some RejectOtherFilter
     else None)"

fun match_loop :: "raw_listing \<Rightarrow> match_result list \<Rightarrow> search list \<Rightarrow> match_result list" where
  "match_loop l acc [] = acc"
| "match_loop l acc (s # ss) =
     match_loop l
       (if matchesSearch l s
        then acc @ [\<lparr>mr_SearchID = s_ID s, mr_ChatID = s_ChatID s, mr_SearchName = s_Name s, mr_Search = s\<rparr>]
        else acc) ss"

definition Match :: "percolator \<Rightarrow> raw_listing \<Rightarrow> match_result list" where
  "Match p listing = match_loop listing [] (pc_rules p)"

text \<open>Counts per reason; a reason that is absent from the Go map reads as 0.\<close>

type_synonym reject_counts = "reject_reason \<Rightarrow> int"

fun count_loop :: "search \<Rightarrow> reject_counts \<Rightarrow> raw_listing list \<Rightarrow> reject_counts" where
  "count_loop s counts [] = counts"
| "count_loop s counts (l # ls) =
     (case classifyRejection l s of
        None \<Rightarrow> count_loop s counts ls
      | Some r \<Rightarrow> count_loop s (counts(r := counts r + 1)) ls)"

fun rejections_loop :: "raw_listing list \<Rightarrow> (int \<rightharpoonup> reject_counts) \<Rightarrow> search list \<Rightarrow> (int \<rightharpoonup> reject_counts)" where
  "rejections_loop ls result [] = result"
| "rejections_loop ls result (s # ss) =
     rejections_loop ls (result(s_ID s \<mapsto> count_loop s (\<lambda>_. 0) ls)) ss"

definition CountRejections :: "percolator \<Rightarrow> raw_listing list \<Rightarrow> (int \<rightharpoonup> reject_counts)" where
  "CountRejections p listings = rejections_loop listings Map.empty (pc_rules p)"


subsection \<open>Lemmas\<close>

lemmas matchesSearch_conj = matchesSearch_def [unfolded early_false Let_def]

lemma Match_eq:
  "Match p l = map (\<lambda>s. \<lparr>mr_SearchID = s_ID s, mr_ChatID = s_ChatID s, mr_SearchName = s_Name s, mr_Search = s\<rparr>)
     (filter (matchesSearch l) (pc_rules p))"
proof -
  have "match_loop l acc ss = acc @ map (\<lambda>s. \<lparr>mr_SearchID = s_ID s, mr_ChatID = s_ChatID s,
      mr_SearchName = s_Name s, mr_Search = s\<rparr>) (filter (matchesSearch l) ss)" for acc ss
    by (induction ss arbitrary: acc) auto
  then show ?thesis by (simp add: Match_def)
qed

lemma classifyRejection_None_iff: "classifyRejection l s = None \<longleftrightarrow> matchesSearch l s"
  unfolding matchesSearch_conj classifyRejection_def by (simp only: early_None Let_def simp_thms)

lemma perc_keywords_lower:
  "perc_keywords ks = map (\<lambda>k. to_lower (trim_space k)) (split_on (CHR '','') ks)"
  by (simp add: perc_keywords_def trim_to_lower)

lemma count_loop_add:
  "count_loop s counts ls r = counts r + int (length (filter (\<lambda>l. classifyRejection l s = Some r) ls))"
  by (induction ls arbitrary: counts) (auto split: option.splits)

lemma reject_reason_UNIV:
  "(UNIV :: reject_reason set) = {RejectWrongModel, RejectYearOut, RejectPriceOut, RejectKmOver,
     RejectHandOver, RejectEngineCC, RejectSeller, RejectOtherFilter}"
  using reject_reason.exhaust by auto

lemma finite_reject_reason [simp]: "finite (UNIV :: reject_reason set)"
  by (simp add: reject_reason_UNIV)

lemma count_loop_total:
  "(\<Sum>r\<in>UNIV. count_loop s (\<lambda>_. 0) ls r) = int (length (filter (\<lambda>l. \<not> matchesSearch l s) ls))"
proof (induction ls)
  case (Cons l ls)
  have split: "count_loop s (\<lambda>_. 0) (l # ls) r =
      (if classifyRejection l s = Some r then 1 else 0) + count_loop s (\<lambda>_. 0) ls r" for r
    by (simp add: count_loop_add split: option.splits)
  have one: "(\<Sum>r\<in>UNIV. if classifyRejection l s = Some r then 1 else (0::int)) =
      (if matchesSearch l s then 0 else 1)"
  proof (cases "classifyRejection l s")
    case None
    then have "matchesSearch l s" by (simp add: classifyRejection_None_iff)
    with None show ?thesis by simp
  next
    case (Some r0)
    then have "\<not> matchesSearch l s" using classifyRejection_None_iff [of l s] by simp
    moreover have "(\<Sum>r\<in>UNIV. if classifyRejection l s = Some r then 1 else (0::int)) =
        (\<Sum>r\<in>UNIV. if r = r0 then 1 else 0)"
      using Some by (intro sum.cong) auto
    ultimately show ?thesis by simp
  qed
  show ?case using Cons by (simp only: split sum.distrib one) simp
qed simp

lemma rejections_loop_lookup:
  "rejections_loop ls m ss i =
     (case filter (\<lambda>s. s_ID s = i) ss of [] \<Rightarrow> m i
      | _ \<Rightarrow> Some (count_loop (last (filter (\<lambda>s. s_ID s = i) ss)) (\<lambda>_. 0) ls))"
  by (induction ss arbitrary: m) (auto split: list.splits)

text \<open>A keyword list rejects the same listings in both readings: lowercased after trimming
  (filter) or before (percolator), empty pieces dropped early or skipped late.\<close>

lemma keyword_readings_agree:
  "list_ex P (map to_lower (filter (\<lambda>k. k \<noteq> []) (map trim_space ks))) =
   list_ex (\<lambda>kw. kw \<noteq> [] \<and> P kw) (map (\<lambda>k. to_lower (trim_space k)) ks)"
  by (induction ks) auto

lemma perc_keywords_empty: "perc_keywords [] = [[]]"
  by (simp add: perc_keywords_def trim_space_def to_lower_def)

lemma guard_keywords:
  "(ks \<noteq> [] \<and> list_ex (\<lambda>kw. kw \<noteq> [] \<and> P kw) (perc_keywords ks)) =
    list_ex (\<lambda>kw. kw \<noteq> [] \<and> P kw) (perc_keywords ks)"
  by (cases "ks = []") (simp_all add: perc_keywords_empty)

lemma engine_readings_agree:
  "((0::real) < of_int n \<and> v < of_int n) \<longleftrightarrow> (0 < n \<and> go_trunc v < n)"
  by (auto simp: go_trunc_less_iff)

lemma lower_criteria_keywords:
  "c_Keywords (lower_criteria (FilterCriteriaFromSearch s)) =
     map to_lower (filter (\<lambda>k. k \<noteq> []) (map trim_space (split_on (CHR '','') (s_Keywords s))))"
  "c_ExcludeKeys (lower_criteria (FilterCriteriaFromSearch s)) =
     map to_lower (filter (\<lambda>k. k \<noteq> []) (map trim_space (split_on (CHR '','') (s_ExcludeKeys s))))"
  by (simp_all add: lower_criteria_def criteria_keywords criteria_exclude)

lemma lower_criteria_fields:
  "c_ManufacturerID (lower_criteria c) = c_ManufacturerID c" "c_ModelID (lower_criteria c) = c_ModelID c"
  "c_YearMin (lower_criteria c) = c_YearMin c" "c_YearMax (lower_criteria c) = c_YearMax c"
  "c_PriceMin (lower_criteria c) = c_PriceMin c" "c_PriceMax (lower_criteria c) = c_PriceMax c"
  "c_EngineMinCC (lower_criteria c) = c_EngineMinCC c" "c_EngineMaxCC (lower_criteria c) = c_EngineMaxCC c"
  "c_MaxKm (lower_criteria c) = c_MaxKm c" "c_MaxHand (lower_criteria c) = c_MaxHand c"
  "c_GearBox (lower_criteria c) = c_GearBox c" "c_SellerFilter (lower_criteria c) = c_SellerFilter c"
  "c_PriceOnly (lower_criteria c) = c_PriceOnly c" "c_PhotoOnly (lower_criteria c) = c_PhotoOnly c"
  by (simp_all add: lower_criteria_def)

subsection \<open>Properties\<close>

text \<open>C13. The percolator and the post-fetch filter are the same test: a listing matches a search in
  the percolator exactly when it passes the filter built from that search, so the scheduler (which
  percolates) and the extension ingest (which filters) accept the same listings. The two routines
  order their tests differently, read the engine size as an integer or as a float, and treat the
  keyword lists in different orders of trimming and lowercasing; none of it matters.\<close>

theorem percolator_agrees_with_filter:
  "Apply (FilterCriteriaFromSearch s) ls = filter (\<lambda>l. matchesSearch l s) ls"
proof -
  have "matches (lower_criteria (FilterCriteriaFromSearch s)) l = matchesSearch l s" for l
    unfolding matches_conj matchesSearch_conj lower_criteria_keywords lower_criteria_fields criteria_fields
      keyword_readings_agree perc_keywords_lower [symmetric] guard_keywords engine_readings_agree
      equal_fold_sym [of "rl_GearBox l"]
    by (simp only: less_irrefl simp_thms conj_ac)
  then show ?thesis by (simp add: Apply_eq_filter cong: filter_cong)
qed

text \<open>The rejection report is exact: for every rule the percolator counts, the counts over the
  eight reasons and the number of listings the rule matches add up to the number of listings
  checked; no listing is counted twice or lost. When two rules share an identifier the last one is
  reported, as in the Go map.\<close>

lemma rejection_counts_partition:
  assumes "CountRejections p ls i = Some counts"
  shows "\<exists>s\<in>set (pc_rules p). s_ID s = i \<and>
    (\<Sum>r\<in>UNIV. counts r) + int (length (filter (\<lambda>l. matchesSearch l s) ls)) = int (length ls)"
proof -
  let ?same = "filter (\<lambda>s. s_ID s = i) (pc_rules p)"
  from assms have ne: "?same \<noteq> []" and c: "counts = count_loop (last ?same) (\<lambda>_. 0) ls"
    by (auto simp: CountRejections_def rejections_loop_lookup split: list.splits)
  from ne have "last ?same \<in> set ?same" by (rule last_in_set)
  moreover have "(\<Sum>r\<in>UNIV. counts r) +
      int (length (filter (\<lambda>l. matchesSearch l (last ?same)) ls)) = int (length ls)"
    unfolding c count_loop_total
    using sum_length_filter_compl [of "\<lambda>l. matchesSearch l (last ?same)" ls] by simp
  ultimately show ?thesis by (intro bexI [of _ "last ?same"]) auto
qed

lemma rejection_counts_partition_witness:
  "\<exists>s\<in>set (pc_rules (Load percolator_New [zero_search\<lparr>s_ID := 7, s_MaxHand := 2\<rparr>])). s_ID s = 7 \<and>
    (\<Sum>r\<in>UNIV. ((\<lambda>_. 0)(RejectHandOver := 1)) r) +
      int (length (filter (\<lambda>l. matchesSearch l s) [zero_raw_listing\<lparr>rl_Hand := 3\<rparr>])) =
      int (length [zero_raw_listing\<lparr>rl_Hand := 3\<rparr>])"
proof (rule rejection_counts_partition)
  have "classifyRejection (zero_raw_listing\<lparr>rl_Hand := 3\<rparr>) (zero_search\<lparr>s_ID := 7, s_MaxHand := 2\<rparr>)
      = Some RejectHandOver"
    by (simp add: classifyRejection_def zero_search_def zero_raw_listing_def)
  then show "CountRejections (Load percolator_New [zero_search\<lparr>s_ID := 7, s_MaxHand := 2\<rparr>])
      [zero_raw_listing\<lparr>rl_Hand := 3\<rparr>] 7 = Some ((\<lambda>_. 0)(RejectHandOver := 1))"
    by (simp add: CountRejections_def Load_def percolator_New_def zero_search_def)
qed

end
