(* ===== verification/Market.thy ===== *)
theory Market
  imports Model
begin

section \<open>Market medians and deal scores (internal/scoring)\<close>

text \<open>
  The market cache of internal/scoring/scoring.go with its two construction paths (raw listings,
  pre-computed medians), the median, the deal score with its mileage adjustment, and the
  suspicious-listing detector of internal/scoring/suspicious.go.
\<close>

abbreviation MinCohortSize :: int where "MinCohortSize \<equiv> 10"
abbreviation minPriceFloor :: int where "minPriceFloor \<equiv> 5000"

record listing_data =
  ld_Manufacturer :: string
  ld_Model :: string
  ld_Year :: int
  ld_Price :: int
  ld_Km :: int

record entry =
  e_Year :: int
  e_Price :: int
  e_Km :: int

record median_entry =
  me_Manufacturer :: string
  me_Model :: string
  me_Year :: int
  me_MedianPrice :: int
  me_MedianKm :: int
  me_CohortSize :: int

record lookup_result =
  lr_median :: int
  lr_medianKm :: int
  lr_cohortSize :: int
  lr_ok :: bool

text \<open>A nil map reads as empty; \<open>precomputed\<close> is tested for nil, so it is an option.\<close>

record market_cache =
  mc_raw :: "string \<rightharpoonup> entry list"
  mc_precomputed :: "(string \<rightharpoonup> lookup_result) option"

definition cacheKey :: "string \<Rightarrow> string \<Rightarrow> string" where
  "cacheKey manufacturer model = to_lower manufacturer @ ''|'' @ to_lower model"

definition medianKey :: "string \<Rightarrow> string \<Rightarrow> int \<Rightarrow> string" where
  "medianKey manufacturer model year =
     to_lower manufacturer @ ''|'' @ to_lower model @ ''|'' @ itoa year"

fun raw_cache_loop :: "(string \<rightharpoonup> entry list) \<Rightarrow> listing_data list \<Rightarrow> (string \<rightharpoonup> entry list)" where
  "raw_cache_loop m [] = m"
| "raw_cache_loop m (l # ls) =
     (let key = cacheKey (ld_Manufacturer l) (ld_Model l);
          e = \<lparr>e_Year = ld_Year l, e_Price = ld_Price l, e_Km = ld_Km l\<rparr>
      in raw_cache_loop (m(key \<mapsto> (case m key of None \<Rightarrow> [] | Some es \<Rightarrow> es) @ [e])) ls)"

definition NewMarketCache :: "listing_data list \<Rightarrow> market_cache" where
  "NewMarketCache listings = \<lparr>mc_raw = raw_cache_loop Map.empty listings, mc_precomputed = None\<rparr>"

fun median_cache_loop :: "(string \<rightharpoonup> lookup_result) \<Rightarrow> median_entry list \<Rightarrow> (string \<rightharpoonup> lookup_result)" where
  "median_cache_loop m [] = m"
| "median_cache_loop m (e # es) =
     median_cache_loop (m(medianKey (me_Manufacturer e) (me_Model e) (me_Year e) \<mapsto>
       \<lparr>lr_median = me_MedianPrice e, lr_medianKm = me_MedianKm e, lr_cohortSize = me_CohortSize e,
        lr_ok = me_CohortSize e \<ge> MinCohortSize\<rparr>)) es"

definition NewMarketCacheFromMedians :: "median_entry list \<Rightarrow> market_cache" where
  "NewMarketCacheFromMedians entries =
     \<lparr>mc_raw = Map.empty, mc_precomputed = Some (median_cache_loop Map.empty entries)\<rparr>"

definition medianInt :: "int list \<Rightarrow> int" where
  "medianInt vals =
    (if vals = [] then 0
     else let s = sort vals; n = length s in
       if n mod 2 = 0 then go_div (s ! (n div 2 - 1) + s ! (n div 2)) 2
       else s ! (n div 2))"

text \<open>The accumulating loop over the years \<open>year - 1\<close>, \<open>year\<close>, \<open>year + 1\<close>.\<close>

fun precomputed_loop ::
  "(string \<rightharpoonup> lookup_result) \<Rightarrow> string \<Rightarrow> string \<Rightarrow> int \<Rightarrow> int list \<Rightarrow> int \<times> int \<times> int \<Rightarrow> int \<times> int \<times> int" where
  "precomputed_loop m mf md year [] acc = acc"
| "precomputed_loop m mf md year (dy # dys) (totalPrice, totalKm, totalCohort) =
     (case m (medianKey mf md (year + dy)) of
        Some res \<Rightarrow>
          if lr_ok res then
            precomputed_loop m mf md year dys
              (totalPrice + lr_median res * lr_cohortSize res,
               totalKm + lr_medianKm res * lr_cohortSize res,
               totalCohort + lr_cohortSize res)
          else precomputed_loop m mf md year dys (totalPrice, totalKm, totalCohort)
      | None \<Rightarrow> precomputed_loop m mf md year dys (totalPrice, totalKm, totalCohort))"

definition lookupPrecomputed ::
  "(string \<rightharpoonup> lookup_result) \<Rightarrow> string \<Rightarrow> string \<Rightarrow> int \<Rightarrow> int \<times> int \<times> int \<times> bool" where
  "lookupPrecomputed m manufacturer model year =
    (let (totalPrice, totalKm, totalCohort) = precomputed_loop m manufacturer model year [-1, 0, 1] (0, 0, 0)
     in if totalCohort < MinCohortSize then (0, 0, 0, False)
        else (go_div totalPrice totalCohort, go_div totalKm totalCohort, totalCohort, True))"

text \<open>The band of the raw path: a year of distance at most one and a real price.\<close>

definition in_band :: "int \<Rightarrow> entry \<Rightarrow> bool" where
  "in_band year e \<longleftrightarrow> \<bar>e_Year e - year\<bar> \<le> 1 \<and> e_Price e \<ge> minPriceFloor"

fun band_loop :: "int \<Rightarrow> int list \<times> int list \<Rightarrow> entry list \<Rightarrow> int list \<times> int list" where
  "band_loop year acc [] = acc"
| "band_loop year (prices, kms) (e # es) =
     (if in_band year e
      then band_loop year (prices @ [e_Price e], if e_Km e > 0 then kms @ [e_Km e] else kms) es
      else band_loop year (prices, kms) es)"

definition computeFromRaw :: "market_cache \<Rightarrow> string \<Rightarrow> string \<Rightarrow> int \<Rightarrow> lookup_result" where
  "computeFromRaw mc manufacturer model year =
    (let entries = (case mc_raw mc (cacheKey manufacturer model) of None \<Rightarrow> [] | Some es \<Rightarrow> es);
         (prices, kms) = band_loop year ([], []) entries
     in if int (length prices) < MinCohortSize
        then \<lparr>lr_median = 0, lr_medianKm = 0, lr_cohortSize = int (length prices), lr_ok = False\<rparr>
        else \<lparr>lr_median = medianInt prices,
              lr_medianKm = (if length kms \<ge> 3 then medianInt kms else 0),
              lr_cohortSize = int (length prices), lr_ok = True\<rparr>)"

definition Lookup :: "market_cache \<Rightarrow> string \<Rightarrow> string \<Rightarrow> int \<Rightarrow> int \<times> int \<times> int \<times> bool" where
  "Lookup mc manufacturer model year =
    (case mc_precomputed mc of
       Some m \<Rightarrow> lookupPrecomputed m manufacturer model year
     | None \<Rightarrow> (let res = computeFromRaw mc manufacturer model year
                in (lr_median res, lr_medianKm res, lr_cohortSize res, lr_ok res)))"

subsection \<open>Deal scores\<close>

definition scoreRaw :: "int \<Rightarrow> int \<Rightarrow> int" where
  "scoreRaw listingPrice medianPrice =
    (if medianPrice \<le> 0 \<or> listingPrice \<le> 0 then 0
     else let raw = 100 * (1 - real_of_int listingPrice / real_of_int medianPrice) in
       if raw < 0 then 0
       else if raw > 100 then 100
       else go_round raw)"

definition Score :: "int \<Rightarrow> int \<Rightarrow> int" where
  "Score listingPrice medianPrice = scoreRaw listingPrice medianPrice"

definition ScoreWithKm :: "int \<Rightarrow> int \<Rightarrow> int \<Rightarrow> int \<Rightarrow> int" where
  "ScoreWithKm listingPrice listingKm medianPrice medianKm =
    (let base = scoreRaw listingPrice medianPrice in
     if medianKm \<le> 0 \<or> listingKm \<le> 0 then
       (if medianKm > 0 \<and> listingKm \<le> 0 then
          (let penalized = base - 5 in if penalized < 0 then 0 else penalized)
        else base)
     else
       let kmRatio = real_of_int listingKm / real_of_int medianKm;
           kmAdj = (1 - kmRatio) * 20;
           adjusted = real_of_int base + kmAdj
       in if adjusted < 0 then 0
          else if adjusted > 100 then 100
          else go_round adjusted)"

definition DetectSuspicious :: "raw_listing \<Rightarrow> int \<Rightarrow> string list" where
  "DetectSuspicious listing medianPrice =
    (let reasons = [];
         reasons = (if medianPrice > 0 \<and> rl_Price listing > 0 \<and> rl_Price listing < go_div medianPrice 2
           then reasons @ [''price_below_market''] else reasons);
         reasons = (if rl_ImageURL listing = [] \<and> medianPrice > 0 \<and> rl_Price listing > 0 \<and>
             rl_Price listing < go_div (medianPrice * 70) 100
           then reasons @ [''no_photo_low_price''] else reasons)
     in reasons)"


subsection \<open>Lemmas on the median\<close>

lemma go_half_between: "a \<le> b \<Longrightarrow> a \<le> go_div (a + b) 2 \<and> go_div (a + b) 2 \<le> b" for a b :: int
proof -
  assume "a \<le> b"
  consider "0 \<le> a + b" | "a + b < 0" by linarith
  then show ?thesis
  proof cases
    case 1
    with \<open>a \<le> b\<close> show ?thesis by (simp add: go_div_nonneg) linarith
  next
    case 2
    then have "go_div (a + b) 2 = - ((- a - b) div 2)" by (simp add: go_div_def)
    with 2 \<open>a \<le> b\<close> show ?thesis by linarith
  qed
qed

text \<open>The two middle elements of the sorted list, between which the median lies.\<close>

lemma medianInt_middle:
  assumes "vals \<noteq> []"
  shows "sort vals ! ((length vals - 1) div 2) \<le> medianInt vals"
    and "medianInt vals \<le> sort vals ! (length vals div 2)"
proof -
  let ?s = "sort vals" and ?n = "length vals"
  have pos: "0 < ?n" using assms by simp
  have "?s ! ((?n - 1) div 2) \<le> medianInt vals \<and> medianInt vals \<le> ?s ! (?n div 2)"
  proof (cases "even ?n")
    case True
    then obtain k where k: "?n = 2 * k" and "0 < k" using pos by (auto elim: evenE)
    then have i: "(?n - 1) div 2 = k - 1" "?n div 2 = k" by linarith+
    have "?s ! (k - 1) \<le> ?s ! k" by (rule sorted_nth_mono) (use k \<open>0 < k\<close> in auto)
    from go_half_between [OF this] show ?thesis
      using True assms i by (simp add: medianInt_def Let_def even_iff_mod_2_eq_zero)
  next
    case False
    then have "(?n - 1) div 2 = ?n div 2" by presburger
    with False assms show ?thesis
      by (simp add: medianInt_def Let_def even_iff_mod_2_eq_zero)
  qed
  then show "?s ! ((?n - 1) div 2) \<le> medianInt vals" "medianInt vals \<le> ?s ! (?n div 2)" by simp_all
qed

lemma medianInt_mset: "mset xs = mset ys \<Longrightarrow> medianInt xs = medianInt ys"
proof -
  assume m: "mset xs = mset ys"
  then have "sort xs = sort ys" by (metis properties_for_sort sorted_sort mset_sort)
  moreover have "xs = [] \<longleftrightarrow> ys = []" using m by auto
  ultimately show ?thesis by (simp add: medianInt_def)
qed

lemma middle_in_set:
  assumes "vals \<noteq> []"
  shows "sort vals ! ((length vals - 1) div 2) \<in> set vals" "sort vals ! (length vals div 2) \<in> set vals"
proof -
  have in_set: "sort vals ! i \<in> set vals" if "i < length vals" for i
    using nth_mem [of i "sort vals"] that by simp
  have "(length vals - 1) div 2 < length vals" "length vals div 2 < length vals"
    using assms by (cases vals; simp)+
  then show "sort vals ! ((length vals - 1) div 2) \<in> set vals" "sort vals ! (length vals div 2) \<in> set vals"
    using in_set by blast+
qed

lemma medianInt_ge:
  assumes "vals \<noteq> []" "\<And>v. v \<in> set vals \<Longrightarrow> lo \<le> v"
  shows "lo \<le> medianInt vals"
  using assms(2) [OF middle_in_set(1) [OF assms(1)]] medianInt_middle(1) [OF assms(1)] by (rule order_trans)

lemma medianInt_le:
  assumes "vals \<noteq> []" "\<And>v. v \<in> set vals \<Longrightarrow> v \<le> hi"
  shows "medianInt vals \<le> hi"
  using medianInt_middle(2) [OF assms(1)] assms(2) [OF middle_in_set(2) [OF assms(1)]] by (rule order_trans)

subsection \<open>Lemmas on the two caches\<close>

lemma band_loop_eq:
  "band_loop year (ps, ks) es =
     (ps @ map e_Price (filter (in_band year) es),
      ks @ filter (\<lambda>k. k > 0) (map e_Km (filter (in_band year) es)))"
  by (induction es arbitrary: ps ks) auto

definition entry_of :: "listing_data \<Rightarrow> entry" where
  "entry_of l = \<lparr>e_Year = ld_Year l, e_Price = ld_Price l, e_Km = ld_Km l\<rparr>"

definition has_key :: "string \<Rightarrow> listing_data \<Rightarrow> bool" where
  "has_key k l \<longleftrightarrow> cacheKey (ld_Manufacturer l) (ld_Model l) = k"

lemma raw_cache_loop_entries:
  "(case raw_cache_loop m ls k of None \<Rightarrow> [] | Some es \<Rightarrow> es) =
     (case m k of None \<Rightarrow> [] | Some es \<Rightarrow> es) @ map entry_of (filter (has_key k) ls)"
  by (induction ls arbitrary: m) (auto simp: has_key_def entry_of_def Let_def)

lemma Lookup_raw:
  "Lookup (NewMarketCache ls) mf md year =
    (let es = filter (in_band year) (map entry_of (filter (has_key (cacheKey mf md)) ls));
         ks = filter (\<lambda>k. k > 0) (map e_Km es)
     in if int (length es) < MinCohortSize then (0, 0, int (length es), False)
        else (medianInt (map e_Price es), if length ks \<ge> 3 then medianInt ks else 0, int (length es), True))"
  using raw_cache_loop_entries [of Map.empty ls "cacheKey mf md"]
  by (simp add: Lookup_def NewMarketCache_def computeFromRaw_def band_loop_eq Let_def)

lemma median_cache_loop_source:
  "median_cache_loop m es k = Some r \<Longrightarrow>
     m k = Some r \<or> (\<exists>e\<in>set es. lr_median r = me_MedianPrice e \<and> lr_medianKm r = me_MedianKm e \<and>
       lr_cohortSize r = me_CohortSize e \<and> lr_ok r = (me_CohortSize e \<ge> MinCohortSize))"
  by (induction es arbitrary: m) (fastforce split: if_splits)+

lemma precomputed_loop_bounds:
  assumes src: "\<And>k r. m k = Some r \<Longrightarrow> lr_ok r \<Longrightarrow> lr_cohortSize r \<ge> 0 \<and> lo \<le> lr_median r \<and> lr_median r \<le> hi"
    and acc: "lo * tc \<le> tp" "tp \<le> hi * tc"
    and res: "precomputed_loop m mf md year dys (tp, tk, tc) = (tp', tk', tc')"
  shows "lo * tc' \<le> tp' \<and> tp' \<le> hi * tc'"
  using acc res
proof (induction dys arbitrary: tp tk tc)
  case (Cons dy dys)
  show ?case
  proof (cases "m (medianKey mf md (year + dy))")
    case None
    with Cons show ?thesis by simp
  next
    case (Some r)
    show ?thesis
    proof (cases "lr_ok r")
      case True
      with src [OF Some] have b: "lr_cohortSize r \<ge> 0" "lo \<le> lr_median r" "lr_median r \<le> hi" by auto
      from b have "lo * lr_cohortSize r \<le> lr_median r * lr_cohortSize r"
        "lr_median r * lr_cohortSize r \<le> hi * lr_cohortSize r" by (simp_all add: mult_right_mono)
      then have "lo * (tc + lr_cohortSize r) \<le> tp + lr_median r * lr_cohortSize r"
        "tp + lr_median r * lr_cohortSize r \<le> hi * (tc + lr_cohortSize r)"
        using Cons.prems by (simp_all add: distrib_left)
      from Cons.IH [OF this] show ?thesis using Cons.prems(3) Some True by simp
    qed (use Cons Some in simp)
  qed
qed simp

text \<open>A cohort below the minimum never contributes to the pre-computed path.\<close>

lemma precomputed_loop_no_ok:
  assumes "\<And>k r. m k = Some r \<Longrightarrow> \<not> lr_ok r"
  shows "precomputed_loop m mf md year dys acc = acc"
proof -
  obtain tp tk tc where "acc = (tp, tk, tc)" by (metis prod_cases3)
  moreover have "precomputed_loop m mf md year dys (tp, tk, tc) = (tp, tk, tc)"
    using assms by (induction dys) (auto split: option.splits)
  ultimately show ?thesis by simp
qed

subsection \<open>Lemmas on the scores\<close>

lemma scoreRaw_range: "0 \<le> scoreRaw p m" "scoreRaw p m \<le> 100"
  using go_round_range [of 0 "100 * (1 - real_of_int p / real_of_int m)" 100]
  by (auto simp: scoreRaw_def Let_def not_less)

lemma scoreRaw_antimono:
  assumes "0 < p" "p \<le> q"
  shows "scoreRaw q m \<le> scoreRaw p m"
proof (cases "0 < m")
  case True
  let ?raw = "\<lambda>x. 100 * (1 - real_of_int x / real_of_int m)"
  have le: "?raw q \<le> ?raw p" using assms True by (simp add: divide_right_mono)
  consider "?raw q < 0" | "0 \<le> ?raw q" "100 < ?raw p" | "0 \<le> ?raw q" "?raw p \<le> 100" by linarith
  then show ?thesis
  proof cases
    case 1
    then have "scoreRaw q m = 0" using assms True by (simp add: scoreRaw_def Let_def)
    then show ?thesis using scoreRaw_range by simp
  next
    case 2
    then have "scoreRaw p m = 100" using assms True by (simp add: scoreRaw_def Let_def)
    then show ?thesis using scoreRaw_range by simp
  next
    case 3
    then have "\<not> ?raw q < 0" "\<not> ?raw q > 100" "\<not> ?raw p < 0" "\<not> ?raw p > 100" using le by linarith+
    then have "scoreRaw q m = go_round (?raw q)" "scoreRaw p m = go_round (?raw p)"
      using assms True by (simp_all add: scoreRaw_def Let_def)
    then show ?thesis using go_round_mono [OF le] by simp
  qed
qed (simp add: scoreRaw_def)

text \<open>Clamping a rounded value is rounding the clamped value: what both scores compute.\<close>

definition clamp_round :: "real \<Rightarrow> int" where
  "clamp_round x = (if x < 0 then 0 else if x > 100 then 100 else go_round x)"

lemma clamp_round_eq: "clamp_round x = go_round (min 100 (max 0 x))"
  using go_round_of_int [of 0] go_round_of_int [of 100] by (simp add: clamp_round_def)

lemma clamp_round_mono: "x \<le> y \<Longrightarrow> clamp_round x \<le> clamp_round y"
  unfolding clamp_round_eq by (rule go_round_mono) simp

lemma clamp_round_range: "0 \<le> clamp_round x" "clamp_round x \<le> 100"
  using go_round_range [of 0 "min 100 (max 0 x)" 100] by (simp_all add: clamp_round_eq)

lemma clamp_round_of_int: "0 \<le> n \<Longrightarrow> n \<le> 100 \<Longrightarrow> clamp_round (of_int n) = n"
  by (simp add: clamp_round_def)

lemma ScoreWithKm_known:
  "0 < km \<Longrightarrow> 0 < mk \<Longrightarrow> ScoreWithKm p km m mk =
     clamp_round (of_int (scoreRaw p m) + (1 - of_int km / of_int mk) * 20)"
  by (simp add: ScoreWithKm_def clamp_round_def Let_def)

lemma ScoreWithKm_unknown:
  "km \<le> 0 \<Longrightarrow> 0 < mk \<Longrightarrow> ScoreWithKm p km m mk = max 0 (scoreRaw p m - 5)"
  by (simp add: ScoreWithKm_def Let_def)

lemma ScoreWithKm_no_market_km: "mk \<le> 0 \<Longrightarrow> ScoreWithKm p km m mk = scoreRaw p m"
  by (simp add: ScoreWithKm_def)


subsection \<open>Properties\<close>

text \<open>\<open>medianInt\<close> is a median: at least half of the values are at or below it and at least half
  are at or above it, for odd and even lengths and with the truncating division of the middle pair,
  and it does not depend on the order of the values.\<close>

lemma medianInt_is_median:
  assumes "vals \<noteq> []"
  shows "length vals \<le> 2 * length (filter (\<lambda>v. v \<le> medianInt vals) vals) \<and>
    length vals \<le> 2 * length (filter (\<lambda>v. medianInt vals \<le> v) vals) \<and>
    medianInt (rev (sort vals)) = medianInt vals"
proof (intro conjI)
  let ?n = "length vals" and ?s = "sort vals" and ?m = "medianInt vals"
  have pos: "0 < ?n" using assms by simp
  have idx: "(?n - 1) div 2 < ?n" "?n div 2 < ?n" using pos by linarith+
  have low: "?s ! i \<le> ?m" if "i < (?n - 1) div 2 + 1" for i
  proof -
    have "?s ! i \<le> ?s ! ((?n - 1) div 2)"
      by (rule sorted_nth_mono) (use that idx in auto)
    then show ?thesis using medianInt_middle(1) [OF assms] by simp
  qed
  have "(?n - 1) div 2 + 1 \<le> length (filter (\<lambda>v. v \<le> ?m) ?s)"
    by (rule length_filter_prefix) (use idx low in auto)
  then show "?n \<le> 2 * length (filter (\<lambda>v. v \<le> ?m) vals)"
    unfolding length_filter_sort using pos by linarith
  have high: "?m \<le> ?s ! i" if "?n div 2 \<le> i" "i < length ?s" for i
  proof -
    have "?s ! (?n div 2) \<le> ?s ! i" by (rule sorted_nth_mono) (use that in auto)
    then show ?thesis using medianInt_middle(2) [OF assms] by simp
  qed
  have "length ?s - ?n div 2 \<le> length (filter (\<lambda>v. ?m \<le> v) ?s)"
    by (rule length_filter_suffix) (use idx high in auto)
  then show "?n \<le> 2 * length (filter (\<lambda>v. ?m \<le> v) vals)"
    unfolding length_filter_sort by simp
  show "medianInt (rev ?s) = ?m" by (rule medianInt_mset) simp
qed

lemma medianInt_is_median_witness:
  "medianInt [7, 1, 4, 2] = 3 \<and> (4::nat) \<le> 2 * length (filter (\<lambda>v. v \<le> medianInt [7, 1, 4, 2]) [7, 1, 4, 2])"
  using medianInt_is_median [of "[7, 1, 4, 2]"] by (simp add: medianInt_def go_div_def)

text \<open>The deal score is a score from 0 to 100 whatever the inputs, and it is fair: a cheaper
  listing of the same mileage and a listing of the same price with fewer kilometres never score
  lower. Rounding and the two clamps are included.\<close>

lemma deal_score_fair:
  assumes "0 < p" "p \<le> p'" "0 < km" "km \<le> km'" "0 < mk"
  shows "ScoreWithKm p' km' m mk \<le> ScoreWithKm p km m mk \<and>
    0 \<le> ScoreWithKm p' km' m mk \<and> ScoreWithKm p km m mk \<le> 100"
proof -
  have base: "scoreRaw p' m \<le> scoreRaw p m" by (rule scoreRaw_antimono) (use assms in auto)
  have "real_of_int km / of_int mk \<le> of_int km' / of_int mk"
    using assms by (simp add: divide_right_mono)
  moreover from base have "real_of_int (scoreRaw p' m) \<le> of_int (scoreRaw p m)" by simp
  ultimately have "of_int (scoreRaw p' m) + (1 - of_int km' / of_int mk) * 20
      \<le> of_int (scoreRaw p m) + (1 - real_of_int km / of_int mk) * 20"
    by (intro add_mono mult_right_mono diff_left_mono) simp_all
  from clamp_round_mono [OF this] show ?thesis
    using assms clamp_round_range by (simp add: ScoreWithKm_known)
qed

lemma deal_score_fair_witness:
  "ScoreWithKm 90000 120000 100000 100000 \<le> ScoreWithKm 80000 50000 100000 100000"
  using deal_score_fair [of 80000 90000 50000 120000 100000 100000] by simp

text \<open>Looking a car up in a cache built from raw listings does not depend on the order in which
  the listings came, and when it answers, the answer rests on at least ten listings of the year band
  and the median price is a real price, never below the placeholder floor.\<close>

lemma raw_lookup_sound:
  assumes "mset ls = mset ls'"
  shows "Lookup (NewMarketCache ls) mf md year = Lookup (NewMarketCache ls') mf md year \<and>
    (case Lookup (NewMarketCache ls) mf md year of (median, _, cohort, ok) \<Rightarrow>
       (ok \<longleftrightarrow> cohort \<ge> MinCohortSize) \<and> (ok \<longrightarrow> median \<ge> minPriceFloor))"
proof
  let ?es = "\<lambda>ls. filter (in_band year) (map entry_of (filter (has_key (cacheKey mf md)) ls))"
  let ?ks = "\<lambda>ls. filter (\<lambda>k. k > 0) (map e_Km (?es ls))"
  have es: "mset (?es ls) = mset (?es ls')" using assms by (simp only: mset_filter mset_map)
  then have ks: "mset (?ks ls) = mset (?ks ls')" by (simp only: mset_filter mset_map)
  have "mset (map e_Price (?es ls)) = mset (map e_Price (?es ls'))" using es by (simp only: mset_map)
  with ks have "medianInt (map e_Price (?es ls)) = medianInt (map e_Price (?es ls'))"
    "medianInt (?ks ls) = medianInt (?ks ls')" by (auto intro: medianInt_mset)
  moreover have "length (?es ls) = length (?es ls')" "length (?ks ls) = length (?ks ls')"
    using es ks by (metis size_mset)+
  ultimately show "Lookup (NewMarketCache ls) mf md year = Lookup (NewMarketCache ls') mf md year"
    unfolding Lookup_raw Let_def by simp
  have "minPriceFloor \<le> medianInt (map e_Price (?es ls))" if "\<not> int (length (?es ls)) < MinCohortSize"
  proof (rule medianInt_ge)
    show "map e_Price (?es ls) \<noteq> []" using that by (metis list.size(3) map_is_Nil_conv of_nat_0 zero_less_numeral)
    show "minPriceFloor \<le> v" if "v \<in> set (map e_Price (?es ls))" for v
      using that by (auto simp: in_band_def)
  qed
  then show "case Lookup (NewMarketCache ls) mf md year of (median, _, cohort, ok) \<Rightarrow>
       (ok \<longleftrightarrow> cohort \<ge> MinCohortSize) \<and> (ok \<longrightarrow> median \<ge> minPriceFloor)"
    unfolding Lookup_raw Let_def by simp
qed

lemma raw_lookup_sound_witness:
  "Lookup (NewMarketCache [\<lparr>ld_Manufacturer = ''Mazda'', ld_Model = ''3'', ld_Year = 2019, ld_Price = 70000, ld_Km = 5\<rparr>])
     ''Mazda'' ''3'' 2020 =
   Lookup (NewMarketCache (rev [\<lparr>ld_Manufacturer = ''Mazda'', ld_Model = ''3'', ld_Year = 2019, ld_Price = 70000, ld_Km = 5\<rparr>]))
     ''Mazda'' ''3'' 2020"
  by (rule conjunct1 [OF raw_lookup_sound]) simp

text \<open>The pre-computed path answers with a weighted average: when it answers, the cohort counts at
  least ten listings and the price lies between the bounds of the medians it was built from.\<close>

lemma precomputed_lookup_sound:
  assumes "\<And>e. e \<in> set es \<Longrightarrow> lo \<le> me_MedianPrice e \<and> me_MedianPrice e \<le> hi"
    and "0 \<le> lo"
    and "Lookup (NewMarketCacheFromMedians es) mf md year = (median, medianKm, cohort, True)"
  shows "MinCohortSize \<le> cohort \<and> lo \<le> median \<and> median \<le> hi"
proof -
  let ?m = "median_cache_loop Map.empty es"
  obtain tp tk tc where l: "precomputed_loop ?m mf md year [-1, 0, 1] (0, 0, 0) = (tp, tk, tc)"
    by (metis prod_cases3)
  with assms(3) have tc: "10 \<le> tc" and med: "median = go_div tp tc" "cohort = tc"
    by (auto simp: Lookup_def NewMarketCacheFromMedians_def lookupPrecomputed_def split: if_splits)
  have src: "lr_cohortSize r \<ge> 0 \<and> lo \<le> lr_median r \<and> lr_median r \<le> hi"
    if "?m k = Some r" "lr_ok r" for k r
    using median_cache_loop_source [OF that(1)] that(2) assms(1) by auto
  have b: "lo * tc \<le> tp" "tp \<le> hi * tc"
    using precomputed_loop_bounds [OF src _ _ l] by auto
  then have "0 \<le> tp" using tc \<open>0 \<le> lo\<close> by (smt (verit) mult_nonneg_nonneg)
  with tc have "go_div tp tc = tp div tc" by (simp add: go_div_nonneg)
  moreover have "lo \<le> tp div tc \<and> tp div tc \<le> hi" by (rule div_between) (use b tc in auto)
  ultimately show ?thesis using tc med by simp
qed

text \<open>A cohort too small to count is skipped: from medians of small cohorts the cache never answers,
  however many there are, although the raw path pools the same listings over the year band.\<close>

lemma small_cohorts_never_answer:
  assumes "\<And>e. e \<in> set es \<Longrightarrow> me_CohortSize e < MinCohortSize"
  shows "Lookup (NewMarketCacheFromMedians es) mf md year = (0, 0, 0, False)"
proof -
  have "\<not> lr_ok r" if "median_cache_loop Map.empty es k = Some r" for k r
    using median_cache_loop_source [OF that] assms by fastforce
  then have "precomputed_loop (median_cache_loop Map.empty es) mf md year [-1, 0, 1] (0, 0, 0) = (0, 0, 0)"
    by (rule precomputed_loop_no_ok)
  then show ?thesis
    by (simp add: Lookup_def NewMarketCacheFromMedians_def lookupPrecomputed_def del: precomputed_loop.simps)
qed

text \<open>The two construction paths disagree on thin cohorts. The code documents the pre-computed
  lookup as "matching the raw path behavior" over the year band. Five listings of 2019 and five of
  2020, aggregated per year as the materialised view does, give no answer in the pre-computed cache;
  the same ten listings in a raw cache do.\<close>

definition thin_medians :: "median_entry list" where
  "thin_medians = map (\<lambda>y. \<lparr>me_Manufacturer = ''Mazda'', me_Model = ''3'', me_Year = y,
     me_MedianPrice = 70000, me_MedianKm = 50000, me_CohortSize = 5\<rparr>) [2019, 2020]"

definition thin_listings :: "listing_data list" where
  "thin_listings = map (\<lambda>y. \<lparr>ld_Manufacturer = ''Mazda'', ld_Model = ''3'', ld_Year = y,
     ld_Price = 70000, ld_Km = 50000\<rparr>) (replicate 5 2019 @ replicate 5 2020)"

lemma precomputed_ignores_thin_cohorts:
  "Lookup (NewMarketCacheFromMedians thin_medians) ''Mazda'' ''3'' 2020 = (0, 0, 0, False) \<and>
   Lookup (NewMarketCache thin_listings) ''Mazda'' ''3'' 2020 = (70000, 50000, 10, True)"
proof
  show "Lookup (NewMarketCacheFromMedians thin_medians) ''Mazda'' ''3'' 2020 = (0, 0, 0, False)"
    by (rule small_cohorts_never_answer) (auto simp: thin_medians_def)
  have len: "filter (has_key (cacheKey ''Mazda'' ''3'')) thin_listings = thin_listings"
    by (simp add: thin_listings_def has_key_def numeral_eq_Suc)
  have band: "filter (in_band 2020) (map entry_of thin_listings) = map entry_of thin_listings"
    by (simp add: thin_listings_def in_band_def entry_of_def numeral_eq_Suc)
  have "map e_Price (map entry_of thin_listings) = replicate 10 70000"
    "map e_Km (map entry_of thin_listings) = replicate 10 50000"
    by (simp_all add: thin_listings_def entry_of_def numeral_eq_Suc)
  moreover have "medianInt (replicate 10 v) = v" for v
    using medianInt_ge [of "replicate 10 v" v] medianInt_le [of "replicate 10 v" v] by simp
  moreover have "length (map entry_of thin_listings) = 10" by (simp add: thin_listings_def)
  ultimately show "Lookup (NewMarketCache thin_listings) ''Mazda'' ''3'' 2020 = (70000, 50000, 10, True)"
    unfolding Lookup_raw len band Let_def by simp
qed

lemma precomputed_lookup_sound_witness:
  "MinCohortSize \<le> (12::int) \<and> (70000::int) \<le> 70000 \<and> (70000::int) \<le> 70000"
proof (rule precomputed_lookup_sound [of
    "[\<lparr>me_Manufacturer = ''m'', me_Model = ''x'', me_Year = 1, me_MedianPrice = 70000, me_MedianKm = 5, me_CohortSize = 12\<rparr>]"
    70000 70000 "''m''" "''x''" 1 70000 5 12])
  have k: "medianKey ''m'' ''x'' 0 \<noteq> medianKey ''m'' ''x'' 1" "medianKey ''m'' ''x'' 2 \<noteq> medianKey ''m'' ''x'' 1"
    by (simp_all add: medianKey_def itoa_def nat_digits.simps digit_char_def)
  then show "Lookup (NewMarketCacheFromMedians
     [\<lparr>me_Manufacturer = ''m'', me_Model = ''x'', me_Year = 1, me_MedianPrice = 70000, me_MedianKm = 5, me_CohortSize = 12\<rparr>])
     ''m'' ''x'' 1 = (70000, 5, 12, True)"
    by (simp add: Lookup_def NewMarketCacheFromMedians_def lookupPrecomputed_def go_div_nonneg)
qed auto

end
