(* ===== verification/Fitness.thy ===== *)
theory Fitness
  imports Model
begin

section \<open>Fitness scores (internal/scoring/scoring.go, second half)\<close>

text \<open>
  The additive baseline model: \<open>final = clamp (5 + condition + value + engine)\<close> with the three
  dimension deltas and the display scores between 0 and 1. The current year is an argument. The
  constants are the ones of the code; float64 is exact real arithmetic, \<open>math.Pow\<close> of a positive
  base is \<open>powr\<close>.
\<close>

subsection \<open>Constants\<close>

abbreviation (input) baselineScore :: real where "baselineScore \<equiv> 5"
abbreviation (input) expectedKmPerYear :: real where "expectedKmPerYear \<equiv> 15000"
abbreviation (input) kmLowThreshold :: real where "kmLowThreshold \<equiv> 85 / 100"
abbreviation (input) kmLowBonusScale :: real where "kmLowBonusScale \<equiv> 42 / 10"
abbreviation (input) kmDeadZonePenalty :: real where "kmDeadZonePenalty \<equiv> 3 / 10"
abbreviation (input) kmExcessSteepness :: real where "kmExcessSteepness \<equiv> 47 / 10"
abbreviation (input) kmExcessCap :: real where "kmExcessCap \<equiv> 15 / 10"
abbreviation (input) kmExcessExponent :: real where "kmExcessExponent \<equiv> 7 / 10"
abbreviation (input) hand1BonusBase :: real where "hand1BonusBase \<equiv> 5 / 10"
abbreviation (input) hand1AgeBonusRate :: real where "hand1AgeBonusRate \<equiv> 10 / 100"
abbreviation (input) hand1AgeBonusCap :: real where "hand1AgeBonusCap \<equiv> 8 / 10"
abbreviation (input) handExpectedRate :: real where "handExpectedRate \<equiv> 5"
abbreviation (input) handExcessPenalty :: real where "handExcessPenalty \<equiv> 11 / 10"
abbreviation (input) handBelowRate :: real where "handBelowRate \<equiv> 3 / 10"
abbreviation (input) handBelowCap :: real where "handBelowCap \<equiv> 3 / 10"
abbreviation (input) commercialHand1BonusFactor :: real where "commercialHand1BonusFactor \<equiv> 4 / 10"
abbreviation (input) leaseOriginPriceDisc :: real where "leaseOriginPriceDisc \<equiv> 4 / 100"
abbreviation (input) rentalOriginPriceDisc :: real where "rentalOriginPriceDisc \<equiv> 6 / 100"
abbreviation (input) condDeltaMin :: real where "condDeltaMin \<equiv> - 5"
abbreviation (input) condDeltaMax :: real where "condDeltaMax \<equiv> 45 / 10"
abbreviation (input) valDeltaMin :: real where "valDeltaMin \<equiv> - (35 / 10)"
abbreviation (input) valDeltaMax :: real where "valDeltaMax \<equiv> 25 / 10"
abbreviation (input) valCondGateThreshold :: real where "valCondGateThreshold \<equiv> 55 / 100"
abbreviation (input) valNeutralLo :: real where "valNeutralLo \<equiv> 92 / 100"
abbreviation (input) valNeutralHi :: real where "valNeutralHi \<equiv> 105 / 100"
abbreviation (input) valNeutralMaxPenalty :: real where "valNeutralMaxPenalty \<equiv> 3 / 10"
abbreviation (input) valOverpaySteepness :: real where "valOverpaySteepness \<equiv> 32 / 10"
abbreviation (input) valOverpaySpan :: real where "valOverpaySpan \<equiv> 30 / 100"
abbreviation (input) kmPriceAdjFactor :: real where "kmPriceAdjFactor \<equiv> 15 / 100"
abbreviation (input) handFirstPricePremium :: real where "handFirstPricePremium \<equiv> 5 / 100"
abbreviation (input) handExcessPriceDisc :: real where "handExcessPriceDisc \<equiv> 7 / 100"
abbreviation (input) budgetHighHeadroom :: real where "budgetHighHeadroom \<equiv> 30 / 100"
abbreviation (input) budgetHighBonus :: real where "budgetHighBonus \<equiv> 2"
abbreviation (input) budgetLowHeadroom :: real where "budgetLowHeadroom \<equiv> 10 / 100"
abbreviation (input) budgetLowPenalty :: real where "budgetLowPenalty \<equiv> 5 / 10"
abbreviation (input) budgetOverPenalty :: real where "budgetOverPenalty \<equiv> 1"
abbreviation (input) basePriceNeutralLo :: real where "basePriceNeutralLo \<equiv> 88 / 100"
abbreviation (input) basePriceNeutralHi :: real where "basePriceNeutralHi \<equiv> 110 / 100"
abbreviation (input) basePriceMaxBonus :: real where "basePriceMaxBonus \<equiv> 18 / 10"
abbreviation (input) basePriceMaxPenalty :: real where "basePriceMaxPenalty \<equiv> - (28 / 10)"
abbreviation (input) basePriceNeutralPenalty :: real where "basePriceNeutralPenalty \<equiv> 2 / 10"
abbreviation (input) basePriceOverpaySpan :: real where "basePriceOverpaySpan \<equiv> 30 / 100"
abbreviation (input) basePriceKmAdjFactor :: real where "basePriceKmAdjFactor \<equiv> 12 / 100"
abbreviation (input) engineDeltaMax :: real where "engineDeltaMax \<equiv> 1 / 10"
abbreviation (input) condWeight :: real where "condWeight \<equiv> 60 / 100"
abbreviation (input) valWeight :: real where "valWeight \<equiv> 35 / 100"
abbreviation (input) engineWeight :: real where "engineWeight \<equiv> 5 / 100"

record fitness_params =
  fp_Price :: int
  fp_Km :: int
  fp_Hand :: int
  fp_Year :: int
  fp_EngineVolume :: real
  fp_PriceMax :: int
  fp_MaxKm :: int
  fp_MaxHand :: int
  fp_YearMin :: int
  fp_YearMax :: int
  fp_EngineMinCC :: int
  fp_MedianPrice :: int
  fp_MedianKm :: int
  fp_BasePrice :: int
  fp_IsCommercial :: bool
  fp_OriginalOwnership :: string

record fitness_result =
  fr_Total :: real
  fr_Dims :: "fitness_dim list"

definition clamp01 :: "real \<Rightarrow> real" where
  "clamp01 v = (if v < 0 then 0 else if v > 1 then 1 else v)"

definition clampRange :: "real \<Rightarrow> real \<Rightarrow> real \<Rightarrow> real" where
  "clampRange v lo hi = (if v < lo then lo else if v > hi then hi else v)"

subsection \<open>Condition\<close>

definition computeKmDelta :: "int \<Rightarrow> int \<Rightarrow> real \<times> real" where
  "computeKmDelta km carAge =
    (if km \<le> 0 then (0, 5 / 10)
     else
       let expectedKm = of_int carAge * expectedKmPerYear;
           kmRatio = of_int km / expectedKm;
           delta =
             (if kmRatio \<le> kmLowThreshold then
                kmLowBonusScale * sqrt ((kmLowThreshold - kmRatio) / kmLowThreshold)
              else if kmRatio \<le> 1 then
                - kmDeadZonePenalty * (kmRatio - kmLowThreshold) / (1 - kmLowThreshold)
              else
                let excess = min (kmRatio - 1) kmExcessCap in
                - kmDeadZonePenalty - kmExcessSteepness * (excess powr kmExcessExponent));
           score01 =
             (if kmRatio \<le> 1 then 1 / (1 + exp (4 * (kmRatio - 7 / 10)))
              else 1 / (1 + exp (5 * (kmRatio - 1))))
       in (delta, score01))"

definition computeHandDelta :: "int \<Rightarrow> int \<Rightarrow> bool \<Rightarrow> real \<times> real" where
  "computeHandDelta hand carAge isCommercial =
    (if hand \<le> 0 then (0, 5 / 10)
     else if hand = 1 then
       let ageBonus = min hand1AgeBonusCap (of_int carAge * hand1AgeBonusRate);
           delta = hand1BonusBase + ageBonus
       in if isCommercial then (delta * commercialHand1BonusFactor, 7 / 10) else (delta, 1)
     else
       let expectedHands = 1 + of_int carAge / handExpectedRate;
           handExcess = of_int hand - expectedHands
       in if handExcess \<le> 0
          then (clampRange (- handExcess * handBelowRate) 0 handBelowCap,
                clamp01 (7 / 10 + (- handExcess) * (15 / 100)))
          else (- handExcessPenalty * handExcess, clamp01 (5 / 10 - handExcess * (25 / 100))))"

subsection \<open>Value\<close>

definition basePriceDiscount :: "int \<Rightarrow> real" where
  "basePriceDiscount carAge =
    (if carAge \<le> 1 then 97 / 100 else if carAge \<le> 3 then 94 / 100 else if carAge \<le> 6 then 90 / 100 else 85 / 100)"

text \<open>The adjustments of the expected price for the number of owners and the ownership origin,
  which the code repeats in its two market branches.\<close>

definition hand_factor :: "fitness_params \<Rightarrow> int \<Rightarrow> real" where
  "hand_factor p carAge =
    (let expectedHands = 1 + of_int carAge / handExpectedRate in
     if fp_Hand p = 1 \<and> carAge \<ge> 3 then 1 + handFirstPricePremium
     else if fp_Hand p > 0 \<and> of_int (fp_Hand p) > expectedHands then
       (let excess = of_int (fp_Hand p) - expectedHands in max (85 / 100) (1 - excess * handExcessPriceDisc))
     else 1)"

definition ownership_factor :: "fitness_params \<Rightarrow> real" where
  "ownership_factor p =
    (if fp_OriginalOwnership p = ''lease'' then 1 - leaseOriginPriceDisc
     else if fp_OriginalOwnership p = ''rental'' then 1 - rentalOriginPriceDisc
     else 1)"

text \<open>The gate on a positive delta by the condition of the car.\<close>

definition cond_gate :: "real \<Rightarrow> real \<Rightarrow> real" where
  "cond_gate delta condScore01 =
    (if delta > 0 \<and> condScore01 < valCondGateThreshold then delta * (condScore01 / valCondGateThreshold) else delta)"

definition median_adj_expected :: "fitness_params \<Rightarrow> int \<Rightarrow> real" where
  "median_adj_expected p carAge =
    (let adjExpected = of_int (fp_MedianPrice p);
         adjExpected = (if fp_MedianKm p > 0 \<and> fp_Km p > 0 then
            let kmDeltaPct = of_int (fp_MedianKm p - fp_Km p) / of_int (fp_MedianKm p) in
            adjExpected * clampRange (1 + kmDeltaPct * kmPriceAdjFactor) (5 / 10) (15 / 10)
          else adjExpected)
     in adjExpected * hand_factor p carAge * ownership_factor p)"

definition median_delta :: "real \<Rightarrow> real" where
  "median_delta ratio =
    (if ratio < 80 / 100 then valDeltaMax
     else if ratio < valNeutralLo then valDeltaMax * (valNeutralLo - ratio) / (valNeutralLo - 80 / 100)
     else if ratio \<le> valNeutralHi then - valNeutralMaxPenalty * (ratio - valNeutralLo) / (valNeutralHi - valNeutralLo)
     else let overpay = (ratio - valNeutralHi) / valOverpaySpan in
       clampRange (- valNeutralMaxPenalty - valOverpaySteepness * (min overpay 1 powr (7 / 10)))
         valDeltaMin (- valNeutralMaxPenalty))"

definition base_adj_expected :: "fitness_params \<Rightarrow> int \<Rightarrow> real" where
  "base_adj_expected p carAge =
    (let adjExpected = of_int (fp_BasePrice p) * basePriceDiscount carAge;
         adjExpected = (if fp_Km p > 0 \<and> carAge > 0 then
            let expectedKm = of_int carAge * expectedKmPerYear;
                kmDeltaPct = (expectedKm - of_int (fp_Km p)) / expectedKm
            in adjExpected * clampRange (1 + kmDeltaPct * basePriceKmAdjFactor) (70 / 100) (130 / 100)
          else adjExpected)
     in adjExpected * hand_factor p carAge * ownership_factor p)"

definition base_delta :: "real \<Rightarrow> real" where
  "base_delta ratio =
    (if ratio < 75 / 100 then basePriceMaxBonus
     else if ratio < basePriceNeutralLo then
       basePriceMaxBonus * (basePriceNeutralLo - ratio) / (basePriceNeutralLo - 75 / 100)
     else if ratio \<le> basePriceNeutralHi then
       - basePriceNeutralPenalty * (ratio - basePriceNeutralLo) / (basePriceNeutralHi - basePriceNeutralLo)
     else let overpay = (ratio - basePriceNeutralHi) / basePriceOverpaySpan in
       clampRange (- basePriceNeutralPenalty -
           (- basePriceMaxPenalty - basePriceNeutralPenalty) * (min overpay 1 powr (7 / 10)))
         basePriceMaxPenalty (- basePriceNeutralPenalty))"

definition budget_delta :: "real \<Rightarrow> real" where
  "budget_delta headroom =
    (if headroom \<ge> budgetHighHeadroom then budgetHighBonus
     else if headroom \<ge> budgetLowHeadroom then
       budgetHighBonus * (headroom - budgetLowHeadroom) / (budgetHighHeadroom - budgetLowHeadroom)
     else if headroom \<ge> 0 then - budgetLowPenalty * (budgetLowHeadroom - headroom) / budgetLowHeadroom
     else - budgetOverPenalty)"

definition computeValueDelta :: "fitness_params \<Rightarrow> int \<Rightarrow> real \<Rightarrow> real \<times> real" where
  "computeValueDelta p carAge condScore01 =
    (if fp_Price p \<le> 0 then (0, 5 / 10)
     else if fp_MedianPrice p > 0 \<or> fp_BasePrice p > 0 \<or> fp_PriceMax p > 0 then
       let delta =
         (if fp_MedianPrice p > 0 then
            cond_gate (median_delta (of_int (fp_Price p) / median_adj_expected p carAge)) condScore01
          else if fp_BasePrice p > 0 then
            cond_gate (base_delta (of_int (fp_Price p) / base_adj_expected p carAge)) condScore01
          else budget_delta (1 - of_int (fp_Price p) / of_int (fp_PriceMax p)));
         delta = clampRange delta valDeltaMin valDeltaMax
       in (delta, clamp01 (5 / 10 + delta / 5))
     else (0, 5 / 10))"

subsection \<open>Engine and total\<close>

definition computeEngineDelta :: "real \<Rightarrow> int \<Rightarrow> real \<times> real" where
  "computeEngineDelta engineVolume engineMinCC =
    (if engineMinCC \<le> 0 then (0, 1)
     else if engineVolume \<le> 0 then (0, 5 / 10)
     else let minCC = of_int engineMinCC in
       if engineVolume < minCC then (0, 0)
       else let bonus = (engineVolume - minCC) / (minCC * (5 / 10))
            in (engineDeltaMax * clamp01 bonus, clamp01 (7 / 10 + 3 / 10 * bonus)))"

definition car_age :: "int \<Rightarrow> fitness_params \<Rightarrow> int" where
  "car_age currentYear p =
    (if fp_Year p > 0 then let carAge = currentYear - fp_Year p in if carAge < 1 then 1 else carAge else 1)"

definition FitnessScoreDetailed :: "int \<Rightarrow> fitness_params \<Rightarrow> fitness_result" where
  "FitnessScoreDetailed currentYear p =
    (let carAge = car_age currentYear p;
         (kmDelta, kmScore01) = computeKmDelta (fp_Km p) carAge;
         (handDelta, handScore01) = computeHandDelta (fp_Hand p) carAge (fp_IsCommercial p);
         condDelta = clampRange (kmDelta + handDelta) condDeltaMin condDeltaMax;
         condScore01 = 70 / 100 * kmScore01 + 30 / 100 * handScore01;
         (valDelta, valScore01) = computeValueDelta p carAge condScore01;
         (engDelta, engScore01) = computeEngineDelta (fp_EngineVolume p) (fp_EngineMinCC p)
     in if fp_EngineMinCC p > 0 \<and> fp_EngineVolume p > 0 \<and> fp_EngineVolume p < of_int (fp_EngineMinCC p)
        then \<lparr>fr_Total = 0,
              fr_Dims = [\<lparr>fd_Name = ''condition'', fd_Score = condScore01, fd_Weight = condWeight\<rparr>,
                         \<lparr>fd_Name = ''value'', fd_Score = valScore01, fd_Weight = valWeight\<rparr>,
                         \<lparr>fd_Name = ''engine'', fd_Score = 0, fd_Weight = engineWeight\<rparr>]\<rparr>
        else let raw = baselineScore + condDelta + valDelta + engDelta;
                 total = of_int (go_round (clampRange raw 0 10 * 10)) / 10
          in \<lparr>fr_Total = total,
              fr_Dims = [\<lparr>fd_Name = ''condition'', fd_Score = condScore01, fd_Weight = condWeight\<rparr>,
                         \<lparr>fd_Name = ''value'', fd_Score = valScore01, fd_Weight = valWeight\<rparr>,
                         \<lparr>fd_Name = ''engine'', fd_Score = engScore01, fd_Weight = engineWeight\<rparr>]\<rparr>)"

definition FitnessScore :: "int \<Rightarrow> fitness_params \<Rightarrow> real" where
  "FitnessScore currentYear p = fr_Total (FitnessScoreDetailed currentYear p)"


subsection \<open>Lemmas: clamps and the ranges of the pieces\<close>

lemma clamp01_range [simp]: "0 \<le> clamp01 v" "clamp01 v \<le> 1"
  by (simp_all add: clamp01_def)

lemma clampRange_range: "lo \<le> hi \<Longrightarrow> lo \<le> clampRange v lo hi \<and> clampRange v lo hi \<le> hi"
  by (simp add: clampRange_def)

lemma clampRange_mono: "lo \<le> hi \<Longrightarrow> v \<le> w \<Longrightarrow> clampRange v lo hi \<le> clampRange w lo hi"
  by (simp add: clampRange_def)

lemma logistic_range: "0 \<le> 1 / (1 + exp x) \<and> 1 / (1 + exp x) \<le> (1::real)"
  by (simp add: add_pos_nonneg divide_le_eq)

lemma km_score_range: "0 \<le> snd (computeKmDelta km age) \<and> snd (computeKmDelta km age) \<le> 1"
  using logistic_range by (simp add: computeKmDelta_def Let_def)

lemma hand_score_range: "0 \<le> snd (computeHandDelta h age c) \<and> snd (computeHandDelta h age c) \<le> 1"
  by (simp add: computeHandDelta_def Let_def)

lemma value_score_range: "0 \<le> snd (computeValueDelta p age c) \<and> snd (computeValueDelta p age c) \<le> 1"
  by (simp add: computeValueDelta_def Let_def)

lemma engine_score_range: "0 \<le> snd (computeEngineDelta v m) \<and> snd (computeEngineDelta v m) \<le> 1"
  by (simp add: computeEngineDelta_def Let_def)

lemma car_age_pos: "1 \<le> car_age y p"
  by (simp add: car_age_def Let_def)

subsection \<open>Lemmas: the value curves fall with the price\<close>

lemma neg_slope:
  fixes a b c r :: real
  assumes "0 \<le> a" "0 < c" "r \<le> r'"
  shows "- a * (r' - b) / c \<le> - a * (r - b) / c"
  using assms by (intro divide_right_mono) (simp_all add: mult_left_mono)

lemma pos_slope:
  fixes a b c r :: real
  assumes "0 \<le> a" "0 < c" "r \<le> r'"
  shows "a * (b - r') / c \<le> a * (b - r) / c"
  using assms by (intro divide_right_mono mult_left_mono) simp_all

lemma overpay_curve_antimono:
  fixes a k s h r :: real
  assumes "0 \<le> k" "0 < s" "h < r" "r \<le> r'" "lo \<le> hi"
  shows "clampRange (a - k * (min ((r' - h) / s) 1 powr (7 / 10))) lo hi \<le>
         clampRange (a - k * (min ((r - h) / s) 1 powr (7 / 10))) lo hi"
proof (rule clampRange_mono [OF assms(5)])
  have "(r - h) / s \<le> (r' - h) / s" using assms by (intro divide_right_mono) simp_all
  moreover have "0 \<le> (r - h) / s" using assms by simp
  ultimately have "min ((r - h) / s) 1 powr (7 / 10) \<le> min ((r' - h) / s) 1 powr (7 / 10)"
    by (intro powr_mono2) simp_all
  with \<open>0 \<le> k\<close> show "a - k * (min ((r' - h) / s) 1 powr (7 / 10)) \<le> a - k * (min ((r - h) / s) 1 powr (7 / 10))"
    by (simp add: mult_left_mono)
qed

text \<open>A curve in four pieces falls when each piece falls and the pieces are separated by levels.\<close>

lemma four_piece_antimono:
  fixes f :: "real \<Rightarrow> real"
  assumes f: "\<And>x. f x = (if x < b1 then t else if x < b2 then g x else if x \<le> b3 then h x else k x)"
    and g: "\<And>x y. b1 \<le> x \<Longrightarrow> x \<le> y \<Longrightarrow> y < b2 \<Longrightarrow> g y \<le> g x" "\<And>x. b1 \<le> x \<Longrightarrow> x < b2 \<Longrightarrow> la \<le> g x \<and> g x \<le> t"
    and h: "\<And>x y. b2 \<le> x \<Longrightarrow> x \<le> y \<Longrightarrow> y \<le> b3 \<Longrightarrow> h y \<le> h x" "\<And>x. b2 \<le> x \<Longrightarrow> x \<le> b3 \<Longrightarrow> lb \<le> h x \<and> h x \<le> la"
    and k: "\<And>x y. b3 < x \<Longrightarrow> x \<le> y \<Longrightarrow> k y \<le> k x" "\<And>x. b3 < x \<Longrightarrow> k x \<le> lb"
    and lev: "b1 \<le> b2" "b2 \<le> b3" "la \<le> t" "lb \<le> la" and le: "x \<le> y"
  shows "f y \<le> f x"
proof -
  consider "y < b1" | "b1 \<le> y" "y < b2" | "b2 \<le> y" "y \<le> b3" | "b3 < y" by linarith
  then show ?thesis
  proof cases
    case 1
    with le show ?thesis by (simp add: f)
  next
    case 2
    then have fy: "f y = g y" by (simp add: f)
    show ?thesis
    proof (cases "x < b1")
      case True
      then show ?thesis using fy g(2) [of y] 2 by (simp add: f)
    next
      case False
      then have "f x = g x" using le 2 by (simp add: f)
      then show ?thesis using fy g(1) [of x y] le 2 False by simp
    qed
  next
    case 3
    then have fy: "f y = h y" "h y \<le> la" using lev h(2) [of y] by (simp_all add: f)
    consider "x < b1" | "b1 \<le> x" "x < b2" | "b2 \<le> x" by linarith
    then show ?thesis
    proof cases
      case 3
      then have "f x = h x" using le \<open>y \<le> b3\<close> lev by (simp add: f)
      then show ?thesis using fy h(1) [of x y] le 3 \<open>y \<le> b3\<close> by simp
    qed (use fy lev g(2) [of x] in \<open>simp_all add: f\<close>)
  next
    case 4
    then have fy: "f y = k y" "k y \<le> lb" using lev k(2) [of y] by (simp_all add: f)
    consider "x < b1" | "b1 \<le> x" "x < b2" | "b2 \<le> x" "x \<le> b3" | "b3 < x" by linarith
    then show ?thesis
    proof cases
      case 4
      then have "f x = k x" using lev by (simp add: f)
      then show ?thesis using fy k(1) [of x y] le 4 by simp
    qed (use fy lev g(2) [of x] h(2) [of x] in \<open>simp_all add: f\<close>)
  qed
qed

lemma median_delta_antimono:
  assumes "r \<le> r'"
  shows "median_delta r' \<le> median_delta r"
proof (rule four_piece_antimono [where f = median_delta and t = valDeltaMax and la = 0
      and lb = "- valNeutralMaxPenalty" and g = "\<lambda>x. valDeltaMax * (valNeutralLo - x) / (valNeutralLo - 80 / 100)"
      and h = "\<lambda>x. - valNeutralMaxPenalty * (x - valNeutralLo) / (valNeutralHi - valNeutralLo)", OF _ _ _ _ _ _ _ _ _ _ _ assms])
  show "median_delta x = (if x < 80 / 100 then valDeltaMax
      else if x < valNeutralLo then valDeltaMax * (valNeutralLo - x) / (valNeutralLo - 80 / 100)
      else if x \<le> valNeutralHi then - valNeutralMaxPenalty * (x - valNeutralLo) / (valNeutralHi - valNeutralLo)
      else clampRange (- valNeutralMaxPenalty - valOverpaySteepness * (min ((x - valNeutralHi) / valOverpaySpan) 1 powr (7 / 10)))
         valDeltaMin (- valNeutralMaxPenalty))" for x
    by (simp add: median_delta_def Let_def)
qed (rule pos_slope neg_slope overpay_curve_antimono clampRange_range [THEN conjunct2]; simp | simp add: divide_simps)+

lemma base_delta_antimono:
  assumes "r \<le> r'"
  shows "base_delta r' \<le> base_delta r"
proof (rule four_piece_antimono [where f = base_delta and t = basePriceMaxBonus and la = 0
      and lb = "- basePriceNeutralPenalty" and g = "\<lambda>x. basePriceMaxBonus * (basePriceNeutralLo - x) / (basePriceNeutralLo - 75 / 100)"
      and h = "\<lambda>x. - basePriceNeutralPenalty * (x - basePriceNeutralLo) / (basePriceNeutralHi - basePriceNeutralLo)", OF _ _ _ _ _ _ _ _ _ _ _ assms])
  show "base_delta x = (if x < 75 / 100 then basePriceMaxBonus
      else if x < basePriceNeutralLo then basePriceMaxBonus * (basePriceNeutralLo - x) / (basePriceNeutralLo - 75 / 100)
      else if x \<le> basePriceNeutralHi then - basePriceNeutralPenalty * (x - basePriceNeutralLo) / (basePriceNeutralHi - basePriceNeutralLo)
      else clampRange (- basePriceNeutralPenalty - (- basePriceMaxPenalty - basePriceNeutralPenalty) *
           (min ((x - basePriceNeutralHi) / basePriceOverpaySpan) 1 powr (7 / 10))) basePriceMaxPenalty (- basePriceNeutralPenalty))" for x
    by (simp add: base_delta_def Let_def)
qed (rule pos_slope neg_slope overpay_curve_antimono clampRange_range [THEN conjunct2]; simp | simp add: divide_simps)+

lemma budget_delta_mono: "h \<le> h' \<Longrightarrow> budget_delta h \<le> budget_delta h'"
  by (simp add: budget_delta_def divide_simps)

lemma cond_gate_mono:
  assumes "0 \<le> c" "d \<le> d'"
  shows "cond_gate d c \<le> cond_gate d' c"
proof -
  have "d * (c / valCondGateThreshold) \<le> d' * (c / valCondGateThreshold)"
    using assms by (intro mult_right_mono) simp_all
  moreover have "0 \<le> d' * (c / valCondGateThreshold)" if "0 < d'" using that assms by simp
  ultimately show ?thesis using assms unfolding cond_gate_def by (smt (verit))
qed

lemma factors_pos: "0 < hand_factor p age" "0 < ownership_factor p"
  by (auto simp: hand_factor_def ownership_factor_def Let_def less_max_iff_disj)

lemma clampRange_pos: "0 < lo \<Longrightarrow> lo \<le> hi \<Longrightarrow> 0 < clampRange v lo hi"
  by (simp add: clampRange_def)

lemma median_adj_expected_pos: "0 < fp_MedianPrice p \<Longrightarrow> 0 < median_adj_expected p age"
  by (simp add: median_adj_expected_def Let_def factors_pos clampRange_pos)

lemma base_adj_expected_pos: "0 < fp_BasePrice p \<Longrightarrow> 0 < base_adj_expected p age"
  by (simp add: base_adj_expected_def Let_def factors_pos clampRange_pos basePriceDiscount_def)

lemma value_delta_range:
  "valDeltaMin \<le> fst (computeValueDelta p age c) \<and> fst (computeValueDelta p age c) \<le> valDeltaMax"
  using clampRange_range [of valDeltaMin valDeltaMax] by (simp add: computeValueDelta_def Let_def)

lemma value_delta_antimono:
  assumes "0 < q" "q \<le> q'" "0 \<le> c"
  shows "fst (computeValueDelta (p\<lparr>fp_Price := q'\<rparr>) age c) \<le> fst (computeValueDelta (p\<lparr>fp_Price := q\<rparr>) age c)"
proof -
  let ?e = "median_adj_expected p age" and ?b = "base_adj_expected p age"
  have same: "median_adj_expected (p\<lparr>fp_Price := x\<rparr>) age = ?e" "base_adj_expected (p\<lparr>fp_Price := x\<rparr>) age = ?b" for x
    by (simp_all add: median_adj_expected_def base_adj_expected_def hand_factor_def ownership_factor_def Let_def)
  have q: "real_of_int q \<le> of_int q'" "0 < q'" using assms by simp_all
  note gate = cond_gate_mono [OF assms(3)]
  consider (median) "0 < fp_MedianPrice p" | (base) "fp_MedianPrice p \<le> 0" "0 < fp_BasePrice p"
    | (budget) "fp_MedianPrice p \<le> 0" "fp_BasePrice p \<le> 0" "0 < fp_PriceMax p"
    | (none) "fp_MedianPrice p \<le> 0" "fp_BasePrice p \<le> 0" "fp_PriceMax p \<le> 0" by linarith
  then show ?thesis
  proof cases
    case median
    then have "of_int q / ?e \<le> of_int q' / ?e"
      using q median_adj_expected_pos [of p age] by (intro divide_right_mono) simp_all
    from gate [OF median_delta_antimono [OF this]] show ?thesis
      using median assms q by (simp add: computeValueDelta_def Let_def same clampRange_mono)
  next
    case base
    then have "of_int q / ?b \<le> of_int q' / ?b"
      using q base_adj_expected_pos [of p age] by (intro divide_right_mono) simp_all
    from gate [OF base_delta_antimono [OF this]] show ?thesis
      using base assms q by (simp add: computeValueDelta_def Let_def same clampRange_mono)
  next
    case budget
    then have "1 - of_int q' / real_of_int (fp_PriceMax p) \<le> 1 - of_int q / of_int (fp_PriceMax p)"
      using q by (simp add: divide_right_mono)
    from budget_delta_mono [OF this] show ?thesis
      using budget assms q by (simp add: computeValueDelta_def Let_def clampRange_mono)
  next
    case none
    then show ?thesis using assms q by (simp add: computeValueDelta_def)
  qed
qed

text \<open>The condition part, which does not read the price, and the total in terms of the deltas.\<close>

definition cond_delta :: "int \<Rightarrow> fitness_params \<Rightarrow> real" where
  "cond_delta y p = clampRange (fst (computeKmDelta (fp_Km p) (car_age y p)) +
     fst (computeHandDelta (fp_Hand p) (car_age y p) (fp_IsCommercial p))) condDeltaMin condDeltaMax"

definition cond_score :: "int \<Rightarrow> fitness_params \<Rightarrow> real" where
  "cond_score y p = 70 / 100 * snd (computeKmDelta (fp_Km p) (car_age y p)) +
     30 / 100 * snd (computeHandDelta (fp_Hand p) (car_age y p) (fp_IsCommercial p))"

definition engine_gate :: "fitness_params \<Rightarrow> bool" where
  "engine_gate p \<longleftrightarrow> fp_EngineMinCC p > 0 \<and> fp_EngineVolume p > 0 \<and> fp_EngineVolume p < of_int (fp_EngineMinCC p)"

lemma FitnessScoreDetailed_eq:
  "FitnessScoreDetailed y p =
    (let val = computeValueDelta p (car_age y p) (cond_score y p);
         eng = computeEngineDelta (fp_EngineVolume p) (fp_EngineMinCC p)
     in \<lparr>fr_Total = (if engine_gate p then 0
           else of_int (go_round (clampRange (baselineScore + cond_delta y p + fst val + fst eng) 0 10 * 10)) / 10),
         fr_Dims = [\<lparr>fd_Name = ''condition'', fd_Score = cond_score y p, fd_Weight = condWeight\<rparr>,
           \<lparr>fd_Name = ''value'', fd_Score = snd val, fd_Weight = valWeight\<rparr>,
           \<lparr>fd_Name = ''engine'', fd_Score = (if engine_gate p then 0 else snd eng), fd_Weight = engineWeight\<rparr>]\<rparr>)"
  by (simp add: FitnessScoreDetailed_def cond_delta_def cond_score_def engine_gate_def Let_def split_beta)

lemma cond_score_range: "0 \<le> cond_score y p" "cond_score y p \<le> 1"
  using km_score_range [of "fp_Km p" "car_age y p"]
    hand_score_range [of "fp_Hand p" "car_age y p" "fp_IsCommercial p"]
  by (simp_all add: cond_score_def)

subsection \<open>Properties\<close>

text \<open>Every fitness score is one of the 101 grades 0.0, 0.1, ..., 10.0 for any input whatsoever, and
  the breakdown always has the three dimensions with scores between 0 and 1 and weights that add
  up to 1.\<close>

lemma fitness_score_graded:
  "(\<exists>k. fr_Total (FitnessScoreDetailed y p) = of_int k / 10 \<and> 0 \<le> k \<and> k \<le> 100) \<and>
   map fd_Name (fr_Dims (FitnessScoreDetailed y p)) = [''condition'', ''value'', ''engine''] \<and>
   list_all (\<lambda>d. 0 \<le> fd_Score d \<and> fd_Score d \<le> 1) (fr_Dims (FitnessScoreDetailed y p)) \<and>
   sum_list (map fd_Weight (fr_Dims (FitnessScoreDetailed y p))) = 1"
proof -
  have "\<exists>k. (if engine_gate p then 0 else of_int (go_round (clampRange x 0 10 * 10)) / 10) = (of_int k / 10 :: real)
      \<and> 0 \<le> k \<and> k \<le> 100" for x
  proof (cases "engine_gate p")
    case True
    then show ?thesis by (intro exI [of _ 0]) simp
  next
    case False
    have "0 \<le> clampRange x 0 10 * 10 \<and> clampRange x 0 10 * 10 \<le> 100"
      using clampRange_range [of 0 10 x] by simp
    then show ?thesis
      using False go_round_range [of 0 "clampRange x 0 10 * 10" 100] by auto
  qed
  then show ?thesis
    using cond_score_range value_score_range engine_score_range
    by (simp add: FitnessScoreDetailed_eq Let_def)
qed

text \<open>A cheaper car is never a worse match: with everything else equal, lowering a known price never
  lowers the fitness score, in each of the three ways the value dimension is computed (market
  median, catalogue base price, budget), across all the pieces of the value curve, the condition
  gate, the clamps and the final rounding.\<close>

lemma fitness_price_antimono:
  assumes "0 < q" "q \<le> q'"
  shows "FitnessScore y (p\<lparr>fp_Price := q'\<rparr>) \<le> FitnessScore y (p\<lparr>fp_Price := q\<rparr>)"
proof -
  have same: "car_age y (p\<lparr>fp_Price := x\<rparr>) = car_age y p" "cond_delta y (p\<lparr>fp_Price := x\<rparr>) = cond_delta y p"
    "cond_score y (p\<lparr>fp_Price := x\<rparr>) = cond_score y p" "engine_gate (p\<lparr>fp_Price := x\<rparr>) = engine_gate p" for x
    by (simp_all add: car_age_def cond_delta_def cond_score_def engine_gate_def)
  let ?raw = "\<lambda>x. baselineScore + cond_delta y p + fst (computeValueDelta (p\<lparr>fp_Price := x\<rparr>) (car_age y p) (cond_score y p))
      + fst (computeEngineDelta (fp_EngineVolume p) (fp_EngineMinCC p))"
  have "?raw q' \<le> ?raw q"
    using value_delta_antimono [OF assms cond_score_range(1)] by simp
  then have "clampRange (?raw q') 0 10 * 10 \<le> clampRange (?raw q) 0 10 * 10"
    using clampRange_mono [of 0 10] by simp
  from go_round_mono [OF this] show ?thesis
    by (simp add: FitnessScore_def FitnessScoreDetailed_eq Let_def same divide_right_mono)
qed

text \<open>Fewer kilometres never give a worse condition delta (the number that enters the total), over
  the low-mileage bonus, the dead zone and the steep excess curve.\<close>

lemma km_delta_antimono:
  assumes "0 < km" "km \<le> km'" "1 \<le> age"
  shows "fst (computeKmDelta km' age) \<le> fst (computeKmDelta km age)"
proof -
  let ?f = "\<lambda>r. if r \<le> kmLowThreshold then kmLowBonusScale * sqrt ((kmLowThreshold - r) / kmLowThreshold)
     else if r \<le> 1 then - kmDeadZonePenalty * (r - kmLowThreshold) / (1 - kmLowThreshold)
     else - kmDeadZonePenalty - kmExcessSteepness * (min (r - 1) kmExcessCap powr kmExcessExponent)"
  let ?r = "\<lambda>k. of_int k / (of_int age * expectedKmPerYear)"
  have le: "?r km \<le> ?r km'" using assms by (intro divide_right_mono) simp_all
  have low: "0 \<le> ?f r" if "r \<le> kmLowThreshold" for r
    using that by simp
  have dead: "- kmDeadZonePenalty \<le> ?f r \<and> ?f r \<le> 0" if "kmLowThreshold < r" "r \<le> 1" for r
    using that by (simp add: divide_simps)
  have high: "?f r \<le> - kmDeadZonePenalty" if "1 < r" for r
    using that by simp
  have mono: "?f r' \<le> ?f r" if rr: "r \<le> r'" for r r' :: real
  proof -
    consider "r' \<le> kmLowThreshold" | "r \<le> kmLowThreshold" "kmLowThreshold < r'"
      | "kmLowThreshold < r" "r' \<le> 1" | "kmLowThreshold < r" "r \<le> 1" "1 < r'" | "1 < r" by linarith
    then show ?thesis
    proof cases
      case 1
      then have "sqrt ((kmLowThreshold - r') / kmLowThreshold) \<le> sqrt ((kmLowThreshold - r) / kmLowThreshold)"
        using rr by (intro real_sqrt_le_mono divide_right_mono) simp_all
      with 1 rr show ?thesis by simp
    next
      case 2
      then have "?f r' \<le> 0" using dead [of r'] high [of r'] by (cases "r' \<le> 1") (blast, linarith)
      with low [OF 2(1)] show ?thesis by linarith
    next
      case 3
      with rr show ?thesis by (simp add: divide_right_mono)
    next
      case 4
      with dead [of r] high [of r'] show ?thesis by linarith
    next
      case 5
      then have "min (r - 1) kmExcessCap powr kmExcessExponent \<le> min (r' - 1) kmExcessCap powr kmExcessExponent"
        using rr by (intro powr_mono2) (auto simp: min_def)
      with 5 rr show ?thesis by simp
    qed
  qed
  have eq: "fst (computeKmDelta k age) = ?f (?r k)" if "0 < k" for k
  proof -
    from that have "(k \<le> 0) = False" by simp
    then show ?thesis by (simp only: computeKmDelta_def Let_def if_False fst_conv)
  qed
  have "0 < km'" using assms by simp
  with mono [OF le] show ?thesis by (simp only: eq [OF assms(1)] eq [of km'])
qed

text \<open>The displayed condition score is not consistent with that: it is computed from two logistic
  curves that do not meet where the mileage equals the expectation. A one-year-old car with exactly
  the expected 15000 km gets a lower condition score than the same car with one kilometre more.\<close>

lemma km_score_jumps_at_expected:
  "snd (computeKmDelta 15000 1) < snd (computeKmDelta 15001 1) \<and>
   fst (computeKmDelta 15001 1) \<le> fst (computeKmDelta 15000 1)"
proof
  have "exp (5 * (15001 / 15000 - 1)) < exp (4 * (1 - 7 / 10 :: real))" by simp
  then have "1 / (1 + exp (4 * (1 - 7 / 10 :: real))) < 1 / (1 + exp (5 * (15001 / 15000 - 1)))"
    by (intro divide_strict_left_mono mult_pos_pos add_pos_pos) simp_all
  then show "snd (computeKmDelta 15000 1) < snd (computeKmDelta 15001 1)"
    by (simp add: computeKmDelta_def Let_def)
  show "fst (computeKmDelta 15001 1) \<le> fst (computeKmDelta 15000 1)"
    by (simp add: computeKmDelta_def Let_def)
qed

lemma fitness_price_antimono_witness:
  "FitnessScore 2025 (\<lparr>fp_Price = 0, fp_Km = 60000, fp_Hand = 2, fp_Year = 2020, fp_EngineVolume = 1600,
      fp_PriceMax = 0, fp_MaxKm = 0, fp_MaxHand = 0, fp_YearMin = 0, fp_YearMax = 0, fp_EngineMinCC = 0,
      fp_MedianPrice = 80000, fp_MedianKm = 70000, fp_BasePrice = 0, fp_IsCommercial = False,
      fp_OriginalOwnership = ''lease''\<rparr>\<lparr>fp_Price := 90000\<rparr>)
   \<le> FitnessScore 2025 (\<lparr>fp_Price = 0, fp_Km = 60000, fp_Hand = 2, fp_Year = 2020, fp_EngineVolume = 1600,
      fp_PriceMax = 0, fp_MaxKm = 0, fp_MaxHand = 0, fp_YearMin = 0, fp_YearMax = 0, fp_EngineMinCC = 0,
      fp_MedianPrice = 80000, fp_MedianKm = 70000, fp_BasePrice = 0, fp_IsCommercial = False,
      fp_OriginalOwnership = ''lease''\<rparr>\<lparr>fp_Price := 70000\<rparr>)"
  by (rule fitness_price_antimono) simp_all

lemma km_delta_antimono_witness:
  "fst (computeKmDelta 90000 5) \<le> fst (computeKmDelta 40000 5)"
  by (rule km_delta_antimono) simp_all

end
