(* ===== verification/FetchBase.thy ===== *)
theory FetchBase
  imports Model
begin

section \<open>Fetchers: errors and results (internal/fetcher/fetcher.go)\<close>

text \<open>
  A Go error is the chain of sentinels it wraps: \<open>errors.Is(err, s)\<close> is membership. An error the
  code makes with \<open>fmt.Errorf("%w ... %w", a, b)\<close> is \<open>a @ b\<close>. A fetch returns both a list and an
  error, since a paginated fetch may fail with the pages it already has.
\<close>

datatype sentinel =
    ErrChallenge | ErrRateLimited | ErrItemGone | ErrPartialResults | ErrCircuitOpen
  | CtxCanceled | CtxDeadlineExceeded | OtherError string

type_synonym goerr = "sentinel list"

definition errors_is :: "goerr \<Rightarrow> sentinel \<Rightarrow> bool" where
  "errors_is err s \<longleftrightarrow> s \<in> set err"

type_synonym fetch_result = "raw_listing list \<times> goerr option"

lemma errors_is_simps [simp]:
  "errors_is [] s = False"
  "errors_is (e # es) s = (e = s \<or> errors_is es s)"
  "errors_is (xs @ ys) s = (errors_is xs s \<or> errors_is ys s)"
  by (auto simp: errors_is_def)

text \<open>The error a consumer may still use: partial results with listings in hand.\<close>

definition usable_partial :: "fetch_result \<Rightarrow> bool" where
  "usable_partial r = (case snd r of None \<Rightarrow> False | Some err \<Rightarrow> errors_is err ErrPartialResults \<and> length (fst r) > 0)"

end
