(* ===== verification/Paginate.thy ===== *)
theory Paginate
  imports FetchBase
begin

section \<open>Paginated fetching (internal/fetcher/paginating.go)\<close>

text \<open>
  \<open>PaginatingFetcher.Fetch\<close> asks the inner fetcher for page 1, 2, ... up to \<open>maxPages\<close>, drops
  listings whose token it has already seen, and stops at the first empty page or the first page with
  nothing new. The inner fetcher is a parameter (a function of the parameters, each page being asked
  once), and so is the context: \<open>ctx page\<close> is the error of the context if it is done while the fetch
  waits before that page. The length of the pause plays no role and is not modelled; only whether the
  fetcher pauses at all (\<open>pageDelay > 0\<close>) is.
\<close>

record paginating_fetcher =
  pf_maxPages :: int
  pf_pageDelay :: duration

definition DefaultMaxPages :: int where "DefaultMaxPages = 3"

definition defaultPageDelay :: duration where "defaultPageDelay = 1500000000"

definition NewPaginatingFetcher :: "int \<Rightarrow> paginating_fetcher" where
  "NewPaginatingFetcher maxPages =
     \<lparr>pf_maxPages = (if maxPages \<le> 0 then DefaultMaxPages else maxPages), pf_pageDelay = defaultPageDelay\<rparr>"

text \<open>The inner loop over one page: \<open>seen\<close>, \<open>all\<close> and the count of added listings.\<close>

fun add_new :: "string set \<Rightarrow> raw_listing list \<Rightarrow> int \<Rightarrow> raw_listing list \<Rightarrow> string set \<times> raw_listing list \<times> int" where
  "add_new seen all added [] = (seen, all, added)"
| "add_new seen all added (l # ls) =
     (if rl_Token l \<notin> seen then add_new (insert (rl_Token l) seen) (all @ [l]) (added + 1) ls
      else add_new seen all added ls)"

function fetch_pages ::
  "paginating_fetcher \<Rightarrow> (source_params \<Rightarrow> fetch_result) \<Rightarrow> (int \<Rightarrow> goerr option) \<Rightarrow> source_params \<Rightarrow>
   int \<Rightarrow> string set \<Rightarrow> raw_listing list \<Rightarrow> fetch_result" where
  "fetch_pages f inner ctx params page seen all =
    (if page > pf_maxPages f then (all, None)
     else case (if page > 1 \<and> pf_pageDelay f > 0 then ctx page else None) of
       Some cerr \<Rightarrow>
         if length all > 0 then (all, Some (ErrPartialResults # cerr)) else ([], Some cerr)
     | None \<Rightarrow>
         (case inner (params\<lparr>p_Page := page\<rparr>) of
            (listings, Some err) \<Rightarrow>
              if page = 1 then ([], Some err) else (all, Some (ErrPartialResults # err))
          | (listings, None) \<Rightarrow>
              if length listings = 0 then (all, None)
              else (case add_new seen all 0 listings of
                 (seen', all', added) \<Rightarrow>
                   if added = 0 then (all', None)
                   else fetch_pages f inner ctx params (page + 1) seen' all')))"
  by pat_completeness auto
termination
  by (relation "measure (\<lambda>(f, inner, ctx, params, page, seen, all). nat (pf_maxPages f + 1 - page))") auto

declare fetch_pages.simps [simp del]

definition paginating_Fetch ::
  "paginating_fetcher \<Rightarrow> (source_params \<Rightarrow> fetch_result) \<Rightarrow> (int \<Rightarrow> goerr option) \<Rightarrow> source_params \<Rightarrow> fetch_result" where
  "paginating_Fetch f inner ctx params = fetch_pages f inner ctx params 1 {} []"

subsection \<open>Lemmas\<close>

text \<open>Keeping the first listing of every token: what the loop computes.\<close>

fun dedup_tokens :: "string set \<Rightarrow> raw_listing list \<Rightarrow> raw_listing list" where
  "dedup_tokens seen [] = []"
| "dedup_tokens seen (l # ls) =
     (if rl_Token l \<in> seen then dedup_tokens seen ls else l # dedup_tokens (insert (rl_Token l) seen) ls)"

lemma add_new_eq:
  "add_new seen all added ls =
     (seen \<union> rl_Token ` set ls, all @ dedup_tokens seen ls, added + int (length (dedup_tokens seen ls)))"
  by (induction ls arbitrary: seen all added) (auto simp: insert_absorb)

lemma dedup_tokens_append: "dedup_tokens seen (xs @ ys) = dedup_tokens seen xs @ dedup_tokens (seen \<union> rl_Token ` set xs) ys"
  by (induction xs arbitrary: seen) (auto simp: insert_absorb)

lemma dedup_tokens_set: "rl_Token ` set (dedup_tokens seen ls) = rl_Token ` set ls - seen"
  by (induction ls arbitrary: seen) auto

lemma dedup_tokens_Nil_iff: "dedup_tokens {} ls = [] \<longleftrightarrow> ls = []"
  by (cases ls) simp_all

lemma dedup_tokens_distinct: "distinct (map rl_Token (dedup_tokens seen ls))"
proof (induction ls arbitrary: seen)
  case (Cons l ls)
  have "rl_Token l \<notin> set (map rl_Token (dedup_tokens (insert (rl_Token l) seen) ls))"
    using dedup_tokens_set [of "insert (rl_Token l) seen" ls] by auto
  with Cons show ?case by simp
qed simp

lemma dedup_tokens_idem: "dedup_tokens {} (dedup_tokens {} ls) = dedup_tokens {} ls"
proof -
  have "dedup_tokens seen xs = xs" if "distinct (map rl_Token xs)" "seen \<inter> rl_Token ` set xs = {}" for seen xs
    using that by (induction xs arbitrary: seen) auto
  then show ?thesis by (simp add: dedup_tokens_distinct)
qed

text \<open>The loop invariant: \<open>all\<close> is the deduplication of the pages so far and \<open>seen\<close> its tokens.\<close>

lemma fetch_pages_sound:
  assumes "fetch_pages f inner ctx params page seen all = (ls, err)"
    and "all = dedup_tokens {} pages" "seen = rl_Token ` set pages"
    and "1 \<le> page" "all = [] \<longleftrightarrow> page = 1"
  shows "\<exists>k. page \<le> k + 1 \<and> k \<le> max (page - 1) (pf_maxPages f) \<and>
     (\<forall>i. page \<le> i \<longrightarrow> i \<le> k \<longrightarrow> snd (inner (params\<lparr>p_Page := i\<rparr>)) = None) \<and>
     (ls = dedup_tokens {} (pages @ concat (map (\<lambda>i. fst (inner (params\<lparr>p_Page := i\<rparr>))) [page..k]))) \<and>
     (\<forall>e. err = Some e \<longrightarrow> (if k = 0 then ls = [] else ls \<noteq> [] \<and> errors_is e ErrPartialResults))"
  using assms
proof (induction f inner ctx params page seen all arbitrary: pages rule: fetch_pages.induct)
  case (1 f inner ctx params page seen all)
  let ?res = "inner (params\<lparr>p_Page := page\<rparr>)"
  let ?ctx = "if page > 1 \<and> pf_pageDelay f > 0 then ctx page else None"
  note step = "1.prems"(1) [unfolded fetch_pages.simps [of f inner ctx params page]]
  show ?case
  proof (cases "page > pf_maxPages f \<or> ?ctx \<noteq> None \<or> snd ?res \<noteq> None")
    case True
    then have "ls = all" "err = None \<or> page = 1 \<or> (\<exists>e. err = Some (ErrPartialResults # e))"
      using step "1.prems"(5) by (auto split: if_splits option.splits prod.splits)
    with "1.prems" show ?thesis by (intro exI [of _ "page - 1"]) auto
  next
    case False
    obtain listings where r: "?res = (listings, None)" using False by (cases ?res) auto
    show ?thesis
    proof (cases "listings = [] \<or> dedup_tokens seen listings = []")
      case True
      then have "ls = all" "err = None" "dedup_tokens seen listings = []"
        using step False r by (auto simp: add_new_eq split: option.splits if_splits)
      then show ?thesis using "1.prems" r False
        by (intro exI [of _ page]) (auto simp: dedup_tokens_append)
    next
      case new: False
      let ?pages' = "pages @ listings"
      have rec: "fetch_pages f inner ctx params (page + 1) (seen \<union> rl_Token ` set listings)
          (all @ dedup_tokens seen listings) = (ls, err)"
        using step False r new by (auto simp: add_new_eq split: option.splits)
      have "\<exists>k. page + 1 \<le> k + 1 \<and> k \<le> max (page + 1 - 1) (pf_maxPages f) \<and>
         (\<forall>i. page + 1 \<le> i \<longrightarrow> i \<le> k \<longrightarrow> snd (inner (params\<lparr>p_Page := i\<rparr>)) = None) \<and>
         (ls = dedup_tokens {} (?pages' @ concat (map (\<lambda>i. fst (inner (params\<lparr>p_Page := i\<rparr>))) [page + 1..k]))) \<and>
         (\<forall>e. err = Some e \<longrightarrow> (if k = 0 then ls = [] else ls \<noteq> [] \<and> errors_is e ErrPartialResults))"
        using False new rec "1.prems"
        by (intro "1.IH" [OF _ _ r [symmetric] refl _ add_new_eq [symmetric] refl])
          (auto simp: dedup_tokens_append dedup_tokens_Nil_iff)
      then obtain k where k: "page \<le> k" "k \<le> max page (pf_maxPages f)"
        "\<forall>i. page + 1 \<le> i \<longrightarrow> i \<le> k \<longrightarrow> snd (inner (params\<lparr>p_Page := i\<rparr>)) = None"
        "ls = dedup_tokens {} (?pages' @ concat (map (\<lambda>i. fst (inner (params\<lparr>p_Page := i\<rparr>))) [page + 1..k]))"
        "\<forall>e. err = Some e \<longrightarrow> (if k = 0 then ls = [] else ls \<noteq> [] \<and> errors_is e ErrPartialResults)"
        by auto
      have "snd (inner (params\<lparr>p_Page := i\<rparr>)) = None" if "page \<le> i" "i \<le> k" for i
        using k(3) r that by (cases "i = page") auto
      moreover have "[page..k] = page # [page + 1..k]" using k(1) by (rule upto_rec1)
      ultimately show ?thesis using k r False by (intro exI [of _ k]) auto
    qed
  qed
qed

subsection \<open>Properties\<close>

text \<open>What a paginated fetch returns: the deduplicated listings of the pages 1 to k for some k within
  the page limit, every one of which was fetched without error; no token twice. If it also returns an
  error, then either nothing was fetched (k = 0) and no listing is returned, or the error wraps
  \<open>ErrPartialResults\<close> and the listings are not empty, which is exactly the case consumers keep.\<close>

lemma paginating_Fetch_sound:
  assumes "paginating_Fetch f inner ctx params = (ls, err)"
  shows "distinct (map rl_Token ls) \<and>
    (\<exists>k. 0 \<le> k \<and> k \<le> max 0 (pf_maxPages f) \<and>
      (\<forall>i\<in>{1..k}. snd (inner (params\<lparr>p_Page := i\<rparr>)) = None) \<and>
      ls = dedup_tokens {} (concat (map (\<lambda>i. fst (inner (params\<lparr>p_Page := i\<rparr>))) [1..k])) \<and>
      (err \<noteq> None \<longrightarrow> (if k = 0 then ls = [] else usable_partial (ls, err))))"
proof -
  from fetch_pages_sound [OF assms [unfolded paginating_Fetch_def], of "[]"]
  obtain k where "0 \<le> k" "k \<le> max 0 (pf_maxPages f)"
    "\<forall>i. 1 \<le> i \<longrightarrow> i \<le> k \<longrightarrow> snd (inner (params\<lparr>p_Page := i\<rparr>)) = None"
    and ls: "ls = dedup_tokens {} (concat (map (\<lambda>i. fst (inner (params\<lparr>p_Page := i\<rparr>))) [1..k]))"
    and "\<forall>e. err = Some e \<longrightarrow> (if k = 0 then ls = [] else ls \<noteq> [] \<and> errors_is e ErrPartialResults)"
    by auto
  then have "0 \<le> k \<and> k \<le> max 0 (pf_maxPages f) \<and>
      (\<forall>i\<in>{1..k}. snd (inner (params\<lparr>p_Page := i\<rparr>)) = None) \<and>
      ls = dedup_tokens {} (concat (map (\<lambda>i. fst (inner (params\<lparr>p_Page := i\<rparr>))) [1..k])) \<and>
      (err \<noteq> None \<longrightarrow> (if k = 0 then ls = [] else usable_partial (ls, err)))"
    by (auto simp: usable_partial_def split: if_splits)
  moreover have "distinct (map rl_Token ls)" unfolding ls by (rule dedup_tokens_distinct)
  ultimately show ?thesis by blast
qed

definition two_pages :: "source_params \<Rightarrow> fetch_result" where
  "two_pages p =
    (if p_Page p = 1 then ([zero_raw_listing\<lparr>rl_Token := ''a''\<rparr>], None)
     else ([], Some [ErrRateLimited]))"

lemma paginating_Fetch_sound_witness:
  "distinct (map rl_Token [zero_raw_listing\<lparr>rl_Token := ''a''\<rparr>]) \<and>
    (\<exists>k. 0 \<le> k \<and> k \<le> max 0 (pf_maxPages (NewPaginatingFetcher 0)) \<and>
      (\<forall>i\<in>{1..k}. snd (two_pages ((SourceParamsFromSearch zero_search)\<lparr>p_Page := i\<rparr>)) = None) \<and>
      [zero_raw_listing\<lparr>rl_Token := ''a''\<rparr>] =
        dedup_tokens {} (concat (map (\<lambda>i. fst (two_pages ((SourceParamsFromSearch zero_search)\<lparr>p_Page := i\<rparr>))) [1..k])) \<and>
      (Some [ErrPartialResults, ErrRateLimited] \<noteq> None \<longrightarrow>
        (if k = 0 then [zero_raw_listing\<lparr>rl_Token := ''a''\<rparr>] = []
         else usable_partial ([zero_raw_listing\<lparr>rl_Token := ''a''\<rparr>], Some [ErrPartialResults, ErrRateLimited]))))"
proof (rule paginating_Fetch_sound)
  show "paginating_Fetch (NewPaginatingFetcher 0) two_pages (\<lambda>_. None) (SourceParamsFromSearch zero_search)
     = ([zero_raw_listing\<lparr>rl_Token := ''a''\<rparr>], Some [ErrPartialResults, ErrRateLimited])"
    by (simp add: paginating_Fetch_def NewPaginatingFetcher_def DefaultMaxPages_def
        fetch_pages.simps [of _ _ _ _ 1] fetch_pages.simps [of _ _ _ _ 2] two_pages_def)
qed

end
