(* ===== verification/Circuit.thy ===== *)
theory Circuit
  imports FetchBase
begin

section \<open>The circuit breaker (internal/fetcher/circuitbreaker.go)\<close>

text \<open>
  \<open>CircuitBreaker.Fetch\<close> holds its mutex twice, before and after the call of the inner fetcher, so
  each half is one atomic step: \<open>cb_begin\<close> admits or rejects a call, \<open>cb_finish\<close> accounts for its
  result. A sequential caller composes the two (\<open>cb_Fetch\<close>); concurrent callers interleave them,
  which the step relation \<open>cb_step\<close> over the breaker and the number of calls in flight describes.
\<close>

datatype circuit_state = StateClosed | StateOpen | StateHalfOpen

fun circuit_state_String :: "circuit_state \<Rightarrow> string" where
  "circuit_state_String StateClosed = ''closed''"
| "circuit_state_String StateOpen = ''open''"
| "circuit_state_String StateHalfOpen = ''half-open''"

record circuit_breaker =
  cb_state :: circuit_state
  cb_failures :: int
  cb_failureThreshold :: int
  cb_cooldown :: duration
  cb_openedAt :: gotime
  cb_probing :: bool

definition NewCircuitBreaker :: "int \<Rightarrow> duration \<Rightarrow> circuit_breaker" where
  "NewCircuitBreaker threshold cooldown =
     \<lparr>cb_state = StateClosed, cb_failures = 0, cb_failureThreshold = threshold, cb_cooldown = cooldown,
      cb_openedAt = 0, cb_probing = False\<rparr>"

text \<open>The first critical section. \<open>Inl\<close> is the early return with its error.\<close>

definition cb_begin :: "gotime \<Rightarrow> circuit_breaker \<Rightarrow> (goerr + unit) \<times> circuit_breaker" where
  "cb_begin now cb =
    (case cb_state cb of
       StateOpen \<Rightarrow>
         if now - cb_openedAt cb \<ge> cb_cooldown cb
         then (let cb = cb\<lparr>cb_state := StateHalfOpen\<rparr>
               in (Inr (), cb\<lparr>cb_probing := (cb_state cb = StateHalfOpen)\<rparr>))
         else (Inl [ErrCircuitOpen], cb)
     | StateHalfOpen \<Rightarrow>
         if cb_probing cb then (Inl [ErrCircuitOpen], cb)
         else (Inr (), cb\<lparr>cb_probing := (cb_state cb = StateHalfOpen)\<rparr>)
     | StateClosed \<Rightarrow> (Inr (), cb\<lparr>cb_probing := (cb_state cb = StateHalfOpen)\<rparr>))"

text \<open>An error that counts as a failure of the source.\<close>

definition counts_as_failure :: "goerr \<Rightarrow> bool" where
  "counts_as_failure err \<longleftrightarrow>
     \<not> errors_is err CtxCanceled \<and> \<not> errors_is err CtxDeadlineExceeded \<and> \<not> errors_is err ErrRateLimited"

text \<open>The second critical section, on the result of the inner fetcher.\<close>

definition cb_finish :: "gotime \<Rightarrow> fetch_result \<Rightarrow> circuit_breaker \<Rightarrow> fetch_result \<times> circuit_breaker" where
  "cb_finish now res cb =
    (let cb = cb\<lparr>cb_probing := False\<rparr> in
     case res of
       (listings, Some err) \<Rightarrow>
         if errors_is err ErrPartialResults \<and> length listings > 0 then ((listings, Some err), cb)
         else if counts_as_failure err then
           (let cb = cb\<lparr>cb_failures := cb_failures cb + 1\<rparr> in
            if cb_failures cb \<ge> cb_failureThreshold cb \<or> cb_state cb = StateHalfOpen
            then (([], Some err), cb\<lparr>cb_state := StateOpen, cb_openedAt := now\<rparr>)
            else (([], Some err), cb))
         else (([], Some err), cb)
     | (listings, None) \<Rightarrow> ((listings, None), cb\<lparr>cb_failures := 0, cb_state := StateClosed\<rparr>))"

text \<open>A call with nothing else in between; \<open>t0\<close> and \<open>t1\<close> are the times of the two sections.\<close>

definition cb_Fetch :: "gotime \<Rightarrow> gotime \<Rightarrow> fetch_result \<Rightarrow> circuit_breaker \<Rightarrow> fetch_result \<times> circuit_breaker" where
  "cb_Fetch t0 t1 inner cb =
    (case cb_begin t0 cb of
       (Inl err, cb') \<Rightarrow> (([], Some err), cb')
     | (Inr _, cb') \<Rightarrow> cb_finish t1 inner cb')"

definition cb_State :: "circuit_breaker \<Rightarrow> circuit_state" where "cb_State cb = cb_state cb"
definition cb_Failures :: "circuit_breaker \<Rightarrow> int" where "cb_Failures cb = cb_failures cb"

text \<open>Concurrent use: the breaker with the number of admitted calls that have not returned, and how many
  of them were admitted as a probe (in the half-open state).\<close>

record cb_sys =
  sys_cb :: circuit_breaker
  sys_inflight :: nat
  sys_probes :: nat

definition init_sys :: "int \<Rightarrow> duration \<Rightarrow> cb_sys" where
  "init_sys threshold cooldown =
     \<lparr>sys_cb = NewCircuitBreaker threshold cooldown, sys_inflight = 0, sys_probes = 0\<rparr>"

inductive cb_step :: "cb_sys \<Rightarrow> cb_sys \<Rightarrow> bool" where
  admit: "cb_begin now (sys_cb s) = (Inr (), cb') \<Longrightarrow>
     cb_step s \<lparr>sys_cb = cb', sys_inflight = Suc (sys_inflight s),
       sys_probes = sys_probes s + (if cb_state cb' = StateHalfOpen then 1 else 0)\<rparr>"
| reject: "cb_begin now (sys_cb s) = (Inl err, cb') \<Longrightarrow> cb_step s (s\<lparr>sys_cb := cb'\<rparr>)"
| finish_call: "sys_inflight s = Suc n \<Longrightarrow> sys_probes s < sys_inflight s \<Longrightarrow> cb_finish now res (sys_cb s) = (r, cb') \<Longrightarrow>
     cb_step s (s\<lparr>sys_cb := cb', sys_inflight := n\<rparr>)"
| finish_probe: "sys_inflight s = Suc n \<Longrightarrow> sys_probes s = Suc m \<Longrightarrow> cb_finish now res (sys_cb s) = (r, cb') \<Longrightarrow>
     cb_step s (s\<lparr>sys_cb := cb', sys_inflight := n, sys_probes := m\<rparr>)"

inductive cb_reachable :: "int \<Rightarrow> duration \<Rightarrow> cb_sys \<Rightarrow> bool" for threshold cooldown where
  start: "cb_reachable threshold cooldown (init_sys threshold cooldown)"
| step: "cb_reachable threshold cooldown s \<Longrightarrow> cb_step s t \<Longrightarrow> cb_reachable threshold cooldown t"

inductive_cases cb_stepE: "cb_step s t"

subsection \<open>Lemmas\<close>

lemma cb_begin_cases:
  "cb_begin now cb = (Inl err, cb') \<Longrightarrow>
     err = [ErrCircuitOpen] \<and> cb' = cb \<and>
     (cb_state cb = StateOpen \<and> now - cb_openedAt cb < cb_cooldown cb \<or> cb_state cb = StateHalfOpen \<and> cb_probing cb)"
  "cb_begin now cb = (Inr u, cb') \<Longrightarrow>
     (cb_state cb = StateClosed \<and> cb' = cb\<lparr>cb_probing := False\<rparr> \<or>
      cb_state cb \<noteq> StateClosed \<and> cb' = cb\<lparr>cb_state := StateHalfOpen, cb_probing := True\<rparr>)"
  by (auto simp: cb_begin_def Let_def split: circuit_state.splits if_splits)

text \<open>What holds between the fields at every moment.\<close>

definition cb_inv :: "int \<Rightarrow> duration \<Rightarrow> circuit_breaker \<Rightarrow> bool" where
  "cb_inv threshold cooldown cb \<longleftrightarrow>
     cb_failureThreshold cb = threshold \<and> cb_cooldown cb = cooldown \<and> 0 \<le> cb_failures cb \<and>
     (cb_state cb = StateClosed \<longrightarrow> cb_failures cb < threshold) \<and>
     (cb_probing cb \<longrightarrow> cb_state cb = StateHalfOpen)"

lemma cb_inv_new: "0 < threshold \<Longrightarrow> cb_inv threshold cooldown (NewCircuitBreaker threshold cooldown)"
  by (simp add: cb_inv_def NewCircuitBreaker_def)

lemma cb_begin_inv: "cb_inv th cd cb \<Longrightarrow> cb_begin now cb = (r, cb') \<Longrightarrow> cb_inv th cd cb'"
  using cb_begin_cases by (cases r) (fastforce simp: cb_inv_def)+

lemma cb_finish_inv: "0 < th \<Longrightarrow> cb_inv th cd cb \<Longrightarrow> cb_finish now res cb = (r, cb') \<Longrightarrow> cb_inv th cd cb'"
  by (auto simp: cb_finish_def cb_inv_def Let_def split: prod.splits option.splits if_splits)

lemma cb_step_inv: "cb_step s t \<Longrightarrow> 0 < th \<Longrightarrow> cb_inv th cd (sys_cb s) \<Longrightarrow> cb_inv th cd (sys_cb t)"
  by (induction rule: cb_step.induct) (auto intro: cb_begin_inv cb_finish_inv)

lemma reachable_inv: "cb_reachable th cd s \<Longrightarrow> 0 < th \<Longrightarrow> cb_inv th cd (sys_cb s)"
  by (induction rule: cb_reachable.induct) (auto simp: init_sys_def cb_inv_new intro: cb_step_inv)

text \<open>A run of sequential calls, each with its two times and the answer of the source.\<close>

type_synonym cb_call = "gotime \<times> gotime \<times> fetch_result"

fun cb_run :: "circuit_breaker \<Rightarrow> cb_call list \<Rightarrow> circuit_breaker" where
  "cb_run cb [] = cb"
| "cb_run cb ((t0, t1, res) # calls) = cb_run (snd (cb_Fetch t0 t1 res cb)) calls"

definition failed_call :: "cb_call \<Rightarrow> bool" where
  "failed_call c = (case c of (_, _, _, err) \<Rightarrow>
     (case err of None \<Rightarrow> False | Some e \<Rightarrow> counts_as_failure e \<and> \<not> errors_is e ErrPartialResults))"

lemma closed_failure_counts:
  assumes "cb_state cb = StateClosed" "failed_call (t0, t1, res)"
  shows "snd (cb_Fetch t0 t1 res cb) =
    (if cb_failures cb + 1 \<ge> cb_failureThreshold cb
     then cb\<lparr>cb_probing := False, cb_failures := cb_failures cb + 1, cb_state := StateOpen, cb_openedAt := t1\<rparr>
     else cb\<lparr>cb_probing := False, cb_failures := cb_failures cb + 1\<rparr>)"
  using assms
  by (cases res) (auto simp: cb_Fetch_def cb_begin_def cb_finish_def failed_call_def Let_def split: option.splits)

lemma run_of_failures:
  assumes "cb_state cb = StateClosed" "list_all failed_call calls"
    and "cb_failures cb + int (length calls) < cb_failureThreshold cb"
  shows "cb_state (cb_run cb calls) = StateClosed \<and> cb_failures (cb_run cb calls) = cb_failures cb + int (length calls) \<and>
    cb_failureThreshold (cb_run cb calls) = cb_failureThreshold cb"
  using assms
proof (induction calls arbitrary: cb)
  case (Cons c calls)
  obtain t0 t1 res where c: "c = (t0, t1, res)" by (metis prod_cases3)
  from Cons.prems c have "snd (cb_Fetch t0 t1 res cb) = cb\<lparr>cb_probing := False, cb_failures := cb_failures cb + 1\<rparr>"
    by (subst closed_failure_counts) auto
  with Cons.IH [of "snd (cb_Fetch t0 t1 res cb)"] Cons.prems c show ?case by simp
qed simp

lemma failure_keeps_not_closed:
  assumes "cb_state cb \<noteq> StateClosed" "failed_call (t0, t1, res)"
  shows "cb_state (snd (cb_Fetch t0 t1 res cb)) \<noteq> StateClosed"
  using assms
  by (cases res; cases "cb_state cb")
    (auto simp: cb_Fetch_def cb_begin_def cb_finish_def failed_call_def Let_def split: option.splits)

lemma run_keeps_not_closed:
  "cb_state cb \<noteq> StateClosed \<Longrightarrow> list_all failed_call calls \<Longrightarrow> cb_state (cb_run cb calls) \<noteq> StateClosed"
proof (induction calls arbitrary: cb)
  case (Cons c calls)
  then show ?case by (cases c) (auto simp: failure_keeps_not_closed)
qed simp

lemma cb_run_append: "cb_run cb (xs @ ys) = cb_run (cb_run cb xs) ys"
  by (induction xs arbitrary: cb) auto

subsection \<open>Properties\<close>

text \<open>The breaker trips exactly at its threshold: after any number of consecutive counted failures
  of a fresh breaker, at any times, it is closed if and only if there were fewer failures than the
  threshold.\<close>

lemma circuit_trips_at_threshold:
  assumes "0 < threshold" "list_all failed_call calls"
  shows "cb_state (cb_run (NewCircuitBreaker threshold cooldown) calls) = StateClosed \<longleftrightarrow>
    int (length calls) < threshold"
proof (cases "int (length calls) < threshold")
  case True
  with run_of_failures [of "NewCircuitBreaker threshold cooldown" calls] assms show ?thesis
    by (simp add: NewCircuitBreaker_def)
next
  case False
  let ?n = "nat (threshold - 1)" and ?new = "NewCircuitBreaker threshold cooldown"
  from False assms(1) have n: "?n < length calls" by linarith
  let ?pre = "take ?n calls" and ?c = "calls ! ?n" and ?post = "drop (Suc ?n) calls"
  have calls: "calls = ?pre @ ?c # ?post" using n by (rule id_take_nth_drop)
  have all: "list_all failed_call ?pre" "failed_call ?c" "list_all failed_call ?post"
    using assms(2) by (subst (asm) calls; simp)+
  have pre: "cb_state (cb_run ?new ?pre) = StateClosed \<and> cb_failures (cb_run ?new ?pre) = threshold - 1 \<and>
      cb_failureThreshold (cb_run ?new ?pre) = threshold"
    using run_of_failures [of ?new ?pre] all(1) n assms(1) by (simp add: NewCircuitBreaker_def)
  obtain t0 t1 res where c: "?c = (t0, t1, res)" by (metis prod_cases3)
  have "cb_state (snd (cb_Fetch t0 t1 res (cb_run ?new ?pre))) \<noteq> StateClosed"
    using pre all(2) c by (subst closed_failure_counts) auto
  then have "cb_state (cb_run ?new (?pre @ ?c # ?post)) \<noteq> StateClosed"
    using run_keeps_not_closed [OF _ all(3)] by (simp add: cb_run_append c)
  then show ?thesis using False calls by simp
qed

lemma circuit_trips_at_threshold_witness:
  "cb_state (cb_run (NewCircuitBreaker 2 60) [(1, 2, ([], Some [ErrChallenge])), (3, 4, ([], Some [OtherError ''x'']))])
     \<noteq> StateClosed"
proof -
  have "list_all failed_call [(1, 2, ([], Some [ErrChallenge])), (3, 4, ([], Some [OtherError ''x'']))]"
    by (simp add: failed_call_def counts_as_failure_def)
  then show ?thesis by (subst circuit_trips_at_threshold) simp_all
qed

text \<open>The life of an open breaker. Before the cooldown is over every call is rejected with
  \<open>ErrCircuitOpen\<close> and changes nothing. After it, one call goes through: success closes the breaker
  and clears its count, a counted failure opens it again from that moment whatever the threshold, and
  an answer that counts neither way (cancelled, rate limited, partial) leaves it half open for the
  next probe.\<close>

lemma circuit_open_cycle:
  assumes "cb_state cb = StateOpen"
  shows "(t0 - cb_openedAt cb < cb_cooldown cb \<longrightarrow> cb_Fetch t0 t1 res cb = (([], Some [ErrCircuitOpen]), cb)) \<and>
    (cb_cooldown cb \<le> t0 - cb_openedAt cb \<longrightarrow>
      snd (cb_Fetch t0 t1 (ls, None) cb) = cb\<lparr>cb_probing := False, cb_failures := 0, cb_state := StateClosed\<rparr> \<and>
      (failed_call (t0, t1, ls, Some e) \<longrightarrow> snd (cb_Fetch t0 t1 (ls, Some e) cb) =
        cb\<lparr>cb_probing := False, cb_failures := cb_failures cb + 1, cb_state := StateOpen, cb_openedAt := t1\<rparr>) \<and>
      (usable_partial (ls, Some e) \<or> \<not> counts_as_failure e \<longrightarrow>
        snd (cb_Fetch t0 t1 (ls, Some e) cb) = cb\<lparr>cb_probing := False, cb_state := StateHalfOpen\<rparr>))"
  using assms
  by (auto simp: cb_Fetch_def cb_begin_def cb_finish_def failed_call_def usable_partial_def Let_def)

lemma circuit_open_cycle_witness:
  "cb_Fetch 50 51 ([], None) \<lparr>cb_state = StateOpen, cb_failures = 3, cb_failureThreshold = 3, cb_cooldown = 60,
      cb_openedAt = 0, cb_probing = False\<rparr>
   = (([], Some [ErrCircuitOpen]), \<lparr>cb_state = StateOpen, cb_failures = 3, cb_failureThreshold = 3, cb_cooldown = 60,
      cb_openedAt = 0, cb_probing = False\<rparr>)"
  using circuit_open_cycle [of "\<lparr>cb_state = StateOpen, cb_failures = 3, cb_failureThreshold = 3, cb_cooldown = 60,
      cb_openedAt = 0, cb_probing = False\<rparr>" 50 51 "([], None)"] by simp

text \<open>Under any interleaving of concurrent calls a closed breaker has counted fewer failures than its
  threshold, and the probing flag is set only in the half-open state.\<close>

lemma circuit_concurrent_invariant:
  assumes "cb_reachable threshold cooldown s" "0 < threshold"
  shows "(cb_state (sys_cb s) = StateClosed \<longrightarrow> cb_failures (sys_cb s) < threshold) \<and>
    (cb_probing (sys_cb s) \<longrightarrow> cb_state (sys_cb s) = StateHalfOpen)"
  using reachable_inv [OF assms] by (simp add: cb_inv_def)

lemma circuit_concurrent_invariant_witness:
  "cb_failures (sys_cb (init_sys 3 60)) < 3"
  using circuit_concurrent_invariant [OF cb_reachable.start [of 3 60]] by (simp add: init_sys_def NewCircuitBreaker_def)

text \<open>The half-open state is meant to let one probe through at a time (a second call is rejected while
  \<open>probing\<close> is set), but any call that returns clears the flag, also one that was admitted before the
  breaker opened. So two probes can be in flight: with threshold 1 and cooldown 60, two calls start, the
  first fails and opens the breaker, a probe starts after the cooldown, the second old call returns
  cancelled, and another probe is admitted while the first is still running.\<close>

lemma two_probes_reachable:
  "\<exists>s. cb_reachable 1 60 s \<and> sys_probes s = 2 \<and> cb_state (sys_cb s) = StateHalfOpen"
proof -
  let ?cb = "\<lambda>st f oa p. \<lparr>cb_state = st, cb_failures = f, cb_failureThreshold = 1, cb_cooldown = 60,
      cb_openedAt = oa, cb_probing = p\<rparr>"
  let ?sys = "\<lambda>cb n m. \<lparr>sys_cb = cb, sys_inflight = n, sys_probes = m\<rparr>"
  have s0: "cb_reachable 1 60 (?sys (?cb StateClosed 0 0 False) 0 0)"
    using cb_reachable.start [of 1 60] by (simp add: init_sys_def NewCircuitBreaker_def)
  have "cb_step (?sys (?cb StateClosed 0 0 False) 0 0) (?sys (?cb StateClosed 0 0 False) 1 0)"
    using cb_step.admit [of 1 "?sys (?cb StateClosed 0 0 False) 0 0"] by (simp add: cb_begin_def)
  with s0 have s1: "cb_reachable 1 60 (?sys (?cb StateClosed 0 0 False) 1 0)" by (rule cb_reachable.step)
  have "cb_step (?sys (?cb StateClosed 0 0 False) 1 0) (?sys (?cb StateClosed 0 0 False) 2 0)"
    using cb_step.admit [of 2 "?sys (?cb StateClosed 0 0 False) 1 0"] by (simp add: cb_begin_def numeral_2_eq_2)
  with s1 have s2: "cb_reachable 1 60 (?sys (?cb StateClosed 0 0 False) 2 0)" by (rule cb_reachable.step)
  have "cb_step (?sys (?cb StateClosed 0 0 False) 2 0) (?sys (?cb StateOpen 1 3 False) 1 0)"
    using cb_step.finish_call [of "?sys (?cb StateClosed 0 0 False) 2 0" 1 3 "([], Some [ErrChallenge])"]
    by (simp add: cb_finish_def counts_as_failure_def Let_def)
  with s2 have s3: "cb_reachable 1 60 (?sys (?cb StateOpen 1 3 False) 1 0)" by (rule cb_reachable.step)
  have "cb_step (?sys (?cb StateOpen 1 3 False) 1 0) (?sys (?cb StateHalfOpen 1 3 True) 2 1)"
    using cb_step.admit [of 63 "?sys (?cb StateOpen 1 3 False) 1 0"] by (simp add: cb_begin_def Let_def numeral_2_eq_2)
  with s3 have s4: "cb_reachable 1 60 (?sys (?cb StateHalfOpen 1 3 True) 2 1)" by (rule cb_reachable.step)
  have "cb_step (?sys (?cb StateHalfOpen 1 3 True) 2 1) (?sys (?cb StateHalfOpen 1 3 False) 1 1)"
    using cb_step.finish_call [of "?sys (?cb StateHalfOpen 1 3 True) 2 1" 1 64 "([], Some [CtxCanceled])"]
    by (simp add: cb_finish_def counts_as_failure_def Let_def)
  with s4 have s5: "cb_reachable 1 60 (?sys (?cb StateHalfOpen 1 3 False) 1 1)" by (rule cb_reachable.step)
  have "cb_step (?sys (?cb StateHalfOpen 1 3 False) 1 1) (?sys (?cb StateHalfOpen 1 3 True) 2 2)"
    using cb_step.admit [of 65 "?sys (?cb StateHalfOpen 1 3 False) 1 1"] by (simp add: cb_begin_def numeral_2_eq_2)
  with s5 have "cb_reachable 1 60 (?sys (?cb StateHalfOpen 1 3 True) 2 2)" by (rule cb_reachable.step)
  then show ?thesis by (intro exI [of _ "?sys (?cb StateHalfOpen 1 3 True) 2 2"]) simp
qed

end
