(* ===== verification/FetchCache.thy ===== *)
theory FetchCache
  imports FetchBase "HOL-Library.AList"
begin

section \<open>The caching fetcher (internal/fetcher/cache.go)\<close>

text \<open>
  The Go map is an association list with distinct keys; the order of the list stands for the
  (unspecified) order in which the map is iterated, so a statement for every list covers every order.
  \<open>CachingFetcher.Fetch\<close> takes its lock twice, before and after the inner fetch: \<open>cf_begin\<close> answers
  a fresh entry or hands on the stale one, \<open>cf_finish\<close> stores the result and evicts. Each section
  reads the clock once.
\<close>

record cache_entry =
  ce_listings :: "raw_listing list"
  ce_fetchedAt :: gotime
  ce_lastUsed :: gotime

type_synonym fetch_cache = "(string \<times> cache_entry) list"

record caching_fetcher =
  cf_ttl :: duration
  cf_cache :: fetch_cache

definition NewCachingFetcher :: "duration \<Rightarrow> caching_fetcher" where
  "NewCachingFetcher ttl = \<lparr>cf_ttl = ttl, cf_cache = []\<rparr>"

definition maxCacheEntries :: nat where "maxCacheEntries = 100"

definition bool_str :: "bool \<Rightarrow> string" where
  "bool_str b = (if b then ''true'' else ''false'')"

definition cacheKey :: "source_params \<Rightarrow> string" where
  "cacheKey p =
     itoa (p_Manufacturer p) @ '':'' @ itoa (p_Model p) @ '':'' @ itoa (p_YearMin p) @ ''-'' @ itoa (p_YearMax p) @
     '':'' @ itoa (p_PriceMin p) @ ''-'' @ itoa (p_PriceMax p) @ '':'' @ itoa (p_Page p) @ '':'' @
     itoa (p_MaxKm p) @ '':'' @ itoa (p_MaxHand p) @ '':'' @ itoa (p_EngineMinCC p) @ '':'' @
     p_SellerFilter p @ '':'' @ bool_str (p_PhotoOnly p)"

definition CacheKeyFor :: "source_params \<Rightarrow> string" where
  "CacheKeyFor p = cacheKey p"

definition touch :: "gotime \<Rightarrow> string \<Rightarrow> caching_fetcher \<Rightarrow> caching_fetcher" where
  "touch now key c =
    (case map_of (cf_cache c) key of
       Some cur \<Rightarrow> c\<lparr>cf_cache := AList.update key (cur\<lparr>ce_lastUsed := now\<rparr>) (cf_cache c)\<rparr>
     | None \<Rightarrow> c)"

definition evictExpired :: "gotime \<Rightarrow> caching_fetcher \<Rightarrow> caching_fetcher" where
  "evictExpired now c =
     c\<lparr>cf_cache := filter (\<lambda>(k, e). \<not> (now - ce_fetchedAt e > 2 * cf_ttl c)) (cf_cache c)\<rparr>"

fun evict_items :: "string list \<Rightarrow> fetch_cache \<Rightarrow> fetch_cache" where
  "evict_items [] cache = cache"
| "evict_items (k # ks) cache =
     (if length cache \<le> maxCacheEntries then cache else evict_items ks (AList.delete k cache))"

definition evictOldest :: "caching_fetcher \<Rightarrow> caching_fetcher" where
  "evictOldest c =
     c\<lparr>cf_cache := evict_items (map fst (sort_key (\<lambda>(k, e). ce_lastUsed e) (cf_cache c))) (cf_cache c)\<rparr>"

text \<open>The lookup: \<open>Inl\<close> is a hit with its listings, \<open>Inr\<close> a miss with the entry found, if any.\<close>

definition cf_begin :: "gotime \<Rightarrow> source_params \<Rightarrow> caching_fetcher \<Rightarrow> (raw_listing list + cache_entry option) \<times> caching_fetcher" where
  "cf_begin now params c =
    (let key = cacheKey params in
     case map_of (cf_cache c) key of
       Some entry \<Rightarrow>
         if now - ce_fetchedAt entry < cf_ttl c then (Inl (ce_listings entry), touch now key c)
         else (Inr (Some entry), c)
     | None \<Rightarrow> (Inr None, c))"

definition cf_store :: "gotime \<Rightarrow> string \<Rightarrow> raw_listing list \<Rightarrow> caching_fetcher \<Rightarrow> caching_fetcher" where
  "cf_store now key listings c =
    (let c = c\<lparr>cf_cache := AList.update key \<lparr>ce_listings = listings, ce_fetchedAt = now, ce_lastUsed = now\<rparr> (cf_cache c)\<rparr>;
         c = (if length (cf_cache c) > maxCacheEntries then evictExpired now c else c);
         c = (if length (cf_cache c) > maxCacheEntries then evictOldest c else c)
     in c)"

definition cf_finish :: "gotime \<Rightarrow> source_params \<Rightarrow> cache_entry option \<Rightarrow> fetch_result \<Rightarrow> caching_fetcher \<Rightarrow> fetch_result \<times> caching_fetcher" where
  "cf_finish now params found inner c =
    (let key = cacheKey params in
     case inner of
       (listings, Some err) \<Rightarrow>
         if errors_is err ErrPartialResults \<and> length listings > 0 then ((listings, Some err), c)
         else if errors_is err ErrChallenge \<or> errors_is err ErrRateLimited then (([], Some err), c)
         else (case found of
                 Some entry \<Rightarrow> ((ce_listings entry, None), touch now key c)
               | None \<Rightarrow> (([], Some err), c))
     | (listings, None) \<Rightarrow> ((listings, None), cf_store now key listings c))"

text \<open>A call with no other caller between its two sections; the flag says whether the inner fetcher was
  asked.\<close>

definition cf_Fetch :: "gotime \<Rightarrow> gotime \<Rightarrow> (source_params \<Rightarrow> fetch_result) \<Rightarrow> source_params \<Rightarrow> caching_fetcher \<Rightarrow>
    fetch_result \<times> bool \<times> caching_fetcher" where
  "cf_Fetch t0 t1 inner params c =
    (case cf_begin t0 params c of
       (Inl listings, c') \<Rightarrow> ((listings, None), False, c')
     | (Inr found, c') \<Rightarrow> (case cf_finish t1 params found (inner params) c' of (r, c'') \<Rightarrow> (r, True, c'')))"

subsection \<open>Lemmas: the key determines the parameters\<close>

definition is_digit :: "char \<Rightarrow> bool" where
  "is_digit c = (let n = (of_char c :: nat) in 48 \<le> n \<and> n \<le> 57)"

fun digits_value :: "nat \<Rightarrow> string \<Rightarrow> nat" where
  "digits_value acc [] = acc"
| "digits_value acc (c # s) = digits_value (10 * acc + (of_char c - 48)) s"

lemma digits_value_append: "digits_value acc (s @ t) = digits_value (digits_value acc s) t"
  by (induction s arbitrary: acc) auto

lemma digit_char_value: "d < 10 \<Longrightarrow> (of_char (digit_char d) :: nat) = 48 + d"
  by (simp add: digit_char_def)

lemma digits_value_nat_digits: "digits_value 0 (nat_digits n) = n"
proof (induction n rule: nat_digits.induct)
  case (1 n)
  show ?case
  proof (cases "n < 10")
    case True
    then show ?thesis by (simp add: nat_digits.simps [of n] digit_char_value)
  next
    case False
    with 1 show ?thesis by (simp add: nat_digits.simps [of n] digits_value_append digit_char_value)
  qed
qed

lemma is_digit_digit_char: "d < 10 \<Longrightarrow> is_digit (digit_char d)"
  by (simp add: is_digit_def digit_char_value)

lemma nat_digits_all: "list_all is_digit (nat_digits n)"
proof (induction n rule: nat_digits.induct)
  case (1 n)
  then show ?case
    by (subst nat_digits.simps) (simp add: is_digit_digit_char)
qed

lemma digits_sep:
  assumes "list_all is_digit s" "list_all is_digit t" "\<not> is_digit c" "s @ c # xs = t @ c # ys"
  shows "s = t \<and> xs = ys"
  using assms by (induction s arbitrary: t) (auto simp: Cons_eq_append_conv append_eq_Cons_conv)

lemma minus_not_digit [simp]: "\<not> is_digit (CHR ''-'')" "\<not> is_digit (CHR '':'')"
  by (simp_all add: is_digit_def)

lemma itoa_sep:
  assumes "\<not> is_digit c" "itoa a @ c # xs = itoa b @ c # ys"
  shows "a = b \<and> xs = ys"
proof -
  have nn: "a = b \<and> xs = ys" if "0 \<le> a" "0 \<le> b" "nat_digits (nat a) @ c # xs = nat_digits (nat b) @ c # ys" for a b
  proof -
    have "nat_digits (nat a) = nat_digits (nat b) \<and> xs = ys"
      using that(3) assms(1) by (intro digits_sep) (auto simp: nat_digits_all)
    then have "nat a = nat b" "xs = ys" by (metis digits_value_nat_digits)+
    with that show ?thesis by simp
  qed
  have hd: "nat_digits n @ zs \<noteq> CHR ''-'' # ws" for n zs ws
  proof -
    obtain d ds where "nat_digits n = d # ds" by (cases "nat_digits n") simp_all
    moreover from this have "is_digit d" using nat_digits_all [of n] by simp
    ultimately show ?thesis by auto
  qed
  show ?thesis
    using assms(2) nn [of a b] nn [of "- a" "- b"] hd hd [THEN not_sym]
    by (auto simp: itoa_def split: if_splits)
qed

lemma suffix_bool:
  assumes "s @ '':'' @ bool_str b = t @ '':'' @ bool_str d"
  shows "s = t \<and> b = d"
proof -
  have "rev (bool_str b) @ CHR '':'' # rev s = rev (bool_str d) @ CHR '':'' # rev t"
    using arg_cong [OF assms, of rev] by simp
  then show ?thesis by (auto simp: bool_str_def split: if_splits)
qed

text \<open>The eleven separated fields are peeled off one by one.\<close>

lemma cacheKey_inj: "cacheKey p = cacheKey q \<Longrightarrow> p = q"
proof -
  assume eq: "cacheKey p = cacheKey q"
  note peel = itoa_sep [rotated, where c = "CHR '':''", simplified] itoa_sep [rotated, where c = "CHR ''-''", simplified]
  from eq have "p_Manufacturer p = p_Manufacturer q \<and> p_Model p = p_Model q \<and> p_YearMin p = p_YearMin q \<and>
      p_YearMax p = p_YearMax q \<and> p_PriceMin p = p_PriceMin q \<and> p_PriceMax p = p_PriceMax q \<and> p_Page p = p_Page q \<and>
      p_MaxKm p = p_MaxKm q \<and> p_MaxHand p = p_MaxHand q \<and> p_EngineMinCC p = p_EngineMinCC q \<and>
      p_SellerFilter p @ '':'' @ bool_str (p_PhotoOnly p) = p_SellerFilter q @ '':'' @ bool_str (p_PhotoOnly q)"
    unfolding cacheKey_def by (simp only: append.simps) (blast dest: peel)
  then show "p = q" using suffix_bool [of "p_SellerFilter p" "p_PhotoOnly p"] by (auto intro: source_params.equality)
qed

subsection \<open>Lemmas: the shape of the cache\<close>

definition cache_ok :: "caching_fetcher \<Rightarrow> bool" where
  "cache_ok c \<longleftrightarrow> distinct (map fst (cf_cache c)) \<and> length (cf_cache c) \<le> maxCacheEntries"

lemma length_update_le: "length (AList.update k v xs) \<le> Suc (length xs)"
  by (induction xs) auto

lemma length_update_present: "map_of xs k = Some w \<Longrightarrow> length (AList.update k v xs) = length xs"
  by (induction xs) (auto split: if_splits)

lemma touch_ok: "cache_ok c \<Longrightarrow> cache_ok (touch now key c)"
  by (simp add: cache_ok_def touch_def distinct_update length_update_present split: option.split)

lemma evict_items_props:
  "distinct (map fst cache) \<Longrightarrow> distinct (map fst (evict_items ks cache))"
  by (induction ks arbitrary: cache) (auto simp: distinct_delete)

lemma length_delete_present:
  assumes "distinct (map fst xs)" "k \<in> fst ` set xs"
  shows "length (AList.delete k xs) = length xs - 1"
proof -
  have "length (AList.delete k xs) = length (removeAll k (map fst xs))"
    by (metis delete_keys length_map)
  then show ?thesis
    using assms by (simp add: distinct_remove1_removeAll [symmetric] length_remove1)
qed

lemma evict_items_one:
  assumes "distinct (map fst cache)" "length cache = Suc maxCacheEntries" "k \<in> fst ` set cache"
  shows "evict_items (k # ks) cache = AList.delete k cache" "length (AList.delete k cache) = maxCacheEntries"
proof -
  show len: "length (AList.delete k cache) = maxCacheEntries"
    using assms length_delete_present by fastforce
  show "evict_items (k # ks) cache = AList.delete k cache"
    using assms(2) len by (cases ks) simp_all
qed

text \<open>From one entry too many, \<open>evictOldest\<close> drops exactly one, a least recently used one.\<close>

lemma evictOldest_one:
  assumes "distinct (map fst (cf_cache c))" "length (cf_cache c) = Suc maxCacheEntries"
  obtains k e where "cf_cache (evictOldest c) = AList.delete k (cf_cache c)" "(k, e) \<in> set (cf_cache c)"
    "length (AList.delete k (cf_cache c)) = maxCacheEntries"
    "\<And>j e'. (j, e') \<in> set (cf_cache c) \<Longrightarrow> ce_lastUsed e \<le> ce_lastUsed e'"
proof -
  let ?key = "\<lambda>(k, e). ce_lastUsed e" and ?xs = "cf_cache c"
  let ?s = "sort_key ?key ?xs"
  have "?s \<noteq> []" using assms(2) by (metis length_0_conv length_sort nat.distinct(1))
  then obtain k e rest where s: "?s = (k, e) # rest" by (cases ?s) auto
  have mem: "(k, e) \<in> set ?xs" using s by (metis list.set_intros(1) set_sort)
  have min: "ce_lastUsed e \<le> ce_lastUsed e'" if "(j, e') \<in> set ?xs" for j e'
  proof -
    have "sorted (map ?key ?s)" by simp
    moreover have "(j, e') \<in> set ?s" using that by simp
    ultimately show ?thesis unfolding s by auto
  qed
  from mem have "k \<in> fst ` set ?xs" by force
  from evict_items_one(1) [OF assms this, where ks = "map fst rest"] evict_items_one(2) [OF assms this]
  have "cf_cache (evictOldest c) = AList.delete k ?xs" "length (AList.delete k ?xs) = maxCacheEntries"
    by (simp_all add: evictOldest_def s)
  with mem min show ?thesis by (intro that)
qed

lemma evictExpired_ok:
  "distinct (map fst (cf_cache c)) \<Longrightarrow> distinct (map fst (cf_cache (evictExpired now c)))"
  "length (cf_cache (evictExpired now c)) \<le> length (cf_cache c)"
  by (simp_all add: evictExpired_def distinct_map_filter)

definition with_entry :: "gotime \<Rightarrow> string \<Rightarrow> raw_listing list \<Rightarrow> caching_fetcher \<Rightarrow> caching_fetcher" where
  "with_entry now key ls c =
     c\<lparr>cf_cache := AList.update key \<lparr>ce_listings = ls, ce_fetchedAt = now, ce_lastUsed = now\<rparr> (cf_cache c)\<rparr>"

definition without_expired :: "gotime \<Rightarrow> caching_fetcher \<Rightarrow> caching_fetcher" where
  "without_expired now c = (if length (cf_cache c) > maxCacheEntries then evictExpired now c else c)"

lemma cf_store_eq:
  "cf_store now key ls c =
    (let c2 = without_expired now (with_entry now key ls c)
     in if length (cf_cache c2) > maxCacheEntries then evictOldest c2 else c2)"
  by (simp only: cf_store_def with_entry_def without_expired_def Let_def)

lemma before_eviction:
  assumes "cache_ok c"
  shows "distinct (map fst (cf_cache (without_expired now (with_entry now key ls c)))) \<and>
    length (cf_cache (without_expired now (with_entry now key ls c))) \<le> Suc maxCacheEntries"
proof -
  let ?c1 = "with_entry now key ls c"
  have d: "distinct (map fst (cf_cache ?c1))" using assms by (simp add: cache_ok_def with_entry_def distinct_update)
  have l: "length (cf_cache ?c1) \<le> Suc maxCacheEntries"
    using assms length_update_le [of key _ "cf_cache c"] unfolding with_entry_def cache_ok_def
    by (simp, meson Suc_le_mono order_trans)
  show ?thesis
    using d l evictExpired_ok(2) [of now ?c1] by (auto simp: without_expired_def intro: evictExpired_ok)
qed

lemma cf_store_ok:
  assumes "cache_ok c"
  shows "cache_ok (cf_store now key ls c)"
proof -
  define c2 where "c2 = without_expired now (with_entry now key ls c)"
  have c2: "distinct (map fst (cf_cache c2))" "length (cf_cache c2) \<le> Suc maxCacheEntries"
    using before_eviction [OF assms] by (simp_all add: c2_def)
  have "cache_ok (if length (cf_cache c2) > maxCacheEntries then evictOldest c2 else c2)"
  proof (cases "length (cf_cache c2) > maxCacheEntries")
    case True
    then have "length (cf_cache c2) = Suc maxCacheEntries" using c2(2) by linarith
    then obtain k where "cf_cache (evictOldest c2) = AList.delete k (cf_cache c2)"
      "length (AList.delete k (cf_cache c2)) = maxCacheEntries"
      using evictOldest_one [OF c2(1)] by metis
    then show ?thesis using True c2(1) by (simp add: cache_ok_def distinct_delete)
  qed (use c2 in \<open>simp add: cache_ok_def\<close>)
  then show ?thesis by (simp only: cf_store_eq Let_def c2_def)
qed

lemma cf_begin_ok: "cache_ok c \<Longrightarrow> cf_begin now params c = (r, c') \<Longrightarrow> cache_ok c'"
  by (auto simp: cf_begin_def Let_def touch_ok split: option.splits if_splits)

lemma cf_finish_ok: "cache_ok c \<Longrightarrow> cf_finish now params found res c = (r, c') \<Longrightarrow> cache_ok c'"
  by (auto simp: cf_finish_def Let_def touch_ok cf_store_ok split: option.splits if_splits prod.splits)

text \<open>A stored entry survives the evictions that its own insertion causes, when it is the most recently
  used one.\<close>

lemma cf_store_lookup:
  assumes "cache_ok c" "0 \<le> cf_ttl c"
    and fresh: "\<And>k e. (k, e) \<in> set (cf_cache c) \<Longrightarrow> ce_lastUsed e < now"
  shows "map_of (cf_cache (cf_store now key ls c)) key =
    Some \<lparr>ce_listings = ls, ce_fetchedAt = now, ce_lastUsed = now\<rparr> \<and> cf_ttl (cf_store now key ls c) = cf_ttl c"
proof -
  let ?e = "\<lparr>ce_listings = ls, ce_fetchedAt = now, ce_lastUsed = now\<rparr>"
  define c1 where "c1 = with_entry now key ls c"
  define c2 where "c2 = without_expired now c1"
  have c2: "distinct (map fst (cf_cache c2))" "length (cf_cache c2) \<le> Suc maxCacheEntries"
    using before_eviction [OF assms(1)] by (simp_all add: c2_def c1_def)
  have d1: "distinct (map fst (cf_cache c1))"
    using assms(1) by (simp add: c1_def with_entry_def cache_ok_def distinct_update)
  have m1: "(key, ?e) \<in> set (cf_cache c1)"
    by (simp add: c1_def with_entry_def map_of_SomeD update_conv')
  then have m2: "(key, ?e) \<in> set (cf_cache c2)"
    using assms(2) by (simp add: c2_def without_expired_def evictExpired_def c1_def with_entry_def)
  have older: "ce_lastUsed e < now" if "(k, e) \<in> set (cf_cache c2)" "k \<noteq> key" for k e
  proof -
    have "(k, e) \<in> set (cf_cache c1)"
      using that(1) by (auto simp: c2_def without_expired_def evictExpired_def split: if_splits)
    then have "map_of (cf_cache c1) k = Some e" using d1 by (simp add: map_of_eq_Some_iff)
    then have "map_of (cf_cache c) k = Some e" using that(2) by (simp add: c1_def with_entry_def update_conv')
    then show ?thesis using fresh by (meson map_of_SomeD)
  qed
  have ttl: "cf_ttl c2 = cf_ttl c" by (simp add: c2_def c1_def without_expired_def evictExpired_def with_entry_def)
  have "map_of (cf_cache (if length (cf_cache c2) > maxCacheEntries then evictOldest c2 else c2)) key = Some ?e"
  proof (cases "length (cf_cache c2) > maxCacheEntries")
    case True
    then have len: "length (cf_cache c2) = Suc maxCacheEntries" using c2(2) by linarith
    obtain k e where k: "cf_cache (evictOldest c2) = AList.delete k (cf_cache c2)" "(k, e) \<in> set (cf_cache c2)"
      and min: "\<And>j e'. (j, e') \<in> set (cf_cache c2) \<Longrightarrow> ce_lastUsed e \<le> ce_lastUsed e'"
      using evictOldest_one [OF c2(1) len] by metis
    have "\<exists>j e'. (j, e') \<in> set (cf_cache c2) \<and> j \<noteq> key"
    proof (rule ccontr)
      assume "\<not> ?thesis"
      then have "set (map fst (cf_cache c2)) \<subseteq> {key}" by auto
      then have "card (set (map fst (cf_cache c2))) \<le> 1" by (metis card_mono card.empty card_insert_disjoint finite.emptyI finite.insertI empty_iff One_nat_def)
      then show False using len distinct_card [OF c2(1)] by (simp add: maxCacheEntries_def)
    qed
    then obtain j e' where "(j, e') \<in> set (cf_cache c2)" "j \<noteq> key" by blast
    then have "ce_lastUsed e < now" using min older by fastforce
    then have "k \<noteq> key" using k(2) m2 c2(1) by (metis cache_entry.select_convs(3) eq_key_imp_eq_value less_irrefl)
    then show ?thesis using True k(1) m2 c2(1) by (simp add: delete_conv' map_of_is_SomeI)
  qed (use m2 c2(1) in \<open>simp add: map_of_is_SomeI\<close>)
  moreover have "cf_store now key ls c = (if length (cf_cache c2) > maxCacheEntries then evictOldest c2 else c2)"
    by (simp only: cf_store_eq Let_def c2_def c1_def)
  moreover have "cf_ttl (evictOldest c2) = cf_ttl c" using ttl by (simp add: evictOldest_def)
  ultimately show ?thesis using ttl by simp
qed

subsection \<open>Lemmas: one call\<close>

lemma touch_same [simp]:
  "map_of (cf_cache (touch now key c)) k =
    (if k = key then map_option (ce_lastUsed_update (\<lambda>_. now)) (map_of (cf_cache c) k) else map_of (cf_cache c) k)"
  "cf_ttl (touch now key c) = cf_ttl c"
  by (auto simp: touch_def update_conv' split: option.split)

lemma cf_finish_success:
  "cf_finish now params found (ls, None) c = ((ls, None), cf_store now (cacheKey params) ls c)"
  by (simp add: cf_finish_def)

lemma cf_begin_stored:
  assumes "map_of (cf_cache c) (cacheKey params) = Some e" "now - ce_fetchedAt e < cf_ttl c"
  shows "fst (cf_begin now params c) = Inl (ce_listings e)"
  using assms by (simp add: cf_begin_def Let_def)

text \<open>Every interleaving of the two sections by any number of callers.\<close>

inductive cf_reachable :: "duration \<Rightarrow> caching_fetcher \<Rightarrow> bool" for ttl where
  start: "cf_reachable ttl (NewCachingFetcher ttl)"
| began: "cf_reachable ttl c \<Longrightarrow> cf_begin now params c = (r, c') \<Longrightarrow> cf_reachable ttl c'"
| finished: "cf_reachable ttl c \<Longrightarrow> cf_finish now params found inner c = (r, c') \<Longrightarrow> cf_reachable ttl c'"

lemma cf_reachable_ok: "cf_reachable ttl c \<Longrightarrow> cache_ok c"
proof (induction rule: cf_reachable.induct)
  case start
  show ?case by (simp add: NewCachingFetcher_def cache_ok_def)
next
  case (began c now params r c')
  then show ?case by (metis cf_begin_ok)
next
  case (finished c now params found inner r c')
  then show ?case by (metis cf_finish_ok)
qed

subsection \<open>Properties\<close>

text \<open>Two searches share a cache entry exactly when all their source parameters are equal: the
  printed cache key is injective, whatever the numbers and the seller filter.\<close>

lemma cache_key_injective: "CacheKeyFor p = CacheKeyFor q \<longleftrightarrow> p = q"
  using cacheKey_inj by (auto simp: CacheKeyFor_def)

text \<open>Under every interleaving of callers, fetch errors and clock readings the cache holds each key
  once and never more than maxCacheEntries entries.\<close>

lemma fetch_cache_bounded:
  "cf_reachable ttl c \<Longrightarrow> distinct (map fst (cf_cache c)) \<and> length (cf_cache c) \<le> 100"
  by (drule cf_reachable_ok) (simp add: cache_ok_def maxCacheEntries_def)

lemma fetch_cache_bounded_witness:
  "length (cf_cache (snd (cf_finish 5 (SourceParamsFromSearch zero_search) None ([zero_raw_listing], None) (NewCachingFetcher 60)))) \<le> 100"
  by (rule fetch_cache_bounded [THEN conjunct2, OF cf_reachable.finished, OF cf_reachable.start prod.collapse [symmetric]])

text \<open>Listings fetched successfully are served again to the same parameters for the whole time to
  live without asking the source, even when storing them evicted other entries.\<close>

lemma fetch_cache_serves_within_ttl:
  assumes "cache_ok c" "0 \<le> cf_ttl c"
    and "cf_begin t0 params c = (Inr found, c)" "inner params = (ls, None)"
    and "\<forall>(k, e) \<in> set (cf_cache c). ce_lastUsed e < t1"
    and "t1 \<le> t2" "t2 - t1 < cf_ttl c"
  shows "case cf_Fetch t0 t1 inner params c of (r, asked, c') \<Rightarrow>
    r = (ls, None) \<and> asked \<and> (case cf_Fetch t2 t3 inner' params c' of (r', asked', c'') \<Rightarrow> r' = (ls, None) \<and> \<not> asked')"
proof -
  define c' where "c' = cf_store t1 (cacheKey params) ls c"
  have first: "cf_Fetch t0 t1 inner params c = ((ls, None), True, c')"
    using assms(3,4) by (simp add: cf_Fetch_def cf_finish_success c'_def)
  have "map_of (cf_cache c') (cacheKey params) = Some \<lparr>ce_listings = ls, ce_fetchedAt = t1, ce_lastUsed = t1\<rparr> \<and>
      cf_ttl c' = cf_ttl c"
    unfolding c'_def using assms(5) by (intro cf_store_lookup [OF assms(1,2)]) auto
  then have "fst (cf_begin t2 params c') = Inl ls" using assms(7) by (simp add: cf_begin_def Let_def)
  then obtain c'' where "cf_begin t2 params c' = (Inl ls, c'')" by (metis prod.collapse)
  then show ?thesis by (simp add: first cf_Fetch_def [of t2])
qed

lemma fetch_cache_serves_within_ttl_witness:
  "case cf_Fetch 5 6 (\<lambda>_. ([zero_raw_listing], None)) (SourceParamsFromSearch zero_search) (NewCachingFetcher 60) of (r, asked, c') \<Rightarrow>
    r = ([zero_raw_listing], None) \<and> asked \<and>
    (case cf_Fetch 30 31 (\<lambda>_. ([], Some [])) (SourceParamsFromSearch zero_search) c' of (r', asked', c'') \<Rightarrow> r' = ([zero_raw_listing], None) \<and> \<not> asked')"
  by (rule fetch_cache_serves_within_ttl [where found = None and ls = "[zero_raw_listing]"])
    (simp_all add: NewCachingFetcher_def cache_ok_def cf_begin_def)

text \<open>A failed fetch never changes what the cache holds: keys, listings and fetch times stay. The
  stale copy answers for it exactly when there is one and the error is neither a challenge, nor a rate
  limit, nor a partial result with listings (which is passed on with its error).\<close>

lemma fetch_cache_failure_policy:
  "case cf_finish now params found (ls, Some err) c of (r, c') \<Rightarrow>
    (\<forall>k. map_option (\<lambda>e. (ce_listings e, ce_fetchedAt e)) (map_of (cf_cache c') k) =
         map_option (\<lambda>e. (ce_listings e, ce_fetchedAt e)) (map_of (cf_cache c) k)) \<and>
    r = (if errors_is err ErrPartialResults \<and> ls \<noteq> [] then (ls, Some err)
         else if found = None \<or> errors_is err ErrChallenge \<or> errors_is err ErrRateLimited then ([], Some err)
         else (ce_listings (the found), None))"
  by (auto simp: cf_finish_def Let_def option.map_comp comp_def split: option.split)

end
