(* ===== verification/RateLimit.thy ===== *)
theory RateLimit
  imports CwPrelude "HOL-Library.AList"
begin

section \<open>Token buckets of the API (internal/api/ratelimit.go)\<close>

text \<open>
  The same refill-and-take step is written three times in the file: in \<open>rateLimiter.allow\<close> (a bucket per
  user), in \<open>ipRateLimiter.allow\<close> (a bucket per address, at most \<open>maxIPBuckets\<close>) and in
  \<open>globalBucket.allow\<close>. The locale \<open>token_bucket\<close> states what one step promises, the locale
  \<open>keyed_limiter\<close> what a limiter with a bucket per key promises on top of it; both are interpreted on the
  definitions of the code. The Go maps are association lists with distinct keys, in the iteration order of
  \<open>cleanup\<close>. Each locked section reads the clock once.
\<close>

record bucket =
  b_tokens :: int
  b_lastTick :: gotime
  b_lastUsed :: gotime

record global_bucket =
  gb_tokens :: int
  gb_burst :: int
  gb_every :: duration
  gb_lastTick :: gotime

record 'k rate_limiter =
  rl_buckets :: "('k \<times> bucket) list"
  rl_burst :: int
  rl_every :: duration

definition newRateLimiter :: "int \<Rightarrow> duration \<Rightarrow> int rate_limiter" where
  "newRateLimiter burst every = \<lparr>rl_buckets = [], rl_burst = burst, rl_every = every\<rparr>"

definition newIPRateLimiter :: "int \<Rightarrow> duration \<Rightarrow> string rate_limiter" where
  "newIPRateLimiter burst every = \<lparr>rl_buckets = [], rl_burst = burst, rl_every = every\<rparr>"

definition newGlobalBucket :: "gotime \<Rightarrow> int \<Rightarrow> duration \<Rightarrow> global_bucket" where
  "newGlobalBucket now burst every = \<lparr>gb_tokens = burst, gb_burst = burst, gb_every = every, gb_lastTick = now\<rparr>"

definition new_bucket :: "gotime \<Rightarrow> int \<Rightarrow> bucket" where
  "new_bucket now burst = \<lparr>b_tokens = burst, b_lastTick = now, b_lastUsed = 0\<rparr>"

text \<open>The statements after the lookup, the same text in both keyed limiters.\<close>

definition bucket_allow :: "int \<Rightarrow> duration \<Rightarrow> gotime \<Rightarrow> bucket \<Rightarrow> bool \<times> bucket" where
  "bucket_allow burst every now b =
    (let b = b\<lparr>b_lastUsed := now\<rparr>;
         elapsed = now - b_lastTick b;
         refill = go_div elapsed every;
         b = (if refill > 0 then b\<lparr>b_tokens := min (b_tokens b + refill) burst, b_lastTick := b_lastTick b + refill * every\<rparr> else b)
     in if b_tokens b \<le> 0 then (False, b) else (True, b\<lparr>b_tokens := b_tokens b - 1\<rparr>))"

definition rl_allow :: "gotime \<Rightarrow> int \<Rightarrow> int rate_limiter \<Rightarrow> bool \<times> int rate_limiter" where
  "rl_allow now chatID rl =
    (let b = (case map_of (rl_buckets rl) chatID of Some b \<Rightarrow> b | None \<Rightarrow> new_bucket now (rl_burst rl))
     in case bucket_allow (rl_burst rl) (rl_every rl) now b of
          (ok, b') \<Rightarrow> (ok, rl\<lparr>rl_buckets := AList.update chatID b' (rl_buckets rl)\<rparr>))"

definition maxIPBuckets :: nat where "maxIPBuckets = 10000"

definition ip_allow :: "gotime \<Rightarrow> string \<Rightarrow> string rate_limiter \<Rightarrow> bool \<times> string rate_limiter" where
  "ip_allow now ip rl =
    (if length (rl_buckets rl) \<ge> maxIPBuckets \<and> map_of (rl_buckets rl) ip = None then (False, rl)
     else
       let b = (case map_of (rl_buckets rl) ip of Some b \<Rightarrow> b | None \<Rightarrow> new_bucket now (rl_burst rl))
       in case bucket_allow (rl_burst rl) (rl_every rl) now b of
            (ok, b') \<Rightarrow> (ok, rl\<lparr>rl_buckets := AList.update ip b' (rl_buckets rl)\<rparr>))"

definition gb_allow :: "gotime \<Rightarrow> global_bucket \<Rightarrow> bool \<times> global_bucket" where
  "gb_allow now gb =
    (let elapsed = now - gb_lastTick gb;
         refill = go_div elapsed (gb_every gb);
         gb = (if refill > 0 then gb\<lparr>gb_tokens := min (gb_tokens gb + refill) (gb_burst gb),
                 gb_lastTick := gb_lastTick gb + refill * gb_every gb\<rparr> else gb)
     in if gb_tokens gb \<le> 0 then (False, gb) else (True, gb\<lparr>gb_tokens := gb_tokens gb - 1\<rparr>))"

text \<open>One tick of the cleanup goroutines.\<close>

definition rl_cleanup :: "gotime \<Rightarrow> int rate_limiter \<Rightarrow> int rate_limiter" where
  "rl_cleanup now rl =
    (let cutoff = now - minutes 10 in rl\<lparr>rl_buckets := filter (\<lambda>(id, b). \<not> b_lastUsed b < cutoff) (rl_buckets rl)\<rparr>)"

definition ip_cleanup :: "gotime \<Rightarrow> string rate_limiter \<Rightarrow> string rate_limiter" where
  "ip_cleanup now rl =
    (let cutoff = now - minutes 5 in rl\<lparr>rl_buckets := filter (\<lambda>(ip, b). \<not> b_lastUsed b < cutoff) (rl_buckets rl)\<rparr>)"

text \<open>The limiters of the server (internal/api/api.go, \<open>New\<close>).\<close>

definition user_rl :: "int rate_limiter" where "user_rl = newRateLimiter 60 (go_div (seconds 1) 60)"
definition ip_rl :: "string rate_limiter" where "ip_rl = newIPRateLimiter 20 (go_div (seconds 1) 10)"
definition guest_rl :: "string rate_limiter" where "guest_rl = newIPRateLimiter 15 (minutes 3)"

subsection \<open>The contract of one bucket\<close>

text \<open>
  What a call may do: it moves the tick forward by whole periods up to the clock, and gives out at most one
  token per period on top of those it has, never more than \<open>burst\<close>.
\<close>

locale token_bucket =
  fixes allow :: "gotime \<Rightarrow> 's \<Rightarrow> bool \<times> 's"
    and tokens :: "'s \<Rightarrow> int"
    and tick :: "'s \<Rightarrow> gotime"
    and good :: "'s \<Rightarrow> bool"
    and every :: duration
  assumes every_pos: "good s \<Longrightarrow> 0 < every"
    and tokens_nonneg: "good s \<Longrightarrow> 0 \<le> tokens s"
    and good_allow: "good s \<Longrightarrow> allow now s = (ok, s') \<Longrightarrow> good s'"
    and tick_mono: "good s \<Longrightarrow> allow now s = (ok, s') \<Longrightarrow> tick s \<le> tick s' \<and> tick s' \<le> max now (tick s)"
    and spend: "good s \<Longrightarrow> allow now s = (ok, s') \<Longrightarrow>
      (tokens s' + of_bool ok - tokens s) * every \<le> tick s' - tick s"
    and available: "good s \<Longrightarrow> allow now s = (ok, s') \<Longrightarrow> \<not> ok \<Longrightarrow> tokens s' = 0 \<and> now < tick s' + every"
begin

fun allow_all :: "gotime list \<Rightarrow> 's \<Rightarrow> bool list \<times> 's" where
  "allow_all [] s = ([], s)"
| "allow_all (t # ts) s =
    (case allow t s of (ok, s') \<Rightarrow> case allow_all ts s' of (oks, s'') \<Rightarrow> (ok # oks, s''))"

lemma allow_all_spend:
  assumes "good s" "allow_all ts s = (oks, s')"
  shows "good s' \<and> (tokens s' + int (count_list oks True) - tokens s) * every \<le> tick s' - tick s \<and>
    tick s \<le> tick s' \<and> (\<forall>u. tick s \<le> u \<and> (\<forall>t \<in> set ts. t \<le> u) \<longrightarrow> tick s' \<le> u)"
  using assms
proof (induction ts arbitrary: s oks)
  case Nil
  then show ?case by simp
next
  case (Cons t ts)
  obtain ok s1 where a: "allow t s = (ok, s1)" by (cases "allow t s")
  obtain oks1 where b: "allow_all ts s1 = (oks1, s')" and o: "oks = ok # oks1"
    using Cons.prems(2) a by (auto split: prod.splits)
  have g: "good s1" by (rule good_allow [OF Cons.prems(1) a])
  note IH = Cons.IH [OF g b]
  have "(tokens s' + int (count_list oks True) - tokens s) * every =
      (tokens s' + int (count_list oks1 True) - tokens s1) * every + (tokens s1 + of_bool ok - tokens s) * every"
    by (simp add: o algebra_simps)
  then show ?case
    using IH spend [OF Cons.prems(1) a] tick_mono [OF Cons.prems(1) a] by auto
qed

text \<open>The rate: up to time \<open>u\<close> a good bucket grants at most its tokens plus one per period.\<close>

lemma rate_bound:
  assumes "good s" "allow_all ts s = (oks, s')" "tick s \<le> u" "\<forall>t \<in> set ts. t \<le> u"
  shows "int (count_list oks True) * every \<le> tokens s * every + (u - tick s)"
proof -
  note A = allow_all_spend [OF assms(1,2)]
  then have "0 \<le> tokens s' * every"
    by (intro mult_nonneg_nonneg) (use tokens_nonneg every_pos in \<open>auto simp: less_imp_le\<close>)
  moreover have "tick s' \<le> u" using A assms(3,4) by blast
  ultimately show ?thesis using A by (simp add: algebra_simps)
qed

end

definition good_bucket :: "int \<Rightarrow> duration \<Rightarrow> bucket \<Rightarrow> bool" where
  "good_bucket burst every b \<longleftrightarrow> 0 < every \<and> 0 \<le> b_tokens b \<and> b_tokens b \<le> burst"

definition good_global :: "int \<Rightarrow> duration \<Rightarrow> global_bucket \<Rightarrow> bool" where
  "good_global burst every g \<longleftrightarrow> 0 < every \<and> gb_burst g = burst \<and> gb_every g = every \<and> 0 \<le> gb_tokens g \<and> gb_tokens g \<le> burst"

lemma refill_pos: "0 < every \<Longrightarrow> 0 < go_div e every \<longleftrightarrow> every \<le> e"
proof -
  assume ev: "0 < every"
  show ?thesis
  proof (cases "0 \<le> e")
    case True
    then show ?thesis using ev by (simp add: go_div_nonneg pos_imp_zdiv_pos_iff)
  next
    case False
    then have "sgn e * sgn every * (\<bar>e\<bar> div \<bar>every\<bar>) \<le> 0"
      using ev by (simp add: sgn_if pos_imp_zdiv_nonneg_iff)
    then show ?thesis using False ev by (simp add: go_div_def)
  qed
qed

text \<open>The arithmetic of a refill, shared by the three implementations.\<close>

lemma refill_core:
  assumes "0 < every" "0 \<le> n" "n \<le> burst"
    and "n' = (if 0 < go_div (now - tk) every then min (n + go_div (now - tk) every) burst else n)"
    and "tk' = (if 0 < go_div (now - tk) every then tk + go_div (now - tk) every * every else tk)"
  shows "0 \<le> n' \<and> n' \<le> burst \<and> tk \<le> tk' \<and> tk' \<le> max now tk \<and> (n' - n) * every \<le> tk' - tk \<and> now < tk' + every"
proof (cases "0 < go_div (now - tk) every")
  case True
  define q where "q = go_div (now - tk) every"
  from True have le: "every \<le> now - tk" using refill_pos [OF assms(1)] by blast
  then have q: "q * every \<le> now - tk" "now - tk < q * every + every" "0 < q"
    using go_div_bounds [of "now - tk" every] assms(1) True by (simp_all add: q_def mult.commute)
  have n': "n' = min (n + q) burst" "tk' = tk + q * every" using True assms(4,5) by (simp_all add: q_def)
  have "(n' - n) * every \<le> q * every" using assms(1) by (intro mult_right_mono) (simp_all add: n')
  then show ?thesis using q n' assms(2,3) by (auto simp: less_imp_le)
next
  case False
  then show ?thesis using assms refill_pos [OF assms(1), of "now - tk"] by auto
qed

lemma bucket_allow_spec:
  assumes "good_bucket burst every b" "bucket_allow burst every now b = (ok, b')"
  shows "good_bucket burst every b' \<and> b_lastTick b \<le> b_lastTick b' \<and> b_lastTick b' \<le> max now (b_lastTick b) \<and>
    (b_tokens b' + of_bool ok - b_tokens b) * every \<le> b_lastTick b' - b_lastTick b \<and>
    (\<not> ok \<longrightarrow> b_tokens b' = 0 \<and> now < b_lastTick b' + every) \<and> b_lastUsed b' = now \<and>
    b_tokens b' + of_bool ok \<le> burst \<and> now < b_lastTick b' + every"
proof -
  define r where "r = go_div (now - b_lastTick b) every"
  define n where "n = (if 0 < r then min (b_tokens b + r) burst else b_tokens b)"
  define tk where "tk = (if 0 < r then b_lastTick b + r * every else b_lastTick b)"
  have core: "0 \<le> n \<and> n \<le> burst \<and> b_lastTick b \<le> tk \<and> tk \<le> max now (b_lastTick b) \<and>
      (n - b_tokens b) * every \<le> tk - b_lastTick b \<and> now < tk + every"
    using assms(1) by (intro refill_core) (simp_all add: good_bucket_def n_def tk_def r_def)
  have "bucket_allow burst every now b =
      (if n \<le> 0 then (False, \<lparr>b_tokens = n, b_lastTick = tk, b_lastUsed = now\<rparr>)
       else (True, \<lparr>b_tokens = n - 1, b_lastTick = tk, b_lastUsed = now\<rparr>))"
    by (simp add: bucket_allow_def Let_def n_def tk_def r_def)
  then show ?thesis using core assms by (auto simp: good_bucket_def split: if_splits)
qed

lemma gb_allow_spec:
  assumes "good_global burst every g" "gb_allow now g = (ok, g')"
  shows "good_global burst every g' \<and> gb_lastTick g \<le> gb_lastTick g' \<and> gb_lastTick g' \<le> max now (gb_lastTick g) \<and>
    (gb_tokens g' + of_bool ok - gb_tokens g) * every \<le> gb_lastTick g' - gb_lastTick g \<and>
    (\<not> ok \<longrightarrow> gb_tokens g' = 0 \<and> now < gb_lastTick g' + every)"
proof -
  define r where "r = go_div (now - gb_lastTick g) every"
  define n where "n = (if 0 < r then min (gb_tokens g + r) burst else gb_tokens g)"
  define tk where "tk = (if 0 < r then gb_lastTick g + r * every else gb_lastTick g)"
  have core: "0 \<le> n \<and> n \<le> burst \<and> gb_lastTick g \<le> tk \<and> tk \<le> max now (gb_lastTick g) \<and>
      (n - gb_tokens g) * every \<le> tk - gb_lastTick g \<and> now < tk + every"
    using assms(1) by (intro refill_core) (simp_all add: good_global_def n_def tk_def r_def)
  have "gb_allow now g =
      (if n \<le> 0 then (False, g\<lparr>gb_tokens := n, gb_lastTick := tk\<rparr>)
       else (True, g\<lparr>gb_tokens := n - 1, gb_lastTick := tk\<rparr>))"
    using assms(1) by (simp add: gb_allow_def Let_def n_def tk_def r_def good_global_def)
  then show ?thesis using core assms by (auto simp: good_global_def split: if_splits)
qed

interpretation bk: token_bucket "bucket_allow burst every" b_tokens b_lastTick "good_bucket burst every" every
  for burst every :: int
proof
  fix s now ok s'
  assume g: "good_bucket burst every s"
  then show "0 < every" "0 \<le> b_tokens s" by (simp_all add: good_bucket_def)
  assume a: "bucket_allow burst every now s = (ok, s')"
  note B = bucket_allow_spec [OF g a]
  show "good_bucket burst every s'" "b_lastTick s \<le> b_lastTick s' \<and> b_lastTick s' \<le> max now (b_lastTick s)"
    "(b_tokens s' + of_bool ok - b_tokens s) * every \<le> b_lastTick s' - b_lastTick s"
    "\<not> ok \<Longrightarrow> b_tokens s' = 0 \<and> now < b_lastTick s' + every"
    using B by blast+
qed

interpretation gb: token_bucket gb_allow gb_tokens gb_lastTick "good_global burst every" every
  for burst every :: int
proof
  fix s now ok s'
  assume g: "good_global burst every s"
  then show "0 < every" "0 \<le> gb_tokens s" by (simp_all add: good_global_def)
  assume a: "gb_allow now s = (ok, s')"
  note B = gb_allow_spec [OF g a]
  show "good_global burst every s'" "gb_lastTick s \<le> gb_lastTick s' \<and> gb_lastTick s' \<le> max now (gb_lastTick s)"
    "(gb_tokens s' + of_bool ok - gb_tokens s) * every \<le> gb_lastTick s' - gb_lastTick s"
    "\<not> ok \<Longrightarrow> gb_tokens s' = 0 \<and> now < gb_lastTick s' + every"
    using B by blast+
qed

subsection \<open>The contract of a limiter with a bucket per key\<close>

datatype 'k rl_event = Call gotime 'k | Tick gotime

fun event_time :: "'k rl_event \<Rightarrow> gotime" where
  "event_time (Call t k) = t"
| "event_time (Tick t) = t"

text \<open>Requests of all keys and cleanup ticks in one order; the answers with their keys.\<close>

fun run_events :: "(gotime \<Rightarrow> 'k \<Rightarrow> 's \<Rightarrow> bool \<times> 's) \<Rightarrow> (gotime \<Rightarrow> 's \<Rightarrow> 's) \<Rightarrow> 'k rl_event list \<Rightarrow> 's \<Rightarrow> ('k \<times> bool) list \<times> 's" where
  "run_events allow cleanup [] s = ([], s)"
| "run_events allow cleanup (Call t k # es) s =
    (case allow t k s of (ok, s') \<Rightarrow> case run_events allow cleanup es s' of (rs, s'') \<Rightarrow> ((k, ok) # rs, s''))"
| "run_events allow cleanup (Tick t # es) s = run_events allow cleanup es (cleanup t s)"

definition granted :: "'k \<Rightarrow> ('k \<times> bool) list \<Rightarrow> int" where
  "granted k rs = int (count_list rs (k, True))"

lemma granted_simps [simp]:
  "granted k [] = 0"
  "granted k ((j, ok) # rs) = granted k rs + of_bool (j = k \<and> ok)"
  by (simp_all add: granted_def)

locale keyed_limiter =
  fixes allow :: "gotime \<Rightarrow> 'k \<Rightarrow> 's \<Rightarrow> bool \<times> 's"
    and cleanup :: "gotime \<Rightarrow> 's \<Rightarrow> 's"
    and bucket_of :: "'s \<Rightarrow> 'k \<Rightarrow> bucket option"
    and wf :: "'s \<Rightarrow> bool"
    and burst :: int and every :: duration and idle :: duration
  assumes wf_params: "wf s \<Longrightarrow> 0 < every \<and> 0 \<le> burst"
    and wf_allow: "wf s \<Longrightarrow> allow now k s = (ok, s') \<Longrightarrow> wf s'"
    and wf_cleanup: "wf s \<Longrightarrow> wf (cleanup now s)"
    and allow_key: "wf s \<Longrightarrow> allow now k s = (ok, s') \<Longrightarrow>
      (\<not> ok \<and> s' = s) \<or>
      (\<exists>b'. bucket_allow burst every now (case bucket_of s k of Some b \<Rightarrow> b | None \<Rightarrow> new_bucket now burst) = (ok, b') \<and>
            bucket_of s' = (bucket_of s)(k \<mapsto> b'))"
    and cleanup_key: "wf s \<Longrightarrow> bucket_of (cleanup now s) k =
      (case bucket_of s k of Some b \<Rightarrow> if b_lastUsed b < now - idle then None else Some b | None \<Rightarrow> None)"
begin

text \<open>What \<open>n\<close> grants to key \<open>k\<close> since \<open>t0\<close> leave in the state at time \<open>t\<close>.\<close>

definition accounted :: "'k \<Rightarrow> gotime \<Rightarrow> gotime \<Rightarrow> int \<Rightarrow> 's \<Rightarrow> bool" where
  "accounted k t0 t n s \<longleftrightarrow> wf s \<and> t0 \<le> t \<and>
    (case bucket_of s k of
       None \<Rightarrow> n * every \<le> t - t0
     | Some b \<Rightarrow> good_bucket burst every b \<and> b_lastTick b \<le> b_lastUsed b \<and> b_lastUsed b \<le> t \<and>
         (n + b_tokens b) * every \<le> burst * every + (b_lastTick b - t0))"

lemma accounted_bound:
  assumes "accounted k t0 t n s"
  shows "n * every \<le> burst * every + (t - t0)"
proof (cases "bucket_of s k")
  case None
  moreover have "0 \<le> burst * every" using assms wf_params [of s] by (simp add: accounted_def)
  ultimately show ?thesis using assms by (simp add: accounted_def)
next
  case (Some b)
  moreover have "0 \<le> b_tokens b * every" using assms Some by (simp add: accounted_def good_bucket_def)
  ultimately show ?thesis using assms by (simp add: accounted_def algebra_simps)
qed

lemma accounted_later: "accounted k t0 t n s \<Longrightarrow> t \<le> t' \<Longrightarrow> accounted k t0 t' n s"
  by (auto simp: accounted_def split: option.splits)

lemma accounted_allow_same:
  assumes acc: "accounted k t0 now n s" and step: "allow now k s = (ok, s')"
  shows "accounted k t0 now (n + of_bool ok) s'"
proof -
  have wf: "wf s" "wf s'" using acc wf_allow [OF _ step] by (simp_all add: accounted_def)
  from allow_key [OF wf(1) step] consider "\<not> ok" "s' = s"
    | b' where "bucket_allow burst every now (case bucket_of s k of Some b \<Rightarrow> b | None \<Rightarrow> new_bucket now burst) = (ok, b')"
      "bucket_of s' = (bucket_of s)(k \<mapsto> b')" by blast
  then show ?thesis
  proof cases
    case 1
    then show ?thesis using acc by simp
  next
    case 2
    define b where "b = (case bucket_of s k of Some b \<Rightarrow> b | None \<Rightarrow> new_bucket now burst)"
    have b: "good_bucket burst every b" "b_lastTick b \<le> now" "t0 \<le> now"
      "(n + b_tokens b) * every \<le> burst * every + (b_lastTick b - t0)"
      using acc wf_params [OF wf(1)]
      by (auto simp: b_def accounted_def good_bucket_def new_bucket_def algebra_simps split: option.splits)
    note B = bucket_allow_spec [OF b(1) 2(1) [folded b_def]]
    have "(n + of_bool ok + b_tokens b') * every = (n + b_tokens b) * every + (b_tokens b' + of_bool ok - b_tokens b) * every"
      by (simp add: algebra_simps)
    then show ?thesis using B b wf(2) 2(2) by (simp add: accounted_def)
  qed
qed

lemma accounted_allow_other:
  assumes acc: "accounted k t0 now n s" and step: "allow now j s = (ok, s')" and "j \<noteq> k"
  shows "accounted k t0 now n s'"
proof -
  have wf: "wf s" "wf s'" using acc wf_allow [OF _ step] by (simp_all add: accounted_def)
  have "bucket_of s' k = bucket_of s k" using allow_key [OF wf(1) step] assms(3) by auto
  then show ?thesis using acc wf(2) by (simp add: accounted_def)
qed

lemma accounted_cleanup:
  assumes acc: "accounted k t0 now n s" and "burst * every \<le> idle"
  shows "accounted k t0 now n (cleanup now s)"
proof (cases "bucket_of s k")
  case None
  then show ?thesis using acc cleanup_key [of s now k] wf_cleanup [of s now] by (simp add: accounted_def)
next
  case (Some b)
  have wf: "wf s" using acc by (simp add: accounted_def)
  have "0 \<le> b_tokens b * every" using acc Some by (simp add: accounted_def good_bucket_def)
  moreover have "(n + b_tokens b) * every \<le> burst * every + (b_lastTick b - t0)"
    using acc Some by (simp add: accounted_def)
  ultimately have "n * every \<le> idle + (b_lastTick b - t0)" using assms(2) by (simp add: algebra_simps)
  then show ?thesis
    using acc cleanup_key [OF wf, of now k] wf_cleanup [OF wf, of now] Some by (simp add: accounted_def)
qed

lemma accounted_run:
  assumes "accounted k t0 t n s" "run_events allow cleanup es s = (rs, s')" "burst * every \<le> idle"
    and "sorted (map event_time es)" "\<forall>e \<in> set es. t \<le> event_time e" "\<forall>e \<in> set es. event_time e \<le> u" "t \<le> u"
  shows "accounted k t0 u (n + granted k rs) s'"
  using assms
proof (induction es arbitrary: s rs n t)
  case Nil
  then show ?case by (auto intro: accounted_later)
next
  case (Cons e es)
  show ?case
  proof (cases e)
    case (Call now j)
    obtain ok s1 where a: "allow now j s = (ok, s1)" by (cases "allow now j s")
    obtain rs1 where r: "run_events allow cleanup es s1 = (rs1, s')" and rs: "rs = (j, ok) # rs1"
      using Cons.prems(2) Call a by (auto split: prod.splits)
    have "accounted k t0 now n s" using Cons.prems Call by (auto intro: accounted_later)
    then have "accounted k t0 now (n + of_bool (j = k \<and> ok)) s1"
      using accounted_allow_same accounted_allow_other a by (cases "j = k") fastforce+
    moreover have eq: "n + granted k rs = n + of_bool (j = k \<and> ok) + granted k rs1" by (simp add: rs)
    ultimately show ?thesis
      unfolding eq using Cons.prems Call by (intro Cons.IH [OF _ r assms(3)]) auto
  next
    case (Tick now)
    have "accounted k t0 now n s" using Cons.prems Tick by (auto intro: accounted_later)
    from Cons.IH [OF accounted_cleanup [OF this assms(3)]] show ?thesis
      using Cons.prems Tick by simp
  qed
qed

text \<open>A period may begin in any state the limiter comes to: the bucket of the key is good, and was used before. The first call of the
  period that is answered from it fills it up to \<open>burst\<close> at most, with a tick that is less than one period of the refill old.\<close>

definition resting :: "'k \<Rightarrow> gotime \<Rightarrow> 's \<Rightarrow> bool" where
  "resting k t s \<longleftrightarrow> wf s \<and>
    (case bucket_of s k of
       None \<Rightarrow> True
     | Some b \<Rightarrow> good_bucket burst every b \<and> b_lastTick b \<le> b_lastUsed b \<and> b_lastUsed b \<le> t)"

lemma resting_later: "resting k t s \<Longrightarrow> t \<le> t' \<Longrightarrow> resting k t' s"
  by (auto simp: resting_def split: option.splits)

lemma accounted_resting: "accounted k t0 t n s \<Longrightarrow> resting k t s"
  by (auto simp: accounted_def resting_def split: option.splits)

lemma resting_cleanup: "resting k t s \<Longrightarrow> resting k t (cleanup now s)"
  using wf_cleanup [of s now] cleanup_key [of s now k] by (auto simp: resting_def split: option.splits)

lemma resting_allow_other: "resting k t s \<Longrightarrow> allow now j s = (ok, s') \<Longrightarrow> j \<noteq> k \<Longrightarrow> resting k t s'"
  using wf_allow [of s now j ok s'] allow_key [of s now j ok s'] by (auto simp: resting_def)

lemma opening_call:
  assumes rest: "resting k now s" and step: "allow now k s = (ok, s')" and "t0 \<le> now"
  shows "(\<not> ok \<and> s' = s) \<or> accounted k (t0 - every) now (of_bool ok) s'"
proof -
  have wf: "wf s" "wf s'" using rest wf_allow [OF _ step] by (simp_all add: resting_def)
  from allow_key [OF wf(1) step] consider "\<not> ok" "s' = s"
    | b' where "bucket_allow burst every now (case bucket_of s k of Some b \<Rightarrow> b | None \<Rightarrow> new_bucket now burst) = (ok, b')"
      "bucket_of s' = (bucket_of s)(k \<mapsto> b')" by blast
  then show ?thesis
  proof cases
    case 2
    define b where "b = (case bucket_of s k of Some b \<Rightarrow> b | None \<Rightarrow> new_bucket now burst)"
    have b: "good_bucket burst every b" "b_lastTick b \<le> now"
      using rest wf_params [OF wf(1)] by (auto simp: b_def resting_def good_bucket_def new_bucket_def split: option.splits)
    note B = bucket_allow_spec [OF b(1) 2(1) [folded b_def]]
    have "(of_bool ok + b_tokens b') * every \<le> burst * every"
      using B wf_params [OF wf(1)] by (intro mult_right_mono) auto
    then have "(of_bool ok + b_tokens b') * every \<le> burst * every + (b_lastTick b' - (t0 - every))"
      using B assms(3) by linarith
    then show ?thesis using B b wf wf_params [OF wf(1)] 2(2) assms(3) by (simp add: accounted_def)
  qed simp
qed

lemma window_bound:
  assumes "resting k t s" "run_events allow cleanup es s = (rs, s')" "burst * every \<le> idle"
    and "sorted (map event_time es)" "\<forall>e \<in> set es. t0 \<le> event_time e \<and> t \<le> event_time e \<and> event_time e \<le> u" "t0 \<le> u"
  shows "granted k rs * every \<le> (burst + 1) * every + (u - t0)"
  using assms
proof (induction es arbitrary: s rs t)
  case Nil
  then have "0 < every" "0 \<le> burst" using wf_params [of s] by (simp_all add: resting_def)
  then show ?case using Nil by simp
next
  case (Cons e es)
  have later: "resting k (event_time e) s" using Cons.prems resting_later by fastforce
  show ?case
  proof (cases e)
    case (Call now j)
    obtain ok s1 where a: "allow now j s = (ok, s1)" by (cases "allow now j s")
    obtain rs1 where r: "run_events allow cleanup es s1 = (rs1, s')" and rs: "rs = (j, ok) # rs1"
      using Cons.prems(2) Call a by (auto split: prod.splits)
    have rest: "granted k rs1 * every \<le> (burst + 1) * every + (u - t0)" if "resting k now s1"
      using Cons.IH [OF that r assms(3)] Cons.prems Call by auto
    show ?thesis
    proof (cases "j = k")
      case True
      from opening_call [of k now s ok s1 t0] later a Call True Cons.prems
      consider "\<not> ok" "s1 = s" | "accounted k (t0 - every) now (of_bool ok) s1" by auto
      then show ?thesis
      proof cases
        case 1
        then show ?thesis using rest later Call True by (simp add: rs)
      next
        case 2
        have "accounted k (t0 - every) u (of_bool ok + granted k rs1) s'"
          using Cons.prems Call by (intro accounted_run [OF 2 r assms(3)]) auto
        from accounted_bound [OF this] True show ?thesis by (simp add: rs algebra_simps)
      qed
    next
      case False
      then show ?thesis using rest resting_allow_other [OF later a] Call by (simp add: rs)
    qed
  next
    case (Tick now)
    then show ?thesis using Cons.IH [OF resting_cleanup [OF later]] Cons.prems by auto
  qed
qed

lemma run_resting:
  assumes "wf s" "bucket_of s k = None" "burst * every \<le> idle" "run_events allow cleanup es s = (rs, s')"
    and "sorted (map event_time es)" "\<forall>e \<in> set es. event_time e \<le> u"
  shows "resting k u s'"
proof (cases es)
  case Nil
  then show ?thesis using assms by (simp add: resting_def)
next
  case (Cons e es')
  have "accounted k (event_time e) (event_time e) 0 s" using assms(1,2) by (simp add: accounted_def)
  from accounted_run [OF this assms(4,3,5), of u] show ?thesis
    using accounted_resting assms(5,6) Cons by auto
qed

end

subsection \<open>The limiters of the server fulfil it\<close>

definition rl_wf :: "int \<Rightarrow> duration \<Rightarrow> 'k rate_limiter \<Rightarrow> bool" where
  "rl_wf burst every rl \<longleftrightarrow> rl_burst rl = burst \<and> rl_every rl = every \<and> 0 < every \<and> 0 \<le> burst \<and>
    distinct (map fst (rl_buckets rl))"

lemma length_alist_update:
  "length (AList.update k v xs) = (if k \<in> fst ` set xs then length xs else Suc (length xs))"
  by (induction xs) auto

lemma map_of_filter_pred:
  "distinct (map fst xs) \<Longrightarrow> map_of (filter (\<lambda>(k, v). P v) xs) k =
    (case map_of xs k of Some v \<Rightarrow> if P v then Some v else None | None \<Rightarrow> None)"
  by (induction xs) (auto simp: map_of_eq_None_iff image_iff split: option.splits)

lemma map_of_filter_not_less:
  "distinct (map fst xs) \<Longrightarrow> map_of (filter (\<lambda>(k, b). \<not> b_lastUsed b < t) xs) k =
    (case map_of xs k of Some b \<Rightarrow> if b_lastUsed b < t then None else Some b | None \<Rightarrow> None)"
  by (subst map_of_filter_pred) (auto split: option.splits)

lemma rl_step_cases:
  assumes "rl_wf burst every rl" "rl_allow now k rl = (ok, rl')"
  obtains b' where
    "bucket_allow burst every now (case map_of (rl_buckets rl) k of Some b \<Rightarrow> b | None \<Rightarrow> new_bucket now burst) = (ok, b')"
    "rl' = rl\<lparr>rl_buckets := AList.update k b' (rl_buckets rl)\<rparr>"
  using assms by (auto simp: rl_allow_def rl_wf_def Let_def split: prod.splits)

lemma ip_step_cases:
  assumes "rl_wf burst every rl" "ip_allow now k rl = (ok, rl')"
  obtains "\<not> ok" "rl' = rl" | b' where
    "bucket_allow burst every now (case map_of (rl_buckets rl) k of Some b \<Rightarrow> b | None \<Rightarrow> new_bucket now burst) = (ok, b')"
    "rl' = rl\<lparr>rl_buckets := AList.update k b' (rl_buckets rl)\<rparr>"
    "length (rl_buckets rl) < maxIPBuckets \<or> k \<in> fst ` set (rl_buckets rl)"
  using assms by (auto simp: ip_allow_def rl_wf_def Let_def map_of_eq_None_iff split: prod.splits if_splits)

interpretation users: keyed_limiter rl_allow rl_cleanup "\<lambda>rl. map_of (rl_buckets rl)" "rl_wf burst every" burst every "minutes 10"
  for burst every :: int
proof
  fix s :: "int rate_limiter" and now k ok s'
  assume wf: "rl_wf burst every s"
  then show "0 < every \<and> 0 \<le> burst" "rl_wf burst every (rl_cleanup now s)"
    by (simp_all add: rl_wf_def rl_cleanup_def distinct_map_filter)
  show "map_of (rl_buckets (rl_cleanup now s)) k =
      (case map_of (rl_buckets s) k of Some b \<Rightarrow> if b_lastUsed b < now - minutes 10 then None else Some b | None \<Rightarrow> None)"
    using wf by (simp add: rl_cleanup_def rl_wf_def Let_def map_of_filter_not_less)
  assume "rl_allow now k s = (ok, s')"
  from rl_step_cases [OF wf this] obtain b' where b':
    "bucket_allow burst every now (case map_of (rl_buckets s) k of Some b \<Rightarrow> b | None \<Rightarrow> new_bucket now burst) = (ok, b')"
    "s' = s\<lparr>rl_buckets := AList.update k b' (rl_buckets s)\<rparr>" .
  then show "rl_wf burst every s'" using wf by (simp add: rl_wf_def distinct_update)
  show "(\<not> ok \<and> s' = s) \<or> (\<exists>b'. bucket_allow burst every now (case map_of (rl_buckets s) k of Some b \<Rightarrow> b | None \<Rightarrow> new_bucket now burst) = (ok, b') \<and>
      map_of (rl_buckets s') = (map_of (rl_buckets s))(k \<mapsto> b'))"
    using b' by (auto simp: update_conv)
qed

interpretation ips: keyed_limiter ip_allow ip_cleanup "\<lambda>rl. map_of (rl_buckets rl)" "rl_wf burst every" burst every "minutes 5"
  for burst every :: int
proof
  fix s :: "string rate_limiter" and now k ok s'
  assume wf: "rl_wf burst every s"
  then show "0 < every \<and> 0 \<le> burst" "rl_wf burst every (ip_cleanup now s)"
    by (simp_all add: rl_wf_def ip_cleanup_def distinct_map_filter)
  show "map_of (rl_buckets (ip_cleanup now s)) k =
      (case map_of (rl_buckets s) k of Some b \<Rightarrow> if b_lastUsed b < now - minutes 5 then None else Some b | None \<Rightarrow> None)"
    using wf by (simp add: ip_cleanup_def rl_wf_def Let_def map_of_filter_not_less)
  assume step: "ip_allow now k s = (ok, s')"
  show "rl_wf burst every s'"
    by (rule ip_step_cases [OF wf step]) (use wf in \<open>simp_all add: rl_wf_def distinct_update\<close>)
  show "(\<not> ok \<and> s' = s) \<or> (\<exists>b'. bucket_allow burst every now (case map_of (rl_buckets s) k of Some b \<Rightarrow> b | None \<Rightarrow> new_bucket now burst) = (ok, b') \<and>
      map_of (rl_buckets s') = (map_of (rl_buckets s))(k \<mapsto> b'))"
    by (rule ip_step_cases [OF wf step]) (auto simp: update_conv)
qed

lemma server_limiters_wf:
  "rl_wf 60 16666666 user_rl" "rl_wf 20 100000000 ip_rl" "rl_wf 15 (minutes 3) guest_rl"
  by (simp_all add: rl_wf_def user_rl_def ip_rl_def guest_rl_def newRateLimiter_def newIPRateLimiter_def
      duration_defs go_div_def)

lemma server_limiters_empty:
  "map_of (rl_buckets user_rl) k = None" "map_of (rl_buckets ip_rl) ip = None" "map_of (rl_buckets guest_rl) ip = None"
  by (simp_all add: user_rl_def ip_rl_def guest_rl_def newRateLimiter_def newIPRateLimiter_def)

lemma ip_run_ok:
  assumes "rl_wf burst every rl" "length (rl_buckets rl) \<le> 10000"
    and "run_events ip_allow ip_cleanup es rl = (rs, rl')"
  shows "rl_wf burst every rl' \<and> length (rl_buckets rl') \<le> 10000"
  using assms
  proof (induction es arbitrary: rl rs)
    case Nil
    then show ?case by simp
  next
    case (Cons e es)
    show ?case
    proof (cases e)
      case (Call now ip)
      obtain ok r1 where a: "ip_allow now ip rl = (ok, r1)" by (cases "ip_allow now ip rl")
      have "length (rl_buckets r1) \<le> 10000"
      proof (rule ip_step_cases [OF Cons.prems(1) a])
        fix b' assume r1: "r1 = rl\<lparr>rl_buckets := AList.update ip b' (rl_buckets rl)\<rparr>"
          and room: "length (rl_buckets rl) < maxIPBuckets \<or> ip \<in> fst ` set (rl_buckets rl)"
        show ?thesis
          using room Cons.prems(2) by (auto simp: r1 length_alist_update maxIPBuckets_def)
      qed (use Cons.prems(2) in simp)
      moreover have "rl_wf burst every r1" by (rule ips.wf_allow [OF Cons.prems(1) a])
      moreover obtain rs1 where "run_events ip_allow ip_cleanup es r1 = (rs1, rl')"
        using Cons.prems(3) Call a by (auto split: prod.splits)
      ultimately show ?thesis by (intro Cons.IH)
    next
      case (Tick now)
      have "length (rl_buckets (ip_cleanup now rl)) \<le> 10000"
        using Cons.prems(2) unfolding ip_cleanup_def Let_def by (simp add: order.trans [OF length_filter_le])
      moreover have "run_events ip_allow ip_cleanup es (ip_cleanup now rl) = (rs, rl')"
        using Cons.prems(3) Tick by simp
      ultimately show ?thesis using ips.wf_cleanup [OF Cons.prems(1)] by (intro Cons.IH)
    qed
  qed

subsection \<open>Properties\<close>

text \<open>C7. Whatever the users do and whenever the cleanup runs, a user gets at most 61 requests plus one per 16.7 ms through the
  limiter of the API over any period, however long he was idle before it: 60 that the bucket saves up, and one that may be due at
  once. The clock is taken not to go back.\<close>

theorem user_rate_bounded:
  assumes "run_events rl_allow rl_cleanup before user_rl = (rs0, rl)" "run_events rl_allow rl_cleanup es rl = (rs, rl')"
    and "sorted (map event_time (before @ es))" "\<forall>e \<in> set before. event_time e \<le> t0"
    and "\<forall>e \<in> set es. t0 \<le> event_time e \<and> event_time e \<le> u" "t0 \<le> u"
  shows "granted chat rs * 16666666 \<le> 61 * 16666666 + (u - t0)"
proof -
  have idle: "(60 :: int) * 16666666 \<le> minutes 10" by (simp add: duration_defs)
  have sorted: "sorted (map event_time before)" "sorted (map event_time es)" using assms(3) by (simp_all add: sorted_append)
  show ?thesis
    using users.window_bound [OF users.run_resting [OF server_limiters_wf(1) server_limiters_empty(1) idle assms(1) sorted(1) assms(4)]
      assms(2) idle sorted(2) _ assms(6)] assms(5) by simp
qed

text \<open>A user who made all his requests and came back after a minute.\<close>

theorem user_rate_bounded_witness:
  "granted 7 (fst (run_events rl_allow rl_cleanup [Call 60000000000 7, Tick 60000000001, Call 60000000010 7]
     (snd (run_events rl_allow rl_cleanup [Call 5 7, Call 6 8, Tick 9, Call 10 7] user_rl)))) * 16666666
   \<le> 61 * 16666666 + (60000000010 - 60000000000)"
  by (rule user_rate_bounded [OF prod.collapse [symmetric] prod.collapse [symmetric]]) simp_all

text \<open>The address limiter keeps at most 10000 buckets under every sequence of requests and cleanups,
  and an address that has a bucket is answered by that bucket alone, also when the table is full.\<close>

lemma ip_table_bounded:
  assumes "rl_wf burst every rl" "length (rl_buckets rl) \<le> 10000"
    and "run_events ip_allow ip_cleanup es rl = (rs, rl')"
  shows "length (rl_buckets rl') \<le> 10000 \<and>
    (\<forall>ip b now. map_of (rl_buckets rl') ip = Some b \<longrightarrow> fst (ip_allow now ip rl') = fst (bucket_allow burst every now b))"
proof -
  have "rl_wf burst every rl' \<and> length (rl_buckets rl') \<le> 10000" by (rule ip_run_ok [OF assms])
  then show ?thesis
    by (auto simp: ip_allow_def rl_wf_def split: prod.split)
qed

lemma ip_table_bounded_witness:
  "length (rl_buckets (snd (run_events ip_allow ip_cleanup [Call 5 ''1.2.3.4'', Tick 9] ip_rl))) \<le> 10000"
  by (rule ip_table_bounded [OF server_limiters_wf(2) _ prod.collapse [symmetric], THEN conjunct1])
    (simp add: ip_rl_def newIPRateLimiter_def)

text \<open>The guest limiter means one request per three minutes after a burst of fifteen, but its cleanup
  forgets an address after five idle minutes, earlier than the 45 minutes its bucket needs to refill: an
  address gets thirty requests within 331 seconds, where the bucket without the cleanup would grant sixteen.\<close>

lemma guest_cleanup_refills_early:
  "granted ip (fst (run_events ip_allow ip_cleanup
      (map (\<lambda>i. Call (seconds i) ip) [0..14] @ Tick (seconds 315) # map (\<lambda>i. Call (seconds (301 + i)) ip) [15..29])
      guest_rl)) = 30 \<and>
   granted ip (fst (run_events ip_allow ip_cleanup
      (map (\<lambda>i. Call (seconds i) ip) [0..14] @ map (\<lambda>i. Call (seconds (301 + i)) ip) [15..29])
      guest_rl)) = 16"
  by (simp add: upto_rec1 guest_rl_def newIPRateLimiter_def seconds_def minutes_def ip_allow_def maxIPBuckets_def
      bucket_allow_def new_bucket_def ip_cleanup_def go_div_def)

end
