(* ===== verification/RemovalBudget.thy ===== *)
theory RemovalBudget
  imports CwPrelude
begin

section \<open>The daily removal budget (internal/api/removal_budget.go)\<close>

text \<open>
  A Go map read at a missing key gives 0, so the counters are a function with default 0. The calls of
  \<open>take\<close> are serialised by its lock; each reads the clock once.
\<close>

record removal_budget =
  rb_day :: "int \<Rightarrow> int"
  rb_epoch :: int

definition removalBudgetPerDay :: int where "removalBudgetPerDay = 200"

definition unixDay :: "gotime \<Rightarrow> int" where
  "unixDay t = go_div (t div nanos_per_second) 86400"

definition newRemovalBudget :: "gotime \<Rightarrow> removal_budget" where
  "newRemovalBudget now = \<lparr>rb_day = (\<lambda>_. 0), rb_epoch = unixDay now\<rparr>"

definition roll_day :: "gotime \<Rightarrow> removal_budget \<Rightarrow> removal_budget" where
  "roll_day now b = (if unixDay now \<noteq> rb_epoch b then \<lparr>rb_day = (\<lambda>_. 0), rb_epoch = unixDay now\<rparr> else b)"

definition take_removals :: "gotime \<Rightarrow> int \<Rightarrow> int \<Rightarrow> removal_budget \<Rightarrow> (int \<times> bool) \<times> removal_budget" where
  "take_removals now chatID want b =
    (if want \<le> 0 then ((0, False), b)
     else
       let b = roll_day now b;
           used = rb_day b chatID;
           remaining = removalBudgetPerDay - used
       in if remaining \<le> 0 then ((0, True), b)
          else if want > remaining then ((remaining, True), b\<lparr>rb_day := (rb_day b)(chatID := removalBudgetPerDay)\<rparr>)
          else ((want, False), b\<lparr>rb_day := (rb_day b)(chatID := used + want)\<rparr>))"

text \<open>A sequence of calls, each with its time, chat and count; the answers are the allowed counts.\<close>

fun take_all :: "(gotime \<times> int \<times> int) list \<Rightarrow> removal_budget \<Rightarrow> int list \<times> removal_budget" where
  "take_all [] b = ([], b)"
| "take_all ((now, chat, want) # cs) b =
    (case take_removals now chat want b of ((n, _), b') \<Rightarrow> case take_all cs b' of (ns, b'') \<Rightarrow> (n # ns, b''))"

fun allowed_on :: "int \<Rightarrow> int \<Rightarrow> (gotime \<times> int \<times> int) list \<Rightarrow> int list \<Rightarrow> int" where
  "allowed_on chat day ((now, c, w) # cs) (n # ns) =
    (if c = chat \<and> unixDay now = day then n else 0) + allowed_on chat day cs ns"
| "allowed_on chat day _ _ = 0"

definition budget_ok :: "removal_budget \<Rightarrow> bool" where
  "budget_ok b \<longleftrightarrow> (\<forall>c. 0 \<le> rb_day b c \<and> rb_day b c \<le> removalBudgetPerDay)"

subsection \<open>Lemmas\<close>

text \<open>What is still open for a chat on a day: all of it after the day has changed.\<close>

definition open_on :: "int \<Rightarrow> int \<Rightarrow> removal_budget \<Rightarrow> int" where
  "open_on chat day b = removalBudgetPerDay - (if rb_epoch b = day then rb_day b chat else 0)"

lemma roll_day_ok: "budget_ok b \<Longrightarrow> budget_ok (roll_day now b)"
  by (simp add: budget_ok_def roll_day_def removalBudgetPerDay_def)

lemma roll_day_epoch [simp]: "rb_epoch (roll_day now b) = unixDay now"
  by (simp add: roll_day_def)

lemma roll_day_used: "removalBudgetPerDay - rb_day (roll_day now b) k = open_on k (unixDay now) b"
  by (simp add: roll_day_def open_on_def)

lemma take_removals_eq:
  assumes "budget_ok b" "0 < want"
  shows "take_removals now chat want b =
    (let r = roll_day now b; n = min want (open_on chat (unixDay now) b)
     in ((n, n < want), r\<lparr>rb_day := (rb_day r)(chat := rb_day r chat + n)\<rparr>))"
proof -
  define r where "r = roll_day now b"
  have "0 \<le> rb_day r chat" "rb_day r chat \<le> removalBudgetPerDay"
    using roll_day_ok [OF assms(1)] by (simp_all add: r_def budget_ok_def)
  moreover have "open_on chat (unixDay now) b = removalBudgetPerDay - rb_day r chat"
    by (simp add: r_def roll_day_used)
  ultimately show ?thesis
    using assms(2) by (simp add: take_removals_def r_def [symmetric] Let_def min_def) (cases r, auto)
qed

lemma take_removals_none: "want \<le> 0 \<Longrightarrow> take_removals now chat want b = ((0, False), b)"
  by (simp add: take_removals_def)

lemma open_on_nonneg: "budget_ok b \<Longrightarrow> 0 \<le> open_on k day b"
  by (simp add: open_on_def budget_ok_def removalBudgetPerDay_def)

lemma take_ok:
  assumes "budget_ok b" "take_removals now chat want b = ((n, c), b')"
  shows "budget_ok b'"
proof (cases "0 < want")
  case True
  have "min want (open_on chat (unixDay now) b) \<le> removalBudgetPerDay - rb_day (roll_day now b) chat"
    by (simp add: roll_day_used)
  then show ?thesis
    using assms True roll_day_ok [OF assms(1), of now] open_on_nonneg [OF assms(1), of chat "unixDay now"]
    by (auto simp: take_removals_eq [OF assms(1) True] budget_ok_def Let_def)
next
  case False
  then show ?thesis using assms by (simp add: take_removals_none)
qed

lemma take_within:
  assumes "budget_ok b" "take_removals now chat want b = ((n, c), b')"
  shows "n = min (max 0 want) (open_on chat (unixDay now) b) \<and> (c \<longleftrightarrow> n < want)"
proof (cases "0 < want")
  case True
  then show ?thesis using assms(2) by (auto simp: take_removals_eq [OF assms(1) True] Let_def)
next
  case False
  then show ?thesis using assms(2) open_on_nonneg [OF assms(1)] by (auto simp: take_removals_none)
qed

lemma take_open:
  assumes "budget_ok b" "take_removals now chat want b = ((n, c), b')" "rb_epoch b \<le> unixDay now" "unixDay now \<le> day"
  shows "open_on k day b' = open_on k day b - (if chat = k \<and> unixDay now = day then n else 0)"
proof (cases "0 < want")
  case True
  have b': "rb_epoch b' = unixDay now" "rb_day b' = (rb_day (roll_day now b))(chat := rb_day (roll_day now b) chat + n)"
    using assms(2) by (auto simp: take_removals_eq [OF assms(1) True] Let_def)
  show ?thesis
  proof (cases "unixDay now = day")
    case True
    then show ?thesis using b' roll_day_used [of now b k] by (auto simp: open_on_def [of k day b'])
  next
    case False
    then show ?thesis using b'(1) assms(3,4) by (simp add: open_on_def)
  qed
next
  case False
  then show ?thesis using assms(2) by (auto simp: take_removals_none)
qed

lemma take_epoch_ge: "take_removals now chat want b = ((n, c), b') \<Longrightarrow> rb_epoch b' = rb_epoch b \<or> rb_epoch b' = unixDay now"
  by (auto simp: take_removals_def roll_day_def Let_def split: if_splits)

lemma allowed_on_none:
  "(\<forall>(now, c, w) \<in> set cs. unixDay now \<noteq> day) \<Longrightarrow> allowed_on chat day cs ns = 0"
  by (induction chat day cs ns rule: allowed_on.induct) auto

lemma take_all_open:
  assumes "budget_ok b" "take_all cs b = (ns, b')" "sorted (map (unixDay o fst) cs)"
    and "\<forall>(now, c, w) \<in> set cs. rb_epoch b \<le> unixDay now"
  shows "allowed_on k day cs ns \<le> open_on k day b"
  using assms
proof (induction cs arbitrary: b ns)
  case Nil
  then show ?case by (simp add: open_on_nonneg)
next
  case (Cons call cs)
  obtain now chat want where call: "call = (now, chat, want)" by (cases call)
  obtain n c b1 where t: "take_removals now chat want b = ((n, c), b1)" by (metis prod.collapse)
  obtain ns1 where r: "take_all cs b1 = (ns1, b')" and ns: "ns = n # ns1"
    using Cons.prems(2) by (auto simp: call t split: prod.splits)
  have ok: "budget_ok b1" by (rule take_ok [OF Cons.prems(1) t])
  have le: "rb_epoch b \<le> unixDay now" "\<forall>(t, c, w) \<in> set cs. unixDay now \<le> unixDay t"
    using Cons.prems(3,4) by (auto simp: call)
  have ep: "\<forall>(t, c, w) \<in> set cs. rb_epoch b1 \<le> unixDay t"
    using take_epoch_ge [OF t] le by fastforce
  have IH: "allowed_on k day cs ns1 \<le> open_on k day b1"
    using Cons.IH [OF ok r _ ep] Cons.prems(3) by simp
  show ?case
  proof (cases "unixDay now \<le> day")
    case True
    with take_open [OF Cons.prems(1) t le(1) True, of k] IH show ?thesis by (auto simp: call ns)
  next
    case False
    then have "allowed_on k day (call # cs) ns = 0"
      using le(2) by (intro allowed_on_none) (auto simp: call)
    then show ?thesis using open_on_nonneg [OF Cons.prems(1)] by simp
  qed
qed

subsection \<open>Properties\<close>

text \<open>C8. Whatever a client asks for, at most 200 listings of a chat are retired on any one day, also across
  the change of day and with the other chats' requests in between.\<close>

theorem removals_capped_per_day:
  assumes "take_all cs (newRemovalBudget t0) = (ns, b)" "sorted (map fst cs)" "\<forall>(now, chat, want) \<in> set cs. 0 \<le> t0 \<and> t0 \<le> now"
  shows "allowed_on chat day cs ns \<le> 200"
proof -
  have mono: "unixDay s \<le> unixDay t" if "0 \<le> t0" "t0 \<le> s" "s \<le> t" for s t
    using that by (simp add: unixDay_def go_div_nonneg pos_imp_zdiv_nonneg_iff zdiv_mono1)
  have le: "\<forall>(now, c, w) \<in> set cs. rb_epoch (newRemovalBudget t0) \<le> unixDay now"
    using assms(3) mono by (auto simp: newRemovalBudget_def)
  have "sorted (map (unixDay o fst) cs)"
    using assms(2,3) mono by (induction cs) fastforce+
  from take_all_open [OF _ assms(1) this le, of chat day] show ?thesis
    by (simp add: budget_ok_def newRemovalBudget_def open_on_def removalBudgetPerDay_def cong: if_cong)
qed

theorem removals_capped_per_day_witness:
  "allowed_on 7 0 [(5, 7, 150), (6, 7, 90), (7, 8, 3)] (fst (take_all [(5, 7, 150), (6, 7, 90), (7, 8, 3)] (newRemovalBudget 0))) \<le> 200"
  by (rule removals_capped_per_day [OF prod.collapse [symmetric]]) simp_all

text \<open>One request is granted up to what is left of the day's budget, never more than it asks for, and it
  is reported as capped exactly when it got less.\<close>

lemma take_grants_remaining:
  assumes "budget_ok b"
  shows "case take_removals now chatID want b of ((n, capped), b') \<Rightarrow>
    n = min (max 0 want) (removalBudgetPerDay - (if rb_epoch b = unixDay now then rb_day b chatID else 0)) \<and>
    (capped \<longleftrightarrow> n < want) \<and> budget_ok b'"
  using take_within [OF assms, where now = now and chat = chatID and want = want] take_ok [OF assms, where now = now and chat = chatID and want = want]
  by (auto simp: open_on_def split: prod.split)

lemma take_grants_remaining_witness:
  "fst (take_removals 5 7 250 (newRemovalBudget 0)) = (200, True)"
proof -
  have "budget_ok (newRemovalBudget 0)" by (simp add: budget_ok_def newRemovalBudget_def removalBudgetPerDay_def)
  from take_grants_remaining [OF this, where now = 5 and chatID = 7 and want = 250] show ?thesis
    by (auto simp: newRemovalBudget_def unixDay_def go_div_def removalBudgetPerDay_def split: prod.splits)
qed

end
