(* ===== verification/Database.thy ===== *)
theory Database
  imports FetchBase "HOL-Library.AList"
begin

section \<open>The tables (internal/storage/postgres)\<close>

text \<open>
  One record holds the tables the scheduler and the enricher work on. A table with a primary key is an
  association list over the key, in the order of insertion; the others are row lists. Every call of the
  store may fail: \<open>db_faults\<close> says for each call in turn whether it does. A statement or a transaction is
  all or nothing, so a failed call leaves the tables as they were; of its error only the prefix of the
  message is kept. \<open>NOW()\<close> is an argument.
\<close>

datatype db_error = DbError string | NotFound

record claim_row =
  cl_first :: gotime
  cl_last :: gotime

record price_row =
  pr_id :: nat
  pr_token :: string
  pr_price :: int
  pr_observed :: gotime

text \<open>\<open>storage.ListingRecord\<close>; the delivery fields, which only the API's queries fill, are left out.\<close>

record listing_record =
  lr_Token :: string
  lr_ChatID :: int
  lr_SearchID :: int
  lr_SearchName :: string
  lr_Manufacturer :: string
  lr_Model :: string
  lr_SubModel :: string
  lr_SubModelID :: int
  lr_BodyType :: string
  lr_Year :: int
  lr_Price :: int
  lr_Km :: int
  lr_Hand :: int
  lr_City :: string
  lr_PageLink :: string
  lr_ImageURL :: string
  lr_EngineVolume :: real
  lr_HorsePower :: int
  lr_EngineType :: string
  lr_GearBox :: string
  lr_Description :: string
  lr_IsCommercial :: "bool option"
  lr_FitnessScore :: "real option"
  lr_MedianPrice :: "int option"
  lr_CohortSize :: "int option"
  lr_DealScore :: "int option"
  lr_BasePrice :: "int option"
  lr_FirstSeenAt :: gotime
  lr_PostedAt :: "gotime option"
  lr_ScoreCondition :: "real option"
  lr_ScoreValue :: "real option"
  lr_ScoreEngine :: "real option"
  lr_OriginalOwnership :: "string option"
  lr_RemovedAt :: "gotime option"

text \<open>A row of \<open>listing_history\<close>: the record with the columns only the database keeps.\<close>

record history_row = listing_record +
  hr_last_seen :: gotime
  hr_attempts :: int
  hr_last_enrich :: "gotime option"

record enrichment_record =
  er_Manufacturer :: string
  er_Model :: string
  er_Year :: int
  er_Price :: int
  er_SearchName :: string
  er_Km :: int
  er_City :: string
  er_ImageURL :: string
  er_BodyType :: string

record user =
  u_ChatID :: int
  u_Active :: bool
  u_Language :: string
  u_Tier :: string
  u_TierExpires :: gotime
  u_digest_mode :: string
  u_digest_interval :: string
  u_digest_last_flushed :: gotime
  u_daily_digest :: bool
  u_daily_digest_time :: string
  u_daily_digest_last_sent :: gotime
  u_Username :: string
  u_State :: string
  u_StateData :: string
  u_TrialUsed :: bool
  u_Channel :: string
  u_ChannelID :: string
  u_LinkedWebID :: "int option"

record digest_row =
  dg_chat :: int
  dg_payload :: string
  dg_tokens :: "string list"
  dg_created :: gotime

record delivery_event =
  de_ChatID :: int
  de_Token :: string
  de_SearchID :: int
  de_AlertType :: string
  de_Channel :: string
  de_Status :: string
  de_BatchID :: string
  de_Error :: string

text \<open>A row of the ledger \<open>notification_deliveries\<close>.\<close>

record delivery_row = delivery_event +
  dr_attempts :: int
  dr_created :: gotime

record price_list_entry =
  ple_BasePrice :: int
  ple_FetchedAt :: gotime

text \<open>A row of \<open>link_tokens\<close>.\<close>

record link_token =
  lt_web :: int
  lt_expires :: gotime
  lt_used :: bool

type_synonym claim_key = "string \<times> int \<times> int"

record db =
  db_faults :: "bool list"
  db_seen :: "(claim_key \<times> claim_row) list"
  db_prices :: "price_row list"
  db_history :: "((string \<times> int) \<times> history_row) list"
  db_saved :: "(int \<times> string) list"
  db_hidden :: "(int \<times> string) list"
  db_users :: "(int \<times> user) list"
  db_searches :: "search list"
  db_digest :: "digest_row list"
  db_deliveries :: "delivery_row list"
  db_pricelist :: "((int \<times> int) \<times> price_list_entry) list"
  db_link_tokens :: "(string \<times> link_token) list"

definition empty_db :: db where
  "empty_db = \<lparr>db_faults = [], db_seen = [], db_prices = [], db_history = [], db_saved = [], db_hidden = [],
     db_users = [], db_searches = [], db_digest = [], db_deliveries = [], db_pricelist = [], db_link_tokens = []\<rparr>"

definition next_fault :: "'z db_scheme \<Rightarrow> bool \<times> 'z db_scheme" where
  "next_fault d = (case db_faults d of [] \<Rightarrow> (False, d) | f # fs \<Rightarrow> (f, d\<lparr>db_faults := fs\<rparr>))"

definition db_call :: "db_error \<Rightarrow> ('z db_scheme \<Rightarrow> (db_error + 'r) \<times> 'z db_scheme) \<Rightarrow>
    'z db_scheme \<Rightarrow> (db_error + 'r) \<times> 'z db_scheme" where
  "db_call err f d = (case next_fault d of (fault, d') \<Rightarrow> if fault then (Inl err, d') else f d')"

text \<open>Without faults a call is its body.\<close>

lemma next_fault_none [simp]: "db_faults d = [] \<Longrightarrow> next_fault d = (False, d)"
  by (simp add: next_fault_def)

lemma db_call_none [simp]: "db_faults d = [] \<Longrightarrow> db_call err f d = f d"
  by (simp add: db_call_def)

text \<open>A call either fails, using up an entry of the oracle, or runs on the same tables.\<close>

lemma next_fault_cases: "\<exists>fs. snd (next_fault d) = d\<lparr>db_faults := fs\<rparr>"
proof (cases "db_faults d")
  case Nil
  then have "snd (next_fault d) = d\<lparr>db_faults := []\<rparr>" by (cases d) (simp add: next_fault_def)
  then show ?thesis by blast
next
  case (Cons f fs)
  then have "snd (next_fault d) = d\<lparr>db_faults := fs\<rparr>" by (simp add: next_fault_def)
  then show ?thesis by blast
qed

lemma db_call_cases:
  obtains fs where "db_call err f d = (Inl err, d\<lparr>db_faults := fs\<rparr>)"
  | fs where "db_call err f d = f (d\<lparr>db_faults := fs\<rparr>)"
proof -
  obtain fs where "snd (next_fault d) = d\<lparr>db_faults := fs\<rparr>" using next_fault_cases by metis
  then show ?thesis using that by (cases "next_fault d"; cases "fst (next_fault d)") (auto simp: db_call_def)
qed

lemma db_call_Inr:
  assumes "db_call err f d = (Inr x, d')"
  obtains fs where "f (d\<lparr>db_faults := fs\<rparr>) = (Inr x, d')"
  using assms by (cases rule: db_call_cases [of err f d]) auto

lemma db_call_Inl:
  assumes "db_call err f d = (Inl e, d')"
  obtains fs where "d' = d\<lparr>db_faults := fs\<rparr>" "e = err"
  | fs where "f (d\<lparr>db_faults := fs\<rparr>) = (Inl e, d')"
  using assms by (cases rule: db_call_cases [of err f d]) auto

lemma db_call_state:
  assumes "db_call err f d = (r, d')"
  obtains fs where "d' = d\<lparr>db_faults := fs\<rparr>" | fs where "f (d\<lparr>db_faults := fs\<rparr>) = (r, d')"
  using assms by (cases rule: db_call_cases [of err f d]) auto

text \<open>What no call of a body changes, no call changes.\<close>

lemma db_call_frame:
  assumes "\<And>d. g (snd (f d)) = g d" "\<And>fs. g (d\<lparr>db_faults := fs\<rparr>) = g d"
  shows "g (snd (db_call err f d)) = g d"
  by (rule db_call_cases [of err f d]) (simp_all add: assms)

lemma db_call_inv:
  assumes "\<And>fs. P (d\<lparr>db_faults := fs\<rparr>)" "\<And>fs. P (snd (f (d\<lparr>db_faults := fs\<rparr>)))"
  shows "P (snd (db_call err f d))"
  by (rule db_call_cases [of err f d]) (simp_all add: assms)

end
