(* ===== verification/Claims.thy ===== *)
theory Claims
  imports Database
begin

section \<open>Dedup claims (internal/storage/postgres/dedup.go)\<close>

text \<open>
  \<open>seen_listings\<close> has the primary key (token, chat, search). \<open>INSERT ... ON CONFLICT DO UPDATE ... RETURNING
  (xmax = 0)\<close> is one statement: it reports a fresh row and otherwise renews \<open>last_seen_at\<close>.
\<close>

definition claim_stmt :: "gotime \<Rightarrow> claim_key \<Rightarrow> 'z db_scheme \<Rightarrow> (db_error + bool) \<times> 'z db_scheme" where
  "claim_stmt now k d =
    (case map_of (db_seen d) k of
       None \<Rightarrow> (Inr True, d\<lparr>db_seen := AList.update k \<lparr>cl_first = now, cl_last = now\<rparr> (db_seen d)\<rparr>)
     | Some r \<Rightarrow> (Inr False, d\<lparr>db_seen := AList.update k (r\<lparr>cl_last := now\<rparr>) (db_seen d)\<rparr>))"

definition ClaimNew :: "gotime \<Rightarrow> claim_key \<Rightarrow> 'z db_scheme \<Rightarrow> (db_error + bool) \<times> 'z db_scheme" where
  "ClaimNew now k = db_call (DbError ''claim new'') (claim_stmt now k)"

definition release_stmt :: "claim_key \<Rightarrow> 'z db_scheme \<Rightarrow> (db_error + unit) \<times> 'z db_scheme" where
  "release_stmt k d = (Inr (), d\<lparr>db_seen := AList.delete k (db_seen d)\<rparr>)"

definition ReleaseClaim :: "claim_key \<Rightarrow> 'z db_scheme \<Rightarrow> (db_error + unit) \<times> 'z db_scheme" where
  "ReleaseClaim k = db_call (DbError ''release claim'') (release_stmt k)"

definition Prune :: "gotime \<Rightarrow> duration \<Rightarrow> 'z db_scheme \<Rightarrow> (db_error + nat) \<times> 'z db_scheme" where
  "Prune now olderThan = db_call (DbError ''prune seen listings'') (\<lambda>d.
     let cutoff = now - olderThan;
         gone = filter (\<lambda>(k, r). cl_last r < cutoff) (db_seen d)
     in (Inr (length gone), d\<lparr>db_seen := filter (\<lambda>(k, r). \<not> cl_last r < cutoff) (db_seen d)\<rparr>))"

subsection \<open>The contract of a dedup store\<close>

text \<open>
  \<open>storage.DedupStore\<close> as its clients rely on it: a claim answers whether the key was free and holds it from
  then on, a release frees it, pruning only frees keys, and a failed call changes nothing.
\<close>

locale dedup_store =
  fixes claim :: "gotime \<Rightarrow> 'k \<Rightarrow> 's \<Rightarrow> ('e + bool) \<times> 's"
    and release :: "'k \<Rightarrow> 's \<Rightarrow> ('e + unit) \<times> 's"
    and held :: "'s \<Rightarrow> 'k set"
  assumes claim_ok: "claim now k s = (Inr new, s') \<Longrightarrow> (new \<longleftrightarrow> k \<notin> held s) \<and> held s' = insert k (held s)"
    and claim_err: "claim now k s = (Inl e, s') \<Longrightarrow> held s' = held s"
    and release_ok: "release k s = (Inr u, s') \<Longrightarrow> held s' = held s - {k}"
    and release_err: "release k s = (Inl e, s') \<Longrightarrow> held s' = held s"
begin

lemma claim_again:
  assumes "claim t k s = (Inr new, s1)" "claim u k s1 = (r, s2)"
  shows "r \<noteq> Inr True"
  using claim_ok [OF assms(1)] claim_ok [of u k s1 True s2] assms(2) by auto

lemma claim_held_mono: "claim t k s = (r, s') \<Longrightarrow> held s \<subseteq> held s'"
  using claim_ok claim_err by (cases r) fastforce+

end

datatype 'k dedup_op = OpClaim gotime 'k | OpRelease 'k

fun run_dedup :: "(gotime \<Rightarrow> 'k \<Rightarrow> 's \<Rightarrow> ('e + bool) \<times> 's) \<Rightarrow> ('k \<Rightarrow> 's \<Rightarrow> ('e + unit) \<times> 's) \<Rightarrow>
    'k dedup_op list \<Rightarrow> 's \<Rightarrow> bool list \<times> 's" where
  "run_dedup claim release [] s = ([], s)"
| "run_dedup claim release (OpClaim t k # ops) s =
    (case claim t k s of (r, s') \<Rightarrow> case run_dedup claim release ops s' of (rs, s'') \<Rightarrow> ((r = Inr True) # rs, s''))"
| "run_dedup claim release (OpRelease k # ops) s =
    (case release k s of (r, s') \<Rightarrow> case run_dedup claim release ops s' of (rs, s'') \<Rightarrow> (False # rs, s''))"

fun fresh_claims :: "'k \<Rightarrow> 'k dedup_op list \<Rightarrow> bool list \<Rightarrow> nat" where
  "fresh_claims k (OpClaim t j # ops) (r # rs) = (if j = k \<and> r then 1 else 0) + fresh_claims k ops rs"
| "fresh_claims k (OpRelease j # ops) (r # rs) = fresh_claims k ops rs"
| "fresh_claims k _ _ = 0"

definition releases_of :: "'k \<Rightarrow> 'k dedup_op list \<Rightarrow> nat" where
  "releases_of k ops = count_list ops (OpRelease k)"

context dedup_store
begin

text \<open>A key is reported new at most once more than it is released.\<close>

lemma fresh_bound:
  "run_dedup claim release ops s = (rs, s') \<Longrightarrow>
    fresh_claims k ops rs + (if k \<in> held s then 1 else 0) \<le> 1 + releases_of k ops"
proof (induction ops arbitrary: s rs)
  case Nil
  then show ?case by (simp add: releases_of_def)
next
  case (Cons op ops)
  show ?case
  proof (cases op)
    case (OpClaim t j)
    obtain r s1 where c: "claim t j s = (r, s1)" by (cases "claim t j s")
    obtain rs1 where run: "run_dedup claim release ops s1 = (rs1, s')" and rs: "rs = (r = Inr True) # rs1"
      using Cons.prems OpClaim c by (auto split: prod.splits)
    have "k \<in> held s \<Longrightarrow> k \<in> held s1" using claim_held_mono [OF c] by blast
    moreover have "r = Inr True \<and> j = k \<Longrightarrow> k \<notin> held s \<and> k \<in> held s1" using claim_ok c by blast
    ultimately show ?thesis
      using Cons.IH [OF run] OpClaim rs by (auto simp: releases_of_def split: if_splits)
  next
    case (OpRelease j)
    obtain r s1 where c: "release j s = (r, s1)" by (cases "release j s")
    obtain rs1 where run: "run_dedup claim release ops s1 = (rs1, s')" and rs: "rs = False # rs1"
      using Cons.prems OpRelease c by (auto split: prod.splits)
    have "k \<in> held s \<Longrightarrow> j \<noteq> k \<Longrightarrow> k \<in> held s1"
      using release_ok release_err c by (cases r) fastforce+
    then show ?thesis
      using Cons.IH [OF run] OpRelease rs by (auto simp: releases_of_def split: if_splits)
  qed
qed

end

definition claimed :: "'z db_scheme \<Rightarrow> claim_key set" where
  "claimed d = dom (map_of (db_seen d))"

lemma claimed_fields [simp]: "claimed (d\<lparr>db_faults := fs\<rparr>) = claimed d"
  by (simp add: claimed_def)

lemma claim_stmt_claimed:
  "claim_stmt now k d = (Inr new, d') \<Longrightarrow> (new \<longleftrightarrow> k \<notin> claimed d) \<and> claimed d' = insert k (claimed d)"
  "claim_stmt now k d \<noteq> (Inl e, d')"
  by (auto simp: claim_stmt_def claimed_def update_conv split: option.splits)

lemma ClaimNew_claimed:
  "ClaimNew now k d = (Inr new, d') \<Longrightarrow> (new \<longleftrightarrow> k \<notin> claimed d) \<and> claimed d' = insert k (claimed d)"
  "ClaimNew now k d = (Inl e, d') \<Longrightarrow> claimed d' = claimed d"
  unfolding ClaimNew_def
  by (auto elim!: db_call_Inr db_call_Inl dest: claim_stmt_claimed(1) simp: claim_stmt_claimed(2))

lemma ReleaseClaim_claimed:
  "ReleaseClaim k d = (Inr u, d') \<Longrightarrow> claimed d' = claimed d - {k}"
  "ReleaseClaim k d = (Inl e, d') \<Longrightarrow> claimed d' = claimed d"
  unfolding ReleaseClaim_def
  by (auto elim!: db_call_Inr db_call_Inl simp: release_stmt_def claimed_def delete_conv split: if_splits)

interpretation claims: dedup_store ClaimNew ReleaseClaim claimed
  by unfold_locales (fact ClaimNew_claimed ReleaseClaim_claimed)+

text \<open>A pruning frees exactly the claims nobody renewed within the retention.\<close>

lemma Prune_claimed:
  assumes "Prune now olderThan d = (Inr n, d')" "distinct (map fst (db_seen d))"
  shows "map_of (db_seen d') k = (case map_of (db_seen d) k of
    Some r \<Rightarrow> if cl_last r < now - olderThan then None else Some r | None \<Rightarrow> None)"
proof -
  have *: "map_of (filter (\<lambda>(k, r). \<not> cl_last r < t) xs) k =
      (case map_of xs k of Some r \<Rightarrow> if cl_last r < t then None else Some r | None \<Rightarrow> None)"
    if "distinct (map fst xs)" for t and xs :: "(claim_key \<times> claim_row) list"
    using that by (induction xs) (auto simp: map_of_eq_None_iff image_iff split: option.splits)
  show ?thesis
    using assms * unfolding Prune_def by (auto elim!: db_call_Inr simp: Let_def)
qed

subsection \<open>Properties\<close>

text \<open>Under every interleaving of claims and releases of all users and searches, with any call failing, one
  user is told that a listing is new for a search at most once more often than its claim was released: without a
  release there is at most one alert.\<close>

lemma claim_alerts_once:
  "fresh_claims k ops (fst (run_dedup ClaimNew ReleaseClaim ops d)) \<le> 1 + releases_of k ops"
  using claims.fresh_bound [OF prod.collapse [symmetric], where k = k] by (metis add_leE)

text \<open>A listing that is seen again before the retention has passed keeps its claim through the pruning: the
  next claim of it is not new, however long ago it was first seen.\<close>

lemma live_claim_survives_prune:
  assumes "ClaimNew t k d = (Inr new, d1)" "Prune now olderThan d1 = (Inr n, d2)" "distinct (map fst (db_seen d))"
    and "now - olderThan \<le> t" "ClaimNew u k d2 = (Inr again, d3)"
  shows "\<not> again"
proof -
  have "\<exists>r. map_of (db_seen d1) k = Some r \<and> cl_last r = t" and dist: "distinct (map fst (db_seen d1))"
    using assms(1,3) unfolding ClaimNew_def
    by (auto elim!: db_call_Inr simp: claim_stmt_def update_conv distinct_update split: option.splits)
  then have "map_of (db_seen d2) k \<noteq> None"
    using Prune_claimed [OF assms(2) dist, of k] assms(4) by auto
  then have "k \<in> claimed d2" by (auto simp: claimed_def)
  then show ?thesis using ClaimNew_claimed(1) [OF assms(5)] by simp
qed

lemma live_claim_survives_prune_witness:
  "\<not> (case ClaimNew 50 (''t'', 1, 2) empty_db of (_, d1) \<Rightarrow> case Prune 60 20 d1 of (_, d2) \<Rightarrow>
      fst (ClaimNew 70 (''t'', 1, 2) d2) = Inr True)"
proof -
  let ?k = "(''t'', 1, 2) :: claim_key"
  define d1 where "d1 = snd (ClaimNew 50 ?k empty_db)"
  define d2 where "d2 = snd (Prune 60 20 d1)"
  have run: "ClaimNew 50 ?k empty_db = (Inr True, d1)" "Prune 60 20 d1 = (Inr 0, d2)"
    by (simp_all add: d1_def d2_def empty_db_def ClaimNew_def claim_stmt_def Prune_def Let_def)
  define d3 where "d3 = snd (ClaimNew 70 ?k d2)"
  define again where "again \<longleftrightarrow> fst (ClaimNew 70 ?k d2) = Inr True"
  have c: "ClaimNew 70 ?k d2 = (Inr again, d3)"
    by (simp add: again_def d3_def d1_def d2_def empty_db_def ClaimNew_def claim_stmt_def Prune_def Let_def)
  have "\<not> again" by (rule live_claim_survives_prune [OF run _ _ c]) (simp_all add: empty_db_def)
  then show ?thesis using run c by simp
qed

end
