(* ===== verification/Prices.thy ===== *)
theory Prices
  imports Database
begin

section \<open>The price history (internal/storage/postgres/prices.go)\<close>

text \<open>
  Rows are appended; the row that counts for a token is the last by (\<open>observed_at\<close>, \<open>id\<close>). A sort that is stable
  keeps rows of one time in the order of their ids. The ratio of two prices is exact.
\<close>

definition implausiblePriceSwing :: "int \<Rightarrow> int \<Rightarrow> bool" where
  "implausiblePriceSwing prev nxt =
    (if prev \<le> 0 \<or> nxt \<le> 0 then nxt \<le> 0
     else real_of_int nxt / real_of_int prev > 3 \<or> real_of_int nxt / real_of_int prev < 1 / 3)"

definition token_rows :: "string \<Rightarrow> price_row list \<Rightarrow> price_row list" where
  "token_rows tok rows = sort_key pr_observed (filter (\<lambda>r. pr_token r = tok) rows)"

definition latest_price :: "string \<Rightarrow> price_row list \<Rightarrow> int option" where
  "latest_price tok rows = (case rev (token_rows tok rows) of [] \<Rightarrow> None | r # _ \<Rightarrow> Some (pr_price r))"

definition insert_price :: "gotime \<Rightarrow> string \<Rightarrow> int \<Rightarrow> 'z db_scheme \<Rightarrow> 'z db_scheme" where
  "insert_price now tok price d =
     d\<lparr>db_prices := db_prices d @ [\<lparr>pr_id = length (db_prices d), pr_token = tok, pr_price = price, pr_observed = now\<rparr>]\<rparr>"

definition record_price_tx :: "gotime \<Rightarrow> string \<Rightarrow> int \<Rightarrow> 'z db_scheme \<Rightarrow> (db_error + int \<times> bool) \<times> 'z db_scheme" where
  "record_price_tx now tok price d =
    (case latest_price tok (db_prices d) of
       None \<Rightarrow>
         if price \<le> 0 then (Inr (0, False), d)
         else (Inr (0, False), insert_price now tok price d)
     | Some prev \<Rightarrow>
         if price \<noteq> prev \<and> implausiblePriceSwing prev price then (Inr (prev, False), d)
         else if price \<noteq> prev then (Inr (prev, True), insert_price now tok price d)
         else (Inr (prev, False), d))"

definition RecordPrice :: "gotime \<Rightarrow> string \<Rightarrow> int \<Rightarrow> 'z db_scheme \<Rightarrow> (db_error + int \<times> bool) \<times> 'z db_scheme" where
  "RecordPrice now tok price = db_call (DbError ''record price'') (record_price_tx now tok price)"

definition PeekPrice :: "string \<Rightarrow> 'z db_scheme \<Rightarrow> (db_error + int option) \<times> 'z db_scheme" where
  "PeekPrice tok = db_call (DbError ''peek price'') (\<lambda>d. (Inr (latest_price tok (db_prices d)), d))"

definition GetPriceHistory :: "string \<Rightarrow> 'z db_scheme \<Rightarrow> (db_error + (int \<times> gotime) list) \<times> 'z db_scheme" where
  "GetPriceHistory tok = db_call (DbError ''get price history'') (\<lambda>d.
     (Inr (map (\<lambda>r. (pr_price r, pr_observed r)) (rev (token_rows tok (db_prices d)))), d))"

definition PrunePrices :: "gotime \<Rightarrow> duration \<Rightarrow> 'z db_scheme \<Rightarrow> (db_error + nat) \<times> 'z db_scheme" where
  "PrunePrices now olderThan = db_call (DbError ''prune prices'') (\<lambda>d.
     let cutoff = now - olderThan
     in (Inr (length (filter (\<lambda>r. pr_observed r < cutoff) (db_prices d))),
         d\<lparr>db_prices := filter (\<lambda>r. \<not> pr_observed r < cutoff) (db_prices d)\<rparr>))"

subsection \<open>Lemmas\<close>

lemma implausible_iff:
  "0 < prev \<Longrightarrow> implausiblePriceSwing prev nxt \<longleftrightarrow> nxt \<le> 0 \<or> 3 * prev < nxt \<or> 3 * nxt < prev"
proof -
  assume p: "0 < prev"
  have "real_of_int nxt / real_of_int prev > 3 \<longleftrightarrow> 3 * prev < nxt"
    using p by (simp add: pos_less_divide_eq) linarith
  moreover have "real_of_int nxt / real_of_int prev < 1 / 3 \<longleftrightarrow> 3 * nxt < prev"
    using p by (simp add: divide_less_eq) linarith
  ultimately show ?thesis using p by (auto simp: implausiblePriceSwing_def)
qed

text \<open>A history whose consecutive entries (oldest first) are positive, differ and stay within the band.\<close>

fun plausible_history :: "int list \<Rightarrow> bool" where
  "plausible_history [] = True"
| "plausible_history [p] = (0 < p)"
| "plausible_history (p # q # ps) = (0 < p \<and> p \<noteq> q \<and> q \<le> 3 * p \<and> p \<le> 3 * q \<and> plausible_history (q # ps))"

lemma plausible_snoc:
  "plausible_history (ps @ [p]) \<Longrightarrow> 0 < q \<Longrightarrow> p \<noteq> q \<Longrightarrow> q \<le> 3 * p \<Longrightarrow> p \<le> 3 * q \<Longrightarrow> plausible_history (ps @ [p, q])"
  by (induction ps rule: plausible_history.induct) auto

lemma plausible_last: "plausible_history (ps @ [p]) \<Longrightarrow> 0 < p"
  by (induction ps rule: plausible_history.induct) auto

definition prices_of :: "string \<Rightarrow> 'z db_scheme \<Rightarrow> int list" where
  "prices_of tok d = map pr_price (token_rows tok (db_prices d))"

lemma prices_of_faults [simp]: "prices_of tok (d\<lparr>db_faults := fs\<rparr>) = prices_of tok d"
  by (simp add: prices_of_def)

lemma latest_price_prices_of:
  "latest_price tok (db_prices d) = (case rev (prices_of tok d) of [] \<Rightarrow> None | p # _ \<Rightarrow> Some p)"
  unfolding latest_price_def prices_of_def rev_map by (simp split: list.split)

text \<open>With a clock that does not run backwards a new row comes last.\<close>

definition observed_before :: "gotime \<Rightarrow> 'z db_scheme \<Rightarrow> bool" where
  "observed_before now d \<longleftrightarrow> (\<forall>r \<in> set (db_prices d). pr_observed r \<le> now)"

lemma insort_key_before_last: "f x \<le> f y \<Longrightarrow> insort_key f x (ys @ [y]) = insort_key f x ys @ [y]"
  by (induction ys) auto

lemma sort_key_snoc_max:
  "(\<And>x. x \<in> set xs \<Longrightarrow> f x \<le> f y) \<Longrightarrow> sort_key f (xs @ [y]) = sort_key f xs @ [y]"
  by (induction xs) (simp_all add: insort_key_before_last)

lemma prices_of_insert:
  assumes "observed_before now d"
  shows "prices_of tok' (insert_price now tok price d) = prices_of tok' d @ (if tok = tok' then [price] else [])"
proof (cases "tok = tok'")
  case True
  have "sort_key pr_observed (filter (\<lambda>r. pr_token r = tok') (db_prices d) @ [r]) =
      sort_key pr_observed (filter (\<lambda>r. pr_token r = tok') (db_prices d)) @ [r]" if "pr_observed r = now" for r
    using assms that by (intro sort_key_snoc_max) (auto simp: observed_before_def)
  then show ?thesis using True by (simp add: prices_of_def token_rows_def insert_price_def)
next
  case False
  then show ?thesis by (simp add: prices_of_def token_rows_def insert_price_def)
qed

lemma record_price_plausible:
  assumes "plausible_history (prices_of tok' d)" "observed_before now d" "record_price_tx now tok price d = (r, d')"
  shows "plausible_history (prices_of tok' d')"
proof (cases "d' = d")
  case False
  show ?thesis
  proof (cases "rev (prices_of tok d)")
    case Nil
    then show ?thesis using assms False
      by (auto simp: record_price_tx_def latest_price_prices_of prices_of_insert split: if_splits)
  next
    case (Cons p ps)
    then have snoc: "prices_of tok d = rev ps @ [p]" by (metis rev_eq_Cons_iff)
    have "d' = insert_price now tok price d" "price \<noteq> p" "\<not> implausiblePriceSwing p price"
      using assms(3) False by (auto simp: record_price_tx_def latest_price_prices_of Cons split: if_splits)
    then show ?thesis
      using assms(1) snoc plausible_last [of "rev ps" p]
      by (auto simp: prices_of_insert [OF assms(2)] implausible_iff intro!: plausible_snoc)
  qed
qed (use assms(1) in simp)

lemma observed_before_step:
  "observed_before now d \<Longrightarrow> record_price_tx now tok price d = (r, d') \<Longrightarrow> observed_before now d'"
  by (auto simp: record_price_tx_def insert_price_def observed_before_def split: option.splits if_splits)

lemma observed_before_faults [simp]: "observed_before now (d\<lparr>db_faults := fs\<rparr>) = observed_before now d"
  by (simp add: observed_before_def)

lemma RecordPrice_keeps:
  assumes "RecordPrice now tok price d = (r, d')" "observed_before now d"
  shows "observed_before now d' \<and> (plausible_history (prices_of tok' d) \<longrightarrow> plausible_history (prices_of tok' d'))"
  using assms(1) unfolding RecordPrice_def
proof (cases rule: db_call_state)
  case (1 fs)
  then show ?thesis using assms(2) by simp
next
  case (2 fs)
  have "observed_before now (d\<lparr>db_faults := fs\<rparr>)" using assms(2) by simp
  from observed_before_step [OF this 2] record_price_plausible [OF _ this 2] show ?thesis by auto
qed

text \<open>A sequence of observations, each with its time, token and price.\<close>

fun record_all :: "(gotime \<times> string \<times> int) list \<Rightarrow> 'z db_scheme \<Rightarrow> 'z db_scheme" where
  "record_all [] d = d"
| "record_all ((now, tok, price) # obs) d = record_all obs (snd (RecordPrice now tok price d))"

lemma record_all_plausible:
  "plausible_history (prices_of tok d) \<Longrightarrow> sorted (map fst obs) \<Longrightarrow> \<forall>(now, t, p) \<in> set obs. observed_before now d \<Longrightarrow>
    plausible_history (prices_of tok (record_all obs d))"
proof (induction obs arbitrary: d)
  case Nil
  then show ?case by simp
next
  case (Cons ob obs)
  obtain now t p where ob: "ob = (now, t, p)" by (cases ob)
  obtain r d1 where step: "RecordPrice now t p d = (r, d1)" by (cases "RecordPrice now t p d")
  have ob1: "observed_before now d" using Cons.prems(3) ob by simp
  note K = RecordPrice_keeps [OF step ob1]
  have "observed_before u d1" if "now \<le> u" for u
    using K that by (meson observed_before_def order_trans)
  then show ?case
    using Cons.IH [of d1] K Cons.prems ob step by fastforce
qed

subsection \<open>Properties\<close>

text \<open>Whatever prices are pushed for a car, in any order over the cars and with any call failing, the recorded
  history of a token holds positive prices only, and every recorded price differs from the one before by a factor
  of at most three: a pushed price outside the band never enters the history.\<close>

lemma price_history_plausible:
  assumes "db_prices d = []" "sorted (map fst obs)"
  shows "plausible_history (prices_of tok (record_all obs d))"
  using assms by (intro record_all_plausible) (auto simp: prices_of_def token_rows_def observed_before_def)

lemma price_history_plausible_witness:
  "plausible_history (prices_of ''t'' (record_all [(1, ''t'', 90000), (2, ''t'', 9000), (3, ''t'', 85000)] empty_db))"
  by (rule price_history_plausible) (simp_all add: empty_db_def)

text \<open>One observation reports a change exactly when the last recorded price is another one within the band;
  then, and for the first positive price, the price becomes the one PeekPrice reads, and otherwise the history
  stays as it was.\<close>

lemma record_price_reports:
  assumes "db_faults d = []" "observed_before now d"
  shows "case RecordPrice now tok price d of (r, d') \<Rightarrow>
    (case latest_price tok (db_prices d) of
       None \<Rightarrow> r = Inr (0, False) \<and> prices_of tok d' = prices_of tok d @ (if 0 < price then [price] else [])
     | Some prev \<Rightarrow>
         r = Inr (prev, price \<noteq> prev \<and> \<not> implausiblePriceSwing prev price) \<and>
         prices_of tok d' = prices_of tok d @ (if price \<noteq> prev \<and> \<not> implausiblePriceSwing prev price then [price] else []))"
  using assms by (auto simp: RecordPrice_def record_price_tx_def prices_of_insert split: option.split)

lemma record_price_reports_witness:
  "fst (RecordPrice 5 ''t'' 90000 empty_db) = Inr (0, False) \<and> prices_of ''t'' (snd (RecordPrice 5 ''t'' 90000 empty_db)) = [90000]"
proof -
  have "db_faults empty_db = []" "observed_before 5 empty_db" by (simp_all add: empty_db_def observed_before_def)
  from record_price_reports [OF this, of "''t''" 90000] show ?thesis
    by (simp add: latest_price_def prices_of_def token_rows_def empty_db_def split: prod.splits)
qed

end
