(* ===== verification/ListingStore.thy ===== *)
theory ListingStore
  imports Database
begin

section \<open>The listing history (internal/storage/postgres/listings.go)\<close>

text \<open>
  \<open>listing_history\<close> has the primary key (token, chat). A NULL text column reads as the empty string. The
  reads that go through batches of 500 tokens are one call here.
\<close>

definition coalesce :: "'a option \<Rightarrow> 'a option \<Rightarrow> 'a option" where
  "coalesce x y = (case x of Some _ \<Rightarrow> x | None \<Rightarrow> y)"

definition pos_or :: "int \<Rightarrow> int \<Rightarrow> int" where "pos_or new old = (if new > 0 then new else old)"

definition text_or :: "string \<Rightarrow> string \<Rightarrow> string" where "text_or new old = (if new \<noteq> '''' then new else old)"

definition new_row :: "gotime \<Rightarrow> listing_record \<Rightarrow> history_row" where
  "new_row now r = listing_record.extend (r\<lparr>lr_RemovedAt := None\<rparr>) \<lparr>hr_last_seen = now, hr_attempts = 0, hr_last_enrich = None\<rparr>"

text \<open>The update of \<open>upsertListingSQL\<close>: \<open>r\<close> is EXCLUDED, \<open>h\<close> the row that is there.\<close>

definition merge_row :: "gotime \<Rightarrow> listing_record \<Rightarrow> history_row \<Rightarrow> history_row" where
  "merge_row now r h = h\<lparr>
     lr_SearchID := (if lr_SearchID r > 0 then lr_SearchID r else lr_SearchID h),
     lr_SearchName := (if lr_SearchID r > 0 then lr_SearchName r else lr_SearchName h),
     lr_Manufacturer := text_or (lr_Manufacturer r) (lr_Manufacturer h),
     lr_Model := text_or (lr_Model r) (lr_Model h),
     lr_SubModel := text_or (lr_SubModel r) (lr_SubModel h),
     lr_SubModelID := pos_or (lr_SubModelID r) (lr_SubModelID h),
     lr_BodyType := text_or (lr_BodyType r) (lr_BodyType h),
     lr_Year := pos_or (lr_Year r) (lr_Year h),
     lr_Price := pos_or (lr_Price r) (lr_Price h),
     lr_Km := pos_or (lr_Km r) (lr_Km h),
     lr_Hand := pos_or (lr_Hand r) (lr_Hand h),
     lr_City := text_or (lr_City r) (lr_City h),
     lr_PageLink := text_or (lr_PageLink r) (lr_PageLink h),
     lr_ImageURL := text_or (lr_ImageURL r) (lr_ImageURL h),
     lr_EngineVolume := (if lr_EngineVolume r > 0 then lr_EngineVolume r else lr_EngineVolume h),
     lr_HorsePower := pos_or (lr_HorsePower r) (lr_HorsePower h),
     lr_EngineType := text_or (lr_EngineType r) (lr_EngineType h),
     lr_GearBox := text_or (lr_GearBox r) (lr_GearBox h),
     lr_Description := text_or (lr_Description r) (lr_Description h),
     lr_IsCommercial := coalesce (lr_IsCommercial r) (lr_IsCommercial h),
     lr_FitnessScore := coalesce (lr_FitnessScore r) (lr_FitnessScore h),
     lr_MedianPrice := coalesce (lr_MedianPrice r) (lr_MedianPrice h),
     lr_CohortSize := coalesce (lr_CohortSize r) (lr_CohortSize h),
     lr_DealScore := coalesce (lr_DealScore r) (lr_DealScore h),
     lr_BasePrice := coalesce (lr_BasePrice r) (lr_BasePrice h),
     lr_PostedAt := coalesce (lr_PostedAt r) (lr_PostedAt h),
     lr_RemovedAt := None,
     hr_last_seen := now,
     lr_ScoreCondition := coalesce (lr_ScoreCondition r) (lr_ScoreCondition h),
     lr_ScoreValue := coalesce (lr_ScoreValue r) (lr_ScoreValue h),
     lr_ScoreEngine := coalesce (lr_ScoreEngine r) (lr_ScoreEngine h),
     lr_OriginalOwnership := coalesce (lr_OriginalOwnership r) (lr_OriginalOwnership h)\<rparr>"

type_synonym history = "((string \<times> int) \<times> history_row) list"

definition upsert_listing :: "gotime \<Rightarrow> listing_record \<Rightarrow> history \<Rightarrow> history" where
  "upsert_listing now r hs =
    (let k = (lr_Token r, lr_ChatID r) in
     AList.update k (case map_of hs k of None \<Rightarrow> new_row now r | Some h \<Rightarrow> merge_row now r h) hs)"

definition SaveListing :: "gotime \<Rightarrow> listing_record \<Rightarrow> 'z db_scheme \<Rightarrow> (db_error + unit) \<times> 'z db_scheme" where
  "SaveListing now r = db_call (DbError ''save listing'') (\<lambda>d. (Inr (), d\<lparr>db_history := upsert_listing now r (db_history d)\<rparr>))"

definition SaveListings :: "gotime \<Rightarrow> listing_record list \<Rightarrow> 'z db_scheme \<Rightarrow> (db_error + unit) \<times> 'z db_scheme" where
  "SaveListings now rs d =
    (if rs = [] then (Inr (), d)
     else db_call (DbError ''save listings'') (\<lambda>d. (Inr (), d\<lparr>db_history := fold (upsert_listing now) rs (db_history d)\<rparr>)) d)"

text \<open>\<open>backfillListingSQL\<close> fills only what is missing, in the rows of a token of every chat.\<close>

definition backfill_row :: "listing_record \<Rightarrow> history_row \<Rightarrow> history_row" where
  "backfill_row r h =
    (if lr_Km h \<le> 0 \<or> lr_City h = '''' \<or> lr_ImageURL h = '''' \<or> lr_BodyType h = '''' then
       h\<lparr>lr_Km := (if lr_Km r > 0 \<and> lr_Km h \<le> 0 then lr_Km r else lr_Km h),
         lr_City := (if lr_City r \<noteq> '''' \<and> lr_City h = '''' then lr_City r else lr_City h),
         lr_ImageURL := (if lr_ImageURL r \<noteq> '''' \<and> lr_ImageURL h = '''' then lr_ImageURL r else lr_ImageURL h),
         lr_BodyType := (if lr_BodyType r \<noteq> '''' \<and> lr_BodyType h = '''' then lr_BodyType r else lr_BodyType h)\<rparr>
     else h)"

definition update_token :: "string \<Rightarrow> (history_row \<Rightarrow> history_row) \<Rightarrow> history \<Rightarrow> history" where
  "update_token tok f hs = map (\<lambda>(k, h). (k, if fst k = tok then f h else h)) hs"

definition BackfillListings :: "listing_record list \<Rightarrow> 'z db_scheme \<Rightarrow> (db_error + unit) \<times> 'z db_scheme" where
  "BackfillListings rs d =
    (if rs = [] then (Inr (), d)
     else db_call (DbError ''backfill'') (\<lambda>d.
       (Inr (), d\<lparr>db_history := fold (\<lambda>r. update_token (lr_Token r) (backfill_row r)) rs (db_history d)\<rparr>)) d)"

text \<open>\<open>SELECT DISTINCT ON (token) ... ORDER BY token, first_seen_at DESC\<close>: the newest row with any of the data.\<close>

definition newest_row :: "(history_row \<Rightarrow> bool) \<Rightarrow> string \<Rightarrow> history \<Rightarrow> history_row option" where
  "newest_row ok tok hs =
    (case sort_key (\<lambda>h. - lr_FirstSeenAt h) (map snd (filter (\<lambda>(k, h). fst k = tok \<and> ok h) hs)) of
       [] \<Rightarrow> None | h # _ \<Rightarrow> Some h)"

definition has_enrichment :: "history_row \<Rightarrow> bool" where
  "has_enrichment h \<longleftrightarrow> lr_Km h > 0 \<or> lr_City h \<noteq> '''' \<or> lr_ImageURL h \<noteq> ''''"

definition enrichment_of :: "history_row \<Rightarrow> enrichment_record" where
  "enrichment_of h = \<lparr>er_Manufacturer = lr_Manufacturer h, er_Model = lr_Model h, er_Year = lr_Year h, er_Price = lr_Price h,
     er_SearchName = lr_SearchName h, er_Km = lr_Km h, er_City = lr_City h, er_ImageURL = lr_ImageURL h, er_BodyType = lr_BodyType h\<rparr>"

definition LookupEnrichmentData :: "string list \<Rightarrow> 'z db_scheme \<Rightarrow> (db_error + (string \<rightharpoonup> enrichment_record)) \<times> 'z db_scheme" where
  "LookupEnrichmentData tokens d =
    (if tokens = [] then (Inr Map.empty, d)
     else db_call (DbError ''lookup enrichment data'') (\<lambda>d.
       (Inr (\<lambda>tok. if tok \<in> set tokens then map_option enrichment_of (newest_row has_enrichment tok (db_history d)) else None), d)) d)"

definition LookupListingIdentity :: "string \<Rightarrow> 'z db_scheme \<Rightarrow> (db_error + history_row) \<times> 'z db_scheme" where
  "LookupListingIdentity tok = db_call (DbError ''lookup listing identity'') (\<lambda>d.
     case newest_row (\<lambda>_. True) tok (db_history d) of None \<Rightarrow> (Inl NotFound, d) | Some h \<Rightarrow> (Inr h, d))"

subsection \<open>Retiring listings\<close>

definition bookmarked :: "'z db_scheme \<Rightarrow> string \<times> int \<Rightarrow> bool" where
  "bookmarked d k \<longleftrightarrow> (snd k, fst k) \<in> set (db_saved d)"

text \<open>The two statements of the three retiring transactions: flag the bookmarked rows, delete the others.\<close>

definition mark_removed :: "gotime \<Rightarrow> (string \<times> int \<Rightarrow> history_row \<Rightarrow> bool) \<Rightarrow> 'z db_scheme \<Rightarrow> 'z db_scheme" where
  "mark_removed now sel d = d\<lparr>db_history := map (\<lambda>(k, h).
     (k, if sel k h \<and> lr_RemovedAt h = None \<and> bookmarked d k then h\<lparr>lr_RemovedAt := Some now\<rparr> else h)) (db_history d)\<rparr>"

definition delete_unsaved :: "(string \<times> int \<Rightarrow> history_row \<Rightarrow> bool) \<Rightarrow> 'z db_scheme \<Rightarrow> nat \<times> 'z db_scheme" where
  "delete_unsaved sel d =
    (let gone = \<lambda>(k, h). sel k h \<and> \<not> bookmarked d k
     in (length (filter gone (db_history d)), d\<lparr>db_history := filter (\<lambda>x. \<not> gone x) (db_history d)\<rparr>))"

definition retire :: "gotime \<Rightarrow> (string \<times> int \<Rightarrow> history_row \<Rightarrow> bool) \<Rightarrow> 'z db_scheme \<Rightarrow> (db_error + nat) \<times> 'z db_scheme" where
  "retire now sel d = (case delete_unsaved sel (mark_removed now sel d) of (n, d') \<Rightarrow> (Inr n, d'))"

definition DropListingByToken :: "gotime \<Rightarrow> string \<Rightarrow> 'z db_scheme \<Rightarrow> (db_error + nat) \<times> 'z db_scheme" where
  "DropListingByToken now tok = db_call (DbError ''drop listing'') (retire now (\<lambda>k h. fst k = tok))"

definition MarkListingsRemoved :: "gotime \<Rightarrow> int \<Rightarrow> string list \<Rightarrow> 'z db_scheme \<Rightarrow> (db_error + nat) \<times> 'z db_scheme" where
  "MarkListingsRemoved now chatID tokens d =
    (if tokens = [] then (Inr 0, d)
     else db_call (DbError ''mark removed'') (retire now (\<lambda>k h. snd k = chatID \<and> fst k \<in> set tokens)) d)"

definition DeleteStaleListings :: "gotime \<Rightarrow> int \<Rightarrow> int \<Rightarrow> string list \<Rightarrow> 'z db_scheme \<Rightarrow> (db_error + nat) \<times> 'z db_scheme" where
  "DeleteStaleListings now chatID searchID keepTokens = db_call (DbError ''delete stale'')
     (retire now (\<lambda>k h. snd k = chatID \<and> lr_SearchID h = searchID \<and> (keepTokens \<noteq> [] \<longrightarrow> fst k \<notin> set keepTokens)))"

definition PruneListings :: "gotime \<Rightarrow> duration \<Rightarrow> 'z db_scheme \<Rightarrow> (db_error + nat) \<times> 'z db_scheme" where
  "PruneListings now olderThan = db_call (DbError ''prune listings'') (\<lambda>d.
     case delete_unsaved (\<lambda>k h. hr_last_seen h < now - olderThan) d of (n, d') \<Rightarrow> (Inr n, d'))"

subsection \<open>Enrichment counters\<close>

definition IncrementEnrichAttempt :: "gotime \<Rightarrow> string \<Rightarrow> 'z db_scheme \<Rightarrow> (db_error + unit) \<times> 'z db_scheme" where
  "IncrementEnrichAttempt now tok = db_call (DbError '''') (\<lambda>d.
     (Inr (), d\<lparr>db_history := update_token tok (\<lambda>h. h\<lparr>hr_attempts := hr_attempts h + 1, hr_last_enrich := Some now\<rparr>) (db_history d)\<rparr>))"

definition ListEnrichExhaustedTokens :: "string list \<Rightarrow> int \<Rightarrow> 'z db_scheme \<Rightarrow> (db_error + (string \<Rightarrow> bool)) \<times> 'z db_scheme" where
  "ListEnrichExhaustedTokens tokens maxAttempts d =
    (if tokens = [] then (Inr (\<lambda>_. False), d)
     else db_call (DbError ''list enrich exhausted tokens'') (\<lambda>d.
       (Inr (\<lambda>tok. tok \<in> set tokens \<and> (\<exists>(k, h) \<in> set (db_history d). fst k = tok \<and> hr_attempts h \<ge> maxAttempts)), d)) d)"

definition missing_fields :: "history_row \<Rightarrow> bool" where
  "missing_fields h \<longleftrightarrow> lr_Km h \<le> 0 \<or> lr_City h = '''' \<or> lr_ImageURL h = '''' \<or> lr_OriginalOwnership h \<in> {None, Some ''''}"

definition ResetUnenrichedAttempts :: "'z db_scheme \<Rightarrow> (db_error + nat) \<times> 'z db_scheme" where
  "ResetUnenrichedAttempts = db_call (DbError '''') (\<lambda>d.
     let hit = \<lambda>h. missing_fields h \<and> hr_attempts h > 0 \<and> hr_attempts h < 30
     in (Inr (length (filter (hit \<circ> snd) (db_history d))),
         d\<lparr>db_history := map (\<lambda>(k, h). (k, if hit h then h\<lparr>hr_attempts := 0\<rparr> else h)) (db_history d)\<rparr>))"

text \<open>\<open>ListUnenrichedTokens\<close>: the backlog, newest first.\<close>

definition backlog_row :: "gotime \<Rightarrow> search list \<Rightarrow> history_row \<Rightarrow> bool" where
  "backlog_row now searches h \<longleftrightarrow>
     (missing_fields h \<or> lr_BodyType h = '''') \<and> hr_attempts h < 10 \<and>
     (case hr_last_enrich h of None \<Rightarrow> True | Some t \<Rightarrow> t < now - hours 1) \<and>
     lr_FirstSeenAt h > now - hours (7 * 24) \<and>
     (\<exists>s \<in> set searches. s_ID s = lr_SearchID h \<and> s_ChatID s = lr_ChatID h \<and> s_Active s \<and>
       (s_PriceMax s = 0 \<or> lr_Price h \<le> s_PriceMax s) \<and> (s_PriceMin s = 0 \<or> lr_Price h \<ge> s_PriceMin s) \<and>
       (s_YearMin s = 0 \<or> lr_Year h \<ge> s_YearMin s) \<and> (s_YearMax s = 0 \<or> lr_Year h \<le> s_YearMax s))"

definition ListUnenrichedTokens :: "gotime \<Rightarrow> int \<Rightarrow> 'z db_scheme \<Rightarrow> (db_error + string list) \<times> 'z db_scheme" where
  "ListUnenrichedTokens now limit = db_call (DbError '''') (\<lambda>d.
     let n = (if limit \<le> 0 then 50 else limit);
         toks = remdups (map (fst \<circ> fst) (filter (\<lambda>(k, h). backlog_row now (db_searches d) h) (db_history d)));
         newest = \<lambda>tok. (case newest_row (backlog_row now (db_searches d)) tok (db_history d) of None \<Rightarrow> 0 | Some h \<Rightarrow> lr_FirstSeenAt h)
     in (Inr (take (nat n) (sort_key (\<lambda>tok. - newest tok) toks)), d))"

definition ListHiddenTokens :: "int \<Rightarrow> 'z db_scheme \<Rightarrow> (db_error + (string \<Rightarrow> bool)) \<times> 'z db_scheme" where
  "ListHiddenTokens chatID = db_call (DbError '''') (\<lambda>d. (Inr (\<lambda>tok. (chatID, tok) \<in> set (db_hidden d)), d))"

subsection \<open>Lemmas\<close>

lemma map_of_map_pairs: "map_of (map (\<lambda>(k, h). (k, f k h)) xs) k = map_option (f k) (map_of xs k)"
  by (induction xs) auto

lemma map_of_filter_keep:
  "map_of xs k = Some v \<Longrightarrow> P (k, v) \<Longrightarrow> map_of (filter P xs) k = Some v"
  by (induction xs) (auto split: if_splits)

lemma map_of_filter_keep_key:
  "(\<And>v. P (k, v)) \<Longrightarrow> map_of (filter P xs) k = map_of xs k"
  by (induction xs) auto

lemma db_saved_simps [simp]:
  "bookmarked (d\<lparr>db_faults := fs\<rparr>) = bookmarked d"
  "bookmarked (mark_removed now sel d) = bookmarked d"
  "bookmarked (snd (delete_unsaved sel d)) = bookmarked d"
  by (simp_all add: bookmarked_def mark_removed_def delete_unsaved_def Let_def fun_eq_iff)

lemma newest_row_mem: "newest_row ok tok hs = Some h \<Longrightarrow> (\<exists>k. (k, h) \<in> set hs \<and> fst k = tok) \<and> ok h"
proof -
  assume n: "newest_row ok tok hs = Some h"
  have "h \<in> set (sort_key (\<lambda>h. - lr_FirstSeenAt h) (map snd (filter (\<lambda>(k, h). fst k = tok \<and> ok h) hs)))"
    using n unfolding newest_row_def
    by (cases "sort_key (\<lambda>h. - lr_FirstSeenAt h) (map snd (filter (\<lambda>(k, h). fst k = tok \<and> ok h) hs))") (simp_all del: set_sort)
  then show ?thesis by auto
qed

lemma map_of_mark_removed:
  "map_of (db_history (mark_removed now sel d)) k = map_option (\<lambda>h.
     if sel k h \<and> lr_RemovedAt h = None \<and> bookmarked d k then h\<lparr>lr_RemovedAt := Some now\<rparr> else h) (map_of (db_history d) k)"
  by (simp add: mark_removed_def map_of_map_pairs)

lemma delete_unsaved_saved:
  "bookmarked d k \<Longrightarrow> map_of (db_history (snd (delete_unsaved sel d))) k = map_of (db_history d) k"
  by (simp add: delete_unsaved_def Let_def map_of_filter_keep_key)

lemma delete_unsaved_unselected:
  "(\<And>h. \<not> sel k h) \<Longrightarrow> map_of (db_history (snd (delete_unsaved sel d))) k = map_of (db_history d) k"
  by (simp add: delete_unsaved_def Let_def map_of_filter_keep_key)

datatype retire_op = Drop gotime string | MarkGone gotime int "string list" | Stale gotime int int "string list" | PruneOld gotime duration

fun run_retire :: "retire_op list \<Rightarrow> 'z db_scheme \<Rightarrow> 'z db_scheme" where
  "run_retire [] d = d"
| "run_retire (Drop now tok # ops) d = run_retire ops (snd (DropListingByToken now tok d))"
| "run_retire (MarkGone now chat toks # ops) d = run_retire ops (snd (MarkListingsRemoved now chat toks d))"
| "run_retire (Stale now chat sid keep # ops) d = run_retire ops (snd (DeleteStaleListings now chat sid keep d))"
| "run_retire (PruneOld now age # ops) d = run_retire ops (snd (PruneListings now age d))"

text \<open>A row that may be flagged removed, and is otherwise as it was.\<close>

definition kept_as :: "history_row \<Rightarrow> history_row option \<Rightarrow> bool" where
  "kept_as h r \<longleftrightarrow> (\<exists>t. r = Some (h\<lparr>lr_RemovedAt := t\<rparr>) \<and> (lr_RemovedAt h \<noteq> None \<longrightarrow> t = lr_RemovedAt h))"

lemma kept_as_refl [simp]: "kept_as h (Some h)"
  unfolding kept_as_def by (rule exI [of _ "lr_RemovedAt h"]) simp

lemma kept_as_flag: "lr_RemovedAt h = None \<Longrightarrow> kept_as h (Some (h\<lparr>lr_RemovedAt := t\<rparr>))"
  unfolding kept_as_def by (rule exI [of _ t]) simp

lemma kept_as_trans:
  assumes "kept_as h (Some h')" "kept_as h' r"
  shows "kept_as h r"
proof -
  obtain t where t: "h' = h\<lparr>lr_RemovedAt := t\<rparr>" "lr_RemovedAt h \<noteq> None \<longrightarrow> t = lr_RemovedAt h"
    using assms(1) unfolding kept_as_def by blast
  obtain u where u: "r = Some (h'\<lparr>lr_RemovedAt := u\<rparr>)" "lr_RemovedAt h' \<noteq> None \<longrightarrow> u = lr_RemovedAt h'"
    using assms(2) unfolding kept_as_def by blast
  show ?thesis unfolding kept_as_def using t u by (intro exI [of _ u]) simp
qed

lemma kept_as_step: "kept_as h r \<Longrightarrow> (\<And>h'. r = Some h' \<Longrightarrow> kept_as h' r') \<Longrightarrow> kept_as h r'"
  by (metis kept_as_def kept_as_trans)

lemma retire_bookmarked:
  assumes "bookmarked d k" "map_of (db_history d) k = Some h" "retire now sel d = (r, d')"
  shows "kept_as h (map_of (db_history d') k) \<and> bookmarked d' = bookmarked d"
proof -
  have d': "d' = snd (delete_unsaved sel (mark_removed now sel d))"
    using assms(3) by (auto simp: retire_def split: prod.splits)
  show ?thesis
    using assms(1,2) by (auto simp: d' delete_unsaved_saved map_of_mark_removed kept_as_flag)
qed

lemma db_call_bookmarked:
  assumes "\<And>d r d'. bookmarked d k \<Longrightarrow> map_of (db_history d) k = Some h \<Longrightarrow> f d = (r, d') \<Longrightarrow>
      kept_as h (map_of (db_history d') k) \<and> bookmarked d' = bookmarked d"
    and "bookmarked d k" "map_of (db_history d) k = Some h"
  shows "kept_as h (map_of (db_history (snd (db_call err f d))) k) \<and> bookmarked (snd (db_call err f d)) = bookmarked d"
proof (cases rule: db_call_cases [of err f d])
  case (1 fs)
  then show ?thesis using assms(3) by simp
next
  case (2 fs)
  obtain r d' where f: "f (d\<lparr>db_faults := fs\<rparr>) = (r, d')" by (cases "f (d\<lparr>db_faults := fs\<rparr>)")
  have "kept_as h (map_of (db_history d') k) \<and> bookmarked d' = bookmarked (d\<lparr>db_faults := fs\<rparr>)"
    by (rule assms(1) [OF _ _ f]) (use assms(2,3) in simp_all)
  with 2 f show ?thesis by simp
qed

lemma retire_ops_bookmarked:
  assumes "bookmarked d k" "map_of (db_history d) k = Some h"
  shows "kept_as h (map_of (db_history (snd (DropListingByToken now tok d))) k) \<and> bookmarked (snd (DropListingByToken now tok d)) = bookmarked d"
    "kept_as h (map_of (db_history (snd (MarkListingsRemoved now chat toks d))) k) \<and> bookmarked (snd (MarkListingsRemoved now chat toks d)) = bookmarked d"
    "kept_as h (map_of (db_history (snd (DeleteStaleListings now chat sid keep d))) k) \<and> bookmarked (snd (DeleteStaleListings now chat sid keep d)) = bookmarked d"
    "kept_as h (map_of (db_history (snd (PruneListings now age d))) k) \<and> bookmarked (snd (PruneListings now age d)) = bookmarked d"
proof -
  show "kept_as h (map_of (db_history (snd (DropListingByToken now tok d))) k) \<and> bookmarked (snd (DropListingByToken now tok d)) = bookmarked d"
    "kept_as h (map_of (db_history (snd (DeleteStaleListings now chat sid keep d))) k) \<and> bookmarked (snd (DeleteStaleListings now chat sid keep d)) = bookmarked d"
    unfolding DropListingByToken_def DeleteStaleListings_def
    by (rule db_call_bookmarked [OF _ assms], rule retire_bookmarked, assumption+)+
  show "kept_as h (map_of (db_history (snd (MarkListingsRemoved now chat toks d))) k) \<and> bookmarked (snd (MarkListingsRemoved now chat toks d)) = bookmarked d"
  proof (cases "toks = []")
    case True
    then show ?thesis using assms by (simp add: MarkListingsRemoved_def)
  next
    case False
    then show ?thesis unfolding MarkListingsRemoved_def if_not_P [OF False]
      by (intro db_call_bookmarked [OF _ assms] retire_bookmarked)
  qed
  show "kept_as h (map_of (db_history (snd (PruneListings now age d))) k) \<and> bookmarked (snd (PruneListings now age d)) = bookmarked d"
    unfolding PruneListings_def
  proof (rule db_call_bookmarked [OF _ assms])
    fix d :: "'a db_scheme" and r d'
    assume "bookmarked d k" "map_of (db_history d) k = Some h"
      "(case delete_unsaved (\<lambda>k h. hr_last_seen h < now - age) d of (n, d') \<Rightarrow> (Inr n, d')) = ((r :: db_error + nat), d')"
    moreover from this have "d' = snd (delete_unsaved (\<lambda>k h. hr_last_seen h < now - age) d)"
      by (auto split: prod.splits)
    ultimately show "kept_as h (map_of (db_history d') k) \<and> bookmarked d' = bookmarked d"
      by (simp add: delete_unsaved_saved)
  qed
qed

lemma run_retire_bookmarked:
  "bookmarked d k \<Longrightarrow> map_of (db_history d) k = Some h \<Longrightarrow> kept_as h (map_of (db_history (run_retire ops d)) k)"
proof (induction ops d arbitrary: h rule: run_retire.induct)
  case (1 d)
  then show ?case by simp
next
  case (2 now tok ops d)
  note R = retire_ops_bookmarked(1) [OF 2(2,3), of now tok]
  have "kept_as h' (map_of (db_history (run_retire ops (snd (DropListingByToken now tok d)))) k)" if "map_of (db_history (snd (DropListingByToken now tok d))) k = Some h'" for h'
    using 2(1) [OF _ that] 2(2) R by simp
  then show ?case using R by (auto intro: kept_as_step)
next
  case (3 now chat toks ops d)
  note R = retire_ops_bookmarked(2) [OF 3(2,3), of now chat toks]
  have "kept_as h' (map_of (db_history (run_retire ops (snd (MarkListingsRemoved now chat toks d)))) k)" if "map_of (db_history (snd (MarkListingsRemoved now chat toks d))) k = Some h'" for h'
    using 3(1) [OF _ that] 3(2) R by simp
  then show ?case using R by (auto intro: kept_as_step)
next
  case (4 now chat sid keep ops d)
  note R = retire_ops_bookmarked(3) [OF 4(2,3), of now chat sid keep]
  have "kept_as h' (map_of (db_history (run_retire ops (snd (DeleteStaleListings now chat sid keep d)))) k)" if "map_of (db_history (snd (DeleteStaleListings now chat sid keep d))) k = Some h'" for h'
    using 4(1) [OF _ that] 4(2) R by simp
  then show ?case using R by (auto intro: kept_as_step)
next
  case (5 now age ops d)
  note R = retire_ops_bookmarked(4) [OF 5(2,3), of now age]
  have "kept_as h' (map_of (db_history (run_retire ops (snd (PruneListings now age d)))) k)" if "map_of (db_history (snd (PruneListings now age d))) k = Some h'" for h'
    using 5(1) [OF _ that] 5(2) R by simp
  then show ?case using R by (auto intro: kept_as_step)
qed

text \<open>What is known of a listing stays known: positive numbers stay positive, texts stay nonempty, options stay set; the row stays that
  of the same listing and chat, first seen at the same time, and is not flagged as removed when it was not.\<close>

definition known_kept :: "history_row \<Rightarrow> history_row \<Rightarrow> bool" where
  "known_kept h h' \<longleftrightarrow>
     (lr_SubModelID h > 0 \<longrightarrow> lr_SubModelID h' > 0) \<and> (lr_Year h > 0 \<longrightarrow> lr_Year h' > 0) \<and> (lr_Price h > 0 \<longrightarrow> lr_Price h' > 0) \<and>
     (lr_Km h > 0 \<longrightarrow> lr_Km h' > 0) \<and> (lr_Hand h > 0 \<longrightarrow> lr_Hand h' > 0) \<and> (lr_HorsePower h > 0 \<longrightarrow> lr_HorsePower h' > 0) \<and>
     (lr_SearchID h > 0 \<longrightarrow> lr_SearchID h' > 0) \<and> (lr_EngineVolume h > 0 \<longrightarrow> lr_EngineVolume h' > 0) \<and>
     (lr_Manufacturer h \<noteq> [] \<longrightarrow> lr_Manufacturer h' \<noteq> []) \<and> (lr_Model h \<noteq> [] \<longrightarrow> lr_Model h' \<noteq> []) \<and> (lr_SubModel h \<noteq> [] \<longrightarrow> lr_SubModel h' \<noteq> []) \<and>
     (lr_BodyType h \<noteq> [] \<longrightarrow> lr_BodyType h' \<noteq> []) \<and> (lr_City h \<noteq> [] \<longrightarrow> lr_City h' \<noteq> []) \<and> (lr_PageLink h \<noteq> [] \<longrightarrow> lr_PageLink h' \<noteq> []) \<and>
     (lr_ImageURL h \<noteq> [] \<longrightarrow> lr_ImageURL h' \<noteq> []) \<and> (lr_EngineType h \<noteq> [] \<longrightarrow> lr_EngineType h' \<noteq> []) \<and> (lr_GearBox h \<noteq> [] \<longrightarrow> lr_GearBox h' \<noteq> []) \<and>
     (lr_Description h \<noteq> [] \<longrightarrow> lr_Description h' \<noteq> []) \<and>
     (lr_IsCommercial h \<noteq> None \<longrightarrow> lr_IsCommercial h' \<noteq> None) \<and> (lr_FitnessScore h \<noteq> None \<longrightarrow> lr_FitnessScore h' \<noteq> None) \<and>
     (lr_MedianPrice h \<noteq> None \<longrightarrow> lr_MedianPrice h' \<noteq> None) \<and> (lr_CohortSize h \<noteq> None \<longrightarrow> lr_CohortSize h' \<noteq> None) \<and>
     (lr_DealScore h \<noteq> None \<longrightarrow> lr_DealScore h' \<noteq> None) \<and> (lr_BasePrice h \<noteq> None \<longrightarrow> lr_BasePrice h' \<noteq> None) \<and>
     (lr_PostedAt h \<noteq> None \<longrightarrow> lr_PostedAt h' \<noteq> None) \<and> (lr_ScoreCondition h \<noteq> None \<longrightarrow> lr_ScoreCondition h' \<noteq> None) \<and>
     (lr_ScoreValue h \<noteq> None \<longrightarrow> lr_ScoreValue h' \<noteq> None) \<and> (lr_ScoreEngine h \<noteq> None \<longrightarrow> lr_ScoreEngine h' \<noteq> None) \<and>
     (lr_OriginalOwnership h \<noteq> None \<longrightarrow> lr_OriginalOwnership h' \<noteq> None) \<and>
     lr_Token h' = lr_Token h \<and> lr_ChatID h' = lr_ChatID h \<and> lr_FirstSeenAt h' = lr_FirstSeenAt h \<and>
     (lr_RemovedAt h = None \<longrightarrow> lr_RemovedAt h' = None)"

text \<open>Where the values come from: each is the old one, or that of one of the records \<open>R\<close>.\<close>

definition values_from :: "listing_record set \<Rightarrow> history_row \<Rightarrow> history_row \<Rightarrow> bool" where
  "values_from R h h' \<longleftrightarrow>
     lr_SearchID h' \<in> insert (lr_SearchID h) (lr_SearchID ` R) \<and> lr_SearchName h' \<in> insert (lr_SearchName h) (lr_SearchName ` R) \<and>
     lr_SubModelID h' \<in> insert (lr_SubModelID h) (lr_SubModelID ` R) \<and> lr_Year h' \<in> insert (lr_Year h) (lr_Year ` R) \<and>
     lr_Price h' \<in> insert (lr_Price h) (lr_Price ` R) \<and> lr_Km h' \<in> insert (lr_Km h) (lr_Km ` R) \<and>
     lr_Hand h' \<in> insert (lr_Hand h) (lr_Hand ` R) \<and> lr_HorsePower h' \<in> insert (lr_HorsePower h) (lr_HorsePower ` R) \<and>
     lr_EngineVolume h' \<in> insert (lr_EngineVolume h) (lr_EngineVolume ` R) \<and> lr_Manufacturer h' \<in> insert (lr_Manufacturer h) (lr_Manufacturer ` R) \<and>
     lr_Model h' \<in> insert (lr_Model h) (lr_Model ` R) \<and> lr_SubModel h' \<in> insert (lr_SubModel h) (lr_SubModel ` R) \<and>
     lr_BodyType h' \<in> insert (lr_BodyType h) (lr_BodyType ` R) \<and> lr_City h' \<in> insert (lr_City h) (lr_City ` R) \<and>
     lr_PageLink h' \<in> insert (lr_PageLink h) (lr_PageLink ` R) \<and> lr_ImageURL h' \<in> insert (lr_ImageURL h) (lr_ImageURL ` R) \<and>
     lr_EngineType h' \<in> insert (lr_EngineType h) (lr_EngineType ` R) \<and> lr_GearBox h' \<in> insert (lr_GearBox h) (lr_GearBox ` R) \<and>
     lr_Description h' \<in> insert (lr_Description h) (lr_Description ` R) \<and> lr_IsCommercial h' \<in> insert (lr_IsCommercial h) (lr_IsCommercial ` R) \<and>
     lr_FitnessScore h' \<in> insert (lr_FitnessScore h) (lr_FitnessScore ` R) \<and> lr_MedianPrice h' \<in> insert (lr_MedianPrice h) (lr_MedianPrice ` R) \<and>
     lr_CohortSize h' \<in> insert (lr_CohortSize h) (lr_CohortSize ` R) \<and> lr_DealScore h' \<in> insert (lr_DealScore h) (lr_DealScore ` R) \<and>
     lr_BasePrice h' \<in> insert (lr_BasePrice h) (lr_BasePrice ` R) \<and> lr_PostedAt h' \<in> insert (lr_PostedAt h) (lr_PostedAt ` R) \<and>
     lr_ScoreCondition h' \<in> insert (lr_ScoreCondition h) (lr_ScoreCondition ` R) \<and> lr_ScoreValue h' \<in> insert (lr_ScoreValue h) (lr_ScoreValue ` R) \<and>
     lr_ScoreEngine h' \<in> insert (lr_ScoreEngine h) (lr_ScoreEngine ` R) \<and> lr_OriginalOwnership h' \<in> insert (lr_OriginalOwnership h) (lr_OriginalOwnership ` R)"

lemma known_kept_refl [simp]: "known_kept h h"
  by (simp add: known_kept_def)

lemma known_kept_trans: "known_kept h h' \<Longrightarrow> known_kept h' h'' \<Longrightarrow> known_kept h h''"
  by (simp add: known_kept_def)

lemma insert_trans: "x'' \<in> insert x' S \<Longrightarrow> x' \<in> insert x S \<Longrightarrow> x'' \<in> insert x S"
  by auto

lemma values_from_refl [simp]: "values_from R h h"
  by (simp add: values_from_def)

lemma values_from_trans: "values_from R h h' \<Longrightarrow> values_from R h' h'' \<Longrightarrow> values_from R h h''"
  unfolding values_from_def by (elim conjE, intro conjI; erule insert_trans, assumption)

text \<open>The three ways in which the statements take one value over another.\<close>

lemma coalesce_value: "r \<in> R \<Longrightarrow> coalesce (q r) c \<in> insert c (q ` R)"
  by (cases "q r") (auto simp: coalesce_def intro: image_eqI [of _ q r])

lemma taken_value:
  "r \<in> R \<Longrightarrow> pos_or (f r) a \<in> insert a (f ` R)" "r \<in> R \<Longrightarrow> text_or (g r) b \<in> insert b (g ` R)"
  "r \<in> R \<Longrightarrow> (if P then u r else d) \<in> insert d (u ` R)"
  by (auto simp: pos_or_def text_or_def)

lemma taken_kept:
  "0 < a \<longrightarrow> 0 < pos_or x a" "b \<noteq> [] \<longrightarrow> text_or y b \<noteq> []" "c \<noteq> None \<longrightarrow> coalesce z c \<noteq> None" "0 < d \<longrightarrow> 0 < (if 0 < u then u else d)"
  for u d :: "'a :: linordered_idom"
  by (auto simp: pos_or_def text_or_def coalesce_def split: option.split)

lemma merge_row_fields:
  "lr_SearchID (merge_row now r h) = (if lr_SearchID r > 0 then lr_SearchID r else lr_SearchID h)"
  "lr_SearchName (merge_row now r h) = (if lr_SearchID r > 0 then lr_SearchName r else lr_SearchName h)"
  "lr_Manufacturer (merge_row now r h) = text_or (lr_Manufacturer r) (lr_Manufacturer h)"
  "lr_Model (merge_row now r h) = text_or (lr_Model r) (lr_Model h)"
  "lr_SubModel (merge_row now r h) = text_or (lr_SubModel r) (lr_SubModel h)"
  "lr_SubModelID (merge_row now r h) = pos_or (lr_SubModelID r) (lr_SubModelID h)"
  "lr_BodyType (merge_row now r h) = text_or (lr_BodyType r) (lr_BodyType h)"
  "lr_Year (merge_row now r h) = pos_or (lr_Year r) (lr_Year h)"
  "lr_Price (merge_row now r h) = pos_or (lr_Price r) (lr_Price h)"
  "lr_Km (merge_row now r h) = pos_or (lr_Km r) (lr_Km h)"
  "lr_Hand (merge_row now r h) = pos_or (lr_Hand r) (lr_Hand h)"
  "lr_City (merge_row now r h) = text_or (lr_City r) (lr_City h)"
  "lr_PageLink (merge_row now r h) = text_or (lr_PageLink r) (lr_PageLink h)"
  "lr_ImageURL (merge_row now r h) = text_or (lr_ImageURL r) (lr_ImageURL h)"
  "lr_EngineVolume (merge_row now r h) = (if lr_EngineVolume r > 0 then lr_EngineVolume r else lr_EngineVolume h)"
  "lr_HorsePower (merge_row now r h) = pos_or (lr_HorsePower r) (lr_HorsePower h)"
  "lr_EngineType (merge_row now r h) = text_or (lr_EngineType r) (lr_EngineType h)"
  "lr_GearBox (merge_row now r h) = text_or (lr_GearBox r) (lr_GearBox h)"
  "lr_Description (merge_row now r h) = text_or (lr_Description r) (lr_Description h)"
  "lr_IsCommercial (merge_row now r h) = coalesce (lr_IsCommercial r) (lr_IsCommercial h)"
  "lr_FitnessScore (merge_row now r h) = coalesce (lr_FitnessScore r) (lr_FitnessScore h)"
  "lr_MedianPrice (merge_row now r h) = coalesce (lr_MedianPrice r) (lr_MedianPrice h)"
  "lr_CohortSize (merge_row now r h) = coalesce (lr_CohortSize r) (lr_CohortSize h)"
  "lr_DealScore (merge_row now r h) = coalesce (lr_DealScore r) (lr_DealScore h)"
  "lr_BasePrice (merge_row now r h) = coalesce (lr_BasePrice r) (lr_BasePrice h)"
  "lr_PostedAt (merge_row now r h) = coalesce (lr_PostedAt r) (lr_PostedAt h)"
  "lr_RemovedAt (merge_row now r h) = None"
  "hr_last_seen (merge_row now r h) = now"
  "lr_ScoreCondition (merge_row now r h) = coalesce (lr_ScoreCondition r) (lr_ScoreCondition h)"
  "lr_ScoreValue (merge_row now r h) = coalesce (lr_ScoreValue r) (lr_ScoreValue h)"
  "lr_ScoreEngine (merge_row now r h) = coalesce (lr_ScoreEngine r) (lr_ScoreEngine h)"
  "lr_OriginalOwnership (merge_row now r h) = coalesce (lr_OriginalOwnership r) (lr_OriginalOwnership h)"
  "lr_Token (merge_row now r h) = lr_Token h"
  "lr_ChatID (merge_row now r h) = lr_ChatID h"
  "lr_FirstSeenAt (merge_row now r h) = lr_FirstSeenAt h"
  by (simp_all add: merge_row_def)

lemma merge_row_values: "r \<in> R \<Longrightarrow> values_from R h (merge_row now r h)"
  unfolding values_from_def merge_row_fields by (intro conjI; erule taken_value coalesce_value)

lemma backfill_row_values: "r \<in> R \<Longrightarrow> values_from R h (backfill_row r h)"
  by (simp add: values_from_def backfill_row_def)

lemma merge_row_known: "known_kept h (merge_row now r h)"
  unfolding known_kept_def merge_row_fields by (intro conjI; (rule taken_kept refl TrueI | simp))

lemma backfill_row_known: "known_kept h (backfill_row r h)"
  by (simp add: known_kept_def backfill_row_def)

text \<open>Both facts together, for the folds over the records.\<close>

definition grows_from :: "listing_record set \<Rightarrow> history_row \<Rightarrow> history_row \<Rightarrow> bool" where
  "grows_from R h h' \<longleftrightarrow> known_kept h h' \<and> values_from R h h'"

lemma grows_refl [simp]: "grows_from R h h"
  by (simp add: grows_from_def)

lemma grows_trans: "grows_from R h h' \<Longrightarrow> grows_from R h' h'' \<Longrightarrow> grows_from R h h''"
  unfolding grows_from_def using known_kept_trans values_from_trans by blast

lemma upsert_known:
  assumes "map_of hs k = Some h" "r \<in> R"
  shows "\<exists>h'. map_of (upsert_listing now r hs) k = Some h' \<and> grows_from R h h'"
proof (cases "k = (lr_Token r, lr_ChatID r)")
  case True
  then have "map_of (upsert_listing now r hs) k = Some (merge_row now r h)"
    using assms by (simp add: upsert_listing_def Let_def update_conv')
  then show ?thesis using merge_row_known merge_row_values [OF assms(2)] by (auto simp: grows_from_def)
next
  case False
  then have "map_of (upsert_listing now r hs) k = Some h"
    using assms by (simp add: upsert_listing_def Let_def update_conv')
  then show ?thesis by simp
qed

lemma update_token_known:
  "(\<And>h. grows_from R h (g h)) \<Longrightarrow> map_of hs k = Some h \<Longrightarrow> \<exists>h'. map_of (update_token tok g hs) k = Some h' \<and> grows_from R h h'"
  by (auto simp: update_token_def map_of_map_pairs [where f = "\<lambda>k h. if fst k = tok then g h else h"])

lemma fold_known:
  assumes "\<And>r hs h. r \<in> R \<Longrightarrow> map_of hs k = Some h \<Longrightarrow> \<exists>h'. map_of (f r hs) k = Some h' \<and> grows_from R h h'"
  shows "set rs \<subseteq> R \<Longrightarrow> map_of hs k = Some h \<Longrightarrow> \<exists>h'. map_of (fold f rs hs) k = Some h' \<and> grows_from R h h'"
proof (induction rs arbitrary: hs h)
  case (Cons r rs)
  from Cons.prems(1) have "r \<in> R" by simp
  from assms [OF this Cons.prems(2)] obtain h1 where h1: "map_of (f r hs) k = Some h1" "grows_from R h h1" by blast
  from Cons.IH [OF _ h1(1)] Cons.prems(1) h1(2) show ?case by (auto intro: grows_trans)
qed simp

lemma SaveListings_grows:
  assumes "map_of (db_history d) k = Some h" "set rs \<subseteq> R"
  shows "\<exists>h'. map_of (db_history (snd (SaveListings now rs d))) k = Some h' \<and> grows_from R h h'"
proof (cases "rs = []")
  case False
  have *: "\<exists>h'. map_of (fold (upsert_listing now) rs (db_history d)) k = Some h' \<and> grows_from R h h'"
    by (rule fold_known [OF _ assms(2,1)]) (rule upsert_known)
  show ?thesis unfolding SaveListings_def if_not_P [OF False]
    by (rule db_call_cases [of "DbError ''save listings''" "\<lambda>d. (Inr (), d\<lparr>db_history := fold (upsert_listing now) rs (db_history d)\<rparr>)" d])
      (use * assms in simp_all)
qed (use assms in \<open>simp add: SaveListings_def\<close>)

lemma BackfillListings_grows:
  assumes "map_of (db_history d) k = Some h" "set rs \<subseteq> R"
  shows "\<exists>h'. map_of (db_history (snd (BackfillListings rs d))) k = Some h' \<and> grows_from R h h'"
proof (cases "rs = []")
  case False
  let ?f = "\<lambda>r. update_token (lr_Token r) (backfill_row r)"
  have *: "\<exists>h'. map_of (fold ?f rs (db_history d)) k = Some h' \<and> grows_from R h h'"
  proof (rule fold_known [OF _ assms(2,1)])
    fix r and hs :: history and h
    assume "r \<in> R" "map_of hs k = Some h"
    then show "\<exists>h'. map_of (?f r hs) k = Some h' \<and> grows_from R h h'"
      by (intro update_token_known) (simp_all add: grows_from_def backfill_row_known backfill_row_values)
  qed
  show ?thesis unfolding BackfillListings_def if_not_P [OF False]
    by (rule db_call_cases [of "DbError ''backfill''" "\<lambda>d. (Inr (), d\<lparr>db_history := fold ?f rs (db_history d)\<rparr>)" d])
      (use * assms in simp_all)
qed (use assms in \<open>simp add: BackfillListings_def\<close>)

lemma SaveListings_known:
  "map_of (db_history d) k = Some h \<Longrightarrow> \<exists>h'. map_of (db_history (snd (SaveListings now rs d))) k = Some h' \<and> known_kept h h'"
  using SaveListings_grows [of d k h rs UNIV now] by (auto simp: grows_from_def)

lemma BackfillListings_known:
  "map_of (db_history d) k = Some h \<Longrightarrow> \<exists>h'. map_of (db_history (snd (BackfillListings rs d))) k = Some h' \<and> known_kept h h'"
  using BackfillListings_grows [of d k h rs UNIV] by (auto simp: grows_from_def)

subsection \<open>Properties\<close>

text \<open>C39. A listing a user has bookmarked is never deleted: under every sequence of the operations that retire or
  prune listings, with any of them failing, its row stays and changes at most by being flagged as removed, once.\<close>

theorem bookmarked_rows_survive:
  assumes "bookmarked d k" "map_of (db_history d) k = Some h"
  shows "\<exists>t. map_of (db_history (run_retire ops d)) k = Some (h\<lparr>lr_RemovedAt := t\<rparr>) \<and>
    (lr_RemovedAt h \<noteq> None \<longrightarrow> t = lr_RemovedAt h)"
  using run_retire_bookmarked [OF assms, of ops] unfolding kept_as_def by blast

definition sample_record :: listing_record where
  "sample_record = \<lparr>lr_Token = ''t'', lr_ChatID = 1, lr_SearchID = 2, lr_SearchName = ''a'', lr_Manufacturer = ''m'', lr_Model = ''x'',
     lr_SubModel = '''', lr_SubModelID = 0, lr_BodyType = '''', lr_Year = 2018, lr_Price = 50000, lr_Km = 90000, lr_Hand = 2,
     lr_City = ''c'', lr_PageLink = '''', lr_ImageURL = '''', lr_EngineVolume = 0, lr_HorsePower = 0, lr_EngineType = '''',
     lr_GearBox = '''', lr_Description = '''', lr_IsCommercial = None, lr_FitnessScore = None, lr_MedianPrice = None,
     lr_CohortSize = None, lr_DealScore = None, lr_BasePrice = None, lr_FirstSeenAt = 0, lr_PostedAt = None,
     lr_ScoreCondition = None, lr_ScoreValue = None, lr_ScoreEngine = None, lr_OriginalOwnership = None, lr_RemovedAt = None\<rparr>"

definition sample_history :: db where
  "sample_history = empty_db\<lparr>db_history := [((''t'', 1), new_row 0 sample_record)], db_saved := [(1, ''t'')]\<rparr>"

theorem bookmarked_rows_survive_witness:
  "map_of (db_history (run_retire [Stale 5 1 2 [''u''], PruneOld 900 100, Drop 901 ''t''] sample_history)) (''t'', 1) \<noteq> None"
proof -
  have "bookmarked sample_history (''t'', 1)" "map_of (db_history sample_history) (''t'', 1) = Some (new_row 0 sample_record)"
    by (simp_all add: sample_history_def bookmarked_def)
  from bookmarked_rows_survive [OF this] show ?thesis by fastforce
qed



text \<open>An ingest push can only retire listings of its own chat: the rows of all other users stay as they are,
  whatever tokens the push names.\<close>

lemma mark_removed_own_chat_only:
  assumes "snd k \<noteq> chatID"
  shows "map_of (db_history (snd (MarkListingsRemoved now chatID tokens d))) k = map_of (db_history d) k"
proof (cases "tokens = []")
  case False
  let ?sel = "\<lambda>k (h :: history_row). snd k = chatID \<and> fst k \<in> set tokens"
  have *: "map_of (db_history (snd (retire now ?sel d))) k = map_of (db_history d) k" for d :: "'a db_scheme"
  proof -
    have "snd (retire now ?sel d) = snd (delete_unsaved ?sel (mark_removed now ?sel d))"
      by (simp add: retire_def split: prod.split)
    then show ?thesis using assms
      by (simp add: delete_unsaved_unselected map_of_mark_removed option.map_ident)
  qed
  show ?thesis unfolding MarkListingsRemoved_def if_not_P [OF False]
    by (rule db_call_cases [of "DbError ''mark removed''" "retire now ?sel" d]) (use * in simp_all)
qed (simp add: MarkListingsRemoved_def)

lemma mark_removed_own_chat_only_witness:
  "map_of (db_history (snd (MarkListingsRemoved 5 7 [''t''] sample_history))) (''t'', 1) = Some (new_row 0 sample_record)"
  by (subst mark_removed_own_chat_only) (simp_all add: sample_history_def)

end
