(* ===== verification/World.thy ===== *)
theory World
  imports Claims Prices ListingStore Market
begin

section \<open>The state of the scheduler (internal/scheduler/scheduler.go)\<close>

text \<open>
  \<open>world\<close> extends the tables with what the scheduler itself keeps (the per-cycle caches, the market cache, the
  digest failures), what it hands to the outside (alerts and enrichment requests, in order) and the counters of
  its observer. The answers of the outside are lists that each call consumes: \<open>w_outcomes\<close> of the notifier or
  the alert queue, \<open>w_redis_faults\<close> of the enrichment stream; an exhausted list means success. The texts of the
  messages are rendered by an argument \<open>render\<close>.
\<close>

datatype message =
    BatchMessage "listing list" string nat
  | PriceDropMessage listing int string
  | DigestMessage string nat "string list"
  | DailyMessage int string

type_synonym renderer = "message \<Rightarrow> string"

datatype delivery_error = MalformedMessage | RecipientBlocked | DeliveryFailed string

datatype outgoing =
    Published int int string "string list" string string
  | Notified int "listing list" string
  | NotifiedRaw int string

record enrich_request =
  eq_Token :: string
  eq_Priority :: int
  eq_SearchIDs :: "int list"
  eq_Source :: string

record digest_meta =
  dm_mode :: string
  dm_cachedAt :: gotime

record world = db +
  w_lang :: "(int \<times> string) list"
  w_digestModes :: "(int \<times> digest_meta) list"
  w_digestFailures :: "int list"
  w_marketCache :: "market_cache option"
  w_marketBuiltAt :: gotime
  w_outcomes :: "delivery_error option list"
  w_sent :: "outgoing list"
  w_redis_faults :: "bool list"
  w_stream :: "enrich_request list"
  w_pendingEnrich :: "string list"
  w_persistFailures :: nat
  w_releaseFailures :: nat
  w_listingsFound :: nat
  w_notificationsSent :: nat
  w_lastPrune :: gotime
  w_plFetchCount :: int
  w_plLastFetch :: gotime

text \<open>Which stores and clients are configured (the nil checks of the code), and the settings read.\<close>

record sched_config =
  sc_Prices :: bool
  sc_Listings :: bool
  sc_Users :: bool
  sc_Searches :: bool
  sc_Hidden :: bool
  sc_Digests :: bool
  sc_DailyDigests :: bool
  sc_Deliveries :: bool
  sc_Market :: bool
  sc_PriceList :: bool
  sc_Stats :: bool
  sc_Publisher :: bool
  sc_EnrichPublisher :: bool
  sc_EnrichGraceSeconds :: int
  sc_MaxAttemptsPerToken :: int
  sc_PruneAfter :: duration
  sc_MaxSearches :: int
  sc_ServerFetch :: bool
  sc_currentYear :: int

text \<open>No store but the mandatory ones; the witnesses switch on what they need.\<close>

definition plain_config :: sched_config where
  "plain_config = \<lparr>sc_Prices = False, sc_Listings = False, sc_Users = False, sc_Searches = False, sc_Hidden = False, sc_Digests = False,
     sc_DailyDigests = False, sc_Deliveries = False, sc_Market = False, sc_PriceList = False, sc_Stats = False, sc_Publisher = False,
     sc_EnrichPublisher = False, sc_EnrichGraceSeconds = 0, sc_MaxAttemptsPerToken = 0, sc_PruneAfter = 0, sc_MaxSearches = 0,
     sc_ServerFetch = False, sc_currentYear = 2026\<rparr>"

definition empty_world :: world where
  "empty_world = db.extend empty_db \<lparr>w_lang = [], w_digestModes = [], w_digestFailures = [], w_marketCache = None,
     w_marketBuiltAt = 0, w_outcomes = [], w_sent = [], w_redis_faults = [], w_stream = [], w_pendingEnrich = [],
     w_persistFailures = 0, w_releaseFailures = 0, w_listingsFound = 0, w_notificationsSent = 0, w_lastPrune = 0, w_plFetchCount = 0, w_plLastFetch = 0\<rparr>"

subsection \<open>Users (internal/storage/postgres/users.go)\<close>

definition GetUser :: "int \<Rightarrow> 'z db_scheme \<Rightarrow> (db_error + user option) \<times> 'z db_scheme" where
  "GetUser chatID = db_call (DbError '''') (\<lambda>d. (Inr (map_of (db_users d) chatID), d))"

definition update_user :: "int \<Rightarrow> (user \<Rightarrow> user) \<Rightarrow> 'z db_scheme \<Rightarrow> 'z db_scheme" where
  "update_user chatID f d = d\<lparr>db_users := map (\<lambda>(c, u). (c, if c = chatID then f u else u)) (db_users d)\<rparr>"

definition SetUserActive :: "int \<Rightarrow> bool \<Rightarrow> 'z db_scheme \<Rightarrow> (db_error + unit) \<times> 'z db_scheme" where
  "SetUserActive chatID active = db_call (DbError '''') (\<lambda>d. (Inr (), update_user chatID (\<lambda>u. u\<lparr>u_Active := active\<rparr>) d))"

definition SetUserTier :: "int \<Rightarrow> string \<Rightarrow> gotime \<Rightarrow> 'z db_scheme \<Rightarrow> (db_error + unit) \<times> 'z db_scheme" where
  "SetUserTier chatID tier expires = db_call (DbError '''') (\<lambda>d.
     if map_of (db_users d) chatID = None then (Inl NotFound, d)
     else (Inr (), update_user chatID (\<lambda>u. u\<lparr>u_Tier := tier, u_TierExpires := expires\<rparr>) d))"

definition ReactivateUsersWithSearches :: "'z db_scheme \<Rightarrow> (db_error + nat) \<times> 'z db_scheme" where
  "ReactivateUsersWithSearches = db_call (DbError '''') (\<lambda>d.
     let hit = \<lambda>(c, u). \<not> u_Active u \<and> (\<exists>s \<in> set (db_searches d). s_ChatID s = c \<and> s_Active s)
     in (Inr (length (filter hit (db_users d))),
         d\<lparr>db_users := map (\<lambda>x. if hit x then (fst x, (snd x)\<lparr>u_Active := True\<rparr>) else x) (db_users d)\<rparr>))"

definition GetDigestMode :: "int \<Rightarrow> 'z db_scheme \<Rightarrow> (db_error + string \<times> string) \<times> 'z db_scheme" where
  "GetDigestMode chatID = db_call (DbError ''get digest mode'') (\<lambda>d.
     (Inr (case map_of (db_users d) chatID of None \<Rightarrow> (''instant'', ''6h'') | Some u \<Rightarrow> (u_digest_mode u, u_digest_interval u)), d))"

definition AddDigestItem :: "gotime \<Rightarrow> int \<Rightarrow> string \<Rightarrow> string list \<Rightarrow> 'z db_scheme \<Rightarrow> (db_error + unit) \<times> 'z db_scheme" where
  "AddDigestItem now chatID payload tokens = db_call (DbError ''add digest item'') (\<lambda>d.
     (Inr (), d\<lparr>db_digest := db_digest d @ [\<lparr>dg_chat = chatID, dg_payload = payload, dg_tokens = tokens, dg_created = now\<rparr>]\<rparr>))"

text \<open>\<open>ListSearches\<close> of internal/storage/postgres/searches.go.\<close>

definition ListSearches :: "int \<Rightarrow> 'z db_scheme \<Rightarrow> (db_error + search list) \<times> 'z db_scheme" where
  "ListSearches chatID = db_call (DbError ''list searches'') (\<lambda>d.
     (Inr (sort_key (\<lambda>s. - s_CreatedAt s) (filter (\<lambda>s. s_ChatID s = chatID) (db_searches d))), d))"

subsection \<open>The language of a user, and premium\<close>

definition userLang :: "sched_config \<Rightarrow> int \<Rightarrow> world \<Rightarrow> string \<times> world" where
  "userLang cfg chatID w =
    (case map_of (w_lang w) chatID of
       Some l \<Rightarrow> (l, w)
     | None \<Rightarrow>
         (let (lang, w) =
            (if sc_Users cfg then
               (case GetUser chatID w of
                  (Inr (Some user), w') \<Rightarrow> (if u_Language user \<noteq> '''' then u_Language user else ''he'', w')
                | (_, w') \<Rightarrow> (''he'', w'))
             else (''he'', w))
          in (lang, w\<lparr>w_lang := AList.update chatID lang (w_lang w)\<rparr>)))"

definition isUserPremium :: "sched_config \<Rightarrow> gotime \<Rightarrow> int \<Rightarrow> world \<Rightarrow> bool \<times> world" where
  "isUserPremium cfg now chatID w =
    (if \<not> sc_Users cfg then (False, w)
     else case GetUser chatID w of
       (Inr (Some user), w') \<Rightarrow>
         (if u_Tier user \<noteq> ''premium'' then False else if u_TierExpires user = 0 then False else now < u_TierExpires user, w')
     | (_, w') \<Rightarrow> (False, w'))"

end
