(* ===== verification/MatchStage.thy ===== *)
theory MatchStage
  imports World Percolator
begin

section \<open>Matching a cycle's listings to the searches (internal/scheduler/match.go)\<close>

text \<open>
  \<open>match_state\<close> is the \<open>matchState\<close> of a cycle. Its maps are association lists: the lookups use the key, and where
  the code ranges over a map the order is an argument or the list's own order, so that the statements hold for every
  order. \<open>match_locals\<close> are the three local maps of \<open>matchListingsToSearches\<close>; the nested map \<open>userDelivered\<close> is the list
  of its pairs. The pass reads the clock once.
\<close>

record search_result =
  sr_newListings :: "listing list"
  sr_priceDropMessages :: "string list"
  sr_listingRecords :: "listing_record list"

record search_accum =
  ac_search :: search
  ac_result :: search_result
  ac_lang :: string

record cycle_counter =
  cc_matched :: int
  cc_kmFiltered :: int

record price_drop_candidate =
  pd_rawIdx :: nat
  pd_searchID :: int
  pd_oldPrice :: int

record price_result =
  px_oldPrice :: int
  px_changed :: bool
  px_err :: bool

record match_state =
  ms_raw :: "raw_listing list"
  ms_feedTokensByKey :: "(string \<times> string list) list"
  ms_prefilled :: bool
  ms_accums :: "(int \<times> search_accum) list"
  ms_searchCounters :: "(int \<times> cycle_counter) list"
  ms_matchedIndices :: "(nat \<times> int list) list"
  ms_priceDropCandidates :: "price_drop_candidate list"
  ms_pendingPrices :: "(string \<times> int) list"
  ms_persistedTokens :: "string list"
  ms_persistFailedTokens :: "string list"

record match_locals =
  mx_hidden :: "(int \<times> (string \<Rightarrow> bool)) list"
  mx_price :: "(string \<times> price_result) list"
  mx_delivered :: "(int \<times> string) list"

definition empty_result :: search_result where
  "empty_result = \<lparr>sr_newListings = [], sr_priceDropMessages = [], sr_listingRecords = []\<rparr>"

definition newMatchState :: match_state where
  "newMatchState = \<lparr>ms_raw = [], ms_feedTokensByKey = [], ms_prefilled = False, ms_accums = [], ms_searchCounters = [],
     ms_matchedIndices = [], ms_priceDropCandidates = [], ms_pendingPrices = [], ms_persistedTokens = [], ms_persistFailedTokens = []\<rparr>"

definition no_locals :: match_locals where
  "no_locals = \<lparr>mx_hidden = [], mx_price = [], mx_delivered = []\<rparr>"

subsection \<open>The steps for one match\<close>

definition open_accum :: "sched_config \<Rightarrow> match_result \<Rightarrow> match_state \<Rightarrow> world \<Rightarrow> match_state \<times> world" where
  "open_accum cfg m ms w =
    (case map_of (ms_accums ms) (mr_SearchID m) of
       Some acc \<Rightarrow> (ms, w)
     | None \<Rightarrow> (case userLang cfg (mr_ChatID m) w of
         (lang, w') \<Rightarrow> (ms\<lparr>ms_accums := AList.update (mr_SearchID m)
              \<lparr>ac_search = mr_Search m, ac_result = empty_result, ac_lang = lang\<rparr> (ms_accums ms)\<rparr>, w')))"

definition count_match :: "match_result \<Rightarrow> match_state \<Rightarrow> match_state" where
  "count_match m ms =
    (let ctr = (case map_of (ms_searchCounters ms) (mr_SearchID m) of Some c \<Rightarrow> c | None \<Rightarrow> \<lparr>cc_matched = 0, cc_kmFiltered = 0\<rparr>)
     in ms\<lparr>ms_searchCounters := AList.update (mr_SearchID m) (ctr\<lparr>cc_matched := cc_matched ctr + 1\<rparr>) (ms_searchCounters ms)\<rparr>)"

definition loadHiddenTokens :: "sched_config \<Rightarrow> int \<Rightarrow> world \<Rightarrow> (string \<Rightarrow> bool) \<times> world" where
  "loadHiddenTokens cfg chatID w =
    (if \<not> sc_Hidden cfg then (\<lambda>_. False, w)
     else case ListHiddenTokens chatID w of (Inl _, w') \<Rightarrow> (\<lambda>_. False, w') | (Inr tokens, w') \<Rightarrow> (tokens, w'))"

definition hidden_for :: "sched_config \<Rightarrow> int \<Rightarrow> match_locals \<Rightarrow> world \<Rightarrow> (string \<Rightarrow> bool) \<times> match_locals \<times> world" where
  "hidden_for cfg chatID lx w =
    (case map_of (mx_hidden lx) chatID of
       Some hidden \<Rightarrow> (hidden, lx, w)
     | None \<Rightarrow> (case loadHiddenTokens cfg chatID w of
         (hidden, w') \<Rightarrow> (hidden, lx\<lparr>mx_hidden := AList.update chatID hidden (mx_hidden lx)\<rparr>, w')))"

definition deduplicateListings :: "gotime \<Rightarrow> string \<Rightarrow> int \<Rightarrow> int \<Rightarrow> world \<Rightarrow> bool \<times> bool \<times> world" where
  "deduplicateListings now token chatID searchID w =
    (case ClaimNew now (token, chatID, searchID) w of
       (Inl _, w') \<Rightarrow> (False, False, w')
     | (Inr isNew, w') \<Rightarrow> (isNew, True, w'))"

definition price_for :: "raw_listing \<Rightarrow> match_state \<Rightarrow> match_locals \<Rightarrow> world \<Rightarrow> price_result \<times> match_state \<times> match_locals \<times> world" where
  "price_for l ms lx w =
    (case map_of (mx_price lx) (rl_Token l) of
       Some pr \<Rightarrow> (pr, ms, lx, w)
     | None \<Rightarrow>
         (case PeekPrice (rl_Token l) w of (r, w') \<Rightarrow>
            let (pr, ms) =
              (case r of
                 Inl _ \<Rightarrow> (\<lparr>px_oldPrice = 0, px_changed = False, px_err = True\<rparr>, ms)
               | Inr None \<Rightarrow> (\<lparr>px_oldPrice = 0, px_changed = False, px_err = False\<rparr>,
                   ms\<lparr>ms_pendingPrices := AList.update (rl_Token l) (rl_Price l) (ms_pendingPrices ms)\<rparr>)
               | Inr (Some prevPrice) \<Rightarrow>
                   (let changed = (rl_Price l \<noteq> prevPrice)
                    in (\<lparr>px_oldPrice = prevPrice, px_changed = changed, px_err = False\<rparr>,
                        if changed then ms\<lparr>ms_pendingPrices := AList.update (rl_Token l) (rl_Price l) (ms_pendingPrices ms)\<rparr> else ms)))
            in (pr, ms, lx\<lparr>mx_price := AList.update (rl_Token l) pr (mx_price lx)\<rparr>, w')))"

definition already_delivered :: "match_result \<Rightarrow> raw_listing \<Rightarrow> match_locals \<Rightarrow> bool" where
  "already_delivered m l lx \<longleftrightarrow> (mr_ChatID m, rl_Token l) \<in> set (mx_delivered lx)"

definition mark_delivered :: "match_result \<Rightarrow> raw_listing \<Rightarrow> match_locals \<Rightarrow> match_locals" where
  "mark_delivered m l lx = lx\<lparr>mx_delivered := (mr_ChatID m, rl_Token l) # mx_delivered lx\<rparr>"

definition add_new :: "match_result \<Rightarrow> raw_listing \<Rightarrow> match_state \<Rightarrow> match_state" where
  "add_new m l ms =
    (case map_of (ms_accums ms) (mr_SearchID m) of
       None \<Rightarrow> ms
     | Some acc \<Rightarrow> ms\<lparr>ms_accums := AList.update (mr_SearchID m)
         (acc\<lparr>ac_result := (ac_result acc)\<lparr>sr_newListings := sr_newListings (ac_result acc) @ [listing_of_raw l '''']\<rparr>\<rparr>) (ms_accums ms)\<rparr>)"

definition new_step :: "match_result \<Rightarrow> raw_listing \<Rightarrow> bool \<Rightarrow> match_state \<Rightarrow> match_locals \<Rightarrow> match_state \<times> match_locals" where
  "new_step m l isNew ms lx =
    (if \<not> isNew then (ms, lx)
     else if already_delivered m l lx then (ms, lx)
     else (add_new m l ms, mark_delivered m l lx))"

definition alert_step :: "sched_config \<Rightarrow> nat \<Rightarrow> raw_listing \<Rightarrow> match_result \<Rightarrow> bool \<Rightarrow> match_state \<Rightarrow> match_locals \<Rightarrow> world \<Rightarrow>
    match_state \<times> match_locals \<times> world" where
  "alert_step cfg i l m isNew ms lx w =
    (if sc_Prices cfg \<and> rl_Price l > 0 then
       (case price_for l ms lx w of (pr, ms, lx, w) \<Rightarrow>
          if \<not> px_err pr \<and> px_changed pr \<and> rl_Price l < px_oldPrice pr then
            (if already_delivered m l lx then (ms, lx, w)
             else (ms\<lparr>ms_priceDropCandidates := ms_priceDropCandidates ms @
                     [\<lparr>pd_rawIdx = i, pd_searchID = mr_SearchID m, pd_oldPrice = px_oldPrice pr\<rparr>]\<rparr>,
                   mark_delivered m l lx, w))
          else (case new_step m l isNew ms lx of (ms, lx) \<Rightarrow> (ms, lx, w)))
     else (case new_step m l isNew ms lx of (ms, lx) \<Rightarrow> (ms, lx, w)))"

definition match_one :: "sched_config \<Rightarrow> gotime \<Rightarrow> nat \<Rightarrow> raw_listing \<Rightarrow> match_result \<Rightarrow> match_state \<times> match_locals \<times> world \<Rightarrow>
    match_state \<times> match_locals \<times> world" where
  "match_one cfg now i l m st =
    (case st of (ms, lx, w) \<Rightarrow>
     case open_accum cfg m ms w of (ms, w) \<Rightarrow>
     let ms = count_match m ms in
     case hidden_for cfg (mr_ChatID m) lx w of (hidden, lx, w) \<Rightarrow>
     if hidden (rl_Token l) then (ms, lx, w)
     else case deduplicateListings now (rl_Token l) (mr_ChatID m) (mr_SearchID m) w of (isNew, ok, w) \<Rightarrow>
       if \<not> ok then (ms, lx, w) else alert_step cfg i l m isNew ms lx w)"

definition note_matches :: "nat \<Rightarrow> match_result list \<Rightarrow> match_state \<Rightarrow> match_state" where
  "note_matches i found ms =
    (if map_of (ms_matchedIndices ms) i = None
     then ms\<lparr>ms_matchedIndices := AList.update i (map mr_SearchID found) (ms_matchedIndices ms)\<rparr> else ms)"

definition match_listing :: "sched_config \<Rightarrow> gotime \<Rightarrow> percolator \<Rightarrow> nat \<Rightarrow> raw_listing \<Rightarrow> match_state \<times> match_locals \<times> world \<Rightarrow>
    match_state \<times> match_locals \<times> world" where
  "match_listing cfg now p i l st =
    (let found = Match p l
     in if found = [] then st
        else case st of (ms, lx, w) \<Rightarrow> fold (match_one cfg now i l) found (note_matches i found ms, lx, w))"

fun match_from :: "sched_config \<Rightarrow> gotime \<Rightarrow> percolator \<Rightarrow> nat \<Rightarrow> raw_listing list \<Rightarrow> match_state \<times> match_locals \<times> world \<Rightarrow>
    match_state \<times> match_locals \<times> world" where
  "match_from cfg now p i [] st = st"
| "match_from cfg now p i (l # ls) st = match_from cfg now p (Suc i) ls (match_listing cfg now p i l st)"

definition matchListingsToSearches :: "sched_config \<Rightarrow> gotime \<Rightarrow> percolator \<Rightarrow> match_state \<Rightarrow> world \<Rightarrow> match_state \<times> world" where
  "matchListingsToSearches cfg now p ms w =
    (case match_from cfg now p 0 (ms_raw ms) (ms, no_locals, w) of (ms, _, w) \<Rightarrow> (ms, w))"

subsection \<open>Lemmas: which fields a step touches\<close>

lemma open_accum_cases:
  assumes "open_accum cfg m ms w = (ms', w')"
  obtains "ms' = ms" "map_of (ms_accums ms) (mr_SearchID m) \<noteq> None"
  | lang where "map_of (ms_accums ms) (mr_SearchID m) = None"
    "ms' = ms\<lparr>ms_accums := AList.update (mr_SearchID m)
        \<lparr>ac_search = mr_Search m, ac_result = empty_result, ac_lang = lang\<rparr> (ms_accums ms)\<rparr>"
  using assms by (auto simp: open_accum_def split: option.splits prod.splits)

lemma count_match_fields [simp]:
  "ms_raw (count_match m ms) = ms_raw ms" "ms_accums (count_match m ms) = ms_accums ms"
  "ms_priceDropCandidates (count_match m ms) = ms_priceDropCandidates ms"
  "ms_pendingPrices (count_match m ms) = ms_pendingPrices ms"
  by (simp_all add: count_match_def Let_def)

lemma note_matches_fields [simp]:
  "ms_raw (note_matches i found ms) = ms_raw ms" "ms_accums (note_matches i found ms) = ms_accums ms"
  "ms_priceDropCandidates (note_matches i found ms) = ms_priceDropCandidates ms"
  by (simp_all add: note_matches_def)

lemma hidden_for_delivered: "hidden_for cfg chat lx w = (h, lx', w') \<Longrightarrow> mx_delivered lx' = mx_delivered lx \<and> mx_price lx' = mx_price lx"
  by (auto simp: hidden_for_def split: option.splits prod.splits)

lemma price_for_fields:
  assumes "price_for l ms lx w = (pr, ms', lx', w')"
  shows "ms_raw ms' = ms_raw ms \<and> ms_accums ms' = ms_accums ms \<and>
    ms_priceDropCandidates ms' = ms_priceDropCandidates ms \<and> mx_delivered lx' = mx_delivered lx \<and> mx_hidden lx' = mx_hidden lx"
  using assms by (auto simp: price_for_def Let_def split: option.splits prod.splits sum.splits if_splits)

lemma add_new_fields [simp]:
  "ms_raw (add_new m l ms) = ms_raw ms" "ms_priceDropCandidates (add_new m l ms) = ms_priceDropCandidates ms"
  by (simp_all add: add_new_def split: option.split)

lemma mark_delivered_fields [simp]:
  "mx_delivered (mark_delivered m l lx) = (mr_ChatID m, rl_Token l) # mx_delivered lx"
  "mx_hidden (mark_delivered m l lx) = mx_hidden lx" "mx_price (mark_delivered m l lx) = mx_price lx"
  by (simp_all add: mark_delivered_def)

subsection \<open>Lemmas: the alerts of a cycle and \<open>userDelivered\<close>\<close>

definition new_alerts :: "(int \<times> search_accum) list \<Rightarrow> (int \<times> string) list" where
  "new_alerts accums = concat (map (\<lambda>(sid, acc).
     map (\<lambda>l. (s_ChatID (ac_search acc), rl_Token l)) (sr_newListings (ac_result acc))) accums)"

definition chat_of :: "(int \<times> search_accum) list \<Rightarrow> int \<Rightarrow> int" where
  "chat_of accums sid = (case map_of accums sid of Some acc \<Rightarrow> s_ChatID (ac_search acc) | None \<Rightarrow> 0)"

definition drop_alerts :: "match_state \<Rightarrow> (int \<times> string) list" where
  "drop_alerts ms = map (\<lambda>c. (chat_of (ms_accums ms) (pd_searchID c), rl_Token (ms_raw ms ! pd_rawIdx c))) (ms_priceDropCandidates ms)"

text \<open>All alerts of a cycle, of new listings and of price drops, as (chat, token).\<close>

definition cycle_alerts :: "match_state \<Rightarrow> (int \<times> string) list" where
  "cycle_alerts ms = new_alerts (ms_accums ms) @ drop_alerts ms"

definition accums_ok :: "search list \<Rightarrow> match_state \<Rightarrow> bool" where
  "accums_ok rules ms \<longleftrightarrow> distinct (map fst (ms_accums ms)) \<and>
     (\<forall>sid acc. map_of (ms_accums ms) sid = Some acc \<longrightarrow> ac_search acc \<in> set rules \<and> s_ID (ac_search acc) = sid) \<and>
     (\<forall>c \<in> set (ms_priceDropCandidates ms). map_of (ms_accums ms) (pd_searchID c) \<noteq> None)"

definition alerts_ok :: "search list \<Rightarrow> match_state \<Rightarrow> match_locals \<Rightarrow> bool" where
  "alerts_ok rules ms lx \<longleftrightarrow> accums_ok rules ms \<and> distinct (mx_delivered lx) \<and>
     mset (cycle_alerts ms) = mset (mx_delivered lx)"

definition match_of :: "search list \<Rightarrow> match_result \<Rightarrow> bool" where
  "match_of rules m \<longleftrightarrow> mr_Search m \<in> set rules \<and> mr_SearchID m = s_ID (mr_Search m) \<and> mr_ChatID m = s_ChatID (mr_Search m)"

lemma Match_match_of: "m \<in> set (Match p l) \<Longrightarrow> match_of (pc_rules p) m"
  by (auto simp: Match_eq match_of_def)

lemma update_absent: "k \<notin> fst ` set xs \<Longrightarrow> AList.update k v xs = xs @ [(k, v)]"
  by (induction xs) auto

lemma concat_update:
  assumes "distinct (map fst xs)" "map_of xs k = Some v"
  shows "mset (concat (map f (AList.update k v' xs))) + mset (f (k, v)) = mset (concat (map f xs)) + mset (f (k, v'))"
  using assms
proof (induction xs)
  case Nil
  then show ?case by simp
next
  case (Cons x xs)
  obtain j u where x: "x = (j, u)" by (cases x)
  show ?case
  proof (cases "j = k")
    case True
    then show ?thesis using Cons.prems x by simp
  next
    case False
    then have "mset (concat (map f (AList.update k v' xs))) + mset (f (k, v)) = mset (concat (map f xs)) + mset (f (k, v'))"
      using Cons x by simp
    then show ?thesis using False x by (simp add: union_assoc)
  qed
qed

lemma open_accum_ok:
  assumes "alerts_ok rules ms lx" "match_of rules m" "open_accum cfg m ms w = (ms', w')"
  shows "alerts_ok rules ms' lx \<and> map_of (ms_accums ms') (mr_SearchID m) \<noteq> None \<and> ms_raw ms' = ms_raw ms"
  using assms(3)
proof (cases rule: open_accum_cases)
  case 1
  then show ?thesis using assms(1) by simp
next
  case (2 lang)
  let ?acc = "\<lparr>ac_search = mr_Search m, ac_result = empty_result, ac_lang = lang\<rparr>"
  have acc: "ms_accums ms' = ms_accums ms @ [(mr_SearchID m, ?acc)]"
    using 2 by (simp add: update_absent map_of_eq_None_iff)
  have fresh: "mr_SearchID m \<notin> fst ` set (ms_accums ms)" using 2(1) by (simp add: map_of_eq_None_iff)
  have ok: "accums_ok rules ms" using assms(1) by (simp add: alerts_ok_def)
  have same: "map_of (ms_accums ms') sid = (if sid = mr_SearchID m then Some ?acc else map_of (ms_accums ms) sid)" for sid
    using 2 by (simp add: update_conv')
  have "accums_ok rules ms'"
    using ok fresh assms(2) unfolding accums_ok_def same by (auto simp: acc 2(2) match_of_def distinct_update)
  moreover have "drop_alerts ms' = drop_alerts ms"
    using ok 2(1) by (auto simp: drop_alerts_def 2(2) chat_of_def accums_ok_def update_conv' split: option.splits)
  moreover have "new_alerts (ms_accums ms') = new_alerts (ms_accums ms)"
    by (simp add: new_alerts_def acc empty_result_def)
  ultimately show ?thesis using assms(1) same by (simp add: alerts_ok_def cycle_alerts_def 2(2))
qed

lemma rule_unique: "distinct (map s_ID rules) \<Longrightarrow> s \<in> set rules \<Longrightarrow> t \<in> set rules \<Longrightarrow> s_ID s = s_ID t \<Longrightarrow> s = t"
  by (metis distinct_map inj_on_def)

text \<open>With unique search ids the accumulated search is the matched one.\<close>

lemma accum_search:
  assumes "distinct (map s_ID rules)" "accums_ok rules ms" "match_of rules m" "map_of (ms_accums ms) (mr_SearchID m) = Some acc"
  shows "ac_search acc = mr_Search m \<and> s_ChatID (ac_search acc) = mr_ChatID m"
  using assms rule_unique [OF assms(1)] unfolding accums_ok_def match_of_def by metis

lemma add_new_ok:
  assumes ids: "distinct (map s_ID rules)" and ok: "alerts_ok rules ms lx" and m: "match_of rules m"
    and open_acc: "map_of (ms_accums ms) (mr_SearchID m) \<noteq> None" and fresh: "\<not> already_delivered m l lx"
  shows "alerts_ok rules (add_new m l ms) (mark_delivered m l lx)"
proof -
  obtain acc where acc: "map_of (ms_accums ms) (mr_SearchID m) = Some acc" using open_acc by blast
  have aok: "accums_ok rules ms" using ok by (simp add: alerts_ok_def)
  have chat: "s_ChatID (ac_search acc) = mr_ChatID m" using accum_search [OF ids aok m acc] by blast
  define acc' where "acc' = acc\<lparr>ac_result := (ac_result acc)\<lparr>sr_newListings := sr_newListings (ac_result acc) @ [listing_of_raw l '''']\<rparr>\<rparr>"
  have accs: "ms_accums (add_new m l ms) = AList.update (mr_SearchID m) acc' (ms_accums ms)"
    by (simp add: add_new_def acc acc'_def)
  have mo: "map_of (ms_accums (add_new m l ms)) sid = (if sid = mr_SearchID m then Some acc' else map_of (ms_accums ms) sid)" for sid
    by (simp add: accs update_conv')
  have "accums_ok rules (add_new m l ms)"
    using aok acc unfolding accums_ok_def mo by (auto simp: accs distinct_update acc'_def)
  moreover have "drop_alerts (add_new m l ms) = drop_alerts ms"
    using acc by (auto simp: drop_alerts_def chat_of_def mo acc'_def split: option.splits)
  moreover have "mset (new_alerts (ms_accums (add_new m l ms))) = add_mset (mr_ChatID m, rl_Token l) (mset (new_alerts (ms_accums ms)))"
  proof -
    let ?f = "\<lambda>(sid, acc). map (\<lambda>l. (s_ChatID (ac_search acc), rl_Token l)) (sr_newListings (ac_result acc))"
    have "mset (concat (map ?f (AList.update (mr_SearchID m) acc' (ms_accums ms)))) + mset (?f (mr_SearchID m, acc)) =
        mset (concat (map ?f (ms_accums ms))) + mset (?f (mr_SearchID m, acc'))"
      using aok by (intro concat_update acc) (simp add: accums_ok_def)
    moreover have "mset (?f (mr_SearchID m, acc')) = add_mset (mr_ChatID m, rl_Token l) (mset (?f (mr_SearchID m, acc)))"
      by (simp add: acc'_def chat listing_of_raw_def raw_listing.defs)
    ultimately show ?thesis by (simp add: new_alerts_def accs)
  qed
  ultimately show ?thesis using ok fresh by (simp add: alerts_ok_def cycle_alerts_def already_delivered_def)
qed

lemma new_step_ok:
  assumes "distinct (map s_ID rules)" "alerts_ok rules ms lx" "match_of rules m"
    "map_of (ms_accums ms) (mr_SearchID m) \<noteq> None" "new_step m l isNew ms lx = (ms', lx')"
  shows "alerts_ok rules ms' lx' \<and> ms_raw ms' = ms_raw ms"
  using assms add_new_ok [OF assms(1-4), of l] by (auto simp: new_step_def split: if_splits)

lemma add_drop_ok:
  assumes "distinct (map s_ID rules)" "alerts_ok rules ms lx" "match_of rules m"
    "map_of (ms_accums ms) (mr_SearchID m) \<noteq> None" "\<not> already_delivered m l lx" "l = ms_raw ms ! i"
  shows "alerts_ok rules (ms\<lparr>ms_priceDropCandidates := ms_priceDropCandidates ms @
      [\<lparr>pd_rawIdx = i, pd_searchID = mr_SearchID m, pd_oldPrice = old\<rparr>]\<rparr>) (mark_delivered m l lx)"
proof -
  obtain acc where acc: "map_of (ms_accums ms) (mr_SearchID m) = Some acc" using assms(4) by blast
  have "accums_ok rules ms" using assms(2) by (simp add: alerts_ok_def)
  from accum_search [OF assms(1) this assms(3) acc] show ?thesis
    using assms acc by (auto simp: alerts_ok_def accums_ok_def cycle_alerts_def drop_alerts_def already_delivered_def chat_of_def)
qed

lemma alerts_ok_cong:
  "ms_raw ms' = ms_raw ms \<Longrightarrow> ms_accums ms' = ms_accums ms \<Longrightarrow> ms_priceDropCandidates ms' = ms_priceDropCandidates ms \<Longrightarrow>
    mx_delivered lx' = mx_delivered lx \<Longrightarrow> alerts_ok rules ms' lx' = alerts_ok rules ms lx"
  by (simp add: alerts_ok_def accums_ok_def cycle_alerts_def drop_alerts_def)

lemma alert_step_ok:
  assumes "distinct (map s_ID rules)" "alerts_ok rules ms lx" "match_of rules m"
    "map_of (ms_accums ms) (mr_SearchID m) \<noteq> None" "l = ms_raw ms ! i" "alert_step cfg i l m isNew ms lx w = (ms', lx', w')"
  shows "alerts_ok rules ms' lx' \<and> ms_raw ms' = ms_raw ms"
proof (cases "sc_Prices cfg \<and> rl_Price l > 0")
  case True
  obtain pr ms1 lx1 w1 where p: "price_for l ms lx w = (pr, ms1, lx1, w1)" by (metis prod.exhaust)
  note F = price_for_fields [OF p]
  have ok1: "alerts_ok rules ms1 lx1" using assms(2) F by (simp add: alerts_ok_cong [of ms1 ms lx1 lx])
  have op1: "map_of (ms_accums ms1) (mr_SearchID m) \<noteq> None" "l = ms_raw ms1 ! i" using assms(4,5) F by simp_all
  show ?thesis
  proof (cases "\<not> px_err pr \<and> px_changed pr \<and> rl_Price l < px_oldPrice pr")
    case drop: True
    then show ?thesis
      using assms(6) True p F ok1 add_drop_ok [OF assms(1) ok1 assms(3) op1(1) _ op1(2)]
      by (auto simp: alert_step_def split: if_splits)
  next
    case False
    then show ?thesis
      using assms(6) True p F new_step_ok [OF assms(1) ok1 assms(3) op1(1)]
      by (auto simp: alert_step_def split: prod.splits)
  qed
next
  case False
  then show ?thesis
    using assms(6) new_step_ok [OF assms(1-4)] by (auto simp: alert_step_def split: prod.splits)
qed

lemma match_one_ok:
  assumes "distinct (map s_ID rules)" "alerts_ok rules ms lx" "match_of rules m" "l = ms_raw ms ! i"
    "match_one cfg now i l m (ms, lx, w) = (ms', lx', w')"
  shows "alerts_ok rules ms' lx' \<and> ms_raw ms' = ms_raw ms"
proof -
  obtain ms1 w1 where o: "open_accum cfg m ms w = (ms1, w1)" by (metis prod.exhaust)
  note O = open_accum_ok [OF assms(2,3) o]
  define ms2 where "ms2 = count_match m ms1"
  obtain h lx2 w2 where hd: "hidden_for cfg (mr_ChatID m) lx w1 = (h, lx2, w2)" by (metis prod.exhaust)
  have ok2: "alerts_ok rules ms2 lx2"
    using O hidden_for_delivered [OF hd] by (simp add: ms2_def alerts_ok_cong [of "count_match m ms1" ms1 lx2 lx])
  have op2: "map_of (ms_accums ms2) (mr_SearchID m) \<noteq> None" "ms_raw ms2 = ms_raw ms" using O by (simp_all add: ms2_def)
  obtain isNew ok w3 where d: "deduplicateListings now (rl_Token l) (mr_ChatID m) (mr_SearchID m) w2 = (isNew, ok, w3)"
    by (metis prod.exhaust)
  have eq: "(ms', lx', w') = (if h (rl_Token l) then (ms2, lx2, w2)
      else if \<not> ok then (ms2, lx2, w3) else alert_step cfg i l m isNew ms2 lx2 w3)"
    using assms(5) o hd d by (simp add: match_one_def ms2_def Let_def split: if_splits)
  show ?thesis
  proof (cases "h (rl_Token l) \<or> \<not> ok")
    case True
    then show ?thesis using eq ok2 op2 by (auto split: if_splits)
  next
    case False
    then have "alert_step cfg i l m isNew ms2 lx2 w3 = (ms', lx', w')" using eq by simp
    from alert_step_ok [OF assms(1) ok2 assms(3) op2(1) _ this] show ?thesis using assms(4) op2(2) by simp
  qed
qed

lemma fold_match_ok:
  assumes "distinct (map s_ID rules)" "\<forall>m \<in> set found. match_of rules m"
  shows "alerts_ok rules ms lx \<Longrightarrow> l = ms_raw ms ! i \<Longrightarrow> fold (match_one cfg now i l) found (ms, lx, w) = (ms', lx', w') \<Longrightarrow>
    alerts_ok rules ms' lx' \<and> ms_raw ms' = ms_raw ms"
  using assms(2)
proof (induction found arbitrary: ms lx w)
  case Nil
  then show ?case by simp
next
  case (Cons m found)
  obtain ms1 lx1 w1 where one: "match_one cfg now i l m (ms, lx, w) = (ms1, lx1, w1)" by (metis prod.exhaust)
  have "alerts_ok rules ms1 lx1 \<and> ms_raw ms1 = ms_raw ms"
    by (rule match_one_ok [OF assms(1) Cons.prems(1) _ Cons.prems(2) one]) (use Cons.prems(4) in simp)
  then show ?case using Cons.IH [of ms1 lx1 w1] Cons.prems one by simp
qed

lemma match_from_ok:
  assumes "distinct (map s_ID (pc_rules p))"
  shows "alerts_ok (pc_rules p) ms lx \<Longrightarrow> ls = drop i (ms_raw ms) \<Longrightarrow> match_from cfg now p i ls (ms, lx, w) = (ms', lx', w') \<Longrightarrow>
    alerts_ok (pc_rules p) ms' lx' \<and> ms_raw ms' = ms_raw ms"
proof (induction ls arbitrary: i ms lx w)
  case Nil
  then show ?case by simp
next
  case (Cons l ls)
  have l: "l = ms_raw ms ! i" "ls = drop (Suc i) (ms_raw ms)"
    using Cons.prems(2) by (metis nth_via_drop, metis drop_Suc list.sel(3) tl_drop)
  obtain ms1 lx1 w1 where one: "match_listing cfg now p i l (ms, lx, w) = (ms1, lx1, w1)" by (metis prod.exhaust)
  have "alerts_ok (pc_rules p) ms1 lx1 \<and> ms_raw ms1 = ms_raw ms"
  proof (cases "Match p l = []")
    case True
    then show ?thesis using one Cons.prems(1) by (simp add: match_listing_def)
  next
    case False
    then have f: "fold (match_one cfg now i l) (Match p l) (note_matches i (Match p l) ms, lx, w) = (ms1, lx1, w1)"
      using one by (simp add: match_listing_def Let_def)
    have "alerts_ok (pc_rules p) (note_matches i (Match p l) ms) lx"
      using Cons.prems(1) by (simp add: alerts_ok_cong [of "note_matches i (Match p l) ms" ms lx lx])
    from fold_match_ok [OF assms _ this _ f] show ?thesis using l Match_match_of by simp
  qed
  moreover have "match_from cfg now p (Suc i) ls (ms1, lx1, w1) = (ms', lx', w')" using Cons.prems(3) one by simp
  ultimately show ?case using Cons.IH [of ms1 lx1 "Suc i" w1] l(2) by simp
qed

subsection \<open>Lemmas: the claims of a pass without faults\<close>

definition hides :: "sched_config \<Rightarrow> world \<Rightarrow> int \<Rightarrow> string \<Rightarrow> bool" where
  "hides cfg w chat tok \<longleftrightarrow> sc_Hidden cfg \<and> (chat, tok) \<in> set (db_hidden w)"

definition calm :: "sched_config \<Rightarrow> match_locals \<Rightarrow> world \<Rightarrow> bool" where
  "calm cfg lx w \<longleftrightarrow> db_faults w = [] \<and>
     (\<forall>chat h. map_of (mx_hidden lx) chat = Some h \<longrightarrow> h = hides cfg w chat)"

definition key_of :: "raw_listing \<Rightarrow> match_result \<Rightarrow> claim_key" where
  "key_of l m = (rl_Token l, mr_ChatID m, mr_SearchID m)"

definition grown :: "world \<Rightarrow> world \<Rightarrow> bool" where
  "grown w w' \<longleftrightarrow> db_faults w' = db_faults w \<and> db_hidden w' = db_hidden w \<and> claimed w \<subseteq> claimed w'"

lemma grown_refl [simp]: "grown w w"
  by (simp add: grown_def)

lemma grown_trans: "grown w w1 \<Longrightarrow> grown w1 w2 \<Longrightarrow> grown w w2"
  by (auto simp: grown_def)

lemma grown_hides: "grown w w' \<Longrightarrow> hides cfg w' = hides cfg w"
  by (simp add: grown_def hides_def fun_eq_iff)

lemma calm_grown: "calm cfg lx w \<Longrightarrow> grown w w' \<Longrightarrow> mx_hidden lx' = mx_hidden lx \<Longrightarrow> calm cfg lx' w'"
  by (simp add: calm_def grown_hides) (simp add: grown_def)

lemma userLang_grown:
  assumes "db_faults w = []" "userLang cfg chat w = (l, w')"
  shows "grown w w'"
  using assms by (auto simp: userLang_def GetUser_def grown_def claimed_def split: option.splits if_splits prod.splits)

lemma open_accum_grown:
  assumes "db_faults w = []" "open_accum cfg m ms w = (ms', w')"
  shows "grown w w' \<and> new_alerts (ms_accums ms') = new_alerts (ms_accums ms)"
proof (cases "map_of (ms_accums ms) (mr_SearchID m)")
  case None
  obtain lang w1 where u: "userLang cfg (mr_ChatID m) w = (lang, w1)" by (metis prod.exhaust)
  have "mr_SearchID m \<notin> fst ` set (ms_accums ms)" using None by (simp add: map_of_eq_None_iff)
  then show ?thesis
    using assms None u userLang_grown [OF assms(1) u]
    by (auto simp: open_accum_def new_alerts_def update_absent empty_result_def)
next
  case (Some acc)
  then show ?thesis using assms by (simp add: open_accum_def)
qed

lemma hidden_for_calm:
  assumes "calm cfg lx w" "hidden_for cfg chat lx w = (h, lx', w')"
  shows "grown w w' \<and> calm cfg lx' w' \<and> h = hides cfg w chat"
proof (cases "map_of (mx_hidden lx) chat")
  case None
  have faults: "db_faults w = []" using assms(1) by (simp add: calm_def)
  have load: "loadHiddenTokens cfg chat w = (hides cfg w chat, w)"
    using faults by (auto simp: loadHiddenTokens_def ListHiddenTokens_def hides_def fun_eq_iff)
  then show ?thesis
    using assms None by (auto simp: hidden_for_def calm_def update_conv' split: if_splits)
next
  case (Some h')
  then show ?thesis using assms by (auto simp: hidden_for_def calm_def)
qed

lemma dedup_calm:
  assumes "db_faults w = []" "deduplicateListings now tok chat sid w = (isNew, ok, w')"
  shows "grown w w' \<and> ok \<and> (tok, chat, sid) \<in> claimed w' \<and> (isNew \<longleftrightarrow> (tok, chat, sid) \<notin> claimed w)"
proof -
  obtain r w1 where c: "ClaimNew now (tok, chat, sid) w = (r, w1)" by (metis prod.exhaust)
  then obtain new where r: "r = Inr new" using assms(1) by (cases r) (auto simp: ClaimNew_def claim_stmt_def split: option.splits)
  have "db_faults w1 = []" "db_hidden w1 = db_hidden w"
    using c assms(1) by (auto simp: ClaimNew_def claim_stmt_def split: option.splits)
  then show ?thesis
    using c r ClaimNew_claimed(1) [of now "(tok, chat, sid)" w new w1] assms
    by (auto simp: deduplicateListings_def grown_def)
qed

lemma price_for_grown:
  assumes "db_faults w = []" "price_for l ms lx w = (pr, ms', lx', w')"
  shows "w' = w"
  using assms by (auto simp: price_for_def PeekPrice_def Let_def split: option.splits prod.splits)

lemma new_step_alerts:
  "new_step m l isNew ms lx = (ms', lx') \<Longrightarrow> mx_hidden lx' = mx_hidden lx \<and> (\<not> isNew \<longrightarrow> ms_accums ms' = ms_accums ms)"
  by (auto simp: new_step_def split: if_splits)

lemma alert_step_grown:
  assumes "db_faults w = []" "alert_step cfg i l m isNew ms lx w = (ms', lx', w')"
  shows "w' = w \<and> mx_hidden lx' = mx_hidden lx \<and> (\<not> isNew \<longrightarrow> new_alerts (ms_accums ms') = new_alerts (ms_accums ms))"
proof -
  obtain pr ms1 lx1 w1 where p: "price_for l ms lx w = (pr, ms1, lx1, w1)" by (metis prod.exhaust)
  note P = price_for_fields [OF p] price_for_grown [OF assms(1) p]
  show ?thesis
    using assms(2) P
    by (auto simp: alert_step_def p split: if_splits prod.splits dest!: new_step_alerts)
qed

lemma match_one_claims:
  assumes "calm cfg lx w" "match_one cfg now i l m (ms, lx, w) = (ms', lx', w')"
  shows "grown w w' \<and> calm cfg lx' w' \<and> (hides cfg w (mr_ChatID m) (rl_Token l) \<or> key_of l m \<in> claimed w') \<and>
    (hides cfg w (mr_ChatID m) (rl_Token l) \<or> key_of l m \<in> claimed w \<longrightarrow> new_alerts (ms_accums ms') = new_alerts (ms_accums ms))"
proof -
  obtain ms1 w1 where o: "open_accum cfg m ms w = (ms1, w1)" by (metis prod.exhaust)
  have f: "db_faults w = []" using assms(1) by (simp add: calm_def)
  note O = open_accum_grown [OF f o]
  have c1: "calm cfg lx w1" by (rule calm_grown [OF assms(1)]) (use O in simp_all)
  define ms2 where "ms2 = count_match m ms1"
  obtain h lx2 w2 where hd: "hidden_for cfg (mr_ChatID m) lx w1 = (h, lx2, w2)" by (metis prod.exhaust)
  note H = hidden_for_calm [OF c1 hd]
  have f2: "db_faults w2 = []" using H by (simp add: calm_def)
  obtain isNew ok w3 where d: "deduplicateListings now (rl_Token l) (mr_ChatID m) (mr_SearchID m) w2 = (isNew, ok, w3)"
    by (metis prod.exhaust)
  note D = dedup_calm [OF f2 d]
  have f3: "db_faults w3 = []" using D f2 by (simp add: grown_def)
  have g2: "grown w w2" using O H grown_trans by blast
  have g3: "grown w w3" using g2 D grown_trans by blast
  have na: "new_alerts (ms_accums ms2) = new_alerts (ms_accums ms)" using O by (simp add: ms2_def)
  have hid: "h (rl_Token l) \<longleftrightarrow> hides cfg w (mr_ChatID m) (rl_Token l)" using H O grown_hides [of w w1 cfg] by simp
  show ?thesis
  proof (cases "h (rl_Token l)")
    case True
    then have "ms' = ms2" "lx' = lx2" "w' = w2"
      using assms(2) o hd by (simp_all add: match_one_def ms2_def Let_def)
    then show ?thesis using H g2 na hid True by simp
  next
    case False
    then have a: "alert_step cfg i l m isNew ms2 lx2 w3 = (ms', lx', w')"
      using assms(2) o hd d D by (simp add: match_one_def ms2_def Let_def)
    note A = alert_step_grown [OF f3 a]
    have "calm cfg lx' w3" by (rule calm_grown [of cfg lx2 w2]) (use H D A in simp_all)
    then show ?thesis using A g2 g3 D na hid False by (auto simp: key_of_def grown_def)
  qed
qed

lemma fold_claims:
  "calm cfg lx w \<Longrightarrow> fold (match_one cfg now i l) found (ms, lx, w) = (ms', lx', w') \<Longrightarrow>
    grown w w' \<and> calm cfg lx' w' \<and>
    (\<forall>m \<in> set found. hides cfg w (mr_ChatID m) (rl_Token l) \<or> key_of l m \<in> claimed w') \<and>
    ((\<forall>m \<in> set found. hides cfg w (mr_ChatID m) (rl_Token l) \<or> key_of l m \<in> claimed w) \<longrightarrow>
      new_alerts (ms_accums ms') = new_alerts (ms_accums ms))"
proof (induction found arbitrary: ms lx w)
  case Nil
  then show ?case by simp
next
  case (Cons m found)
  obtain ms1 lx1 w1 where one: "match_one cfg now i l m (ms, lx, w) = (ms1, lx1, w1)" by (metis prod.exhaust)
  note M = match_one_claims [OF Cons.prems(1) one]
  have rest: "fold (match_one cfg now i l) found (ms1, lx1, w1) = (ms', lx', w')" using Cons.prems(2) one by simp
  have c1: "calm cfg lx1 w1" and g1: "grown w w1" using M by blast+
  note R = Cons.IH [OF c1 rest]
  have "claimed w \<subseteq> claimed w1" "claimed w1 \<subseteq> claimed w'" using M R by (simp_all add: grown_def)
  moreover have "\<forall>j \<in> set (m # found). hides cfg w (mr_ChatID j) (rl_Token l) \<or> key_of l j \<in> claimed w'"
    using M R \<open>claimed w1 \<subseteq> claimed w'\<close> unfolding grown_hides [OF g1, of cfg] list.set by blast
  moreover have "new_alerts (ms_accums ms') = new_alerts (ms_accums ms)"
    if "\<forall>j \<in> set (m # found). hides cfg w (mr_ChatID j) (rl_Token l) \<or> key_of l j \<in> claimed w"
  proof -
    have "new_alerts (ms_accums ms1) = new_alerts (ms_accums ms)" using M that by simp
    moreover have "\<forall>j \<in> set found. hides cfg w1 (mr_ChatID j) (rl_Token l) \<or> key_of l j \<in> claimed w1"
      using that \<open>claimed w \<subseteq> claimed w1\<close> unfolding grown_hides [OF g1, of cfg] list.set by blast
    ultimately show ?thesis using R by simp
  qed
  ultimately show ?case using R grown_trans [OF g1] by blast
qed

definition settled :: "sched_config \<Rightarrow> percolator \<Rightarrow> raw_listing list \<Rightarrow> world \<Rightarrow> world \<Rightarrow> bool" where
  "settled cfg p ls w w' \<longleftrightarrow>
     (\<forall>l \<in> set ls. \<forall>m \<in> set (Match p l). hides cfg w (mr_ChatID m) (rl_Token l) \<or> key_of l m \<in> claimed w')"

lemma match_from_claims:
  "calm cfg lx w \<Longrightarrow> match_from cfg now p i ls (ms, lx, w) = (ms', lx', w') \<Longrightarrow>
    grown w w' \<and> settled cfg p ls w w' \<and>
    (settled cfg p ls w w \<longrightarrow> new_alerts (ms_accums ms') = new_alerts (ms_accums ms))"
proof (induction ls arbitrary: i ms lx w)
  case Nil
  then show ?case by (simp add: settled_def)
next
  case (Cons l ls)
  obtain ms1 lx1 w1 where one: "match_listing cfg now p i l (ms, lx, w) = (ms1, lx1, w1)" by (metis prod.exhaust)
  have M: "grown w w1 \<and> calm cfg lx1 w1 \<and>
    (\<forall>m \<in> set (Match p l). hides cfg w (mr_ChatID m) (rl_Token l) \<or> key_of l m \<in> claimed w1) \<and>
    ((\<forall>m \<in> set (Match p l). hides cfg w (mr_ChatID m) (rl_Token l) \<or> key_of l m \<in> claimed w) \<longrightarrow>
      new_alerts (ms_accums ms1) = new_alerts (ms_accums ms))"
  proof (cases "Match p l = []")
    case True
    then show ?thesis using one Cons.prems(1) by (simp add: match_listing_def)
  next
    case False
    then have "fold (match_one cfg now i l) (Match p l) (note_matches i (Match p l) ms, lx, w) = (ms1, lx1, w1)"
      using one by (simp add: match_listing_def Let_def)
    from fold_claims [OF Cons.prems(1) this] show ?thesis by simp
  qed
  have rest: "match_from cfg now p (Suc i) ls (ms1, lx1, w1) = (ms', lx', w')" using Cons.prems(2) one by simp
  have c1: "calm cfg lx1 w1" and g1: "grown w w1" using M by blast+
  note R = Cons.IH [OF c1 rest]
  have sub: "claimed w \<subseteq> claimed w1" "claimed w1 \<subseteq> claimed w'" using M R by (simp_all add: grown_def)
  have "settled cfg p ls w w \<Longrightarrow> settled cfg p ls w1 w1"
    using sub(1) unfolding settled_def grown_hides [OF g1, of cfg] by blast
  moreover have "settled cfg p (l # ls) w w'"
    using M R sub(2) unfolding settled_def grown_hides [OF g1, of cfg] by (simp del: split_paired_All) blast
  moreover have "settled cfg p (l # ls) w w \<Longrightarrow> settled cfg p ls w w \<and> new_alerts (ms_accums ms1) = new_alerts (ms_accums ms)"
    using M unfolding settled_def by simp
  ultimately show ?case using R grown_trans [OF g1] by metis
qed

subsection \<open>Lemmas: a pass over settled prices\<close>

text \<open>A price is settled when it is not below the last recorded one. \<open>cached_prices\<close> says that the cache of the pass
  holds what the price table says.\<close>

definition prices_settled :: "raw_listing list \<Rightarrow> world \<Rightarrow> bool" where
  "prices_settled ls w \<longleftrightarrow> (\<forall>l \<in> set ls. \<forall>prev.
     0 < rl_Price l \<longrightarrow> latest_price (rl_Token l) (db_prices w) = Some prev \<longrightarrow> prev \<le> rl_Price l)"

definition cached_prices :: "match_locals \<Rightarrow> world \<Rightarrow> bool" where
  "cached_prices lx w \<longleftrightarrow> (\<forall>tok pr. map_of (mx_price lx) tok = Some pr \<longrightarrow>
     px_changed pr \<longrightarrow> latest_price tok (db_prices w) = Some (px_oldPrice pr))"

lemma open_accum_prices:
  "open_accum cfg m ms w = (ms', w') \<Longrightarrow> db_prices w' = db_prices w \<and> ms_priceDropCandidates ms' = ms_priceDropCandidates ms"
  by (auto simp: open_accum_def userLang_def GetUser_def db_call_def next_fault_def Let_def
      split: option.splits prod.splits if_splits list.splits sum.splits)

lemma hidden_for_prices:
  "hidden_for cfg chat lx w = (h, lx', w') \<Longrightarrow> db_prices w' = db_prices w \<and> mx_price lx' = mx_price lx"
  by (auto simp: hidden_for_def loadHiddenTokens_def ListHiddenTokens_def db_call_def next_fault_def
      split: option.splits prod.splits if_splits list.splits sum.splits)

lemma dedup_prices: "deduplicateListings now tok chat sid w = (isNew, ok, w') \<Longrightarrow> db_prices w' = db_prices w"
  by (auto simp: deduplicateListings_def ClaimNew_def claim_stmt_def db_call_def next_fault_def
      split: option.splits prod.splits if_splits list.splits sum.splits)

lemma price_for_cached:
  assumes "cached_prices lx w" "price_for l ms lx w = (pr, ms', lx', w')"
  shows "db_prices w' = db_prices w \<and> cached_prices lx' w' \<and>
    (px_changed pr \<longrightarrow> latest_price (rl_Token l) (db_prices w) = Some (px_oldPrice pr))"
proof (cases "map_of (mx_price lx) (rl_Token l)")
  case None
  obtain r w1 where k: "PeekPrice (rl_Token l) w = (r, w1)" by (metis prod.exhaust)
  have same: "db_prices w1 = db_prices w" and r: "\<forall>v. r = Inr v \<longrightarrow> v = latest_price (rl_Token l) (db_prices w)"
    using k by (auto simp: PeekPrice_def db_call_def next_fault_def split: list.splits if_splits)
  show ?thesis
    using assms None k same r
    by (auto simp: price_for_def cached_prices_def Let_def update_conv' split: sum.splits option.splits if_splits)
next
  case (Some pr')
  then show ?thesis using assms by (auto simp: price_for_def cached_prices_def)
qed

lemma alert_step_settled:
  assumes "cached_prices lx w" "prices_settled [l] w" "alert_step cfg i l m isNew ms lx w = (ms', lx', w')"
  shows "db_prices w' = db_prices w \<and> cached_prices lx' w' \<and> ms_priceDropCandidates ms' = ms_priceDropCandidates ms"
proof -
  obtain pr ms1 lx1 w1 where p: "price_for l ms lx w = (pr, ms1, lx1, w1)" by (metis prod.exhaust)
  note P = price_for_fields [OF p] price_for_cached [OF assms(1) p]
  have rise: "\<not> (0 < rl_Price l \<and> \<not> px_err pr \<and> px_changed pr \<and> rl_Price l < px_oldPrice pr)"
    using P assms(2) by (auto simp: prices_settled_def)
  show ?thesis
    using assms(1,3) P rise
    by (auto simp: alert_step_def p new_step_def cached_prices_def split: if_splits prod.splits)
qed

lemma match_one_settled:
  assumes "cached_prices lx w" "prices_settled [l] w" "match_one cfg now i l m (ms, lx, w) = (ms', lx', w')"
  shows "db_prices w' = db_prices w \<and> cached_prices lx' w' \<and> ms_priceDropCandidates ms' = ms_priceDropCandidates ms"
proof -
  obtain ms1 w1 where o: "open_accum cfg m ms w = (ms1, w1)" by (metis prod.exhaust)
  obtain h lx2 w2 where hd: "hidden_for cfg (mr_ChatID m) lx w1 = (h, lx2, w2)" by (metis prod.exhaust)
  obtain isNew ok w3 where d: "deduplicateListings now (rl_Token l) (mr_ChatID m) (mr_SearchID m) w2 = (isNew, ok, w3)"
    by (metis prod.exhaust)
  note N = open_accum_prices [OF o] hidden_for_prices [OF hd] dedup_prices [OF d]
  have c: "cached_prices lx2 w2" "cached_prices lx2 w3" "prices_settled [l] w3"
    using assms(1,2) N by (simp_all add: cached_prices_def prices_settled_def)
  show ?thesis
  proof (cases "h (rl_Token l) \<or> \<not> ok")
    case True
    then have "ms' = count_match m ms1 \<and> lx' = lx2 \<and> (w' = w2 \<or> w' = w3)"
      using assms(3) o hd d by (cases "h (rl_Token l)") (simp_all add: match_one_def Let_def)
    then show ?thesis using N c by auto
  next
    case False
    then have "alert_step cfg i l m isNew (count_match m ms1) lx2 w3 = (ms', lx', w')"
      using assms(3) o hd d by (simp add: match_one_def Let_def)
    from alert_step_settled [OF c(2,3) this] show ?thesis using N by simp
  qed
qed

lemma fold_settled:
  "cached_prices lx w \<Longrightarrow> prices_settled [l] w \<Longrightarrow> fold (match_one cfg now i l) found (ms, lx, w) = (ms', lx', w') \<Longrightarrow>
    db_prices w' = db_prices w \<and> cached_prices lx' w' \<and> ms_priceDropCandidates ms' = ms_priceDropCandidates ms"
proof (induction found arbitrary: ms lx w)
  case Nil
  then show ?case by simp
next
  case (Cons m found)
  obtain ms1 lx1 w1 where one: "match_one cfg now i l m (ms, lx, w) = (ms1, lx1, w1)" by (metis prod.exhaust)
  note M = match_one_settled [OF Cons.prems(1,2) one]
  show ?case using Cons.IH [of lx1 w1 ms1] Cons.prems(2,3) M one by (simp add: prices_settled_def)
qed

lemma match_from_settled:
  "cached_prices lx w \<Longrightarrow> prices_settled ls w \<Longrightarrow> match_from cfg now p i ls (ms, lx, w) = (ms', lx', w') \<Longrightarrow>
    ms_priceDropCandidates ms' = ms_priceDropCandidates ms"
proof (induction ls arbitrary: i ms lx w)
  case Nil
  then show ?case by simp
next
  case (Cons l ls)
  obtain ms1 lx1 w1 where one: "match_listing cfg now p i l (ms, lx, w) = (ms1, lx1, w1)" by (metis prod.exhaust)
  have l: "prices_settled [l] w" "prices_settled ls w" using Cons.prems(2) by (simp_all add: prices_settled_def)
  have M: "db_prices w1 = db_prices w \<and> cached_prices lx1 w1 \<and> ms_priceDropCandidates ms1 = ms_priceDropCandidates ms"
  proof (cases "Match p l = []")
    case True
    then show ?thesis using one Cons.prems(1) by (simp add: match_listing_def)
  next
    case False
    then have "fold (match_one cfg now i l) (Match p l) (note_matches i (Match p l) ms, lx, w) = (ms1, lx1, w1)"
      using one by (simp add: match_listing_def Let_def)
    from fold_settled [OF Cons.prems(1) l(1) this] show ?thesis by simp
  qed
  then show ?case using Cons.IH [of lx1 w1 "Suc i" ms1] Cons.prems(3) one l(2) by (simp add: prices_settled_def)
qed

subsection \<open>Properties\<close>

text \<open>C25. However many searches of a user overlap, and whatever store calls fail, one matching pass produces at most
  one alert for a user and a listing: over all searches, new-listing alerts and price-drop alerts together name
  every (chat, token) at most once.\<close>

theorem one_alert_per_user_and_listing:
  assumes "distinct (map s_ID (pc_rules p))"
  shows "distinct (cycle_alerts (fst (matchListingsToSearches cfg now p (newMatchState\<lparr>ms_raw := raw\<rparr>) w)))"
proof -
  let ?ms = "newMatchState\<lparr>ms_raw := raw\<rparr>"
  obtain ms' lx' w' where r: "match_from cfg now p 0 raw (?ms, no_locals, w) = (ms', lx', w')" by (metis prod.exhaust)
  have "alerts_ok (pc_rules p) ?ms no_locals"
    by (simp add: alerts_ok_def accums_ok_def newMatchState_def no_locals_def cycle_alerts_def new_alerts_def drop_alerts_def)
  from match_from_ok [OF assms this _ r] have "mset (cycle_alerts ms') = mset (mx_delivered lx')" "distinct (mx_delivered lx')"
    by (simp_all add: alerts_ok_def)
  then have "distinct (cycle_alerts ms')" by (metis mset_eq_imp_distinct_iff)
  then show ?thesis using r by (simp add: matchListingsToSearches_def newMatchState_def)
qed

theorem one_alert_per_user_and_listing_witness:
  "distinct (cycle_alerts (fst (matchListingsToSearches plain_config 5 (Load percolator_New [zero_search\<lparr>s_ID := 1\<rparr>, zero_search\<lparr>s_ID := 2\<rparr>])
     (newMatchState\<lparr>ms_raw := [zero_raw_listing]\<rparr>) empty_world)))"
  by (rule one_alert_per_user_and_listing) (simp add: Load_def)

lemma refused_price_stays:
  assumes "db_faults w = []" "latest_price tok (db_prices w) = Some prev" "price \<noteq> prev" "implausiblePriceSwing prev price"
  shows "((\<lambda>w. snd (RecordPrice now tok price w)) ^^ n) w = w"
  by (induction n) (use assms in \<open>simp_all add: RecordPrice_def record_price_tx_def\<close>)

text \<open>The refusal of implausible prices does not stop their alerts: a drop to less than a third of the last
  recorded price is never recorded, so every later cycle finds the old price again and prepares the price-drop
  alert anew, for ever.\<close>

lemma implausible_drop_alerts_every_cycle:
  assumes "db_faults w = []" "latest_price (rl_Token l) (db_prices w) = Some prev" "0 < rl_Price l" "3 * rl_Price l < prev"
    and "sc_Prices cfg"
  shows "ms_priceDropCandidates (fst (alert_step cfg i l m isNew ms no_locals
      (((\<lambda>w. snd (RecordPrice now (rl_Token l) (rl_Price l) w)) ^^ n) w))) =
    ms_priceDropCandidates ms @ [\<lparr>pd_rawIdx = i, pd_searchID = mr_SearchID m, pd_oldPrice = prev\<rparr>]"
proof -
  have "implausiblePriceSwing prev (rl_Price l)" "rl_Price l \<noteq> prev" "rl_Price l < prev"
    using assms(3,4) by (simp_all add: implausible_iff)
  then show ?thesis
    using assms refused_price_stays [OF assms(1,2)]
    by (simp add: alert_step_def price_for_def PeekPrice_def no_locals_def already_delivered_def Let_def)
qed

definition sample_prices :: world where
  "sample_prices = empty_world\<lparr>db_prices := [\<lparr>pr_id = 0, pr_token = ''t'', pr_price = 90000, pr_observed = 1\<rparr>]\<rparr>"

lemma implausible_drop_alerts_every_cycle_witness:
  "length (ms_priceDropCandidates (fst (alert_step (plain_config\<lparr>sc_Prices := True\<rparr>) 0 (zero_raw_listing\<lparr>rl_Token := ''t'', rl_Price := 9000\<rparr>)
     \<lparr>mr_SearchID = 1, mr_ChatID = 2, mr_SearchName = ''a'', mr_Search = zero_search\<rparr> True newMatchState no_locals
     (((\<lambda>w. snd (RecordPrice 7 ''t'' 9000 w)) ^^ 5) sample_prices)))) = 1"
proof -
  have "db_faults sample_prices = []" "latest_price ''t'' (db_prices sample_prices) = Some 90000"
    by (simp_all add: sample_prices_def empty_world_def db.defs empty_db_def latest_price_def token_rows_def)
  then show ?thesis
    using implausible_drop_alerts_every_cycle [of sample_prices "zero_raw_listing\<lparr>rl_Token := ''t'', rl_Price := 9000\<rparr>" 90000
      "plain_config\<lparr>sc_Prices := True\<rparr>" 0 "\<lparr>mr_SearchID = 1, mr_ChatID = 2, mr_SearchName = ''a'', mr_Search = zero_search\<rparr>" True newMatchState 5 7]
    by (simp add: newMatchState_def)
qed

text \<open>C26. A user is told of a listing once. When a cycle has matched its listings and no store call failed, matching
  the same listings to the same searches again alerts nothing, neither a new listing nor a price drop: in any later
  state of the store that has kept the claims and the hidden listings and answers every call, and in which no
  listing is cheaper than its last recorded price. So a live listing that is served in every cycle is alerted in the
  first one only, as long as its claim is not released and its price does not drop.\<close>

theorem second_pass_is_silent:
  assumes "db_faults w = []" "first = snd (matchListingsToSearches cfg now p (newMatchState\<lparr>ms_raw := raw\<rparr>) w)"
    and "db_faults w2 = []" "dom (map_of (db_seen first)) \<subseteq> dom (map_of (db_seen w2))" "set (db_hidden first) \<subseteq> set (db_hidden w2)"
    and "prices_settled raw w2"
  shows "cycle_alerts (fst (matchListingsToSearches cfg later p (newMatchState\<lparr>ms_raw := raw\<rparr>) w2)) = []"
proof -
  let ?ms = "newMatchState\<lparr>ms_raw := raw\<rparr>"
  obtain ms1 lx1 w1 where r1: "match_from cfg now p 0 raw (?ms, no_locals, w) = (ms1, lx1, w1)" by (metis prod.exhaust)
  obtain ms2 lx2 w3 where r2: "match_from cfg later p 0 raw (?ms, no_locals, w2) = (ms2, lx2, w3)" by (metis prod.exhaust)
  have first: "first = w1" using assms(2) r1 by (simp add: matchListingsToSearches_def newMatchState_def)
  have calm: "calm cfg no_locals v" if "db_faults v = []" for v using that by (simp add: calm_def no_locals_def)
  note R1 = match_from_claims [OF calm [OF assms(1)] r1] and R2 = match_from_claims [OF calm [OF assms(3)] r2]
  have "settled cfg p raw w2 w2"
    unfolding settled_def
  proof (intro ballI)
    fix l m assume "l \<in> set raw" "m \<in> set (Match p l)"
    then have "hides cfg w (mr_ChatID m) (rl_Token l) \<or> key_of l m \<in> claimed w1" using R1 by (simp add: settled_def)
    then show "hides cfg w2 (mr_ChatID m) (rl_Token l) \<or> key_of l m \<in> claimed w2"
      using R1 assms(4,5) unfolding first grown_def hides_def claimed_def by fastforce
  qed
  then have "new_alerts (ms_accums ms2) = new_alerts (ms_accums ?ms)" using R2 by blast
  moreover have "ms_priceDropCandidates ms2 = ms_priceDropCandidates ?ms"
    by (rule match_from_settled [OF _ assms(6) r2]) (simp add: cached_prices_def no_locals_def)
  ultimately show ?thesis
    using r2 by (simp add: matchListingsToSearches_def newMatchState_def cycle_alerts_def new_alerts_def drop_alerts_def)
qed

text \<open>In between, the cycle records the price of the listing.\<close>

definition recorded :: "world \<Rightarrow> world" where
  "recorded w = w\<lparr>db_prices := [\<lparr>pr_id = 0, pr_token = '''', pr_price = 9000, pr_observed = 6\<rparr>]\<rparr>"

theorem second_pass_is_silent_witness:
  "cycle_alerts (fst (matchListingsToSearches (plain_config\<lparr>sc_Prices := True\<rparr>) 9 (Load percolator_New [zero_search])
    (newMatchState\<lparr>ms_raw := [zero_raw_listing\<lparr>rl_Price := 9000\<rparr>]\<rparr>)
    (recorded (snd (matchListingsToSearches (plain_config\<lparr>sc_Prices := True\<rparr>) 5 (Load percolator_New [zero_search])
      (newMatchState\<lparr>ms_raw := [zero_raw_listing\<lparr>rl_Price := 9000\<rparr>]\<rparr>) empty_world))))) = []"
  (is "cycle_alerts (fst (matchListingsToSearches ?cfg 9 ?p ?ms (recorded ?w1))) = []")
proof (rule second_pass_is_silent [where w = empty_world and first = ?w1 and now = 5])
  show "db_faults empty_world = []" by (simp add: empty_world_def db.defs empty_db_def)
  obtain ms1 lx1 w1 where r: "match_from ?cfg 5 ?p 0 (ms_raw ?ms) (?ms, no_locals, empty_world) = (ms1, lx1, w1)" by (metis prod.exhaust)
  have c: "calm ?cfg no_locals empty_world" by (simp add: calm_def no_locals_def empty_world_def db.defs empty_db_def)
  have "?w1 = w1" using r by (simp add: matchListingsToSearches_def)
  moreover have "db_faults w1 = []"
    using match_from_claims [OF c r] by (simp add: grown_def empty_world_def db.defs empty_db_def)
  ultimately show "db_faults (recorded ?w1) = []" by (simp add: recorded_def)
qed (simp_all add: recorded_def prices_settled_def latest_price_def token_rows_def zero_raw_listing_def)

end
