(* ===== verification/Delivery.thy ===== *)
theory Delivery
  imports World
begin

section \<open>Delivery of alerts (internal/scheduler/delivery.go)\<close>

subsection \<open>Messages that must not be sent (internal/notifier/notifier.go)\<close>

definition MinSafeMessageLen :: nat where "MinSafeMessageLen = 10"

definition IsMalformedMessage :: "string \<Rightarrow> bool" where
  "IsMalformedMessage text =
    (let trimmed = trim_space text in
     if length trimmed < MinSafeMessageLen then True
     else if contains trimmed ''{{'' \<and> contains trimmed ''}}'' then True
     else if contains trimmed ''%!'' then True
     else False)"

subsection \<open>The order of a batch\<close>

definition maxBatchSize :: nat where "maxBatchSize = 10"

definition dealScoreValue :: "listing \<Rightarrow> int" where
  "dealScoreValue l = (case l_DealScore l of Some d \<Rightarrow> si_Score d | None \<Rightarrow> -1)"

definition better :: "listing \<Rightarrow> listing \<Rightarrow> bool" where
  "better a b =
    (if l_FitnessScore a \<noteq> l_FitnessScore b then l_FitnessScore a > l_FitnessScore b
     else dealScoreValue a > dealScoreValue b)"

text \<open>\<open>sort.SliceStable\<close>: the stable sort for \<open>better\<close>, as an insertion sort.\<close>

fun insert_best :: "listing \<Rightarrow> listing list \<Rightarrow> listing list" where
  "insert_best x [] = [x]"
| "insert_best x (y # ys) = (if better y x then y # insert_best x ys else x # y # ys)"

definition sortListingsByScore :: "listing list \<Rightarrow> listing list" where
  "sortListingsByScore ls = foldr insert_best ls []"

subsection \<open>The two strategies\<close>

definition pop_outcome :: "world \<Rightarrow> delivery_error option \<times> world" where
  "pop_outcome w = (case w_outcomes w of [] \<Rightarrow> (None, w) | r # rs \<Rightarrow> (r, w\<lparr>w_outcomes := rs\<rparr>))"

definition send :: "outgoing \<Rightarrow> world \<Rightarrow> delivery_error option \<times> world" where
  "send out w = (case pop_outcome w of
     (None, w') \<Rightarrow> (None, w'\<lparr>w_sent := w_sent w' @ [out]\<rparr>) | (Some e, w') \<Rightarrow> (Some e, w'))"

datatype delivery = Instant int string string bool | Digest string

definition instant_batch :: "renderer \<Rightarrow> int \<Rightarrow> string \<Rightarrow> string \<Rightarrow> bool \<Rightarrow> int \<Rightarrow> listing list \<Rightarrow> world \<Rightarrow> delivery_error option \<times> world" where
  "instant_batch render searchID searchName lang publisher chatID listings w =
    (let sorted = sortListingsByScore listings;
         truncated = length sorted - maxBatchSize;
         listings = (if length sorted > maxBatchSize then take maxBatchSize sorted else sorted)
     in if publisher then
          let msg = render (BatchMessage listings lang truncated)
          in if IsMalformedMessage msg then (Some MalformedMessage, w)
             else send (Published chatID searchID searchName (map rl_Token listings) msg lang) w
        else send (Notified chatID listings lang) w)"

definition instant_raw :: "int \<Rightarrow> string \<Rightarrow> string \<Rightarrow> bool \<Rightarrow> int \<Rightarrow> string \<Rightarrow> world \<Rightarrow> delivery_error option \<times> world" where
  "instant_raw searchID searchName lang publisher chatID message w =
    (if IsMalformedMessage message then (Some MalformedMessage, w)
     else if publisher then send (Published chatID searchID searchName [] message lang) w
     else send (NotifiedRaw chatID message) w)"

definition store_error :: "(db_error + unit) \<times> world \<Rightarrow> delivery_error option \<times> world" where
  "store_error r = (case r of (Inr _, w) \<Rightarrow> (None, w) | (Inl _, w) \<Rightarrow> (Some (DeliveryFailed ''add digest item''), w))"

definition digest_batch :: "renderer \<Rightarrow> gotime \<Rightarrow> string \<Rightarrow> int \<Rightarrow> listing list \<Rightarrow> world \<Rightarrow> delivery_error option \<times> world" where
  "digest_batch render now lang chatID listings w =
    (let sorted = sortListingsByScore listings;
         truncated = length sorted - maxBatchSize;
         listings = (if length sorted > maxBatchSize then take maxBatchSize sorted else sorted);
         msg = render (BatchMessage listings lang truncated)
     in if IsMalformedMessage msg then (Some MalformedMessage, w)
        else store_error (AddDigestItem now chatID msg (map rl_Token listings) w))"

definition digest_raw :: "gotime \<Rightarrow> int \<Rightarrow> string \<Rightarrow> world \<Rightarrow> delivery_error option \<times> world" where
  "digest_raw now chatID message w =
    (if IsMalformedMessage message then (Some MalformedMessage, w)
     else store_error (AddDigestItem now chatID message [] w))"

fun DeliverBatch :: "renderer \<Rightarrow> gotime \<Rightarrow> delivery \<Rightarrow> int \<Rightarrow> listing list \<Rightarrow> world \<Rightarrow> delivery_error option \<times> world" where
  "DeliverBatch render now (Instant searchID searchName lang pub) chatID ls w = instant_batch render searchID searchName lang pub chatID ls w"
| "DeliverBatch render now (Digest lang) chatID ls w = digest_batch render now lang chatID ls w"

fun DeliverRaw :: "gotime \<Rightarrow> delivery \<Rightarrow> int \<Rightarrow> string \<Rightarrow> world \<Rightarrow> delivery_error option \<times> world" where
  "DeliverRaw now (Instant searchID searchName lang pub) chatID msg w = instant_raw searchID searchName lang pub chatID msg w"
| "DeliverRaw now (Digest lang) chatID msg w = digest_raw now chatID msg w"

text \<open>The choice of the strategy, with the digest mode cached for five minutes (\<open>deliveryFor\<close>).\<close>

definition digestCacheTTL :: duration where "digestCacheTTL = minutes 5"

definition digest_mode_for :: "gotime \<Rightarrow> int \<Rightarrow> world \<Rightarrow> string \<times> world" where
  "digest_mode_for now chatID w =
    (case map_of (w_digestModes w) chatID of
       Some dm \<Rightarrow>
         if now - dm_cachedAt dm < digestCacheTTL then (dm_mode dm, w)
         else (case GetDigestMode chatID w of
                 (Inr (m, _), w') \<Rightarrow> (m, w'\<lparr>w_digestModes := AList.update chatID \<lparr>dm_mode = m, dm_cachedAt = now\<rparr> (w_digestModes w')\<rparr>)
               | (Inl _, w') \<Rightarrow> ('''', w'))
     | None \<Rightarrow>
         (case GetDigestMode chatID w of
            (Inr (m, _), w') \<Rightarrow> (m, w'\<lparr>w_digestModes := AList.update chatID \<lparr>dm_mode = m, dm_cachedAt = now\<rparr> (w_digestModes w')\<rparr>)
          | (Inl _, w') \<Rightarrow> ('''', w')))"

definition deliveryFor :: "sched_config \<Rightarrow> gotime \<Rightarrow> int \<Rightarrow> string \<Rightarrow> int \<Rightarrow> string \<Rightarrow> world \<Rightarrow> delivery \<times> world" where
  "deliveryFor cfg now chatID lang searchID searchName w =
    (let (mode, w) = (if sc_Digests cfg then digest_mode_for now chatID w else ('''', w))
     in if mode = ''digest'' then (Digest lang, w) else (Instant searchID searchName lang (sc_Publisher cfg), w))"

subsection \<open>The contract of a strategy\<close>

text \<open>
  What \<open>deliverResults\<close> relies on, for \<open>DeliveryStrategy\<close>: a success adds one alert for the chat with the tokens
  of its best ten listings, an error adds none, and neither touches the dedup claims or the prices.
\<close>

definition best_tokens :: "listing list \<Rightarrow> string list" where
  "best_tokens ls = map rl_Token (take maxBatchSize (sortListingsByScore ls))"

locale delivery_strategy =
  fixes batch :: "int \<Rightarrow> listing list \<Rightarrow> world \<Rightarrow> delivery_error option \<times> world"
    and raw :: "int \<Rightarrow> string \<Rightarrow> world \<Rightarrow> delivery_error option \<times> world"
    and log :: "world \<Rightarrow> (int \<times> string list) list"
  assumes batch_ok: "batch chat ls w = (None, w') \<Longrightarrow> log w' = log w @ [(chat, best_tokens ls)]"
    and batch_err: "batch chat ls w = (Some e, w') \<Longrightarrow> log w' = log w"
    and raw_ok: "raw chat msg w = (None, w') \<Longrightarrow> log w' = log w @ [(chat, [])]"
    and raw_err: "raw chat msg w = (Some e, w') \<Longrightarrow> log w' = log w"
    and batch_claims: "batch chat ls w = (r, w') \<Longrightarrow> db_seen w' = db_seen w \<and> db_prices w' = db_prices w"
    and raw_claims: "raw chat msg w = (r, w') \<Longrightarrow> db_seen w' = db_seen w \<and> db_prices w' = db_prices w"
begin

text \<open>A failed batch can be released and sent again: nothing was recorded for it.\<close>

lemma retry_once:
  assumes "batch chat ls w = (Some e, w1)" "batch chat ls w1 = (None, w2)"
  shows "log w2 = log w @ [(chat, best_tokens ls)]"
  using batch_err [OF assms(1)] batch_ok [OF assms(2)] by simp

lemma batch_at_most_ten: "batch chat ls w = (r, w') \<Longrightarrow> log w' = log w \<or> (\<exists>ts. log w' = log w @ [(chat, ts)] \<and> length ts \<le> 10)"
  using batch_ok batch_err by (cases r) (fastforce simp: best_tokens_def maxBatchSize_def)+

end

fun out_tokens :: "outgoing \<Rightarrow> int \<times> string list" where
  "out_tokens (Published chat sid name toks text lang) = (chat, toks)"
| "out_tokens (Notified chat ls lang) = (chat, map rl_Token ls)"
| "out_tokens (NotifiedRaw chat text) = (chat, [])"

definition sent_log :: "world \<Rightarrow> (int \<times> string list) list" where
  "sent_log w = map out_tokens (w_sent w)"

definition digest_log :: "world \<Rightarrow> (int \<times> string list) list" where
  "digest_log w = map (\<lambda>r. (dg_chat r, dg_tokens r)) (db_digest w)"

lemma truncated_eq: "(if length xs > n then take n xs else xs) = take n xs"
  by simp

lemma send_log:
  assumes "send out w = (r, w')"
  shows "sent_log w' = (case r of None \<Rightarrow> sent_log w @ [out_tokens out] | Some _ \<Rightarrow> sent_log w) \<and>
    db_seen w' = db_seen w \<and> db_prices w' = db_prices w"
  using assms by (auto simp: send_def pop_outcome_def sent_log_def split: list.splits option.splits prod.splits)

lemma instant_batch_log:
  assumes "instant_batch render sid name lang pub chat ls w = (r, w')"
  shows "sent_log w' = (case r of None \<Rightarrow> sent_log w @ [(chat, best_tokens ls)] | Some _ \<Rightarrow> sent_log w) \<and>
    db_seen w' = db_seen w \<and> db_prices w' = db_prices w"
  using assms send_log
  by (fastforce simp: instant_batch_def Let_def best_tokens_def truncated_eq split: if_splits option.splits)

lemma instant_raw_log:
  assumes "instant_raw sid name lang pub chat msg w = (r, w')"
  shows "sent_log w' = (case r of None \<Rightarrow> sent_log w @ [(chat, [])] | Some _ \<Rightarrow> sent_log w) \<and>
    db_seen w' = db_seen w \<and> db_prices w' = db_prices w"
  using assms send_log by (fastforce simp: instant_raw_def split: if_splits option.splits)

lemma store_error_log:
  assumes "store_error (AddDigestItem now chat payload toks w) = (r, w')"
  shows "digest_log w' = (case r of None \<Rightarrow> digest_log w @ [(chat, toks)] | Some _ \<Rightarrow> digest_log w) \<and>
    db_seen w' = db_seen w \<and> db_prices w' = db_prices w"
  using assms
  by (auto simp: store_error_def AddDigestItem_def db_call_def next_fault_def digest_log_def
      split: sum.splits prod.splits if_splits list.splits)

lemma digest_batch_log:
  assumes "digest_batch render now lang chat ls w = (r, w')"
  shows "digest_log w' = (case r of None \<Rightarrow> digest_log w @ [(chat, best_tokens ls)] | Some _ \<Rightarrow> digest_log w) \<and>
    db_seen w' = db_seen w \<and> db_prices w' = db_prices w"
  using assms store_error_log
  by (fastforce simp: digest_batch_def Let_def best_tokens_def truncated_eq split: if_splits option.splits)

lemma digest_raw_log:
  assumes "digest_raw now chat msg w = (r, w')"
  shows "digest_log w' = (case r of None \<Rightarrow> digest_log w @ [(chat, [])] | Some _ \<Rightarrow> digest_log w) \<and>
    db_seen w' = db_seen w \<and> db_prices w' = db_prices w"
  using assms store_error_log by (fastforce simp: digest_raw_def split: if_splits option.splits)

interpretation instant: delivery_strategy "instant_batch render sid name lang pub" "instant_raw sid name lang pub" sent_log
  for render sid name lang pub
  by unfold_locales (drule instant_batch_log instant_raw_log; simp)+

interpretation digest: delivery_strategy "digest_batch render now lang" "digest_raw now" digest_log
  for render now lang
  by unfold_locales (drule digest_batch_log digest_raw_log; simp)+

subsection \<open>Lemmas: the order of a batch\<close>

definition ranks :: "listing \<Rightarrow> listing \<Rightarrow> bool" where "ranks a b \<longleftrightarrow> \<not> better b a"

lemma ranks_trans: "ranks a b \<Longrightarrow> ranks b c \<Longrightarrow> ranks a c"
  by (auto simp: ranks_def better_def split: if_splits)

lemma better_ranks: "better a b \<Longrightarrow> ranks a b"
  by (auto simp: ranks_def better_def split: if_splits)

lemma insert_best_props:
  "mset (insert_best x ys) = add_mset x (mset ys)"
  "sorted_wrt ranks ys \<Longrightarrow> sorted_wrt ranks (insert_best x ys)"
proof -
  show m: "mset (insert_best x ys) = add_mset x (mset ys)" for ys
    by (induction ys) auto
  then have s: "set (insert_best x ys) = insert x (set ys)" for ys
    by (metis set_mset_add_mset_insert set_mset_mset)
  show "sorted_wrt ranks ys \<Longrightarrow> sorted_wrt ranks (insert_best x ys)"
  proof (induction ys)
    case Nil
    then show ?case by simp
  next
    case (Cons y ys)
    then show ?case
      by (auto simp: s ranks_def [symmetric] intro: better_ranks ranks_trans)
  qed
qed

lemma sort_best_props:
  "mset (sortListingsByScore ls) = mset ls" "sorted_wrt ranks (sortListingsByScore ls)"
  by (induction ls) (simp_all add: sortListingsByScore_def insert_best_props)

lemma better_irrefl [simp]: "\<not> better x x"
  by (simp add: better_def)

lemma insert_best_equal:
  "filter (\<lambda>l. \<not> better l x \<and> \<not> better x l) (insert_best x ys) = x # filter (\<lambda>l. \<not> better l x \<and> \<not> better x l) ys"
  by (induction ys) simp_all

lemma insert_best_other:
  "\<not> P x \<Longrightarrow> filter P (insert_best x ys) = filter P ys"
  by (induction ys) simp_all

lemma same_rank_iff:
  "\<not> better a b \<and> \<not> better b a \<longleftrightarrow> l_FitnessScore a = l_FitnessScore b \<and> dealScoreValue a = dealScoreValue b"
  by (auto simp: better_def)

text \<open>Stability: listings of the same rank keep their order.\<close>

lemma sort_best_stable:
  "filter (\<lambda>l. \<not> better l x \<and> \<not> better x l) (sortListingsByScore ls) = filter (\<lambda>l. \<not> better l x \<and> \<not> better x l) ls"
proof (induction ls)
  case Nil
  then show ?case by (simp add: sortListingsByScore_def)
next
  case (Cons a ls)
  let ?P = "\<lambda>l. \<not> better l x \<and> \<not> better x l"
  have unfold: "sortListingsByScore (a # ls) = insert_best a (sortListingsByScore ls)"
    by (simp add: sortListingsByScore_def)
  show ?case
  proof (cases "?P a")
    case True
    then have P: "?P = (\<lambda>l. \<not> better l a \<and> \<not> better a l)"
      unfolding same_rank_iff by auto
    have "filter ?P (insert_best a (sortListingsByScore ls)) = a # filter ?P (sortListingsByScore ls)"
      unfolding P by (rule insert_best_equal)
    then show ?thesis using Cons True by (simp add: unfold)
  next
    case False
    then show ?thesis using Cons insert_best_other [of ?P, OF False] by (simp add: unfold)
  qed
qed

subsection \<open>Properties\<close>

text \<open>An instant alert that goes out carries the ten best listings of the batch: they come first in a stable
  best-first order of the whole batch, and no listing that is left out ranks above one that is sent. An alert that
  fails is not recorded as sent.\<close>

lemma instant_alert_is_best_ten:
  assumes "DeliverBatch render now (Instant sid name lang pub) chat ls w = (r, w')"
  shows "case r of
      Some e \<Rightarrow> sent_log w' = sent_log w
    | None \<Rightarrow> (\<exists>best rest. mset (best @ rest) = mset ls \<and> length best = min 10 (length ls) \<and>
        (\<forall>b \<in> set best. \<forall>l \<in> set rest. \<not> better l b) \<and> sorted_wrt ranks best \<and>
        sent_log w' = sent_log w @ [(chat, map rl_Token best)])"
proof (cases r)
  case None
  let ?s = "sortListingsByScore ls"
  have "sorted_wrt ranks (take 10 ?s @ drop 10 ?s)" using sort_best_props(2) [of ls] by simp
  then have "sorted_wrt ranks (take 10 ?s)" "\<forall>b \<in> set (take 10 ?s). \<forall>l \<in> set (drop 10 ?s). \<not> better l b"
    unfolding sorted_wrt_append ranks_def by blast+
  moreover have "mset (take 10 ?s @ drop 10 ?s) = mset ls" by (simp only: append_take_drop_id sort_best_props(1))
  moreover have "length (take 10 ?s) = min 10 (length ls)"
    using arg_cong [OF sort_best_props(1) [of ls], of size] by simp
  moreover have "sent_log w' = sent_log w @ [(chat, map rl_Token (take 10 ?s))]"
    using instant_batch_log [of render sid name lang pub chat ls w r w'] assms None
    by (simp add: best_tokens_def maxBatchSize_def)
  ultimately show ?thesis using None by (simp only: option.case) blast
next
  case (Some e)
  then show ?thesis using instant_batch_log [of render sid name lang pub chat ls w r w'] assms by simp
qed

lemma instant_alert_is_best_ten_witness:
  "\<exists>best rest. mset (best @ rest) = mset [listing_of_raw zero_raw_listing ''a''] \<and>
    sent_log (snd (DeliverBatch (\<lambda>_. []) 0 (Instant 1 ''a'' ''he'' False) 7 [listing_of_raw zero_raw_listing ''a''] empty_world)) =
      sent_log empty_world @ [(7, map rl_Token best)]"
proof -
  let ?r = "DeliverBatch (\<lambda>_. []) 0 (Instant 1 ''a'' ''he'' False) 7 [listing_of_raw zero_raw_listing ''a''] empty_world"
  have "fst ?r = None"
    by (simp add: instant_batch_def send_def pop_outcome_def empty_world_def db.defs empty_db_def Let_def)
  then have "?r = (None, snd ?r)" by (metis prod.collapse)
  from instant_alert_is_best_ten [OF this] show ?thesis by auto
qed

end
