(* ===== verification/Pipeline.thy ===== *)
theory Pipeline
  imports World Fitness
begin

section \<open>The catalogue prices (internal/pricelist/service.go)\<close>

text \<open>The page that the service fetches is the argument \<open>page\<close>: the base price read from it, 0 or less when there
  is none.\<close>

definition pl_cacheTTL :: duration where "pl_cacheTTL = hours (7 * 24)"
definition maxFetchPerCycle :: int where "maxFetchPerCycle = 20"
definition fetchCooldown :: duration where "fetchCooldown = seconds 2"

definition GetPriceListEntry :: "int \<Rightarrow> int \<Rightarrow> 'z db_scheme \<Rightarrow> (db_error + price_list_entry option) \<times> 'z db_scheme" where
  "GetPriceListEntry subModelID year = db_call (DbError ''get price list entry'') (\<lambda>d.
     (Inr (map_of (db_pricelist d) (subModelID, year)), d))"

definition SetPriceListEntry :: "gotime \<Rightarrow> int \<Rightarrow> int \<Rightarrow> int \<Rightarrow> 'z db_scheme \<Rightarrow> (db_error + unit) \<times> 'z db_scheme" where
  "SetPriceListEntry now subModelID year price = db_call (DbError ''set price list entry'') (\<lambda>d.
     (Inr (), d\<lparr>db_pricelist := AList.update (subModelID, year) \<lparr>ple_BasePrice = price, ple_FetchedAt = now\<rparr> (db_pricelist d)\<rparr>))"

definition ResetCycleCounter :: "world \<Rightarrow> world" where
  "ResetCycleCounter w = w\<lparr>w_plFetchCount := 0\<rparr>"

definition stale_answer :: "price_list_entry option \<Rightarrow> int \<times> bool" where
  "stale_answer e = (case e of Some entry \<Rightarrow> (ple_BasePrice entry, True) | None \<Rightarrow> (0, False))"

definition pl_Lookup :: "(int \<Rightarrow> int \<Rightarrow> int) \<Rightarrow> gotime \<Rightarrow> int \<Rightarrow> int \<Rightarrow> world \<Rightarrow> (int \<times> bool) \<times> world" where
  "pl_Lookup page now subModelID year w =
    (if subModelID \<le> 0 \<or> year \<le> 0 then ((0, False), w)
     else case GetPriceListEntry subModelID year w of
       (Inl _, w) \<Rightarrow> ((0, False), w)
     | (Inr e, w) \<Rightarrow>
         if (case e of Some entry \<Rightarrow> now - ple_FetchedAt entry < pl_cacheTTL \<and> ple_BasePrice entry > 0 | None \<Rightarrow> False)
         then ((ple_BasePrice (the e), True), w)
         else if w_plFetchCount w \<ge> maxFetchPerCycle then (stale_answer e, w)
         else if now - w_plLastFetch w < fetchCooldown then (stale_answer e, w)
         else
           let w = w\<lparr>w_plFetchCount := w_plFetchCount w + 1, w_plLastFetch := now\<rparr>;
               price = page subModelID year
           in if price \<le> 0 then (stale_answer e, w)
              else ((price, True), snd (SetPriceListEntry now subModelID year price w)))"

section \<open>The listing pipeline (internal/scheduler/pipeline.go)\<close>

record process_params =
  pp_ChatID :: int
  pp_SearchID :: int
  pp_SearchName :: string
  pp_MarketCache :: "market_cache option"
  pp_PriceMax :: int
  pp_MaxKm :: int
  pp_MaxHand :: int
  pp_YearMin :: int
  pp_YearMax :: int
  pp_EngineMinCC :: int
  pp_SkipPrefill :: bool

definition ProcessParamsFromSearch :: "search \<Rightarrow> market_cache option \<Rightarrow> process_params" where
  "ProcessParamsFromSearch search marketCache =
    \<lparr>pp_ChatID = s_ChatID search, pp_SearchID = s_ID search, pp_SearchName = s_Name search, pp_MarketCache = marketCache,
     pp_PriceMax = s_PriceMax search, pp_MaxKm = s_MaxKm search, pp_MaxHand = s_MaxHand search, pp_YearMin = s_YearMin search,
     pp_YearMax = s_YearMax search, pp_EngineMinCC = s_EngineMinCC search, pp_SkipPrefill = False\<rparr>"

definition unenriched :: "raw_listing \<Rightarrow> bool" where
  "unenriched l \<longleftrightarrow> rl_Km l \<le> 0 \<or> rl_City l = '''' \<or> rl_ImageURL l = ''''"

text \<open>The loop body shared, word for word, by the two \<open>prefillFromDB\<close> of the package.\<close>

definition prefill_one :: "(string \<rightharpoonup> enrichment_record) \<Rightarrow> raw_listing \<Rightarrow> raw_listing" where
  "prefill_one data l =
    (case data (rl_Token l) of
       None \<Rightarrow> l
     | Some rec \<Rightarrow>
         l\<lparr>rl_Km := (if rl_Km l \<le> 0 \<and> er_Km rec > 0 then er_Km rec else rl_Km l),
           rl_City := (if rl_City l = '''' \<and> er_City rec \<noteq> '''' then er_City rec else rl_City l),
           rl_ImageURL := (if rl_ImageURL l = '''' \<and> er_ImageURL rec \<noteq> '''' then er_ImageURL rec else rl_ImageURL l)\<rparr>)"

definition pipeline_prefill :: "sched_config \<Rightarrow> raw_listing list \<Rightarrow> world \<Rightarrow> raw_listing list \<times> world" where
  "pipeline_prefill cfg ls w =
    (if \<not> sc_Listings cfg then (ls, w)
     else
       let tokens = map rl_Token (filter unenriched ls)
       in if tokens = [] then (ls, w)
          else case LookupEnrichmentData tokens w of
            (Inl _, w) \<Rightarrow> (ls, w)
          | (Inr data, w) \<Rightarrow> (map (prefill_one data) ls, w))"

text \<open>\<open>Scheduler.prefillFromDB\<close>; the flag is its result.\<close>

definition prefillFromDB :: "raw_listing list \<Rightarrow> world \<Rightarrow> bool \<times> raw_listing list \<times> world" where
  "prefillFromDB ls w =
    (let tokens = map rl_Token (filter unenriched ls)
     in if tokens = [] then (True, ls, w)
        else case LookupEnrichmentData tokens w of
          (Inl _, w) \<Rightarrow> (False, ls, w)
        | (Inr data, w) \<Rightarrow> (True, map (prefill_one data) ls, w))"

text \<open>The inline enricher, which the API may configure, is an argument: it returns how many listings it enriched.\<close>

type_synonym inline_enricher = "raw_listing list \<Rightarrow> int \<times> raw_listing list"

definition zero_record :: listing_record where
  "zero_record = \<lparr>lr_Token = '''', lr_ChatID = 0, lr_SearchID = 0, lr_SearchName = '''', lr_Manufacturer = '''', lr_Model = '''',
     lr_SubModel = '''', lr_SubModelID = 0, lr_BodyType = '''', lr_Year = 0, lr_Price = 0, lr_Km = 0, lr_Hand = 0,
     lr_City = '''', lr_PageLink = '''', lr_ImageURL = '''', lr_EngineVolume = 0, lr_HorsePower = 0, lr_EngineType = '''',
     lr_GearBox = '''', lr_Description = '''', lr_IsCommercial = None, lr_FitnessScore = None, lr_MedianPrice = None,
     lr_CohortSize = None, lr_DealScore = None, lr_BasePrice = None, lr_FirstSeenAt = 0, lr_PostedAt = None,
     lr_ScoreCondition = None, lr_ScoreValue = None, lr_ScoreEngine = None, lr_OriginalOwnership = None, lr_RemovedAt = None\<rparr>"

definition backfill_record :: "raw_listing \<Rightarrow> listing_record" where
  "backfill_record l = zero_record\<lparr>lr_Token := rl_Token l, lr_Km := rl_Km l, lr_City := rl_City l, lr_ImageURL := rl_ImageURL l,
     lr_BodyType := rl_BodyType l\<rparr>"

definition enriched_fields :: "raw_listing \<Rightarrow> int \<times> string \<times> string \<times> string" where
  "enriched_fields l = (rl_Km l, rl_City l, rl_ImageURL l, rl_BodyType l)"

definition inlineEnrich :: "sched_config \<Rightarrow> inline_enricher \<Rightarrow> raw_listing list \<Rightarrow> world \<Rightarrow> raw_listing list \<times> world" where
  "inlineEnrich cfg enricher ls w =
    (if \<not> list_ex unenriched ls then (ls, w)
     else
       let before = map enriched_fields ls;
           (enriched, ls) = enricher ls
       in if enriched = 0 \<or> \<not> sc_Listings cfg then (ls, w)
          else
            let backfill = map (backfill_record \<circ> snd) (filter (\<lambda>(b, l). enriched_fields l \<noteq> b) (zip before ls))
            in (ls, if backfill = [] then w else snd (BackfillListings backfill w)))"

definition enrichWithBasePrice :: "sched_config \<Rightarrow> (int \<Rightarrow> int \<Rightarrow> int) \<Rightarrow> gotime \<Rightarrow> listing \<Rightarrow> world \<Rightarrow> listing \<times> world" where
  "enrichWithBasePrice cfg page now listing w =
    (if \<not> sc_PriceList cfg then (listing, w)
     else if rl_SubModelID listing \<le> 0 then (listing, w)
     else if rl_Year listing \<le> 0 then (listing, w)
     else case pl_Lookup page now (rl_SubModelID listing) (rl_Year listing) w of ((bp, ok), w) \<Rightarrow>
       if \<not> ok then (listing, w) else if bp \<le> 0 then (listing, w) else (listing\<lparr>l_BasePrice := Some bp\<rparr>, w))"

definition market_lookup :: "process_params \<Rightarrow> raw_listing \<Rightarrow> int \<times> int \<times> int \<times> bool" where
  "market_lookup params l =
    (case pp_MarketCache params of
       Some mc \<Rightarrow> if rl_Price l > 0 then Lookup mc (rl_Manufacturer l) (rl_Model l) (rl_Year l) else (0, 0, 0, False)
     | None \<Rightarrow> (0, 0, 0, False))"

definition scoreAndEnrich :: "sched_config \<Rightarrow> (int \<Rightarrow> int \<Rightarrow> int) \<Rightarrow> gotime \<Rightarrow> raw_listing \<Rightarrow> process_params \<Rightarrow> world \<Rightarrow> listing \<times> world" where
  "scoreAndEnrich cfg page now l params w =
    (let listing = listing_of_raw l (pp_SearchName params);
         (medianPrice, medianKm, cohort, marketOK) = market_lookup params l;
         (listing, w) = enrichWithBasePrice cfg page now listing w;
         fp = \<lparr>fp_Price = rl_Price l, fp_Km = rl_Km l, fp_Hand = rl_Hand l, fp_Year = rl_Year l, fp_EngineVolume = rl_EngineVolume l,
               fp_PriceMax = pp_PriceMax params, fp_MaxKm = pp_MaxKm params, fp_MaxHand = pp_MaxHand params,
               fp_YearMin = pp_YearMin params, fp_YearMax = pp_YearMax params, fp_EngineMinCC = pp_EngineMinCC params,
               fp_MedianPrice = (if marketOK then medianPrice else 0), fp_MedianKm = (if marketOK then medianKm else 0),
               fp_BasePrice = (case l_BasePrice listing of Some bp \<Rightarrow> bp | None \<Rightarrow> 0),
               fp_IsCommercial = (rl_Commercial l = Some True), fp_OriginalOwnership = rl_OriginalOwnership l\<rparr>;
         detailed = FitnessScoreDetailed (sc_currentYear cfg) fp;
         listing = listing\<lparr>l_FitnessScore := fr_Total detailed, l_FitnessBreakdown := fr_Dims detailed\<rparr>;
         listing = (if marketOK then listing\<lparr>
             l_DealScore := Some \<lparr>si_Score = ScoreWithKm (rl_Price l) (rl_Km l) medianPrice medianKm,
               si_MedianPrice = medianPrice, si_MedianKm = medianKm, si_CohortSize = cohort\<rparr>,
             l_SuspiciousReasons := DetectSuspicious l medianPrice\<rparr> else listing)
     in (listing, w))"

text \<open>The dimension scores by name; a later dimension of the same name wins, as in the loop.\<close>

definition dim_score :: "string \<Rightarrow> fitness_dim list \<Rightarrow> real option" where
  "dim_score name dims = (case filter (\<lambda>d. fd_Name d = name) (rev dims) of [] \<Rightarrow> None | d # _ \<Rightarrow> Some (fd_Score d))"

definition buildRecord :: "gotime \<Rightarrow> listing \<Rightarrow> process_params \<Rightarrow> listing_record" where
  "buildRecord now l params =
    \<lparr>lr_Token = rl_Token l, lr_ChatID = pp_ChatID params, lr_SearchID = pp_SearchID params, lr_SearchName = pp_SearchName params,
     lr_Manufacturer = rl_Manufacturer l, lr_Model = rl_Model l, lr_SubModel = rl_SubModel l, lr_SubModelID = rl_SubModelID l,
     lr_BodyType = rl_BodyType l, lr_Year = rl_Year l, lr_Price = rl_Price l, lr_Km = rl_Km l, lr_Hand = rl_Hand l,
     lr_City = rl_City l, lr_PageLink = rl_PageLink l, lr_ImageURL = rl_ImageURL l, lr_EngineVolume = rl_EngineVolume l,
     lr_HorsePower = rl_HorsePower l, lr_EngineType = rl_EngineType l, lr_GearBox = rl_GearBox l, lr_Description = rl_Description l,
     lr_IsCommercial = rl_Commercial l, lr_FitnessScore = Some (l_FitnessScore l),
     lr_MedianPrice = map_option si_MedianPrice (l_DealScore l), lr_CohortSize = map_option si_CohortSize (l_DealScore l),
     lr_DealScore = map_option si_Score (l_DealScore l), lr_BasePrice = l_BasePrice l, lr_FirstSeenAt = now,
     lr_PostedAt = (if rl_CreatedAt l \<noteq> 0 then Some (rl_CreatedAt l) else None),
     lr_ScoreCondition = dim_score ''condition'' (l_FitnessBreakdown l), lr_ScoreValue = dim_score ''value'' (l_FitnessBreakdown l),
     lr_ScoreEngine = dim_score ''engine'' (l_FitnessBreakdown l),
     lr_OriginalOwnership = (if rl_OriginalOwnership l \<noteq> '''' then Some (rl_OriginalOwnership l) else None), lr_RemovedAt = None\<rparr>"

fun score_all :: "sched_config \<Rightarrow> (int \<Rightarrow> int \<Rightarrow> int) \<Rightarrow> gotime \<Rightarrow> process_params \<Rightarrow> raw_listing list \<Rightarrow> world \<Rightarrow> listing list \<times> world" where
  "score_all cfg page now params [] w = ([], w)"
| "score_all cfg page now params (l # ls) w =
    (case scoreAndEnrich cfg page now l params w of (x, w) \<Rightarrow> case score_all cfg page now params ls w of (xs, w) \<Rightarrow> (x # xs, w))"

definition Process :: "sched_config \<Rightarrow> inline_enricher option \<Rightarrow> (int \<Rightarrow> int \<Rightarrow> int) \<Rightarrow> gotime \<Rightarrow> raw_listing list \<Rightarrow> process_params \<Rightarrow> world \<Rightarrow>
    (listing list \<times> listing_record list) \<times> world" where
  "Process cfg enricher page now raw params w =
    (let (raw, w) = (if \<not> pp_SkipPrefill params then pipeline_prefill cfg raw w else (raw, w));
         (raw, w) = (case enricher of Some e \<Rightarrow> inlineEnrich cfg e raw w | None \<Rightarrow> (raw, w));
         (listings, w) = score_all cfg page now params raw w
     in ((listings, map (\<lambda>l. buildRecord now l params) listings), w))"

end
