(* ===== verification/ProcessStage.thy ===== *)
theory ProcessStage
  imports MatchStage Delivery Pipeline FetchCache
begin

section \<open>Outcome of a cycle: persisting, delivering, releasing (internal/scheduler/processing.go)\<close>

definition recordClaimReleaseFailure :: "world \<Rightarrow> world" where
  "recordClaimReleaseFailure w = w\<lparr>w_releaseFailures := w_releaseFailures w + 1\<rparr>"

definition recordPersistFailure :: "world \<Rightarrow> world" where
  "recordPersistFailure w = w\<lparr>w_persistFailures := w_persistFailures w + 1\<rparr>"

text \<open>The cleanup loops of \<open>deliverResults\<close> and \<open>persistListings\<close>: release every claim, count the failures.\<close>

fun release_claims :: "claim_key list \<Rightarrow> world \<Rightarrow> world" where
  "release_claims [] w = w"
| "release_claims (k # ks) w =
    (case ReleaseClaim k w of (Inr _, w) \<Rightarrow> release_claims ks w | (Inl _, w) \<Rightarrow> release_claims ks (recordClaimReleaseFailure w))"

definition deactivate_blocked :: "sched_config \<Rightarrow> int \<Rightarrow> world \<Rightarrow> world" where
  "deactivate_blocked cfg chatID w = (if sc_Users cfg then snd (SetUserActive chatID False w) else w)"

text \<open>The price-drop messages, up to the first one that finds the user has blocked the bot.\<close>

datatype drop_outcome = Blocked | Done bool

fun deliver_drops :: "sched_config \<Rightarrow> gotime \<Rightarrow> delivery \<Rightarrow> int \<Rightarrow> bool \<Rightarrow> string list \<Rightarrow> world \<Rightarrow> drop_outcome \<times> world" where
  "deliver_drops cfg now delivery chatID sent [] w = (Done sent, w)"
| "deliver_drops cfg now delivery chatID sent (msg # msgs) w =
    (case DeliverRaw now delivery chatID msg w of
       (None, w) \<Rightarrow> deliver_drops cfg now delivery chatID True msgs w
     | (Some RecipientBlocked, w) \<Rightarrow> (Blocked, deactivate_blocked cfg chatID w)
     | (Some _, w) \<Rightarrow> deliver_drops cfg now delivery chatID sent msgs w)"

definition deliver_batch :: "sched_config \<Rightarrow> renderer \<Rightarrow> gotime \<Rightarrow> delivery \<Rightarrow> search \<Rightarrow> bool \<Rightarrow> listing list \<Rightarrow> world \<Rightarrow> bool \<times> world" where
  "deliver_batch cfg render now delivery search sent newListings w =
    (let w = w\<lparr>w_listingsFound := w_listingsFound w + length newListings\<rparr>;
         keys = map (\<lambda>l. (rl_Token l, s_ChatID search, s_ID search)) newListings
     in case DeliverBatch render now delivery (s_ChatID search) newListings w of
       (None, w) \<Rightarrow> (True, w\<lparr>w_notificationsSent := w_notificationsSent w + 1\<rparr>)
     | (Some MalformedMessage, w) \<Rightarrow> (False, w)
     | (Some RecipientBlocked, w) \<Rightarrow> (sent, release_claims keys (deactivate_blocked cfg (s_ChatID search) w))
     | (Some (DeliveryFailed _), w) \<Rightarrow> (sent, release_claims keys w))"

definition deliverResults :: "sched_config \<Rightarrow> renderer \<Rightarrow> gotime \<Rightarrow> search \<Rightarrow> string \<Rightarrow> search_result \<Rightarrow> world \<Rightarrow> bool \<times> world" where
  "deliverResults cfg render now search lang sr w =
    (case deliveryFor cfg now (s_ChatID search) lang (s_ID search) (s_Name search) w of (delivery, w) \<Rightarrow>
     case deliver_drops cfg now delivery (s_ChatID search) False (sr_priceDropMessages sr) w of
       (Blocked, w) \<Rightarrow> (False, w)
     | (Done sent, w) \<Rightarrow>
         if sr_newListings sr = [] then (sent, w)
         else deliver_batch cfg render now delivery search sent (sr_newListings sr) w)"

definition record_key :: "listing_record \<Rightarrow> claim_key" where
  "record_key rec = (lr_Token rec, lr_ChatID rec, lr_SearchID rec)"

text \<open>\<open>True\<close> when the batch was saved.\<close>

definition persistListings :: "gotime \<Rightarrow> listing_record list \<Rightarrow> world \<Rightarrow> bool \<times> world" where
  "persistListings now records w =
    (case SaveListings now records w of
       (Inr _, w) \<Rightarrow> (True, w)
     | (Inl _, w) \<Rightarrow> (False, release_claims (map record_key records) (recordPersistFailure w)))"

fun flush_prices :: "gotime \<Rightarrow> string list \<Rightarrow> string list \<Rightarrow> (string \<times> int) list \<Rightarrow> world \<Rightarrow> world" where
  "flush_prices now persisted failed [] w = w"
| "flush_prices now persisted failed ((token, price) # ps) w =
    (if token \<in> set failed \<and> token \<notin> set persisted then flush_prices now persisted failed ps w
     else flush_prices now persisted failed ps (snd (RecordPrice now token price w)))"

definition flushPendingPrices :: "sched_config \<Rightarrow> gotime \<Rightarrow> match_state \<Rightarrow> world \<Rightarrow> world" where
  "flushPendingPrices cfg now ms w =
    (if \<not> sc_Prices cfg \<or> ms_pendingPrices ms = [] then w
     else flush_prices now (ms_persistedTokens ms) (ms_persistFailedTokens ms) (ms_pendingPrices ms) w)"

section \<open>The later stages of a cycle (internal/scheduler/match.go)\<close>

subsection \<open>Enrichment requests (with internal/broker/enrich.go)\<close>

definition next_redis :: "world \<Rightarrow> bool \<times> world" where
  "next_redis w = (case w_redis_faults w of [] \<Rightarrow> (False, w) | f # fs \<Rightarrow> (f, w\<lparr>w_redis_faults := fs\<rparr>))"

text \<open>\<open>Inr True\<close> published, \<open>Inr False\<close> already pending. The approximate trimming of the stream by Redis is left out.\<close>

definition PublishEnrichDedup :: "enrich_request \<Rightarrow> world \<Rightarrow> (unit + bool) \<times> world" where
  "PublishEnrichDedup req w =
    (case next_redis w of
       (True, w) \<Rightarrow> (Inl (), w)
     | (False, w) \<Rightarrow>
         if eq_Token req \<in> set (w_pendingEnrich w) then (Inr False, w)
         else case next_redis w of
           (True, w) \<Rightarrow> (Inl (), w)
         | (False, w) \<Rightarrow>
             let w = w\<lparr>w_stream := w_stream w @ [req]\<rparr>
             in case next_redis w of
               (True, w) \<Rightarrow> (Inl (), w)
             | (False, w) \<Rightarrow> (Inr True, w\<lparr>w_pendingEnrich := eq_Token req # w_pendingEnrich w\<rparr>))"

definition exhausted_tokens :: "sched_config \<Rightarrow> string list \<Rightarrow> world \<Rightarrow> (string \<Rightarrow> bool) \<times> world" where
  "exhausted_tokens cfg tokens w =
    (if sc_Listings cfg \<and> tokens \<noteq> [] then
       (case ListEnrichExhaustedTokens tokens (sc_MaxAttemptsPerToken cfg) w of
          (Inl _, w) \<Rightarrow> (\<lambda>_. False, w) | (Inr ex, w) \<Rightarrow> (ex, w))
     else (\<lambda>_. False, w))"

fun publish_all :: "raw_listing list \<Rightarrow> (string \<Rightarrow> bool) \<Rightarrow> (nat \<times> int list) list \<Rightarrow> world \<Rightarrow> world" where
  "publish_all raw ex [] w = w"
| "publish_all raw ex ((idx, searchIDs) # is) w =
    (let l = raw ! idx in
     if unenriched l \<and> \<not> ex (rl_Token l)
     then publish_all raw ex is (snd (PublishEnrichDedup
            \<lparr>eq_Token = rl_Token l, eq_Priority = 1, eq_SearchIDs = searchIDs, eq_Source = ''scheduler''\<rparr> w))
     else publish_all raw ex is w)"

definition publishEnrichRequests :: "sched_config \<Rightarrow> match_state \<Rightarrow> world \<Rightarrow> world" where
  "publishEnrichRequests cfg ms w =
    (if \<not> sc_EnrichPublisher cfg \<or> ms_matchedIndices ms = [] then w
     else
       let tokens = remdups (map rl_Token (filter unenriched (map (\<lambda>(idx, _). ms_raw ms ! idx) (ms_matchedIndices ms))))
       in case exhausted_tokens cfg tokens w of (ex, w) \<Rightarrow> publish_all (ms_raw ms) ex (ms_matchedIndices ms) w)"

subsection \<open>Price drops\<close>

definition drop_params :: "search \<Rightarrow> raw_listing \<Rightarrow> int \<times> int \<times> int \<times> bool \<Rightarrow> fitness_params" where
  "drop_params s l market =
    (case market of (median, medKm, _, ok) \<Rightarrow>
      \<lparr>fp_Price = rl_Price l, fp_Km = rl_Km l, fp_Hand = rl_Hand l, fp_Year = rl_Year l, fp_EngineVolume = rl_EngineVolume l,
       fp_PriceMax = s_PriceMax s, fp_MaxKm = s_MaxKm s, fp_MaxHand = s_MaxHand s, fp_YearMin = s_YearMin s, fp_YearMax = s_YearMax s,
       fp_EngineMinCC = s_EngineMinCC s, fp_MedianPrice = (if ok then median else 0), fp_MedianKm = (if ok then medKm else 0),
       fp_BasePrice = 0, fp_IsCommercial = False, fp_OriginalOwnership = ''''\<rparr>)"

definition drop_record :: "gotime \<Rightarrow> search \<Rightarrow> raw_listing \<Rightarrow> real \<Rightarrow> int \<times> int \<times> int \<times> bool \<Rightarrow> listing_record" where
  "drop_record now s l score market =
    (let rec = zero_record\<lparr>lr_Token := rl_Token l, lr_ChatID := s_ChatID s, lr_SearchID := s_ID s, lr_SearchName := s_Name s,
       lr_Manufacturer := rl_Manufacturer l, lr_Model := rl_Model l, lr_SubModel := rl_SubModel l, lr_SubModelID := rl_SubModelID l,
       lr_Year := rl_Year l, lr_Price := rl_Price l, lr_Km := rl_Km l, lr_Hand := rl_Hand l, lr_City := rl_City l,
       lr_PageLink := rl_PageLink l, lr_ImageURL := rl_ImageURL l, lr_EngineVolume := rl_EngineVolume l,
       lr_HorsePower := rl_HorsePower l, lr_EngineType := rl_EngineType l, lr_GearBox := rl_GearBox l,
       lr_Description := rl_Description l, lr_IsCommercial := rl_Commercial l, lr_FitnessScore := Some score, lr_FirstSeenAt := now,
       lr_PostedAt := (if rl_CreatedAt l \<noteq> 0 then Some (rl_CreatedAt l) else None)\<rparr>
     in case market of (median, medKm, cohort, ok) \<Rightarrow>
       if ok then rec\<lparr>lr_MedianPrice := Some median, lr_CohortSize := Some cohort,
                      lr_DealScore := Some (ScoreWithKm (rl_Price l) (rl_Km l) median medKm)\<rparr> else rec)"

definition price_drop_step :: "sched_config \<Rightarrow> renderer \<Rightarrow> gotime \<Rightarrow> market_cache option \<Rightarrow> price_drop_candidate \<Rightarrow>
    match_state \<times> world \<Rightarrow> match_state \<times> world" where
  "price_drop_step cfg render now marketCache pd st =
    (case st of (ms, w) \<Rightarrow>
     case map_of (ms_accums ms) (pd_searchID pd) of
       None \<Rightarrow> (ms, w)
     | Some acc \<Rightarrow>
        let l = ms_raw ms ! pd_rawIdx pd;
            s = ac_search acc;
            market = (case marketCache of Some mc \<Rightarrow> Lookup mc (rl_Manufacturer l) (rl_Model l) (rl_Year l) | None \<Rightarrow> (0, 0, 0, False));
            score = FitnessScore (sc_currentYear cfg) (drop_params s l market);
            listing = (listing_of_raw l (s_Name s))\<lparr>l_FitnessScore := score\<rparr>;
            msg = render (PriceDropMessage listing (pd_oldPrice pd) (ac_lang acc));
            acc = acc\<lparr>ac_result := (ac_result acc)\<lparr>sr_priceDropMessages := sr_priceDropMessages (ac_result acc) @ [msg]\<rparr>\<rparr>;
            ms = ms\<lparr>ms_accums := AList.update (pd_searchID pd) acc (ms_accums ms)\<rparr>
        in (ms, if sc_Listings cfg then snd (SaveListing now (drop_record now s l score market) w) else w))"

definition processPriceDrops :: "sched_config \<Rightarrow> renderer \<Rightarrow> gotime \<Rightarrow> market_cache option \<Rightarrow> match_state \<Rightarrow> world \<Rightarrow> match_state \<times> world" where
  "processPriceDrops cfg render now marketCache ms w =
    fold (price_drop_step cfg render now marketCache) (ms_priceDropCandidates ms) (ms, w)"

subsection \<open>Pipeline, persistence and delivery of each search\<close>

text \<open>\<open>rawByToken\<close>: the last index of a token.\<close>

definition raw_by_token :: "raw_listing list \<Rightarrow> string \<Rightarrow> raw_listing option" where
  "raw_by_token raw tok = (case filter (\<lambda>l. rl_Token l = tok) (rev raw) of [] \<Rightarrow> None | l # _ \<Rightarrow> Some l)"

definition raw_for_pipeline :: "raw_listing list \<Rightarrow> listing list \<Rightarrow> raw_listing list" where
  "raw_for_pipeline raw ls = map (\<lambda>l. case raw_by_token raw (rl_Token l) of Some r \<Rightarrow> r | None \<Rightarrow> raw_of_listing l) ls"

text \<open>The filter by mileage after the enrichment: what is over the limit, or not known yet, is given back.\<close>

fun km_filter :: "search \<Rightarrow> listing list \<Rightarrow> world \<Rightarrow> listing list \<times> int \<times> world" where
  "km_filter s [] w = ([], 0, w)"
| "km_filter s (l # ls) w =
    (if rl_Km l \<le> 0 \<or> rl_Km l > s_MaxKm s then
       (case km_filter s ls (snd (ReleaseClaim (rl_Token l, s_ChatID s, s_ID s) w)) of (keep, n, w) \<Rightarrow> (keep, n + 1, w))
     else (case km_filter s ls w of (keep, n, w) \<Rightarrow> (l # keep, n, w)))"

definition add_km_filtered :: "int \<Rightarrow> int \<Rightarrow> match_state \<Rightarrow> match_state" where
  "add_km_filtered sid n ms =
    (case map_of (ms_searchCounters ms) sid of
       None \<Rightarrow> ms
     | Some ctr \<Rightarrow> ms\<lparr>ms_searchCounters := AList.update sid (ctr\<lparr>cc_kmFiltered := cc_kmFiltered ctr + n\<rparr>) (ms_searchCounters ms)\<rparr>)"

definition pipeline_step :: "sched_config \<Rightarrow> (int \<Rightarrow> int \<Rightarrow> int) \<Rightarrow> gotime \<Rightarrow> market_cache option \<Rightarrow> search \<Rightarrow> search_result \<Rightarrow>
    match_state \<Rightarrow> world \<Rightarrow> search_result \<times> match_state \<times> world" where
  "pipeline_step cfg page now marketCache s sr ms w =
    (if sr_newListings sr = [] then (sr, ms, w)
     else
       let params = (ProcessParamsFromSearch s marketCache)\<lparr>pp_SkipPrefill := ms_prefilled ms\<rparr>
       in case Process cfg None page now (raw_for_pipeline (ms_raw ms) (sr_newListings sr)) params w of ((listings, records), w) \<Rightarrow>
          let sr = sr\<lparr>sr_newListings := listings, sr_listingRecords := records\<rparr>
          in if s_MaxKm s > 0 \<and> sr_newListings sr \<noteq> [] then
               (case km_filter s (sr_newListings sr) w of (keep, n, w) \<Rightarrow>
                  (sr\<lparr>sr_newListings := keep\<rparr>, add_km_filtered (s_ID s) n ms, w))
             else (sr, ms, w))"

definition invalidateMarketCache :: "world \<Rightarrow> world" where
  "invalidateMarketCache w = w\<lparr>w_marketCache := None, w_marketBuiltAt := 0\<rparr>"

definition persist_step :: "sched_config \<Rightarrow> gotime \<Rightarrow> search_result \<Rightarrow> match_state \<Rightarrow> world \<Rightarrow> search_result \<times> match_state \<times> world" where
  "persist_step cfg now sr ms w =
    (if sc_Listings cfg \<and> sr_listingRecords sr \<noteq> [] then
       (case persistListings now (sr_listingRecords sr) w of
          (True, w) \<Rightarrow> (sr, ms\<lparr>ms_persistedTokens := map lr_Token (sr_listingRecords sr) @ ms_persistedTokens ms\<rparr>, invalidateMarketCache w)
        | (False, w) \<Rightarrow>
            (sr\<lparr>sr_newListings := [], sr_listingRecords := []\<rparr>,
             ms\<lparr>ms_persistFailedTokens := map lr_Token (sr_listingRecords sr) @ ms_persistFailedTokens ms\<rparr>, w))
     else (sr, ms, w))"

text \<open>The grace window: a listing the enricher has not completed yet is left out while it is young.\<close>

definition graceSec :: "sched_config \<Rightarrow> int" where
  "graceSec cfg = (if sc_EnrichGraceSeconds cfg \<le> 0 then 60 else sc_EnrichGraceSeconds cfg)"

definition deferred :: "sched_config \<Rightarrow> gotime \<Rightarrow> listing \<Rightarrow> bool" where
  "deferred cfg now l \<longleftrightarrow>
     (rl_Km l \<le> 0 \<or> rl_City l = '''' \<or> rl_ImageURL l = '''') \<and>
     (rl_CreatedAt l \<noteq> 0 \<and> now - rl_CreatedAt l < seconds (graceSec cfg))"

definition grace_step :: "sched_config \<Rightarrow> gotime \<Rightarrow> search_result \<Rightarrow> search_result" where
  "grace_step cfg now sr =
    (if graceSec cfg > 0 \<and> sr_newListings sr \<noteq> []
     then sr\<lparr>sr_newListings := filter (\<lambda>l. \<not> deferred cfg now l) (sr_newListings sr)\<rparr> else sr)"

definition set_result :: "int \<Rightarrow> search_result \<Rightarrow> match_state \<Rightarrow> match_state" where
  "set_result sid sr ms =
    (case map_of (ms_accums ms) sid of
       None \<Rightarrow> ms | Some acc \<Rightarrow> ms\<lparr>ms_accums := AList.update sid (acc\<lparr>ac_result := sr\<rparr>) (ms_accums ms)\<rparr>)"

definition process_search :: "sched_config \<Rightarrow> renderer \<Rightarrow> (int \<Rightarrow> int \<Rightarrow> int) \<Rightarrow> gotime \<Rightarrow> market_cache option \<Rightarrow> search_accum \<Rightarrow>
    match_state \<Rightarrow> world \<Rightarrow> bool \<times> match_state \<times> world" where
  "process_search cfg render page now marketCache acc ms w =
    (case pipeline_step cfg page now marketCache (ac_search acc) (ac_result acc) ms w of (sr, ms, w) \<Rightarrow>
     case persist_step cfg now sr ms w of (sr, ms, w) \<Rightarrow>
     let sr = grace_step cfg now sr;
         ms = set_result (s_ID (ac_search acc)) sr ms
     in case deliverResults cfg render now (ac_search acc) (ac_lang acc) sr w of (delivered, w) \<Rightarrow> (delivered, ms, w))"

text \<open>The keys of \<open>accums\<close> in the order the map is ranged over; the result is \<open>notificationsSent\<close>.\<close>

fun process_all :: "sched_config \<Rightarrow> renderer \<Rightarrow> (int \<Rightarrow> int \<Rightarrow> int) \<Rightarrow> gotime \<Rightarrow> market_cache option \<Rightarrow> int list \<Rightarrow>
    match_state \<Rightarrow> world \<Rightarrow> nat \<times> match_state \<times> world" where
  "process_all cfg render page now marketCache [] ms w = (0, ms, w)"
| "process_all cfg render page now marketCache (sid # sids) ms w =
    (case map_of (ms_accums ms) sid of
       None \<Rightarrow> process_all cfg render page now marketCache sids ms w
     | Some acc \<Rightarrow>
         (case process_search cfg render page now marketCache acc ms w of (delivered, ms, w) \<Rightarrow>
          case process_all cfg render page now marketCache sids ms w of (n, ms, w) \<Rightarrow> (if delivered then n + 1 else n, ms, w)))"

definition processAndDeliverPerSearch :: "sched_config \<Rightarrow> renderer \<Rightarrow> (int \<Rightarrow> int \<Rightarrow> int) \<Rightarrow> gotime \<Rightarrow> market_cache option \<Rightarrow>
    match_state \<Rightarrow> world \<Rightarrow> nat \<times> match_state \<times> world" where
  "processAndDeliverPerSearch cfg render page now marketCache ms w =
    process_all cfg render page now marketCache (map fst (ms_accums ms)) ms w"

subsection \<open>Stale listings\<close>

fun drop_stale :: "gotime \<Rightarrow> (string \<times> string list) list \<Rightarrow> search list \<Rightarrow> (int \<times> nat) list \<Rightarrow> world \<Rightarrow> (int \<times> nat) list \<times> world" where
  "drop_stale now feed [] dropped w = (dropped, w)"
| "drop_stale now feed (s # ss) dropped w =
    (case map_of feed (CacheKeyFor (SourceParamsFromSearch s)) of
       None \<Rightarrow> drop_stale now feed ss dropped w
     | Some feedTokens \<Rightarrow>
         (case DeleteStaleListings now (s_ChatID s) (s_ID s) feedTokens w of
            (Inl _, w) \<Rightarrow> drop_stale now feed ss dropped w
          | (Inr n, w) \<Rightarrow> drop_stale now feed ss (if n > 0 then AList.update (s_ID s) n dropped else dropped) w))"

definition dropStaleListings :: "sched_config \<Rightarrow> gotime \<Rightarrow> search list \<Rightarrow> match_state \<Rightarrow> world \<Rightarrow> (int \<times> nat) list \<times> world" where
  "dropStaleListings cfg now searches ms w =
    (if \<not> sc_Listings cfg \<or> ms_feedTokensByKey ms = [] then ([], w)
     else drop_stale now (ms_feedTokensByKey ms) searches [] w)"

subsection \<open>Cycle statistics\<close>

record cycle_stats_row =
  cs_SearchID :: int
  cs_ChatID :: int
  cs_SearchName :: string
  cs_CycleAt :: gotime
  cs_FeedSize :: int
  cs_Matched :: int
  cs_NewListings :: nat
  cs_KmFiltered :: int
  cs_Delivered :: nat
  cs_PriceDrops :: nat
  cs_Rejections :: reject_counts
  cs_Dropped :: nat
  cs_Score :: "(real \<times> real \<times> real) option"
  cs_Price :: "(int \<times> int) option"

text \<open>The running minimum and maximum of the positive prices, 0 standing for none yet.\<close>

fun price_range :: "int \<times> int \<Rightarrow> listing list \<Rightarrow> int \<times> int" where
  "price_range (mn, mx) [] = (mn, mx)"
| "price_range (mn, mx) (l # ls) =
    (if rl_Price l > 0 then
       price_range (if mn = 0 \<or> rl_Price l < mn then rl_Price l else mn, if rl_Price l > mx then rl_Price l else mx) ls
     else price_range (mn, mx) ls)"

fun score_range :: "real \<times> real \<times> real \<Rightarrow> listing list \<Rightarrow> real \<times> real \<times> real" where
  "score_range (mn, mx, ssum) [] = (mn, mx, ssum)"
| "score_range (mn, mx, ssum) (l # ls) =
    score_range (if l_FitnessScore l < mn then l_FitnessScore l else mn,
                 if l_FitnessScore l > mx then l_FitnessScore l else mx, ssum + l_FitnessScore l) ls"

definition stats_row :: "gotime \<Rightarrow> match_state \<Rightarrow> (int \<rightharpoonup> reject_counts) \<Rightarrow> (int \<times> nat) list \<Rightarrow> search \<Rightarrow> cycle_stats_row" where
  "stats_row now ms rejections dropped s =
    (let ctr = map_of (ms_searchCounters ms) (s_ID s);
         mat = (case ctr of Some c \<Rightarrow> cc_matched c | None \<Rightarrow> 0);
         km = (case ctr of Some c \<Rightarrow> cc_kmFiltered c | None \<Rightarrow> 0);
         rej = (case rejections (s_ID s) of Some r \<Rightarrow> r | None \<Rightarrow> (\<lambda>_. 0));
         sr = (case map_of (ms_accums ms) (s_ID s) of Some acc \<Rightarrow> ac_result acc | None \<Rightarrow> empty_result);
         new = sr_newListings sr;
         (mn, mx, ssum) = (case new of [] \<Rightarrow> (0, 0, 0) | l # _ \<Rightarrow> score_range (l_FitnessScore l, l_FitnessScore l, 0) new);
         (pmn, pmx) = (case new of [] \<Rightarrow> (0, 0) | l # _ \<Rightarrow> price_range (rl_Price l, rl_Price l) new)
     in \<lparr>cs_SearchID = s_ID s, cs_ChatID = s_ChatID s, cs_SearchName = s_Name s, cs_CycleAt = now,
         cs_FeedSize = mat + rej RejectYearOut + rej RejectPriceOut + rej RejectKmOver + rej RejectHandOver + rej RejectEngineCC +
           rej RejectSeller + rej RejectOtherFilter,
         cs_Matched = mat, cs_NewListings = length new, cs_KmFiltered = km, cs_Delivered = length new,
         cs_PriceDrops = length (sr_priceDropMessages sr), cs_Rejections = rej,
         cs_Dropped = (case map_of dropped (s_ID s) of Some n \<Rightarrow> n | None \<Rightarrow> 0),
         cs_Score = (if new = [] then None else Some (mn, mx, ssum / real (length new))),
         cs_Price = (if pmn > 0 then Some (pmn, pmx) else None)\<rparr>)"

definition writeCycleStats :: "sched_config \<Rightarrow> gotime \<Rightarrow> percolator \<Rightarrow> search list \<Rightarrow> match_state \<Rightarrow> raw_listing list \<Rightarrow> (int \<times> nat) list \<Rightarrow> cycle_stats_row list" where
  "writeCycleStats cfg now p searches ms raw dropped =
    (if \<not> sc_Stats cfg \<or> searches = [] then []
     else map (stats_row now ms (CountRejections p raw) dropped) searches)"

subsection \<open>Lemmas: which calls touch the claims\<close>

lemma claimed_world [simp]:
  "claimed (w\<lparr>w_listingsFound := x\<rparr>) = claimed w" "claimed (w\<lparr>w_notificationsSent := x\<rparr>) = claimed w"
  "claimed (w\<lparr>w_digestModes := y\<rparr>) = claimed w" "claimed (recordClaimReleaseFailure w) = claimed w"
  "claimed (recordPersistFailure w) = claimed w" "claimed (invalidateMarketCache w) = claimed w"
  by (simp_all add: claimed_def recordClaimReleaseFailure_def recordPersistFailure_def invalidateMarketCache_def)

lemma SetUserActive_claimed: "claimed (snd (SetUserActive chat b w)) = claimed w"
  unfolding SetUserActive_def
  by (rule db_call_cases [of "DbError ''''" "\<lambda>d. (Inr (), update_user chat (\<lambda>u. u\<lparr>u_Active := b\<rparr>) d)" w])
    (simp_all add: update_user_def claimed_def)

lemma deactivate_blocked_claimed [simp]: "claimed (deactivate_blocked cfg chat w) = claimed w"
  by (simp add: deactivate_blocked_def SetUserActive_claimed)

lemma release_claims_subset: "claimed w - set ks \<subseteq> claimed (release_claims ks w) \<and> claimed (release_claims ks w) \<subseteq> claimed w"
proof (induction ks arbitrary: w)
  case Nil
  then show ?case by simp
next
  case (Cons k ks)
  obtain r w1 where r: "ReleaseClaim k w = (r, w1)" by (cases "ReleaseClaim k w")
  show ?case
  proof (cases r)
    case (Inl e)
    then have "claimed w1 = claimed w" using r ReleaseClaim_claimed(2) by blast
    then show ?thesis using r Inl Cons.IH [of "recordClaimReleaseFailure w1"] by auto
  next
    case (Inr u)
    then have "claimed w1 = claimed w - {k}" using r ReleaseClaim_claimed(1) by blast
    then show ?thesis using r Inr Cons.IH [of w1] by auto
  qed
qed

lemma release_claims_calm: "db_faults w = [] \<Longrightarrow> claimed (release_claims ks w) = claimed w - set ks"
proof (induction ks arbitrary: w)
  case Nil
  then show ?case by simp
next
  case (Cons k ks)
  have r: "ReleaseClaim k w = (Inr (), w\<lparr>db_seen := AList.delete k (db_seen w)\<rparr>)"
    using Cons.prems by (simp add: ReleaseClaim_def release_stmt_def)
  then have "claimed (w\<lparr>db_seen := AList.delete k (db_seen w)\<rparr>) = claimed w - {k}" by (rule ReleaseClaim_claimed(1))
  then show ?case using Cons.IH [of "w\<lparr>db_seen := AList.delete k (db_seen w)\<rparr>"] Cons.prems r by auto
qed

lemma DeliverBatch_claimed: "DeliverBatch render now d chat ls w = (r, w') \<Longrightarrow> claimed w' = claimed w"
  using instant.batch_claims digest.batch_claims by (cases d) (simp_all add: claimed_def)

lemma DeliverRaw_claimed: "DeliverRaw now d chat msg w = (r, w') \<Longrightarrow> claimed w' = claimed w"
  using instant.raw_claims digest.raw_claims by (cases d) (simp_all add: claimed_def)

lemma deliver_drops_claimed: "deliver_drops cfg now d chat sent msgs w = (r, w') \<Longrightarrow> claimed w' = claimed w"
proof (induction msgs arbitrary: sent w)
  case Nil
  then show ?case by simp
next
  case (Cons msg msgs)
  obtain e w1 where m: "DeliverRaw now d chat msg w = (e, w1)" by (cases "DeliverRaw now d chat msg w")
  note C = DeliverRaw_claimed [OF m]
  show ?case using Cons m C by (auto split: option.splits delivery_error.splits)
qed

lemma GetDigestMode_claimed: "GetDigestMode chat w = (r, w') \<Longrightarrow> claimed w' = claimed w"
  unfolding GetDigestMode_def by (erule db_call_state) (auto simp: claimed_def)

lemma deliveryFor_claimed: "deliveryFor cfg now chat lang sid name w = (d, w') \<Longrightarrow> claimed w' = claimed w"
  by (auto simp: deliveryFor_def digest_mode_for_def Let_def dest: GetDigestMode_claimed
      split: if_splits prod.splits option.splits sum.splits)

definition batch_keys :: "search \<Rightarrow> listing list \<Rightarrow> claim_key set" where
  "batch_keys s ls = (\<lambda>l. (rl_Token l, s_ChatID s, s_ID s)) ` set ls"

lemma deliver_batch_subset: "claimed w - batch_keys s ls \<subseteq> claimed (snd (deliver_batch cfg render now d s sent ls w))"
proof -
  obtain r w1 where b: "DeliverBatch render now d (s_ChatID s) ls (w\<lparr>w_listingsFound := w_listingsFound w + length ls\<rparr>) = (r, w1)"
    by (metis prod.exhaust)
  have c: "claimed w1 = claimed w" using DeliverBatch_claimed [OF b] by simp
  let ?ks = "map (\<lambda>l. (rl_Token l, s_ChatID s, s_ID s)) ls"
  have "batch_keys s ls = set ?ks" by (simp add: batch_keys_def)
  then show ?thesis
    using c b release_claims_subset [of w1 ?ks] release_claims_subset [of "deactivate_blocked cfg (s_ChatID s) w1" ?ks]
    by (auto simp: deliver_batch_def Let_def split: option.split delivery_error.split)
qed

lemma deliverResults_subset:
  "claimed w - batch_keys s (sr_newListings sr) \<subseteq> claimed (snd (deliverResults cfg render now s lang sr w))"
proof -
  obtain d w1 where d: "deliveryFor cfg now (s_ChatID s) lang (s_ID s) (s_Name s) w = (d, w1)" by (metis prod.exhaust)
  obtain r w2 where r: "deliver_drops cfg now d (s_ChatID s) False (sr_priceDropMessages sr) w1 = (r, w2)" by (metis prod.exhaust)
  have "claimed w2 = claimed w" using deliveryFor_claimed [OF d] deliver_drops_claimed [OF r] by simp
  then show ?thesis
    using d r deliver_batch_subset [of w2 s "sr_newListings sr" cfg render now d]
    by (auto simp: deliverResults_def split: drop_outcome.split)
qed

subsection \<open>Lemmas: the releases that fail\<close>

lemma ReleaseClaim_failures: "ReleaseClaim k w = (r, w') \<Longrightarrow> w_releaseFailures w' = w_releaseFailures w"
  by (auto simp: ReleaseClaim_def release_stmt_def db_call_def next_fault_def split: list.splits if_splits)

lemma deactivate_blocked_failures [simp]: "w_releaseFailures (deactivate_blocked cfg chat w) = w_releaseFailures w"
  by (auto simp: deactivate_blocked_def SetUserActive_def update_user_def db_call_def next_fault_def split: list.split)

lemma pop_outcome_failures: "pop_outcome w = (r, w') \<Longrightarrow> w_releaseFailures w' = w_releaseFailures w"
  by (auto simp: pop_outcome_def split: list.splits)

lemma send_failures: "send out w = (r, w') \<Longrightarrow> w_releaseFailures w' = w_releaseFailures w"
  by (auto simp: send_def dest: pop_outcome_failures split: prod.splits option.splits)

lemma store_error_failures: "store_error (AddDigestItem now chat msg toks w) = (r, w') \<Longrightarrow> w_releaseFailures w' = w_releaseFailures w"
  by (auto simp: store_error_def AddDigestItem_def db_call_def next_fault_def split: list.splits if_splits prod.splits sum.splits)

lemma DeliverBatch_failures: "DeliverBatch render now d chat ls w = (r, w') \<Longrightarrow> w_releaseFailures w' = w_releaseFailures w"
  by (cases d) (auto simp: instant_batch_def digest_batch_def Let_def dest: send_failures store_error_failures split: if_splits)

lemma DeliverRaw_failures: "DeliverRaw now d chat msg w = (r, w') \<Longrightarrow> w_releaseFailures w' = w_releaseFailures w"
  by (cases d) (auto simp: instant_raw_def digest_raw_def dest: send_failures store_error_failures split: if_splits)

lemma deliver_drops_failures: "deliver_drops cfg now d chat sent msgs w = (r, w') \<Longrightarrow> w_releaseFailures w' = w_releaseFailures w"
proof (induction msgs arbitrary: sent w)
  case Nil
  then show ?case by simp
next
  case (Cons msg msgs)
  obtain e w1 where m: "DeliverRaw now d chat msg w = (e, w1)" by (cases "DeliverRaw now d chat msg w")
  show ?case using Cons m DeliverRaw_failures [OF m] by (auto split: option.splits delivery_error.splits)
qed

lemma GetDigestMode_failures: "GetDigestMode chat w = (r, w') \<Longrightarrow> w_releaseFailures w' = w_releaseFailures w"
  by (auto simp: GetDigestMode_def db_call_def next_fault_def split: list.splits if_splits option.splits prod.splits)

lemma deliveryFor_failures: "deliveryFor cfg now chat lang sid name w = (d, w') \<Longrightarrow> w_releaseFailures w' = w_releaseFailures w"
  by (auto simp: deliveryFor_def digest_mode_for_def Let_def dest: GetDigestMode_failures
      split: if_splits prod.splits option.splits sum.splits)

text \<open>Every claim that survives its release is counted.\<close>

lemma release_claims_stuck:
  "w_releaseFailures w \<le> w_releaseFailures (release_claims ks w) \<and>
    card (claimed (release_claims ks w) \<inter> set ks) \<le> w_releaseFailures (release_claims ks w) - w_releaseFailures w"
proof (induction ks arbitrary: w)
  case Nil
  then show ?case by simp
next
  case (Cons k ks)
  obtain r w1 where r: "ReleaseClaim k w = (r, w1)" by (cases "ReleaseClaim k w")
  note F = ReleaseClaim_failures [OF r]
  show ?case
  proof (cases r)
    case (Inl e)
    let ?w2 = "recordClaimReleaseFailure w1"
    have "card (claimed (release_claims ks ?w2) \<inter> set (k # ks)) \<le> Suc (card (claimed (release_claims ks ?w2) \<inter> set ks))"
      by (simp add: Int_insert_right card_insert_le_m1 card_insert_if)
    moreover have "w_releaseFailures ?w2 = Suc (w_releaseFailures w)" using F by (simp add: recordClaimReleaseFailure_def)
    ultimately show ?thesis using r Inl Cons.IH [of ?w2] by (simp del: list.set) linarith
  next
    case (Inr u)
    then have "claimed w1 = claimed w - {k}" using r ReleaseClaim_claimed(1) by blast
    then have "k \<notin> claimed (release_claims ks w1)" using release_claims_subset [of w1 ks] by blast
    then show ?thesis using r Inr F Cons.IH [of w1] by simp
  qed
qed

subsection \<open>Properties\<close>

text \<open>C27. The claims follow the delivery. Whatever store calls fail: when a batch goes out, or is malformed and would
  fail for ever, its claims stay; when the user has blocked the bot or the delivery fails, the claims of the batch
  are given back, so that the listings are found new again, and no other claim changes. Each claim that stays behind
  because its release failed is counted as a release failure, so without such failures exactly the claims of the
  batch are gone. When a price-drop message before the batch finds the user blocked, the batch is not tried and
  its claims stay.\<close>

theorem claims_follow_delivery:
  assumes "deliveryFor cfg now (s_ChatID s) lang (s_ID s) (s_Name s) w = (d, w1)"
    and "deliver_drops cfg now d (s_ChatID s) False (sr_priceDropMessages sr) w1 = (drops, w2)"
    and "DeliverBatch render now d (s_ChatID s) (sr_newListings sr)
      (w2\<lparr>w_listingsFound := w_listingsFound w2 + length (sr_newListings sr)\<rparr>) = (r, w3)"
    and "deliverResults cfg render now s lang sr w = (sent, w')"
    and "given_back = (drops \<noteq> Blocked \<and> sr_newListings sr \<noteq> [] \<and> r \<noteq> None \<and> r \<noteq> Some MalformedMessage)"
  shows "(if \<not> given_back then claimed w' = claimed w
     else claimed w - batch_keys s (sr_newListings sr) \<subseteq> claimed w' \<and> claimed w' \<subseteq> claimed w \<and>
       card (claimed w' \<inter> batch_keys s (sr_newListings sr)) \<le> w_releaseFailures w' - w_releaseFailures w)
     \<and> (given_back \<and> w_releaseFailures w' = w_releaseFailures w \<longrightarrow>
       claimed w' = claimed w - batch_keys s (sr_newListings sr))"
proof -
  let ?ls = "sr_newListings sr" and ?ks = "map (\<lambda>l. (rl_Token l, s_ChatID s, s_ID s)) (sr_newListings sr)"
  have c: "claimed w2 = claimed w" "claimed w3 = claimed w"
    and f: "w_releaseFailures w2 = w_releaseFailures w" "w_releaseFailures w3 = w_releaseFailures w"
    using deliveryFor_claimed [OF assms(1)] deliver_drops_claimed [OF assms(2)] DeliverBatch_claimed [OF assms(3)]
      deliveryFor_failures [OF assms(1)] deliver_drops_failures [OF assms(2)] DeliverBatch_failures [OF assms(3)] by simp_all
  have ks: "set ?ks = batch_keys s ?ls" by (simp add: batch_keys_def)
  show ?thesis
  proof (cases given_back)
    case False
    then have "claimed w' = claimed w"
      using assms c by (cases drops; cases r; cases "?ls = []"; auto simp: deliverResults_def deliver_batch_def Let_def)
    then show ?thesis using False by simp
  next
    case True
    then have "w' = release_claims ?ks (deactivate_blocked cfg (s_ChatID s) w3) \<or> w' = release_claims ?ks w3"
      using assms by (cases drops; cases r; simp add: deliverResults_def deliver_batch_def Let_def split: delivery_error.splits)
    then obtain v where w': "w' = release_claims ?ks v" and v: "claimed v = claimed w" "w_releaseFailures v = w_releaseFailures w"
      using c(2) f(2) by (metis deactivate_blocked_claimed deactivate_blocked_failures)
    have left: "card (claimed w' \<inter> batch_keys s ?ls) \<le> w_releaseFailures w' - w_releaseFailures w"
      using release_claims_stuck [of v ?ks] v w' ks by simp
    have between: "claimed w - batch_keys s ?ls \<subseteq> claimed w'" "claimed w' \<subseteq> claimed w"
      using release_claims_subset [of v ?ks] v w' ks by simp_all
    have "finite (batch_keys s ?ls)" by (simp add: batch_keys_def)
    then have "claimed w' \<inter> batch_keys s ?ls = {}" if "w_releaseFailures w' = w_releaseFailures w" using left that by simp
    then show ?thesis using True left between by auto
  qed
qed

definition failing_world :: world where
  "failing_world = empty_world\<lparr>w_outcomes := [Some (DeliveryFailed ''down'')],
     db_seen := [((''t'', 1, 2), \<lparr>cl_first = 0, cl_last = 0\<rparr>), ((''u'', 1, 2), \<lparr>cl_first = 0, cl_last = 0\<rparr>)]\<rparr>"

text \<open>The delivery fails and so does the one release: the claim is stuck, and counted.\<close>

theorem claims_follow_delivery_witness:
  "card (claimed (snd (deliverResults plain_config (\<lambda>_. []) 5 (zero_search\<lparr>s_ChatID := 1, s_ID := 2\<rparr>) ''he''
      (empty_result\<lparr>sr_newListings := [listing_of_raw (zero_raw_listing\<lparr>rl_Token := ''t''\<rparr>) ''a'']\<rparr>) (failing_world\<lparr>db_faults := [True]\<rparr>)))
    \<inter> {(''t'', 1, 2)}) \<le> 1"
proof -
  let ?s = "zero_search\<lparr>s_ChatID := 1, s_ID := 2\<rparr>" and ?w = "failing_world\<lparr>db_faults := [True]\<rparr>"
  let ?l = "listing_of_raw (zero_raw_listing\<lparr>rl_Token := ''t''\<rparr>) ''a''"
  let ?sr = "empty_result\<lparr>sr_newListings := [?l]\<rparr>" and ?d = "Instant 2 '''' ''he'' False"
  let ?w3 = "?w\<lparr>w_listingsFound := w_listingsFound ?w + 1, w_outcomes := []\<rparr>"
  have d: "deliveryFor plain_config 5 (s_ChatID ?s) ''he'' (s_ID ?s) (s_Name ?s) ?w = (?d, ?w)"
    by (simp add: deliveryFor_def plain_config_def zero_search_def search.defs)
  have dr: "deliver_drops plain_config 5 ?d (s_ChatID ?s) False (sr_priceDropMessages ?sr) ?w = (Done False, ?w)"
    by (simp add: empty_result_def)
  have b: "DeliverBatch (\<lambda>_. []) 5 ?d (s_ChatID ?s) (sr_newListings ?sr)
      (?w\<lparr>w_listingsFound := w_listingsFound ?w + length (sr_newListings ?sr)\<rparr>) = (Some (DeliveryFailed ''down''), ?w3)"
    by (simp add: instant_batch_def send_def pop_outcome_def Let_def failing_world_def)
  have fails: "w_releaseFailures (snd (deliverResults plain_config (\<lambda>_. []) 5 ?s ''he'' ?sr ?w)) = 1"
    using d dr b by (simp add: deliverResults_def deliver_batch_def Let_def ReleaseClaim_def db_call_def next_fault_def
        recordClaimReleaseFailure_def failing_world_def empty_world_def db.defs empty_db_def)
  note C = claims_follow_delivery [OF d dr b prod.collapse [symmetric] refl, THEN conjunct1]
  have keys: "batch_keys ?s (sr_newListings ?sr) = {(''t'', 1, 2)}" and start: "w_releaseFailures ?w = 0"
    by (simp_all add: batch_keys_def listing_of_raw_def raw_listing.defs zero_raw_listing_def failing_world_def empty_world_def db.defs empty_db_def)
  show ?thesis using C unfolding keys start fails by simp
qed

text \<open>A listing that the grace window holds back is lost for the alerts: it is not part of the delivery, and
  whatever becomes of the delivery its claim stays, so that every later claim of it reports it as seen before.\<close>

lemma deferred_listing_keeps_claim:
  assumes "l \<in> set (sr_newListings sr)" "deferred cfg now l" "distinct (map rl_Token (sr_newListings sr))"
    and "(rl_Token l, s_ChatID s, s_ID s) \<in> claimed w"
  shows "l \<notin> set (sr_newListings (grace_step cfg now sr)) \<and>
    fst (ClaimNew later (rl_Token l, s_ChatID s, s_ID s) (snd (deliverResults cfg render now s lang (grace_step cfg now sr) w))) \<noteq> Inr True"
proof -
  have g: "sr_newListings (grace_step cfg now sr) = filter (\<lambda>l. \<not> deferred cfg now l) (sr_newListings sr)"
    by (simp add: grace_step_def graceSec_def)
  have "(rl_Token l, s_ChatID s, s_ID s) \<notin> batch_keys s (sr_newListings (grace_step cfg now sr))"
  proof
    assume "(rl_Token l, s_ChatID s, s_ID s) \<in> batch_keys s (sr_newListings (grace_step cfg now sr))"
    then obtain l' where l': "l' \<in> set (sr_newListings sr)" "\<not> deferred cfg now l'" "rl_Token l' = rl_Token l"
      by (auto simp: batch_keys_def g)
    then have "l' = l" using assms(1,3) by (metis distinct_map inj_on_def)
    with l'(2) assms(2) show False by simp
  qed
  then have c: "(rl_Token l, s_ChatID s, s_ID s) \<in> claimed (snd (deliverResults cfg render now s lang (grace_step cfg now sr) w))"
    using deliverResults_subset assms(4) by blast
  have "fst (ClaimNew later k w') \<noteq> Inr True" if "k \<in> claimed w'" for k and w' :: world
    using that ClaimNew_claimed(1) [of later k w' True "snd (ClaimNew later k w')"] by (metis prod.collapse)
  with c g assms(2) show ?thesis by simp
qed

definition young_listing :: listing where
  "young_listing = listing_of_raw (zero_raw_listing\<lparr>rl_Token := ''t'', rl_CreatedAt := 1000\<rparr>) ''a''"

lemma deferred_listing_keeps_claim_witness:
  "fst (ClaimNew 9000 (''t'', 1, 2) (snd (deliverResults (plain_config\<lparr>sc_EnrichGraceSeconds := 60\<rparr>) (\<lambda>_. []) 2000 (zero_search\<lparr>s_ChatID := 1, s_ID := 2\<rparr>) ''he''
      (grace_step (plain_config\<lparr>sc_EnrichGraceSeconds := 60\<rparr>) 2000 (empty_result\<lparr>sr_newListings := [young_listing]\<rparr>)) failing_world))) \<noteq> Inr True"
proof -
  let ?sr = "empty_result\<lparr>sr_newListings := [young_listing]\<rparr>" and ?s = "zero_search\<lparr>s_ChatID := 1, s_ID := 2\<rparr>"
  have "young_listing \<in> set (sr_newListings ?sr)" "distinct (map rl_Token (sr_newListings ?sr))"
    "deferred (plain_config\<lparr>sc_EnrichGraceSeconds := 60\<rparr>) 2000 young_listing"
    "(rl_Token young_listing, s_ChatID ?s, s_ID ?s) \<in> claimed failing_world"
    by (simp_all add: young_listing_def deferred_def graceSec_def seconds_def listing_of_raw_def raw_listing.defs zero_raw_listing_def
        claimed_def failing_world_def)
  from deferred_listing_keeps_claim [OF this(1,3,2,4), of 9000 "\<lambda>_. []" "''he''"] show ?thesis
    by (simp add: young_listing_def listing_of_raw_def raw_listing.defs)
qed

end
