(* ===== verification/FetchStage.thy ===== *)
theory FetchStage
  imports FetchCache
begin

section \<open>Fetching the listings of the searches (internal/scheduler/scheduler.go)\<close>

text \<open>
  The fetcher and the waiting are the environment: a state \<open>'e\<close> with a fetch that answers and moves it on, and a
  wait that may be cut short by the context. \<open>wait\<close> is the wait under the per-search timeout (inside the retries),
  \<open>pause\<close> the one under the cycle's context; \<open>done\<close> is the check of the cycle's context between the searches.
\<close>

record 'e fetch_env =
  fe_fetch :: "source_params \<Rightarrow> 'e \<Rightarrow> fetch_result \<times> 'e"
  fe_wait :: "duration \<Rightarrow> 'e \<Rightarrow> goerr option \<times> 'e"
  fe_pause :: "duration \<Rightarrow> 'e \<Rightarrow> bool \<times> 'e"
  fe_done :: "'e \<Rightarrow> bool \<times> 'e"

definition maxRetries :: nat where "maxRetries = 3"
definition retryBaseDelay :: duration where "retryBaseDelay = seconds 2"

definition no_retry :: "goerr \<Rightarrow> bool" where
  "no_retry err \<longleftrightarrow> errors_is err ErrChallenge \<or> errors_is err ErrRateLimited \<or> errors_is err ErrCircuitOpen \<or> errors_is err CtxCanceled"

text \<open>The loop from attempt \<open>k\<close> on, with \<open>n\<close> attempts left; the error of the last one is wrapped.\<close>

fun retry_loop :: "'e fetch_env \<Rightarrow> source_params \<Rightarrow> nat \<Rightarrow> nat \<Rightarrow> goerr \<Rightarrow> 'e \<Rightarrow> (goerr + raw_listing list) \<times> 'e" where
  "retry_loop env params k 0 lastErr e = (Inl lastErr, e)"
| "retry_loop env params k (Suc n) lastErr e =
    (case fe_fetch env params e of
       ((listings, None), e) \<Rightarrow> (Inr listings, e)
     | ((listings, Some err), e) \<Rightarrow>
         if errors_is err ErrPartialResults \<and> length listings > 0 then (Inr listings, e)
         else if no_retry err then (Inl err, e)
         else if n > 0 then
           (case fe_wait env (retryBaseDelay * 2 ^ k) e of
              (Some ctxErr, e) \<Rightarrow> (Inl ctxErr, e)
            | (None, e) \<Rightarrow> retry_loop env params (Suc k) n err e)
         else retry_loop env params (Suc k) n err e)"

definition fetchWithRetryUsing :: "'e fetch_env \<Rightarrow> source_params \<Rightarrow> 'e \<Rightarrow> (goerr + raw_listing list) \<times> 'e" where
  "fetchWithRetryUsing env params e = retry_loop env params 0 maxRetries [] e"

text \<open>What the loop over the searches carries: the listings, the tokens seen, the parameters fetched and the feeds.\<close>

record target_state =
  tg_raw :: "raw_listing list"
  tg_seen :: "string list"
  tg_fetchedKeys :: "string list"
  tg_feed :: "(string \<times> string list) list"

fun add_listings :: "raw_listing list \<Rightarrow> target_state \<Rightarrow> target_state" where
  "add_listings [] t = t"
| "add_listings (l # ls) t =
    (if rl_Token l \<in> set (tg_seen t) then add_listings ls t
     else add_listings ls (t\<lparr>tg_seen := rl_Token l # tg_seen t, tg_raw := tg_raw t @ [l]\<rparr>))"

text \<open>One search; the flag says that the loop ends because the context is done.\<close>

definition target_step :: "'e fetch_env \<Rightarrow> search \<Rightarrow> target_state \<Rightarrow> 'e \<Rightarrow> bool \<times> target_state \<times> 'e" where
  "target_step env sr t e =
    (if s_Manufacturer sr = 0 \<or> s_Model sr = 0 then (False, t, e)
     else case fe_done env e of (ended, e) \<Rightarrow>
       if ended then (True, t, e)
       else
         let params = SourceParamsFromSearch sr;
             key = CacheKeyFor params
         in if key \<in> set (tg_fetchedKeys t) then (False, t, e)
            else
              let t = t\<lparr>tg_fetchedKeys := key # tg_fetchedKeys t\<rparr>
              in case fetchWithRetryUsing env params e of
                (Inl err, e) \<Rightarrow>
                  if errors_is err CtxCanceled then (True, t, e)
                  else (case fe_pause env (if errors_is err ErrRateLimited then seconds 5 else seconds 3) e of (ended, e) \<Rightarrow> (ended, t, e))
              | (Inr targeted, e) \<Rightarrow>
                  let t = (add_listings targeted t)\<lparr>tg_feed := AList.update key (map rl_Token targeted) (tg_feed t)\<rparr>
                  in (case fe_pause env (seconds 3) e of (ended, e) \<Rightarrow> (ended, t, e)))"

fun target_loop :: "'e fetch_env \<Rightarrow> search list \<Rightarrow> target_state \<Rightarrow> 'e \<Rightarrow> target_state \<times> 'e" where
  "target_loop env [] t e = (t, e)"
| "target_loop env (sr # srs) t e =
    (case target_step env sr t e of (ended, t, e) \<Rightarrow> if ended then (t, e) else target_loop env srs t e)"

definition fetchTargetedListings :: "'e fetch_env \<Rightarrow> search list \<Rightarrow> raw_listing list \<Rightarrow> 'e \<Rightarrow> (raw_listing list \<times> (string \<times> string list) list) \<times> 'e" where
  "fetchTargetedListings env searches raw e =
    (case target_loop env searches \<lparr>tg_raw = raw, tg_seen = map rl_Token raw, tg_fetchedKeys = [], tg_feed = []\<rparr> e of
       (t, e) \<Rightarrow> ((tg_raw t, tg_feed t), e))"

section \<open>When a cycle runs\<close>

text \<open>\<open>time.Parse("15:04", s)\<close>: one or two digits of the hour, a colon, exactly two digits of the minute.\<close>

definition digit_of :: "char \<Rightarrow> int option" where
  "digit_of c = (if is_digit c then Some (int (of_char c - 48 :: nat)) else None)"

definition two_digits :: "string \<Rightarrow> int option" where
  "two_digits s = (case s of [a, b] \<Rightarrow> (case (digit_of a, digit_of b) of (Some x, Some y) \<Rightarrow> Some (10 * x + y) | _ \<Rightarrow> None) | _ \<Rightarrow> None)"

definition hour_minute :: "string \<Rightarrow> (int \<times> int) option" where
  "hour_minute s =
    (let (h, rest) =
       (case s of
          a # b # rest \<Rightarrow>
            (case (digit_of a, digit_of b) of
               (Some x, Some y) \<Rightarrow> (Some (10 * x + y), rest) | (Some x, None) \<Rightarrow> (Some x, b # rest) | _ \<Rightarrow> (None, []))
        | _ \<Rightarrow> (None, []))
     in case (h, rest) of
          (Some h, c # m) \<Rightarrow>
            if c = CHR '':'' then
              (case two_digits m of Some mm \<Rightarrow> if h < 24 \<and> mm < 60 then Some (h, mm) else None | None \<Rightarrow> None)
            else None
        | _ \<Rightarrow> None)"

definition parseTimeOfDayOrZero :: "string \<Rightarrow> int" where
  "parseTimeOfDayOrZero s = (case hour_minute s of Some (h, m) \<Rightarrow> h * 60 + m | None \<Rightarrow> 0)"

text \<open>The configured hours; \<open>currentMinutes\<close> is the local time of day.\<close>

definition isActiveHours :: "(string \<times> string) option \<Rightarrow> int \<Rightarrow> bool" where
  "isActiveHours ah currentMinutes =
    (case ah of
       None \<Rightarrow> True
     | Some (startS, endS) \<Rightarrow>
         let start = parseTimeOfDayOrZero startS; stop = parseTimeOfDayOrZero endS
         in if start = 0 \<and> stop = 0 then True
            else if start < stop then currentMinutes \<ge> start \<and> currentMinutes < stop
            else currentMinutes \<ge> start \<or> currentMinutes < stop)"

text \<open>\<open>r\<close> is the random number \<open>rand.Int64N(2 * jitter)\<close>.\<close>

definition nextDelay :: "duration \<Rightarrow> duration \<Rightarrow> int \<Rightarrow> duration" where
  "nextDelay interval jitterCfg r =
    (let base = (if jitterCfg > 0 then interval + (r - jitterCfg) else interval)
     in if base < minutes 1 then minutes 1 else base)"

subsection \<open>Lemmas\<close>

definition tokens_seen :: "target_state \<Rightarrow> bool" where
  "tokens_seen t \<longleftrightarrow> set (map rl_Token (tg_raw t)) \<subseteq> set (tg_seen t) \<and> distinct (map rl_Token (tg_raw t))"

lemma tokens_seen_fields [simp]:
  "tokens_seen (t\<lparr>tg_fetchedKeys := ks\<rparr>) = tokens_seen t" "tokens_seen (t\<lparr>tg_feed := f\<rparr>) = tokens_seen t"
  by (simp_all add: tokens_seen_def)

lemma add_listings_seen: "tokens_seen t \<Longrightarrow> tokens_seen (add_listings ls t)"
  by (induction ls t rule: add_listings.induct) (auto simp: tokens_seen_def)

lemma target_step_seen: "tokens_seen t \<Longrightarrow> target_step env sr t e = (ended, t', e') \<Longrightarrow> tokens_seen t'"
  by (auto simp: target_step_def Let_def add_listings_seen split: if_splits prod.splits sum.splits)

lemma target_loop_seen: "tokens_seen t \<Longrightarrow> target_loop env srs t e = (t', e') \<Longrightarrow> tokens_seen t'"
proof (induction srs arbitrary: t e)
  case Nil
  then show ?case by simp
next
  case (Cons sr srs)
  obtain ended t1 e1 where s: "target_step env sr t e = (ended, t1, e1)" by (metis prod.exhaust)
  show ?case using Cons.IH [OF target_step_seen [OF Cons.prems(1) s]] Cons.prems target_step_seen [OF Cons.prems(1) s] s
    by (auto split: if_splits)
qed

text \<open>A single search with a fetch that answers at once.\<close>

lemma retry_first_answer:
  "fe_fetch env params e = ((ls, None), e1) \<Longrightarrow> fetchWithRetryUsing env params e = (Inr ls, e1)"
  "fe_fetch env params e = ((ls, Some err), e1) \<Longrightarrow> errors_is err ErrPartialResults \<Longrightarrow> ls \<noteq> [] \<Longrightarrow>
    fetchWithRetryUsing env params e = (Inr ls, e1)"
  by (simp_all add: fetchWithRetryUsing_def maxRetries_def numeral_3_eq_3)

lemma retry_loop_fatal:
  "fe_fetch env params e = ((ls, Some err), e1) \<Longrightarrow> \<not> (errors_is err ErrPartialResults \<and> ls \<noteq> []) \<Longrightarrow> no_retry err \<Longrightarrow>
    fetchWithRetryUsing env params e = (Inl err, e1)"
  by (auto simp: fetchWithRetryUsing_def maxRetries_def numeral_3_eq_3)

subsection \<open>Properties\<close>

text \<open>However the fetches of the searches overlap, fail or are cut short, the listings handed on to the matching
  carry every token once.\<close>

lemma targeted_listings_distinct:
  "distinct (map rl_Token (fst (fst (fetchTargetedListings env searches [] e))))"
proof -
  let ?t0 = "\<lparr>tg_raw = [], tg_seen = [], tg_fetchedKeys = [], tg_feed = []\<rparr>"
  obtain t e' where t: "target_loop env searches ?t0 e = (t, e')" by (metis prod.exhaust)
  have "tokens_seen ?t0" by (simp add: tokens_seen_def)
  from target_loop_seen [OF this t] show ?thesis by (simp add: fetchTargetedListings_def t tokens_seen_def)
qed

end
