(* ===== verification/DigestFlow.thy ===== *)
theory DigestFlow
  imports Delivery FetchStage
begin

section \<open>The delivery ledger (internal/storage/postgres/notification_deliveries.go)\<close>

definition same_event :: "delivery_event \<Rightarrow> delivery_row \<Rightarrow> bool" where
  "same_event e r \<longleftrightarrow> de_Token e \<noteq> '''' \<and> de_ChatID r = de_ChatID e \<and> de_Token r = de_Token e \<and>
     de_AlertType r = de_AlertType e \<and> de_Channel r = de_Channel e"

text \<open>\<open>recordDeliverySQL\<close>: a repeated outcome for a token counts as an attempt; an aggregate one is a new row.\<close>

definition record_delivery :: "gotime \<Rightarrow> delivery_event \<Rightarrow> delivery_row list \<Rightarrow> delivery_row list" where
  "record_delivery now e rows =
    (if list_ex (same_event e) rows then
       map (\<lambda>r. if same_event e r then r\<lparr>de_Status := de_Status e,
              de_SearchID := (if de_SearchID e > 0 then de_SearchID e else de_SearchID r),
              de_BatchID := (if de_BatchID e \<noteq> '''' then de_BatchID e else de_BatchID r),
              de_Error := de_Error e, dr_attempts := dr_attempts r + 1\<rparr> else r) rows
     else rows @ [delivery_event.extend e \<lparr>dr_attempts = 1, dr_created = now\<rparr>])"

definition with_defaults :: "delivery_event \<Rightarrow> delivery_event" where
  "with_defaults e = e\<lparr>de_Channel := (if de_Channel e = '''' then ''telegram'' else de_Channel e),
     de_Status := (if de_Status e = '''' then ''sent'' else de_Status e)\<rparr>"

definition RecordDeliveries :: "gotime \<Rightarrow> delivery_event list \<Rightarrow> 'z db_scheme \<Rightarrow> (db_error + unit) \<times> 'z db_scheme" where
  "RecordDeliveries now events d =
    (if events = [] then (Inr (), d)
     else db_call (DbError ''record deliveries'') (\<lambda>d.
       (Inr (), d\<lparr>db_deliveries := fold (record_delivery now \<circ> with_defaults) events (db_deliveries d)\<rparr>)) d)"

definition PruneDeliveries :: "gotime \<Rightarrow> duration \<Rightarrow> 'z db_scheme \<Rightarrow> (db_error + nat) \<times> 'z db_scheme" where
  "PruneDeliveries now olderThan = db_call (DbError '''') (\<lambda>d.
     (Inr (length (filter (\<lambda>r. dr_created r < now - olderThan) (db_deliveries d))),
      d\<lparr>db_deliveries := filter (\<lambda>r. \<not> dr_created r < now - olderThan) (db_deliveries d)\<rparr>))"

section \<open>The digest queue (internal/storage/postgres/digest.go)\<close>

definition pending_for :: "int \<Rightarrow> digest_row list \<Rightarrow> digest_row list" where
  "pending_for chatID rows = sort_key dg_created (filter (\<lambda>r. dg_chat r = chatID) rows)"

text \<open>The payloads are those of the query's snapshot; the clock is read after the query, at \<open>cutoff\<close>, and \<open>arrived\<close> are
  the rows that others have put into the queue in between. The table joins the tokens of an item with commas, and
  \<open>recordDigestDeliveries\<close> splits them again: tokens are taken to hold no comma, and kept as a list.\<close>

definition PeekDigest :: "gotime \<Rightarrow> digest_row list \<Rightarrow> int \<Rightarrow> 'z db_scheme \<Rightarrow> (db_error + string list \<times> gotime) \<times> 'z db_scheme" where
  "PeekDigest cutoff arrived chatID = db_call (DbError ''peek digest'') (\<lambda>d.
     (Inr (map dg_payload (pending_for chatID (db_digest d)), cutoff), d\<lparr>db_digest := db_digest d @ arrived\<rparr>))"

definition flushed_tokens :: "int \<Rightarrow> gotime \<Rightarrow> digest_row list \<Rightarrow> string list" where
  "flushed_tokens chatID before rows =
     rev (remdups (rev (filter (\<lambda>t. t \<noteq> '''') (concat (map dg_tokens (filter (\<lambda>r. dg_chat r = chatID \<and> dg_created r \<le> before) rows))))))"

definition digest_event :: "int \<Rightarrow> string \<Rightarrow> delivery_event" where
  "digest_event chatID token = \<lparr>de_ChatID = chatID, de_Token = token, de_SearchID = 0, de_AlertType = ''digest'', de_Channel = ''telegram'',
     de_Status = ''sent'', de_BatchID = '''', de_Error = ''''\<rparr>"

definition ack_tx :: "gotime \<Rightarrow> int \<Rightarrow> gotime \<Rightarrow> 'z db_scheme \<Rightarrow> 'z db_scheme" where
  "ack_tx now chatID before d =
    update_user chatID (\<lambda>u. u\<lparr>u_digest_last_flushed := now\<rparr>)
     (d\<lparr>db_deliveries := fold (\<lambda>t. record_delivery now (digest_event chatID t)) (flushed_tokens chatID before (db_digest d)) (db_deliveries d),
        db_digest := filter (\<lambda>r. \<not> (dg_chat r = chatID \<and> dg_created r \<le> before)) (db_digest d)\<rparr>)"

definition AckDigest :: "gotime \<Rightarrow> int \<Rightarrow> gotime \<Rightarrow> 'z db_scheme \<Rightarrow> (db_error + unit) \<times> 'z db_scheme" where
  "AckDigest now chatID before = db_call (DbError ''ack digest'') (\<lambda>d. (Inr (), ack_tx now chatID before d))"

definition PendingDigestUsers :: "'z db_scheme \<Rightarrow> (db_error + int list) \<times> 'z db_scheme" where
  "PendingDigestUsers = db_call (DbError ''pending digest users'') (\<lambda>d. (Inr (remdups (map dg_chat (db_digest d))), d))"

definition DigestLastFlushed :: "int \<Rightarrow> 'z db_scheme \<Rightarrow> (db_error + gotime) \<times> 'z db_scheme" where
  "DigestLastFlushed chatID = db_call (DbError ''digest last flushed'') (\<lambda>d.
     (Inr (case map_of (db_users d) chatID of None \<Rightarrow> 0 | Some u \<Rightarrow> u_digest_last_flushed u), d))"

definition ListDailyDigestUsers :: "'z db_scheme \<Rightarrow> (db_error + user list) \<times> 'z db_scheme" where
  "ListDailyDigestUsers = db_call (DbError ''list daily digest users'') (\<lambda>d.
     (Inr (filter (\<lambda>u. u_daily_digest u \<and> u_Active u) (map snd (db_users d))), d))"

definition UpdateDailyDigestLastSent :: "gotime \<Rightarrow> int \<Rightarrow> 'z db_scheme \<Rightarrow> (db_error + unit) \<times> 'z db_scheme" where
  "UpdateDailyDigestLastSent now chatID = db_call (DbError ''update daily digest last sent'') (\<lambda>d.
     (Inr (), update_user chatID (\<lambda>u. u\<lparr>u_daily_digest_last_sent := now\<rparr>) d))"

section \<open>Sending the digests (internal/scheduler/digest.go)\<close>

text \<open>
  \<open>arrivals\<close> gives, for each chat, the rows that others put into the queue while \<open>PeekDigest\<close> runs for it.
  \<open>parse_duration\<close> is \<open>time.ParseDuration\<close>. \<open>local\<close> gives the local day and the minute of the day of a time, from
  the time zone database. \<open>DailyStats\<close>, an aggregate query for the text of the daily message, is the argument
  \<open>stats\<close>: whether it fails, and how many searches it reports.
\<close>

definition digestRetryInterval :: duration where "digestRetryInterval = minutes 2"
definition maxDigestPending :: nat where "maxDigestPending = 100"

definition flushAndSendDigest :: "sched_config \<Rightarrow> renderer \<Rightarrow> gotime \<Rightarrow> digest_row list \<Rightarrow> int \<Rightarrow> world \<Rightarrow> world" where
  "flushAndSendDigest cfg render now arrived chatID w =
    (case PeekDigest now arrived chatID w of
       (Inl _, w) \<Rightarrow> w
     | (Inr (payloads, cutoff), w) \<Rightarrow>
         if payloads = [] then w
         else
           let payloads = (if length payloads > maxDigestPending then drop (length payloads - maxDigestPending) payloads else payloads)
           in case userLang cfg chatID w of (lang, w) \<Rightarrow>
              case send (NotifiedRaw chatID (render (DigestMessage lang (length payloads) payloads))) w of
                (Some _, w) \<Rightarrow> w\<lparr>w_digestFailures := List.insert chatID (w_digestFailures w)\<rparr>
              | (None, w) \<Rightarrow>
                 (case AckDigest now chatID cutoff w of
                    (Inl _, w) \<Rightarrow> w\<lparr>w_digestFailures := List.insert chatID (w_digestFailures w)\<rparr>
                  | (Inr _, w) \<Rightarrow> w\<lparr>w_digestFailures := removeAll chatID (w_digestFailures w),
                                    w_notificationsSent := w_notificationsSent w + 1\<rparr>))"

definition digest_user :: "sched_config \<Rightarrow> renderer \<Rightarrow> (string \<Rightarrow> duration option) \<Rightarrow> gotime \<Rightarrow> (int \<Rightarrow> digest_row list) \<Rightarrow> int \<Rightarrow>
    world \<Rightarrow> world" where
  "digest_user cfg render parse_duration now arrivals chatID w =
    (case GetDigestMode chatID w of
       (Inl _, w) \<Rightarrow> w
     | (Inr (mode, intervalStr), w) \<Rightarrow>
         if mode \<noteq> ''digest'' then flushAndSendDigest cfg render now (arrivals chatID) chatID w
         else
           let interval = (case parse_duration intervalStr of Some i \<Rightarrow> i | None \<Rightarrow> hours 6);
               interval = (if chatID \<in> set (w_digestFailures w) then digestRetryInterval else interval)
           in case DigestLastFlushed chatID w of
                (Inl _, w) \<Rightarrow> w
              | (Inr lastFlushed, w) \<Rightarrow>
                  if now - lastFlushed \<ge> interval then flushAndSendDigest cfg render now (arrivals chatID) chatID w else w)"

definition processDigests :: "sched_config \<Rightarrow> renderer \<Rightarrow> (string \<Rightarrow> duration option) \<Rightarrow> gotime \<Rightarrow> (int \<Rightarrow> digest_row list) \<Rightarrow>
    world \<Rightarrow> world" where
  "processDigests cfg render parse_duration now arrivals w =
    (if \<not> sc_Digests cfg then w
     else case PendingDigestUsers w of
       (Inl _, w) \<Rightarrow> w
     | (Inr users, w) \<Rightarrow> fold (digest_user cfg render parse_duration now arrivals) users w)"

definition daily_event :: "int \<Rightarrow> delivery_event" where
  "daily_event chatID = \<lparr>de_ChatID = chatID, de_Token = '''', de_SearchID = 0, de_AlertType = ''daily'', de_Channel = '''',
     de_Status = ''sent'', de_BatchID = '''', de_Error = ''''\<rparr>"

definition sendDailyDigest :: "sched_config \<Rightarrow> renderer \<Rightarrow> (int \<Rightarrow> nat option) \<Rightarrow> gotime \<Rightarrow> int \<Rightarrow> world \<Rightarrow> world" where
  "sendDailyDigest cfg render stats now chatID w =
    (case stats chatID of
       None \<Rightarrow> w
     | Some n \<Rightarrow>
         if n = 0 then w
         else case userLang cfg chatID w of (lang, w) \<Rightarrow>
           case send (NotifiedRaw chatID (render (DailyMessage chatID lang))) w of
             (Some _, w) \<Rightarrow> w
           | (None, w) \<Rightarrow>
               let w = (if sc_Deliveries cfg then snd (RecordDeliveries now [daily_event chatID] w) else w)
               in snd (UpdateDailyDigestLastSent now chatID w))"

definition daily_due :: "(gotime \<Rightarrow> int \<times> int) \<Rightarrow> gotime \<Rightarrow> user \<Rightarrow> bool" where
  "daily_due local now u =
    (let (day, currentMinutes) = local now;
         diff = \<bar>currentMinutes - parseTimeOfDayOrZero (u_daily_digest_time u)\<bar>;
         diff = (if diff > 12 * 60 then 24 * 60 - diff else diff)
     in if diff > 15 then False else fst (local (u_daily_digest_last_sent u)) \<noteq> day)"

definition processDailyDigests :: "sched_config \<Rightarrow> renderer \<Rightarrow> (int \<Rightarrow> nat option) \<Rightarrow> (gotime \<Rightarrow> int \<times> int) \<Rightarrow> gotime \<Rightarrow> world \<Rightarrow> world" where
  "processDailyDigests cfg render stats local now w =
    (if \<not> sc_DailyDigests cfg then w
     else case ListDailyDigestUsers w of
       (Inl _, w) \<Rightarrow> w
     | (Inr users, w) \<Rightarrow> fold (\<lambda>u w. if daily_due local now u then sendDailyDigest cfg render stats now (u_ChatID u) w else w) users w)"

subsection \<open>The daily digest around midnight\<close>

lemma send_none: "w_outcomes w = [] \<Longrightarrow> send out w = (None, w\<lparr>w_sent := w_sent w @ [out]\<rparr>)"
  by (simp add: send_def pop_outcome_def)

lemma userLang_calm:
  assumes "db_faults w = []" "userLang cfg chat w = (lang, w')"
  shows "db_faults w' = [] \<and> w_outcomes w' = w_outcomes w \<and> w_sent w' = w_sent w \<and> db_users w' = db_users w"
proof -
  have "w' = w \<or> w' = w\<lparr>w_lang := AList.update chat lang (w_lang w)\<rparr>"
    using assms by (auto simp: userLang_def GetUser_def Let_def split: option.splits if_splits)
  then show ?thesis using assms(1) by auto
qed

lemma RecordDeliveries_calm:
  assumes "db_faults (w :: world) = []"
  shows "\<exists>rows. snd (RecordDeliveries now es w) = w\<lparr>db_deliveries := rows\<rparr>"
proof (cases "es = []")
  case True
  then have "snd (RecordDeliveries now es w) = w\<lparr>db_deliveries := db_deliveries w\<rparr>" by (simp add: RecordDeliveries_def)
  then show ?thesis by blast
next
  case False
  then show ?thesis using assms by (auto simp: RecordDeliveries_def)
qed

text \<open>A due digest with something to report sends one message and sets the user's time.\<close>

lemma sendDailyDigest_sends:
  assumes "db_faults w = []" "w_outcomes w = []" "stats chat = Some (Suc n)"
  shows "\<exists>out. w_sent (sendDailyDigest cfg render stats now chat w) = w_sent w @ [out] \<and>
    db_faults (sendDailyDigest cfg render stats now chat w) = [] \<and> w_outcomes (sendDailyDigest cfg render stats now chat w) = [] \<and>
    db_users (sendDailyDigest cfg render stats now chat w) = map (\<lambda>(c, u). (c, if c = chat then u\<lparr>u_daily_digest_last_sent := now\<rparr> else u)) (db_users w)"
proof -
  obtain lang w1 where u: "userLang cfg chat w = (lang, w1)" by (metis prod.exhaust)
  note U = userLang_calm [OF assms(1) u]
  define out where "out = NotifiedRaw chat (render (DailyMessage chat lang))"
  define w2 where "w2 = w1\<lparr>w_sent := w_sent w1 @ [out]\<rparr>"
  have s: "send out w1 = (None, w2)" using U assms(2) by (simp add: send_none w2_def)
  have f2: "db_faults w2 = []" using U by (simp add: w2_def)
  define w3 where "w3 = (if sc_Deliveries cfg then snd (RecordDeliveries now [daily_event chat] w2) else w2)"
  have "w3 = w2 \<or> (\<exists>rows. w3 = w2\<lparr>db_deliveries := rows\<rparr>)" using RecordDeliveries_calm [OF f2] by (auto simp: w3_def)
  then have w3: "db_faults w3 = []" "w_outcomes w3 = []" "w_sent w3 = w_sent w @ [out]" "db_users w3 = db_users w"
    using U assms(2) f2 by (auto simp: w2_def)
  have "sendDailyDigest cfg render stats now chat w = snd (UpdateDailyDigestLastSent now chat w3)"
    using assms(3) by (simp add: sendDailyDigest_def u out_def [symmetric] s w3_def Let_def)
  then show ?thesis using w3 by (simp add: UpdateDailyDigestLastSent_def update_user_def)
qed

text \<open>The daily digest is meant to go out once a day, within a quarter of an hour of the user's time, and what
  keeps it from going out twice is that the last one was sent on the same calendar day. For a user who chose
  midnight (or whose time does not parse, which counts as midnight) the window spans two days: a cycle at 23:50
  sends the digest and the cycle at 00:01 sends it again, every night.\<close>

lemma midnight_digest_sent_twice:
  assumes "db_faults w = []" "w_outcomes w = []" "sc_DailyDigests cfg" "stats chat = Some (Suc n)"
    and "db_users w = [(chat, u)]" "u_ChatID u = chat" "u_daily_digest u" "u_Active u" "parseTimeOfDayOrZero (u_daily_digest_time u) = 0"
    and "local t1 = (day, 23 * 60 + 50)" "local t2 = (day + 1, 1)" "fst (local (u_daily_digest_last_sent u)) \<noteq> day"
  shows "\<exists>out1 out2. w_sent (processDailyDigests cfg render stats local t2 (processDailyDigests cfg render stats local t1 w)) = w_sent w @ [out1, out2]"
proof -
  have run: "processDailyDigests cfg render stats local t v = sendDailyDigest cfg render stats t chat v"
    if "db_faults v = []" "db_users v = [(chat, x)]" "u_ChatID x = chat" "u_daily_digest x" "u_Active x" "daily_due local t x" for t v x
    using that assms(3) by (simp add: processDailyDigests_def ListDailyDigestUsers_def)
  have due1: "daily_due local t1 u" using assms(9,10,12) by (simp add: daily_due_def)
  define w1 where "w1 = processDailyDigests cfg render stats local t1 w"
  define u1 where "u1 = u\<lparr>u_daily_digest_last_sent := t1\<rparr>"
  obtain out1 where w1: "w_sent w1 = w_sent w @ [out1]" "db_faults w1 = []" "w_outcomes w1 = []" "db_users w1 = [(chat, u1)]"
    using sendDailyDigest_sends [where cfg = cfg and render = render and now = t1 and stats = stats and chat = chat and n = n and w = w, OF assms(1,2,4)] run [OF assms(1,5-8) due1]
    by (auto simp: w1_def u1_def assms(5))
  have due2: "daily_due local t2 u1" using assms(9,10,11) by (simp add: daily_due_def u1_def)
  have run2: "processDailyDigests cfg render stats local t2 w1 = sendDailyDigest cfg render stats t2 chat w1"
    by (rule run [OF w1(2,4) _ _ _ due2]) (use assms(6-8) in \<open>simp_all add: u1_def\<close>)
  obtain out2 where "w_sent (processDailyDigests cfg render stats local t2 w1) = w_sent w1 @ [out2]"
    using sendDailyDigest_sends [where cfg = cfg and render = render and now = t2 and stats = stats and chat = chat and n = n and w = w1, OF w1(2,3) assms(4)] run2 by auto
  then show ?thesis by (auto simp: w1 w1_def [symmetric])
qed

definition midnight_user :: user where
  "midnight_user = \<lparr>u_ChatID = 1, u_Active = True, u_Language = ''he'', u_Tier = ''free'', u_TierExpires = 0, u_digest_mode = ''instant'',
     u_digest_interval = ''6h'', u_digest_last_flushed = 0, u_daily_digest = True, u_daily_digest_time = ''00:00'', u_daily_digest_last_sent = 0,
       u_Username = [], u_State = ''idle'', u_StateData = [], u_TrialUsed = False, u_Channel = ''telegram'', u_ChannelID = [], u_LinkedWebID = None\<rparr>"

definition utc_clock :: "gotime \<Rightarrow> int \<times> int" where
  "utc_clock t = (t div hours 24, t mod hours 24 div minutes 1)"

lemma midnight_digest_sent_twice_witness:
  "\<exists>out1 out2. w_sent (processDailyDigests (plain_config\<lparr>sc_DailyDigests := True\<rparr>) (\<lambda>_. []) (\<lambda>_. Some 1) utc_clock (hours 144 + minutes 1)
     (processDailyDigests (plain_config\<lparr>sc_DailyDigests := True\<rparr>) (\<lambda>_. []) (\<lambda>_. Some 1) utc_clock (hours 143 + minutes 50)
       (empty_world\<lparr>db_users := [(1, midnight_user)]\<rparr>))) = [out1, out2]"
proof -
  have m: "parseTimeOfDayOrZero (u_daily_digest_time midnight_user) = 0"
    by (simp add: midnight_user_def parseTimeOfDayOrZero_def hour_minute_def two_digits_def digit_of_def is_digit_def)
  have t: "utc_clock (hours 143 + minutes 50) = (5, 23 * 60 + 50)" "utc_clock (hours 144 + minutes 1) = (5 + 1, 1)"
    by (simp_all add: utc_clock_def hours_def minutes_def)
  have "\<exists>out1 out2. w_sent (processDailyDigests (plain_config\<lparr>sc_DailyDigests := True\<rparr>) (\<lambda>_. []) (\<lambda>_. Some 1) utc_clock (hours 144 + minutes 1)
     (processDailyDigests (plain_config\<lparr>sc_DailyDigests := True\<rparr>) (\<lambda>_. []) (\<lambda>_. Some 1) utc_clock (hours 143 + minutes 50)
       (empty_world\<lparr>db_users := [(1, midnight_user)]\<rparr>))) = w_sent (empty_world\<lparr>db_users := [(1, midnight_user)]\<rparr>) @ [out1, out2]"
    by (rule midnight_digest_sent_twice [where u = midnight_user and chat = 1 and n = 0, OF _ _ _ _ _ _ _ _ m t])
      (simp_all add: empty_world_def db.defs empty_db_def midnight_user_def utc_clock_def)
  then show ?thesis by (simp add: empty_world_def db.defs empty_db_def)
qed

end
