(* ===== verification/SearchStore.thy ===== *)
theory SearchStore
  imports Pipeline ListingFilter
begin

section \<open>Saved searches in the database (internal/storage/postgres/searches.go, listings.go)\<close>

text \<open>
  The table of searches with its constraints, and the queries that show the listings of a search. The number of the
  sequence and the share token, which is random, are arguments. A column of type INTEGER takes 32 bits: a larger
  value fails the statement. A share token of \<open>[]\<close> is the NULL of the column.
\<close>

subsection \<open>The table\<close>

definition int4 :: "int \<Rightarrow> bool" where
  "int4 x \<longleftrightarrow> -(2 ^ 31) \<le> x \<and> x < 2 ^ 31"

definition search_columns_fit :: "search \<Rightarrow> bool" where
  "search_columns_fit s = list_all int4 [s_Manufacturer s, s_Model s, s_YearMin s, s_YearMax s, s_PriceMin s, s_PriceMax s,
     s_EngineMinCC s, s_MaxKm s, s_MaxHand s]"

definition source_or_default :: "string \<Rightarrow> string" where
  "source_or_default source = (if source = '''' then ''yad2'' else source)"

text \<open>\<open>COALESCE(MAX(user_seq), 0) + 1\<close> over the searches of a user.\<close>

definition next_user_seq :: "int \<Rightarrow> search list \<Rightarrow> int" where
  "next_user_seq chatID ss =
    (case map s_UserSeq (filter (\<lambda>s. s_ChatID s = chatID) ss) of [] \<Rightarrow> 0 | x # xs \<Rightarrow> fold max xs x) + 1"

definition CreateSearch :: "gotime \<Rightarrow> int \<Rightarrow> string \<Rightarrow> search \<Rightarrow> 'z db_scheme \<Rightarrow> (db_error + int) \<times> 'z db_scheme" where
  "CreateSearch now newID shareToken s = db_call (DbError '''') (\<lambda>d.
     if map_of (db_users d) (s_ChatID s) = None \<or> \<not> search_columns_fit s \<or> list_ex (\<lambda>x. s_ShareToken x = shareToken) (db_searches d)
     then (Inl (DbError ''''), d)
     else (Inr newID, d\<lparr>db_searches := db_searches d @
       [s\<lparr>s_ID := newID, s_UserSeq := next_user_seq (s_ChatID s) (db_searches d), s_Source := source_or_default (s_Source s),
          s_SellerFilter := NormalizeSellerFilter (s_SellerFilter s), s_Active := True, s_CreatedAt := now, s_ShareToken := shareToken\<rparr>]\<rparr>))"

definition GetSearch :: "int \<Rightarrow> int \<Rightarrow> 'z db_scheme \<Rightarrow> (db_error + search option) \<times> 'z db_scheme" where
  "GetSearch sid chatID = db_call (DbError ''get search'') (\<lambda>d. (Inr (find (\<lambda>s. s_ID s = sid \<and> s_ChatID s = chatID) (db_searches d)), d))"

definition GetSearchBySeq :: "int \<Rightarrow> int \<Rightarrow> 'z db_scheme \<Rightarrow> (db_error + search option) \<times> 'z db_scheme" where
  "GetSearchBySeq chatID seq = db_call (DbError ''get search by seq'') (\<lambda>d.
     (Inr (find (\<lambda>s. s_ChatID s = chatID \<and> s_UserSeq s = seq) (db_searches d)), d))"

definition GetSearchByShareToken :: "string \<Rightarrow> 'z db_scheme \<Rightarrow> (db_error + search option) \<times> 'z db_scheme" where
  "GetSearchByShareToken token = db_call (DbError ''get search by share token'') (\<lambda>d.
     (Inr (find (\<lambda>s. s_ShareToken s \<noteq> [] \<and> s_ShareToken s = token) (db_searches d)), d))"

text \<open>The columns that \<open>UpdateSearch\<close> sets; \<open>active\<close>, the number and the share token stay.\<close>

definition updated_row :: "search \<Rightarrow> search \<Rightarrow> search" where
  "updated_row new s = s\<lparr>s_Name := s_Name new, s_Source := source_or_default (s_Source new), s_Manufacturer := s_Manufacturer new, s_Model := s_Model new,
     s_YearMin := s_YearMin new, s_YearMax := s_YearMax new, s_PriceMin := s_PriceMin new, s_PriceMax := s_PriceMax new,
     s_EngineMinCC := s_EngineMinCC new, s_MaxKm := s_MaxKm new, s_MaxHand := s_MaxHand new, s_Keywords := s_Keywords new,
     s_ExcludeKeys := s_ExcludeKeys new, s_SellerFilter := NormalizeSellerFilter (s_SellerFilter new), s_GearBox := s_GearBox new,
     s_PriceOnly := s_PriceOnly new, s_PhotoOnly := s_PhotoOnly new\<rparr>"

text \<open>An UPDATE by primary key and owner, with \<open>ErrNotFound\<close> when it hits no row.\<close>

definition update_own :: "int \<Rightarrow> int \<Rightarrow> (search \<Rightarrow> search) \<Rightarrow> 'z db_scheme \<Rightarrow> (db_error + unit) \<times> 'z db_scheme" where
  "update_own sid chatID f d =
    (let hit = \<lambda>s. s_ID s = sid \<and> s_ChatID s = chatID
     in (if list_ex hit (db_searches d) then Inr () else Inl NotFound,
         d\<lparr>db_searches := map (\<lambda>s. if hit s then f s else s) (db_searches d)\<rparr>))"

definition UpdateSearch :: "search \<Rightarrow> 'z db_scheme \<Rightarrow> (db_error + unit) \<times> 'z db_scheme" where
  "UpdateSearch new = db_call (DbError ''update search'') (\<lambda>d.
     if search_columns_fit new then update_own (s_ID new) (s_ChatID new) (updated_row new) d
     else (Inl (DbError ''update search''), d))"

definition SetSearchActive :: "int \<Rightarrow> int \<Rightarrow> bool \<Rightarrow> 'z db_scheme \<Rightarrow> (db_error + unit) \<times> 'z db_scheme" where
  "SetSearchActive sid chatID active = db_call (DbError ''set search active'') (update_own sid chatID (s_Active_update (\<lambda>_. active)))"

text \<open>A transaction: the search with the claims and the history rows of that search.\<close>

definition DeleteSearch :: "int \<Rightarrow> int \<Rightarrow> 'z db_scheme \<Rightarrow> (db_error + unit) \<times> 'z db_scheme" where
  "DeleteSearch sid chatID = db_call (DbError '''') (\<lambda>d.
     if list_ex (\<lambda>s. s_ID s = sid \<and> s_ChatID s = chatID) (db_searches d) then
       (Inr (), d\<lparr>db_seen := filter (\<lambda>((t, c, i), r). \<not> (i = sid \<and> c = chatID)) (db_seen d),
          db_history := filter (\<lambda>((t, c), r). \<not> (lr_SearchID r = sid \<and> c = chatID)) (db_history d),
          db_searches := filter (\<lambda>s. \<not> (s_ID s = sid \<and> s_ChatID s = chatID)) (db_searches d)\<rparr>)
     else (Inl NotFound, d))"

text \<open>The query orders by source, then manufacturer and model; there is one source, so the order by source is left out.\<close>

definition owner_active :: "'z db_scheme \<Rightarrow> search \<Rightarrow> bool" where
  "owner_active d s = (case map_of (db_users d) (s_ChatID s) of Some u \<Rightarrow> u_Active u | None \<Rightarrow> False)"

definition ListAllActiveSearches :: "'z db_scheme \<Rightarrow> (db_error + search list) \<times> 'z db_scheme" where
  "ListAllActiveSearches = db_call (DbError ''list active searches'') (\<lambda>d.
     (Inr (sort_key s_Model (sort_key s_Manufacturer (filter (\<lambda>s. s_Active s \<and> owner_active d s) (db_searches d)))), d))"

definition CountSearches :: "int \<Rightarrow> 'z db_scheme \<Rightarrow> (db_error + nat) \<times> 'z db_scheme" where
  "CountSearches chatID = db_call (DbError ''count searches'') (\<lambda>d.
     (Inr (length (filter (\<lambda>s. s_ChatID s = chatID \<and> s_Active s) (db_searches d))), d))"

definition CountAllSearches :: "'z db_scheme \<Rightarrow> (db_error + nat) \<times> 'z db_scheme" where
  "CountAllSearches = db_call (DbError ''count all searches'') (\<lambda>d.
     (Inr (length (filter (\<lambda>s. s_Active s \<and> owner_active d s) (db_searches d))), d))"

subsection \<open>The listings of a search\<close>

record listing_filter =
  lf_PriceMin :: int
  lf_PriceMax :: int
  lf_YearMin :: int
  lf_YearMax :: int
  lf_MaxKm :: int
  lf_MaxHand :: int
  lf_Commercial :: "bool option"
  lf_GearBox :: string
  lf_PriceOnly :: bool
  lf_PhotoOnly :: bool
  lf_IncludeRemoved :: bool

definition listingFilterFromSearch :: "search \<Rightarrow> listing_filter" where
  "listingFilterFromSearch s =
    \<lparr>lf_PriceMin = s_PriceMin s, lf_PriceMax = s_PriceMax s, lf_YearMin = s_YearMin s, lf_YearMax = s_YearMax s,
     lf_MaxKm = s_MaxKm s, lf_MaxHand = s_MaxHand s,
     lf_Commercial = (let f = NormalizeSellerFilter (s_SellerFilter s) in
       if f = SellerFilterPrivate then Some False else if f = SellerFilterCommercial then Some True else None),
     lf_GearBox = s_GearBox s, lf_PriceOnly = s_PriceOnly s, lf_PhotoOnly = s_PhotoOnly s, lf_IncludeRemoved = False\<rparr>"

text \<open>The WHERE clauses of \<open>buildFilterClauses\<close>: a clause is present when its field is set. NULL in \<open>is_commercial\<close>
  reads as 0.\<close>

definition filter_clauses :: "listing_filter \<Rightarrow> ('z listing_record_scheme \<Rightarrow> bool) list" where
  "filter_clauses f =
    (if lf_PriceMin f > 0 then [\<lambda>r. lr_Price r \<ge> lf_PriceMin f \<or> lr_Price r = 0] else [])
    @ (if lf_PriceMax f > 0 then [\<lambda>r. lr_Price r \<le> lf_PriceMax f] else [])
    @ (if lf_YearMin f > 0 then [\<lambda>r. lr_Year r \<ge> lf_YearMin f] else [])
    @ (if lf_YearMax f > 0 then [\<lambda>r. lr_Year r \<le> lf_YearMax f] else [])
    @ (if lf_MaxKm f > 0 then [\<lambda>r. lr_Km r \<le> lf_MaxKm f \<or> lr_Km r = 0] else [])
    @ (if lf_MaxHand f > 0 then [\<lambda>r. lr_Hand r \<le> lf_MaxHand f] else [])
    @ (case lf_Commercial f of None \<Rightarrow> [] | Some b \<Rightarrow> [\<lambda>r. (lr_IsCommercial r = Some True) = b])
    @ (if lf_GearBox f \<noteq> '''' then [\<lambda>r. lr_GearBox r = '''' \<or> to_lower (lr_GearBox r) = to_lower (lf_GearBox f)] else [])
    @ (if lf_PriceOnly f then [\<lambda>r. lr_Price r > 0] else [])
    @ (if lf_PhotoOnly f then [\<lambda>r. lr_ImageURL r \<noteq> ''''] else [])
    @ (if \<not> lf_IncludeRemoved f then [\<lambda>r. lr_RemovedAt r = None] else [])"

definition shown :: "listing_filter \<Rightarrow> 'z listing_record_scheme \<Rightarrow> bool" where
  "shown f r = list_all (\<lambda>c. c r) (filter_clauses f)"

definition search_rows :: "int \<Rightarrow> int \<Rightarrow> listing_filter \<Rightarrow> 'z db_scheme \<Rightarrow> history_row list" where
  "search_rows chatID sid f d = map snd (filter (\<lambda>((t, c), r). c = chatID \<and> lr_SearchID r = sid \<and> shown f r) (db_history d))"

definition CountSearchListings :: "int \<Rightarrow> int \<Rightarrow> listing_filter \<Rightarrow> 'z db_scheme \<Rightarrow> (db_error + nat) \<times> 'z db_scheme" where
  "CountSearchListings chatID sid f = db_call (DbError '''') (\<lambda>d. (Inr (length (search_rows chatID sid f d)), d))"

record search_stats =
  ss_Total :: nat
  ss_New24h :: nat
  ss_AvgPrice :: real
  ss_MinPrice :: int
  ss_MaxPrice :: int

definition SearchStats :: "gotime \<Rightarrow> int \<Rightarrow> int \<Rightarrow> listing_filter \<Rightarrow> 'z db_scheme \<Rightarrow> (db_error + search_stats) \<times> 'z db_scheme" where
  "SearchStats now chatID sid f = db_call (DbError ''search stats'') (\<lambda>d.
     let rows = search_rows chatID sid f d; prices = filter (\<lambda>p. p > 0) (map lr_Price rows)
     in (Inr \<lparr>ss_Total = length rows, ss_New24h = length (filter (\<lambda>r. lr_FirstSeenAt r > now - hours 24) rows),
              ss_AvgPrice = (if prices = [] then 0 else of_int (sum_list prices) / of_nat (length prices)),
              ss_MinPrice = (case prices of [] \<Rightarrow> 0 | p # ps \<Rightarrow> fold min ps p),
              ss_MaxPrice = (case prices of [] \<Rightarrow> 0 | p # ps \<Rightarrow> fold max ps p)\<rparr>, d))"

text \<open>The batch query of the list of searches, which joins the rows with their searches and has the clauses in SQL of its
  own. \<open>TRIM\<close> takes blanks off. Groups of no row are absent.\<close>

definition sql_trim :: "string \<Rightarrow> string" where
  "sql_trim s = rev (dropWhile (\<lambda>c. c = CHR '' '') (rev (dropWhile (\<lambda>c. c = CHR '' '') s)))"

definition seller_case :: "string \<Rightarrow> bool option \<Rightarrow> bool" where
  "seller_case sellerFilter commercial =
    (let f = to_lower (sql_trim (if sellerFilter = '''' then ''any'' else sellerFilter)); is1 = (commercial = Some True) in
     if f = ''private'' then \<not> is1
     else if f = ''commercial'' \<or> f = ''dealer'' \<or> f = ''dealership'' then is1
     else True)"

definition batch_shown :: "search \<Rightarrow> 'z listing_record_scheme \<Rightarrow> bool" where
  "batch_shown s r \<longleftrightarrow>
     (s_PriceMin s \<le> 0 \<or> lr_Price r \<ge> s_PriceMin s \<or> lr_Price r = 0)
   \<and> (s_PriceMax s \<le> 0 \<or> lr_Price r \<le> s_PriceMax s)
   \<and> (s_YearMin s \<le> 0 \<or> lr_Year r \<ge> s_YearMin s)
   \<and> (s_YearMax s \<le> 0 \<or> lr_Year r \<le> s_YearMax s)
   \<and> (s_MaxKm s \<le> 0 \<or> lr_Km r \<le> s_MaxKm s \<or> lr_Km r = 0)
   \<and> (s_MaxHand s \<le> 0 \<or> lr_Hand r \<le> s_MaxHand s)
   \<and> seller_case (s_SellerFilter s) (lr_IsCommercial r)
   \<and> (s_GearBox s = '''' \<or> lr_GearBox r = '''' \<or> to_lower (lr_GearBox r) = to_lower (s_GearBox s))
   \<and> (\<not> s_PriceOnly s \<or> lr_Price r > 0)
   \<and> (\<not> s_PhotoOnly s \<or> lr_ImageURL r \<noteq> '''')
   \<and> lr_RemovedAt r = None"

definition joined_ids :: "int \<Rightarrow> 'z db_scheme \<Rightarrow> int list" where
  "joined_ids chatID d = concat (map (\<lambda>((t, c), r). if c \<noteq> chatID then []
     else map s_ID (filter (\<lambda>s. s_ID s = lr_SearchID r \<and> s_ChatID s = c \<and> batch_shown s r) (db_searches d))) (db_history d))"

definition CountSearchListingsForChat :: "int \<Rightarrow> 'z db_scheme \<Rightarrow> (db_error + (int \<times> nat) list) \<times> 'z db_scheme" where
  "CountSearchListingsForChat chatID = db_call (DbError '''') (\<lambda>d.
     let ids = joined_ids chatID d in (Inr (map (\<lambda>i. (i, count_list ids i)) (remdups ids)), d))"

subsection \<open>Lemmas\<close>

lemma shown_iff:
  "shown f r \<longleftrightarrow>
     (lf_PriceMin f > 0 \<longrightarrow> lr_Price r \<ge> lf_PriceMin f \<or> lr_Price r = 0)
   \<and> (lf_PriceMax f > 0 \<longrightarrow> lr_Price r \<le> lf_PriceMax f)
   \<and> (lf_YearMin f > 0 \<longrightarrow> lr_Year r \<ge> lf_YearMin f)
   \<and> (lf_YearMax f > 0 \<longrightarrow> lr_Year r \<le> lf_YearMax f)
   \<and> (lf_MaxKm f > 0 \<longrightarrow> lr_Km r \<le> lf_MaxKm f \<or> lr_Km r = 0)
   \<and> (lf_MaxHand f > 0 \<longrightarrow> lr_Hand r \<le> lf_MaxHand f)
   \<and> (case lf_Commercial f of None \<Rightarrow> True | Some b \<Rightarrow> (lr_IsCommercial r = Some True) = b)
   \<and> (lf_GearBox f \<noteq> '''' \<longrightarrow> lr_GearBox r = '''' \<or> to_lower (lr_GearBox r) = to_lower (lf_GearBox f))
   \<and> (lf_PriceOnly f \<longrightarrow> lr_Price r > 0)
   \<and> (lf_PhotoOnly f \<longrightarrow> lr_ImageURL r \<noteq> '''')
   \<and> (\<not> lf_IncludeRemoved f \<longrightarrow> lr_RemovedAt r = None)"
  unfolding shown_def filter_clauses_def by (simp split: option.split)

definition normal_seller :: "search \<Rightarrow> bool" where
  "normal_seller s \<longleftrightarrow> NormalizeSellerFilter (s_SellerFilter s) = s_SellerFilter s"

lemma normal_seller_cases:
  assumes "normal_seller s"
  obtains "s_SellerFilter s = ''any''" | "s_SellerFilter s = ''private''" | "s_SellerFilter s = ''commercial''"
  using assms NormalizeSellerFilter_range [of "s_SellerFilter s"] unfolding normal_seller_def by force

lemma seller_case_normal:
  assumes "normal_seller s"
  shows "seller_case (s_SellerFilter s) commercial \<longleftrightarrow>
    (case lf_Commercial (listingFilterFromSearch s) of None \<Rightarrow> True | Some b \<Rightarrow> (commercial = Some True) = b)"
proof -
  have n: "NormalizeSellerFilter ''any'' = ''any''" "NormalizeSellerFilter ''private'' = ''private''"
    "NormalizeSellerFilter ''commercial'' = ''commercial''" by code_simp+
  have t: "to_lower (sql_trim ''any'') = ''any''" "to_lower (sql_trim ''private'') = ''private''"
    "to_lower (sql_trim ''commercial'') = ''commercial''" by code_simp+
  show ?thesis
    by (rule normal_seller_cases [OF assms]) (simp_all add: n listingFilterFromSearch_def seller_case_def t Let_def)
qed

lemma batch_shown_normal: "normal_seller s \<Longrightarrow> batch_shown s r = shown (listingFilterFromSearch s) r"
proof -
  assume "normal_seller s"
  note seller_case_normal [OF this, of "lr_IsCommercial r"]
  then show "batch_shown s r = shown (listingFilterFromSearch s) r"
    unfolding shown_iff batch_shown_def by (simp add: listingFilterFromSearch_def not_le disj_imp)
qed

lemma count_list_concat: "count_list (concat xss) x = sum_list (map (\<lambda>xs. count_list xs x) xss)"
  by (induction xss) simp_all

lemma length_filter_sum: "length (filter P xs) = sum_list (map (\<lambda>x. if P x then 1 else 0) xs)"
  by (induction xs) simp_all

lemma count_list_single_id:
  assumes "distinct (map s_ID ss)" "s \<in> set ss"
  shows "count_list (map s_ID (filter P ss)) (s_ID s) = (if P s then 1 else 0)"
  using assms
proof (induction ss)
  case (Cons x ss)
  have "count_list (map s_ID (filter P ss)) i = 0" if "i \<notin> s_ID ` set ss" for i
    using that by (induction ss) auto
  then show ?case using Cons by (cases "s = x") (auto simp: image_iff)
qed simp

lemma joined_ids_count:
  assumes "distinct (map s_ID (db_searches d))" "s \<in> set (db_searches d)" "s_ChatID s = chatID"
  shows "count_list (joined_ids chatID d) (s_ID s) =
    length (filter (\<lambda>((t, c), r). c = chatID \<and> lr_SearchID r = s_ID s \<and> batch_shown s r) (db_history d))"
proof -
  have row: "count_list (if c \<noteq> chatID then [] else
      map s_ID (filter (\<lambda>x. s_ID x = lr_SearchID r \<and> s_ChatID x = c \<and> batch_shown x r) (db_searches d))) (s_ID s) =
      (if c = chatID \<and> lr_SearchID r = s_ID s \<and> batch_shown s r then 1 else 0)" for t c and r :: history_row
    using count_list_single_id [OF assms(1,2), of "\<lambda>x. s_ID x = lr_SearchID r \<and> s_ChatID x = c \<and> batch_shown x r"] assms(3) by auto
  have "count_list (joined_ids chatID d) (s_ID s) =
      sum_list (map (\<lambda>((t, c), r). if c = chatID \<and> lr_SearchID r = s_ID s \<and> batch_shown s r then 1 else 0) (db_history d))"
    unfolding joined_ids_def count_list_concat map_map comp_def
    by (rule arg_cong [where f = sum_list], rule map_cong [OF refl]) (auto simp: row simp del: filter_filter)
  also have "\<dots> = length (filter (\<lambda>((t, c), r). c = chatID \<and> lr_SearchID r = s_ID s \<and> batch_shown s r) (db_history d))"
    unfolding length_filter_sum by (rule arg_cong [where f = sum_list], rule map_cong [OF refl]) (auto split: prod.split)
  finally show ?thesis .
qed

subsection \<open>What is counted, and what is shown\<close>

text \<open>C1. The number of listings that the list of searches gives for a search, from the batch query, is the number that
  the query of the search itself gives: the two ways of counting agree on every history, for searches whose seller
  filter is stored normalised, as every write stores it.\<close>

theorem counts_agree:
  assumes "distinct (map s_ID (db_searches d))" "s \<in> set (db_searches d)" "normal_seller s" "db_faults d = []"
  shows "\<exists>counts n. CountSearchListingsForChat (s_ChatID s) d = (Inr counts, d)
    \<and> CountSearchListings (s_ChatID s) (s_ID s) (listingFilterFromSearch s) d = (Inr n, d)
    \<and> (case map_of counts (s_ID s) of None \<Rightarrow> 0 | Some k \<Rightarrow> k) = n"
proof -
  define ids where "ids = joined_ids (s_ChatID s) d"
  have "map_of (map (\<lambda>i. (i, count_list ids i)) (remdups ids)) (s_ID s) = (if s_ID s \<in> set ids then Some (count_list ids (s_ID s)) else None)"
    by (induction ids) (auto simp: map_of_map_restrict restrict_map_def)
  then have "(case map_of (map (\<lambda>i. (i, count_list ids i)) (remdups ids)) (s_ID s) of None \<Rightarrow> 0 | Some k \<Rightarrow> k) = count_list ids (s_ID s)"
    by (simp add: count_list_0_iff)
  also have "\<dots> = length (search_rows (s_ChatID s) (s_ID s) (listingFilterFromSearch s) d)"
    unfolding ids_def joined_ids_count [OF assms(1,2) refl] search_rows_def by (simp add: batch_shown_normal [OF assms(3)])
  finally show ?thesis
    by (simp add: CountSearchListingsForChat_def CountSearchListings_def assms(4) ids_def Let_def)
qed

definition sample_search :: search where
  "sample_search = zero_search\<lparr>s_ID := 2, s_ChatID := 7, s_Name := ''family'', s_PriceMax := 90000, s_SellerFilter := ''private'', s_Active := True\<rparr>"

definition sample_tables :: db where
  "sample_tables = empty_db\<lparr>db_searches := [sample_search],
     db_history := [((''t'', 7), new_row 0 (zero_record\<lparr>lr_Token := ''t'', lr_ChatID := 7, lr_SearchID := 2, lr_Price := 80000\<rparr>))]\<rparr>"

theorem counts_agree_witness:
  "\<exists>counts n. CountSearchListingsForChat 7 sample_tables = (Inr counts, sample_tables)
    \<and> CountSearchListings 7 2 (listingFilterFromSearch sample_search) sample_tables = (Inr n, sample_tables)
    \<and> (case map_of counts 2 of None \<Rightarrow> 0 | Some k \<Rightarrow> k) = n"
proof -
  have "normal_seller sample_search" by code_simp
  then show ?thesis
    using counts_agree [of sample_tables sample_search] by (simp add: sample_tables_def sample_search_def empty_db_def)
qed

lemma raw_of_listing_fields [simp]:
  "rl_Price (raw_of_listing x) = rl_Price x" "rl_Year (raw_of_listing x) = rl_Year x" "rl_Km (raw_of_listing x) = rl_Km x"
  "rl_Hand (raw_of_listing x) = rl_Hand x" "rl_GearBox (raw_of_listing x) = rl_GearBox x" "rl_ImageURL (raw_of_listing x) = rl_ImageURL x"
  "rl_Commercial (raw_of_listing x) = rl_Commercial x"
  by (simp_all add: raw_of_listing_def raw_listing.defs)

lemma built_row_fields [simp]:
  "lr_Price (new_row now (buildRecord now x pp)) = rl_Price x" "lr_Year (new_row now (buildRecord now x pp)) = rl_Year x"
  "lr_Km (new_row now (buildRecord now x pp)) = rl_Km x" "lr_Hand (new_row now (buildRecord now x pp)) = rl_Hand x"
  "lr_GearBox (new_row now (buildRecord now x pp)) = rl_GearBox x" "lr_ImageURL (new_row now (buildRecord now x pp)) = rl_ImageURL x"
  "lr_IsCommercial (new_row now (buildRecord now x pp)) = rl_Commercial x" "lr_RemovedAt (new_row now (buildRecord now x pp)) = None"
  by (simp_all add: new_row_def buildRecord_def listing_record.defs)

lemma filter_fields:
  "lf_PriceMin (listingFilterFromSearch s) = s_PriceMin s" "lf_PriceMax (listingFilterFromSearch s) = s_PriceMax s"
  "lf_YearMin (listingFilterFromSearch s) = s_YearMin s" "lf_YearMax (listingFilterFromSearch s) = s_YearMax s"
  "lf_MaxKm (listingFilterFromSearch s) = s_MaxKm s" "lf_MaxHand (listingFilterFromSearch s) = s_MaxHand s"
  "lf_GearBox (listingFilterFromSearch s) = s_GearBox s" "lf_PriceOnly (listingFilterFromSearch s) = s_PriceOnly s"
  "lf_PhotoOnly (listingFilterFromSearch s) = s_PhotoOnly s" "lf_IncludeRemoved (listingFilterFromSearch s) = False"
  by (simp_all add: listingFilterFromSearch_def)

lemma seller_shown:
  assumes "\<not> seller_rejects (s_SellerFilter s) c"
  shows "(case lf_Commercial (listingFilterFromSearch s) of None \<Rightarrow> True | Some b \<Rightarrow> (c = Some True) = b) \<longleftrightarrow>
    (NormalizeSellerFilter (s_SellerFilter s) = SellerFilterCommercial \<longrightarrow> c \<noteq> None)"
  using assms
  by (cases c) (auto simp: seller_rejects_def listingFilterFromSearch_def NormalizeSellerFilter_def Let_def split: if_splits)

lemma accepted_row_shown:
  assumes "matches (lower_criteria (FilterCriteriaFromSearch s)) (raw_of_listing x)" "0 \<le> rl_Price x" "0 \<le> rl_Km x"
    and "lr_Price h = rl_Price x" "lr_Year h = rl_Year x" "lr_Km h = rl_Km x" "lr_Hand h = rl_Hand x" "lr_GearBox h = rl_GearBox x"
    "lr_ImageURL h = rl_ImageURL x" "lr_IsCommercial h = rl_Commercial x" "lr_RemovedAt h = None"
  shows "shown (listingFilterFromSearch s) h \<longleftrightarrow>
    (NormalizeSellerFilter (s_SellerFilter s) = SellerFilterCommercial \<longrightarrow> rl_Commercial x \<noteq> None)"
proof -
  have m: "\<not> (0 < s_PriceMin s \<and> 0 < rl_Price x \<and> rl_Price x < s_PriceMin s)" "\<not> (0 < s_PriceMax s \<and> s_PriceMax s < rl_Price x)"
    "\<not> (0 < s_YearMin s \<and> rl_Year x < s_YearMin s)" "\<not> (0 < s_YearMax s \<and> s_YearMax s < rl_Year x)"
    "\<not> (0 < s_MaxKm s \<and> 0 < rl_Km x \<and> s_MaxKm s < rl_Km x)" "\<not> (0 < s_MaxHand s \<and> s_MaxHand s < rl_Hand x)"
    "\<not> (s_PriceOnly s \<and> rl_Price x \<le> 0)" "\<not> (s_PhotoOnly s \<and> rl_ImageURL x = [])"
    "\<not> (s_GearBox s \<noteq> [] \<and> rl_GearBox x \<noteq> [] \<and> \<not> equal_fold (rl_GearBox x) (s_GearBox s))"
    "\<not> seller_rejects (s_SellerFilter s) (rl_Commercial x)"
    using assms(1) unfolding matches_conj lower_criteria_def by simp_all
  note seller = seller_shown [OF m(10)]
  have ok: "0 < s_PriceMin s \<longrightarrow> s_PriceMin s \<le> rl_Price x \<or> rl_Price x = 0" "0 < s_PriceMax s \<longrightarrow> rl_Price x \<le> s_PriceMax s"
    "0 < s_YearMin s \<longrightarrow> s_YearMin s \<le> rl_Year x" "0 < s_YearMax s \<longrightarrow> rl_Year x \<le> s_YearMax s"
    "0 < s_MaxKm s \<longrightarrow> rl_Km x \<le> s_MaxKm s \<or> rl_Km x = 0" "0 < s_MaxHand s \<longrightarrow> rl_Hand x \<le> s_MaxHand s"
    "s_PriceOnly s \<longrightarrow> rl_Price x > 0"
    using m(1-7) assms(2,3) by linarith+
  have strs: "s_PhotoOnly s \<longrightarrow> rl_ImageURL x \<noteq> ''''"
    "s_GearBox s \<noteq> '''' \<longrightarrow> rl_GearBox x = '''' \<or> to_lower (rl_GearBox x) = to_lower (s_GearBox s)"
    using m(8,9) by (auto simp: equal_fold_def)
  show ?thesis
    unfolding shown_iff assms(4-11) seller filter_fields by (simp add: ok strs)
qed

text \<open>A listing whose numbers are known, with an image, a gear box and a seller: in the merge with an old row all of it is taken.\<close>

definition complete_listing :: "listing \<Rightarrow> bool" where
  "complete_listing x \<longleftrightarrow> rl_Price x > 0 \<and> rl_Year x > 0 \<and> rl_Km x > 0 \<and> rl_Hand x > 0 \<and> rl_GearBox x \<noteq> [] \<and> rl_ImageURL x \<noteq> [] \<and>
     rl_Commercial x \<noteq> None"

lemma merged_row_fields:
  assumes "complete_listing x"
  shows "lr_Price (merge_row now (buildRecord now x pp) h) = rl_Price x" "lr_Year (merge_row now (buildRecord now x pp) h) = rl_Year x"
    "lr_Km (merge_row now (buildRecord now x pp) h) = rl_Km x" "lr_Hand (merge_row now (buildRecord now x pp) h) = rl_Hand x"
    "lr_GearBox (merge_row now (buildRecord now x pp) h) = rl_GearBox x" "lr_ImageURL (merge_row now (buildRecord now x pp) h) = rl_ImageURL x"
    "lr_IsCommercial (merge_row now (buildRecord now x pp) h) = rl_Commercial x" "lr_RemovedAt (merge_row now (buildRecord now x pp) h) = None"
  unfolding merge_row_fields using assms
  by (auto simp: complete_listing_def buildRecord_def pos_or_def text_or_def coalesce_def split: option.split)

lemma count_update_key:
  "distinct (map fst hs) \<Longrightarrow>
    length (filter P (AList.update k v hs)) = length (filter P (AList.delete k hs)) + (if P (k, v) then 1 else 0)"
proof (induction hs)
  case (Cons a hs)
  show ?case
  proof (cases "fst a = k")
    case True
    then have "AList.delete k (a # hs) = hs"
      using Cons.prems by (auto simp: AList.delete_eq filter_id_conv image_iff)
    then show ?thesis using True by (cases a) simp
  next
    case False
    then show ?thesis using Cons by (cases a) (auto simp: AList.delete_eq)
  qed
qed simp

text \<open>C2. A listing that passes the filter of a search, none of whose numbers is negative, is counted and listed once under this search
  as soon as it is saved, if it is new to the user or all that the filter looks at is known of it; with one exception: under a search
  for dealers a listing whose seller is unknown is alerted, but its row, where the unknown seller reads as private, is neither listed
  nor counted.\<close>

theorem alerted_listing_is_shown:
  assumes "matches (lower_criteria (FilterCriteriaFromSearch s)) (raw_of_listing x)" "0 \<le> rl_Price x" "0 \<le> rl_Km x" "0 < s_ID s"
    and "db_faults d = []" "distinct (map fst (db_history d))"
    and "map_of (db_history d) (rl_Token x, s_ChatID s) = None \<or> complete_listing x"
    and "SaveListings now [buildRecord now x (ProcessParamsFromSearch s mc)] d = (Inr (), d')"
  shows "\<exists>h. map_of (db_history d') (rl_Token x, s_ChatID s) = Some h \<and> lr_Price h = rl_Price x \<and> lr_Km h = rl_Km x
    \<and> (if NormalizeSellerFilter (s_SellerFilter s) = SellerFilterCommercial \<and> rl_Commercial x = None
       then fst (CountSearchListings (s_ChatID s) (s_ID s) (listingFilterFromSearch s) d') =
         Inr (length (search_rows (s_ChatID s) (s_ID s) (listingFilterFromSearch s) (d\<lparr>db_history := AList.delete (rl_Token x, s_ChatID s) (db_history d)\<rparr>)))
       else h \<in> set (search_rows (s_ChatID s) (s_ID s) (listingFilterFromSearch s) d')
         \<and> fst (CountSearchListings (s_ChatID s) (s_ID s) (listingFilterFromSearch s) d') =
           Inr (length (search_rows (s_ChatID s) (s_ID s) (listingFilterFromSearch s) (d\<lparr>db_history := AList.delete (rl_Token x, s_ChatID s) (db_history d)\<rparr>)) + 1))"
proof -
  let ?r = "buildRecord now x (ProcessParamsFromSearch s mc)" and ?k = "(rl_Token x, s_ChatID s)" and ?f = "listingFilterFromSearch s"
  define h where "h = (case map_of (db_history d) ?k of None \<Rightarrow> new_row now ?r | Some h \<Rightarrow> merge_row now ?r h)"
  have key: "(lr_Token ?r, lr_ChatID ?r) = ?k" and sid: "lr_SearchID ?r = s_ID s" by (simp_all add: buildRecord_def ProcessParamsFromSearch_def)
  have d': "d' = d\<lparr>db_history := AList.update ?k h (db_history d)\<rparr>"
    using assms(8) by (simp add: SaveListings_def assms(5) upsert_listing_def Let_def key h_def)
  have row: "lr_Price h = rl_Price x \<and> lr_Km h = rl_Km x \<and> lr_SearchID h = s_ID s \<and> (shown ?f h \<longleftrightarrow>
      (NormalizeSellerFilter (s_SellerFilter s) = SellerFilterCommercial \<longrightarrow> rl_Commercial x \<noteq> None))"
  proof (cases "map_of (db_history d) ?k")
    case None
    then have h: "h = new_row now ?r" by (simp add: h_def)
    have "lr_SearchID (new_row now ?r) = s_ID s" using sid by (simp add: new_row_def listing_record.defs)
    then show ?thesis unfolding h using accepted_row_shown [OF assms(1-3), of "new_row now ?r"] by simp
  next
    case (Some g)
    then have h: "h = merge_row now ?r g" and c: "complete_listing x" using assms(7) by (simp_all add: h_def)
    have "lr_SearchID (merge_row now ?r g) = s_ID s" unfolding merge_row_fields sid using assms(4) by simp
    then show ?thesis unfolding h
      using accepted_row_shown [OF assms(1-3), of "merge_row now ?r g"] merged_row_fields [OF c] by simp
  qed
  have count: "length (search_rows (s_ChatID s) (s_ID s) ?f d') =
      length (search_rows (s_ChatID s) (s_ID s) ?f (d\<lparr>db_history := AList.delete ?k (db_history d)\<rparr>)) + (if shown ?f h then 1 else 0)"
    unfolding search_rows_def length_map d' using row by (simp add: count_update_key [OF assms(6)])
  have found: "map_of (db_history d') ?k = Some h" by (simp add: d' update_conv')
  have listed: "shown ?f h \<Longrightarrow> h \<in> set (search_rows (s_ChatID s) (s_ID s) ?f d')"
    using map_of_SomeD [OF found] row by (force simp: search_rows_def)
  have "db_faults d' = []" using assms(5) by (simp add: d')
  then show ?thesis using found row count listed by (intro exI [of _ h]) (auto simp: CountSearchListings_def)
qed

text \<open>A search for dealers, and a listing of an unknown seller.\<close>

definition dealer_search :: search where
  "dealer_search = zero_search\<lparr>s_ID := 2, s_ChatID := 7, s_SellerFilter := ''dealer'', s_PriceMax := 90000\<rparr>"

definition unknown_seller :: listing where
  "unknown_seller = listing_of_raw (zero_raw_listing\<lparr>rl_Token := ''t'', rl_Price := 80000\<rparr>) ''n''"

theorem alerted_listing_is_shown_witness:
  "fst (CountSearchListings 7 2 (listingFilterFromSearch dealer_search)
    (snd (SaveListings 5 [buildRecord 5 unknown_seller (ProcessParamsFromSearch dealer_search None)] empty_db))) = Inr 0"
proof -
  have m: "matches (lower_criteria (FilterCriteriaFromSearch dealer_search)) (raw_of_listing unknown_seller)"
    unfolding unknown_seller_def raw_of_listing_of_raw by code_simp
  have n: "NormalizeSellerFilter (s_SellerFilter dealer_search) = SellerFilterCommercial" by code_simp
  have x: "rl_Commercial unknown_seller = None" "rl_Price unknown_seller = 80000" "rl_Km unknown_seller = 0" "rl_Token unknown_seller = ''t''"
    by (simp_all add: unknown_seller_def listing_of_raw_def raw_listing.defs zero_raw_listing_def)
  have s: "s_ID dealer_search = 2" "s_ChatID dealer_search = 7" by (simp_all add: dealer_search_def)
  have e: "db_faults empty_db = []" "db_history empty_db = []" by (simp_all add: empty_db_def)
  obtain d' where d': "SaveListings 5 [buildRecord 5 unknown_seller (ProcessParamsFromSearch dealer_search None)] empty_db = (Inr (), d')"
    by (simp add: SaveListings_def e)
  from alerted_listing_is_shown [OF m _ _ _ e(1) _ _ d'] show ?thesis
    by (auto simp add: x s n e d' search_rows_def)
qed

end
