(* ===== verification/Cycle.thy ===== *)
theory Cycle
  imports ProcessStage FetchStage DigestFlow SearchStore
begin

section \<open>Maintenance (internal/scheduler/maintenance.go)\<close>

definition pruneInterval :: duration where "pruneInterval = hours 24"
definition priceHistoryRetention :: duration where "priceHistoryRetention = hours (90 * 24)"
definition listingHistoryRetention :: duration where "listingHistoryRetention = hours (90 * 24)"
definition deliveryLedgerRetention :: duration where "deliveryLedgerRetention = hours (90 * 24)"

definition pruneOldData :: "sched_config \<Rightarrow> gotime \<Rightarrow> world \<Rightarrow> world" where
  "pruneOldData cfg now w =
    (if now - w_lastPrune w \<le> pruneInterval then w
     else
       let w = (if sc_PruneAfter cfg > 0 then snd (Prune now (sc_PruneAfter cfg) w) else w);
           w = (if sc_Prices cfg then snd (PrunePrices now priceHistoryRetention w) else w);
           w = (if sc_Listings cfg then snd (PruneListings now listingHistoryRetention w) else w);
           w = (if sc_Deliveries cfg then snd (PruneDeliveries now deliveryLedgerRetention w) else w)
       in w\<lparr>w_lastPrune := now\<rparr>)"

definition EnrichStreamMaxLen :: nat where "EnrichStreamMaxLen = 50000"
definition enrichBackfillWatermark :: nat where "enrichBackfillWatermark = EnrichStreamMaxLen * 8 div 10"

definition backfillUnenrichedListings :: "sched_config \<Rightarrow> gotime \<Rightarrow> world \<Rightarrow> world" where
  "backfillUnenrichedListings cfg now w =
    (if \<not> sc_EnrichPublisher cfg \<or> \<not> sc_Listings cfg then w
     else case next_redis w of
       (True, w) \<Rightarrow> w
     | (False, w) \<Rightarrow>
         if length (w_stream w) \<ge> enrichBackfillWatermark then w
         else case ListUnenrichedTokens now 30 w of
           (Inl _, w) \<Rightarrow> w
         | (Inr tokens, w) \<Rightarrow>
             fold (\<lambda>t w. snd (PublishEnrichDedup \<lparr>eq_Token = t, eq_Priority = 3, eq_SearchIDs = [], eq_Source = ''backfill''\<rparr> w)) tokens w)"

subsection \<open>Searches and tiers (internal/storage/postgres/searches.go, users.go)\<close>

definition ListExpiredPremium :: "gotime \<Rightarrow> 'z db_scheme \<Rightarrow> (db_error + user list) \<times> 'z db_scheme" where
  "ListExpiredPremium now = db_call (DbError '''') (\<lambda>d.
     (Inr (filter (\<lambda>u. u_Tier u = ''premium'' \<and> u_TierExpires u \<le> now \<and> u_TierExpires u > 0) (map snd (db_users d))), d))"

definition deactivateExcessSearches :: "sched_config \<Rightarrow> int \<Rightarrow> int \<Rightarrow> world \<Rightarrow> world" where
  "deactivateExcessSearches cfg chatID maxActive w =
    (if \<not> sc_Searches cfg then w
     else case ListSearches chatID w of
       (Inl _, w) \<Rightarrow> w
     | (Inr searches, w) \<Rightarrow>
         let active = filter s_Active searches
         in if int (length active) \<le> maxActive then w
            else fold (\<lambda>s w. snd (SetSearchActive (s_ID s) chatID False w)) (take (nat (int (length active) - maxActive)) active) w)"

definition expire_user :: "sched_config \<Rightarrow> user \<Rightarrow> world \<Rightarrow> world" where
  "expire_user cfg u w =
    (case SetUserTier (u_ChatID u) ''free'' 0 w of
       (Inl _, w) \<Rightarrow> w
     | (Inr _, w) \<Rightarrow> deactivateExcessSearches cfg (u_ChatID u) (sc_MaxSearches cfg) w)"

definition processExpiredPremium :: "sched_config \<Rightarrow> gotime \<Rightarrow> world \<Rightarrow> world" where
  "processExpiredPremium cfg now w =
    (if \<not> sc_Users cfg then w
     else case ListExpiredPremium now w of (Inl _, w) \<Rightarrow> w | (Inr expired, w) \<Rightarrow> fold (expire_user cfg) expired w)"

section \<open>One cycle (internal/scheduler/scheduler.go)\<close>

text \<open>The rows of the view \<open>market_medians\<close>, which the database computes, are the argument \<open>medians\<close>.\<close>

definition buildMarketCache :: "median_entry list option \<Rightarrow> market_cache option" where
  "buildMarketCache medians = map_option NewMarketCacheFromMedians medians"

definition getOrBuildMarketCache :: "sched_config \<Rightarrow> duration \<Rightarrow> median_entry list option \<Rightarrow> gotime \<Rightarrow> world \<Rightarrow> market_cache option \<times> world" where
  "getOrBuildMarketCache cfg ttl medians now w =
    (if \<not> sc_Market cfg then (None, w)
     else if w_marketCache w \<noteq> None \<and> now - w_marketBuiltAt w < ttl then (w_marketCache w, w)
     else case buildMarketCache medians of
       Some mc \<Rightarrow> (Some mc, w\<lparr>w_marketCache := Some mc, w_marketBuiltAt := now\<rparr>)
     | None \<Rightarrow> (w_marketCache w, w))"

record cycle_stats =
  cy_listingsFetched :: nat
  cy_newListings :: nat
  cy_notificationsSent :: nat

text \<open>The arguments that stand for the outside of a cycle.\<close>

record 'e outside =
  ou_render :: renderer
  ou_page :: "int \<Rightarrow> int \<Rightarrow> int"
  ou_env :: "'e fetch_env"
  ou_medians :: "median_entry list option"
  ou_ttl :: duration
  ou_parse_duration :: "string \<Rightarrow> duration option"
  ou_arrivals :: "int \<Rightarrow> digest_row list"
  ou_daily :: "int \<Rightarrow> nat option"
  ou_local :: "gotime \<Rightarrow> int \<times> int"

text \<open>\<open>fetchAndMatch\<close>: fetch, prefill, match, enrich, price drops, process and deliver, flush the prices, drop
  the stale listings, write the statistics.\<close>

definition match_and_deliver :: "sched_config \<Rightarrow> 'e outside \<Rightarrow> gotime \<Rightarrow> percolator \<Rightarrow> market_cache option \<Rightarrow> match_state \<Rightarrow> world \<Rightarrow>
    nat \<times> match_state \<times> world" where
  "match_and_deliver cfg out now p marketCache ms w =
    (case matchListingsToSearches cfg now p ms w of (ms, w) \<Rightarrow>
     let w = publishEnrichRequests cfg ms w
     in case processPriceDrops cfg (ou_render out) now marketCache ms w of (ms, w) \<Rightarrow>
        case processAndDeliverPerSearch cfg (ou_render out) (ou_page out) now marketCache ms w of (sent, ms, w) \<Rightarrow>
        (sent, ms, flushPendingPrices cfg now ms w))"

definition fetchAndMatch :: "sched_config \<Rightarrow> 'e outside \<Rightarrow> gotime \<Rightarrow> search list \<Rightarrow> market_cache option \<Rightarrow> 'e \<Rightarrow> world \<Rightarrow>
    (cycle_stats \<times> cycle_stats_row list) \<times> 'e \<times> world" where
  "fetchAndMatch cfg out now searches marketCache e w =
    (case fetchTargetedListings (ou_env out) searches [] e of ((raw, feed), e) \<Rightarrow>
     case (if sc_Listings cfg then prefillFromDB raw w else (False, raw, w)) of (prefilled, raw, w) \<Rightarrow>
     let p = Load percolator_New searches;
         ms = newMatchState\<lparr>ms_raw := raw, ms_feedTokensByKey := feed, ms_prefilled := prefilled\<rparr>
     in case match_and_deliver cfg out now p marketCache ms w of (sent, ms, w) \<Rightarrow>
        case dropStaleListings cfg now searches ms w of (dropped, w) \<Rightarrow>
        ((\<lparr>cy_listingsFetched = length raw, cy_newListings = 0, cy_notificationsSent = sent\<rparr>,
          writeCycleStats cfg now p searches ms (ms_raw ms) dropped), e, w))"

definition start_cycle :: "sched_config \<Rightarrow> world \<Rightarrow> world" where
  "start_cycle cfg w =
    (let w = w\<lparr>w_lang := [], w_digestModes := []\<rparr>;
         w = (if sc_PriceList cfg then ResetCycleCounter w else w)
     in if sc_Users cfg then snd (ReactivateUsersWithSearches w) else w)"

text \<open>A cycle with \<open>None\<close> for the cycle that has no searches to serve, or fails to load them. The stale entries of
  the enrichment stream are purged by \<open>purge\<close> (internal/broker).\<close>

definition runMultiTenantCycle :: "sched_config \<Rightarrow> 'e outside \<Rightarrow> (world \<Rightarrow> world) \<Rightarrow> gotime \<Rightarrow> 'e \<Rightarrow> world \<Rightarrow>
    (db_error + cycle_stats option) \<times> 'e \<times> world" where
  "runMultiTenantCycle cfg out purge now e w =
    (case ListAllActiveSearches (start_cycle cfg w) of
       (Inl err, w) \<Rightarrow> (Inl err, e, w)
     | (Inr searches, w) \<Rightarrow>
         let w = pruneOldData cfg now w;
             w = processExpiredPremium cfg now w
         in if searches = [] then
              (Inr None, e, if sc_ServerFetch cfg then purge (backfillUnenrichedListings cfg now w) else w)
            else
              (case (if sc_ServerFetch cfg then
                       (case getOrBuildMarketCache cfg (ou_ttl out) (ou_medians out) now w of (marketCache, w) \<Rightarrow>
                        case fetchAndMatch cfg out now searches marketCache e w of ((stats, _), e, w) \<Rightarrow> (stats, e, w))
                     else (\<lparr>cy_listingsFetched = 0, cy_newListings = 0, cy_notificationsSent = 0\<rparr>, e, w)) of
                 (stats, e, w) \<Rightarrow>
                   let w = processDigests cfg (ou_render out) (ou_parse_duration out) now (ou_arrivals out) w;
                       w = processDailyDigests cfg (ou_render out) (ou_daily out) (ou_local out) now w;
                       w = (if sc_ServerFetch cfg then purge (backfillUnenrichedListings cfg now w) else w)
                   in (Inr (Some stats), e, w)))"

section \<open>Lemmas\<close>

lemma partial_feed:
  assumes "s_Manufacturer s \<noteq> 0" "s_Model s \<noteq> 0" "fe_done env e = (False, e0)"
    and "fe_fetch env (SourceParamsFromSearch s) e0 = ((ls, Some err), e1)" "errors_is err ErrPartialResults" "ls \<noteq> []"
  shows "snd (fst (fetchTargetedListings env [s] [] e)) = [(CacheKeyFor (SourceParamsFromSearch s), map rl_Token ls)]"
proof -
  have feed: "tg_feed (add_listings ls t) = tg_feed t" for t
    by (induction ls t rule: add_listings.induct) simp_all
  obtain b e2 where "fe_pause env (seconds 3) e1 = (b, e2)" by (metis prod.exhaust)
  then show ?thesis
    using assms(1-3) retry_first_answer(2) [OF assms(4-6)]
    by (cases b) (simp_all add: fetchTargetedListings_def target_step_def Let_def feed)
qed

lemma retire_selected:
  assumes "distinct (map fst (db_history d))" "map_of (db_history d) k = Some h" "sel k (h\<lparr>lr_RemovedAt := lr_RemovedAt h\<rparr>)"
    and "\<not> bookmarked d k"
  shows "map_of (db_history (snd (retire now sel d))) k = None"
proof -
  let ?d = "mark_removed now sel d"
  have "snd (retire now sel d) = snd (delete_unsaved sel ?d)" by (simp add: retire_def split: prod.split)
  moreover have "map_of (db_history ?d) k = Some h" using assms(2,4) by (simp add: map_of_mark_removed)
  moreover have "distinct (map fst (db_history ?d))"
    using assms(1) by (simp add: mark_removed_def comp_def case_prod_beta)
  ultimately show ?thesis
    using assms(3,4)
    by (auto simp: delete_unsaved_def Let_def map_of_eq_None_iff dest!: map_of_is_SomeI [rotated] split: prod.splits)
qed

lemma flush_lang:
  assumes "userLang cfg chat w = (lang, w')"
  shows "db_digest w' = db_digest w \<and> w_sent w' = w_sent w \<and> w_outcomes w' = w_outcomes w \<and>
    (db_faults w = [] \<longrightarrow> db_faults w' = [])"
  using assms by (auto simp: userLang_def GetUser_def db_call_def next_fault_def Let_def
      split: option.splits if_splits prod.splits list.splits sum.splits)

text \<open>The end of a flush, after the message was handed to the notifier.\<close>

definition finish_flush :: "gotime \<Rightarrow> int \<Rightarrow> delivery_error option \<times> world \<Rightarrow> world" where
  "finish_flush now chatID sent =
    (case sent of
       (Some _, w) \<Rightarrow> w\<lparr>w_digestFailures := List.insert chatID (w_digestFailures w)\<rparr>
     | (None, w) \<Rightarrow>
        (case AckDigest now chatID now w of
           (Inl _, w) \<Rightarrow> w\<lparr>w_digestFailures := List.insert chatID (w_digestFailures w)\<rparr>
         | (Inr _, w) \<Rightarrow> w\<lparr>w_digestFailures := removeAll chatID (w_digestFailures w),
                           w_notificationsSent := w_notificationsSent w + 1\<rparr>))"

lemma AckDigest_cases:
  "AckDigest now chat before w = (r, w') \<Longrightarrow> w_sent w' = w_sent w \<and>
    (if r = Inr () then db_digest w' = filter (\<lambda>r. \<not> (dg_chat r = chat \<and> dg_created r \<le> before)) (db_digest w)
     else db_digest w' = db_digest w \<and> db_faults w \<noteq> [])"
  by (auto simp: AckDigest_def ack_tx_def update_user_def db_call_def next_fault_def split: list.splits if_splits)

lemma finish_flush_cases:
  "case finish_flush now chat (send out w) of w' \<Rightarrow>
    if fst (pop_outcome w) = None then
      w_sent w' = w_sent w @ [out] \<and>
      (db_digest w' = filter (\<lambda>r. \<not> (dg_chat r = chat \<and> dg_created r \<le> now)) (db_digest w) \<and> chat \<notin> set (w_digestFailures w') \<or>
       db_digest w' = db_digest w \<and> chat \<in> set (w_digestFailures w') \<and> db_faults w \<noteq> [])
    else w_sent w' = w_sent w \<and> db_digest w' = db_digest w \<and> chat \<in> set (w_digestFailures w')"
proof -
  obtain r w1 where o: "pop_outcome w = (r, w1)" by (metis prod.exhaust)
  have w1: "w_sent w1 = w_sent w" "db_digest w1 = db_digest w" "db_faults w1 = db_faults w"
    using o by (auto simp: pop_outcome_def split: list.splits)
  show ?thesis
  proof (cases r)
    case None
    define w2 where "w2 = w1\<lparr>w_sent := w_sent w1 @ [out]\<rparr>"
    obtain a w3 where a: "AckDigest now chat now w2 = (a, w3)" by (metis prod.exhaust)
    note A = AckDigest_cases [OF a]
    have "send out w = (None, w2)" using o None by (simp add: send_def w2_def)
    then show ?thesis
      using o None w1 a A by (cases a) (auto simp: finish_flush_def w2_def split: if_splits)
  next
    case (Some err)
    then show ?thesis using o w1 by (simp add: send_def finish_flush_def)
  qed
qed

section \<open>Properties\<close>

text \<open>Partial results count as the whole feed: when a fetch delivered some pages and failed on others, the
  listings of the missing pages that are stored for the search are deleted as stale, although the source may still
  serve them.\<close>

lemma partial_feed_deletes_unfetched:
  assumes "s_Manufacturer s \<noteq> 0" "s_Model s \<noteq> 0" "fe_done env e = (False, e0)"
    and "fe_fetch env (SourceParamsFromSearch s) e0 = ((ls, Some err), e1)" "errors_is err ErrPartialResults" "ls \<noteq> []"
    and "sc_Listings cfg" "db_faults w = []" "distinct (map fst (db_history w))"
    and "map_of (db_history w) (tok, s_ChatID s) = Some h" "lr_SearchID h = s_ID s" "tok \<notin> rl_Token ` set ls"
    and "\<not> bookmarked w (tok, s_ChatID s)"
  shows "map_of (db_history (snd (dropStaleListings cfg now [s]
    (newMatchState\<lparr>ms_feedTokensByKey := snd (fst (fetchTargetedListings env [s] [] e))\<rparr>) w))) (tok, s_ChatID s) = None"
proof -
  let ?sel = "\<lambda>k h. snd k = s_ChatID s \<and> lr_SearchID h = s_ID s \<and> (map rl_Token ls \<noteq> [] \<longrightarrow> fst k \<notin> set (map rl_Token ls))"
  define w' where "w' = snd (retire now ?sel w)"
  define r where "r = fst (delete_unsaved ?sel (mark_removed now ?sel w))"
  have r: "retire now ?sel w = (Inr r, w')" by (simp add: retire_def w'_def r_def split: prod.split)
  have "map_of (db_history w') (tok, s_ChatID s) = None"
    using retire_selected [OF assms(9,10), of ?sel now] assms(11-13) by (simp add: w'_def)
  then show ?thesis
    using r assms(7,8) partial_feed [OF assms(1-6)]
    by (simp add: dropStaleListings_def newMatchState_def DeleteStaleListings_def)
qed

text \<open>C28. A flush of a digest is all or nothing, whatever store calls fail. Either no message goes out and nothing leaves the
  queue, or one message goes out, with the pending items of the chat at the time of the query in order (the newest
  hundred of them); then the rows of the chat up to the cutoff leave the queue and no others do, unless the
  acknowledgement fails: then everything stays queued for a second message and the chat is marked for the shorter
  retry interval. When the store answers and there is something to send, it is sent and acknowledged, or, when the
  sending fails, everything stays queued and the chat is marked. The rows that leave the queue include those which
  arrived after the query and before the clock was read: they are not in the message and are lost.\<close>

theorem digest_flush_all_or_nothing:
  fixes items :: "string list" and gone :: "digest_row \<Rightarrow> bool"
  assumes "w' = flushAndSendDigest cfg render now arrived chat w"
    and "items = map dg_payload (pending_for chat (db_digest w))"
    and "message = (\<lambda>lang. NotifiedRaw chat (render (DigestMessage lang (min 100 (length items)) (drop (length items - 100) items))))"
    and "gone = (\<lambda>r. dg_chat r = chat \<and> dg_created r \<le> now)"
  shows "(w_sent w' = w_sent w \<and> (db_digest w' = db_digest w \<or> db_digest w' = db_digest w @ arrived)
      \<or> (\<exists>lang. w_sent w' = w_sent w @ [message lang]) \<and> items \<noteq> [] \<and>
        (db_digest w' = filter (\<lambda>r. \<not> gone r) (db_digest w @ arrived) \<and> chat \<notin> set (w_digestFailures w')
         \<or> db_digest w' = db_digest w @ arrived \<and> chat \<in> set (w_digestFailures w')))
    \<and> (db_faults w = [] \<and> items \<noteq> [] \<longrightarrow>
      (if fst (pop_outcome w) = None then
         (\<exists>lang. w_sent w' = w_sent w @ [message lang]) \<and>
         db_digest w' = filter (\<lambda>r. \<not> gone r) (db_digest w @ arrived) \<and> chat \<notin> set (w_digestFailures w')
       else w_sent w' = w_sent w \<and> db_digest w' = db_digest w @ arrived \<and> chat \<in> set (w_digestFailures w')))"
proof (cases "fst (PeekDigest now arrived chat w)")
  case (Inl e)
  then have "\<exists>fs. w' = w\<lparr>db_faults := fs\<rparr> \<and> db_faults w \<noteq> []"
    by (auto simp: assms(1) flushAndSendDigest_def PeekDigest_def db_call_def next_fault_def split: list.splits if_splits)
  then show ?thesis by auto
next
  case (Inr peeked)
  then obtain w1 where p: "PeekDigest now arrived chat w = (Inr (items, now), w1)"
    and w1: "db_digest w1 = db_digest w @ arrived" "w_sent w1 = w_sent w" "w_outcomes w1 = w_outcomes w"
      "db_faults w = [] \<longrightarrow> db_faults w1 = []"
    by (cases "fst (next_fault w)")
      (auto simp: PeekDigest_def db_call_def next_fault_def assms(2) split: list.splits if_splits)
  show ?thesis
  proof (cases "items = []")
    case True
    then have "w' = w1" by (simp add: assms(1) flushAndSendDigest_def p)
    then show ?thesis using True w1 by simp
  next
    case False
    obtain lang w2 where u: "userLang cfg chat w1 = (lang, w2)" by (metis prod.exhaust)
    note F = flush_lang [OF u]
    have flush: "w' = finish_flush now chat (send (message lang) w2)"
      using False by (simp add: assms(1,3) flushAndSendDigest_def p u finish_flush_def maxDigestPending_def Let_def min_def)
    note S = finish_flush_cases [where now = now and chat = chat and out = "message lang" and w = w2]
    have out: "pop_outcome w2 = (fst (pop_outcome w), snd (pop_outcome w2))"
      using F w1(3) by (simp add: pop_outcome_def split: list.split)
    show ?thesis
      using S F w1 False out unfolding flush assms(4) by (auto simp: pop_outcome_def split: list.splits if_splits)
  qed
qed

text \<open>Deactivating a user who has blocked the bot does not last: every cycle starts by reactivating all users
  with an active search, so the deactivation that the delivery logs as preventing further attempts is undone before
  the next delivery.\<close>

lemma blocked_user_reactivated:
  assumes "db_faults w = []" "sc_Users cfg" "map_of (db_users w) chat = Some u"
    and "s \<in> set (db_searches w)" "s_ChatID s = chat" "s_Active s"
  shows "\<exists>u'. map_of (db_users (start_cycle cfg (deactivate_blocked cfg chat w))) chat = Some u' \<and> u_Active u'"
proof -
  have mo: "map_of (map (\<lambda>x. if P x then (fst x, f x) else x) xs) k =
      map_option (\<lambda>v. if P (k, v) then f (k, v) else v) (map_of xs k)" for P f k and xs :: "(int \<times> user) list"
    by (induction xs) auto
  have mo2: "map_of (map (\<lambda>(c, u). (c, if c = chat then g u else u)) xs) k =
      map_option (\<lambda>u. if k = chat then g u else u) (map_of xs k)" for g k and xs :: "(int \<times> user) list"
    by (induction xs) auto
  show ?thesis
    using assms
    by (auto simp: start_cycle_def deactivate_blocked_def SetUserActive_def ReactivateUsersWithSearches_def update_user_def
        ResetCycleCounter_def Let_def mo mo2)
qed

section \<open>Witnesses\<close>

definition partial_env :: "unit fetch_env" where
  "partial_env = \<lparr>fe_fetch = (\<lambda>_ _. (([zero_raw_listing\<lparr>rl_Token := ''u''\<rparr>], Some [ErrPartialResults]), ())),
     fe_wait = (\<lambda>_ _. (None, ())), fe_pause = (\<lambda>_ _. (False, ())), fe_done = (\<lambda>_. (False, ()))\<rparr>"

definition car_search :: search where
  "car_search = zero_search\<lparr>s_ID := 2, s_ChatID := 1, s_Manufacturer := 5, s_Model := 6, s_Active := True\<rparr>"

definition stored_world :: world where
  "stored_world = empty_world\<lparr>db_history := [((''t'', 1), new_row 0 sample_record)], db_searches := [car_search],
     db_users := [(1, \<lparr>u_ChatID = 1, u_Active = True, u_Language = ''he'', u_Tier = ''free'', u_TierExpires = 0, u_digest_mode = ''digest'',
       u_digest_interval = ''6h'', u_digest_last_flushed = 0, u_daily_digest = False, u_daily_digest_time = '''',
       u_daily_digest_last_sent = 0,
       u_Username = [], u_State = ''idle'', u_StateData = [], u_TrialUsed = False, u_Channel = ''telegram'', u_ChannelID = [], u_LinkedWebID = None\<rparr>)],
     db_digest := [\<lparr>dg_chat = 1, dg_payload = ''a'', dg_tokens = [''t''], dg_created = 4\<rparr>, \<lparr>dg_chat = 2, dg_payload = ''b'', dg_tokens = [], dg_created = 5\<rparr>]\<rparr>"

lemma stored_world_calm [simp]: "db_faults stored_world = []" "w_outcomes stored_world = []"
  by (simp_all add: stored_world_def empty_world_def db.defs empty_db_def)

lemma partial_feed_deletes_unfetched_witness:
  "map_of (db_history stored_world) (''t'', 1) \<noteq> None \<and>
   map_of (db_history (snd (dropStaleListings (plain_config\<lparr>sc_Listings := True\<rparr>) 9 [car_search]
    (newMatchState\<lparr>ms_feedTokensByKey := snd (fst (fetchTargetedListings partial_env [car_search] [] ()))\<rparr>) stored_world))) (''t'', s_ChatID car_search) = None"
proof
  show "map_of (db_history stored_world) (''t'', 1) \<noteq> None" by (simp add: stored_world_def)
  show "map_of (db_history (snd (dropStaleListings (plain_config\<lparr>sc_Listings := True\<rparr>) 9 [car_search]
    (newMatchState\<lparr>ms_feedTokensByKey := snd (fst (fetchTargetedListings partial_env [car_search] [] ()))\<rparr>) stored_world))) (''t'', s_ChatID car_search) = None"
    by (rule partial_feed_deletes_unfetched [where ls = "[zero_raw_listing\<lparr>rl_Token := ''u''\<rparr>]" and err = "[ErrPartialResults]"
          and h = "new_row 0 sample_record" and e0 = "()"])
      (simp_all add: partial_env_def car_search_def stored_world_def new_row_def sample_record_def listing_record.defs bookmarked_def
        empty_world_def db.defs empty_db_def)
qed

text \<open>The item \<open>c\<close> arrives between the query and the clock: it leaves the queue without being sent.\<close>

theorem digest_flush_all_or_nothing_witness:
  "map dg_payload (db_digest (flushAndSendDigest plain_config (\<lambda>_. []) 9
     [\<lparr>dg_chat = 1, dg_payload = ''c'', dg_tokens = [], dg_created = 8\<rparr>] 1 stored_world)) = [''b'']"
proof -
  let ?late = "\<lparr>dg_chat = 1, dg_payload = ''c'', dg_tokens = [], dg_created = 8\<rparr>"
  have calm: "fst (pop_outcome stored_world) = None" by (simp add: pop_outcome_def)
  have items: "map dg_payload (pending_for 1 (db_digest stored_world)) \<noteq> []"
    by (simp add: stored_world_def pending_for_def)
  have "db_digest (flushAndSendDigest plain_config (\<lambda>_. []) 9 [?late] 1 stored_world) =
      filter (\<lambda>r. \<not> (dg_chat r = 1 \<and> dg_created r \<le> 9)) (db_digest stored_world @ [?late])"
    using digest_flush_all_or_nothing [OF refl refl refl refl, of plain_config "\<lambda>_. []" 9 "[?late]" 1 stored_world, THEN conjunct2]
    unfolding calm using items by simp
  then show ?thesis by (simp add: stored_world_def)
qed

lemma blocked_user_reactivated_witness:
  "\<exists>u'. map_of (db_users (start_cycle (plain_config\<lparr>sc_Users := True\<rparr>) (deactivate_blocked (plain_config\<lparr>sc_Users := True\<rparr>) 1 stored_world))) 1 = Some u' \<and> u_Active u'"
  by (rule blocked_user_reactivated [where s = car_search])
    (simp_all add: stored_world_def car_search_def empty_world_def db.defs empty_db_def)

end
