(* ===== verification/Enricher.thy ===== *)
theory Enricher
  imports Pipeline
begin

section \<open>The adaptive rate limiter (internal/enricher/ratelimit.go)\<close>

text \<open>
  A locked section reads the clock once. \<open>RecordChallenge\<close> shifts by \<open>consecutiveCooldowns - 1\<close>; Go panics on a
  negative shift count, which is \<open>None\<close> here.
\<close>

record adaptive_limiter =
  al_baseDelay :: duration
  al_maxDelay :: duration
  al_cooldownDur :: duration
  al_currentDelay :: duration
  al_cooldownUntil :: gotime
  al_windowStart :: gotime
  al_windowSuccesses :: int
  al_windowTotal :: int
  al_windowDuration :: duration
  al_consecutiveCooldowns :: int
  al_maxCooldownDur :: duration

definition NewAdaptiveRateLimiter :: "gotime \<Rightarrow> duration \<Rightarrow> duration \<Rightarrow> duration \<Rightarrow> adaptive_limiter" where
  "NewAdaptiveRateLimiter now baseDelay maxDelay cooldownDuration =
    (let maxCooldown = cooldownDuration * 4;
         maxCooldown = (if maxCooldown > minutes 30 then minutes 30 else maxCooldown)
     in \<lparr>al_baseDelay = baseDelay, al_maxDelay = maxDelay, al_cooldownDur = cooldownDuration, al_currentDelay = baseDelay,
         al_cooldownUntil = 0, al_windowStart = now, al_windowSuccesses = 0, al_windowTotal = 0,
         al_windowDuration = minutes 10, al_consecutiveCooldowns = 0, al_maxCooldownDur = maxCooldown\<rparr>)"

text \<open>The delay of \<open>Wait\<close>. \<open>rnd\<close> is the random word read as an \<open>int64\<close>, so the jitter may be negative.\<close>

definition wait_delay :: "gotime \<Rightarrow> int \<Rightarrow> adaptive_limiter \<Rightarrow> duration" where
  "wait_delay now rnd r =
    (let delay = (if now < al_cooldownUntil r then al_cooldownUntil r - now else al_currentDelay r)
     in if delay \<le> 0 then 0 else delay + go_mod rnd (go_div delay 4 + 1))"

definition resetWindowIfExpired :: "gotime \<Rightarrow> adaptive_limiter \<Rightarrow> bool \<times> adaptive_limiter" where
  "resetWindowIfExpired now r =
    (if now - al_windowStart r > al_windowDuration r
     then (True, r\<lparr>al_windowStart := now, al_windowSuccesses := 0, al_windowTotal := 0\<rparr>) else (False, r))"

definition successRate :: "adaptive_limiter \<Rightarrow> real" where
  "successRate r = (if al_windowTotal r = 0 then 1 else real_of_int (al_windowSuccesses r) / real_of_int (al_windowTotal r))"

definition RecordSuccess :: "gotime \<Rightarrow> adaptive_limiter \<Rightarrow> adaptive_limiter" where
  "RecordSuccess now r =
    (let r = r\<lparr>al_consecutiveCooldowns := 0\<rparr>;
         (windowReset, r) = resetWindowIfExpired now r;
         r = r\<lparr>al_windowTotal := al_windowTotal r + 1, al_windowSuccesses := al_windowSuccesses r + 1\<rparr>
     in if \<not> windowReset \<and> al_currentDelay r > al_baseDelay r then
          let half = go_div (al_currentDelay r) 2
          in r\<lparr>al_currentDelay := (if half < al_baseDelay r then al_baseDelay r else half)\<rparr>
        else r)"

definition RecordChallenge :: "gotime \<Rightarrow> adaptive_limiter \<Rightarrow> adaptive_limiter option" where
  "RecordChallenge now r =
    (let (_, r) = resetWindowIfExpired now r;
         r = r\<lparr>al_windowTotal := al_windowTotal r + 1\<rparr>;
         doubled = al_currentDelay r * 2;
         r = r\<lparr>al_currentDelay := (if doubled > al_maxDelay r then al_maxDelay r else doubled)\<rparr>
     in if al_windowTotal r \<ge> 3 \<and> successRate r < 1 / 2 then
          let r = (if \<not> now < al_cooldownUntil r then r\<lparr>al_consecutiveCooldowns := al_consecutiveCooldowns r + 1\<rparr> else r);
              shift = min (al_consecutiveCooldowns r - 1) 2
          in if shift < 0 then None
             else
               let escalated = al_cooldownDur r * 2 ^ nat shift;
                   escalated = (if escalated > al_maxCooldownDur r then al_maxCooldownDur r else escalated)
               in Some (r\<lparr>al_cooldownUntil := now + escalated\<rparr>)
        else Some r)"

definition InCooldown :: "gotime \<Rightarrow> adaptive_limiter \<Rightarrow> bool" where
  "InCooldown now r \<longleftrightarrow> now < al_cooldownUntil r"

datatype limiter_event = Success gotime | Challenge gotime

fun record_events :: "limiter_event list \<Rightarrow> adaptive_limiter \<Rightarrow> adaptive_limiter option" where
  "record_events [] r = Some r"
| "record_events (Success now # es) r = record_events es (RecordSuccess now r)"
| "record_events (Challenge now # es) r = (case RecordChallenge now r of None \<Rightarrow> None | Some r' \<Rightarrow> record_events es r')"

section \<open>The enrichment worker (internal/enricher/worker.go)\<close>

text \<open>
  The item page is the argument \<open>fetch_item\<close>, the waiting for the limiter the argument \<open>waited\<close> (\<open>False\<close> when the
  context ended). The worker keeps the time of its last reset of the attempt counters.
\<close>

record item_details =
  id_Km :: int
  id_ImageURL :: string
  id_City :: string
  id_Area :: string
  id_BodyType :: string

record worker =
  wk_limiter :: adaptive_limiter
  wk_lastResetAt :: gotime
  wk_resetInterval :: duration

datatype request_outcome = Acked | Failed | Permanent | Panicked

definition enriched_already :: "enrichment_record \<Rightarrow> bool" where
  "enriched_already rec \<longleftrightarrow> er_Km rec > 0 \<and> er_City rec \<noteq> '''' \<and> er_ImageURL rec \<noteq> '''' \<and> er_BodyType rec \<noteq> ''''"

definition maybeResetUnenriched :: "gotime \<Rightarrow> worker \<Rightarrow> db \<Rightarrow> worker \<times> db" where
  "maybeResetUnenriched now k d =
    (if now - wk_lastResetAt k < wk_resetInterval k then (k, d)
     else (k\<lparr>wk_lastResetAt := now\<rparr>, snd (ResetUnenrichedAttempts d)))"

definition details_record :: "string \<Rightarrow> item_details \<Rightarrow> listing_record" where
  "details_record token details = zero_record\<lparr>lr_Token := token, lr_Km := id_Km details, lr_City := id_City details,
     lr_ImageURL := id_ImageURL details, lr_BodyType := id_BodyType details\<rparr>"

lemma details_record_fields [simp]:
  "lr_Token (details_record token details) = token" "lr_Km (details_record token details) = id_Km details"
  "lr_City (details_record token details) = id_City details" "lr_ImageURL (details_record token details) = id_ImageURL details"
  "lr_BodyType (details_record token details) = id_BodyType details"
  by (simp_all add: details_record_def)

definition NewWorker :: "adaptive_limiter \<Rightarrow> worker" where
  "NewWorker rl = \<lparr>wk_limiter = rl, wk_lastResetAt = 0, wk_resetInterval = minutes 5\<rparr>"

definition finish_request :: "gotime \<Rightarrow> string \<Rightarrow> item_details \<Rightarrow> worker \<Rightarrow> db \<Rightarrow> request_outcome \<times> worker \<times> db" where
  "finish_request now token details k d =
    (let k = k\<lparr>wk_limiter := RecordSuccess now (wk_limiter k)\<rparr>
     in case BackfillListings [details_record token details] d of
       (Inl _, d) \<Rightarrow> (Failed, k, d)
     | (Inr _, d) \<Rightarrow>
         if id_Km details > 0 \<and> id_City details \<noteq> '''' \<and> id_ImageURL details \<noteq> '''' then
           (case maybeResetUnenriched now k d of (k, d) \<Rightarrow>
              (Acked, k, if id_BodyType details = '''' then snd (IncrementEnrichAttempt now token d) else d))
         else if id_Km details \<le> 0 then (Acked, k, snd (IncrementEnrichAttempt now token d))
         else (Acked, k, d))"

definition fail_request :: "gotime \<Rightarrow> string \<Rightarrow> goerr \<Rightarrow> worker \<Rightarrow> db \<Rightarrow> request_outcome \<times> worker \<times> db" where
  "fail_request now token err k d =
    (let d = snd (IncrementEnrichAttempt now token d)
     in if errors_is err ErrChallenge then
          (case RecordChallenge now (wk_limiter k) of None \<Rightarrow> (Panicked, k, d) | Some r \<Rightarrow> (Failed, k\<lparr>wk_limiter := r\<rparr>, d))
        else if errors_is err ErrItemGone then (Permanent, k, snd (DropListingByToken now token d))
        else (Failed, k, d))"

text \<open>The attributes of the log lines cost a second identity lookup, whose error is only logged.\<close>

definition carAttrs :: "string \<Rightarrow> (string \<rightharpoonup> enrichment_record) \<Rightarrow> db \<Rightarrow> db" where
  "carAttrs token existing d = (if existing token = None then snd (LookupListingIdentity token d) else d)"

definition HandleRequest :: "gotime \<Rightarrow> bool \<Rightarrow> (string \<Rightarrow> goerr + item_details) \<Rightarrow> string \<Rightarrow> worker \<Rightarrow> db \<Rightarrow> request_outcome \<times> worker \<times> db" where
  "HandleRequest now waited fetch_item token k d =
    (case LookupEnrichmentData [token] d of
       (Inl _, d) \<Rightarrow> (Failed, k, d)
     | (Inr existing, d) \<Rightarrow>
         (let d = carAttrs token existing d
          in if (case existing token of Some rec \<Rightarrow> enriched_already rec | None \<Rightarrow> False) then (Acked, k, d)
             else
               (case (if existing token = None then (case LookupListingIdentity token d of (res, d) \<Rightarrow> (isl res, d)) else (False, d)) of
                  (missing, d) \<Rightarrow>
                    if missing then (Permanent, k, d)
                    else if \<not> waited then (Failed, k, d)
                    else (case fetch_item token of
                            Inl err \<Rightarrow> fail_request now token err k d
                          | Inr details \<Rightarrow> finish_request now token details k d))))"

section \<open>The limiter\<close>

definition delay_ok :: "adaptive_limiter \<Rightarrow> bool" where
  "delay_ok r \<longleftrightarrow> 0 < al_baseDelay r \<and> al_baseDelay r \<le> al_currentDelay r \<and> al_currentDelay r \<le> al_maxDelay r \<and>
     0 \<le> al_windowSuccesses r \<and> al_windowSuccesses r \<le> al_windowTotal r \<and> 0 \<le> al_consecutiveCooldowns r"

lemma resetWindow_fields:
  assumes "resetWindowIfExpired now r = (b, r')"
  shows "al_baseDelay r' = al_baseDelay r" "al_currentDelay r' = al_currentDelay r" "al_maxDelay r' = al_maxDelay r"
    "al_consecutiveCooldowns r' = al_consecutiveCooldowns r" "al_cooldownUntil r' = al_cooldownUntil r"
    "al_cooldownDur r' = al_cooldownDur r" "al_maxCooldownDur r' = al_maxCooldownDur r"
    "al_windowSuccesses r' = 0 \<and> al_windowTotal r' = 0 \<or> al_windowSuccesses r' = al_windowSuccesses r \<and> al_windowTotal r' = al_windowTotal r"
  using assms by (auto simp: resetWindowIfExpired_def split: if_splits)

lemma RecordSuccess_ok: "delay_ok r \<Longrightarrow> delay_ok (RecordSuccess now r) \<and>
    al_baseDelay (RecordSuccess now r) = al_baseDelay r \<and> al_maxDelay (RecordSuccess now r) = al_maxDelay r \<and>
    al_currentDelay (RecordSuccess now r) \<le> al_currentDelay r"
proof -
  assume ok: "delay_ok r"
  let ?r = "r\<lparr>al_consecutiveCooldowns := 0\<rparr>"
  obtain b r' where w: "resetWindowIfExpired now ?r = (b, r')" by fastforce
  have h: "go_div (al_currentDelay r) 2 = al_currentDelay r div 2" using ok by (simp add: delay_ok_def go_div_def)
  show ?thesis
    using ok resetWindow_fields [OF w]
    by (auto simp: RecordSuccess_def w delay_ok_def Let_def h)
qed

lemma RecordChallenge_ok:
  assumes ok: "delay_ok r" and r: "RecordChallenge now r = Some r2"
  shows "delay_ok r2 \<and> al_baseDelay r2 = al_baseDelay r \<and> al_maxDelay r2 = al_maxDelay r \<and> al_currentDelay r \<le> al_currentDelay r2"
proof -
  obtain b r' where w: "resetWindowIfExpired now r = (b, r')" by fastforce
  show ?thesis
    using ok resetWindow_fields [OF w] r
    by (auto simp: RecordChallenge_def w delay_ok_def Let_def split: if_splits)
qed

lemma record_events_ok:
  "delay_ok r \<Longrightarrow> record_events es r = Some r' \<Longrightarrow>
   delay_ok r' \<and> al_baseDelay r' = al_baseDelay r \<and> al_maxDelay r' = al_maxDelay r"
proof (induction es r rule: record_events.induct)
  case (2 now es r)
  then show ?case using RecordSuccess_ok [of r now] by auto
next
  case (3 now es r)
  then show ?case using RecordChallenge_ok by (auto split: option.splits)
qed simp

lemma go_mod_abs: "go_mod a b = sgn a * (\<bar>a\<bar> mod \<bar>b\<bar>)"
proof -
  have "go_mod a b = sgn a * \<bar>a\<bar> - (b * sgn b) * (sgn a * (\<bar>a\<bar> div \<bar>b\<bar>))"
    by (simp add: go_mod_def go_div_def mult_ac abs_mult_sgn)
  also have "b * sgn b = \<bar>b\<bar>" by (simp add: abs_sgn)
  finally show ?thesis by (simp add: minus_mult_div_eq_mod [symmetric] algebra_simps)
qed

lemma go_mod_abs_less:
  assumes "b \<noteq> 0"
  shows "\<bar>go_mod a b\<bar> < \<bar>b\<bar>"
proof -
  have "0 \<le> \<bar>a\<bar> mod \<bar>b\<bar>" "\<bar>a\<bar> mod \<bar>b\<bar> < \<bar>b\<bar>" using assms by simp_all
  then show ?thesis by (cases "a = 0") (auto simp: go_mod_abs abs_mult abs_sgn_eq)
qed

lemma wait_delay_band:
  assumes "0 < al_currentDelay r" "\<not> now < al_cooldownUntil r"
  shows "3 * al_currentDelay r \<le> 4 * wait_delay now rnd r \<and> 4 * wait_delay now rnd r \<le> 5 * al_currentDelay r"
proof -
  let ?d = "al_currentDelay r" let ?j = "go_mod rnd (go_div ?d 4 + 1)"
  have q: "go_div ?d 4 = ?d div 4" using assms by (simp add: go_div_def)
  have "\<bar>?j\<bar> < \<bar>?d div 4 + 1\<bar>" unfolding q by (rule go_mod_abs_less) (use assms in linarith)
  then have "\<bar>?j\<bar> \<le> ?d div 4" using assms by linarith
  then have "\<bar>4 * ?j\<bar> \<le> ?d" by linarith
  then have "- ?d \<le> 4 * ?j" "4 * ?j \<le> ?d" by (simp_all only: abs_le_iff minus_le_iff)
  moreover have "wait_delay now rnd r = ?d + ?j" using assms by (simp add: wait_delay_def Let_def)
  ultimately show ?thesis by linarith
qed

text \<open>C14. Whatever successes and challenges the worker reports, the current delay of a limiter that was made with a positive base
  delay, not above its maximum, stays between the two, as long as no report has panicked; and outside a cooldown a wait takes that
  current delay give or take a quarter of it, since the jitter is the remainder of a signed number.\<close>

theorem request_spacing_bounded:
  assumes "0 < base" "base \<le> max_delay" "record_events es (NewAdaptiveRateLimiter t base max_delay cooldown) = Some r"
    and "\<not> InCooldown now r"
  shows "base \<le> al_currentDelay r \<and> al_currentDelay r \<le> max_delay \<and>
    3 * al_currentDelay r \<le> 4 * wait_delay now rnd r \<and> 4 * wait_delay now rnd r \<le> 5 * al_currentDelay r"
proof -
  have "delay_ok (NewAdaptiveRateLimiter t base max_delay cooldown)"
    using assms by (simp add: delay_ok_def NewAdaptiveRateLimiter_def Let_def)
  from record_events_ok [OF this assms(3)]
  have ok: "base \<le> al_currentDelay r" "al_currentDelay r \<le> max_delay"
    by (auto simp: delay_ok_def NewAdaptiveRateLimiter_def Let_def)
  then show ?thesis
    using wait_delay_band [of r now rnd] assms(1,4) by (auto simp: InCooldown_def)
qed

text \<open>Three challenges put the limiter into a cooldown. A success during the cooldown resets the count of
  cooldowns to zero, and the next challenge, which does not count a second time while the cooldown lasts, computes
  the shift \<open>0 - 1\<close>: the limiter that is built with the values of the enricher panics.\<close>

lemma challenge_after_success_panics:
  "record_events [Challenge 2, Challenge 4, Challenge 6, Success 8, Challenge 10]
     (NewAdaptiveRateLimiter 1 (seconds 2) (seconds 60) (minutes 5)) = None"
  by (simp add: NewAdaptiveRateLimiter_def RecordChallenge_def RecordSuccess_def resetWindowIfExpired_def successRate_def
      Let_def seconds_def minutes_def)

text \<open>After one challenge the base delay of 2 has become 4.\<close>

theorem request_spacing_bounded_witness:
  "\<exists>r. record_events [Challenge 2] (NewAdaptiveRateLimiter 1 2 60 300) = Some r \<and> al_currentDelay r = 4 \<and> 3 * 4 \<le> 4 * wait_delay 5 (-1) r"
proof -
  have "\<exists>r. record_events [Challenge 2] (NewAdaptiveRateLimiter 1 2 60 300) = Some r \<and> \<not> InCooldown 5 r \<and> al_currentDelay r = 4"
    by (simp add: NewAdaptiveRateLimiter_def RecordChallenge_def resetWindowIfExpired_def successRate_def Let_def InCooldown_def minutes_def)
  then obtain r where r: "record_events [Challenge 2] (NewAdaptiveRateLimiter 1 2 60 300) = Some r" "\<not> InCooldown 5 r" "al_currentDelay r = 4" by blast
  show ?thesis using request_spacing_bounded [OF _ _ r(1,2), of "-1"] r(1,3) by auto
qed

section \<open>The worker\<close>

text \<open>Without database faults, and for a listing some chat has, a request that waited goes to the item page.\<close>

lemma newest_row_exists:
  assumes "map_of hs (tok, chat) = Some h" "ok h"
  shows "newest_row ok tok hs \<noteq> None"
proof -
  have "h \<in> set (sort_key (\<lambda>h. - lr_FirstSeenAt h) (map snd (filter (\<lambda>(k, h). fst k = tok \<and> ok h) hs)))"
    using map_of_SomeD [OF assms(1)] assms(2) by force
  then have "sort_key (\<lambda>h. - lr_FirstSeenAt h) (map snd (filter (\<lambda>(k, h). fst k = tok \<and> ok h) hs)) \<noteq> []"
    by (metis empty_iff empty_set)
  then show ?thesis by (simp add: newest_row_def split: list.splits)
qed

lemma HandleRequest_fetches:
  assumes "db_faults d = []" "map_of (db_history d) (token, chat) = Some h" "waited"
    and "\<And>rec. map_option enrichment_of (newest_row has_enrichment token (db_history d)) = Some rec \<Longrightarrow> \<not> enriched_already rec"
  shows "HandleRequest now waited fetch_item token k d =
    (case fetch_item token of Inl err \<Rightarrow> fail_request now token err k d | Inr details \<Rightarrow> finish_request now token details k d)"
proof -
  obtain i where "LookupListingIdentity token d = (Inr i, d)"
    using newest_row_exists [OF assms(2), of "\<lambda>_. True"] assms(1) by (auto simp: LookupListingIdentity_def)
  then show ?thesis
    using assms(1,3,4)
    by (simp add: HandleRequest_def LookupEnrichmentData_def carAttrs_def Let_def split: option.splits)
qed

text \<open>When the item page is gone at the source, the request is dead-lettered and the listing leaves the history
  of every chat, except that a bookmarked row stays, flagged as removed; rows of other listings are untouched.\<close>

lemma gone_item_leaves_every_chat:
  assumes "db_faults d = []" "map_of (db_history d) (token, chat) = Some h" "waited"
    and "\<And>rec. map_option enrichment_of (newest_row has_enrichment token (db_history d)) = Some rec \<Longrightarrow> \<not> enriched_already rec"
    and "fetch_item token = Inl err" "errors_is err ErrItemGone" "\<not> errors_is err ErrChallenge"
  shows "case HandleRequest now waited fetch_item token k d of (out, k', d') \<Rightarrow>
    out = Permanent \<and> k' = k \<and>
    (\<forall>c. (map_of (db_history d') (token, c) \<noteq> None) = (map_of (db_history d) (token, c) \<noteq> None \<and> bookmarked d (token, c))) \<and>
    (\<forall>c r. map_of (db_history d') (token, c) = Some r \<longrightarrow> lr_RemovedAt r \<noteq> None) \<and>
    (\<forall>t c. t \<noteq> token \<longrightarrow> map_of (db_history d') (t, c) = map_of (db_history d) (t, c))"
proof -
  define d1 where "d1 = snd (IncrementEnrichAttempt now token d)"
  define d2 where "d2 = snd (retire now (\<lambda>k h. fst k = token) d1)"
  have f1: "db_faults d1 = []" "bookmarked d1 = bookmarked d"
    using assms(1) by (simp_all add: d1_def IncrementEnrichAttempt_def bookmarked_def fun_eq_iff)
  have m1: "map_of (db_history d1) k = map_option (\<lambda>h. if fst k = token then h\<lparr>hr_attempts := hr_attempts h + 1, hr_last_enrich := Some now\<rparr> else h) (map_of (db_history d) k)" for k
    using assms(1) by (simp add: d1_def IncrementEnrichAttempt_def update_token_def map_of_map_pairs [where f = "\<lambda>k h. if fst k = token then _ h else h"])
  have out: "HandleRequest now waited fetch_item token k d = (Permanent, k, d2)"
    using assms(5-7) f1(1) by (simp add: HandleRequest_fetches [OF assms(1-4)] fail_request_def d1_def [symmetric] Let_def DropListingByToken_def d2_def)
  have m2: "map_of (db_history d2) k = (if fst k = token \<and> \<not> bookmarked d k then None else map_of (db_history (mark_removed now (\<lambda>k h. fst k = token) d1)) k)" for k
  proof -
    have "d2 = snd (delete_unsaved (\<lambda>k h. fst k = token) (mark_removed now (\<lambda>k h. fst k = token) d1))"
      by (simp add: d2_def retire_def split: prod.splits)
    moreover have "map_of (filter (\<lambda>x. \<not> (case x of (k, h) \<Rightarrow> fst k = token \<and> \<not> bookmarked d k)) xs) k =
        (if fst k = token \<and> \<not> bookmarked d k then None else map_of xs k)" for xs :: "((string \<times> int) \<times> history_row) list"
      by (induction xs) auto
    ultimately show ?thesis using f1(2) by (simp add: delete_unsaved_def Let_def)
  qed
  have all: "map_of (db_history d2) x = (if fst x = token then
       (if bookmarked d x then map_option (\<lambda>h. if lr_RemovedAt h = None then h\<lparr>lr_RemovedAt := Some now\<rparr> else h) (map_of (db_history d1) x) else None)
     else map_of (db_history d) x)" for x
    by (simp add: m2 map_of_mark_removed f1) (simp add: m1 option.map_ident)
  have none: "(map_of (db_history d1) x = None) = (map_of (db_history d) x = None)" for x by (simp add: m1)
  have a: "(map_of (db_history d2) (token, c) \<noteq> None) = (map_of (db_history d) (token, c) \<noteq> None \<and> bookmarked d (token, c))" for c
    using none [of "(token, c)"] by (simp add: all del: not_None_eq)
  have b: "lr_RemovedAt r \<noteq> None" if "map_of (db_history d2) (token, c) = Some r" for c r
    using that by (simp only: all fst_conv if_True split: if_splits) auto
  have c: "map_of (db_history d2) (t, c) = map_of (db_history d) (t, c)" if "t \<noteq> token" for t c
    using that by (simp add: all)
  show ?thesis unfolding out prod.case using a b c by blast
qed

text \<open>The request stream redelivers. Once a request has stored all four details, every further delivery for that
  listing is acknowledged without another page fetch and without a change, in whatever chat the listing is known.\<close>

lemma redelivery_is_skipped:
  assumes "db_faults d = []" "map_of (db_history d) (token, chat) = Some h" "waited"
    and "\<And>rec. map_option enrichment_of (newest_row has_enrichment token (db_history d)) = Some rec \<Longrightarrow> \<not> enriched_already rec"
    and "fetch_item token = Inr details" "id_Km details > 0" "id_City details \<noteq> ''''" "id_ImageURL details \<noteq> ''''" "id_BodyType details \<noteq> ''''"
  shows "case HandleRequest now waited fetch_item token k d of (out, k', d') \<Rightarrow>
    out = Acked \<and> (\<forall>now' waited' fetch' k2. HandleRequest now' waited' fetch' token k2 d' = (Acked, k2, d'))"
proof -
  define full where "full h \<longleftrightarrow> lr_Km h > 0 \<and> lr_City h \<noteq> '''' \<and> lr_ImageURL h \<noteq> '''' \<and> lr_BodyType h \<noteq> ''''" for h :: history_row
  define d1 where "d1 = d\<lparr>db_history := update_token token (backfill_row (details_record token details)) (db_history d)\<rparr>"
  have bf: "BackfillListings [details_record token details] d = (Inr (), d1)"
    using assms(1) by (simp add: BackfillListings_def d1_def details_record_def)
  have full1: "full h" if m: "((token, c), h) \<in> set (db_history d1)" for c h
  proof -
    obtain h0 where "h = backfill_row (details_record token details) h0" using m by (auto simp: d1_def update_token_def)
    then show ?thesis using assms(6-9) by (simp add: full_def backfill_row_def)
  qed
  have mem1: "map_of (db_history d1) (token, chat) \<noteq> None"
    using assms(2) by (simp add: d1_def update_token_def map_of_map_pairs [where f = "\<lambda>k h. if fst k = token then _ h else h"])
  define k1 where "k1 = k\<lparr>wk_limiter := RecordSuccess now (wk_limiter k)\<rparr>"
  obtain k2 d2 where r: "maybeResetUnenriched now k1 d1 = (k2, d2)" by fastforce
  have f1: "db_faults d1 = []" using assms(1) by (simp add: d1_def)
  have d2: "db_faults d2 = []" "\<exists>g. (\<forall>h. full (g h) = full h) \<and> db_history d2 = map (\<lambda>(k, h). (k, g h)) (db_history d1)"
  proof -
    show "db_faults d2 = []" using r f1 by (auto simp: maybeResetUnenriched_def ResetUnenrichedAttempts_def Let_def split: if_splits)
    show "\<exists>g. (\<forall>h. full (g h) = full h) \<and> db_history d2 = map (\<lambda>(k, h). (k, g h)) (db_history d1)"
    proof (cases "d2 = d1")
      case True
      then show ?thesis by (intro exI [of _ id]) auto
    next
      case False
      then have "d2 = snd (ResetUnenrichedAttempts d1)" using r by (auto simp: maybeResetUnenriched_def split: if_splits)
      then show ?thesis using f1
        by (intro exI [of _ "\<lambda>h. if missing_fields h \<and> hr_attempts h > 0 \<and> hr_attempts h < 30 then h\<lparr>hr_attempts := 0\<rparr> else h"])
          (simp add: ResetUnenrichedAttempts_def Let_def full_def)
    qed
  qed
  have out: "HandleRequest now waited fetch_item token k d = (Acked, k2, d2)"
    using assms(5-9) by (simp add: HandleRequest_fetches [OF assms(1-4)] finish_request_def k1_def [symmetric] Let_def bf r)
  obtain g where g: "\<And>h. full (g h) = full h" "db_history d2 = map (\<lambda>(k, h). (k, g h)) (db_history d1)" using d2(2) by blast
  have full2: "full h" if "((token, c), h) \<in> set (db_history d2)" for c h
    using that full1 by (auto simp: g)
  have mem2: "map_of (db_history d2) (token, chat) \<noteq> None"
    using mem1 by (simp add: g(2) map_of_map_pairs [where f = "\<lambda>k h. g h"])
  then obtain h2 where h2: "map_of (db_history d2) (token, chat) = Some h2" by blast
  have "has_enrichment h2" using full2 [OF map_of_SomeD [OF h2]] by (simp add: full_def has_enrichment_def)
  then obtain n where n: "newest_row has_enrichment token (db_history d2) = Some n"
    using newest_row_exists [OF h2, of has_enrichment] by blast
  have "full n" using newest_row_mem [OF n] full2 by auto
  then have "HandleRequest now' waited' fetch' token k3 d2 = (Acked, k3, d2)" for now' waited' fetch' k3
    using d2(1) n by (simp add: HandleRequest_def LookupEnrichmentData_def carAttrs_def Let_def enriched_already_def enrichment_of_def full_def)
  then show ?thesis by (simp add: out)
qed

definition plain_row :: history_row where
  "plain_row = new_row 0 (zero_record\<lparr>lr_Token := ''t'', lr_ChatID := 1\<rparr>)"

definition plain_worker :: worker where
  "plain_worker = NewWorker (NewAdaptiveRateLimiter 0 (seconds 2) (seconds 60) (minutes 5))"

definition plain_db :: db where
  "plain_db = empty_db\<lparr>db_history := [((''t'', 1), plain_row), ((''t'', 2), plain_row)], db_saved := [(2, ''t'')]\<rparr>"

lemma plain_db_facts:
  "db_faults plain_db = []" "map_of (db_history plain_db) (''t'', 1) = Some plain_row" "\<not> bookmarked plain_db (''t'', 1)"
  "newest_row has_enrichment ''t'' (db_history plain_db) = None"
proof -
  have "\<not> has_enrichment plain_row" by (simp add: has_enrichment_def plain_row_def new_row_def zero_record_def listing_record.defs)
  then show "newest_row has_enrichment ''t'' (db_history plain_db) = None"
    by (simp add: newest_row_def plain_db_def)
qed (simp_all add: plain_db_def empty_db_def bookmarked_def)

lemma gone_item_leaves_every_chat_witness:
  "map_of (db_history (snd (snd (HandleRequest 5 True (\<lambda>_. Inl [ErrItemGone]) ''t'' plain_worker plain_db)))) (''t'', 1) = None"
  using gone_item_leaves_every_chat [OF plain_db_facts(1,2), where waited = True and fetch_item = "\<lambda>_. Inl [ErrItemGone]"
      and err = "[ErrItemGone]" and now = 5 and k = plain_worker] plain_db_facts(3,4)
  by (auto simp: errors_is_def split: prod.splits)

definition full_details :: item_details where
  "full_details = \<lparr>id_Km = 50000, id_ImageURL = ''i'', id_City = ''c'', id_Area = '''', id_BodyType = ''b''\<rparr>"

lemma redelivery_is_skipped_witness:
  "HandleRequest 9 True (\<lambda>_. Inl []) ''t'' plain_worker (snd (snd (HandleRequest 5 True (\<lambda>_. Inr full_details) ''t'' plain_worker plain_db))) =
    (Acked, plain_worker, snd (snd (HandleRequest 5 True (\<lambda>_. Inr full_details) ''t'' plain_worker plain_db)))"
proof -
  have "id_Km full_details > 0" "id_City full_details \<noteq> ''''" "id_ImageURL full_details \<noteq> ''''" "id_BodyType full_details \<noteq> ''''"
    by (simp_all add: full_details_def)
  then show ?thesis
    using redelivery_is_skipped [OF plain_db_facts(1,2), where waited = True and fetch_item = "\<lambda>_. Inr full_details"
      and details = full_details and now = 5 and k = plain_worker] plain_db_facts(4)
    by (simp split: prod.splits)
qed

end
