(* ===== verification/FlexTime.thy ===== *)
theory FlexTime
  imports CwPrelude
begin

section \<open>Times of the feed (internal/timeutil/timeutil.go)\<close>

text \<open>
  Both the scraper and the ingest endpoint read the dates of the source. The parsers of the time package are an argument:
  \<open>tp local layout value\<close> is \<open>time.Parse\<close>, or \<open>time.ParseInLocation\<close> for local times.
\<close>

type_synonym time_parser = "bool \<Rightarrow> string \<Rightarrow> string \<Rightarrow> gotime option"

definition RFC3339 :: string where "RFC3339 = ''2006-01-02T15:04:05Z07:00''"
definition RFC3339Nano :: string where "RFC3339Nano = ''2006-01-02T15:04:05.999999999Z07:00''"

definition flex_layouts :: "(bool \<times> string) list" where
  "flex_layouts = [(False, RFC3339Nano), (False, RFC3339), (True, ''2006-01-02T15:04:05.999999999''),
     (True, ''2006-01-02T15:04:05''), (True, ''2006-01-02 15:04:05.999999999''), (True, ''2006-01-02 15:04:05''), (True, ''2006-01-02'')]"

fun first_parse :: "time_parser \<Rightarrow> (bool \<times> string) list \<Rightarrow> string \<Rightarrow> gotime" where
  "first_parse tp [] s = 0"
| "first_parse tp ((local, layout) # ls) s = (case tp local layout s of Some t \<Rightarrow> t | None \<Rightarrow> first_parse tp ls s)"

definition ParseFlexTime :: "time_parser \<Rightarrow> string \<Rightarrow> gotime" where
  "ParseFlexTime tp s = (let s = trim_space s in if s = '''' then 0 else first_parse tp flex_layouts s)"

text \<open>A date that no layout reads is the zero time, and so is none at all.\<close>

lemma first_parse_fails: "(\<And>local layout. (local, layout) \<in> set ls \<Longrightarrow> tp local layout s = None) \<Longrightarrow> first_parse tp ls s = 0"
  by (induction ls) auto

lemma ParseFlexTime_fails:
  "(\<And>local layout. (local, layout) \<in> set flex_layouts \<Longrightarrow> tp local layout (trim_space s) = None) \<Longrightarrow> ParseFlexTime tp s = 0"
  by (simp add: ParseFlexTime_def Let_def first_parse_fails)

lemma ParseFlexTime_empty [simp]: "ParseFlexTime tp '''' = 0"
  by (simp add: ParseFlexTime_def trim_space_def)

end
