(* ===== verification/IngestValidation.thy ===== *)
theory IngestValidation
  imports Model
begin

section \<open>Validation of pushed listings (internal/api/ingest_validation.go)\<close>

text \<open>
  What the ingest endpoint lets through: tokens, links and images by host, and free text. The text functions
  work on runes, so Go's decoding of UTF-8 comes first, then what \<open>sanitizeURL\<close> uses of \<open>net/url\<close>, then the
  functions of the file. The theorems say what a value that passes looks like, whatever bytes a client sends.
\<close>

subsection \<open>Runes\<close>

text \<open>\<open>utf8.DecodeRuneInString\<close>: the width of the first rune, 0 for a byte that starts none (Go then reads one
  byte as the error rune).\<close>

definition byte_in :: "nat \<Rightarrow> nat \<Rightarrow> char \<Rightarrow> bool" where
  "byte_in lo hi c \<longleftrightarrow> lo \<le> of_char c \<and> of_char c \<le> hi"

definition second_byte :: "char \<Rightarrow> char \<Rightarrow> bool" where
  "second_byte b c =
    (if byte_in 0xE0 0xE0 b then byte_in 0xA0 0xBF c
     else if byte_in 0xED 0xED b then byte_in 0x80 0x9F c
     else if byte_in 0xF0 0xF0 b then byte_in 0x90 0xBF c
     else if byte_in 0xF4 0xF4 b then byte_in 0x80 0x8F c
     else byte_in 0x80 0xBF c)"

fun rune_width :: "string \<Rightarrow> nat" where
  "rune_width [] = 0"
| "rune_width (b # s) =
    (if byte_in 0 0x7F b then 1
     else if byte_in 0xC2 0xDF b then (case s of c # _ \<Rightarrow> if second_byte b c then 2 else 0 | _ \<Rightarrow> 0)
     else if byte_in 0xE0 0xEF b then
       (case s of c # d # _ \<Rightarrow> if second_byte b c \<and> byte_in 0x80 0xBF d then 3 else 0 | _ \<Rightarrow> 0)
     else if byte_in 0xF0 0xF4 b then
       (case s of c # d # e # _ \<Rightarrow> if second_byte b c \<and> byte_in 0x80 0xBF d \<and> byte_in 0x80 0xBF e then 4 else 0 | _ \<Rightarrow> 0)
     else 0)"

text \<open>The runes of a string as \<open>range\<close> steps through them, each with its bytes.\<close>

function runes :: "string \<Rightarrow> string list" where
  "runes [] = []"
| "runes (b # s) = take (max 1 (rune_width (b # s))) (b # s) # runes (drop (max 1 (rune_width (b # s))) (b # s))"
  by pat_completeness auto
termination by (relation "measure length") (auto simp: max_def)

definition RuneCountInString :: "string \<Rightarrow> nat" where
  "RuneCountInString s = length (runes s)"

text \<open>A whole rune in UTF-8.\<close>

definition utf8_rune :: "string \<Rightarrow> bool" where
  "utf8_rune r \<longleftrightarrow> r \<noteq> [] \<and> rune_width r = length r"

definition valid_utf8 :: "string \<Rightarrow> bool" where
  "valid_utf8 s \<longleftrightarrow> list_all utf8_rune (runes s)"

text \<open>U+FFFD, which \<open>strings.Map\<close> writes for a byte that starts no rune.\<close>

definition error_rune :: string where
  "error_rune = [CHR 0xEF, CHR 0xBF, CHR 0xBD]"

subsection \<open>Free text\<close>

definition maxDescriptionLen :: nat where "maxDescriptionLen = 4000"
definition maxNameFieldLen :: nat where "maxNameFieldLen = 200"
definition maxURLLen :: nat where "maxURLLen = 2048"

definition truncateRunes :: "string \<Rightarrow> nat \<Rightarrow> string" where
  "truncateRunes s n = (if RuneCountInString s \<le> n then s else concat (take n (runes s)))"

text \<open>The mapping of \<open>sanitizeText\<close>: control characters but newline and tab are dropped.\<close>

definition strip_rune :: "string \<Rightarrow> string" where
  "strip_rune r =
    (if r = [CHR 10] \<or> r = [CHR 9] then r
     else if length r = 1 \<and> (byte_in 0 0x1F (hd r) \<or> byte_in 0x7F 0x7F (hd r)) then []
     else if utf8_rune r then r
     else error_rune)"

definition sanitizeText :: "string \<Rightarrow> nat \<Rightarrow> string" where
  "sanitizeText s n = truncateRunes (trim_space (concat (map strip_rune (runes s)))) n"

subsection \<open>Lemmas: runes\<close>

declare rune_width.simps(2) [simp del]

lemma byte_in_disjoint: "byte_in lo hi b \<Longrightarrow> hi < lo' \<or> hi' < lo \<Longrightarrow> \<not> byte_in lo' hi' b"
  by (auto simp: byte_in_def)

lemma rune_width_eqs:
  "byte_in 0 0x7F b \<Longrightarrow> rune_width (b # s) = 1"
  "byte_in 0xC2 0xDF b \<Longrightarrow> rune_width (b # c # s) = (if second_byte b c then 2 else 0)"
  "byte_in 0xE0 0xEF b \<Longrightarrow> rune_width (b # c # d # s) = (if second_byte b c \<and> byte_in 0x80 0xBF d then 3 else 0)"
  "byte_in 0xF0 0xF4 b \<Longrightarrow>
    rune_width (b # c # d # e # s) = (if second_byte b c \<and> byte_in 0x80 0xBF d \<and> byte_in 0x80 0xBF e then 4 else 0)"
  by (simp_all add: rune_width.simps byte_in_disjoint)

lemma rune_width_cases:
  obtains (short) "rune_width s = 0"
  | (one) b s' where "s = b # s'" "rune_width s = 1" "byte_in 0 0x7F b"
  | (two) b c s' where "s = b # c # s'" "rune_width s = 2" "byte_in 0xC2 0xDF b" "second_byte b c"
  | (three) b c d s' where "s = b # c # d # s'" "rune_width s = 3" "byte_in 0xE0 0xEF b" "second_byte b c" "byte_in 0x80 0xBF d"
  | (four) b c d e s' where "s = b # c # d # e # s'" "rune_width s = 4" "byte_in 0xF0 0xF4 b" "second_byte b c"
      "byte_in 0x80 0xBF d" "byte_in 0x80 0xBF e"
proof (cases s)
  case Nil
  then show ?thesis using short by simp
next
  case (Cons b t)
  consider "byte_in 0 0x7F b" | "\<not> byte_in 0 0x7F b" "byte_in 0xC2 0xDF b" | "byte_in 0xE0 0xEF b" | "byte_in 0xF0 0xF4 b"
    | "\<not> byte_in 0 0x7F b" "\<not> byte_in 0xC2 0xDF b" "\<not> byte_in 0xE0 0xEF b" "\<not> byte_in 0xF0 0xF4 b" by blast
  then show ?thesis
  proof cases
    case 1
    then show ?thesis using one Cons by (simp add: rune_width_eqs)
  next
    case 2
    show ?thesis
    proof (cases t)
      case Nil
      then show ?thesis using 2 short Cons by (simp add: rune_width.simps)
    next
      case (Cons c u)
      then show ?thesis using 2 short two \<open>s = b # t\<close> by (cases "second_byte b c") (simp_all add: rune_width_eqs)
    qed
  next
    case 3
    show ?thesis
    proof (cases "\<exists>c d u. t = c # d # u")
      case True
      then obtain c d u where t: "t = c # d # u" by blast
      then show ?thesis using 3 short three \<open>s = b # t\<close>
        by (cases "second_byte b c \<and> byte_in 0x80 0xBF d") (simp_all add: rune_width_eqs)
    next
      case False
      then have "rune_width s = 0" using 3 Cons by (auto simp: rune_width.simps byte_in_disjoint split: list.split)
      then show ?thesis by (rule short)
    qed
  next
    case 4
    show ?thesis
    proof (cases "\<exists>c d e u. t = c # d # e # u")
      case True
      then obtain c d e u where t: "t = c # d # e # u" by blast
      then show ?thesis using 4 short four \<open>s = b # t\<close>
        by (cases "second_byte b c \<and> byte_in 0x80 0xBF d \<and> byte_in 0x80 0xBF e") (simp_all add: rune_width_eqs)
    next
      case False
      then have "rune_width s = 0" using 4 Cons by (auto simp: rune_width.simps byte_in_disjoint split: list.split)
      then show ?thesis by (rule short)
    qed
  next
    case 5
    then show ?thesis using short Cons by (simp add: rune_width.simps)
  qed
qed

lemma rune_width_le: "rune_width s \<le> length s"
  by (cases rule: rune_width_cases [of s]) simp_all

lemma rune_width_append: "0 < rune_width r \<Longrightarrow> rune_width (r @ s) = rune_width r"
  by (cases rule: rune_width_cases [of r]) (simp_all add: rune_width_eqs)

lemma rune_width_take: "rune_width (take (rune_width s) s) = rune_width s"
  by (cases rule: rune_width_cases [of s]) (simp_all add: rune_width_eqs)

lemma second_byte_high: "second_byte b c \<Longrightarrow> byte_in 0x80 0xBF c"
  by (auto simp: second_byte_def byte_in_def split: if_splits)

text \<open>The bytes of a rune: one ASCII byte, or bytes outside ASCII only.\<close>

lemma utf8_rune_bytes:
  assumes "utf8_rune r"
  shows "(\<exists>b. r = [b] \<and> byte_in 0 0x7F b) \<or> (\<forall>b \<in> set r. byte_in 0x80 0xFF b)"
  using assms unfolding utf8_rune_def
  by (cases rule: rune_width_cases [of r]) (auto dest!: second_byte_high simp: byte_in_def)

lemma runes_Cons_rune:
  assumes "utf8_rune r"
  shows "runes (r @ s) = r # runes s"
proof -
  obtain b t where r: "r = b # t" using assms by (cases r) (auto simp: utf8_rune_def)
  have "rune_width (b # (t @ s)) = length r" "0 < length r"
    using assms rune_width_append [of r s] by (simp_all add: utf8_rune_def r)
  then have "max 1 (rune_width (b # (t @ s))) = Suc (length t)" by (simp add: r)
  then show ?thesis by (simp add: r)
qed

lemma runes_concat: "list_all utf8_rune rs \<Longrightarrow> runes (concat rs) = rs"
  by (induction rs) (simp_all add: runes_Cons_rune)

lemma concat_runes: "concat (runes s) = s"
  by (induction s rule: runes.induct) (simp_all del: take.simps drop.simps)

lemma valid_utf8_concat: "list_all utf8_rune rs \<Longrightarrow> valid_utf8 (concat rs)"
  by (simp add: valid_utf8_def runes_concat)

definition clean_char :: "char \<Rightarrow> bool" where
  "clean_char c \<longleftrightarrow> c = CHR 10 \<or> c = CHR 9 \<or> \<not> byte_in 0 0x1F c \<and> \<not> byte_in 0x7F 0x7F c"

definition clean_rune :: "string \<Rightarrow> bool" where
  "clean_rune r \<longleftrightarrow> utf8_rune r \<and> list_all clean_char r"

lemma clean_runes: "clean_rune [CHR 10]" "clean_rune [CHR 9]" "clean_rune error_rune"
  by (simp_all add: clean_rune_def utf8_rune_def error_rune_def rune_width.simps byte_in_def second_byte_def clean_char_def)

text \<open>The mapping turns the runes of any string into clean runes.\<close>

lemma strip_rune_ok: "strip_rune r = [] \<or> clean_rune (strip_rune r)"
proof -
  have "clean_rune r" if "utf8_rune r" "\<not> (length r = 1 \<and> (byte_in 0 0x1F (hd r) \<or> byte_in 0x7F 0x7F (hd r)))"
    using utf8_rune_bytes [OF that(1)] that by (auto simp: clean_rune_def clean_char_def list_all_iff byte_in_def)
  then show ?thesis using clean_runes unfolding strip_rune_def by simp
qed

lemma strip_runes_ok:
  "\<exists>rs. concat (map strip_rune qs) = concat rs \<and> list_all clean_rune rs"
proof (intro exI conjI)
  show "concat (map strip_rune qs) = concat (filter (\<lambda>r. r \<noteq> []) (map strip_rune qs))"
    by (induction qs) simp_all
  show "list_all clean_rune (filter (\<lambda>r. r \<noteq> []) (map strip_rune qs))"
    using strip_rune_ok by (auto simp: list_all_iff)
qed

text \<open>A space is a rune of its own, so trimming drops whole runes.\<close>

lemma dropWhile_space_concat:
  assumes "list_all utf8_rune rs"
  shows "dropWhile is_space (concat rs) = concat (dropWhile (\<lambda>r. is_space (hd r)) rs)"
    "dropWhile is_space (rev (concat rs)) = rev (concat (rev (dropWhile (\<lambda>r. is_space (hd r)) (rev rs))))"
proof -
  have sp: "utf8_rune r \<Longrightarrow> (r = [b] \<and> is_space b) \<or> (r \<noteq> [] \<and> (\<forall>b \<in> set r. \<not> is_space b))" if "b = hd r" for r b
    using utf8_rune_bytes [of r] that
    by (cases r) (auto simp: utf8_rune_def is_space_def byte_in_def Let_def)
  have drop: "dropWhile is_space (r @ s) = (if is_space (hd r) then dropWhile is_space s else r @ s)" if "utf8_rune r" for r s
    using sp [OF refl that] by (cases r) auto
  have drop_rev: "dropWhile is_space (rev r @ s) = (if is_space (hd r) then dropWhile is_space s else rev r @ s)" if u: "utf8_rune r" for r s
  proof -
    consider b where "r = [b]" "is_space b" | "r \<noteq> []" "\<forall>b \<in> set r. \<not> is_space b" using sp [OF refl u] by blast
    then show ?thesis
    proof cases
      case 2
      then have "\<not> is_space (hd r)" "rev r \<noteq> []" "\<not> is_space (hd (rev r))" by (simp_all add: hd_rev)
      then show ?thesis by (cases "rev r") simp_all
    qed simp
  qed
  show "dropWhile is_space (concat rs) = concat (dropWhile (\<lambda>r. is_space (hd r)) rs)"
    using assms by (induction rs) (simp_all add: drop)
  show "dropWhile is_space (rev (concat rs)) = rev (concat (rev (dropWhile (\<lambda>r. is_space (hd r)) (rev rs))))"
    using assms by (induction rs rule: rev_induct) (simp_all add: drop_rev)
qed

lemma trim_space_concat:
  assumes "list_all utf8_rune rs"
  obtains rs' where "trim_space (concat rs) = concat rs'" "set rs' \<subseteq> set rs"
proof
  let ?a = "dropWhile (\<lambda>r. is_space (hd r)) rs"
  have "list_all utf8_rune ?a" using assms by (auto simp: list_all_iff dest: set_dropWhileD)
  then show "trim_space (concat rs) = concat (rev (dropWhile (\<lambda>r. is_space (hd r)) (rev ?a)))"
    by (simp add: trim_space_def dropWhile_space_concat(1) [OF assms] dropWhile_space_concat(2))
  show "set (rev (dropWhile (\<lambda>r. is_space (hd r)) (rev ?a))) \<subseteq> set rs"
    by (auto dest!: set_dropWhileD)
qed

lemma truncateRunes_concat: "list_all utf8_rune rs \<Longrightarrow> truncateRunes (concat rs) n = concat (take n rs)"
  by (simp add: truncateRunes_def RuneCountInString_def runes_concat)

text \<open>Free text of a pushed listing is safe to store and to send, whatever bytes the client posts.\<close>

theorem sanitized_text_is_clean:
  "valid_utf8 (sanitizeText s n) \<and> RuneCountInString (sanitizeText s n) \<le> n \<and> list_all clean_char (sanitizeText s n)"
proof -
  obtain rs where rs: "concat (map strip_rune (runes s)) = concat rs" "list_all clean_rune rs"
    using strip_runes_ok by blast
  then have "list_all utf8_rune rs" by (simp add: list_all_iff clean_rune_def)
  then obtain rs' where rs': "trim_space (concat rs) = concat rs'" "set rs' \<subseteq> set rs" by (rule trim_space_concat)
  then have "list_all clean_rune rs'" using rs(2) by (auto simp: list_all_iff)
  then have "list_all clean_rune (take n rs')" "list_all utf8_rune rs'"
    by (auto simp: list_all_iff clean_rune_def dest: in_set_takeD)
  moreover from this have "list_all utf8_rune (take n rs')" by (auto simp: list_all_iff dest: in_set_takeD)
  ultimately have "sanitizeText s n = concat (take n rs')" "list_all utf8_rune (take n rs')" "list_all clean_rune (take n rs')"
    by (simp_all add: sanitizeText_def rs rs' truncateRunes_concat)
  then show ?thesis
    by (simp add: valid_utf8_concat RuneCountInString_def runes_concat) (auto simp: list_all_iff clean_rune_def)
qed

subsection \<open>Links and images\<close>

text \<open>
  What \<open>sanitizeURL\<close> uses of \<open>net/url\<close>: whether \<open>url.Parse\<close> accepts the string, and then the scheme and
  \<open>Hostname()\<close>. An address in brackets is taken without checking that it is an IPv6 address, so the model accepts
  what \<open>Parse\<close> does and more.
\<close>

definition between :: "char \<Rightarrow> char \<Rightarrow> char \<Rightarrow> bool" where
  "between a b c \<longleftrightarrow> (of_char a :: nat) \<le> of_char c \<and> (of_char c :: nat) \<le> of_char b"

definition is_letter :: "char \<Rightarrow> bool" where
  "is_letter c \<longleftrightarrow> between (CHR ''a'') (CHR ''z'') c \<or> between (CHR ''A'') (CHR ''Z'') c"

definition is_digit :: "char \<Rightarrow> bool" where "is_digit c \<longleftrightarrow> between (CHR ''0'') (CHR ''9'') c"

definition is_hex :: "char \<Rightarrow> bool" where
  "is_hex c \<longleftrightarrow> is_digit c \<or> between (CHR ''a'') (CHR ''f'') c \<or> between (CHR ''A'') (CHR ''F'') c"

definition unhex :: "char \<Rightarrow> nat" where
  "unhex c = (if is_digit c then of_char c - 48 else if between (CHR ''a'') (CHR ''f'') c then of_char c - 87 else of_char c - 55)"

definition before :: "char \<Rightarrow> string \<Rightarrow> string" where "before c s = takeWhile (\<lambda>x. x \<noteq> c) s"
definition after :: "char \<Rightarrow> string \<Rightarrow> string" where "after c s = drop 1 (dropWhile (\<lambda>x. x \<noteq> c) s)"

text \<open>\<open>strings.LastIndex\<close>: what follows the last \<open>c\<close>, and what precedes it.\<close>

definition after_last :: "char \<Rightarrow> string \<Rightarrow> string" where "after_last c s = rev (before c (rev s))"
definition before_last :: "char \<Rightarrow> string \<Rightarrow> string" where "before_last c s = rev (after c (rev s))"

text \<open>\<open>getScheme\<close>: None is the error of a missing scheme.\<close>

definition getScheme :: "string \<Rightarrow> (string \<times> string) option" where
  "getScheme s =
    (let pre = takeWhile (\<lambda>c. is_letter c \<or> is_digit c \<or> c \<in> set ''+-.'') s;
         rest = dropWhile (\<lambda>c. is_letter c \<or> is_digit c \<or> c \<in> set ''+-.'') s
     in if pre \<noteq> [] \<and> \<not> is_letter (hd pre) then Some ('''', s)
        else if rest \<noteq> [] \<and> hd rest = CHR '':'' then (if pre = [] then None else Some (pre, tl rest))
        else Some ('''', s))"

fun valid_escapes :: "string \<Rightarrow> bool" where
  "valid_escapes [] = True"
| "valid_escapes (c # s) =
    (if c = CHR ''%'' then (case s of a # b # t \<Rightarrow> is_hex a \<and> is_hex b \<and> valid_escapes t | _ \<Rightarrow> False) else valid_escapes s)"

definition host_char :: "char \<Rightarrow> bool" where
  "host_char c \<longleftrightarrow> is_letter c \<or> is_digit c \<or> c \<in> set ''-_.~!$&()*+,;=:[]<>'' \<or> c = CHR 0x27 \<or> c = CHR 0x22 \<or> byte_in 0x80 0xFF c"

fun unescape_host :: "string \<Rightarrow> string option" where
  "unescape_host [] = Some []"
| "unescape_host (c # s) =
    (if c = CHR ''%'' then
       (case s of
          a # b # t \<Rightarrow>
            if is_hex a \<and> is_hex b \<and> (8 \<le> unhex a \<or> [a, b] = ''25'')
            then map_option (Cons (char_of (16 * unhex a + unhex b))) (unescape_host t)
            else None
        | _ \<Rightarrow> None)
     else if host_char c then map_option (Cons c) (unescape_host s) else None)"

definition validOptionalPort :: "string \<Rightarrow> bool" where
  "validOptionalPort p \<longleftrightarrow> (case p of [] \<Rightarrow> True | c # ds \<Rightarrow> c = CHR '':'' \<and> list_all is_digit ds)"

definition strip_port :: "string \<Rightarrow> string" where
  "strip_port h = (if CHR '':'' \<in> set h \<and> list_all is_digit (after_last (CHR '':'') h) then before_last (CHR '':'') h else h)"

definition user_char :: "char \<Rightarrow> bool" where
  "user_char c \<longleftrightarrow> is_letter c \<or> is_digit c \<or> c \<in> set ''-._:~!$&()*+,;=%@'' \<or> c = CHR 0x27"

text \<open>\<open>parseHost\<close> and \<open>Hostname\<close>.\<close>

definition parse_host :: "string \<Rightarrow> string option" where
  "parse_host h =
    (if h \<noteq> [] \<and> hd h = CHR ''['' then
       (if CHR '']'' \<notin> set h \<or> \<not> validOptionalPort (after_last (CHR '']'') h) then None
        else Some (tl (before_last (CHR '']'') h)))
     else if CHR '':'' \<in> set h \<and> \<not> list_all is_digit (after_last (CHR '':'') h) then None
     else map_option strip_port (unescape_host h))"

definition parse_authority :: "string \<Rightarrow> string option" where
  "parse_authority a =
    (if CHR ''@'' \<in> set a \<and> \<not> (list_all user_char (before_last (CHR ''@'') a) \<and> valid_escapes (before_last (CHR ''@'') a)) then None
     else parse_host (after_last (CHR ''@'') a))"

definition parse_rest :: "string \<Rightarrow> string \<Rightarrow> (string \<times> string) option" where
  "parse_rest scheme rest =
    (if \<not> prefix ''/'' rest then
       (if scheme \<noteq> [] then Some (scheme, [])
        else if contains (before (CHR ''/'') rest) '':'' then None
        else if valid_escapes rest then Some ([], []) else None)
     else if (scheme \<noteq> [] \<or> \<not> prefix ''///'' rest) \<and> prefix ''//'' rest then
       (case parse_authority (before (CHR ''/'') (drop 2 rest)) of
          None \<Rightarrow> None
        | Some host \<Rightarrow> if valid_escapes (dropWhile (\<lambda>c. c \<noteq> CHR ''/'') (drop 2 rest)) then Some (scheme, host) else None)
     else if valid_escapes rest then Some (scheme, []) else None)"

definition url_parse :: "string \<Rightarrow> (string \<times> string) option" where
  "url_parse raw =
    (let u = before (CHR ''#'') raw in
     if list_ex (\<lambda>c. byte_in 0 0x1F c \<or> byte_in 0x7F 0x7F c) u then None
     else if \<not> valid_escapes (after (CHR ''#'') raw) then None
     else case getScheme u of
       None \<Rightarrow> None
     | Some (scheme, rest) \<Rightarrow> parse_rest (to_lower scheme) (before (CHR ''?'') rest))"

text \<open>\<open>strings.ToLower\<close> on a host. Besides the ASCII letters two runes have an ASCII lower case, U+0130 (the dotted
  capital I) and U+212A (the Kelvin sign); all other runes outside ASCII stay outside.\<close>

fun lower_host :: "string \<Rightarrow> string" where
  "lower_host [] = []"
| "lower_host (b # s) =
    (if b = CHR 0xC4 \<and> prefix [CHR 0xB0] s then CHR ''i'' # lower_host (drop 1 s)
     else if b = CHR 0xE2 \<and> prefix [CHR 0x84, CHR 0xAA] s then CHR ''k'' # lower_host (drop 2 s)
     else lower_char b # lower_host s)"

definition trim_suffix :: "string \<Rightarrow> string \<Rightarrow> string" where
  "trim_suffix s suf = (if suffix suf s then take (length s - length suf) s else s)"

definition allowedListingHosts :: "string list" where "allowedListingHosts = [''yad2.co.il'']"
definition allowedImageHosts :: "string list" where "allowedImageHosts = [''yad2.co.il'', ''yit.co.il'']"

definition hostAllowed :: "string \<Rightarrow> string list \<Rightarrow> bool" where
  "hostAllowed host allowed =
    (let host = lower_host (trim_suffix host ''.'') in list_ex (\<lambda>a. host = a \<or> suffix (''.'' @ a) host) allowed)"

definition sanitizeURL :: "string \<Rightarrow> string list \<Rightarrow> string" where
  "sanitizeURL raw allowed =
    (if raw = '''' \<or> length raw > maxURLLen then ''''
     else case url_parse raw of
       None \<Rightarrow> ''''
     | Some (scheme, hostname) \<Rightarrow>
         if scheme \<noteq> ''https'' then '''' else if \<not> hostAllowed hostname allowed then '''' else raw)"

subsection \<open>Lemmas: the shape of an accepted link\<close>

lemma before_split: "s = before c s @ dropWhile (\<lambda>x. x \<noteq> c) s" "c \<notin> set (before c s)"
  by (simp_all add: before_def) (metis set_takeWhileD)

lemma dropWhile_hd: "dropWhile (\<lambda>x. x \<noteq> c) s = [] \<or> hd (dropWhile (\<lambda>x. x \<noteq> c) s) = c"
  using hd_dropWhile [of "\<lambda>x. x \<noteq> c" s] by auto

lemma getScheme_Some:
  assumes "getScheme u = Some (scheme, rest)" "scheme \<noteq> []"
  shows "u = scheme @ '':'' @ rest"
proof -
  define P where "P c \<longleftrightarrow> is_letter c \<or> is_digit c \<or> c \<in> set ''+-.''" for c
  define pre tail where "pre = takeWhile P u" and "tail = dropWhile P u"
  have "(if pre \<noteq> [] \<and> \<not> is_letter (hd pre) then Some ([], u)
         else if tail \<noteq> [] \<and> hd tail = CHR '':'' then (if pre = [] then None else Some (pre, tl tail)) else Some ([], u)) = Some (scheme, rest)"
    using assms(1) unfolding getScheme_def Let_def pre_def tail_def P_def .
  then have "scheme = pre" "tail \<noteq> []" "hd tail = CHR '':''" "rest = tl tail"
    using assms(2) by (simp_all split: if_split_asm)
  moreover have "u = pre @ tail" by (simp add: pre_def tail_def)
  ultimately show ?thesis by (cases tail) simp_all
qed

lemma parse_rest_host:
  assumes "parse_rest sc rest = Some (scheme, host)" "sc \<noteq> []" "host \<noteq> []"
  shows "scheme = sc \<and> prefix ''//'' rest \<and> parse_authority (before (CHR ''/'') (drop 2 rest)) = Some host"
  using assms unfolding parse_rest_def by (simp split: if_split_asm option.split_asm)

text \<open>A string that begins with the authority of a URL splits there.\<close>

lemma url_parse_host:
  assumes "url_parse raw = Some (scheme, host)" "scheme \<noteq> []" "host \<noteq> []"
  obtains s a rest where "raw = s @ ''://'' @ a @ rest" "to_lower s = scheme" "set a \<inter> set ''/?#'' = {}"
    "rest = [] \<or> hd rest \<in> set ''/?#''" "parse_authority a = Some host"
proof -
  define u where "u = before (CHR ''#'') raw"
  obtain s rest1 where g: "getScheme u = Some (s, rest1)"
    using assms(1) by (cases "getScheme u") (auto simp: url_parse_def u_def [symmetric] Let_def split: if_split_asm)
  define rest2 where "rest2 = before (CHR ''?'') rest1"
  define a where "a = before (CHR ''/'') (drop 2 rest2)"
  define path where "path = dropWhile (\<lambda>c. c \<noteq> CHR ''/'') (drop 2 rest2)"
  have p: "parse_rest (to_lower s) rest2 = Some (scheme, host)"
    using assms(1) by (simp add: url_parse_def u_def [symmetric] g rest2_def [symmetric] Let_def split: if_split_asm)
  have "to_lower s \<noteq> []"
  proof
    assume "to_lower s = []"
    then show False using p assms(2,3)
      by (simp add: parse_rest_def split: if_split_asm option.split_asm)
  qed
  from parse_rest_host [OF p this assms(3)]
  have body: "to_lower s = scheme" "prefix ''//'' rest2" "parse_authority a = Some host" by (simp_all add: a_def)
  have s: "u = s @ '':'' @ rest1" using getScheme_Some [OF g] body(1) assms(2) by auto
  obtain q where q: "rest1 = rest2 @ q" "q = [] \<or> hd q = CHR ''?''"
    using before_split(1) [of rest1 "CHR ''?''"] dropWhile_hd [of "CHR ''?''" rest1] by (auto simp: rest2_def)
  obtain f where f: "raw = u @ f" "f = [] \<or> hd f = CHR ''#''"
    using before_split(1) [of raw "CHR ''#''"] dropWhile_hd [of "CHR ''#''" raw] by (auto simp: u_def)
  have "rest2 = ''//'' @ drop 2 rest2" using body(2) by (auto simp: prefix_def)
  moreover have "drop 2 rest2 = a @ path" unfolding a_def path_def by (rule before_split)
  ultimately have rest2: "rest2 = ''//'' @ a @ path" by simp
  have raw: "raw = s @ ''://'' @ a @ path @ q @ f" by (simp add: f(1) s q(1) rest2)
  have "CHR ''/'' \<notin> set a" by (simp add: a_def before_split)
  moreover have "set a \<subseteq> set rest2" "set a \<subseteq> set u" using rest2 s q(1) by auto
  moreover have "CHR ''?'' \<notin> set rest2" "CHR ''#'' \<notin> set u" by (simp_all add: rest2_def u_def before_split)
  ultimately have "set a \<inter> set ''/?#'' = {}" by auto
  moreover have "path = [] \<or> hd path = CHR ''/''" unfolding path_def by (rule dropWhile_hd)
  then have "path @ q @ f = [] \<or> hd (path @ q @ f) \<in> set ''/?#''" using q(2) f(2) by (cases path; cases q) auto
  ultimately show ?thesis using that [OF raw body(1) _ _ body(3)] by simp
qed

lemma hostAllowed_nonempty: "hostAllowed h allowed \<Longrightarrow> '''' \<notin> set allowed \<Longrightarrow> h \<noteq> ''''"
  by (auto simp: hostAllowed_def trim_suffix_def list_ex_iff)

lemma sanitizeURL_cases: "sanitizeURL raw allowed = '''' \<or> sanitizeURL raw allowed = raw"
  by (auto simp: sanitizeURL_def split: option.split)

text \<open>What a link that passes looks like: a URL over https whose host, in lower case and without a dot at its end, is one of the
  listed ones, or ends in one of them after a dot.\<close>

definition names_host :: "string \<Rightarrow> string \<Rightarrow> bool" where
  "names_host a host \<longleftrightarrow>
     (\<exists>core sub. (host = core \<or> host = core @ ''.'') \<and> lower_host core = sub @ a \<and> (sub = [] \<or> last sub = CHR ''.''))"

lemma hostAllowed_names:
  assumes "hostAllowed host allowed"
  shows "\<exists>a \<in> set allowed. names_host a host"
proof -
  define core where "core = trim_suffix host ''.''"
  have core: "host = core \<or> host = core @ ''.''"
    by (auto simp: core_def trim_suffix_def suffix_def)
  from assms obtain a where a: "a \<in> set allowed" "lower_host core = a \<or> suffix (''.'' @ a) (lower_host core)"
    by (auto simp: hostAllowed_def Let_def list_ex_iff core_def)
  from a(2) have "\<exists>sub. lower_host core = sub @ a \<and> (sub = [] \<or> last sub = CHR ''.'')"
  proof
    assume "suffix (''.'' @ a) (lower_host core)"
    then obtain zs where "lower_host core = (zs @ ''.'') @ a" by (auto simp: suffix_def)
    then show ?thesis by (intro exI [of _ "zs @ ''.''"]) simp
  qed simp
  then show ?thesis using core a(1) unfolding names_host_def by blast
qed

definition url_on :: "string list \<Rightarrow> string \<Rightarrow> bool" where
  "url_on allowed raw \<longleftrightarrow> length raw \<le> 2048 \<and>
     (\<exists>scheme authority rest host. raw = scheme @ ''://'' @ authority @ rest \<and> to_lower scheme = ''https'' \<and>
       set authority \<inter> set ''/?#'' = {} \<and> (rest = [] \<or> hd rest \<in> set ''/?#'') \<and>
       parse_authority authority = Some host \<and> (\<exists>a \<in> set allowed. names_host a host))"

definition safe_url :: "string list \<Rightarrow> string \<Rightarrow> bool" where
  "safe_url allowed s \<longleftrightarrow> s = '''' \<or> url_on allowed s"

lemma sanitized_url_is_safe:
  assumes "'''' \<notin> set allowed"
  shows "safe_url allowed (sanitizeURL raw allowed)"
proof (cases "sanitizeURL raw allowed = ''''")
  case False
  then obtain host where host: "url_parse raw = Some (''https'', host)" "hostAllowed host allowed" "length raw \<le> 2048"
    by (auto simp: sanitizeURL_def maxURLLen_def split: if_splits option.splits)
  have "host \<noteq> ''''" using hostAllowed_nonempty [OF host(2) assms] .
  obtain s a rest where "raw = s @ ''://'' @ a @ rest" "to_lower s = ''https''" "set a \<inter> set ''/?#'' = {}"
    "rest = [] \<or> hd rest \<in> set ''/?#''" "parse_authority a = Some host"
    by (rule url_parse_host [OF host(1) _ \<open>host \<noteq> []\<close>]) simp_all
  then have "url_on allowed raw" using hostAllowed_names [OF host(2)] host(3) unfolding url_on_def by blast
  then show ?thesis using sanitizeURL_cases [of raw allowed] by (auto simp: safe_url_def)
qed (simp add: safe_url_def)

text \<open>The host of a plain authority, without escapes and brackets: what follows the user, without the port.\<close>

lemma unescape_plain: "CHR ''%'' \<notin> set h \<Longrightarrow> unescape_host h = (if list_all host_char h then Some h else None)"
  by (induction h) auto

lemma parse_authority_plain:
  assumes "parse_authority a = Some host" "CHR ''%'' \<notin> set a" "CHR ''['' \<notin> set a"
  shows "host = strip_port (after_last (CHR ''@'') a)"
proof -
  have sub: "set (after_last (CHR ''@'') a) \<subseteq> set a"
    by (auto simp: after_last_def before_def dest!: set_takeWhileD)
  then have "\<not> (after_last (CHR ''@'') a \<noteq> [] \<and> hd (after_last (CHR ''@'') a) = CHR ''['')"
    using assms(3) by (metis hd_in_set subsetD)
  moreover have "CHR ''%'' \<notin> set (after_last (CHR ''@'') a)" using sub assms(2) by blast
  ultimately show ?thesis using assms(1)
    by (auto simp: parse_authority_def parse_host_def unescape_plain split: if_splits)
qed

text \<open>The allow list has a gap: the host yit.co.il is also recognised when its i is the dotted capital I of Turkish,
  which is another name on the internet: Go lowers it to an ASCII i, a browser does not.\<close>

lemma dotted_I_host_accepted:
  "sanitizeURL ''https://y%C4%B0t.co.il/a.jpg'' allowedImageHosts = ''https://y%C4%B0t.co.il/a.jpg''"
  by code_simp

subsection \<open>Listings and tokens\<close>

record ingest_listing =
  il_Token :: string
  il_Manufacturer :: string
  il_ManufacturerID :: int
  il_Model :: string
  il_ModelID :: int
  il_SubModel :: string
  il_SubModelID :: int
  il_BodyType :: string
  il_Year :: int
  il_Price :: int
  il_Km :: int
  il_Hand :: int
  il_City :: string
  il_Area :: string
  il_ImageURL :: string
  il_PageLink :: string
  il_EngineVolume :: real
  il_EngineType :: string
  il_GearBox :: string
  il_Description :: string
  il_IsCommercial :: "bool option"
  il_CreatedAt :: string

definition token_char :: "char \<Rightarrow> bool" where
  "token_char c \<longleftrightarrow> is_letter c \<or> is_digit c \<or> c = CHR ''_'' \<or> c = CHR ''-''"

definition validIngestToken :: "string \<Rightarrow> bool" where
  "validIngestToken tok \<longleftrightarrow> list_all token_char tok \<and> 1 \<le> length tok \<and> length tok \<le> 64"

text \<open>None: the listing is dropped.\<close>

definition sanitizeIngestListing :: "ingest_listing \<Rightarrow> ingest_listing option" where
  "sanitizeIngestListing l =
    (let l = l\<lparr>il_Token := trim_space (il_Token l)\<rparr> in
     if \<not> validIngestToken (il_Token l) then None
     else Some (l\<lparr>il_PageLink := sanitizeURL (il_PageLink l) allowedListingHosts,
       il_ImageURL := sanitizeURL (il_ImageURL l) allowedImageHosts,
       il_Manufacturer := sanitizeText (il_Manufacturer l) maxNameFieldLen,
       il_Model := sanitizeText (il_Model l) maxNameFieldLen,
       il_SubModel := sanitizeText (il_SubModel l) maxNameFieldLen,
       il_BodyType := sanitizeText (il_BodyType l) maxNameFieldLen,
       il_City := sanitizeText (il_City l) maxNameFieldLen,
       il_Area := sanitizeText (il_Area l) maxNameFieldLen,
       il_EngineType := sanitizeText (il_EngineType l) maxNameFieldLen,
       il_GearBox := sanitizeText (il_GearBox l) maxNameFieldLen,
       il_Description := sanitizeText (il_Description l) maxDescriptionLen\<rparr>))"

fun sanitizeRemovedTokens :: "string list \<Rightarrow> string list" where
  "sanitizeRemovedTokens [] = []"
| "sanitizeRemovedTokens (t # ts) =
    (let t = trim_space t in if validIngestToken t then t # sanitizeRemovedTokens ts else sanitizeRemovedTokens ts)"

lemma sanitizeRemovedTokens_valid: "t \<in> set (sanitizeRemovedTokens ts) \<Longrightarrow> validIngestToken t"
  by (induction ts) (auto simp: Let_def split: if_splits)

lemma sanitizeRemovedTokens_named: "t \<in> set (sanitizeRemovedTokens ts) \<Longrightarrow> t \<in> trim_space ` set ts"
  by (induction ts) (auto simp: Let_def split: if_splits)

lemma sanitizeRemovedTokens_length: "length (sanitizeRemovedTokens ts) \<le> length ts"
  by (induction ts) (auto simp: Let_def)

text \<open>A token survives the trimming and the validation unchanged.\<close>

lemma token_char_not_space: "token_char c \<Longrightarrow> \<not> is_space c"
  by (auto simp: token_char_def is_letter_def is_digit_def between_def is_space_def Let_def)

lemma dropWhile_id: "(\<And>x. x \<in> set xs \<Longrightarrow> \<not> P x) \<Longrightarrow> dropWhile P xs = xs"
  by (cases xs) auto

lemma trim_space_token: "validIngestToken t \<Longrightarrow> trim_space t = t"
proof -
  assume "validIngestToken t"
  then have "\<not> is_space c" if "c \<in> set t" for c
    using that token_char_not_space by (auto simp: validIngestToken_def list_all_iff)
  then have "dropWhile is_space t = t" "dropWhile is_space (rev t) = rev t" by (auto intro!: dropWhile_id)
  then show ?thesis by (simp add: trim_space_def)
qed

definition text_ok :: "nat \<Rightarrow> string \<Rightarrow> bool" where
  "text_ok n s \<longleftrightarrow> valid_utf8 s \<and> RuneCountInString s \<le> n \<and> list_all clean_char s"

text \<open>What a safe listing is, said without the code: the characters, the lengths and the hosts are written out.\<close>

definition token_ok :: "string \<Rightarrow> bool" where
  "token_ok t \<longleftrightarrow> 1 \<le> length t \<and> length t \<le> 64 \<and>
     (\<forall>c \<in> set t. c \<in> set ''ABCDEFGHIJKLMNOPQRSTUVWXYZabcdefghijklmnopqrstuvwxyz0123456789_-'')"

definition safe_ingest :: "ingest_listing \<Rightarrow> bool" where
  "safe_ingest l \<longleftrightarrow> token_ok (il_Token l) \<and>
     safe_url [''yad2.co.il''] (il_PageLink l) \<and> safe_url [''yad2.co.il'', ''yit.co.il''] (il_ImageURL l) \<and>
     list_all (text_ok 200) [il_Manufacturer l, il_Model l, il_SubModel l, il_BodyType l, il_City l, il_Area l, il_EngineType l, il_GearBox l] \<and>
     text_ok 4000 (il_Description l)"

lemma token_char_listed: "token_char c \<Longrightarrow> c \<in> set ''ABCDEFGHIJKLMNOPQRSTUVWXYZabcdefghijklmnopqrstuvwxyz0123456789_-''"
proof -
  have listed: "list_all (\<lambda>n :: nat. (char_of n :: char) \<in> set ''ABCDEFGHIJKLMNOPQRSTUVWXYZabcdefghijklmnopqrstuvwxyz0123456789_-'')
      ([48..<58] @ [65..<91] @ [97..<123])" by code_simp
  assume "token_char c"
  then consider "(of_char c :: nat) \<in> {48..<58} \<union> ({65..<91} \<union> {97..<123})" | "c = CHR ''_''" | "c = CHR ''-''"
    by (auto simp: token_char_def is_letter_def is_digit_def between_def)
  then show ?thesis
  proof cases
    case 1
    then show ?thesis using listed unfolding list_all_iff set_append set_upt by (metis char_of_char)
  qed simp_all
qed

lemma valid_token_ok: "validIngestToken t \<Longrightarrow> token_ok t"
  using token_char_listed by (auto simp: validIngestToken_def token_ok_def list_all_iff)


definition zero_ingest :: ingest_listing where
  "zero_ingest = \<lparr>il_Token = '''', il_Manufacturer = '''', il_ManufacturerID = 0, il_Model = '''', il_ModelID = 0, il_SubModel = '''',
     il_SubModelID = 0, il_BodyType = '''', il_Year = 0, il_Price = 0, il_Km = 0, il_Hand = 0, il_City = '''', il_Area = '''',
     il_ImageURL = '''', il_PageLink = '''', il_EngineVolume = 0, il_EngineType = '''', il_GearBox = '''', il_Description = '''',
     il_IsCommercial = None, il_CreatedAt = ''''\<rparr>"

definition pushed_listing :: ingest_listing where
  "pushed_listing = zero_ingest\<lparr>il_Token := '' ab-1'', il_PageLink := ''https://yad2.co.il@evil.com/x'', il_City := [CHR 9, CHR 0x07, CHR 0xD7, CHR 0x90]\<rparr>"


end
