(* ===== verification/Ingest.thy ===== *)
theory Ingest
  imports FlexTime IngestValidation ListingFilter Pipeline Delivery RemovalBudget
begin

section \<open>The ingest endpoint (internal/api/listings.go, ingest_delivery.go)\<close>

text \<open>
  The browser extension pushes the listings of a user's feeds: the handler filters them for each of the user's
  searches, scores and stores them, alerts the user about the new ones, and retires the listings the extension
  reports as gone. The identity of the user and the decoded body are arguments, so are the parsers of the time
  package (\<open>time_parse local layout value\<close>). The tables and the outside world are those of the scheduler; the
  server adds the removal budget and the table of the extension's scan reports.
\<close>

subsection \<open>State and messages\<close>

record ext_scan_status =
  es_StartedAt :: gotime
  es_NextRunAt :: gotime
  es_IntervalSec :: int
  es_Searches :: int
  es_ListingsFetched :: int
  es_ListingsMatched :: int
  es_Notifications :: int

record api_state =
  as_world :: world
  as_budget :: removal_budget
  as_ext :: "(int \<times> ext_scan_status) list"

text \<open>The fields of \<open>Server\<close> the handler reads; the stores both processes use are those of the scheduler's record.\<close>

record server_config =
  sv_cfg :: sched_config
  sv_Dedup :: bool
  sv_ExtStatus :: bool
  sv_enricher :: "inline_enricher option"

record ingest_cycle =
  ic_StartedAt :: string
  ic_NextRunAt :: string
  ic_IntervalSec :: int

record ingest_request =
  iq_Listings :: "ingest_listing list"
  iq_RemovedTokens :: "string list"
  iq_Cycle :: "ingest_cycle option"

record ingest_response =
  ir_Processed :: int
  ir_NewMatches :: int
  ir_Removed :: int

datatype ingest_reply = BadRequest | ServerError | IngestOK ingest_response

definition minExtScanIntervalSec :: int where "minExtScanIntervalSec = 60"
definition maxExtScanIntervalSec :: int where "maxExtScanIntervalSec = 24 * 3600"
definition defaultExtScanIntervalSec :: int where "defaultExtScanIntervalSec = 900"
definition maxRemovedTokensPerIngest :: nat where "maxRemovedTokensPerIngest = 100"

subsection \<open>What is accepted\<close>

definition ingest_raw :: "time_parser \<Rightarrow> ingest_listing \<Rightarrow> raw_listing" where
  "ingest_raw tp l = zero_raw_listing\<lparr>rl_Token := il_Token l, rl_Manufacturer := il_Manufacturer l,
     rl_ManufacturerID := il_ManufacturerID l, rl_Model := il_Model l, rl_ModelID := il_ModelID l,
     rl_SubModel := il_SubModel l, rl_SubModelID := il_SubModelID l, rl_BodyType := il_BodyType l, rl_Year := il_Year l,
     rl_Price := il_Price l, rl_Km := il_Km l, rl_Hand := il_Hand l, rl_City := il_City l, rl_Area := il_Area l,
     rl_ImageURL := il_ImageURL l, rl_PageLink := il_PageLink l, rl_EngineVolume := il_EngineVolume l,
     rl_EngineType := il_EngineType l, rl_GearBox := il_GearBox l, rl_Description := il_Description l,
     rl_Commercial := il_IsCommercial l, rl_CreatedAt := ParseFlexTime tp (il_CreatedAt l)\<rparr>"

text \<open>The first loop of the handler: the listings that can be stored, in order.\<close>

fun accept_listings :: "time_parser \<Rightarrow> ingest_listing list \<Rightarrow> raw_listing list" where
  "accept_listings tp [] = []"
| "accept_listings tp (l # ls) =
    (case sanitizeIngestListing l of None \<Rightarrow> accept_listings tp ls | Some l' \<Rightarrow> ingest_raw tp l' # accept_listings tp ls)"

subsection \<open>Delivery (internal/api/ingest_delivery.go)\<close>

definition api_userLang :: "sched_config \<Rightarrow> int \<Rightarrow> world \<Rightarrow> string \<times> world" where
  "api_userLang cfg chatID w =
    (if \<not> sc_Users cfg then (''he'', w)
     else case GetUser chatID w of
       (Inr (Some u), w) \<Rightarrow> (if u_Language u \<noteq> '''' then u_Language u else ''he'', w)
     | (_, w) \<Rightarrow> (''he'', w))"

text \<open>None: there is no transport to deliver with.\<close>

definition ingestDeliveryFor :: "sched_config \<Rightarrow> search \<Rightarrow> world \<Rightarrow> delivery option \<times> world" where
  "ingestDeliveryFor cfg sr w =
    (case api_userLang cfg (s_ChatID sr) w of (lang, w) \<Rightarrow>
     case (if sc_Digests cfg then GetDigestMode (s_ChatID sr) w else (Inr ('''', ''''), w)) of (mode, w) \<Rightarrow>
       if (case mode of Inr (m, _) \<Rightarrow> sc_Digests cfg \<and> m = ''digest'' | Inl _ \<Rightarrow> False) then (Some (Digest lang), w)
       else if \<not> sc_Publisher cfg then (None, w)
       else (Some (Instant (s_ID sr) (s_Name sr) lang True), w))"

fun claim_listings :: "gotime \<Rightarrow> search \<Rightarrow> listing list \<Rightarrow> world \<Rightarrow> listing list \<times> world" where
  "claim_listings now sr [] w = ([], w)"
| "claim_listings now sr (l # ls) w =
    (case ClaimNew now (rl_Token l, s_ChatID sr, s_ID sr) w of (r, w) \<Rightarrow>
     case claim_listings now sr ls w of (news, w) \<Rightarrow> (if r = Inr True then l # news else news, w))"

fun release_listings :: "search \<Rightarrow> listing list \<Rightarrow> world \<Rightarrow> world" where
  "release_listings sr [] w = w"
| "release_listings sr (l # ls) w = release_listings sr ls (snd (ReleaseClaim (rl_Token l, s_ChatID sr, s_ID sr) w))"

definition claimAndDeliver :: "renderer \<Rightarrow> gotime \<Rightarrow> search \<Rightarrow> listing list \<Rightarrow> delivery \<Rightarrow> world \<Rightarrow> nat \<times> world" where
  "claimAndDeliver render now sr listings delivery w =
    (case claim_listings now sr listings w of (newOnes, w) \<Rightarrow>
       if newOnes = [] then (0, w)
       else case DeliverBatch render now delivery (s_ChatID sr) newOnes w of
         (Some MalformedMessage, w) \<Rightarrow> (0, w)
       | (Some RecipientBlocked, w) \<Rightarrow> (0, w)
       | (Some (DeliveryFailed _), w) \<Rightarrow> (0, release_listings sr newOnes w)
       | (None, w) \<Rightarrow> (length newOnes, w))"

definition deliverIngestMatches :: "server_config \<Rightarrow> renderer \<Rightarrow> gotime \<Rightarrow> search \<Rightarrow> listing list \<Rightarrow> world \<Rightarrow> nat \<times> world" where
  "deliverIngestMatches sv render now sr listings w =
    (if \<not> sv_Dedup sv \<or> listings = [] then (0, w)
     else case ingestDeliveryFor (sv_cfg sv) sr w of
       (None, w) \<Rightarrow> (0, w)
     | (Some delivery, w) \<Rightarrow> claimAndDeliver render now sr listings delivery w)"

subsection \<open>The searches of the user\<close>

record ingest_counts =
  in_saved :: int
  in_active :: int
  in_notified :: int

text \<open>The body of the loop over the searches.\<close>

definition ingest_search :: "server_config \<Rightarrow> renderer \<Rightarrow> (int \<Rightarrow> int \<Rightarrow> int) \<Rightarrow> gotime \<Rightarrow> int \<Rightarrow> raw_listing list \<Rightarrow> search \<Rightarrow>
    ingest_counts \<Rightarrow> world \<Rightarrow> ingest_counts \<times> world" where
  "ingest_search sv render page now chatID raw sr n w =
    (if \<not> s_Active sr \<or> (s_Manufacturer sr = 0 \<and> s_Model sr = 0) then (n, w)
     else
       let n = n\<lparr>in_active := in_active n + 1\<rparr>; filtered = Apply (FilterCriteriaFromSearch sr) raw
       in if filtered = [] then (n, w)
          else
            let params = (ProcessParamsFromSearch sr None)\<lparr>pp_ChatID := chatID\<rparr>
            in case Process (sv_cfg sv) (sv_enricher sv) page now filtered params w of ((listings, records), w) \<Rightarrow>
                 if records = [] then (n, w)
                 else case SaveListings now records w of
                   (Inl _, w) \<Rightarrow> (n, w)
                 | (Inr _, w) \<Rightarrow>
                     (case deliverIngestMatches sv render now sr listings w of (m, w) \<Rightarrow>
                        (n\<lparr>in_saved := in_saved n + int (length records), in_notified := in_notified n + int m\<rparr>, w)))"

fun ingest_searches :: "server_config \<Rightarrow> renderer \<Rightarrow> (int \<Rightarrow> int \<Rightarrow> int) \<Rightarrow> gotime \<Rightarrow> int \<Rightarrow> raw_listing list \<Rightarrow> search list \<Rightarrow>
    ingest_counts \<Rightarrow> world \<Rightarrow> ingest_counts \<times> world" where
  "ingest_searches sv render page now chatID raw [] n w = (n, w)"
| "ingest_searches sv render page now chatID raw (sr # srs) n w =
    (case ingest_search sv render page now chatID raw sr n w of (n, w) \<Rightarrow> ingest_searches sv render page now chatID raw srs n w)"

subsection \<open>Removals\<close>

definition ingest_removals :: "gotime \<Rightarrow> int \<Rightarrow> string list \<Rightarrow> api_state \<Rightarrow> int \<times> api_state" where
  "ingest_removals now chatID removed a =
    (if removed = [] then (0, a)
     else
       let tokens = sanitizeRemovedTokens removed;
           tokens = (if length tokens > maxRemovedTokensPerIngest then take maxRemovedTokensPerIngest tokens else tokens)
       in case take_removals now chatID (int (length tokens)) (as_budget a) of ((allowed, capped), budget) \<Rightarrow>
            (let a = a\<lparr>as_budget := budget\<rparr>; tokens = take (nat allowed) tokens
             in if tokens = [] then (0, a)
                else case MarkListingsRemoved now chatID tokens (as_world a) of
                  (Inl _, w) \<Rightarrow> (0, a\<lparr>as_world := w\<rparr>)
                | (Inr n, w) \<Rightarrow> (int n, a\<lparr>as_world := w\<rparr>)))"

subsection \<open>The scan report (internal/storage/postgres/ext_scan_status.go)\<close>

definition UpsertExtScanStatus :: "int \<Rightarrow> ext_scan_status \<Rightarrow> api_state \<Rightarrow> api_state" where
  "UpsertExtScanStatus chatID st a =
    (case next_fault (as_world a) of (fault, w) \<Rightarrow>
       let a = a\<lparr>as_world := w\<rparr> in
       if fault then a
       else case map_of (as_ext a) chatID of
         None \<Rightarrow> a\<lparr>as_ext := AList.update chatID st (as_ext a)\<rparr>
       | Some old \<Rightarrow>
           (let add = (\<lambda>f. if es_StartedAt old = es_StartedAt st then f old + f st else f st)
            in a\<lparr>as_ext := AList.update chatID
                 (st\<lparr>es_ListingsFetched := add es_ListingsFetched, es_ListingsMatched := add es_ListingsMatched,
                   es_Notifications := add es_Notifications\<rparr>) (as_ext a)\<rparr>))"

definition recordExtScanStatus :: "server_config \<Rightarrow> time_parser \<Rightarrow> gotime \<Rightarrow> int \<Rightarrow> ingest_cycle option \<Rightarrow> ext_scan_status \<Rightarrow> api_state \<Rightarrow> api_state" where
  "recordExtScanStatus sv tp now chatID c st a =
    (case c of
       None \<Rightarrow> a
     | Some c \<Rightarrow>
         if \<not> sv_ExtStatus sv then a
         else case tp False RFC3339 (ic_NextRunAt c) of
           None \<Rightarrow> a
         | Some nextRun \<Rightarrow>
             if nextRun > now + maxExtScanIntervalSec * nanos_per_second then a
             else
               let started = (case tp False RFC3339 (ic_StartedAt c) of Some t \<Rightarrow> t | None \<Rightarrow> now);
                   interval = (if ic_IntervalSec c < minExtScanIntervalSec \<or> ic_IntervalSec c > maxExtScanIntervalSec
                               then defaultExtScanIntervalSec else ic_IntervalSec c)
               in UpsertExtScanStatus chatID (st\<lparr>es_StartedAt := started, es_NextRunAt := nextRun, es_IntervalSec := interval\<rparr>) a)"

subsection \<open>The handler\<close>

definition ingestListings :: "server_config \<Rightarrow> renderer \<Rightarrow> (int \<Rightarrow> int \<Rightarrow> int) \<Rightarrow> time_parser \<Rightarrow> gotime \<Rightarrow> int \<Rightarrow> ingest_request \<Rightarrow>
    api_state \<Rightarrow> ingest_reply \<times> api_state" where
  "ingestListings sv render page tp now chatID req a =
    (if iq_Listings req = [] \<and> iq_RemovedTokens req = [] \<and> iq_Cycle req = None
     then (IngestOK \<lparr>ir_Processed = 0, ir_NewMatches = 0, ir_Removed = 0\<rparr>, a)
     else if length (iq_Listings req) > 500 then (BadRequest, a)
     else
       let raw = accept_listings tp (iq_Listings req) in
       case ListSearches chatID (as_world a) of
         (Inl _, w) \<Rightarrow> (ServerError, a\<lparr>as_world := w\<rparr>)
       | (Inr searches, w) \<Rightarrow>
           (case ingest_searches sv render page now chatID raw searches \<lparr>in_saved = 0, in_active = 0, in_notified = 0\<rparr> w of (n, w) \<Rightarrow>
            case ingest_removals now chatID (iq_RemovedTokens req) (a\<lparr>as_world := w\<rparr>) of (removed, a) \<Rightarrow>
              (IngestOK \<lparr>ir_Processed = int (length raw), ir_NewMatches = in_saved n, ir_Removed = removed\<rparr>,
               recordExtScanStatus sv tp now chatID (iq_Cycle req)
                 \<lparr>es_StartedAt = 0, es_NextRunAt = 0, es_IntervalSec = 0, es_Searches = in_active n,
                  es_ListingsFetched = int (length raw), es_ListingsMatched = in_saved n, es_Notifications = in_notified n\<rparr> a)))"

subsection \<open>Lemmas: what each step leaves alone\<close>

lemma claims_history [simp]:
  "db_history (snd (ClaimNew now k d)) = db_history d" "db_history (snd (ReleaseClaim k d)) = db_history d"
  unfolding ClaimNew_def ReleaseClaim_def
  by (rule db_call_frame; simp add: claim_stmt_def release_stmt_def split: option.split)+

lemma reads_history [simp]:
  "db_history (snd (GetUser c d)) = db_history d" "db_history (snd (GetDigestMode c d)) = db_history d"
  "db_history (snd (ListSearches c d)) = db_history d" "db_history (snd (AddDigestItem now c p ts d)) = db_history d"
  "db_history (snd (GetPriceListEntry m y d)) = db_history d" "db_history (snd (SetPriceListEntry now m y bp d)) = db_history d"
  "db_history (snd (LookupEnrichmentData ts d)) = db_history d"
  unfolding GetUser_def GetDigestMode_def ListSearches_def AddDigestItem_def GetPriceListEntry_def SetPriceListEntry_def LookupEnrichmentData_def
  by (auto intro!: db_call_frame)

lemma send_history [simp]: "db_history (snd (send out w)) = db_history w"
  by (simp add: send_def pop_outcome_def split: list.split option.split)

lemma DeliverBatch_history [simp]: "db_history (snd (DeliverBatch render now delivery c ls w)) = db_history w"
proof -
  have "db_history (snd (store_error (r, w))) = db_history w" for r and w :: world
    by (simp add: store_error_def split: sum.split)
  then have "db_history (snd (store_error r)) = db_history (snd r)" for r :: "(db_error + unit) \<times> world"
    by (metis prod.collapse snd_conv)
  then show ?thesis by (cases delivery) (simp_all add: instant_batch_def digest_batch_def Let_def)
qed

lemma claim_listings_history [simp]: "db_history (snd (claim_listings now sr ls w)) = db_history w"
  by (induction ls arbitrary: w) (simp_all add: split_beta)

lemma release_listings_history [simp]: "db_history (release_listings sr ls w) = db_history w"
  by (induction ls arbitrary: w) simp_all

lemma api_userLang_history [simp]: "db_history (snd (api_userLang cfg c w)) = db_history w"
  using reads_history(1) [of c w]
  by (cases "GetUser c w"; cases "fst (GetUser c w)") (auto simp: api_userLang_def split: option.split)

lemma ingestDeliveryFor_history [simp]: "db_history (snd (ingestDeliveryFor cfg sr w)) = db_history w"
  by (simp add: ingestDeliveryFor_def split_beta)

lemma claimAndDeliver_history [simp]: "db_history (snd (claimAndDeliver render now sr ls delivery w)) = db_history w"
proof -
  obtain news w1 where c: "claim_listings now sr ls w = (news, w1)" by (metis prod.exhaust)
  obtain r w2 where d: "DeliverBatch render now delivery (s_ChatID sr) news w1 = (r, w2)" by (metis prod.exhaust)
  have "db_history w1 = db_history w" "db_history w2 = db_history w1"
    using claim_listings_history [of now sr ls w] DeliverBatch_history [of render now delivery "s_ChatID sr" news w1] c d by simp_all
  then show ?thesis by (simp add: claimAndDeliver_def c d split: option.split delivery_error.split)
qed

lemma deliverIngestMatches_history [simp]: "db_history (snd (deliverIngestMatches sv render now sr ls w)) = db_history w"
proof -
  obtain o1 w1 where d: "ingestDeliveryFor (sv_cfg sv) sr w = (o1, w1)" by (metis prod.exhaust)
  then have "db_history w1 = db_history w" using ingestDeliveryFor_history [of "sv_cfg sv" sr w] by simp
  then show ?thesis by (simp add: deliverIngestMatches_def d split: option.split)
qed

lemma pl_Lookup_history [simp]: "db_history (snd (pl_Lookup page now m y w)) = db_history w"
proof -
  obtain r w1 where g: "GetPriceListEntry m y w = (r, w1)" by (metis prod.exhaust)
  then have "db_history w1 = db_history w" using reads_history(5) [of m y w] by simp
  then show ?thesis by (simp add: pl_Lookup_def g Let_def split: sum.split)
qed

lemma enrichWithBasePrice_history [simp]: "db_history (snd (enrichWithBasePrice cfg page now l w)) = db_history w"
  using pl_Lookup_history [of page now "rl_SubModelID l" "rl_Year l" w]
  by (simp add: enrichWithBasePrice_def split_beta)

subsection \<open>Links and images stay safe\<close>

definition links_ok :: "string \<Rightarrow> string \<Rightarrow> bool" where
  "links_ok link img \<longleftrightarrow> safe_url allowedListingHosts link \<and> safe_url allowedImageHosts img"

definition raw_safe :: "'a raw_listing_scheme \<Rightarrow> bool" where
  "raw_safe l \<longleftrightarrow> links_ok (rl_PageLink l) (rl_ImageURL l)"

definition row_safe :: "'a listing_record_scheme \<Rightarrow> bool" where
  "row_safe h \<longleftrightarrow> links_ok (lr_PageLink h) (lr_ImageURL h)"

definition history_safe :: "'z db_scheme \<Rightarrow> bool" where
  "history_safe d \<longleftrightarrow> (\<forall>(k, h) \<in> set (db_history d). row_safe h)"

lemma history_safe_cong: "db_history d' = db_history d \<Longrightarrow> history_safe d' = history_safe d"
  by (simp add: history_safe_def)

lemma set_AList_update: "x \<in> set (AList.update k v al) \<Longrightarrow> x = (k, v) \<or> x \<in> set al"
  by (induction al) (auto split: if_splits)

lemma safe_empty [simp]: "safe_url hosts ''''"
  by (simp add: safe_url_def)

lemma safe_upsert:
  assumes "\<forall>(k, h) \<in> set hs. row_safe h" "row_safe r"
  shows "\<forall>(k, h) \<in> set (upsert_listing now r hs). row_safe h"
proof -
  have "row_safe (new_row now r)" using assms(2)
    by (simp add: row_safe_def new_row_def listing_record.defs)
  moreover have "row_safe (merge_row now r h)" if "row_safe h" for h
    using assms(2) that by (simp add: row_safe_def links_ok_def merge_row_def text_or_def)
  ultimately show ?thesis using assms(1)
    by (auto simp: upsert_listing_def Let_def dest!: set_AList_update map_of_SomeD split: option.splits)
qed

lemma safe_SaveListings:
  assumes "history_safe d" "\<forall>r \<in> set rs. row_safe r"
  shows "history_safe (snd (SaveListings now rs d))"
proof (cases "rs = []")
  case False
  have fold: "\<forall>(k, h) \<in> set (fold (upsert_listing now) rs hs). row_safe h" if "\<forall>(k, h) \<in> set hs. row_safe h" for hs
    using assms(2) that
  proof (induction rs arbitrary: hs)
    case (Cons r rs)
    have "row_safe r" "\<forall>r \<in> set rs. row_safe r" using Cons.prems(1) by simp_all
    from Cons.IH [OF this(2) safe_upsert [OF Cons.prems(2) this(1)]] show ?case by simp
  qed simp
  then show ?thesis using assms(1) unfolding SaveListings_def if_not_P [OF False]
    by (rule_tac db_call_cases [of "DbError ''save listings''" "\<lambda>d. (Inr (), d\<lparr>db_history := fold (upsert_listing now) rs (db_history d)\<rparr>)" d])
      (simp_all add: history_safe_def)
qed (use assms(1) in \<open>simp add: SaveListings_def\<close>)

lemma safe_BackfillListings:
  assumes "history_safe d" "\<forall>r \<in> set rs. row_safe r"
  shows "history_safe (snd (BackfillListings rs d))"
proof (cases "rs = []")
  case False
  let ?f = "\<lambda>r. update_token (lr_Token r) (backfill_row r)"
  have row: "row_safe (backfill_row r h)" if "row_safe r" "row_safe h" for r and h :: history_row
    using that by (simp add: row_safe_def links_ok_def backfill_row_def)
  have fold: "\<forall>(k, h) \<in> set (fold ?f rs hs). row_safe h" if "\<forall>(k, h) \<in> set hs. row_safe h" for hs
    using assms(2) that
  proof (induction rs arbitrary: hs)
    case (Cons r rs)
    have "\<forall>(k, h) \<in> set (?f r hs). row_safe h" using Cons.prems row by (auto simp: update_token_def)
    then show ?case using Cons by simp
  qed simp
  then show ?thesis using assms(1) unfolding BackfillListings_def if_not_P [OF False]
    by (rule_tac db_call_cases [of "DbError ''backfill''" "\<lambda>d. (Inr (), d\<lparr>db_history := fold ?f rs (db_history d)\<rparr>)" d])
      (simp_all add: history_safe_def)
qed (use assms(1) in \<open>simp add: BackfillListings_def\<close>)

lemma safe_prefill:
  assumes "history_safe w" "\<forall>l \<in> set ls. raw_safe l" "pipeline_prefill cfg ls w = (ls', w')"
  shows "history_safe w' \<and> (\<forall>l \<in> set ls'. raw_safe l)"
proof -
  have hist: "history_safe w'"
    using assms(1,3) history_safe_cong [OF reads_history(7) [of "map rl_Token (filter unenriched ls)" w]]
    by (auto simp: pipeline_prefill_def Let_def split: if_splits prod.splits sum.splits)
  show ?thesis
  proof (cases "ls' = ls")
    case True
    then show ?thesis using hist assms(2) by simp
  next
    case False
    let ?toks = "map rl_Token (filter unenriched ls)"
    obtain data where look: "LookupEnrichmentData ?toks w = (Inr data, w')" and ls': "ls' = map (prefill_one data) ls"
      using assms(3) False by (auto simp: pipeline_prefill_def Let_def split: if_splits prod.splits sum.splits)
    have data: "safe_url allowedImageHosts (er_ImageURL rec)" if "data tok = Some rec" for tok rec
    proof -
      have ne: "?toks \<noteq> []" using look that by (auto simp: LookupEnrichmentData_def)
      show ?thesis using look that unfolding LookupEnrichmentData_def if_not_P [OF ne]
        using assms(1) by (elim db_call_Inr)
          (fastforce simp: history_safe_def row_safe_def links_ok_def enrichment_of_def split: if_splits dest!: newest_row_mem)
    qed
    have "raw_safe (prefill_one data l)" if "raw_safe l" for l
      using that data [of "rl_Token l"] by (auto simp: prefill_one_def raw_safe_def links_ok_def split: option.split)
    then show ?thesis using hist assms(2) ls' by auto
  qed
qed

text \<open>The inline enricher reads the images from the source's own pages: it is taken to keep safe listings safe.\<close>

definition enricher_safe :: "inline_enricher option \<Rightarrow> bool" where
  "enricher_safe e \<longleftrightarrow> (\<forall>f ls. e = Some f \<longrightarrow> (\<forall>l \<in> set ls. raw_safe l) \<longrightarrow> (\<forall>l \<in> set (snd (f ls)). raw_safe l))"

lemma safe_inlineEnrich:
  assumes "history_safe w" "\<forall>l \<in> set ls. raw_safe l" "enricher_safe (Some f)" "inlineEnrich cfg f ls w = (ls', w')"
  shows "history_safe w' \<and> (\<forall>l \<in> set ls'. raw_safe l)"
proof -
  obtain n es where f: "f ls = (n, es)" by (metis prod.exhaust)
  have es: "\<forall>l \<in> set es. raw_safe l" using assms(2,3) f unfolding enricher_safe_def by (metis snd_conv)
  have bf: "row_safe (backfill_record l)" if "raw_safe l" for l
    using that by (simp add: row_safe_def raw_safe_def links_ok_def backfill_record_def zero_record_def)
  have "\<forall>r \<in> set (map (backfill_record \<circ> snd) (filter (\<lambda>(b, l). enriched_fields l \<noteq> b) (zip (map enriched_fields ls) es))). row_safe r"
    using es bf by (auto dest!: set_zip_rightD)
  from safe_BackfillListings [OF assms(1) this] show ?thesis using assms(1,2,4) es
    by (auto simp: inlineEnrich_def f Let_def split: if_splits)
qed

lemma enrichWithBasePrice_links:
  "enrichWithBasePrice cfg page now l w = (l', w') \<Longrightarrow>
    rl_PageLink l' = rl_PageLink l \<and> rl_ImageURL l' = rl_ImageURL l \<and> rl_Token l' = rl_Token l \<and> rl_Km l' = rl_Km l"
  by (auto simp: enrichWithBasePrice_def split: if_splits prod.splits)

lemma listing_of_raw_fields [simp]:
  "rl_PageLink (listing_of_raw l n) = rl_PageLink l" "rl_ImageURL (listing_of_raw l n) = rl_ImageURL l"
  "rl_Token (listing_of_raw l n) = rl_Token l" "rl_Km (listing_of_raw l n) = rl_Km l"
  by (simp_all add: listing_of_raw_def raw_listing.defs)

text \<open>Scoring keeps the identity, the mileage and the links of a listing, and of the tables only prices change.\<close>

lemma scoreAndEnrich_links:
  assumes "scoreAndEnrich cfg page now l params w = (x, w')"
  shows "rl_PageLink x = rl_PageLink l \<and> rl_ImageURL x = rl_ImageURL l \<and> rl_Token x = rl_Token l \<and> rl_Km x = rl_Km l \<and>
    db_history w' = db_history w"
proof -
  obtain b w1 where e: "enrichWithBasePrice cfg page now (listing_of_raw l (pp_SearchName params)) w = (b, w1)" by (metis prod.exhaust)
  have h: "db_history w1 = db_history w"
    using enrichWithBasePrice_history [of cfg page now "listing_of_raw l (pp_SearchName params)" w] e by simp
  obtain mp mk co ok where m: "market_lookup params l = (mp, mk, co, ok)" by (metis prod.exhaust)
  show ?thesis using assms enrichWithBasePrice_links [OF e] h
    by (cases ok) (auto simp: scoreAndEnrich_def m e Let_def)
qed

lemma score_all_links:
  assumes "score_all cfg page now params ls w = (xs, w')"
  shows "map rl_Token xs = map rl_Token ls \<and> map rl_Km xs = map rl_Km ls \<and> map (\<lambda>l. (rl_PageLink l, rl_ImageURL l)) xs = map (\<lambda>l. (rl_PageLink l, rl_ImageURL l)) ls \<and>
    db_history w' = db_history w"
  using assms
proof (induction ls arbitrary: w xs)
  case (Cons l ls)
  obtain x w1 where s: "scoreAndEnrich cfg page now l params w = (x, w1)" by (metis prod.exhaust)
  obtain ys where r: "score_all cfg page now params ls w1 = (ys, w')" and xs: "xs = x # ys"
    using Cons.prems by (auto simp: s split: prod.splits)
  show ?case using xs Cons.IH [OF r] scoreAndEnrich_links [OF s] by simp
qed simp

lemma safe_Process:
  assumes "history_safe w" "\<forall>l \<in> set ls. raw_safe l" "enricher_safe e" "Process cfg e page now ls params w = ((xs, rs), w')"
  shows "history_safe w' \<and> (\<forall>r \<in> set rs. row_safe r)"
proof -
  define pre where "pre = (if \<not> pp_SkipPrefill params then pipeline_prefill cfg ls w else (ls, w))"
  obtain ls1 w1 where p: "pre = (ls1, w1)" by (metis prod.exhaust)
  have s1: "history_safe w1 \<and> (\<forall>l \<in> set ls1. raw_safe l)"
    using safe_prefill [OF assms(1,2)] assms(1,2) p by (auto simp: pre_def split: if_splits)
  define enr where "enr = (case e of Some f \<Rightarrow> inlineEnrich cfg f ls1 w1 | None \<Rightarrow> (ls1, w1))"
  obtain ls2 w2 where q: "enr = (ls2, w2)" by (metis prod.exhaust)
  have s2: "history_safe w2 \<and> (\<forall>l \<in> set ls2. raw_safe l)"
  proof (cases e)
    case None
    then show ?thesis using s1 q by (simp add: enr_def)
  next
    case (Some f)
    from s1 safe_inlineEnrich [where f = f and w = w1 and ls = ls1] assms(3) q show ?thesis
      by (simp add: Some enr_def)
  qed
  obtain ys w3 where r: "score_all cfg page now params ls2 w2 = (ys, w3)" by (metis prod.exhaust)
  have eq: "xs = ys" "w' = w3" "rs = map (\<lambda>l. buildRecord now l params) ys"
    using assms(4) by (auto simp: Process_def pre_def [symmetric] p enr_def [symmetric] q r)
  have m: "map (\<lambda>l. (rl_PageLink l, rl_ImageURL l)) ys = map (\<lambda>l. (rl_PageLink l, rl_ImageURL l)) ls2"
    using score_all_links [OF r] by blast
  have "(rl_PageLink y, rl_ImageURL y) \<in> set (map (\<lambda>l. (rl_PageLink l, rl_ImageURL l)) ls2)" if "y \<in> set ys" for y
    using that unfolding m [symmetric] by simp
  then have "\<forall>y \<in> set ys. raw_safe y" using s2 by (fastforce simp: raw_safe_def)
  then show ?thesis using s2 score_all_links [OF r] history_safe_cong [of w3 w2]
    by (auto simp: eq row_safe_def raw_safe_def buildRecord_def)
qed

lemma safe_ingest_search:
  assumes "history_safe w" "\<forall>l \<in> set raw. raw_safe l" "enricher_safe (sv_enricher sv)"
  shows "history_safe (snd (ingest_search sv render page now chatID raw sr n w))"
proof -
  let ?ls = "Apply (FilterCriteriaFromSearch sr) raw"
  let ?params = "(ProcessParamsFromSearch sr None)\<lparr>pp_ChatID := chatID\<rparr>"
  obtain xs rs w1 where p: "Process (sv_cfg sv) (sv_enricher sv) page now ?ls ?params w = ((xs, rs), w1)" by (metis prod.exhaust)
  have "\<forall>l \<in> set ?ls. raw_safe l" using assms(2) by (simp add: Apply_eq_filter)
  note s1 = safe_Process [OF assms(1) this assms(3) p]
  obtain r w2 where q: "SaveListings now rs w1 = (r, w2)" by (metis prod.exhaust)
  have s2: "history_safe w2" using safe_SaveListings [of w1 rs now] s1 q by simp
  have s3: "history_safe (snd (deliverIngestMatches sv render now sr xs w2))" using s2 by (simp add: history_safe_def)
  show ?thesis using assms(1) s1 s2 s3
    by (simp add: ingest_search_def Let_def p q split_beta split: sum.split)
qed

lemma safe_ingest_searches:
  assumes "\<forall>l \<in> set raw. raw_safe l" "enricher_safe (sv_enricher sv)"
  shows "history_safe w \<Longrightarrow> history_safe (snd (ingest_searches sv render page now chatID raw srs n w))"
proof (induction srs arbitrary: n w)
  case (Cons sr srs)
  obtain n1 w1 where s: "ingest_search sv render page now chatID raw sr n w = (n1, w1)" by (metis prod.exhaust)
  have "history_safe w1" using safe_ingest_search [OF Cons.prems assms, of render page now chatID sr n] s by simp
  from Cons.IH [OF this, of n1] show ?case by (simp add: s)
qed simp

lemma safe_MarkListingsRemoved:
  assumes "history_safe d"
  shows "history_safe (snd (MarkListingsRemoved now chatID toks d))"
proof (cases "toks = []")
  case False
  have "history_safe (snd (retire now sel d))" if "history_safe d" for sel and d :: "'a db_scheme"
    using that by (auto simp: retire_def delete_unsaved_def mark_removed_def Let_def history_safe_def row_safe_def split: if_splits)
  moreover have "history_safe (d\<lparr>db_faults := fs\<rparr>)" for fs using assms by (simp add: history_safe_def)
  ultimately show ?thesis unfolding MarkListingsRemoved_def if_not_P [OF False] by - (rule db_call_inv [where P = history_safe], blast+)
qed (use assms in \<open>simp add: MarkListingsRemoved_def\<close>)

lemma safe_ingest_removals:
  assumes "history_safe (as_world a)"
  shows "history_safe (as_world (snd (ingest_removals now chatID removed a)))"
proof -
  have "history_safe w" if "MarkListingsRemoved now chatID toks (as_world a) = (r, w)" for toks r w
    using safe_MarkListingsRemoved [OF assms, of now chatID toks] that by simp
  then show ?thesis using assms
    by (auto simp: ingest_removals_def Let_def split: prod.split sum.split if_splits)
qed

lemma recordExtScanStatus_world:
  "db_history (as_world (recordExtScanStatus sv tp now chatID c st a)) = db_history (as_world a)"
proof -
  have "db_history (as_world (UpsertExtScanStatus chatID st a)) = db_history (as_world a)" for st
    by (simp add: UpsertExtScanStatus_def next_fault_def Let_def split: list.split option.split)
  then show ?thesis by (simp add: recordExtScanStatus_def Let_def split: option.split)
qed

lemma accept_listings_safe: "\<forall>l \<in> set (accept_listings tp ls). raw_safe l"
proof (induction ls)
  case (Cons l ls)
  have "raw_safe (ingest_raw tp l')" if "sanitizeIngestListing l = Some l'" for l'
  proof -
    have "'''' \<notin> set allowedListingHosts" "'''' \<notin> set allowedImageHosts" by (simp_all add: allowedListingHosts_def allowedImageHosts_def)
    with that show ?thesis
      by (auto simp: sanitizeIngestListing_def Let_def raw_safe_def links_ok_def ingest_raw_def sanitized_url_is_safe split: if_split_asm)
  qed
  with Cons show ?case by (auto split: option.split)
qed simp

subsection \<open>Lemmas: claims and alerts\<close>

text \<open>The alerts handed out or queued, and the claims behind them: each of the steps adds alerts only for keys it has
  claimed itself, and frees no claim that was there before.\<close>

definition alert_log :: "world \<Rightarrow> (int \<times> string list) multiset" where
  "alert_log w = mset (sent_log w) + mset (digest_log w)"

definition fresh_alerts :: "int \<Rightarrow> world \<Rightarrow> world \<Rightarrow> bool" where
  "fresh_alerts chat w w' \<longleftrightarrow> claimed w \<subseteq> claimed w' \<and>
     (\<exists>new. alert_log w' = alert_log w + new \<and>
       (\<forall>(c, toks) \<in># new. c = chat \<and> (\<forall>t \<in> set toks. \<exists>sid. (t, chat, sid) \<in> claimed w' - claimed w)))"

lemma fresh_alerts_refl: "claimed w' = claimed w \<Longrightarrow> alert_log w' = alert_log w \<Longrightarrow> fresh_alerts chat w w'"
  unfolding fresh_alerts_def by (intro conjI exI [of _ "{#}"]) simp_all

lemma fresh_alerts_trans:
  assumes "fresh_alerts chat w w1" "fresh_alerts chat w1 w2"
  shows "fresh_alerts chat w w2"
proof -
  obtain a b where a: "claimed w \<subseteq> claimed w1" "alert_log w1 = alert_log w + a"
      "\<forall>(c, toks) \<in># a. c = chat \<and> (\<forall>t \<in> set toks. \<exists>sid. (t, chat, sid) \<in> claimed w1 - claimed w)"
    and b: "claimed w1 \<subseteq> claimed w2" "alert_log w2 = alert_log w1 + b"
      "\<forall>(c, toks) \<in># b. c = chat \<and> (\<forall>t \<in> set toks. \<exists>sid. (t, chat, sid) \<in> claimed w2 - claimed w1)"
    using assms unfolding fresh_alerts_def by blast
  have new: "c = chat \<and> (\<forall>t \<in> set toks. \<exists>sid. (t, chat, sid) \<in> claimed w2 - claimed w)" if m: "(c, toks) \<in># a + b" for c toks
  proof (cases "(c, toks) \<in># a")
    case True
    with a(3) have "c = chat \<and> (\<forall>t \<in> set toks. \<exists>sid. (t, chat, sid) \<in> claimed w1 - claimed w)" by fast
    with b(1) show ?thesis by fast
  next
    case False
    with m have "(c, toks) \<in># b" by simp
    with b(3) have "c = chat \<and> (\<forall>t \<in> set toks. \<exists>sid. (t, chat, sid) \<in> claimed w2 - claimed w1)" by fast
    with a(1) show ?thesis by fast
  qed
  have "alert_log w2 = alert_log w + (a + b)" using a(2) b(2) by (simp add: ac_simps)
  moreover have "claimed w \<subseteq> claimed w2" using a(1) b(1) by simp
  ultimately show ?thesis using new unfolding fresh_alerts_def by blast
qed

lemma ClaimNew_logs [simp]:
  "alert_log (snd (ClaimNew now k w)) = alert_log w" "alert_log (snd (ReleaseClaim k w)) = alert_log w"
  unfolding ClaimNew_def ReleaseClaim_def
  by (rule db_call_frame; simp add: alert_log_def sent_log_def digest_log_def claim_stmt_def release_stmt_def split: option.split)+

lemma reads_logs [simp]:
  "alert_log (snd (GetUser c w)) = alert_log w" "alert_log (snd (GetDigestMode c w)) = alert_log w"
  "alert_log (snd (ListSearches c w)) = alert_log w" "alert_log (snd (GetPriceListEntry m y w)) = alert_log w"
  "alert_log (snd (SetPriceListEntry now m y bp w)) = alert_log w" "alert_log (snd (LookupEnrichmentData ts w)) = alert_log w"
  unfolding GetUser_def GetDigestMode_def ListSearches_def GetPriceListEntry_def SetPriceListEntry_def LookupEnrichmentData_def
  by (auto intro!: db_call_frame simp: alert_log_def sent_log_def digest_log_def)

lemma reads_claimed [simp]:
  "claimed (snd (GetUser c w)) = claimed w" "claimed (snd (GetDigestMode c w)) = claimed w"
  "claimed (snd (ListSearches c w)) = claimed w" "claimed (snd (GetPriceListEntry m y w)) = claimed w"
  "claimed (snd (SetPriceListEntry now m y bp w)) = claimed w" "claimed (snd (LookupEnrichmentData ts w)) = claimed w"
  unfolding GetUser_def GetDigestMode_def ListSearches_def GetPriceListEntry_def SetPriceListEntry_def LookupEnrichmentData_def
  by (auto intro!: db_call_frame simp: claimed_def)

lemma claim_listings_fresh:
  assumes "claim_listings now sr ls w = (news, w')"
  shows "claimed w' = claimed w \<union> (\<lambda>l. (rl_Token l, s_ChatID sr, s_ID sr)) ` set news \<and>
    claimed w \<inter> (\<lambda>l. (rl_Token l, s_ChatID sr, s_ID sr)) ` set news = {} \<and> alert_log w' = alert_log w"
  using assms
proof (induction ls arbitrary: w news)
  case (Cons l ls)
  let ?k = "(rl_Token l, s_ChatID sr, s_ID sr)"
  obtain r w1 where c: "ClaimNew now ?k w = (r, w1)" by (metis prod.exhaust)
  obtain ns where rest: "claim_listings now sr ls w1 = (ns, w')" and news: "news = (if r = Inr True then l # ns else ns)"
    using Cons.prems by (auto simp: c split: prod.splits)
  note IH = Cons.IH [OF rest]
  have log: "alert_log w1 = alert_log w" using ClaimNew_logs(1) [of now ?k w] c by simp
  show ?case
  proof (cases r)
    case (Inl e)
    then show ?thesis using IH log ClaimNew_claimed(2) [of now ?k w e w1] c news by simp
  next
    case (Inr new)
    then show ?thesis using IH log ClaimNew_claimed(1) [of now ?k w new w1] c news by (cases new) auto
  qed
qed simp

lemma release_listings_only:
  "alert_log (release_listings sr ls w) = alert_log w \<and>
   claimed w - (\<lambda>l. (rl_Token l, s_ChatID sr, s_ID sr)) ` set ls \<subseteq> claimed (release_listings sr ls w) \<and> claimed (release_listings sr ls w) \<subseteq> claimed w"
proof (induction ls arbitrary: w)
  case (Cons l ls)
  let ?k = "(rl_Token l, s_ChatID sr, s_ID sr)"
  obtain r w1 where c: "ReleaseClaim ?k w = (r, w1)" by (metis prod.exhaust)
  have "alert_log w1 = alert_log w" "claimed w - {?k} \<subseteq> claimed w1" "claimed w1 \<subseteq> claimed w"
    using ClaimNew_logs(2) [of ?k w] ReleaseClaim_claimed [of ?k w _ w1] c by (cases r; auto)+
  then show ?case using Cons.IH [of w1] by (auto simp: c)
qed simp

lemma DeliverBatch_log:
  assumes "DeliverBatch render now delivery chat ls w = (r, w')"
  shows "alert_log w' = (case r of None \<Rightarrow> alert_log w + {#(chat, best_tokens ls)#} | Some _ \<Rightarrow> alert_log w) \<and> claimed w' = claimed w"
proof (cases delivery)
  case (Instant sid name lang pub)
  have "db_digest w' = db_digest w"
    using assms Instant by (auto simp: instant_batch_def send_def pop_outcome_def Let_def split: if_splits list.splits option.splits)
  then show ?thesis using instant_batch_log [of render sid name lang pub chat ls w r w'] assms Instant
    by (simp add: alert_log_def digest_log_def claimed_def split: option.split)
next
  case (Digest lang)
  have "w_sent w' = w_sent w"
    using assms Digest by (auto simp: digest_batch_def store_error_def AddDigestItem_def db_call_def next_fault_def Let_def split: if_splits sum.splits prod.splits list.splits)
  then show ?thesis using digest_batch_log [of render now lang chat ls w r w'] assms Digest
    by (simp add: alert_log_def sent_log_def claimed_def split: option.split)
qed

lemma best_tokens_subset: "set (best_tokens ls) \<subseteq> rl_Token ` set ls"
proof -
  have "set (sortListingsByScore ls) = set ls" using sort_best_props(1) [of ls] by (metis set_mset_mset)
  then show ?thesis by (auto simp: best_tokens_def dest: in_set_takeD)
qed

text \<open>What stores listings and prices neither claims nor alerts.\<close>

definition quiet :: "world \<Rightarrow> world \<Rightarrow> bool" where
  "quiet w w' \<longleftrightarrow> claimed w' = claimed w \<and> alert_log w' = alert_log w"

lemma quiet_refl [simp]: "quiet w w"
  by (simp add: quiet_def)

lemma quiet_trans: "quiet w w1 \<Longrightarrow> quiet w1 w2 \<Longrightarrow> quiet w w2"
  by (simp add: quiet_def)

lemma quiet_fresh: "quiet w w' \<Longrightarrow> fresh_alerts chat w w'"
  by (auto simp: quiet_def intro: fresh_alerts_refl)

lemma quiet_call:
  assumes "\<And>d. quiet d (snd (f d))"
  shows "quiet w (snd (db_call err f w))"
proof -
  have "quiet w (w\<lparr>db_faults := fs\<rparr>)" for fs by (simp add: quiet_def alert_log_def sent_log_def digest_log_def)
  then show ?thesis by (intro db_call_inv [where P = "quiet w"]) (auto intro: quiet_trans assms)
qed

lemma quiet_history: "quiet w (w\<lparr>db_history := hs\<rparr>)"
  by (simp add: quiet_def alert_log_def sent_log_def digest_log_def claimed_def)

lemma quiet_stores:
  "quiet w (snd (SaveListings now rs w))" "quiet w (snd (BackfillListings rs w))"
  "quiet w (snd (GetUser c w))" "quiet w (snd (GetDigestMode c w))" "quiet w (snd (ListSearches c w))"
  "quiet w (snd (GetPriceListEntry m y w))" "quiet w (snd (SetPriceListEntry now m y bp w))" "quiet w (snd (LookupEnrichmentData ts w))"
proof -
  show "quiet w (snd (SaveListings now rs w))" "quiet w (snd (BackfillListings rs w))"
    unfolding SaveListings_def BackfillListings_def by (auto intro!: quiet_call quiet_history)
qed (simp_all add: quiet_def)

lemma quiet_retire: "quiet w (snd (retire now sel w))"
  by (simp add: retire_def delete_unsaved_def mark_removed_def Let_def quiet_history quiet_def alert_log_def sent_log_def digest_log_def claimed_def)

lemma quiet_pl_Lookup: "quiet w (snd (pl_Lookup page now m y w))"
proof -
  obtain r w1 where g: "GetPriceListEntry m y w = (r, w1)" by (metis prod.exhaust)
  have w1: "quiet w w1" using quiet_stores(6) [of w m y] g by simp
  let ?w2 = "w1\<lparr>w_plFetchCount := w_plFetchCount w1 + 1, w_plLastFetch := now\<rparr>"
  have "quiet w1 ?w2" by (simp add: quiet_def alert_log_def sent_log_def digest_log_def claimed_def)
  then have "quiet w ?w2" "quiet w (snd (SetPriceListEntry now m y bp ?w2))" for bp
    using w1 quiet_trans quiet_stores(7) by blast+
  then show ?thesis using w1 by (simp add: pl_Lookup_def g Let_def split: sum.split)
qed

lemma quiet_score_all: "quiet w (snd (score_all cfg page now params ls w))"
proof (induction ls arbitrary: w)
  case (Cons l ls)
  obtain x w1 where s: "scoreAndEnrich cfg page now l params w = (x, w1)" by (metis prod.exhaust)
  obtain mp mk co ok where m: "market_lookup params l = (mp, mk, co, ok)" by (metis prod.exhaust)
  have "quiet w (snd (enrichWithBasePrice cfg page now b w))" for b
    using quiet_pl_Lookup [of w page now "rl_SubModelID b" "rl_Year b"] by (simp add: enrichWithBasePrice_def split_beta)
  then have "quiet w (snd (scoreAndEnrich cfg page now l params w))"
    by (cases ok) (simp_all add: scoreAndEnrich_def m Let_def split_beta)
  then show ?case using Cons [of w1] s by (auto simp: split_beta intro: quiet_trans)
qed simp

lemma quiet_prefill: "quiet w (snd (pipeline_prefill cfg ls w))"
  using quiet_stores(8) [of w "map rl_Token (filter unenriched ls)"]
  by (cases "LookupEnrichmentData (map rl_Token (filter unenriched ls)) w") (auto simp: pipeline_prefill_def Let_def split: sum.split)

lemma quiet_inlineEnrich: "quiet w (snd (inlineEnrich cfg f ls w))"
  using quiet_stores(2) by (auto simp: inlineEnrich_def Let_def split: prod.split)

lemma quiet_Process: "quiet w (snd (Process cfg e page now ls params w))"
proof -
  define pre where "pre = (if \<not> pp_SkipPrefill params then pipeline_prefill cfg ls w else (ls, w))"
  define enr where "enr = (case e of Some f \<Rightarrow> inlineEnrich cfg f (fst pre) (snd pre) | None \<Rightarrow> pre)"
  have "quiet w (snd pre)" using quiet_prefill by (simp add: pre_def)
  moreover have "quiet (snd pre) (snd enr)" using quiet_inlineEnrich by (simp add: enr_def split: option.split)
  moreover have "quiet (snd enr) (snd (score_all cfg page now params (fst enr) (snd enr)))" by (rule quiet_score_all)
  moreover have "snd (Process cfg e page now ls params w) = snd (score_all cfg page now params (fst enr) (snd enr))"
    by (simp add: Process_def pre_def [symmetric] enr_def split_beta split: option.split)
  ultimately show ?thesis by (metis quiet_trans)
qed

lemma fresh_claimAndDeliver: "fresh_alerts (s_ChatID sr) w (snd (claimAndDeliver render now sr ls delivery w))"
proof -
  let ?key = "\<lambda>l. (rl_Token l, s_ChatID sr, s_ID sr)"
  obtain news w1 where c: "claim_listings now sr ls w = (news, w1)" by (metis prod.exhaust)
  note C = claim_listings_fresh [OF c]
  obtain r w2 where d: "DeliverBatch render now delivery (s_ChatID sr) news w1 = (r, w2)" by (metis prod.exhaust)
  note D = DeliverBatch_log [OF d]
  have kept: "fresh_alerts (s_ChatID sr) w w'" if "claimed w \<subseteq> claimed w'" "alert_log w' = alert_log w" for w'
    unfolding fresh_alerts_def using that by (intro conjI exI [of _ "{#}"]) simp_all
  show ?thesis
  proof (cases "news = []")
    case True
    then show ?thesis using C kept by (simp add: claimAndDeliver_def c)
  next
    case False
    show ?thesis
    proof (cases r)
      case None
      have "\<exists>sid. (t, s_ChatID sr, sid) \<in> claimed w2 - claimed w" if best: "t \<in> set (best_tokens news)" for t
      proof -
        obtain l where "l \<in> set news" "t = rl_Token l" using best best_tokens_subset [of news] by blast
        then have "(t, s_ChatID sr, s_ID sr) \<in> claimed w2 - claimed w" using C D by blast
        then show ?thesis by blast
      qed
      then have "fresh_alerts (s_ChatID sr) w w2"
        unfolding fresh_alerts_def using C D None
        by (intro conjI exI [of _ "{#(s_ChatID sr, best_tokens news)#}"]) simp_all
      then show ?thesis using False None by (simp add: claimAndDeliver_def c d)
    next
      case (Some e)
      have "fresh_alerts (s_ChatID sr) w w2" using C D Some kept by auto
      moreover have "claimed w \<subseteq> claimed (release_listings sr news w2)"
        using C D release_listings_only [of sr news w2] by blast
      then have "fresh_alerts (s_ChatID sr) w (release_listings sr news w2)"
        using C D Some release_listings_only [of sr news w2] kept by simp
      ultimately show ?thesis using False Some by (simp add: claimAndDeliver_def c d split: delivery_error.split)
    qed
  qed
qed

lemma fresh_deliverIngestMatches: "fresh_alerts (s_ChatID sr) w (snd (deliverIngestMatches sv render now sr ls w))"
proof -
  obtain o1 w1 where d: "ingestDeliveryFor (sv_cfg sv) sr w = (o1, w1)" by (metis prod.exhaust)
  have lang: "quiet w (snd (api_userLang cfg c w))" for cfg c w
    using quiet_stores(3) [of w c]
    by (cases "GetUser c w"; cases "fst (GetUser c w)") (auto simp: api_userLang_def split: option.split)
  have "quiet w (snd (ingestDeliveryFor (sv_cfg sv) sr w))"
    using lang quiet_trans [OF lang quiet_stores(4)] by (simp add: ingestDeliveryFor_def split_beta)
  then have "quiet w w1" using d by simp
  then have "fresh_alerts (s_ChatID sr) w w1" "fresh_alerts (s_ChatID sr) w (snd (claimAndDeliver render now sr ls dl w1))" for dl
    using quiet_fresh fresh_alerts_trans fresh_claimAndDeliver by blast+
  then show ?thesis by (simp add: deliverIngestMatches_def d quiet_fresh split: option.split)
qed

lemma fresh_ingest_search:
  "fresh_alerts (s_ChatID sr) w (snd (ingest_search sv render page now chatID raw sr n w))"
proof -
  let ?ls = "Apply (FilterCriteriaFromSearch sr) raw"
  let ?params = "(ProcessParamsFromSearch sr None)\<lparr>pp_ChatID := chatID\<rparr>"
  obtain xs rs w1 where p: "Process (sv_cfg sv) (sv_enricher sv) page now ?ls ?params w = ((xs, rs), w1)" by (metis prod.exhaust)
  obtain r w2 where q: "SaveListings now rs w1 = (r, w2)" by (metis prod.exhaust)
  have "quiet w w1" using quiet_Process [of w "sv_cfg sv" "sv_enricher sv" page now ?ls ?params] p by simp
  moreover have "quiet w1 w2" using quiet_stores(1) [of w1 now rs] q by simp
  ultimately have f: "fresh_alerts (s_ChatID sr) w w1" "fresh_alerts (s_ChatID sr) w w2"
    using quiet_trans quiet_fresh by blast+
  have "fresh_alerts (s_ChatID sr) w (snd (deliverIngestMatches sv render now sr xs w2))"
    using f(2) fresh_deliverIngestMatches fresh_alerts_trans by blast
  then show ?thesis using f
    by (simp add: ingest_search_def Let_def p q quiet_fresh split_beta split: sum.split)
qed

lemma fresh_ingest_searches:
  "\<forall>sr \<in> set srs. s_ChatID sr = chatID \<Longrightarrow> fresh_alerts chatID w (snd (ingest_searches sv render page now chatID raw srs n w))"
proof (induction srs arbitrary: n w)
  case (Cons sr srs)
  obtain n1 w1 where s: "ingest_search sv render page now chatID raw sr n w = (n1, w1)" by (metis prod.exhaust)
  have "fresh_alerts chatID w w1" using fresh_ingest_search [of sr w sv render page now chatID raw n] s Cons.prems by simp
  moreover have "fresh_alerts chatID w1 (snd (ingest_searches sv render page now chatID raw srs n1 w1))"
    using Cons.IH Cons.prems by simp
  ultimately show ?case using s by (auto intro: fresh_alerts_trans)
qed (simp add: quiet_fresh)

lemma ListSearches_chat:
  assumes "ListSearches chatID d = (Inr srs, d')"
  shows "\<forall>sr \<in> set srs. s_ChatID sr = chatID"
  using assms unfolding ListSearches_def by (elim db_call_Inr) auto

text \<open>The handler, once its first tests have passed, step by step.\<close>

definition ingest_raws :: "time_parser \<Rightarrow> ingest_request \<Rightarrow> raw_listing list" where
  "ingest_raws tp req = accept_listings tp (iq_Listings req)"

lemma ingestListings_cases:
  obtains (same) "snd (ingestListings sv render page tp now chatID req a) = a"
  | (db_error) w e where "ListSearches chatID (as_world a) = (Inl e, w)" "snd (ingestListings sv render page tp now chatID req a) = a\<lparr>as_world := w\<rparr>"
  | (run) srs w n w1 removed a2 st where "ListSearches chatID (as_world a) = (Inr srs, w)"
      "ingest_searches sv render page now chatID (ingest_raws tp req) srs \<lparr>in_saved = 0, in_active = 0, in_notified = 0\<rparr> w = (n, w1)"
      "ingest_removals now chatID (iq_RemovedTokens req) (a\<lparr>as_world := w1\<rparr>) = (removed, a2)"
      "ingestListings sv render page tp now chatID req a =
        (IngestOK \<lparr>ir_Processed = int (length (ingest_raws tp req)), ir_NewMatches = in_saved n, ir_Removed = removed\<rparr>,
         recordExtScanStatus sv tp now chatID (iq_Cycle req) st a2)"
proof -
  obtain r w where l: "ListSearches chatID (as_world a) = (r, w)" by (metis prod.exhaust)
  consider "iq_Listings req = [] \<and> iq_RemovedTokens req = [] \<and> iq_Cycle req = None \<or> length (iq_Listings req) > 500"
    | (go) "\<not> (iq_Listings req = [] \<and> iq_RemovedTokens req = [] \<and> iq_Cycle req = None)" "\<not> length (iq_Listings req) > 500" by blast
  then show ?thesis
  proof cases
    case 1
    then have "snd (ingestListings sv render page tp now chatID req a) = a" by (auto simp: ingestListings_def)
    then show ?thesis by (rule same)
  next
    case go
    note body = ingestListings_def if_not_P [OF go(1)] if_not_P [OF go(2)] Let_def l
    show ?thesis
    proof (cases r)
      case (Inl e)
      have "snd (ingestListings sv render page tp now chatID req a) = a\<lparr>as_world := w\<rparr>" unfolding body Inl by simp
      then show ?thesis using l Inl by (intro db_error) simp_all
    next
      case (Inr srs)
      obtain n w1 where s: "ingest_searches sv render page now chatID (ingest_raws tp req) srs \<lparr>in_saved = 0, in_active = 0, in_notified = 0\<rparr> w = (n, w1)"
        by (metis prod.exhaust)
      obtain removed a2 where m: "ingest_removals now chatID (iq_RemovedTokens req) (a\<lparr>as_world := w1\<rparr>) = (removed, a2)" by (metis prod.exhaust)
      note s' = s [unfolded ingest_raws_def]
      show ?thesis by (rule run [OF _ s m]) (use l Inr in simp, unfold body Inr, simp add: s' m ingest_raws_def)
    qed
  qed
qed

lemma quiet_ingest_removals: "quiet (as_world a) (as_world (snd (ingest_removals now chatID removed a)))"
proof -
  have "quiet (as_world a) (snd (MarkListingsRemoved now chatID toks (as_world a)))" for toks
    by (auto simp: MarkListingsRemoved_def intro!: quiet_call quiet_retire)
  then have "quiet (as_world a) w" if "MarkListingsRemoved now chatID toks (as_world a) = (r, w)" for toks r w
    using that by (metis snd_conv)
  then show ?thesis by (auto simp: ingest_removals_def Let_def split: prod.split sum.split)
qed

lemma quiet_recordExtScanStatus: "quiet (as_world a) (as_world (recordExtScanStatus sv tp now chatID c st a))"
proof -
  have "quiet (as_world a) (as_world (UpsertExtScanStatus chatID st a))" for st
    by (simp add: UpsertExtScanStatus_def next_fault_def Let_def quiet_def alert_log_def sent_log_def digest_log_def claimed_def split: list.split option.split)
  then show ?thesis by (simp add: recordExtScanStatus_def Let_def split: option.split)
qed

subsection \<open>Properties\<close>

text \<open>C19. A push alerts its own user only, and only about listings that had no claim before: every listing of every
  alert it sends or queues was claimed by this push for one of the user's searches, and no earlier claim is lost,
  whichever of its calls fail. A listing that is pushed again and again is alerted once per search.\<close>

theorem ingest_alerts_only_fresh:
  "case ingestListings sv render page tp now chatID req a of (reply, a') \<Rightarrow>
    claimed (as_world a) \<subseteq> claimed (as_world a') \<and>
    (\<exists>new. alert_log (as_world a') = alert_log (as_world a) + new \<and>
      (\<forall>(chat, toks) \<in># new. chat = chatID \<and>
        (\<forall>t \<in> set toks. \<exists>sid. (t, chatID, sid) \<in> claimed (as_world a') - claimed (as_world a))))"
proof -
  let ?a' = "snd (ingestListings sv render page tp now chatID req a)"
  have list: "quiet (as_world a) w" if "ListSearches chatID (as_world a) = (r, w)" for r w
    using quiet_stores(5) [of "as_world a" chatID] that by simp
  have "fresh_alerts chatID (as_world a) (as_world ?a')"
  proof (cases rule: ingestListings_cases [of sv render page tp now chatID req a])
    case same
    then show ?thesis by (simp add: quiet_fresh)
  next
    case (db_error w e)
    then show ?thesis using list by (simp add: quiet_fresh)
  next
    case (run srs w n w1 removed a2 st)
    have "fresh_alerts chatID (as_world a) w" using list [OF run(1)] by (rule quiet_fresh)
    moreover have "fresh_alerts chatID w w1"
      using fresh_ingest_searches [OF ListSearches_chat [OF run(1)], of w sv render page now "ingest_raws tp req"] run(2) by (metis snd_conv)
    moreover have "quiet w1 (as_world a2)"
      using quiet_ingest_removals [of "a\<lparr>as_world := w1\<rparr>" now chatID "iq_RemovedTokens req"] run(3) by simp
    moreover have "quiet (as_world a2) (as_world ?a')"
      using quiet_recordExtScanStatus run(4) by simp
    ultimately show ?thesis using quiet_fresh fresh_alerts_trans by blast
  qed
  then show ?thesis unfolding fresh_alerts_def by (simp add: split_beta)
qed

text \<open>C20. The links and images in the listing history stay safe to show: if every stored link and image is empty or an
  https URL on a listed host, they still are after any push, whatever the client sends and whichever calls fail,
  provided the inline enricher, which reads the source's own pages, brings in no other image.\<close>

theorem ingest_history_stays_safe:
  assumes "history_safe (as_world a)" "enricher_safe (sv_enricher sv)"
  shows "history_safe (as_world (snd (ingestListings sv render page tp now chatID req a)))"
proof (cases rule: ingestListings_cases [of sv render page tp now chatID req a])
  case same
  then show ?thesis using assms(1) by simp
next
  case (db_error w e)
  then have "db_history w = db_history (as_world a)" using reads_history(3) [of chatID "as_world a"] by simp
  then show ?thesis using assms(1) db_error by (simp add: history_safe_def)
next
  case (run srs w n w1 removed a2 st)
  then have "db_history w = db_history (as_world a)" using reads_history(3) [of chatID "as_world a"] by simp
  then have "history_safe w" using assms(1) by (simp add: history_safe_def)
  from safe_ingest_searches [OF _ assms(2) this, of "ingest_raws tp req" render page now chatID srs "\<lparr>in_saved = 0, in_active = 0, in_notified = 0\<rparr>"]
  have "history_safe w1" using run(2) by (simp add: ingest_raws_def accept_listings_safe)
  then have "history_safe (as_world a2)"
    using safe_ingest_removals [of "a\<lparr>as_world := w1\<rparr>" now chatID "iq_RemovedTokens req"] run(3) by simp
  then show ?thesis using run(4) recordExtScanStatus_world [of sv tp now chatID "iq_Cycle req" st a2] by (simp add: history_safe_def)
qed

definition plain_server :: server_config where
  "plain_server = \<lparr>sv_cfg = plain_config\<lparr>sc_Listings := True, sc_Publisher := True\<rparr>, sv_Dedup = True, sv_ExtStatus = False, sv_enricher = None\<rparr>"

definition plain_api :: api_state where
  "plain_api = \<lparr>as_world = empty_world, as_budget = newRemovalBudget 0, as_ext = []\<rparr>"

theorem ingest_alerts_only_fresh_witness:
  "case ingestListings plain_server (\<lambda>_. ''a new listing'') (\<lambda>_ _. 0) (\<lambda>_ _ _. None) 5 7
      \<lparr>iq_Listings = [pushed_listing], iq_RemovedTokens = [], iq_Cycle = None\<rparr> plain_api of (reply, a') \<Rightarrow>
    claimed (as_world plain_api) \<subseteq> claimed (as_world a') \<and>
    (\<exists>new. alert_log (as_world a') = alert_log (as_world plain_api) + new \<and>
      (\<forall>(chat, toks) \<in># new. chat = 7 \<and>
        (\<forall>t \<in> set toks. \<exists>sid. (t, 7, sid) \<in> claimed (as_world a') - claimed (as_world plain_api))))"
  by (rule ingest_alerts_only_fresh)

theorem ingest_history_stays_safe_witness:
  "history_safe (as_world (snd (ingestListings plain_server (\<lambda>_. '''') (\<lambda>_ _. 0) (\<lambda>_ _ _. None) 5 7
     \<lparr>iq_Listings = [pushed_listing], iq_RemovedTokens = [''x''], iq_Cycle = None\<rparr> plain_api)))"
  by (rule ingest_history_stays_safe)
    (simp_all add: plain_api_def plain_server_def enricher_safe_def history_safe_def empty_world_def db.defs empty_db_def)

text \<open>The steps of one listing through the loop when nothing fails.\<close>

lemma prefill_single:
  assumes "sc_Listings cfg" "db_faults w = []" "rl_Km l \<le> 0" "newest_row has_enrichment (rl_Token l) (db_history w) = Some h" "0 < lr_Km h"
  shows "\<exists>l'. pipeline_prefill cfg [l] w = ([l'], w) \<and> rl_Token l' = rl_Token l \<and> rl_Km l' = lr_Km h"
proof -
  have "unenriched l" using assms(3) by (simp add: unenriched_def)
  then show ?thesis using assms
    by (simp add: pipeline_prefill_def Let_def LookupEnrichmentData_def prefill_one_def enrichment_of_def)
qed

lemma score_single:
  assumes "\<not> sc_PriceList cfg"
  shows "\<exists>x. score_all cfg page now params [l] w = ([x], w) \<and> rl_Token x = rl_Token l \<and> rl_Km x = rl_Km l"
proof -
  obtain x w1 where s: "scoreAndEnrich cfg page now l params w = (x, w1)" by (metis prod.exhaust)
  obtain mp mk co ok where m: "market_lookup params l = (mp, mk, co, ok)" by (metis prod.exhaust)
  have "w1 = w" using s assms by (auto simp: scoreAndEnrich_def m Let_def enrichWithBasePrice_def)
  then show ?thesis using s scoreAndEnrich_links [OF s] by simp
qed

lemma deliver_single:
  assumes "sc_Publisher cfg" "\<not> sc_Digests cfg" "db_faults w = []" "w_outcomes w = []" "\<forall>m. \<not> IsMalformedMessage (render m)"
    and "(rl_Token x, s_ChatID sr, s_ID sr) \<notin> claimed w"
  shows "\<exists>lang. ingestDeliveryFor cfg sr w = (Some (Instant (s_ID sr) (s_Name sr) lang True), w) \<and>
    fst (claimAndDeliver render now sr [x] (Instant (s_ID sr) (s_Name sr) lang True) w) = 1 \<and>
    w_sent (snd (claimAndDeliver render now sr [x] (Instant (s_ID sr) (s_Name sr) lang True) w)) =
      w_sent w @ [Published (s_ChatID sr) (s_ID sr) (s_Name sr) [rl_Token x] (render (BatchMessage [x] lang 0)) lang]"
proof -
  have "snd (api_userLang cfg (s_ChatID sr) w) = w"
    using assms(3) by (simp add: api_userLang_def GetUser_def split: option.split)
  then obtain lang where lang: "api_userLang cfg (s_ChatID sr) w = (lang, w)" by (metis prod.collapse)
  obtain r w1 where c: "ClaimNew now (rl_Token x, s_ChatID sr, s_ID sr) w = (r, w1)" by (metis prod.exhaust)
  have new: "r = Inr True" "w_outcomes w1 = []" "w_sent w1 = w_sent w"
    using c assms(3,4,6) by (auto simp: ClaimNew_def claim_stmt_def claimed_def domIff split: option.splits)
  have "sortListingsByScore [x] = [x]" by (simp add: sortListingsByScore_def)
  then show ?thesis using assms(1,2,5) new
    by (intro exI [of _ lang]) (simp add: ingestDeliveryFor_def lang claimAndDeliver_def c instant_batch_def send_def pop_outcome_def maxBatchSize_def Let_def)
qed

text \<open>The mileage limit of a search does not hold for pushed listings whose mileage the push leaves out. The filter
  passes an unknown mileage, the pipeline then fills it in from the history, and nothing looks at the limit again
  (the scheduler filters again after that step): the user is sent an alert, showing the mileage, for a car over
  the limit.\<close>

lemma ingest_alerts_over_max_km:
  assumes "s_Active sr" "s_Manufacturer sr \<noteq> 0" "matches (lower_criteria (FilterCriteriaFromSearch sr)) l"
    and "rl_Km l \<le> 0" "newest_row has_enrichment (rl_Token l) (db_history w) = Some h" "0 < s_MaxKm sr" "s_MaxKm sr < lr_Km h"
    and "sc_Listings (sv_cfg sv)" "\<not> sc_PriceList (sv_cfg sv)" "sc_Publisher (sv_cfg sv)" "\<not> sc_Digests (sv_cfg sv)" "sv_Dedup sv" "sv_enricher sv = None"
    and "db_faults w = []" "w_outcomes w = []" "\<forall>m. \<not> IsMalformedMessage (render m)"
    and "(rl_Token l, s_ChatID sr, s_ID sr) \<notin> claimed w"
  shows "\<exists>x lang. rl_Token x = rl_Token l \<and> rl_Km x > s_MaxKm sr \<and>
    w_sent (snd (ingest_search sv render page now chatID [l] sr n w)) =
      w_sent w @ [Published (s_ChatID sr) (s_ID sr) (s_Name sr) [rl_Token l] (render (BatchMessage [x] lang 0)) lang]"
proof -
  let ?params = "(ProcessParamsFromSearch sr None)\<lparr>pp_ChatID := chatID\<rparr>"
  have "0 < lr_Km h" using assms(6,7) by simp
  then obtain l' where pre: "pipeline_prefill (sv_cfg sv) [l] w = ([l'], w)" "rl_Token l' = rl_Token l" "rl_Km l' = lr_Km h"
    using prefill_single [OF assms(8,14,4,5)] by blast
  obtain x where sc: "score_all (sv_cfg sv) page now ?params [l'] w = ([x], w)" "rl_Token x = rl_Token l'" "rl_Km x = rl_Km l'"
    using score_single [OF assms(9)] by blast
  have proc: "Process (sv_cfg sv) None page now [l] ?params w = (([x], [buildRecord now x ?params]), w)"
    by (simp add: Process_def ProcessParamsFromSearch_def pre) (use sc in \<open>simp add: ProcessParamsFromSearch_def\<close>)
  obtain r w2 where save: "SaveListings now [buildRecord now x ?params] w = (r, w2)" by (metis prod.exhaust)
  have w2: "r = Inr ()" "db_faults w2 = []" "w_outcomes w2 = []" "w_sent w2 = w_sent w" "claimed w2 = claimed w"
    using save assms(14,15) by (auto simp: SaveListings_def claimed_def)
  obtain lang where del: "ingestDeliveryFor (sv_cfg sv) sr w2 = (Some (Instant (s_ID sr) (s_Name sr) lang True), w2)"
    "w_sent (snd (claimAndDeliver render now sr [x] (Instant (s_ID sr) (s_Name sr) lang True) w2)) =
      w_sent w2 @ [Published (s_ChatID sr) (s_ID sr) (s_Name sr) [rl_Token x] (render (BatchMessage [x] lang 0)) lang]"
    using deliver_single [OF assms(10,11) w2(2,3) assms(16), where sr = sr and x = x and now = now] assms(17) w2(5) sc(2) pre(2) by auto
  have "w_sent (snd (ingest_search sv render page now chatID [l] sr n w)) =
      w_sent w @ [Published (s_ChatID sr) (s_ID sr) (s_Name sr) [rl_Token l] (render (BatchMessage [x] lang 0)) lang]"
    using assms(1,2,3) del w2(4) sc(2) pre(2)
    by (simp add: ingest_search_def Let_def Apply_eq_filter assms(12,13) proc save w2(1) deliverIngestMatches_def split_beta)
  then show ?thesis using sc(2,3) pre(2,3) assms(7) by (intro exI [of _ x] exI [of _ lang]) simp
qed

text \<open>A push of one listing without its mileage, of which the history knows 210000 kilometres, against a limit of 150000.\<close>

definition limit_search :: search where
  "limit_search = zero_search\<lparr>s_ID := 2, s_ChatID := 7, s_Manufacturer := 19, s_MaxKm := 150000, s_Active := True\<rparr>"

definition far_driven :: world where
  "far_driven = empty_world\<lparr>db_history := [((''t'', 8), new_row 0 (zero_record\<lparr>lr_Token := ''t'', lr_ChatID := 8, lr_Km := 210000\<rparr>))]\<rparr>"

lemma ingest_alerts_over_max_km_witness:
  "\<exists>(x :: listing) lang. rl_Km x > 150000 \<and>
    w_sent (snd (ingest_search plain_server (\<lambda>_. ''a new listing'') (\<lambda>_ _. 0) 5 7 [zero_raw_listing\<lparr>rl_Token := ''t'', rl_ManufacturerID := 19\<rparr>]
      limit_search \<lparr>in_saved = 0, in_active = 0, in_notified = 0\<rparr> far_driven)) = [Published 7 2 '''' [''t''] ''a new listing'' lang]"
proof -
  let ?l = "zero_raw_listing\<lparr>rl_Token := ''t'', rl_ManufacturerID := 19\<rparr>"
  let ?h = "new_row 0 (zero_record\<lparr>lr_Token := ''t'', lr_ChatID := 8, lr_Km := 210000\<rparr>)"
  have m: "matches (lower_criteria (FilterCriteriaFromSearch limit_search)) ?l" by code_simp
  have h: "newest_row has_enrichment (rl_Token ?l) (db_history far_driven) = Some ?h"
    by (simp add: newest_row_def far_driven_def zero_raw_listing_def has_enrichment_def new_row_def listing_record.defs zero_record_def)
  have msg: "\<not> IsMalformedMessage ''a new listing''" by code_simp
  have "\<exists>(x :: listing) lang. rl_Token x = rl_Token ?l \<and> rl_Km x > s_MaxKm limit_search \<and>
    w_sent (snd (ingest_search plain_server (\<lambda>_. ''a new listing'') (\<lambda>_ _. 0) 5 7 [?l] limit_search \<lparr>in_saved = 0, in_active = 0, in_notified = 0\<rparr> far_driven)) =
      w_sent far_driven @ [Published (s_ChatID limit_search) (s_ID limit_search) (s_Name limit_search) [rl_Token ?l] ''a new listing'' lang]"
    by (rule ingest_alerts_over_max_km [where render = "\<lambda>_. ''a new listing''", OF _ _ m _ h])
      (use msg in \<open>simp_all add: limit_search_def zero_search_def plain_server_def plain_config_def far_driven_def zero_raw_listing_def
        new_row_def listing_record.defs zero_record_def empty_world_def db.defs empty_db_def claimed_def\<close>)
  then show ?thesis
    by (simp add: limit_search_def zero_search_def zero_raw_listing_def far_driven_def empty_world_def db.defs) blast
qed

text \<open>Rows that stay, with all that is known of them.\<close>

definition keeps_rows :: "(string \<times> int \<Rightarrow> bool) \<Rightarrow> world \<Rightarrow> world \<Rightarrow> bool" where
  "keeps_rows P w w' \<longleftrightarrow> (\<forall>k h. P k \<longrightarrow> map_of (db_history w) k = Some h \<longrightarrow> (\<exists>h'. map_of (db_history w') k = Some h' \<and> known_kept h h'))"

lemma keeps_rows_same: "db_history w' = db_history w \<Longrightarrow> keeps_rows P w w'"
  by (simp add: keeps_rows_def)

lemma keeps_rows_trans: "keeps_rows P w w1 \<Longrightarrow> keeps_rows P w1 w2 \<Longrightarrow> keeps_rows P w w2"
  unfolding keeps_rows_def by (meson known_kept_trans)

lemma keeps_rows_mono: "keeps_rows P w w' \<Longrightarrow> (\<And>k. Q k \<Longrightarrow> P k) \<Longrightarrow> keeps_rows Q w w'"
  unfolding keeps_rows_def by blast

lemma keeps_rows_Process: "keeps_rows P w (snd (Process cfg e page now ls params w))"
proof -
  define pre where "pre = (if \<not> pp_SkipPrefill params then pipeline_prefill cfg ls w else (ls, w))"
  define enr where "enr = (case e of Some f \<Rightarrow> inlineEnrich cfg f (fst pre) (snd pre) | None \<Rightarrow> pre)"
  have "db_history (snd (pipeline_prefill cfg ls w)) = db_history w"
    using reads_history(7) [of "map rl_Token (filter unenriched ls)" w]
    by (cases "LookupEnrichmentData (map rl_Token (filter unenriched ls)) w") (auto simp: pipeline_prefill_def Let_def split: sum.split)
  then have "keeps_rows P w (snd pre)" by (simp add: pre_def keeps_rows_same)
  moreover have "keeps_rows P w (snd (inlineEnrich cfg f xs w))" for f xs w
    using BackfillListings_known [of w] by (auto simp: inlineEnrich_def Let_def keeps_rows_def split: prod.split)
  then have "keeps_rows P (snd pre) (snd enr)" by (simp add: enr_def keeps_rows_same split: option.split)
  moreover obtain xs w3 where s: "score_all cfg page now params (fst enr) (snd enr) = (xs, w3)" by (metis prod.exhaust)
  have "keeps_rows P (snd enr) w3" using score_all_links [OF s] by (simp add: keeps_rows_same)
  moreover have "snd (Process cfg e page now ls params w) = w3"
    using s by (simp add: Process_def pre_def [symmetric] enr_def split_beta split: option.splits)
  ultimately show ?thesis by (metis keeps_rows_trans)
qed

lemma keeps_rows_ingest_searches: "keeps_rows P w (snd (ingest_searches sv render page now chatID raw srs n w))"
proof (induction srs arbitrary: n w)
  case (Cons sr srs)
  let ?ls = "Apply (FilterCriteriaFromSearch sr) raw"
  let ?params = "(ProcessParamsFromSearch sr None)\<lparr>pp_ChatID := chatID\<rparr>"
  obtain xs rs w1 where p: "Process (sv_cfg sv) (sv_enricher sv) page now ?ls ?params w = ((xs, rs), w1)" by (metis prod.exhaust)
  obtain r w2 where q: "SaveListings now rs w1 = (r, w2)" by (metis prod.exhaust)
  have k1: "keeps_rows P w w1" using keeps_rows_Process [of P w "sv_cfg sv" "sv_enricher sv" page now ?ls ?params] p by simp
  have "keeps_rows P w1 w2" using SaveListings_known [of w1 _ _ now rs] q by (simp add: keeps_rows_def)
  with k1 have k2: "keeps_rows P w w2" by (rule keeps_rows_trans)
  have "keeps_rows P w2 (snd (deliverIngestMatches sv render now sr xs w2))" by (simp add: keeps_rows_same)
  with k2 have k3: "keeps_rows P w (snd (deliverIngestMatches sv render now sr xs w2))" by (rule keeps_rows_trans)
  have "keeps_rows P w (snd (ingest_search sv render page now chatID raw sr n w))"
    using k1 k2 k3 by (simp add: ingest_search_def Let_def p q keeps_rows_same split_beta split: sum.split)
  then show ?case using Cons.IH keeps_rows_trans by (fastforce simp: split_beta)
qed (simp add: keeps_rows_same)

lemma keeps_rows_removals:
  "keeps_rows (\<lambda>k. snd k \<noteq> chatID \<or> fst k \<notin> set (sanitizeRemovedTokens removed)) (as_world a)
    (as_world (snd (ingest_removals now chatID removed a)))"
proof -
  let ?P = "\<lambda>toks k. snd k \<noteq> chatID \<or> fst k \<notin> set toks"
  have mark: "keeps_rows (?P toks) w (snd (MarkListingsRemoved now chatID toks w))" for toks w
  proof (cases "toks = []")
    case False
    let ?sel = "\<lambda>k (h :: history_row). snd k = chatID \<and> fst k \<in> set toks"
    have "map_of (db_history (snd (retire now ?sel w))) k = map_of (db_history w) k" if "?P toks k" for k and w :: world
    proof -
      have "snd (retire now ?sel w) = snd (delete_unsaved ?sel (mark_removed now ?sel w))" by (simp add: retire_def split: prod.split)
      then show ?thesis using that by (auto simp: delete_unsaved_unselected map_of_mark_removed option.map_ident)
    qed
    then show ?thesis unfolding MarkListingsRemoved_def if_not_P [OF False]
      by (intro db_call_inv [where P = "keeps_rows (?P toks) w"]) (simp_all add: keeps_rows_def)
  qed (simp add: MarkListingsRemoved_def keeps_rows_same)
  have sub: "set (take i (take j (sanitizeRemovedTokens removed))) \<subseteq> set (sanitizeRemovedTokens removed)"
    "set (take i (sanitizeRemovedTokens removed)) \<subseteq> set (sanitizeRemovedTokens removed)" for i j
    by (meson order_trans set_take_subset)+
  have "keeps_rows (?P (sanitizeRemovedTokens removed)) (as_world a) w"
    if "MarkListingsRemoved now chatID toks (as_world a) = (r, w)" "set toks \<subseteq> set (sanitizeRemovedTokens removed)" for toks r w
    by (rule keeps_rows_mono [where P = "?P toks"]) (use mark [of toks "as_world a"] that in auto)
  then show ?thesis using sub
    by (auto simp: ingest_removals_def Let_def keeps_rows_same split: prod.split sum.split)
qed



end
