(* ===== verification/Telegram.thy ===== *)
theory Telegram
  imports IngestValidation
begin

section \<open>Messages over Telegram (internal/notifier/telegram/telegram.go)\<close>

text \<open>
  How a text becomes API calls: the splitting of long messages, which keeps the sections of a batch together, the
  cutting of captions, and the retries of one call. A string is bytes and \<open>[]rune(s)\<close> its runes. The replies of the
  API are an argument: for the attempt and whether it is sent as Markdown, None for success or the text of the
  error.
\<close>

definition maxMessageLen :: nat where "maxMessageLen = 4096"
definition maxCaptionLen :: nat where "maxCaptionLen = 1024"
definition telegramMaxRetries :: nat where "telegramMaxRetries = 3"
definition telegramRetryBaseDelay :: duration where "telegramRetryBaseDelay = seconds 1"
definition retryAfterDefault :: duration where "retryAfterDefault = seconds 5"

definition telegramListingSeparatorLine :: string where
  "telegramListingSeparatorLine = concat (replicate 20 [CHR 0xE2, CHR 0x94, CHR 0x81])"

definition listing_sep :: string where
  "listing_sep = CHR 10 # telegramListingSeparatorLine @ [CHR 10]"

subsection \<open>Runes and separators\<close>

text \<open>\<open>[]rune(s)\<close>; \<open>string(r)\<close> is \<open>concat r\<close>.\<close>

definition to_runes :: "string \<Rightarrow> string list" where
  "to_runes s = map (\<lambda>r. if utf8_rune r then r else error_rune) (runes s)"

text \<open>\<open>strings.Split\<close> on a separator of several bytes.\<close>

function split_str :: "string \<Rightarrow> string \<Rightarrow> string list" where
  "split_str sep [] = [[]]"
| "split_str sep (c # s) =
    (if prefix sep (c # s) then [] # split_str sep (drop (length sep - 1) s)
     else (case split_str sep s of [] \<Rightarrow> [[c]] | p # ps \<Rightarrow> (c # p) # ps))"
  by pat_completeness auto
termination by (relation "measure (length o snd)") auto

subsection \<open>Splitting\<close>

fun last_newline :: "string list \<Rightarrow> nat \<Rightarrow> int" where
  "last_newline r 0 = -1"
| "last_newline r (Suc i) = (if r ! i = [CHR 10] then int i else last_newline r i)"

definition lastRuneNewlineBefore :: "string list \<Rightarrow> nat \<Rightarrow> int" where
  "lastRuneNewlineBefore r pos = last_newline r (if pos > length r then length r else pos)"

definition newline_cut :: "string list \<Rightarrow> nat \<Rightarrow> nat" where
  "newline_cut r limit = (let idx = lastRuneNewlineBefore r limit in if idx > 0 then nat (idx + 1) else limit)"

text \<open>The loop of \<open>splitMessageByNewlines\<close>: with a limit of 0 it would not end, so it is a partial function.\<close>

partial_function (option) newline_loop :: "nat \<Rightarrow> string list \<Rightarrow> string list option" where
  "newline_loop limit r =
    (if r = [] then Some []
     else if length r \<le> limit then Some [concat r]
     else Option.bind (newline_loop limit (drop (newline_cut r limit) r)) (\<lambda>cs. Some (concat (take (newline_cut r limit) r) # cs)))"

definition splitMessageByNewlines :: "string \<Rightarrow> nat \<Rightarrow> string list option" where
  "splitMessageByNewlines text limit =
    (let r = to_runes text in if length r \<le> limit then Some [text] else newline_loop limit r)"

text \<open>The atoms of \<open>packListingChunks\<close>: the pieces of the sections, the first piece of every section but the first
  preceded by the separator.\<close>

definition section_atoms :: "bool \<Rightarrow> string list \<Rightarrow> (string \<times> bool) list" where
  "section_atoms needsSep pieces = (case pieces of [] \<Rightarrow> [] | p # ps \<Rightarrow> (p, needsSep) # map (\<lambda>q. (q, False)) ps)"

fun atoms_of :: "nat \<Rightarrow> bool \<Rightarrow> string list \<Rightarrow> (string \<times> bool) list option" where
  "atoms_of limit needsSep [] = Some []"
| "atoms_of limit needsSep (p # ps) =
    (case splitMessageByNewlines p limit of
       None \<Rightarrow> None
     | Some pieces \<Rightarrow> map_option (\<lambda>as. section_atoms needsSep pieces @ as) (atoms_of limit True ps))"

fun pack_loop :: "nat \<Rightarrow> string \<Rightarrow> (string \<times> bool) list \<Rightarrow> string \<Rightarrow> nat \<Rightarrow> string list option" where
  "pack_loop limit sep [] b cur = Some (if b \<noteq> [] then [b] else [])"
| "pack_loop limit sep (a # as) b cur =
    (let nxt = (if snd a then sep else []) @ fst a; nr = RuneCountInString nxt in
     if b = [] then
       (if nr > limit then
          (case splitMessageByNewlines nxt limit of
             None \<Rightarrow> None | Some cs \<Rightarrow> map_option (\<lambda>ds. cs @ ds) (pack_loop limit sep as b cur))
        else pack_loop limit sep as nxt nr)
     else if cur + nr \<le> limit then pack_loop limit sep as (b @ nxt) (cur + nr)
     else map_option (\<lambda>ds. b # ds) (pack_loop limit sep as nxt nr))"

definition packListingChunks :: "string list \<Rightarrow> string \<Rightarrow> nat \<Rightarrow> string list option" where
  "packListingChunks parts sep limit =
    (case atoms_of limit False parts of None \<Rightarrow> None | Some as \<Rightarrow> pack_loop limit sep as [] 0)"

definition splitMessage :: "string \<Rightarrow> nat \<Rightarrow> string list option" where
  "splitMessage text limit =
    (if RuneCountInString text \<le> limit then Some [text]
     else let parts = split_str listing_sep text in
       if length parts > 1 then packListingChunks parts listing_sep limit
       else splitMessageByNewlines text limit)"

subsection \<open>Captions\<close>

definition ellipsis :: string where "ellipsis = [CHR 0xE2, CHR 0x80, CHR 0xA6]"

definition truncateTelegramCaption :: "string \<Rightarrow> nat \<Rightarrow> string" where
  "truncateTelegramCaption caption maxRunes =
    (let r = to_runes caption in
     if length r \<le> maxRunes then caption
     else if maxRunes \<le> 1 then concat (take maxRunes [ellipsis])
     else let idx = last_newline r (maxRunes - 1) in
       if idx \<ge> 0 then concat (take (nat idx) r) @ ellipsis else concat (take (maxRunes - 1) r) @ ellipsis)"

subsection \<open>One call with its retries\<close>

definition recipient_blocked :: "string \<Rightarrow> bool" where
  "recipient_blocked err =
    (let m = to_lower err in contains m ''bot was blocked by the user'' \<or> contains m ''user is deactivated'' \<or> contains m ''chat not found'')"

definition isMarkdownParseError :: "string \<Rightarrow> bool" where
  "isMarkdownParseError err =
    (let m = to_lower err in contains m (''can'' @ [CHR 0x27] @ ''t parse'') \<or> (contains m ''entities'' \<and> contains m ''parse''))"

definition isRateLimited :: "string \<Rightarrow> bool" where
  "isRateLimited err = (let m = to_lower err in contains m ''too many requests'' \<or> contains m ''retry_after'')"

text \<open>What follows the first occurrence of a pattern (\<open>strings.Index\<close>).\<close>

fun after_index :: "string \<Rightarrow> string \<Rightarrow> string option" where
  "after_index p [] = (if p = [] then Some [] else None)"
| "after_index p (c # s) = (if prefix p (c # s) then Some (drop (length p) (c # s)) else after_index p s)"

definition decimal_value :: "string \<Rightarrow> int" where
  "decimal_value ds = foldl (\<lambda>n c. 10 * n + (int (of_char c) - 48)) 0 ds"

text \<open>A product of durations wraps at 64 bits; \<open>strconv.Atoi\<close> fails above \<open>2 ^ 63 - 1\<close>.\<close>

definition wrap64 :: "int \<Rightarrow> int" where
  "wrap64 x = (x + 2 ^ 63) mod 2 ^ 64 - 2 ^ 63"

fun retry_after_in :: "string list \<Rightarrow> string \<Rightarrow> duration" where
  "retry_after_in [] m = retryAfterDefault"
| "retry_after_in (p # ps) m =
    (case after_index p m of
       None \<Rightarrow> retry_after_in ps m
     | Some rest \<Rightarrow>
         (let ds = takeWhile is_digit (dropWhile (\<lambda>c. c = CHR '' '') rest) in
          if ds \<noteq> [] \<and> decimal_value ds < 2 ^ 63 \<and> decimal_value ds > 0 then wrap64 (decimal_value ds * nanos_per_second)
          else retry_after_in ps m))"

definition parseRetryAfter :: "string \<Rightarrow> duration" where
  "parseRetryAfter err = retry_after_in [''retry after '', ''retry_after'' @ [CHR 0x22, CHR '':'']] (to_lower err)"

datatype send_result = Sent | SendBlocked string | SendFailed string | SendCancelled

text \<open>\<open>cancelled\<close> says for an attempt whether the context ends during the wait after it. The list holds the calls made,
  with their replies.\<close>

function sendMessageWithRetry :: "(nat \<Rightarrow> bool \<Rightarrow> string option) \<Rightarrow> (nat \<Rightarrow> bool) \<Rightarrow> nat \<Rightarrow> bool \<Rightarrow> send_result \<times> (bool \<times> string option) list" where
  "sendMessageWithRetry api cancelled attempt markdown =
    (case api attempt markdown of
       None \<Rightarrow> (Sent, [(markdown, None)])
     | Some err \<Rightarrow>
         if recipient_blocked err then (SendBlocked err, [(markdown, Some err)])
         else if isMarkdownParseError err \<and> markdown then
           (case sendMessageWithRetry api cancelled (attempt + 1) False of (r, cs) \<Rightarrow> (r, (markdown, Some err) # cs))
         else if \<not> isRateLimited err \<or> attempt \<ge> telegramMaxRetries then (SendFailed err, [(markdown, Some err)])
         else if cancelled attempt then (SendCancelled, [(markdown, Some err)])
         else (case sendMessageWithRetry api cancelled (attempt + 1) markdown of (r, cs) \<Rightarrow> (r, (markdown, Some err) # cs)))"
  by pat_completeness auto
termination
  by (relation "measure (\<lambda>(api, cancelled, attempt, markdown). (if markdown then 1 else 0) + (4 - attempt))")
    (auto simp: telegramMaxRetries_def)

text \<open>The wait before the next attempt.\<close>

definition retry_delay :: "nat \<Rightarrow> string \<Rightarrow> duration" where
  "retry_delay attempt err =
    (let delay = telegramRetryBaseDelay * 2 ^ attempt; w = parseRetryAfter err in if w > delay then w else delay)"

subsection \<open>Lemmas: valid text\<close>

lemma runes_append: "list_all utf8_rune rs \<Longrightarrow> runes (concat rs @ s) = rs @ runes s"
  by (induction rs) (simp_all add: runes_Cons_rune)

lemma valid_runes: "valid_utf8 s \<Longrightarrow> list_all utf8_rune (runes s)"
  by (simp add: valid_utf8_def)

lemma runes_split: "valid_utf8 a \<Longrightarrow> runes (a @ b) = runes a @ runes b"
  using runes_append [OF valid_runes, of a b] by (simp add: concat_runes)

lemma valid_append [simp]: "valid_utf8 a \<Longrightarrow> valid_utf8 (a @ b) = valid_utf8 b"
  using valid_runes by (simp add: valid_utf8_def runes_split)

lemma valid_Nil [simp]: "valid_utf8 []"
  by (simp add: valid_utf8_def)

lemma count_append: "valid_utf8 a \<Longrightarrow> RuneCountInString (a @ b) = RuneCountInString a + RuneCountInString b"
  by (simp add: RuneCountInString_def runes_split)

lemma count_Nil [simp]: "RuneCountInString [] = 0"
  by (simp add: RuneCountInString_def)

lemma to_runes_valid: "valid_utf8 s \<Longrightarrow> to_runes s = runes s"
  using valid_runes [of s] by (simp add: to_runes_def list_all_iff map_idI)

text \<open>An ASCII byte is a rune of its own, so text can be cut at it.\<close>

lemma runes_cut_at_ascii:
  assumes "list_all utf8_rune rs" "concat rs = a @ c # b" "byte_in 0 0x7F c"
  shows "valid_utf8 a \<and> valid_utf8 b"
  using assms
proof (induction rs arbitrary: a)
  case (Cons r rs)
  have r: "utf8_rune r" and rs: "list_all utf8_rune rs" using Cons.prems(1) by simp_all
  have "r @ concat rs = a @ c # b" using Cons.prems(2) by simp
  then consider (long) a' where "a = r @ a'" "concat rs = a' @ c # b" | (short) r' where "r = a @ c # r'" "b = r' @ concat rs"
    by (auto simp: append_eq_append_conv2 append_eq_Cons_conv)
  then show ?case
  proof cases
    case long
    have "valid_utf8 r" using r valid_utf8_concat [of "[r]"] by simp
    then show ?thesis using Cons.IH [OF rs long(2) Cons.prems(3)] long(1) by simp
  next
    case short
    have "\<not> byte_in 0x80 0xFF c" using Cons.prems(3) by (auto simp: byte_in_def)
    then obtain d where "r = [d]" using utf8_rune_bytes [OF r] short(1) by auto
    then have "a = []" "r' = []" using short(1) by (cases a; simp)+
    then show ?thesis using short(2) valid_utf8_concat [OF rs] by simp
  qed
qed simp

lemma valid_cut: "valid_utf8 (a @ c # b) \<Longrightarrow> byte_in 0 0x7F c \<Longrightarrow> valid_utf8 a \<and> valid_utf8 b"
  using runes_cut_at_ascii [OF valid_runes concat_runes] by blast

lemma split_str_not_Nil [simp]: "split_str sep s \<noteq> []"
  by (cases "(sep, s)" rule: split_str.cases) (auto split: list.split)

lemma join_split_str: "sep \<noteq> [] \<Longrightarrow> join_with sep (split_str sep s) = s"
proof (induction sep s rule: split_str.induct)
  case (1 sep)
  then show ?case by simp
next
  case (2 sep c s)
  show ?case
  proof (cases "prefix sep (c # s)")
    case True
    then obtain t where t: "c # s = sep @ t" by (auto simp: prefix_def)
    then have "drop (length sep - 1) s = t" using 2(3) by (cases sep) auto
    moreover obtain p ps where "split_str sep t = p # ps" using split_str_not_Nil [of sep t] by (cases "split_str sep t") auto
    moreover have "split_str sep (c # s) = [] # split_str sep (drop (length sep - 1) s)" using True by simp
    ultimately show ?thesis using 2(1) [OF True 2(3)] t by simp
  next
    case False
    then show ?thesis using 2(2) [OF False 2(3)]
      by (cases "split_str sep s") (auto simp: join_with_Cons_head)
  qed
qed

lemma join_valid_parts:
  assumes "valid_utf8 (join_with (CHR 10 # line @ [CHR 10]) parts)" "valid_utf8 line" "p \<in> set parts"
  shows "valid_utf8 p"
  using assms(1,3)
proof (induction parts rule: induct_list012)
  case (3 x y zs)
  let ?sep = "CHR 10 # line @ [CHR 10]"
  have ascii: "byte_in 0 0x7F (CHR 10)" by (simp add: byte_in_def)
  have "valid_utf8 (x @ CHR 10 # line @ CHR 10 # join_with ?sep (y # zs))" using 3(3) by simp
  from valid_cut [OF this ascii] have x: "valid_utf8 x" and rest: "valid_utf8 (line @ CHR 10 # join_with ?sep (y # zs))" by blast+
  have "valid_utf8 (join_with ?sep (y # zs))" using valid_cut [OF rest ascii] by blast
  then show ?case using x 3(2,4) by auto
qed simp_all

lemma line_valid: "valid_utf8 telegramListingSeparatorLine" "valid_utf8 listing_sep" "RuneCountInString listing_sep = 22"
proof -
  have u: "utf8_rune [CHR 0xE2, CHR 0x94, CHR 0x81]" "utf8_rune [CHR 10]"
    by (simp_all add: utf8_rune_def rune_width.simps byte_in_def second_byte_def)
  then show "valid_utf8 telegramListingSeparatorLine"
    unfolding telegramListingSeparatorLine_def by (intro valid_utf8_concat) (simp add: list_all_iff)
  have sep: "listing_sep = concat ([CHR 10] # replicate 20 [CHR 0xE2, CHR 0x94, CHR 0x81] @ [[CHR 10]])"
    by (simp add: listing_sep_def telegramListingSeparatorLine_def)
  have all: "list_all utf8_rune ([CHR 10] # replicate 20 [CHR 0xE2, CHR 0x94, CHR 0x81] @ [[CHR 10]])" using u by (simp add: list_all_iff)
  show "valid_utf8 listing_sep" unfolding sep by (rule valid_utf8_concat [OF all])
  show "RuneCountInString listing_sep = 22" unfolding sep RuneCountInString_def runes_concat [OF all] by simp
qed

lemma split_parts_valid: "valid_utf8 text \<Longrightarrow> p \<in> set (split_str listing_sep text) \<Longrightarrow> valid_utf8 p"
  using join_valid_parts [of telegramListingSeparatorLine "split_str listing_sep text" p] line_valid(1) join_split_str [of listing_sep "text"]
  by (simp add: listing_sep_def)

subsection \<open>Lemmas: the pieces\<close>

lemma last_newline_less: "last_newline r n < int n"
  by (induction n) auto

lemma newline_cut_range: "0 < limit \<Longrightarrow> limit < length r \<Longrightarrow> 0 < newline_cut r limit \<and> newline_cut r limit \<le> limit"
  using last_newline_less [of r limit] by (auto simp: newline_cut_def lastRuneNewlineBefore_def Let_def)

text \<open>Pieces that put the text together again, each within the limit.\<close>

definition pieces_of :: "nat \<Rightarrow> string \<Rightarrow> string list \<Rightarrow> bool" where
  "pieces_of limit text cs \<longleftrightarrow> concat cs = text \<and> (\<forall>c \<in> set cs. valid_utf8 c \<and> RuneCountInString c \<le> limit)"

lemma newline_loop_pieces:
  assumes "0 < limit"
  shows "list_all utf8_rune rs \<Longrightarrow> \<exists>cs. newline_loop limit rs = Some cs \<and> pieces_of limit (concat rs) cs"
proof (induction rs rule: measure_induct_rule [of length])
  case (less rs)
  have piece: "valid_utf8 (concat qs) \<and> RuneCountInString (concat qs) = length qs" if "list_all utf8_rune qs" for qs
    using that by (simp add: valid_utf8_concat RuneCountInString_def runes_concat)
  show ?case
  proof (cases "length rs \<le> limit")
    case True
    then have "newline_loop limit rs = Some (if rs = [] then [] else [concat rs])" by (simp add: newline_loop.simps [of limit rs])
    then show ?thesis using piece [OF less(2)] True by (auto simp: pieces_of_def)
  next
    case False
    let ?k = "newline_cut rs limit"
    have k: "0 < ?k" "?k \<le> limit" using newline_cut_range [OF assms, of rs] False by simp_all
    have sub: "list_all utf8_rune (take ?k rs)" "list_all utf8_rune (drop ?k rs)"
      using less(2) by (auto simp: list_all_iff dest: in_set_takeD in_set_dropD)
    have "length (drop ?k rs) < length rs" using k False by auto
    from less(1) [OF this sub(2)] obtain cs where cs: "newline_loop limit (drop ?k rs) = Some cs" "pieces_of limit (concat (drop ?k rs)) cs" by blast
    have "concat rs = concat (take ?k rs) @ concat (drop ?k rs)" by (metis append_take_drop_id concat_append)
    moreover have "length (take ?k rs) \<le> limit" using k(2) by simp
    ultimately have "pieces_of limit (concat rs) (concat (take ?k rs) # cs)"
      using cs(2) piece [OF sub(1)] by (simp add: pieces_of_def)
    moreover have "rs \<noteq> []" using False by auto
    ultimately show ?thesis using False cs(1) by (simp add: newline_loop.simps [of limit rs])
  qed
qed

lemma split_newlines_pieces:
  assumes "0 < limit" "valid_utf8 text"
  obtains cs where "splitMessageByNewlines text limit = Some cs" "pieces_of limit text cs"
proof (cases "RuneCountInString text \<le> limit")
  case True
  then show ?thesis using that [of "[text]"] assms(2)
    by (simp add: splitMessageByNewlines_def to_runes_valid RuneCountInString_def pieces_of_def Let_def)
next
  case False
  then show ?thesis using newline_loop_pieces [OF assms(1) valid_runes [OF assms(2)]] assms(2) that
    by (auto simp: splitMessageByNewlines_def to_runes_valid RuneCountInString_def concat_runes Let_def)
qed

text \<open>What an atom adds to the message.\<close>

definition atom_text :: "string \<Rightarrow> string \<times> bool \<Rightarrow> string" where
  "atom_text sep a = (if snd a then sep else []) @ fst a"

lemma atoms_of_pieces:
  assumes "0 < limit" "\<forall>p \<in> set parts. valid_utf8 p"
  shows "\<exists>as. atoms_of limit needsSep parts = Some as \<and>
    concat (map (atom_text sep) as) = (if needsSep then concat (map (\<lambda>p. sep @ p) parts) else join_with sep parts) \<and>
    (\<forall>a \<in> set as. valid_utf8 (fst a) \<and> RuneCountInString (fst a) \<le> limit)"
  using assms(2)
proof (induction parts arbitrary: needsSep)
  case (Cons p ps)
  obtain cs where cs: "splitMessageByNewlines p limit = Some cs" "pieces_of limit p cs"
    using split_newlines_pieces [OF assms(1), of p] Cons.prems by auto
  obtain as where as: "atoms_of limit True ps = Some as" "concat (map (atom_text sep) as) = concat (map (\<lambda>p. sep @ p) ps)"
    "\<forall>a \<in> set as. valid_utf8 (fst a) \<and> RuneCountInString (fst a) \<le> limit"
    using Cons.IH [of True] Cons.prems by auto
  have ne: "cs \<noteq> []"
  proof
    assume "cs = []"
    then have "p = []" using cs(2) by (simp add: pieces_of_def)
    with cs(1) \<open>cs = []\<close> show False by (simp add: splitMessageByNewlines_def to_runes_def)
  qed
  then obtain d ds where d: "cs = d # ds" by (cases cs) auto
  have sec: "concat (map (atom_text sep) (section_atoms needsSep cs)) = (if needsSep then sep else []) @ p"
    using cs(2) by (simp add: d section_atoms_def atom_text_def comp_def pieces_of_def)
  have ok: "\<forall>a \<in> set (section_atoms needsSep cs). valid_utf8 (fst a) \<and> RuneCountInString (fst a) \<le> limit"
    using cs(2) by (auto simp: d section_atoms_def pieces_of_def)
  have join: "join_with sep (p # ps) = p @ concat (map (\<lambda>p. sep @ p) ps)" for p
    by (induction ps arbitrary: p) simp_all
  show ?case using cs(1) as sec ok by (auto simp: join)
qed simp

lemma pack_loop_pieces:
  assumes "0 < limit" "valid_utf8 sep" "\<forall>a \<in> set as. valid_utf8 (fst a)"
  shows "\<exists>cs. pack_loop limit sep as b cur = Some cs \<and> concat cs = b @ concat (map (atom_text sep) as)"
  using assms(3)
proof (induction as arbitrary: b cur)
  case (Cons a as)
  let ?nxt = "(if snd a then sep else []) @ fst a"
  have v: "valid_utf8 ?nxt" using assms(2) Cons.prems by simp
  obtain cs where cs: "splitMessageByNewlines ?nxt limit = Some cs" "pieces_of limit ?nxt cs"
    using split_newlines_pieces [OF assms(1) v] by blast
  obtain d1 where d1: "pack_loop limit sep as b cur = Some d1" "concat d1 = b @ concat (map (atom_text sep) as)"
    using Cons by force
  obtain d2 where d2: "pack_loop limit sep as ?nxt (RuneCountInString ?nxt) = Some d2" "concat d2 = ?nxt @ concat (map (atom_text sep) as)"
    using Cons by force
  obtain d3 where d3: "pack_loop limit sep as (b @ ?nxt) (cur + RuneCountInString ?nxt) = Some d3"
      "concat d3 = (b @ ?nxt) @ concat (map (atom_text sep) as)"
    using Cons by force
  have at: "concat (map (atom_text sep) (a # as)) = ?nxt @ concat (map (atom_text sep) as)" by (simp add: atom_text_def)
  have c: "concat cs = ?nxt" using cs(2) by (simp add: pieces_of_def)
  consider "b = []" "RuneCountInString ?nxt > limit" | "b = []" "\<not> RuneCountInString ?nxt > limit"
    | "b \<noteq> []" "cur + RuneCountInString ?nxt \<le> limit" | "b \<noteq> []" "\<not> cur + RuneCountInString ?nxt \<le> limit" by blast
  then show ?case unfolding at
  proof cases
    case 1
    then show "\<exists>cs. pack_loop limit sep (a # as) b cur = Some cs \<and> concat cs = b @ ?nxt @ concat (map (atom_text sep) as)"
      using cs(1) c d1 by (intro exI [of _ "cs @ d1"]) (simp add: Let_def)
  next
    case 2
    then show "\<exists>cs. pack_loop limit sep (a # as) b cur = Some cs \<and> concat cs = b @ ?nxt @ concat (map (atom_text sep) as)"
      using d2 by (intro exI [of _ d2]) (simp add: Let_def)
  next
    case 3
    then show "\<exists>cs. pack_loop limit sep (a # as) b cur = Some cs \<and> concat cs = b @ ?nxt @ concat (map (atom_text sep) as)"
      using d3 by (intro exI [of _ d3]) (simp add: Let_def)
  next
    case 4
    then show "\<exists>cs. pack_loop limit sep (a # as) b cur = Some cs \<and> concat cs = b @ ?nxt @ concat (map (atom_text sep) as)"
      using d2 by (intro exI [of _ "b # d2"]) (simp add: Let_def)
  qed
qed simp

subsection \<open>Properties\<close>

text \<open>C22. Splitting a message always ends and loses nothing: the chunks, one after the other, are the text, whatever
  valid text and whatever positive limit.\<close>

theorem split_message_roundtrip:
  assumes "valid_utf8 msg" "0 < limit"
  shows "\<exists>chunks. splitMessage msg limit = Some chunks \<and> concat chunks = msg"
proof -
  let ?parts = "split_str listing_sep msg"
  obtain as where as: "atoms_of limit False ?parts = Some as" "concat (map (atom_text listing_sep) as) = join_with listing_sep ?parts"
    "\<forall>a \<in> set as. valid_utf8 (fst a)"
    using atoms_of_pieces [OF assms(2), of ?parts False listing_sep] split_parts_valid [OF assms(1)] by auto
  obtain cs where cs: "pack_loop limit listing_sep as [] 0 = Some cs" "concat cs = msg"
    using pack_loop_pieces [OF assms(2) line_valid(2) as(3), of "[]" 0] as(2) join_split_str [of listing_sep msg]
    by (auto simp: listing_sep_def)
  obtain ds where ds: "splitMessageByNewlines msg limit = Some ds" "pieces_of limit msg ds"
    using split_newlines_pieces [OF assms(2,1)] by blast
  show ?thesis using as(1) cs ds by (auto simp: splitMessage_def packListingChunks_def pieces_of_def Let_def)
qed

theorem split_message_roundtrip_witness:
  "\<exists>chunks. splitMessage (''ab'' @ listing_sep @ ''cd'') 24 = Some chunks \<and> concat chunks = ''ab'' @ listing_sep @ ''cd''"
  by (rule split_message_roundtrip) code_simp+

lemma split_str_single:
  assumes "\<not> sublist sep s"
  shows "split_str sep s = [s]"
  using assms
proof (induction sep s rule: split_str.induct)
  case (2 sep c s)
  have "\<not> prefix sep (c # s)" "\<not> sublist sep s" using 2(3) by (auto simp: sublist_Cons_right)
  then show ?case using 2(2) by simp
qed simp

lemma split_str_two:
  assumes "CHR 10 \<notin> set x" "CHR 10 \<notin> set y"
  shows "split_str listing_sep (x @ listing_sep @ y) = [x, y]"
  using assms(1)
proof (induction x)
  case Nil
  have "\<not> sublist listing_sep y" using assms(2) by (auto simp: listing_sep_def sublist_def)
  moreover have "drop (length listing_sep - 1) (tl (listing_sep @ y)) = y" by (simp add: listing_sep_def)
  ultimately show ?case using split_str_single [of listing_sep y] by (simp add: listing_sep_def)
next
  case (Cons c x)
  then have "\<not> prefix listing_sep (c # x @ listing_sep @ y)" by (auto simp: listing_sep_def)
  then show ?case using Cons by simp
qed

text \<open>A chunk is meant to stay within the limit, but the separator is not counted when a section is cut to the limit: a
  section that fits the limit alone and not together with the separator before it makes a chunk over the limit,
  which Telegram refuses.\<close>

lemma split_chunk_over_limit:
  assumes "valid_utf8 x" "valid_utf8 y" "CHR 10 \<notin> set x" "CHR 10 \<notin> set y" "x \<noteq> []"
    and "RuneCountInString x \<le> limit" "RuneCountInString y \<le> limit" "limit < RuneCountInString y + 22"
  shows "splitMessage (x @ listing_sep @ y) limit = Some [x, listing_sep @ y] \<and> limit < RuneCountInString (listing_sep @ y)"
proof -
  have cnt: "RuneCountInString (listing_sep @ y) = 22 + RuneCountInString y" by (simp add: count_append line_valid)
  have all: "\<not> RuneCountInString (x @ listing_sep @ y) \<le> limit" using cnt assms(1,8) by (simp add: count_append)
  have one: "splitMessageByNewlines p limit = Some [p]" if "valid_utf8 p" "RuneCountInString p \<le> limit" for p
    using that by (simp add: splitMessageByNewlines_def to_runes_valid RuneCountInString_def Let_def)
  have "atoms_of limit False [x, y] = Some [(x, False), (y, True)]"
    using one assms by (simp add: section_atoms_def)
  moreover have "pack_loop limit listing_sep [(x, False), (y, True)] [] 0 = Some [x, listing_sep @ y]"
    using assms cnt by (simp add: Let_def listing_sep_def)
  ultimately show ?thesis
    using all cnt assms(8) split_str_two [OF assms(3,4)] by (simp add: splitMessage_def packListingChunks_def Let_def)
qed

lemma split_chunk_over_limit_witness:
  "splitMessage (''batch'' @ listing_sep @ replicate 4090 CHR ''x'') maxMessageLen = Some [''batch'', listing_sep @ replicate 4090 CHR ''x''] \<and>
    maxMessageLen < RuneCountInString (listing_sep @ replicate 4090 CHR ''x'')"
proof -
  have r: "list_all utf8_rune (replicate n [CHR ''x''])" "concat (replicate n [CHR ''x'']) = replicate n CHR ''x''" for n
    by (induction n) (simp_all add: utf8_rune_def rune_width.simps byte_in_def)
  have "valid_utf8 (replicate 4090 CHR ''x'')" "RuneCountInString (replicate 4090 CHR ''x'') = 4090"
    using valid_utf8_concat [OF r(1) [of 4090]] runes_concat [OF r(1) [of 4090]] by (simp_all only: r(2) RuneCountInString_def length_replicate)
  moreover have "valid_utf8 ''batch''" "RuneCountInString ''batch'' = 5" by code_simp+
  ultimately show ?thesis by (intro split_chunk_over_limit) (simp_all add: maxMessageLen_def)
qed

text \<open>A caption is cut to its limit, whatever the text.\<close>

lemma caption_within_limit: "RuneCountInString (truncateTelegramCaption caption n) \<le> n"
proof -
  have e: "utf8_rune error_rune" "utf8_rune ellipsis"
    by (simp_all add: utf8_rune_def error_rune_def ellipsis_def rune_width.simps byte_in_def second_byte_def)
  have len: "length (to_runes caption) = RuneCountInString caption" by (simp add: to_runes_def RuneCountInString_def)
  have all: "list_all utf8_rune (to_runes caption)" using e(1) by (auto simp: to_runes_def list_all_iff)
  have cut: "RuneCountInString (concat (take k (to_runes caption)) @ ellipsis) \<le> k + 1" for k
  proof -
    have "list_all utf8_rune (take k (to_runes caption) @ [ellipsis])" using all e(2) by (auto simp: list_all_iff dest: in_set_takeD)
    from runes_concat [OF this] show ?thesis by (simp add: RuneCountInString_def)
  qed
  have small: "RuneCountInString (concat (take n [ellipsis])) \<le> n" if "n \<le> 1"
    using that runes_concat [of "[ellipsis]"] e(2) by (cases n) (simp_all add: RuneCountInString_def)
  have idx: "last_newline (to_runes caption) (n - 1) < int (n - 1)" by (rule last_newline_less)
  show ?thesis
  proof (cases "length (to_runes caption) \<le> n \<or> n \<le> 1")
    case True
    then show ?thesis using small len by (auto simp: truncateTelegramCaption_def Let_def)
  next
    case False
    let ?i = "last_newline (to_runes caption) (n - 1)"
    have "nat ?i + 1 \<le> n" if "?i \<ge> 0" using idx that False by linarith
    then show ?thesis using False order_trans [OF cut [of "nat ?i"]] order_trans [OF cut [of "n - 1"]]
      by (auto simp: truncateTelegramCaption_def Let_def)
  qed
qed

declare sendMessageWithRetry.simps [simp del]

lemma retry_calls:
  assumes "sendMessageWithRetry api cancelled attempt markdown = (r, calls)"
  shows "length calls \<le> (if markdown then 1 else 0) + max 1 (4 - attempt) \<and> calls \<noteq> [] \<and> (r = Sent \<longleftrightarrow> snd (last calls) = None) \<and>
    (\<forall>c \<in> set (butlast calls). \<exists>err. snd c = Some err \<and> (isRateLimited err \<or> isMarkdownParseError err))"
  using assms
proof (induction api cancelled attempt markdown arbitrary: r calls rule: sendMessageWithRetry.induct)
  case (1 api cancelled attempt markdown)
  note eq = sendMessageWithRetry.simps [of api cancelled attempt markdown]
  show ?case
  proof (cases "api attempt markdown")
    case None
    then show ?thesis using 1(3) by (auto simp: eq)
  next
    case (Some err)
    obtain r1 cs1 where f: "sendMessageWithRetry api cancelled (attempt + 1) False = (r1, cs1)" by (metis prod.exhaust)
    obtain r2 cs2 where g: "sendMessageWithRetry api cancelled (attempt + 1) markdown = (r2, cs2)" by (metis prod.exhaust)
    consider (blocked) "recipient_blocked err" | (plain) "\<not> recipient_blocked err" "isMarkdownParseError err \<and> markdown"
      | (failed) "\<not> recipient_blocked err" "\<not> (isMarkdownParseError err \<and> markdown)" "\<not> isRateLimited err \<or> attempt \<ge> telegramMaxRetries"
      | (stop) "\<not> recipient_blocked err" "\<not> (isMarkdownParseError err \<and> markdown)" "\<not> (\<not> isRateLimited err \<or> attempt \<ge> telegramMaxRetries)" "cancelled attempt"
      | (again) "\<not> recipient_blocked err" "\<not> (isMarkdownParseError err \<and> markdown)" "\<not> (\<not> isRateLimited err \<or> attempt \<ge> telegramMaxRetries)" "\<not> cancelled attempt"
      by blast
    then show ?thesis
    proof cases
      case plain
      then have "calls = (markdown, Some err) # cs1" "r = r1" using 1(3) plain f unfolding eq Some by auto
      then show ?thesis using 1(1) [OF Some plain f] plain by auto
    next
      case again
      then have "calls = (markdown, Some err) # cs2" "r = r2" using 1(3) Some g by (auto simp: eq)
      moreover have "attempt < 3" using again by (simp add: telegramMaxRetries_def)
      ultimately show ?thesis using 1(2) [OF Some again g] again by auto
    qed (use 1(3) Some in \<open>auto simp: eq\<close>)
  qed
qed

text \<open>A message is delivered at most once by a call with its retries, which end after five requests: every request but
  the last was refused by Telegram, for its rate or for the Markdown, so only the last can have reached the chat,
  and the caller is told that the message was sent exactly when it did.\<close>

lemma message_sent_at_most_once:
  "case sendMessageWithRetry api cancelled 0 markdown of (r, calls) \<Rightarrow>
    length calls \<le> 5 \<and> calls \<noteq> [] \<and> (r = Sent \<longleftrightarrow> snd (last calls) = None) \<and>
    list_all (\<lambda>c. case snd c of Some err \<Rightarrow> isRateLimited err \<or> isMarkdownParseError err | None \<Rightarrow> False) (butlast calls)"
proof -
  obtain r calls where s: "sendMessageWithRetry api cancelled 0 markdown = (r, calls)" by (metis prod.exhaust)
  show ?thesis using retry_calls [OF s] by (auto simp: s list_all_iff split: if_splits option.split)
qed

end
