(* ===== verification/Channels.thy ===== *)
theory Channels
  imports Telegram Database
begin

section \<open>The channels of the notifier (internal/notifier/multi.go, webpush/webpush.go)\<close>

text \<open>
  Which notifier a recipient is reached through, and what a web push counts as delivered. The errors a caller can
  tell apart are the constructors of \<open>channel_error\<close>; None is success.
\<close>

datatype channel_error = ErrNoChannelNotifier | ErrRecipientBlocked | ErrNoDelivery | ChannelFailed string

subsection \<open>Choosing the channel\<close>

record 'n multi_notifier =
  mn_notifiers :: "(string \<times> 'n) list"
  mn_fallback :: string

definition NewMultiNotifier :: "'n multi_notifier" where
  "NewMultiNotifier = \<lparr>mn_notifiers = [], mn_fallback = []\<rparr>"

definition Register :: "string \<Rightarrow> 'n option \<Rightarrow> 'n multi_notifier \<Rightarrow> (string + unit) \<times> 'n multi_notifier" where
  "Register channel n m =
    (if channel = '''' then (Inl ''channel must not be empty'', m)
     else case n of
       None \<Rightarrow> (Inl ''notifier must not be nil'', m)
     | Some x \<Rightarrow>
         (Inr (), m\<lparr>mn_fallback := (if mn_fallback m = '''' then channel else mn_fallback m),
            mn_notifiers := AList.update channel x (mn_notifiers m)\<rparr>))"

definition normalizeChannel :: "string \<Rightarrow> string" where
  "normalizeChannel channel = (if channel = ''web'' then ''webpush'' else channel)"

definition addFallback :: "'n multi_notifier \<Rightarrow> (string \<times> 'n) list" where
  "addFallback m = (case map_of (mn_notifiers m) (mn_fallback m) of Some n \<Rightarrow> [(mn_fallback m, n)] | None \<Rightarrow> [])"

text \<open>\<open>recipient\<close> is the chat id when it parses; \<open>lookup\<close> is \<open>GetUser\<close>: an error, no user, or the channel of the user.\<close>

definition resolveAll :: "(int \<Rightarrow> db_error + string option) \<Rightarrow> int option \<Rightarrow> 'n multi_notifier \<Rightarrow> (string \<times> 'n) list" where
  "resolveAll lookup recipient m =
    (case recipient of
       None \<Rightarrow> addFallback m
     | Some chatID \<Rightarrow>
         (case lookup chatID of
            Inl _ \<Rightarrow> addFallback m
          | Inr user \<Rightarrow>
              (let channel = (case user of Some c \<Rightarrow> normalizeChannel c | None \<Rightarrow> '''') in
               case map_of (mn_notifiers m) channel of Some n \<Rightarrow> [(channel, n)] | None \<Rightarrow> addFallback m)))"

text \<open>The fan-out of \<open>Notify\<close> and \<open>NotifyRaw\<close>: a success of any target is a success, otherwise the errors are joined,
  which keeps the classes the consumer asks for.\<close>

definition fan_out :: "('n \<Rightarrow> channel_error option) \<Rightarrow> (string \<times> 'n) list \<Rightarrow> channel_error list \<times> nat" where
  "fan_out call targets =
    (let rs = map (\<lambda>(ch, n). call n) targets
     in (List.map_filter id rs, length (filter (\<lambda>r. r = None) rs)))"

definition joined :: "channel_error list \<Rightarrow> channel_error option" where
  "joined errs =
    (if errs = [] then None
     else if ErrNoChannelNotifier \<in> set errs then Some ErrNoChannelNotifier
     else if ErrRecipientBlocked \<in> set errs then Some ErrRecipientBlocked
     else if ErrNoDelivery \<in> set errs then Some ErrNoDelivery
     else Some (hd errs))"

definition multi_NotifyRaw :: "(int \<Rightarrow> db_error + string option) \<Rightarrow> ('n \<Rightarrow> channel_error option) \<Rightarrow> int option \<Rightarrow> 'n multi_notifier \<Rightarrow>
    channel_error option" where
  "multi_NotifyRaw lookup call recipient m =
    (let targets = resolveAll lookup recipient m in
     if targets = [] then Some ErrNoChannelNotifier
     else case fan_out call targets of (errs, ok) \<Rightarrow> if ok > 0 then None else joined errs)"

subsection \<open>Web push\<close>

text \<open>A reply of the push service: an error of the transport or an HTTP status.\<close>

record push_outcome =
  po_firstErr :: "string option"
  po_gone :: "string list"
  po_delivered :: "string list"

definition first_error :: "string \<Rightarrow> push_outcome \<Rightarrow> push_outcome" where
  "first_error e p = p\<lparr>po_firstErr := (case po_firstErr p of None \<Rightarrow> Some e | Some x \<Rightarrow> Some x)\<rparr>"

fun push_deliver :: "(string \<Rightarrow> string + int) \<Rightarrow> string list \<Rightarrow> push_outcome \<Rightarrow> push_outcome" where
  "push_deliver reply [] p = p"
| "push_deliver reply (ep # eps) p = push_deliver reply eps
    (case reply ep of
       Inl err \<Rightarrow> first_error err p
     | Inr status \<Rightarrow>
         if status = 410 then p\<lparr>po_gone := po_gone p @ [ep]\<rparr>
         else if status = 429 then p
         else if 200 \<le> status \<and> status < 300 then p\<lparr>po_delivered := po_delivered p @ [ep]\<rparr>
         else first_error ''webpush: unexpected status'' p)"

text \<open>\<open>NotifyRaw\<close> for a recipient that parses: the subscriptions of the chat, or the error of listing them. The
  result carries the subscriptions that are deleted as gone and those that got the message.\<close>

definition push_NotifyRaw :: "(string \<Rightarrow> string + int) \<Rightarrow> db_error + string list \<Rightarrow> channel_error option \<times> push_outcome" where
  "push_NotifyRaw reply subs =
    (let none = \<lparr>po_firstErr = None, po_gone = [], po_delivered = []\<rparr> in
     case subs of
       Inl _ \<Rightarrow> (Some (ChannelFailed ''webpush: list subscriptions''), none)
     | Inr eps \<Rightarrow>
         if eps = [] then (Some ErrNoDelivery, none)
         else let p = push_deliver reply eps none in (map_option ChannelFailed (po_firstErr p), p))"

subsection \<open>Lemmas\<close>

lemma push_deliver_delivered:
  "set (po_delivered (push_deliver reply eps p)) =
    set (po_delivered p) \<union> {ep \<in> set eps. \<exists>st. reply ep = Inr st \<and> 200 \<le> st \<and> st < 300}"
proof (induction eps arbitrary: p)
  case (Cons ep eps)
  show ?case
  proof (cases "reply ep")
    case (Inl e)
    then show ?thesis using Cons by (auto simp: first_error_def)
  next
    case (Inr st)
    then show ?thesis using Cons by (auto simp: first_error_def)
  qed
qed simp

lemma push_deliver_firstErr:
  "po_firstErr (push_deliver reply eps p) = None \<longleftrightarrow>
    po_firstErr p = None \<and> (\<forall>ep \<in> set eps. \<exists>st. reply ep = Inr st \<and> (st = 410 \<or> st = 429 \<or> 200 \<le> st \<and> st < 300))"
proof (induction eps arbitrary: p)
  case (Cons ep eps)
  show ?case
  proof (cases "reply ep")
    case (Inl e)
    then show ?thesis using Cons by (simp add: first_error_def split: option.split)
  next
    case (Inr st)
    then show ?thesis using Cons by (auto simp: first_error_def split: option.split)
  qed
qed simp

subsection \<open>Properties\<close>

text \<open>A user whose channel is registered is reached through that channel and no other: the message is sent once, to
  the notifier of the channel, and its error is the caller's error. The fallback is used only when the user or the
  channel cannot be resolved.\<close>

lemma recipient_reached_on_own_channel:
  assumes "lookup chat = Inr (Some ch)" "map_of (mn_notifiers m) (normalizeChannel ch) = Some n"
  shows "resolveAll lookup (Some chat) m = [(normalizeChannel ch, n)] \<and> multi_NotifyRaw lookup call (Some chat) m = call n"
proof -
  have r: "resolveAll lookup (Some chat) m = [(normalizeChannel ch, n)]" using assms by (simp add: resolveAll_def)
  then show ?thesis
    by (cases "call n"; cases "the (call n)") (auto simp: multi_NotifyRaw_def fan_out_def joined_def Let_def map_filter_simps)
qed

lemma recipient_reached_on_own_channel_witness:
  "multi_NotifyRaw (\<lambda>_. Inr (Some ''web'')) (\<lambda>n. if n = (2 :: nat) then Some ErrNoDelivery else None) (Some 7)
     \<lparr>mn_notifiers = [(''telegram'', 1), (''webpush'', 2)], mn_fallback = ''telegram''\<rparr> = Some ErrNoDelivery"
proof -
  let ?call = "\<lambda>n. if n = (2 :: nat) then Some ErrNoDelivery else None"
  have "multi_NotifyRaw (\<lambda>_. Inr (Some ''web'')) ?call (Some 7)
     \<lparr>mn_notifiers = [(''telegram'', 1), (''webpush'', 2)], mn_fallback = ''telegram''\<rparr> = ?call 2"
    by (rule recipient_reached_on_own_channel [THEN conjunct2]) (rule refl, simp add: normalizeChannel_def)
  then show ?thesis by simp
qed

text \<open>A web push that reaches nobody is reported as delivered when every subscription of the user is gone or turned
  down for its rate: the error that stands for no delivery is only returned when there was no subscription to
  begin with, so the alert is acknowledged as sent and never tried again.\<close>

lemma unreached_push_counts_as_sent:
  assumes "eps \<noteq> []" "\<forall>ep \<in> set eps. reply ep = Inr 410 \<or> reply ep = Inr 429"
  shows "fst (push_NotifyRaw reply (Inr eps)) = None \<and> po_delivered (snd (push_NotifyRaw reply (Inr eps))) = []"
proof -
  let ?none = "\<lparr>po_firstErr = None, po_gone = [], po_delivered = []\<rparr>"
  have "po_firstErr (push_deliver reply eps ?none) = None" using assms(2) by (auto simp: push_deliver_firstErr)
  moreover have "set (po_delivered (push_deliver reply eps ?none)) = {}"
  proof -
    have "\<not> (\<exists>st. reply ep = Inr st \<and> 200 \<le> st \<and> st < 300)" if "ep \<in> set eps" for ep
      using assms(2) that by force
    then show ?thesis by (auto simp: push_deliver_delivered)
  qed
  ultimately show ?thesis using assms(1) by (simp add: push_NotifyRaw_def)
qed

lemma unreached_push_counts_as_sent_witness:
  "fst (push_NotifyRaw (\<lambda>ep. if ep = ''a'' then Inr 410 else Inr 429) (Inr [''a'', ''b''])) = None"
  by (rule unreached_push_counts_as_sent [THEN conjunct1]) simp_all

end
