(* ===== verification/AlertQueue.thy ===== *)
theory AlertQueue
  imports Channels Claims DigestFlow
begin

section \<open>The alert queue (internal/broker/consumer.go, cmd/notifier/main.go)\<close>

text \<open>
  The consumer of the alert stream: it delivers each alert, retries what failed, moves what fails too often to the
  dead-letter stream, and keeps the dedup claims and the delivery ledger in step. Redis is a record of operations on
  a state of its own (\<open>redis_ops\<close>); what the consumer relies on is the locale \<open>consumer_group\<close>. The notifier's
  answers, and whether the rate limiter is cancelled, are lists that each call consumes. Alerts are decoded by the
  argument \<open>decode\<close>.
\<close>

subsection \<open>Messages, Redis and the state of the consumer\<close>

record alert =
  at_ChatID :: int
  at_SearchID :: int
  at_SearchName :: string
  at_Tokens :: "string list"
  at_Message :: string
  at_Language :: string
  at_Timestamp :: string

record redis_message =
  rm_ID :: string
  rm_data :: "string option"

record pending_entry =
  pe_ID :: string
  pe_own :: bool
  pe_RetryCount :: nat

text \<open>An error of a listing (\<open>xpending\<close>) or a claim reads as the empty list, which is what the code does with it; a read
  of one entry (\<open>xrange_one\<close>) gives None for an error and \<open>Some None\<close> for an entry that is not there.\<close>

record 's redis_ops =
  xread :: "'s \<Rightarrow> redis_message list \<times> 's"
  xack :: "string \<Rightarrow> 's \<Rightarrow> 's"
  xrange_one :: "string \<Rightarrow> 's \<Rightarrow> redis_message option option"
  xadd_dead :: "redis_message \<Rightarrow> 's \<Rightarrow> bool \<times> 's"
  xpending :: "bool \<Rightarrow> duration \<Rightarrow> 's \<Rightarrow> pending_entry list"
  xclaim :: "duration \<Rightarrow> string list \<Rightarrow> 's \<Rightarrow> redis_message list \<times> 's"

record 's notifier_world =
  nw_redis :: 's
  nw_db :: db
  nw_replies :: "channel_error option list"
  nw_cancelled :: "bool list"
  nw_attempts :: "string list"

definition MaxRetries :: nat where "MaxRetries = 3"
definition reclaimIdleThreshold :: duration where "reclaimIdleThreshold = seconds 30"
definition orphanIdleThreshold :: duration where "orphanIdleThreshold = minutes 5"

type_synonym decoder = "string \<Rightarrow> alert option"

definition parseAlert :: "decoder \<Rightarrow> redis_message \<Rightarrow> alert option" where
  "parseAlert decode msg = (case rm_data msg of None \<Rightarrow> None | Some s \<Rightarrow> decode s)"

subsection \<open>The hooks of the notifier process\<close>

fun release_tokens :: "string list \<Rightarrow> int \<Rightarrow> int \<Rightarrow> 'z db_scheme \<Rightarrow> bool \<times> 'z db_scheme" where
  "release_tokens [] chat sid d = (True, d)"
| "release_tokens (t # ts) chat sid d =
    (case ReleaseClaim (t, chat, sid) d of (Inl _, d) \<Rightarrow> (False, d) | (Inr _, d) \<Rightarrow> release_tokens ts chat sid d)"

definition releaseDedupClaimsOnDeadLetter :: "alert \<Rightarrow> 'z db_scheme \<Rightarrow> bool \<times> 'z db_scheme" where
  "releaseDedupClaimsOnDeadLetter a d = release_tokens (at_Tokens a) (at_ChatID a) (at_SearchID a) d"

definition delivery_events :: "alert \<Rightarrow> string \<Rightarrow> string \<Rightarrow> delivery_event list" where
  "delivery_events a msgID status =
    (if at_Tokens a \<noteq> [] then
       map (\<lambda>t. \<lparr>de_ChatID = at_ChatID a, de_Token = t, de_SearchID = at_SearchID a, de_AlertType = ''instant'', de_Channel = '''',
         de_Status = status, de_BatchID = msgID, de_Error = ''''\<rparr>) (at_Tokens a)
     else [\<lparr>de_ChatID = at_ChatID a, de_Token = '''', de_SearchID = at_SearchID a, de_AlertType = ''price_drop'', de_Channel = '''',
         de_Status = status, de_BatchID = msgID, de_Error = ''''\<rparr>])"

definition recordDeliveries :: "gotime \<Rightarrow> alert \<Rightarrow> string \<Rightarrow> string \<Rightarrow> 's notifier_world \<Rightarrow> 's notifier_world" where
  "recordDeliveries now a msgID status w =
    w\<lparr>nw_db := snd (RecordDeliveries now (delivery_events a msgID status) (nw_db w))\<rparr>"

definition run_hook :: "alert \<Rightarrow> 's notifier_world \<Rightarrow> bool \<times> 's notifier_world" where
  "run_hook a w = (case releaseDedupClaimsOnDeadLetter a (nw_db w) of (ok, d) \<Rightarrow> (ok, w\<lparr>nw_db := d\<rparr>))"

subsection \<open>One message\<close>

definition ack :: "'s redis_ops \<Rightarrow> string \<Rightarrow> 's notifier_world \<Rightarrow> 's notifier_world" where
  "ack rd mid w = w\<lparr>nw_redis := xack rd mid (nw_redis w)\<rparr>"

definition next_reply :: "'s notifier_world \<Rightarrow> channel_error option \<times> 's notifier_world" where
  "next_reply w = (case nw_replies w of [] \<Rightarrow> (None, w) | r # rs \<Rightarrow> (r, w\<lparr>nw_replies := rs\<rparr>))"

definition next_cancelled :: "'s notifier_world \<Rightarrow> bool \<times> 's notifier_world" where
  "next_cancelled w = (case nw_cancelled w of [] \<Rightarrow> (False, w) | c # cs \<Rightarrow> (c, w\<lparr>nw_cancelled := cs\<rparr>))"

definition processMessage :: "'s redis_ops \<Rightarrow> decoder \<Rightarrow> gotime \<Rightarrow> redis_message \<Rightarrow> 's notifier_world \<Rightarrow> 's notifier_world" where
  "processMessage rd decode now msg w =
    (case parseAlert decode msg of
       None \<Rightarrow> ack rd (rm_ID msg) w
     | Some a \<Rightarrow>
         (case next_cancelled w of (cancelled, w) \<Rightarrow>
          if cancelled then w
          else case next_reply (w\<lparr>nw_attempts := nw_attempts w @ [rm_ID msg]\<rparr>) of
            (None, w) \<Rightarrow> recordDeliveries now a (rm_ID msg) ''sent'' (ack rd (rm_ID msg) w)
          | (Some (ChannelFailed _), w) \<Rightarrow> w
          | (Some ErrNoDelivery, w) \<Rightarrow> recordDeliveries now a (rm_ID msg) ''dropped'' (ack rd (rm_ID msg) w)
          | (Some _, w) \<Rightarrow>
              (case run_hook a w of (ok, w) \<Rightarrow>
                 if ok then recordDeliveries now a (rm_ID msg) ''dropped'' (ack rd (rm_ID msg) w) else w)))"

fun processMessages :: "'s redis_ops \<Rightarrow> decoder \<Rightarrow> gotime \<Rightarrow> redis_message list \<Rightarrow> 's notifier_world \<Rightarrow> 's notifier_world" where
  "processMessages rd decode now [] w = w"
| "processMessages rd decode now (m # ms) w = processMessages rd decode now ms (processMessage rd decode now m w)"

subsection \<open>The dead-letter stream and the retries\<close>

definition deadLetter :: "'s redis_ops \<Rightarrow> decoder \<Rightarrow> gotime \<Rightarrow> string \<Rightarrow> 's notifier_world \<Rightarrow> 's notifier_world" where
  "deadLetter rd decode now mid w =
    (case xrange_one rd mid (nw_redis w) of
       None \<Rightarrow> ack rd mid w
     | Some None \<Rightarrow> ack rd mid w
     | Some (Some msg) \<Rightarrow>
         (case (case parseAlert decode msg of None \<Rightarrow> (True, w) | Some a \<Rightarrow> run_hook a w) of (hooked, w) \<Rightarrow>
          if \<not> hooked then w
          else case xadd_dead rd msg (nw_redis w) of (added, s) \<Rightarrow>
            (let w = w\<lparr>nw_redis := s\<rparr> in
             if \<not> added then w
             else let w = ack rd mid w in
               case parseAlert decode msg of None \<Rightarrow> w | Some a \<Rightarrow> recordDeliveries now a mid ''dead_lettered'' w)))"

text \<open>The loop over the pending entries: the exhausted ones are dead-lettered, the others collected for a claim.\<close>

fun sort_pending :: "'s redis_ops \<Rightarrow> decoder \<Rightarrow> gotime \<Rightarrow> pending_entry list \<Rightarrow> 's notifier_world \<Rightarrow> string list \<times> 's notifier_world" where
  "sort_pending rd decode now [] w = ([], w)"
| "sort_pending rd decode now (p # ps) w =
    (if pe_RetryCount p \<ge> MaxRetries then sort_pending rd decode now ps (deadLetter rd decode now (pe_ID p) w)
     else case sort_pending rd decode now ps w of (ids, w) \<Rightarrow> (pe_ID p # ids, w))"

definition claim_and_process :: "'s redis_ops \<Rightarrow> decoder \<Rightarrow> gotime \<Rightarrow> duration \<Rightarrow> pending_entry list \<Rightarrow> 's notifier_world \<Rightarrow> 's notifier_world" where
  "claim_and_process rd decode now idle pending w =
    (case sort_pending rd decode now pending w of (ids, w) \<Rightarrow>
       if ids = [] then w
       else case xclaim rd idle ids (nw_redis w) of (msgs, s) \<Rightarrow> processMessages rd decode now msgs (w\<lparr>nw_redis := s\<rparr>))"

definition reclaimPending :: "'s redis_ops \<Rightarrow> decoder \<Rightarrow> gotime \<Rightarrow> 's notifier_world \<Rightarrow> 's notifier_world" where
  "reclaimPending rd decode now w =
    claim_and_process rd decode now reclaimIdleThreshold (xpending rd True reclaimIdleThreshold (nw_redis w)) w"

definition reclaimOrphans :: "'s redis_ops \<Rightarrow> decoder \<Rightarrow> gotime \<Rightarrow> 's notifier_world \<Rightarrow> 's notifier_world" where
  "reclaimOrphans rd decode now w =
    claim_and_process rd decode now orphanIdleThreshold
      (filter (\<lambda>p. \<not> pe_own p) (xpending rd False orphanIdleThreshold (nw_redis w))) w"

fun drain_pending :: "'s redis_ops \<Rightarrow> decoder \<Rightarrow> gotime \<Rightarrow> pending_entry list \<Rightarrow> 's notifier_world \<Rightarrow> 's notifier_world" where
  "drain_pending rd decode now [] w = w"
| "drain_pending rd decode now (p # ps) w =
    drain_pending rd decode now ps
      (if pe_RetryCount p \<ge> MaxRetries then deadLetter rd decode now (pe_ID p) w
       else case xrange_one rd (pe_ID p) (nw_redis w) of Some (Some msg) \<Rightarrow> processMessage rd decode now msg w | _ \<Rightarrow> w)"

definition Drain :: "'s redis_ops \<Rightarrow> decoder \<Rightarrow> gotime \<Rightarrow> 's notifier_world \<Rightarrow> 's notifier_world" where
  "Drain rd decode now w = drain_pending rd decode now (xpending rd True 0 (nw_redis w)) w"

text \<open>One turn of \<open>Run\<close>: the messages that are new to the group.\<close>

definition read_step :: "'s redis_ops \<Rightarrow> decoder \<Rightarrow> gotime \<Rightarrow> 's notifier_world \<Rightarrow> 's notifier_world" where
  "read_step rd decode now w =
    (case xread rd (nw_redis w) of (msgs, s) \<Rightarrow> processMessages rd decode now msgs (w\<lparr>nw_redis := s\<rparr>))"

text \<open>The steps of \<open>Run\<close>, in any order and at any time, with those of the others on the stream in between.\<close>

inductive queue_step :: "'s redis_ops \<Rightarrow> ('s \<Rightarrow> string \<Rightarrow> nat) \<Rightarrow> decoder \<Rightarrow> 's notifier_world \<Rightarrow> 's notifier_world \<Rightarrow> bool"
  for rd cnt decode where
  step_read: "queue_step rd cnt decode w (read_step rd decode now w)"
| step_reclaim: "queue_step rd cnt decode w (reclaimPending rd decode now w)"
| step_orphans: "queue_step rd cnt decode w (reclaimOrphans rd decode now w)"
| step_others: "(\<And>i. cnt (nw_redis w) i \<le> cnt s i) \<Longrightarrow> queue_step rd cnt decode w (w\<lparr>nw_redis := s\<rparr>)"

subsection \<open>What the consumer relies on\<close>

text \<open>
  The documented behaviour of consumer groups, for \<open>cnt s i\<close> the number of times entry \<open>i\<close> has been handed out: a read
  hands out entries that were not handed out before, a claim hands out some of the entries asked for and counts
  that, the listing of pending entries shows the count, and acknowledging or appending elsewhere does not touch it.
\<close>

locale consumer_group =
  fixes rd :: "'s redis_ops" and cnt :: "'s \<Rightarrow> string \<Rightarrow> nat"
  assumes read_fresh: "xread rd s = (ms, s') \<Longrightarrow> distinct (map rm_ID ms) \<and> (\<forall>m \<in> set ms. cnt s (rm_ID m) = 0)"
    and read_count: "xread rd s = (ms, s') \<Longrightarrow> cnt s i + (if i \<in> rm_ID ` set ms then 1 else 0) \<le> cnt s' i"
    and pending_count: "p \<in> set (xpending rd own idle s) \<Longrightarrow> pe_RetryCount p = cnt s (pe_ID p)"
    and claim_ids: "xclaim rd idle ids s = (ms, s') \<Longrightarrow> distinct (map rm_ID ms) \<and> rm_ID ` set ms \<subseteq> set ids"
    and claim_count: "xclaim rd idle ids s = (ms, s') \<Longrightarrow> cnt s i + (if i \<in> rm_ID ` set ms then 1 else 0) \<le> cnt s' i"
    and ack_count: "cnt (xack rd i s) = cnt s"
    and dead_count: "cnt (snd (xadd_dead rd m s)) = cnt s"
begin

definition handed :: "'s notifier_world \<Rightarrow> string \<Rightarrow> nat" where
  "handed w = cnt (nw_redis w)"

lemma recordDeliveries_keeps [simp]:
  "nw_redis (recordDeliveries now a mid st w) = nw_redis w" "nw_attempts (recordDeliveries now a mid st w) = nw_attempts w"
  by (simp_all add: recordDeliveries_def)

lemma ack_keeps [simp]: "handed (ack rd mid w) = handed w" "nw_attempts (ack rd mid w) = nw_attempts w"
  by (simp_all add: ack_def handed_def ack_count)

lemma recordDeliveries_handed [simp]: "handed (recordDeliveries now a mid st w) = handed w"
  by (simp add: handed_def)

lemma hook_keeps: "run_hook a w = (ok, w') \<Longrightarrow> handed w' = handed w \<and> nw_attempts w' = nw_attempts w \<and> nw_redis w' = nw_redis w"
  by (auto simp: run_hook_def handed_def split: prod.splits)

lemma processMessage_attempt:
  "handed (processMessage rd decode now msg w) = handed w \<and>
   (nw_attempts (processMessage rd decode now msg w) = nw_attempts w \<or>
    nw_attempts (processMessage rd decode now msg w) = nw_attempts w @ [rm_ID msg])"
proof (cases "parseAlert decode msg")
  case None
  then show ?thesis by (simp add: processMessage_def)
next
  case (Some a)
  obtain c w1 where c: "next_cancelled w = (c, w1)" by (metis prod.exhaust)
  have w1: "handed w1 = handed w" "nw_attempts w1 = nw_attempts w"
    using c by (auto simp: next_cancelled_def handed_def split: list.splits)
  obtain r w2 where r: "next_reply (w1\<lparr>nw_attempts := nw_attempts w @ [rm_ID msg]\<rparr>) = (r, w2)" by (metis prod.exhaust)
  have w2: "handed w2 = handed w" "nw_attempts w2 = nw_attempts w @ [rm_ID msg]"
    using r w1 by (auto simp: next_reply_def handed_def split: list.splits)
  obtain ok w3 where h: "run_hook a w2 = (ok, w3)" by (metis prod.exhaust)
  note H = hook_keeps [OF h]
  show ?thesis using w1 w2 H
    by (auto simp: processMessage_def Some c r h split: option.split channel_error.split)
qed

lemma processMessages_attempts:
  "distinct (map rm_ID ms) \<Longrightarrow> handed (processMessages rd decode now ms w) = handed w \<and>
    count_list (nw_attempts (processMessages rd decode now ms w)) i \<le> count_list (nw_attempts w) i + (if i \<in> rm_ID ` set ms then 1 else 0)"
proof (induction ms arbitrary: w)
  case (Cons m ms)
  let ?w1 = "processMessage rd decode now m w"
  have one: "handed ?w1 = handed w" "count_list (nw_attempts ?w1) i \<le> count_list (nw_attempts w) i + (if i = rm_ID m then 1 else 0)"
    using processMessage_attempt [of decode now m w] by auto
  have "rm_ID m \<notin> rm_ID ` set ms" using Cons.prems by auto
  then show ?case using Cons.IH [of ?w1] Cons.prems one by (auto split: if_splits)
qed simp

lemma deadLetter_keeps: "handed (deadLetter rd decode now mid w) = handed w \<and> nw_attempts (deadLetter rd decode now mid w) = nw_attempts w"
proof -
  have hooked: "handed w' = handed w \<and> nw_attempts w' = nw_attempts w"
    if "(case parseAlert decode msg of None \<Rightarrow> (True, w) | Some a \<Rightarrow> run_hook a w) = (ok, w')" for msg ok w'
    using that hook_keeps by (auto split: option.splits)
  have added: "handed (w'\<lparr>nw_redis := s\<rparr>) = handed w'" if "xadd_dead rd msg (nw_redis w') = (b, s)" for msg b s w'
    using dead_count [of msg "nw_redis w'"] that by (simp add: handed_def)
  show ?thesis
  proof (cases "\<exists>msg. xrange_one rd mid (nw_redis w) = Some (Some msg)")
    case True
    then obtain msg where m: "xrange_one rd mid (nw_redis w) = Some (Some msg)" by blast
    obtain ok w1 where h: "(case parseAlert decode msg of None \<Rightarrow> (True, w) | Some a \<Rightarrow> run_hook a w) = (ok, w1)" by (metis prod.exhaust)
    obtain b s where d: "xadd_dead rd msg (nw_redis w1) = (b, s)" by (metis prod.exhaust)
    show ?thesis using hooked [OF h] added [OF d]
      by (simp add: deadLetter_def m h d Let_def split: option.split)
  next
    case False
    then show ?thesis by (auto simp: deadLetter_def split: option.split)
  qed
qed

lemma sort_pending_keeps:
  "sort_pending rd decode now ps w = (ids, w') \<Longrightarrow>
    handed w' = handed w \<and> nw_attempts w' = nw_attempts w \<and> (\<forall>i \<in> set ids. \<exists>p \<in> set ps. i = pe_ID p \<and> pe_RetryCount p < MaxRetries)"
proof (induction ps arbitrary: w ids)
  case (Cons p ps)
  show ?case
  proof (cases "pe_RetryCount p \<ge> MaxRetries")
    case True
    then show ?thesis using Cons.IH [of "deadLetter rd decode now (pe_ID p) w" ids] Cons.prems deadLetter_keeps [of decode now "pe_ID p" w] by auto
  next
    case False
    then obtain js where "sort_pending rd decode now ps w = (js, w')" "ids = pe_ID p # js" using Cons.prems by (auto split: prod.splits)
    then show ?thesis using Cons.IH [of w js] False by auto
  qed
qed simp

text \<open>What holds all the time: an entry is attempted at most as often as it was handed out, and three times at most.\<close>

definition attempts_ok :: "'s notifier_world \<Rightarrow> bool" where
  "attempts_ok w \<longleftrightarrow> (\<forall>i. count_list (nw_attempts w) i \<le> handed w i \<and> count_list (nw_attempts w) i \<le> MaxRetries)"

lemma attempts_ok_hand_out:
  assumes "attempts_ok w" "distinct (map rm_ID ms)" "\<forall>i. cnt (nw_redis w) i + (if i \<in> rm_ID ` set ms then 1 else 0) \<le> cnt s i"
    and "\<forall>i \<in> rm_ID ` set ms. handed w i < MaxRetries"
  shows "attempts_ok (processMessages rd decode now ms (w\<lparr>nw_redis := s\<rparr>))"
proof -
  let ?w' = "processMessages rd decode now ms (w\<lparr>nw_redis := s\<rparr>)"
  have "count_list (nw_attempts ?w') i \<le> handed ?w' i \<and> count_list (nw_attempts ?w') i \<le> MaxRetries" for i
  proof -
    let ?d = "if i \<in> rm_ID ` set ms then 1 else 0 :: nat"
    have a: "handed ?w' i = cnt s i" "count_list (nw_attempts ?w') i \<le> count_list (nw_attempts w) i + ?d"
      using processMessages_attempts [OF assms(2), of decode now "w\<lparr>nw_redis := s\<rparr>" i] by (simp_all add: handed_def)
    have b: "count_list (nw_attempts w) i \<le> cnt (nw_redis w) i" "count_list (nw_attempts w) i \<le> MaxRetries"
      using assms(1) by (simp_all add: attempts_ok_def handed_def)
    have c: "cnt (nw_redis w) i + ?d \<le> cnt s i" using assms(3) by blast
    have d: "i \<in> rm_ID ` set ms \<Longrightarrow> cnt (nw_redis w) i < MaxRetries" using assms(4) unfolding handed_def by blast
    show ?thesis
    proof (cases "i \<in> rm_ID ` set ms")
      case True
      then show ?thesis using a b c d by simp
    next
      case False
      then show ?thesis using a b c by simp
    qed
  qed
  then show ?thesis by (simp add: attempts_ok_def)
qed

lemma attempts_ok_claim:
  assumes "attempts_ok w" "\<forall>p \<in> set ps. pe_RetryCount p = handed w (pe_ID p)"
  shows "attempts_ok (claim_and_process rd decode now idle ps w)"
proof -
  obtain ids w1 where s: "sort_pending rd decode now ps w = (ids, w1)" by (metis prod.exhaust)
  note S = sort_pending_keeps [OF s]
  have ok1: "attempts_ok w1" using assms(1) S by (simp add: attempts_ok_def)
  obtain ms s1 where c: "xclaim rd idle ids (nw_redis w1) = (ms, s1)" by (metis prod.exhaust)
  have "\<forall>i \<in> rm_ID ` set ms. handed w1 i < MaxRetries"
    using claim_ids [OF c] S assms(2) by fastforce
  from attempts_ok_hand_out [OF ok1 _ _ this, of s1] claim_ids [OF c] claim_count [OF c] show ?thesis
    using ok1 by (simp add: claim_and_process_def s c)
qed

lemma attempts_ok_step:
  assumes "attempts_ok w" "queue_step rd cnt decode w w'"
  shows "attempts_ok w'"
  using assms(2)
proof (cases rule: queue_step.cases)
  case (step_read now)
  obtain ms s where r: "xread rd (nw_redis w) = (ms, s)" by (metis prod.exhaust)
  have "\<forall>i \<in> rm_ID ` set ms. handed w i < MaxRetries" using read_fresh [OF r] by (auto simp: handed_def MaxRetries_def)
  from attempts_ok_hand_out [OF assms(1) _ _ this, of s] read_fresh [OF r] read_count [OF r] show ?thesis
    by (simp add: step_read read_step_def r)
next
  case (step_reclaim now)
  show ?thesis unfolding step_reclaim reclaimPending_def
    by (rule attempts_ok_claim [OF assms(1)]) (auto dest: pending_count simp: handed_def)
next
  case (step_orphans now)
  show ?thesis unfolding step_orphans reclaimOrphans_def
    by (rule attempts_ok_claim [OF assms(1)]) (auto dest: pending_count simp: handed_def)
next
  case (step_others s)
  then show ?thesis using assms(1) by (auto simp: attempts_ok_def handed_def intro: le_trans)
qed

lemma attempts_bounded:
  assumes "(queue_step rd cnt decode)\<^sup>*\<^sup>* w0 w" "nw_attempts w0 = []"
  shows "count_list (nw_attempts w) i \<le> MaxRetries"
proof -
  have "attempts_ok w" using assms(1)
    by (induction rule: rtranclp_induct) (use assms(2) attempts_ok_step in \<open>auto simp: attempts_ok_def [of w0]\<close>)
  then show ?thesis by (simp add: attempts_ok_def)
qed

end

subsection \<open>A consumer group in memory\<close>

text \<open>The locale is not empty: a stream held in lists, of one consumer, with a count for each entry.\<close>

record mem_stream =
  ms_entries :: "redis_message list"
  ms_pel :: "string list"
  ms_count :: "string \<Rightarrow> nat"
  ms_dead :: "redis_message list"

definition entry_of :: "mem_stream \<Rightarrow> string \<Rightarrow> redis_message option" where
  "entry_of s i = find (\<lambda>m. rm_ID m = i) (ms_entries s)"

definition hand_out :: "redis_message list \<Rightarrow> mem_stream \<Rightarrow> mem_stream" where
  "hand_out ms s = s\<lparr>ms_count := (\<lambda>i. ms_count s i + (if i \<in> rm_ID ` set ms then 1 else 0)),
     ms_pel := List.union (map rm_ID ms) (ms_pel s)\<rparr>"

definition mem_redis :: "mem_stream redis_ops" where
  "mem_redis = \<lparr>
     xread = (\<lambda>s. let ms = (case find (\<lambda>m. ms_count s (rm_ID m) = 0) (ms_entries s) of Some m \<Rightarrow> [m] | None \<Rightarrow> []) in (ms, hand_out ms s)),
     xack = (\<lambda>i s. s\<lparr>ms_pel := removeAll i (ms_pel s)\<rparr>),
     xrange_one = (\<lambda>i s. Some (entry_of s i)),
     xadd_dead = (\<lambda>m s. (True, s\<lparr>ms_dead := ms_dead s @ [m]\<rparr>)),
     xpending = (\<lambda>own idle s. map (\<lambda>i. \<lparr>pe_ID = i, pe_own = True, pe_RetryCount = ms_count s i\<rparr>) (ms_pel s)),
     xclaim = (\<lambda>idle ids s. let ms = List.map_filter (entry_of s) (remdups (filter (\<lambda>i. i \<in> set (ms_pel s)) ids)) in (ms, hand_out ms s))\<rparr>"

lemma entry_ID: "entry_of s i = Some m \<Longrightarrow> rm_ID m = i"
  by (auto simp: entry_of_def find_Some_iff)

lemma map_filter_entry:
  "rm_ID ` set (List.map_filter (entry_of s) ks) \<subseteq> set ks"
  "distinct ks \<Longrightarrow> distinct (map rm_ID (List.map_filter (entry_of s) ks))"
proof -
  show sub: "rm_ID ` set (List.map_filter (entry_of s) ks) \<subseteq> set ks" for ks
    by (induction ks) (auto simp: map_filter_simps split: option.splits dest: entry_ID)
  show "distinct ks \<Longrightarrow> distinct (map rm_ID (List.map_filter (entry_of s) ks))"
  proof (induction ks)
    case (Cons i js)
    then have "i \<notin> rm_ID ` set (List.map_filter (entry_of s) js)" using sub [of js] by auto
    then show ?case using Cons by (auto simp: map_filter_simps split: option.splits dest: entry_ID)
  qed (simp add: map_filter_simps)
qed

interpretation mem: consumer_group mem_redis ms_count
proof
  fix s s' :: mem_stream and ms own idle ids i m p
  show "xread mem_redis s = (ms, s') \<Longrightarrow> distinct (map rm_ID ms) \<and> (\<forall>m \<in> set ms. ms_count s (rm_ID m) = 0)"
    by (auto simp: mem_redis_def Let_def find_Some_iff split: option.splits)
  show "xread mem_redis s = (ms, s') \<Longrightarrow> ms_count s i + (if i \<in> rm_ID ` set ms then 1 else 0) \<le> ms_count s' i"
    by (auto simp: mem_redis_def Let_def hand_out_def)
  show "p \<in> set (xpending mem_redis own idle s) \<Longrightarrow> pe_RetryCount p = ms_count s (pe_ID p)"
    by (auto simp: mem_redis_def)
  show "xclaim mem_redis idle ids s = (ms, s') \<Longrightarrow> distinct (map rm_ID ms) \<and> rm_ID ` set ms \<subseteq> set ids"
    using map_filter_entry [where s = s and ks = "remdups (filter (\<lambda>i. i \<in> set (ms_pel s)) ids)"] by (auto simp: mem_redis_def Let_def)
  show "xclaim mem_redis idle ids s = (ms, s') \<Longrightarrow> ms_count s i + (if i \<in> rm_ID ` set ms then 1 else 0) \<le> ms_count s' i"
    by (auto simp: mem_redis_def Let_def hand_out_def)
qed (simp_all add: mem_redis_def)

subsection \<open>Properties\<close>

text \<open>C23. An alert is handed to the notifier at most three times, however often it fails: under every interleaving of the
  consumer's reads and reclaims with what others do to the stream, given the documented behaviour of consumer
  groups (the drain at shutdown, whose attempts are not counted, aside).\<close>

theorem alert_attempts_bounded:
  assumes "consumer_group rd cnt" "(queue_step rd cnt decode)\<^sup>*\<^sup>* w0 w" "nw_attempts w0 = []"
  shows "count_list (nw_attempts w) i \<le> 3"
  using consumer_group.attempts_bounded [OF assms] by (simp add: MaxRetries_def)

definition sample_alert :: alert where
  "sample_alert = \<lparr>at_ChatID = 7, at_SearchID = 2, at_SearchName = ''a'', at_Tokens = [''t''], at_Message = ''m'', at_Language = ''he'', at_Timestamp = ''''\<rparr>"

definition failing_notifier :: "mem_stream notifier_world" where
  "failing_notifier = \<lparr>nw_redis = \<lparr>ms_entries = [\<lparr>rm_ID = ''1'', rm_data = Some ''x''\<rparr>], ms_pel = [], ms_count = (\<lambda>_. 0), ms_dead = []\<rparr>,
     nw_db = empty_db\<lparr>db_seen := [((''t'', 7, 2), \<lparr>cl_first = 1, cl_last = 1\<rparr>)]\<rparr>,
     nw_replies = replicate 9 (Some (ChannelFailed ''timeout'')), nw_cancelled = [], nw_attempts = []\<rparr>"

definition turn :: "mem_stream notifier_world \<Rightarrow> mem_stream notifier_world" where
  "turn w = reclaimPending mem_redis (\<lambda>_. Some sample_alert) 5 w"

theorem alert_attempts_bounded_witness:
  "count_list (nw_attempts (turn (read_step mem_redis (\<lambda>_. Some sample_alert) 4 failing_notifier))) ''1'' \<le> 3"
proof -
  let ?d = "\<lambda>_. Some sample_alert"
  have "(queue_step mem_redis ms_count ?d)\<^sup>*\<^sup>* failing_notifier (turn (read_step mem_redis ?d 4 failing_notifier))"
    unfolding turn_def
    by (rule rtranclp.rtrancl_into_rtrancl [OF r_into_rtranclp]) (rule step_read step_reclaim)+
  then show ?thesis by (rule alert_attempts_bounded [OF mem.consumer_group_axioms]) (simp add: failing_notifier_def)
qed

lemma release_tokens_calm:
  assumes "db_faults d = []"
  shows "\<exists>d'. release_tokens ts chat sid d = (True, d') \<and> db_faults d' = [] \<and> claimed d' = claimed d - (\<lambda>t. (t, chat, sid)) ` set ts"
  using assms
proof (induction ts arbitrary: d)
  case (Cons t ts)
  obtain r d1 where c: "ReleaseClaim (t, chat, sid) d = (r, d1)" by (metis prod.exhaust)
  have r: "r = Inr ()" "db_faults d1 = []" using c Cons.prems by (auto simp: ReleaseClaim_def release_stmt_def)
  have "claimed d1 = claimed d - {(t, chat, sid)}" using ReleaseClaim_claimed(1) c r(1) by blast
  then show ?case using Cons.IH [OF r(2)] c r(1) by auto
qed simp

lemma RecordDeliveries_claimed: "db_faults d = [] \<Longrightarrow> claimed (snd (RecordDeliveries now es d)) = claimed d \<and> db_faults (snd (RecordDeliveries now es d)) = []"
  by (auto simp: RecordDeliveries_def claimed_def)

text \<open>An alert for a recipient who has blocked the bot is sent again and again. The scheduler and the ingest endpoint
  hand alerts to the queue, which accepts them, so they never learn of the block; the consumer does, and releases
  the claims of the alert: the next cycle finds every listing of it new and publishes the same alert again.\<close>

lemma blocked_alert_is_replayed:
  assumes "parseAlert decode msg = Some a" "nw_replies w = Some ErrRecipientBlocked # rs" "nw_cancelled w = []" "db_faults (nw_db w) = []"
    and "t \<in> set (at_Tokens a)"
  shows "fst (ClaimNew later (t, at_ChatID a, at_SearchID a) (nw_db (processMessage rd decode now msg w))) = Inr True"
proof -
  obtain d where d: "release_tokens (at_Tokens a) (at_ChatID a) (at_SearchID a) (nw_db w) = (True, d)" "db_faults d = []"
    "claimed d = claimed (nw_db w) - (\<lambda>t. (t, at_ChatID a, at_SearchID a)) ` set (at_Tokens a)"
    using release_tokens_calm [OF assms(4), of "at_Tokens a" "at_ChatID a" "at_SearchID a"] by blast
  let ?d' = "nw_db (processMessage rd decode now msg w)"
  have "?d' = snd (RecordDeliveries now (delivery_events a (rm_ID msg) ''dropped'') d)"
    using assms(1,2,3) d(1)
    by (simp add: processMessage_def next_cancelled_def next_reply_def run_hook_def releaseDedupClaimsOnDeadLetter_def recordDeliveries_def ack_def)
  then have free: "db_faults ?d' = []" "(t, at_ChatID a, at_SearchID a) \<notin> claimed ?d'"
    using RecordDeliveries_claimed [OF d(2), of now "delivery_events a (rm_ID msg) ''dropped''"] d(3) assms(5) by simp_all
  obtain r d2 where c: "ClaimNew later (t, at_ChatID a, at_SearchID a) ?d' = (r, d2)" by (metis prod.exhaust)
  have "isl r = False" using c free(1) by (auto simp: ClaimNew_def claim_stmt_def split: option.splits)
  then obtain new where "r = Inr new" by (cases r) auto
  then show ?thesis using ClaimNew_claimed(1) [of later "(t, at_ChatID a, at_SearchID a)" ?d' new d2] c free(2) by simp
qed

lemma blocked_alert_is_replayed_witness:
  "fst (ClaimNew 9 (''t'', 7, 2) (nw_db (processMessage mem_redis (\<lambda>_. Some sample_alert) 5 \<lparr>rm_ID = ''1'', rm_data = Some ''x''\<rparr>
     (failing_notifier\<lparr>nw_replies := [Some ErrRecipientBlocked]\<rparr>)))) = Inr True"
proof -
  have "fst (ClaimNew 9 (''t'', at_ChatID sample_alert, at_SearchID sample_alert) (nw_db (processMessage mem_redis (\<lambda>_. Some sample_alert) 5 \<lparr>rm_ID = ''1'', rm_data = Some ''x''\<rparr>
     (failing_notifier\<lparr>nw_replies := [Some ErrRecipientBlocked]\<rparr>)))) = Inr True"
    by (rule blocked_alert_is_replayed) (simp_all add: parseAlert_def failing_notifier_def empty_db_def sample_alert_def)
  then show ?thesis by (simp add: sample_alert_def)
qed

text \<open>A passing error of Redis loses an exhausted alert. When the entry to be dead-lettered cannot be read, the consumer
  acknowledges it all the same: the alert is in neither stream, its dedup claims stay, so its listings are never
  alerted again, and the ledger has no trace of it.\<close>

lemma unreadable_dead_letter_is_lost:
  assumes "xrange_one rd mid (nw_redis w) = None"
  shows "deadLetter rd decode now mid w = w\<lparr>nw_redis := xack rd mid (nw_redis w)\<rparr>"
  using assms by (simp add: deadLetter_def ack_def)

lemma unreadable_dead_letter_is_lost_witness:
  "nw_db (deadLetter (mem_redis\<lparr>xrange_one := (\<lambda>_ _. None)\<rparr>) (\<lambda>_. Some sample_alert) 5 ''1'' failing_notifier) = nw_db failing_notifier"
  by (subst unreadable_dead_letter_is_lost) simp_all

end
