(* ===== verification/EnrichQueue.thy ===== *)
theory EnrichQueue
  imports AlertQueue ProcessStage Enricher
begin

section \<open>The enrichment queue (internal/broker/enrich_consumer.go, enrich.go)\<close>

text \<open>
  The consumer of the enrichment stream, which takes each batch in the order of its priorities, the purging of the
  stream, and the set of pending tokens that publisher and consumer share. Redis is the record of operations of the
  alert queue, with one more for the pending set. \<open>slices.SortFunc\<close> leaves the order of equal elements open: the
  sorter is an argument, of which the lemmas use that it sorts.
\<close>

subsection \<open>The consumer\<close>

definition enrichMaxRetries :: nat where "enrichMaxRetries = 5"
definition enrichOrphanIdleDefault :: duration where "enrichOrphanIdleDefault = minutes 5"

type_synonym enrich_decoder = "string \<Rightarrow> enrich_request option"
type_synonym enrich_item = "redis_message \<times> enrich_request"

record 's enrich_queue =
  nq_ops :: "'s redis_ops"
  nq_srem :: "string \<Rightarrow> 's \<Rightarrow> 's"
  nq_decode :: enrich_decoder
  nq_sort :: "enrich_item list \<Rightarrow> enrich_item list"

text \<open>The state: Redis, the answers of \<open>EnrichFunc\<close> and of the context, and the calls made.\<close>

record 's enrich_world =
  nx_redis :: 's
  nx_outcomes :: "request_outcome list"
  nx_done :: "bool list"
  nx_calls :: "enrich_request list"

definition e_ack :: "'s enrich_queue \<Rightarrow> string \<Rightarrow> 's enrich_world \<Rightarrow> 's enrich_world" where
  "e_ack q mid x = x\<lparr>nx_redis := xack (nq_ops q) mid (nx_redis x)\<rparr>"

definition removePending :: "'s enrich_queue \<Rightarrow> string \<Rightarrow> 's enrich_world \<Rightarrow> 's enrich_world" where
  "removePending q token x = (if token = '''' then x else x\<lparr>nx_redis := nq_srem q token (nx_redis x)\<rparr>)"

definition e_deadLetter :: "'s enrich_queue \<Rightarrow> string \<Rightarrow> 's enrich_world \<Rightarrow> 's enrich_world" where
  "e_deadLetter q mid x =
    (case xrange_one (nq_ops q) mid (nx_redis x) of
       None \<Rightarrow> e_ack q mid x
     | Some None \<Rightarrow> e_ack q mid x
     | Some (Some msg) \<Rightarrow>
         (let token = (case Option.bind (rm_data msg) (nq_decode q) of Some req \<Rightarrow> eq_Token req | None \<Rightarrow> '''') in
          case xadd_dead (nq_ops q) msg (nx_redis x) of (added, s) \<Rightarrow>
            (let x = x\<lparr>nx_redis := s\<rparr> in if \<not> added then x else removePending q token (e_ack q mid x))))"

text \<open>The first loop of \<open>processBatch\<close>: what cannot be decoded is acknowledged.\<close>

fun parse_batch :: "'s enrich_queue \<Rightarrow> redis_message list \<Rightarrow> 's enrich_world \<Rightarrow> enrich_item list \<times> 's enrich_world" where
  "parse_batch q [] x = ([], x)"
| "parse_batch q (m # ms) x =
    (case Option.bind (rm_data m) (nq_decode q) of
       None \<Rightarrow> parse_batch q ms (e_ack q (rm_ID m) x)
     | Some req \<Rightarrow> (case parse_batch q ms x of (items, x) \<Rightarrow> ((m, req) # items, x)))"

definition next_done :: "'s enrich_world \<Rightarrow> bool \<times> 's enrich_world" where
  "next_done x = (case nx_done x of [] \<Rightarrow> (False, x) | b # bs \<Rightarrow> (b, x\<lparr>nx_done := bs\<rparr>))"

definition call_enrich :: "enrich_request \<Rightarrow> 's enrich_world \<Rightarrow> request_outcome \<times> 's enrich_world" where
  "call_enrich req x =
    (let x = x\<lparr>nx_calls := nx_calls x @ [req]\<rparr> in
     case nx_outcomes x of [] \<Rightarrow> (Acked, x) | r # rs \<Rightarrow> (r, x\<lparr>nx_outcomes := rs\<rparr>))"

fun run_batch :: "'s enrich_queue \<Rightarrow> enrich_item list \<Rightarrow> 's enrich_world \<Rightarrow> 's enrich_world" where
  "run_batch q [] x = x"
| "run_batch q ((m, req) # items) x =
    (case next_done x of (done, x) \<Rightarrow>
       if done then x
       else case call_enrich req x of
         (Permanent, x) \<Rightarrow> run_batch q items (e_deadLetter q (rm_ID m) x)
       | (Acked, x) \<Rightarrow> run_batch q items (removePending q (eq_Token req) (e_ack q (rm_ID m) x))
       | (Failed, x) \<Rightarrow> run_batch q items x
       | (Panicked, x) \<Rightarrow> x)"

definition processBatch :: "'s enrich_queue \<Rightarrow> redis_message list \<Rightarrow> 's enrich_world \<Rightarrow> 's enrich_world" where
  "processBatch q msgs x = (case parse_batch q msgs x of (items, x) \<Rightarrow> run_batch q (nq_sort q items) x)"

fun e_sort_pending :: "'s enrich_queue \<Rightarrow> pending_entry list \<Rightarrow> 's enrich_world \<Rightarrow> string list \<times> 's enrich_world" where
  "e_sort_pending q [] x = ([], x)"
| "e_sort_pending q (p # ps) x =
    (if pe_RetryCount p \<ge> enrichMaxRetries then e_sort_pending q ps (e_deadLetter q (pe_ID p) x)
     else case e_sort_pending q ps x of (ids, x) \<Rightarrow> (pe_ID p # ids, x))"

definition e_claim_and_process :: "'s enrich_queue \<Rightarrow> duration \<Rightarrow> pending_entry list \<Rightarrow> 's enrich_world \<Rightarrow> 's enrich_world" where
  "e_claim_and_process q idle pending x =
    (case e_sort_pending q pending x of (ids, x) \<Rightarrow>
       if ids = [] then x
       else case xclaim (nq_ops q) idle ids (nx_redis x) of (msgs, s) \<Rightarrow> processBatch q msgs (x\<lparr>nx_redis := s\<rparr>))"

definition e_reclaimPending :: "'s enrich_queue \<Rightarrow> 's enrich_world \<Rightarrow> 's enrich_world" where
  "e_reclaimPending q x = e_claim_and_process q reclaimIdleThreshold (xpending (nq_ops q) True reclaimIdleThreshold (nx_redis x)) x"

definition e_reclaimOrphans :: "'s enrich_queue \<Rightarrow> 's enrich_world \<Rightarrow> 's enrich_world" where
  "e_reclaimOrphans q x = e_claim_and_process q enrichOrphanIdleDefault
     (filter (\<lambda>p. \<not> pe_own p) (xpending (nq_ops q) False enrichOrphanIdleDefault (nx_redis x))) x"

fun e_drain_pending :: "'s enrich_queue \<Rightarrow> pending_entry list \<Rightarrow> 's enrich_world \<Rightarrow> 's enrich_world" where
  "e_drain_pending q [] x = x"
| "e_drain_pending q (p # ps) x =
    e_drain_pending q ps
      (if pe_RetryCount p \<ge> enrichMaxRetries then e_deadLetter q (pe_ID p) x
       else case xrange_one (nq_ops q) (pe_ID p) (nx_redis x) of Some (Some msg) \<Rightarrow> processBatch q [msg] x | _ \<Rightarrow> x)"

definition e_Drain :: "'s enrich_queue \<Rightarrow> 's enrich_world \<Rightarrow> 's enrich_world" where
  "e_Drain q x = e_drain_pending q (xpending (nq_ops q) True 0 (nx_redis x)) x"

subsection \<open>Purging the stream\<close>

text \<open>
  The stream as the purge sees it: entries with increasing identifiers and the token of the request, None where there
  is none. The checker answers for a list of tokens with an association list in the order of Go's map iteration, or
  with an error. Each deletion takes two calls to Redis; \<open>faults\<close> says which of the calls fail.
\<close>

record enrich_stream =
  st_entries :: "(nat \<times> string option) list"
  st_pending :: "string list"

type_synonym checker = "string list \<Rightarrow> unit + (string \<times> bool) list"

text \<open>The entries from the last identifier on, the entry of that identifier itself left out.\<close>

definition next_batch :: "nat option \<Rightarrow> enrich_stream \<Rightarrow> (nat \<times> string option) list" where
  "next_batch lastID s =
    (let msgs = filter (\<lambda>e. case lastID of None \<Rightarrow> True | Some i \<Rightarrow> i \<le> fst e) (st_entries s);
         msgs = (if lastID \<noteq> None \<and> msgs \<noteq> [] \<and> Some (fst (hd msgs)) = lastID then tl msgs else msgs)
     in take 200 msgs)"

definition batch_tokens :: "(nat \<times> string option) list \<Rightarrow> string list" where
  "batch_tokens msgs = List.map_filter snd msgs"

text \<open>\<open>msgMap\<close>: the last entry of a token in the batch.\<close>

definition msg_map :: "(nat \<times> string option) list \<Rightarrow> string \<Rightarrow> nat option" where
  "msg_map msgs = foldl (\<lambda>m e. case snd e of None \<Rightarrow> m | Some t \<Rightarrow> m(t \<mapsto> fst e)) Map.empty msgs"

definition redis_fault :: "bool list \<Rightarrow> bool \<times> bool list" where
  "redis_fault faults = (case faults of [] \<Rightarrow> (False, []) | f # fs \<Rightarrow> (f, fs))"

definition xdel :: "nat \<Rightarrow> enrich_stream \<Rightarrow> enrich_stream" where
  "xdel mid s = s\<lparr>st_entries := filter (\<lambda>e. fst e \<noteq> mid) (st_entries s)\<rparr>"

definition srem :: "string \<Rightarrow> enrich_stream \<Rightarrow> enrich_stream" where
  "srem token s = s\<lparr>st_pending := removeAll token (st_pending s)\<rparr>"

text \<open>The deletions of a batch; the first component of the result says that no call failed.\<close>

fun delete_enriched :: "(string \<Rightarrow> nat option) \<Rightarrow> (string \<times> bool) list \<Rightarrow> nat \<Rightarrow> bool list \<Rightarrow> enrich_stream \<Rightarrow>
    bool \<times> nat \<times> bool list \<times> enrich_stream" where
  "delete_enriched m [] purged faults s = (True, purged, faults, s)"
| "delete_enriched m ((token, isEnriched) # rest) purged faults s =
    (if \<not> isEnriched then delete_enriched m rest purged faults s
     else case m token of
       None \<Rightarrow> delete_enriched m rest purged faults s
     | Some mid \<Rightarrow>
         (case redis_fault faults of (fault, faults) \<Rightarrow>
            if fault then (False, purged, faults, s)
            else case redis_fault faults of (fault, faults) \<Rightarrow>
              if fault then (False, purged, faults, xdel mid s)
              else delete_enriched m rest (purged + 1) faults (srem token (xdel mid s))))"

text \<open>\<open>PurgeEnrichedEntries\<close> goes on until a batch is empty or a call fails.\<close>

partial_function (option) purge_loop :: "checker \<Rightarrow> nat option \<Rightarrow> nat \<Rightarrow> bool list \<Rightarrow> enrich_stream \<Rightarrow>
    (bool \<times> nat \<times> enrich_stream) option" where
  "purge_loop chk lastID purged faults s =
    (case redis_fault faults of (fault, faults) \<Rightarrow>
       if fault then Some (False, purged, s)
       else let msgs = next_batch lastID s in
         if msgs = [] then Some (True, purged, s)
         else case chk (batch_tokens msgs) of
           Inl e \<Rightarrow> Some (False, purged, s)
         | Inr res \<Rightarrow>
             (case delete_enriched (msg_map msgs) res purged faults s of (ok, purged, faults, s) \<Rightarrow>
                if \<not> ok then Some (False, purged, s)
                else purge_loop chk (Some (fst (last msgs))) purged faults s))"

definition PurgeEnrichedEntries :: "checker \<Rightarrow> bool list \<Rightarrow> enrich_stream \<Rightarrow> (bool \<times> nat \<times> enrich_stream) option" where
  "PurgeEnrichedEntries chk faults s = purge_loop chk None 0 faults s"

definition ids_sorted :: "enrich_stream \<Rightarrow> bool" where
  "ids_sorted s = sorted_wrt (<) (map fst (st_entries s))"

definition is_after :: "nat option \<Rightarrow> nat \<times> string option \<Rightarrow> bool" where
  "is_after lastID e = (case lastID of None \<Rightarrow> True | Some i \<Rightarrow> i < fst e)"

lemma sorted_filter_tail:
  fixes es :: "(nat \<times> string option) list"
  assumes "sorted_wrt (<) (map fst es)"
  shows "(let ms = filter (\<lambda>e. i \<le> fst e) es in if ms \<noteq> [] \<and> fst (hd ms) = i then tl ms else ms) = filter (\<lambda>e. i < fst e) es"
  using assms
proof (induction es)
  case (Cons e es)
  show ?case
  proof (cases "i \<le> fst e")
    case True
    have "filter (\<lambda>e. i \<le> fst e) es = es \<and> filter (\<lambda>e. i < fst e) es = es"
      using Cons.prems True by (auto simp: filter_id_conv)
    then show ?thesis using True by (auto simp: Let_def)
  next
    case False
    then show ?thesis using Cons by (simp add: Let_def)
  qed
qed simp

lemma next_batch_after: "ids_sorted s \<Longrightarrow> next_batch lastID s = take 200 (filter (is_after lastID) (st_entries s))"
  using sorted_filter_tail [of "st_entries s"]
  by (cases lastID) (simp_all add: next_batch_def is_after_def [abs_def] ids_sorted_def Let_def)

text \<open>What the deletions of a batch can change: entries leave, each with a token that the answer calls enriched.\<close>

definition shrinks :: "(string \<Rightarrow> nat option) \<Rightarrow> (string \<times> bool) list \<Rightarrow> enrich_stream \<Rightarrow> enrich_stream \<Rightarrow> bool" where
  "shrinks m res s s' \<longleftrightarrow> (\<exists>P. st_entries s' = filter P (st_entries s) \<and>
     (\<forall>e \<in> set (st_entries s). \<not> P e \<longrightarrow> (\<exists>t. (t, True) \<in> set res \<and> m t = Some (fst e))))"

lemma shrinks_refl [simp]: "shrinks m res s s"
  unfolding shrinks_def by (rule exI [where x = "\<lambda>_. True"]) simp

lemma shrinks_mono: "shrinks m res s s' \<Longrightarrow> shrinks m (r # res) s s'"
  unfolding shrinks_def by (meson list.set_intros(2))

lemma shrinks_trans:
  assumes "shrinks m res s s'" "shrinks m res s' s''" shows "shrinks m res s s''"
proof -
  obtain P where P: "st_entries s' = filter P (st_entries s)"
      "\<forall>e \<in> set (st_entries s). \<not> P e \<longrightarrow> (\<exists>t. (t, True) \<in> set res \<and> m t = Some (fst e))"
    using assms(1) unfolding shrinks_def by blast
  obtain Q where Q: "st_entries s'' = filter Q (st_entries s')"
      "\<forall>e \<in> set (st_entries s'). \<not> Q e \<longrightarrow> (\<exists>t. (t, True) \<in> set res \<and> m t = Some (fst e))"
    using assms(2) unfolding shrinks_def by blast
  show ?thesis unfolding shrinks_def
    by (rule exI [where x = "\<lambda>e. P e \<and> Q e"]) (use P Q in \<open>auto simp: conj_commute\<close>)
qed

lemma shrinks_xdel: "m token = Some mid \<Longrightarrow> shrinks m ((token, True) # rest) s (xdel mid s)"
  unfolding shrinks_def xdel_def by (rule exI [where x = "\<lambda>e. fst e \<noteq> mid"]) auto

lemma shrinks_srem [simp]: "shrinks m res s (srem token s') = shrinks m res s s'"
  by (simp add: shrinks_def srem_def)

lemma delete_enriched_shrinks: "delete_enriched m res purged faults s = (ok, n, fs, s') \<Longrightarrow> shrinks m res s s'"
proof (induction res arbitrary: purged faults s)
  case (Cons r rest)
  obtain token isEnriched where r: "r = (token, isEnriched)" by (cases r)
  show ?case
  proof (cases "isEnriched \<and> m token \<noteq> None")
    case False
    then have "delete_enriched m rest purged faults s = (ok, n, fs, s')" using Cons.prems r by (cases "m token") (auto split: if_splits)
    then show ?thesis using Cons.IH shrinks_mono by metis
  next
    case True
    then obtain mid where mid: "m token = Some mid" by auto
    obtain f1 fs1 where f1: "redis_fault faults = (f1, fs1)" by fastforce
    obtain f2 fs2 where f2: "redis_fault fs1 = (f2, fs2)" by fastforce
    have x: "shrinks m (r # rest) s (xdel mid s)" using shrinks_xdel mid True r by simp
    consider "f1" | "\<not> f1" "f2" | "\<not> f1" "\<not> f2" by blast
    then show ?thesis
    proof cases
      case 3
      then have "delete_enriched m rest (purged + 1) fs2 (srem token (xdel mid s)) = (ok, n, fs, s')"
        using Cons.prems r True mid f1 f2 by simp
      then have "shrinks m (r # rest) (srem token (xdel mid s)) s'" using Cons.IH shrinks_mono by metis
      moreover have "shrinks m (r # rest) s (srem token (xdel mid s))" using x by simp
      ultimately show ?thesis using shrinks_trans by blast
    qed (use Cons.prems r True mid f1 f2 x in auto)
  qed
qed simp

lemma msg_map_mem: "msg_map msgs t = Some mid \<Longrightarrow> (mid, Some t) \<in> set msgs"
proof -
  have "foldl (\<lambda>m e. case snd e of None \<Rightarrow> m | Some t \<Rightarrow> m(t \<mapsto> fst e)) m0 msgs t = Some mid \<Longrightarrow>
      m0 t = Some mid \<or> (mid, Some t) \<in> set msgs" for m0
  proof (induction msgs arbitrary: m0)
    case (Cons e es)
    show ?case using Cons.IH Cons.prems by (cases e; cases "snd e") (fastforce split: if_splits)+
  qed simp
  from this [of Map.empty] show "msg_map msgs t = Some mid \<Longrightarrow> (mid, Some t) \<in> set msgs"
    unfolding msg_map_def by auto
qed

lemma ids_sorted_filter: "ids_sorted s \<Longrightarrow> st_entries s' = filter P (st_entries s) \<Longrightarrow> ids_sorted s'"
  unfolding ids_sorted_def by (simp add: sorted_wrt_map sorted_wrt_filter)

lemma ids_sorted_unique:
  assumes "ids_sorted s" "(i, a) \<in> set (st_entries s)" "(i, b) \<in> set (st_entries s)" shows "a = b"
proof -
  have "distinct (map fst (st_entries s))"
    using assms(1) unfolding ids_sorted_def by (simp add: strict_sorted_iff)
  then show ?thesis using assms(2,3) by (metis eq_key_imp_eq_value)
qed

definition remaining :: "nat option \<Rightarrow> enrich_stream \<Rightarrow> nat" where
  "remaining lastID s = card (set (filter (is_after lastID) (st_entries s)))"

lemma remaining_decreases:
  assumes "ids_sorted s" "next_batch lastID s \<noteq> []" "st_entries s' = filter P (st_entries s)"
  shows "remaining (Some (fst (last (next_batch lastID s)))) s' < remaining lastID s"
proof -
  define e where "e = last (next_batch lastID s)"
  have "e \<in> set (take 200 (filter (is_after lastID) (st_entries s)))"
    using assms(2) next_batch_after [OF assms(1)] unfolding e_def by (metis last_in_set)
  then have e: "e \<in> set (filter (is_after lastID) (st_entries s))" by (rule in_set_takeD)
  then have "set (filter (is_after (Some (fst e))) (st_entries s')) \<subseteq> set (filter (is_after lastID) (st_entries s))"
    using assms(3) by (cases lastID) (auto simp: is_after_def)
  moreover have "e \<notin> set (filter (is_after (Some (fst e))) (st_entries s'))" by (simp add: is_after_def)
  ultimately show ?thesis unfolding remaining_def e_def [symmetric]
    using e by (intro psubset_card_mono) auto
qed

definition kept_unless :: "(string \<Rightarrow> bool) \<Rightarrow> enrich_stream \<Rightarrow> enrich_stream \<Rightarrow> bool" where
  "kept_unless enriched s s' \<longleftrightarrow>
    (\<exists>P. st_entries s' = filter P (st_entries s)) \<and>
    (\<forall>e \<in> set (st_entries s). e \<in> set (st_entries s') \<or> (\<exists>t. snd e = Some t \<and> enriched t))"

lemma kept_unless_refl: "kept_unless enriched s s"
  unfolding kept_unless_def by (auto intro: exI [where x = "\<lambda>_. True"])

lemma kept_unless_trans:
  assumes "kept_unless enriched s s'" "kept_unless enriched s' s''" shows "kept_unless enriched s s''"
proof -
  obtain P Q where "st_entries s' = filter P (st_entries s)" "st_entries s'' = filter Q (st_entries s')"
    using assms unfolding kept_unless_def by blast
  then have "\<exists>R. st_entries s'' = filter R (st_entries s)" by (metis filter_filter)
  then show ?thesis using assms unfolding kept_unless_def by blast
qed

lemma batch_keeps:
  assumes "ids_sorted s" "\<forall>t. (t, True) \<in> set res \<longrightarrow> enriched t" "shrinks (msg_map (next_batch lastID s)) res s s'"
  shows "kept_unless enriched s s'"
proof -
  obtain P where P: "st_entries s' = filter P (st_entries s)"
      "\<forall>e \<in> set (st_entries s). \<not> P e \<longrightarrow> (\<exists>t. (t, True) \<in> set res \<and> msg_map (next_batch lastID s) t = Some (fst e))"
    using assms(3) unfolding shrinks_def by blast
  have "snd e = Some t" if "e \<in> set (st_entries s)" "msg_map (next_batch lastID s) t = Some (fst e)" for e t
  proof -
    have "(fst e, Some t) \<in> set (take 200 (filter (is_after lastID) (st_entries s)))"
      using msg_map_mem [OF that(2)] next_batch_after [OF assms(1)] by simp
    then have "(fst e, Some t) \<in> set (st_entries s)" using in_set_takeD by fastforce
    then show ?thesis using ids_sorted_unique [OF assms(1)] that(1) by (metis prod.collapse)
  qed
  then show ?thesis using P assms(2) unfolding kept_unless_def by fastforce
qed

lemma purge_loop_keeps:
  assumes "\<forall>ts res t. chk ts = Inr res \<longrightarrow> (t, True) \<in> set res \<longrightarrow> enriched t"
  shows "ids_sorted s \<Longrightarrow> \<exists>ok n s'. purge_loop chk lastID purged faults s = Some (ok, n, s') \<and> kept_unless enriched s s'"
proof (induction "remaining lastID s" arbitrary: lastID purged faults s rule: less_induct)
  case less
  note unfold = purge_loop.simps [of chk lastID purged faults s]
  obtain f fs where f: "redis_fault faults = (f, fs)" by fastforce
  show ?case
  proof (cases "f \<or> next_batch lastID s = []")
    case True
    then show ?thesis using f by (subst unfold) (auto simp: Let_def kept_unless_refl)
  next
    case False
    show ?thesis
    proof (cases "chk (batch_tokens (next_batch lastID s))")
      case (Inl e)
      then show ?thesis using f False by (subst unfold) (auto simp: Let_def kept_unless_refl)
    next
      case (Inr res)
      obtain ok n fs' s' where d: "delete_enriched (msg_map (next_batch lastID s)) res purged fs s = (ok, n, fs', s')"
        by (metis prod.exhaust)
      have k: "kept_unless enriched s s'"
        using batch_keeps [OF less.prems _ delete_enriched_shrinks [OF d]] assms Inr by blast
      then obtain P where P: "st_entries s' = filter P (st_entries s)" unfolding kept_unless_def by blast
      have eq: "purge_loop chk lastID purged faults s =
          (if \<not> ok then Some (False, n, s') else purge_loop chk (Some (fst (last (next_batch lastID s)))) n fs' s')"
        by (subst unfold) (use f False Inr d in \<open>simp add: Let_def\<close>)
      show ?thesis
      proof (cases ok)
        case True
        obtain ok2 n2 s2 where "purge_loop chk (Some (fst (last (next_batch lastID s)))) n fs' s' = Some (ok2, n2, s2)"
            "kept_unless enriched s' s2"
          using less.hyps [OF remaining_decreases [OF less.prems _ P] ids_sorted_filter [OF less.prems P]] False by blast
        then show ?thesis using eq True kept_unless_trans [OF k] by auto
      next
        case False
        then have "purge_loop chk lastID purged faults s = Some (False, n, s')" using eq by simp
        then show ?thesis using k by blast
      qed
    qed
  qed
qed

text \<open>C24. Purging the enrichment stream always comes to an end, whatever calls fail, when the identifiers increase as
  Redis makes them, and an entry that it removed carried a token which the checker called fully enriched.\<close>

theorem purge_ends_and_keeps_unenriched:
  assumes "ids_sorted s" "\<forall>ts res t. chk ts = Inr res \<longrightarrow> (t, True) \<in> set res \<longrightarrow> enriched t"
  shows "\<exists>ok n s'. PurgeEnrichedEntries chk faults s = Some (ok, n, s') \<and>
    (\<forall>e \<in> set (st_entries s). e \<in> set (st_entries s') \<or> (\<exists>t. snd e = Some t \<and> enriched t))"
  using purge_loop_keeps [OF assms(2,1), of None 0 faults] unfolding PurgeEnrichedEntries_def kept_unless_def by blast

definition sample_stream :: enrich_stream where
  "sample_stream = \<lparr>st_entries = [(1, Some ''a''), (2, None), (5, Some ''b'')], st_pending = [''a'', ''b'']\<rparr>"

definition sample_checker :: checker where
  "sample_checker ts = Inr (List.map (\<lambda>t. (t, t = ''a'')) ts)"

theorem purge_ends_and_keeps_unenriched_witness:
  "\<exists>ok n s'. PurgeEnrichedEntries sample_checker [] sample_stream = Some (ok, n, s') \<and>
    (\<forall>e \<in> set (st_entries sample_stream). e \<in> set (st_entries s') \<or> (\<exists>t. snd e = Some t \<and> t = ''a''))"
  by (rule purge_ends_and_keeps_unenriched [where enriched = "\<lambda>t. t = ''a''"])
    (auto simp: sample_stream_def sample_checker_def ids_sorted_def)

subsection \<open>The order of a batch\<close>

definition decoded :: "'s enrich_queue \<Rightarrow> redis_message \<Rightarrow> enrich_request option" where
  "decoded q m = Option.bind (rm_data m) (nq_decode q)"

definition by_priority :: "enrich_request list \<Rightarrow> bool" where
  "by_priority = sorted_wrt (\<lambda>a b. eq_Priority a \<le> eq_Priority b)"

text \<open>What \<open>slices.SortFunc\<close> promises.\<close>

definition sorts :: "'s enrich_queue \<Rightarrow> bool" where
  "sorts q \<longleftrightarrow> (\<forall>items. mset (nq_sort q items) = mset items \<and> by_priority (List.map snd (nq_sort q items)))"

lemma redis_only [simp]:
  "nx_calls (e_ack q mid x) = nx_calls x"
  "nx_calls (removePending q token x) = nx_calls x"
  "nx_calls (snd (next_done x)) = nx_calls x"
  by (simp_all add: e_ack_def removePending_def next_done_def split: list.splits)

lemma deadLetter_calls [simp]: "nx_calls (e_deadLetter q mid x) = nx_calls x"
  by (simp add: e_deadLetter_def Let_def split: option.splits prod.splits)

lemma parse_batch_items: "fst (parse_batch q ms x) = List.map_filter (\<lambda>m. map_option (Pair m) (decoded q m)) ms"
  by (induction q ms x rule: parse_batch.induct)
    (auto simp: List.map_filter_def decoded_def split: option.splits prod.splits)

lemma parse_batch_calls: "nx_calls (snd (parse_batch q ms x)) = nx_calls x"
proof (induction q ms x rule: parse_batch.induct)
  case (2 q m ms x)
  show ?case
  proof (cases "Option.bind (rm_data m) (nq_decode q)")
    case None
    then show ?thesis using 2 by simp
  next
    case (Some req)
    then show ?thesis using 2 by (simp split: prod.splits) (metis snd_conv)
  qed
qed simp

lemma call_enrich_calls: "nx_calls (snd (call_enrich req x)) = nx_calls x @ [req]"
  by (simp add: call_enrich_def Let_def split: list.splits)

lemma run_batch_calls: "\<exists>k. nx_calls (run_batch q items x) = nx_calls x @ List.map snd (take k items)"
proof (induction items arbitrary: x)
  case (Cons i items)
  obtain m req where i: "i = (m, req)" by (cases i)
  obtain dn x1 where d: "next_done x = (dn, x1)" by fastforce
  obtain r x2 where c: "call_enrich req x1 = (r, x2)" by fastforce
  have d1: "nx_calls x1 = nx_calls x" using redis_only(3) [of x] d by simp
  have c1: "nx_calls x2 = nx_calls x @ [req]" using call_enrich_calls [of req x1] c d1 by simp
  have step: "\<exists>k. nx_calls (run_batch q items y) = nx_calls x @ List.map snd (take k (i # items))"
    if "nx_calls y = nx_calls x @ [req]" for y
  proof -
    obtain k where "nx_calls (run_batch q items y) = nx_calls y @ List.map snd (take k items)" using Cons.IH by blast
    then show ?thesis using that i by (intro exI [where x = "Suc k"]) simp
  qed
  show ?case
  proof (cases dn)
    case True
    then show ?thesis using i d d1 by (intro exI [where x = 0]) simp
  next
    case False
    then have eq: "run_batch q (i # items) x =
        (case r of Permanent \<Rightarrow> run_batch q items (e_deadLetter q (rm_ID m) x2)
         | Acked \<Rightarrow> run_batch q items (removePending q (eq_Token req) (e_ack q (rm_ID m) x2))
         | Failed \<Rightarrow> run_batch q items x2 | Panicked \<Rightarrow> x2)"
      using i d c by simp
    show ?thesis
    proof (cases r)
      case Panicked
      then show ?thesis using eq c1 i by (intro exI [where x = 1]) simp
    qed (use eq step c1 in \<open>simp_all\<close>)
  qed
qed simp

lemma processBatch_calls:
  "\<exists>k. nx_calls (processBatch q msgs x) =
    nx_calls x @ List.map snd (take k (nq_sort q (List.map_filter (\<lambda>m. map_option (Pair m) (decoded q m)) msgs)))"
  using run_batch_calls parse_batch_items [of q msgs x] parse_batch_calls [of q msgs x]
  by (metis (no_types, lifting) processBatch_def case_prod_beta prod.collapse)

text \<open>A batch of the enrichment queue calls the enricher in the order of the priorities: whatever was lost, failed
  or was cut short on the way, no request is served after one that is less urgent.\<close>

lemma batch_served_by_priority:
  assumes "sorts q" "nx_calls x = []"
  shows "by_priority (nx_calls (processBatch q msgs x))"
proof -
  obtain k where k: "nx_calls (processBatch q msgs x) =
      take k (List.map snd (nq_sort q (List.map_filter (\<lambda>m. map_option (Pair m) (decoded q m)) msgs)))"
    using processBatch_calls [of q msgs x] assms(2) by (auto simp: take_map)
  show ?thesis using assms(1) unfolding k sorts_def by_priority_def by (blast intro: sorted_wrt_take)
qed

lemma sort_key_by_priority: "by_priority (List.map snd (sort_key (\<lambda>i. eq_Priority (snd i)) items))"
proof -
  have "sorted (List.map (\<lambda>i. eq_Priority (snd i)) (sort_key (\<lambda>i. eq_Priority (snd i)) items))" by simp
  then show ?thesis unfolding by_priority_def sorted_map by (simp add: sorted_wrt_map)
qed

definition sample_enrich_queue :: "mem_stream enrich_queue" where
  "sample_enrich_queue = \<lparr>nq_ops = mem_redis, nq_srem = (\<lambda>_ s. s),
     nq_decode = (\<lambda>t. if t = ''slow'' then Some \<lparr>eq_Token = ''a'', eq_Priority = 3, eq_SearchIDs = [], eq_Source = ''''\<rparr>
       else Some \<lparr>eq_Token = ''b'', eq_Priority = 1, eq_SearchIDs = [], eq_Source = ''''\<rparr>),
     nq_sort = sort_key (\<lambda>i. eq_Priority (snd i))\<rparr>"

lemma batch_served_by_priority_witness:
  "by_priority (nx_calls (processBatch sample_enrich_queue [\<lparr>rm_ID = ''1'', rm_data = Some ''slow''\<rparr>, \<lparr>rm_ID = ''2'', rm_data = Some ''fast''\<rparr>]
     \<lparr>nx_redis = \<lparr>ms_entries = [], ms_pel = [''1'', ''2''], ms_count = (\<lambda>_. 1), ms_dead = []\<rparr>, nx_outcomes = [Acked, Failed], nx_done = [], nx_calls = []\<rparr>))"
  by (rule batch_served_by_priority) (simp_all add: sorts_def sample_enrich_queue_def sort_key_by_priority)

text \<open>No batch serves a request twice, or one that it was not handed.\<close>

lemma batch_serves_own_requests:
  assumes "sorts q" "nx_calls x = []"
  shows "mset (nx_calls (processBatch q msgs x)) \<subseteq># mset (List.map_filter (decoded q) msgs)"
proof -
  define items where "items = List.map_filter (\<lambda>m. map_option (Pair m) (decoded q m)) msgs"
  obtain k where k: "nx_calls (processBatch q msgs x) = take k (List.map snd (nq_sort q items))"
    using processBatch_calls [of q msgs x] assms(2) unfolding items_def by (auto simp: take_map)
  have "List.map snd items = List.map_filter (decoded q) msgs"
    unfolding items_def by (induction msgs) (auto simp: List.map_filter_simps split: option.splits)
  moreover have "mset (List.map snd (nq_sort q items)) = mset (List.map snd items)"
    using assms(1) unfolding sorts_def by (simp add: mset_map)
  ultimately have "mset (List.map snd (nq_sort q items)) = mset (List.map_filter (decoded q) msgs)" by simp
  moreover have "mset (take k (List.map snd (nq_sort q items))) \<subseteq># mset (List.map snd (nq_sort q items))"
    by (metis append_take_drop_id mset_append mset_subset_eq_add_left)
  ultimately show ?thesis unfolding k by simp
qed

end
