(* ===== verification/Accounts.thy ===== *)
theory Accounts
  imports SearchStore
begin

section \<open>Users and the linking of accounts (internal/storage/postgres/users.go, link_tokens.go)\<close>

text \<open>
  Users come from Telegram, WhatsApp or the web. A web user can link the Telegram account to the one of the web: the
  data of the web account moves to the Telegram account in one transaction, and the web requests act for it from then
  on. The constraints of the schema that matter are written out: the key of a table, \<open>UNIQUE (channel, channel_id)\<close> and
  \<open>UNIQUE (chat_id, user_seq)\<close>.
\<close>

subsection \<open>Users\<close>

definition whatsappIDOffset :: int where "whatsappIDOffset = 1000000000000"
definition webIDOffset :: int where "webIDOffset = 2000000000000"

text \<open>A new row with the defaults of the schema.\<close>

definition new_user :: "int \<Rightarrow> string \<Rightarrow> string \<Rightarrow> string \<Rightarrow> user" where
  "new_user chatID username channel channelID =
    \<lparr>u_ChatID = chatID, u_Active = True, u_Language = ''he'', u_Tier = ''free'', u_TierExpires = 0, u_digest_mode = ''instant'',
     u_digest_interval = ''6h'', u_digest_last_flushed = 0, u_daily_digest = False, u_daily_digest_time = ''09:00'',
     u_daily_digest_last_sent = 0, u_Username = username, u_State = ''idle'', u_StateData = '''', u_TrialUsed = False,
     u_Channel = channel, u_ChannelID = channelID, u_LinkedWebID = None\<rparr>"

definition channel_unique :: "(int \<times> user) list \<Rightarrow> bool" where
  "channel_unique us = distinct (map (\<lambda>(c, u). (u_Channel u, u_ChannelID u)) (filter (\<lambda>(c, u). u_ChannelID u \<noteq> '''') us))"

definition UpsertUser :: "int \<Rightarrow> string \<Rightarrow> 'z db_scheme \<Rightarrow> (db_error + unit) \<times> 'z db_scheme" where
  "UpsertUser chatID username = db_call (DbError '''') (\<lambda>d.
     let channelID = itoa chatID;
         row = (case map_of (db_users d) chatID of
           None \<Rightarrow> new_user chatID username ''telegram'' channelID
         | Some u \<Rightarrow> u\<lparr>u_Username := username, u_ChannelID := (if u_ChannelID u = '''' then channelID else u_ChannelID u)\<rparr>);
         us = AList.update chatID row (db_users d)
     in if channel_unique us then (Inr (), d\<lparr>db_users := us\<rparr>) else (Inl (DbError ''''), d))"

definition has_channel :: "string \<Rightarrow> string \<Rightarrow> int \<times> user \<Rightarrow> bool" where
  "has_channel channel channelID x \<longleftrightarrow> u_Channel (snd x) = channel \<and> u_ChannelID (snd x) = channelID"

definition GetUserByChannelID :: "string \<Rightarrow> string \<Rightarrow> 'z db_scheme \<Rightarrow> (db_error + user option) \<times> 'z db_scheme" where
  "GetUserByChannelID channel channelID = db_call (DbError '''') (\<lambda>d.
     (Inr (map_option snd (find (has_channel channel channelID) (db_users d))), d))"

definition next_user_id :: "int \<Rightarrow> (int \<times> user) list \<Rightarrow> int" where
  "next_user_id offset us = (case filter (\<lambda>c. c \<ge> offset) (map fst us) of [] \<Rightarrow> offset - 1 | c # cs \<Rightarrow> fold max cs c) + 1"

text \<open>The transaction; \<open>raced\<close> says that another transaction took the number or the channel id in the meantime, which is
  the unique violation that the caller retries on.\<close>

datatype upsert_error = UniqueViolation | UpsertFailed

definition channel_tx :: "bool \<Rightarrow> string \<Rightarrow> string \<Rightarrow> string \<Rightarrow> int \<Rightarrow> 'z db_scheme \<Rightarrow> (db_error + int option) \<times> 'z db_scheme" where
  "channel_tx raced channel channelID username idOffset d =
    (case find (has_channel channel channelID) (db_users d) of
       Some x \<Rightarrow> (Inr (Some (fst x)), d)
     | None \<Rightarrow>
         if raced then (Inr None, d)
         else let newID = next_user_id idOffset (db_users d)
           in (Inr (Some newID), d\<lparr>db_users := db_users d @ [(newID, new_user newID username channel channelID)]\<rparr>))"

definition tryUpsertChannelUser :: "bool \<Rightarrow> string \<Rightarrow> string \<Rightarrow> string \<Rightarrow> int \<Rightarrow> 'z db_scheme \<Rightarrow> (upsert_error + int) \<times> 'z db_scheme" where
  "tryUpsertChannelUser raced channel channelID username idOffset d =
    (case db_call (DbError '''') (channel_tx raced channel channelID username idOffset) d of
       (Inl _, d) \<Rightarrow> (Inl UpsertFailed, d)
     | (Inr None, d) \<Rightarrow> (Inl UniqueViolation, d)
     | (Inr (Some i), d) \<Rightarrow> (Inr i, d))"

text \<open>At most three attempts.\<close>

fun upsert_attempts :: "nat \<Rightarrow> (nat \<Rightarrow> bool) \<Rightarrow> string \<Rightarrow> string \<Rightarrow> string \<Rightarrow> int \<Rightarrow> 'z db_scheme \<Rightarrow> (upsert_error + int) \<times> 'z db_scheme" where
  "upsert_attempts 0 raced channel channelID username idOffset d = (Inl UpsertFailed, d)"
| "upsert_attempts (Suc n) raced channel channelID username idOffset d =
    (case tryUpsertChannelUser (raced n) channel channelID username idOffset d of
       (Inl UniqueViolation, d) \<Rightarrow> upsert_attempts n raced channel channelID username idOffset d
     | r \<Rightarrow> r)"

definition upsertChannelUser :: "(nat \<Rightarrow> bool) \<Rightarrow> string \<Rightarrow> string \<Rightarrow> string \<Rightarrow> int \<Rightarrow> 'z db_scheme \<Rightarrow> (upsert_error + int) \<times> 'z db_scheme" where
  "upsertChannelUser raced channel channelID username idOffset = upsert_attempts 3 raced channel channelID username idOffset"

definition UpsertWhatsAppUser :: "(nat \<Rightarrow> bool) \<Rightarrow> string \<Rightarrow> 'z db_scheme \<Rightarrow> (upsert_error + int) \<times> 'z db_scheme" where
  "UpsertWhatsAppUser raced phoneNumber = upsertChannelUser raced ''whatsapp'' phoneNumber phoneNumber whatsappIDOffset"

definition UpsertWebUser :: "(nat \<Rightarrow> bool) \<Rightarrow> string \<Rightarrow> string \<Rightarrow> 'z db_scheme \<Rightarrow> (upsert_error + int) \<times> 'z db_scheme" where
  "UpsertWebUser raced firebaseUID email = upsertChannelUser raced ''web'' firebaseUID email webIDOffset"

definition UpdateUserState :: "int \<Rightarrow> string \<Rightarrow> string \<Rightarrow> 'z db_scheme \<Rightarrow> (db_error + unit) \<times> 'z db_scheme" where
  "UpdateUserState chatID state stateData = db_call (DbError '''') (\<lambda>d. (Inr (), update_user chatID (\<lambda>u. u\<lparr>u_State := state, u_StateData := stateData\<rparr>) d))"

definition SetUserLanguage :: "int \<Rightarrow> string \<Rightarrow> 'z db_scheme \<Rightarrow> (db_error + unit) \<times> 'z db_scheme" where
  "SetUserLanguage chatID lang = db_call (DbError '''') (\<lambda>d. (Inr (), update_user chatID (\<lambda>u. u\<lparr>u_Language := lang\<rparr>) d))"

definition ListActiveUsers :: "'z db_scheme \<Rightarrow> (db_error + user list) \<times> 'z db_scheme" where
  "ListActiveUsers = db_call (DbError '''') (\<lambda>d. (Inr (filter u_Active (map snd (db_users d))), d))"

definition CountUsers :: "'z db_scheme \<Rightarrow> (db_error + nat) \<times> 'z db_scheme" where
  "CountUsers = db_call (DbError '''') (\<lambda>d. (Inr (length (filter (u_Active \<circ> snd) (db_users d))), d))"

definition GrantTrial :: "gotime \<Rightarrow> int \<Rightarrow> duration \<Rightarrow> 'z db_scheme \<Rightarrow> (db_error + unit) \<times> 'z db_scheme" where
  "GrantTrial now chatID dur = db_call (DbError '''') (\<lambda>d.
     (case map_of (db_users d) chatID of
        None \<Rightarrow> (Inl NotFound, d)
      | Some u \<Rightarrow> if u_TrialUsed u then (Inl NotFound, d)
          else (Inr (), update_user chatID (\<lambda>u. u\<lparr>u_Tier := ''premium'', u_TierExpires := now + dur, u_TrialUsed := True\<rparr>) d)))"

subsection \<open>Moving the data of one account to another\<close>

text \<open>The pair of statements that moves a table: an UPDATE of the rows of the web account which have no equal among those
  of the Telegram account, as it stood before the statement, and a DELETE of what is left of the web account.\<close>

definition moves :: "('r \<Rightarrow> int) \<Rightarrow> ('r \<Rightarrow> 'r \<Rightarrow> bool) \<Rightarrow> int \<Rightarrow> int \<Rightarrow> 'r list \<Rightarrow> 'r \<Rightarrow> bool" where
  "moves chat same tg web rows r \<longleftrightarrow> chat r = web \<and> \<not> list_ex (\<lambda>x. chat x = tg \<and> same x r) rows"

definition update_rows :: "('r \<Rightarrow> int) \<Rightarrow> ('r \<Rightarrow> 'r) \<Rightarrow> ('r \<Rightarrow> 'r \<Rightarrow> bool) \<Rightarrow> int \<Rightarrow> int \<Rightarrow> 'r list \<Rightarrow> 'r list" where
  "update_rows chat set_tg same tg web rows = map (\<lambda>r. if moves chat same tg web rows r then set_tg r else r) rows"

definition move_rows :: "('r \<Rightarrow> int) \<Rightarrow> ('r \<Rightarrow> 'r) \<Rightarrow> ('r \<Rightarrow> 'r \<Rightarrow> bool) \<Rightarrow> int \<Rightarrow> int \<Rightarrow> 'r list \<Rightarrow> 'r list" where
  "move_rows chat set_tg same tg web rows = filter (\<lambda>r. chat r \<noteq> web) (update_rows chat set_tg same tg web rows)"

definition same_criteria :: "search \<Rightarrow> search \<Rightarrow> bool" where
  "same_criteria a b \<longleftrightarrow> s_Manufacturer a = s_Manufacturer b \<and> s_Model a = s_Model b \<and> s_YearMin a = s_YearMin b \<and> s_YearMax a = s_YearMax b
   \<and> s_PriceMin a = s_PriceMin b \<and> s_PriceMax a = s_PriceMax b \<and> s_MaxKm a = s_MaxKm b \<and> s_MaxHand a = s_MaxHand b
   \<and> s_EngineMinCC a = s_EngineMinCC b \<and> s_Keywords a = s_Keywords b \<and> s_ExcludeKeys a = s_ExcludeKeys b
   \<and> s_SellerFilter a = s_SellerFilter b \<and> s_GearBox a = s_GearBox b"

definition same_car :: "search \<Rightarrow> search \<Rightarrow> bool" where
  "same_car a b \<longleftrightarrow> s_Manufacturer a = s_Manufacturer b \<and> s_Model a = s_Model b"

definition move_searches :: "(search \<Rightarrow> search \<Rightarrow> bool) \<Rightarrow> int \<Rightarrow> int \<Rightarrow> search list \<Rightarrow> search list" where
  "move_searches same tg web = move_rows s_ChatID (\<lambda>s. s\<lparr>s_ChatID := tg\<rparr>) same tg web"

definition move_pairs :: "int \<Rightarrow> int \<Rightarrow> (int \<times> string) list \<Rightarrow> (int \<times> string) list" where
  "move_pairs tg web = move_rows fst (\<lambda>(c, t). (tg, t)) (\<lambda>a b. snd a = snd b) tg web"

definition move_history :: "int \<Rightarrow> int \<Rightarrow> ((string \<times> int) \<times> history_row) list \<Rightarrow> ((string \<times> int) \<times> history_row) list" where
  "move_history tg web = move_rows (snd \<circ> fst) (\<lambda>((t, c), r). ((t, tg), r\<lparr>lr_ChatID := tg\<rparr>)) (\<lambda>a b. fst (fst a) = fst (fst b)) tg web"

definition move_seen :: "int \<Rightarrow> int \<Rightarrow> (claim_key \<times> claim_row) list \<Rightarrow> (claim_key \<times> claim_row) list" where
  "move_seen tg web = move_rows (fst \<circ> snd \<circ> fst) (\<lambda>((t, c, i), r). ((t, tg, i), r)) (\<lambda>a b. fst (fst a) = fst (fst b)) tg web"

text \<open>\<open>UNIQUE (chat_id, user_seq)\<close>, which the update of the searches may violate.\<close>

definition seq_unique :: "search list \<Rightarrow> bool" where
  "seq_unique ss = distinct (map (\<lambda>s. (s_ChatID s, s_UserSeq s)) ss)"

definition move_data :: "(search \<Rightarrow> search \<Rightarrow> bool) \<Rightarrow> int \<Rightarrow> int \<Rightarrow> 'z db_scheme \<Rightarrow> 'z db_scheme" where
  "move_data same tg web d = d\<lparr>db_searches := move_searches same tg web (db_searches d), db_saved := move_pairs tg web (db_saved d),
     db_hidden := move_pairs tg web (db_hidden d), db_history := move_history tg web (db_history d), db_seen := move_seen tg web (db_seen d)\<rparr>"

definition searches_movable :: "(search \<Rightarrow> search \<Rightarrow> bool) \<Rightarrow> int \<Rightarrow> int \<Rightarrow> search list \<Rightarrow> bool" where
  "searches_movable same tg web ss = seq_unique (update_rows s_ChatID (\<lambda>s. s\<lparr>s_ChatID := tg\<rparr>) same tg web ss)"

definition is_telegram :: "'z db_scheme \<Rightarrow> int \<Rightarrow> bool" where
  "is_telegram d tg = (case map_of (db_users d) tg of Some u \<Rightarrow> u_Channel u = ''telegram'' | None \<Rightarrow> False)"

definition link_users :: "int \<Rightarrow> int \<Rightarrow> 'z db_scheme \<Rightarrow> 'z db_scheme" where
  "link_users tg web d = d\<lparr>db_users := map (\<lambda>(c, u).
     (c, if c = tg then u\<lparr>u_LinkedWebID := Some web\<rparr>
         else if u_LinkedWebID u = Some web \<and> u_Channel u = ''telegram'' then u\<lparr>u_LinkedWebID := None\<rparr> else u)) (db_users d)\<rparr>"

definition LinkTelegramToWeb :: "int \<Rightarrow> int \<Rightarrow> 'z db_scheme \<Rightarrow> (db_error + unit) \<times> 'z db_scheme" where
  "LinkTelegramToWeb tg web = db_call (DbError '''') (\<lambda>d.
     if \<not> is_telegram d tg then (Inl NotFound, d)
     else if \<not> searches_movable same_criteria tg web (db_searches d) then (Inl (DbError ''migrate searches''), d)
     else (Inr (), move_data same_criteria tg web (link_users tg web d)))"

definition moved_count :: "('r \<Rightarrow> int) \<Rightarrow> ('r \<Rightarrow> 'r \<Rightarrow> bool) \<Rightarrow> int \<Rightarrow> int \<Rightarrow> 'r list \<Rightarrow> nat" where
  "moved_count chat same tg web rows = length (filter (moves chat same tg web rows) rows)"

definition migrateUserData :: "int \<Rightarrow> int \<Rightarrow> 'z db_scheme \<Rightarrow> (db_error + nat) \<times> 'z db_scheme" where
  "migrateUserData tg web = db_call (DbError '''') (\<lambda>d.
     if \<not> searches_movable same_car tg web (db_searches d) then (Inl (DbError ''''), d)
     else (Inr (moved_count s_ChatID same_car tg web (db_searches d) + moved_count fst (\<lambda>a b. snd a = snd b) tg web (db_saved d)
             + moved_count fst (\<lambda>a b. snd a = snd b) tg web (db_hidden d)
             + moved_count (snd \<circ> fst) (\<lambda>a b. fst (fst a) = fst (fst b)) tg web (db_history d)
             + moved_count (fst \<circ> snd \<circ> fst) (\<lambda>a b. fst (fst a) = fst (fst b)) tg web (db_seen d)),
           move_data same_car tg web d))"

fun migrate_links :: "(int \<times> int) list \<Rightarrow> nat \<Rightarrow> 'z db_scheme \<Rightarrow> (db_error + nat) \<times> 'z db_scheme" where
  "migrate_links [] migrated d = (Inr migrated, d)"
| "migrate_links ((tg, web) # links) migrated d =
    (case migrateUserData tg web d of (Inl e, d) \<Rightarrow> (Inl e, d) | (Inr n, d) \<Rightarrow> migrate_links links (migrated + n) d)"

definition linked_accounts :: "'z db_scheme \<Rightarrow> (int \<times> int) list" where
  "linked_accounts d = List.map_filter (\<lambda>(c, u). if u_Channel u = ''telegram'' \<and> u_Active u then map_option (Pair c) (u_LinkedWebID u) else None) (db_users d)"

definition BackfillLinkedData :: "'z db_scheme \<Rightarrow> (db_error + nat) \<times> 'z db_scheme" where
  "BackfillLinkedData d =
    (case db_call (DbError ''query linked accounts'') (\<lambda>d. (Inr (linked_accounts d), d)) d of
       (Inl e, d) \<Rightarrow> (Inl e, d) | (Inr links, d) \<Rightarrow> migrate_links links 0 d)"

definition GetLinkedTelegramUser :: "int \<Rightarrow> 'z db_scheme \<Rightarrow> (db_error + user option) \<times> 'z db_scheme" where
  "GetLinkedTelegramUser web = db_call (DbError '''') (\<lambda>d.
     (Inr (map_option snd (find (\<lambda>(c, u). u_LinkedWebID u = Some web \<and> u_Channel u = ''telegram'' \<and> u_Active u) (db_users d))), d))"

subsection \<open>Link tokens\<close>

definition linkTokenTTL :: duration where "linkTokenTTL = minutes 15"

datatype link_error = ErrLinkTokenNotFound | ErrLinkTokenExpired | ErrLinkTokenUsed

definition CreateLinkToken :: "gotime \<Rightarrow> string \<Rightarrow> int \<Rightarrow> 'z db_scheme \<Rightarrow> (db_error + string) \<times> 'z db_scheme" where
  "CreateLinkToken now token web = db_call (DbError ''insert link token'') (\<lambda>d.
     if map_of (db_link_tokens d) token \<noteq> None then (Inl (DbError ''insert link token''), d)
     else (Inr token, d\<lparr>db_link_tokens := db_link_tokens d @ [(token, \<lparr>lt_web = web, lt_expires = now + linkTokenTTL, lt_used = False\<rparr>)]\<rparr>))"

definition ConsumeLinkToken :: "gotime \<Rightarrow> string \<Rightarrow> 'z db_scheme \<Rightarrow> (db_error + (link_error + int)) \<times> 'z db_scheme" where
  "ConsumeLinkToken now token = db_call (DbError '''') (\<lambda>d.
     (case map_of (db_link_tokens d) token of
        None \<Rightarrow> (Inr (Inl ErrLinkTokenNotFound), d)
      | Some l \<Rightarrow>
          if lt_used l then (Inr (Inl ErrLinkTokenUsed), d)
          else if now > lt_expires l then (Inr (Inl ErrLinkTokenExpired), d)
          else if \<not> (lt_expires l > now) then (Inr (Inl ErrLinkTokenUsed), d)
          else (Inr (Inr (lt_web l)), d\<lparr>db_link_tokens := AList.update token (l\<lparr>lt_used := True\<rparr>) (db_link_tokens d)\<rparr>)))"

text \<open>The deep link of the bot (\<open>handleLinkStart\<close> of internal/bot/commands.go).\<close>

datatype link_outcome = LinkExpired | LinkError | LinkSuccess

definition isLowerHex :: "string \<Rightarrow> bool" where
  "isLowerHex s = list_all (\<lambda>c. (48 \<le> (of_char c :: nat) \<and> of_char c \<le> (57 :: nat)) \<or> (97 \<le> (of_char c :: nat) \<and> of_char c \<le> (102 :: nat))) s"

definition handleLinkStart :: "bool \<Rightarrow> gotime \<Rightarrow> int \<Rightarrow> string \<Rightarrow> 'z db_scheme \<Rightarrow> link_outcome \<times> 'z db_scheme" where
  "handleLinkStart configured now tg param d =
    (if \<not> configured \<or> tg \<le> 0 then (LinkExpired, d)
     else let token = (if prefix ''link_'' param then drop 5 param else param) in
       if length token \<noteq> 32 \<or> \<not> isLowerHex token then (LinkExpired, d)
       else case ConsumeLinkToken now token d of
         (Inl _, d) \<Rightarrow> (LinkError, d)
       | (Inr (Inl _), d) \<Rightarrow> (LinkExpired, d)
       | (Inr (Inr web), d) \<Rightarrow> (case LinkTelegramToWeb tg web d of (Inl _, d) \<Rightarrow> (LinkError, d) | (Inr _, d) \<Rightarrow> (LinkSuccess, d)))"

subsection \<open>Lemmas: moving rows\<close>

lemma move_rows_mem:
  "r' \<in> set (move_rows chat set_tg same tg web rows) \<longleftrightarrow>
    chat r' \<noteq> web \<and> (\<exists>r \<in> set rows. r' = (if moves chat same tg web rows r then set_tg r else r))"
  unfolding move_rows_def update_rows_def by auto

lemma moves_chat: "moves chat same tg web rows r \<Longrightarrow> chat r = web"
  by (simp add: moves_def)

text \<open>A row of the web account is moved, or there is one that stands for it.\<close>

lemma moved_or_equal:
  assumes "chat r = web" "r \<in> set rows" "tg \<noteq> web" "\<And>r. chat (set_tg r) = tg"
  shows "(set_tg r \<in> set (move_rows chat set_tg same tg web rows)) \<or>
    (\<exists>x \<in> set (move_rows chat set_tg same tg web rows). chat x = tg \<and> same x r)"
proof (cases "moves chat same tg web rows r")
  case True
  then show ?thesis using assms by (auto simp: move_rows_mem intro: bexI [where x = r])
next
  case False
  then obtain x where x: "x \<in> set rows" "chat x = tg" "same x r" using assms(1) by (auto simp: moves_def list_ex_iff)
  then have "\<not> moves chat same tg web rows x" using assms(3) by (auto simp: moves_def)
  then have "x \<in> set (move_rows chat set_tg same tg web rows)" using x assms(3) by (auto simp: move_rows_mem intro: bexI [where x = x])
  then show ?thesis using x by blast
qed

lemma move_pairs_mem:
  assumes "tg \<noteq> web"
  shows "(c, t) \<in> set (move_pairs tg web ps) \<longleftrightarrow> c \<noteq> web \<and> ((c, t) \<in> set ps \<or> c = tg \<and> (web, t) \<in> set ps)"
proof -
  let ?m = "moves fst (\<lambda>a b. snd a = snd b) tg web ps"
  have m: "?m (a, u) \<longleftrightarrow> a = web \<and> (tg, u) \<notin> set ps" for a u
    by (auto simp: moves_def list_ex_iff)
  have "(c, t) \<in> set (move_pairs tg web ps) \<longleftrightarrow>
      c \<noteq> web \<and> (\<exists>a u. (a, u) \<in> set ps \<and> (c, t) = (if a = web \<and> (tg, u) \<notin> set ps then (tg, u) else (a, u)))"
    unfolding move_pairs_def move_rows_mem by (simp add: Bex_def split_paired_Ex m cong: if_cong)
  also have "\<dots> \<longleftrightarrow> c \<noteq> web \<and> ((c, t) \<in> set ps \<or> c = tg \<and> (web, t) \<in> set ps)" (is "?l \<longleftrightarrow> ?r")
  proof
    assume ?l
    then show ?r by (auto split: if_split_asm)
  next
    assume r: ?r
    consider "(c, t) \<in> set ps" | "c = tg" "(web, t) \<in> set ps" "(tg, t) \<notin> set ps" using r by blast
    then show ?l
    proof cases
      case 1
      then show ?thesis using r by (intro conjI exI [where x = c] exI [where x = t]) auto
    next
      case 2
      then show ?thesis using assms by (intro conjI exI [where x = web] exI [where x = t]) auto
    qed
  qed
  finally show ?thesis .
qed

lemma move_data_fields [simp]:
  "db_searches (move_data same tg web d) = move_searches same tg web (db_searches d)"
  "db_saved (move_data same tg web d) = move_pairs tg web (db_saved d)"
  "db_hidden (move_data same tg web d) = move_pairs tg web (db_hidden d)"
  "db_seen (move_data same tg web d) = move_seen tg web (db_seen d)"
  "db_history (move_data same tg web d) = move_history tg web (db_history d)"
  "db_users (move_data same tg web d) = db_users d"
  by (simp_all add: move_data_def)

lemma link_users_fields [simp]:
  "db_searches (link_users tg web d) = db_searches d" "db_saved (link_users tg web d) = db_saved d"
  "db_hidden (link_users tg web d) = db_hidden d" "db_seen (link_users tg web d) = db_seen d" "db_history (link_users tg web d) = db_history d"
  by (simp_all add: link_users_def)

lemma linked:
  assumes "LinkTelegramToWeb tg web d = (Inr (), d')"
  shows "db_searches d' = move_searches same_criteria tg web (db_searches d)" "db_saved d' = move_pairs tg web (db_saved d)"
    "db_hidden d' = move_pairs tg web (db_hidden d)" "db_seen d' = move_seen tg web (db_seen d)"
    "db_history d' = move_history tg web (db_history d)" "searches_movable same_criteria tg web (db_searches d)"
  using assms unfolding LinkTelegramToWeb_def by (auto elim!: db_call_Inr split: if_splits)

lemma migrated:
  assumes "migrateUserData tg web d = (Inr n, d')"
  shows "db_searches d' = move_searches same_car tg web (db_searches d)"
  using assms unfolding migrateUserData_def by (auto elim!: db_call_Inr split: if_splits)

subsection \<open>Properties\<close>

text \<open>Linking keeps every bookmark: afterwards the Telegram account has the bookmarks of both accounts, the web account
  none, and every other account what it had.\<close>

lemma link_keeps_bookmarks:
  assumes "LinkTelegramToWeb tg web d = (Inr (), d')" "tg \<noteq> web"
  shows "(c, t) \<in> set (db_saved d') \<longleftrightarrow> c \<noteq> web \<and> ((c, t) \<in> set (db_saved d) \<or> c = tg \<and> (web, t) \<in> set (db_saved d))"
  unfolding linked(2) [OF assms(1)] by (rule move_pairs_mem [OF assms(2)])

definition two_accounts :: db where
  "two_accounts = empty_db\<lparr>db_users := [(7, new_user 7 ''dana'' ''telegram'' ''7''), (2000000000000, new_user 2000000000000 ''d'' ''web'' ''uid'')],
     db_saved := [(2000000000000, ''t''), (7, ''t''), (2000000000000, ''u'')]\<rparr>"

lemma link_keeps_bookmarks_witness:
  "(7, ''u'') \<in> set (db_saved (snd (LinkTelegramToWeb 7 2000000000000 two_accounts)))"
proof -
  have "LinkTelegramToWeb 7 2000000000000 two_accounts = (Inr (), snd (LinkTelegramToWeb 7 2000000000000 two_accounts))"
    by (simp add: LinkTelegramToWeb_def two_accounts_def empty_db_def is_telegram_def new_user_def searches_movable_def seq_unique_def update_rows_def)
  from link_keeps_bookmarks [OF this, of 7 "''u''"] show ?thesis by (simp add: two_accounts_def)
qed

text \<open>The searches of the web account too, up to those that the Telegram account has already.\<close>

lemma link_keeps_searches:
  assumes "LinkTelegramToWeb tg web d = (Inr (), d')" "tg \<noteq> web" "s \<in> set (db_searches d)" "s_ChatID s = web"
  shows "\<exists>s' \<in> set (db_searches d'). s_ChatID s' = tg \<and> same_criteria s' s"
proof -
  have "s\<lparr>s_ChatID := tg\<rparr> \<in> set (db_searches d') \<or> (\<exists>x \<in> set (db_searches d'). s_ChatID x = tg \<and> same_criteria x s)"
    unfolding linked(1) [OF assms(1)] move_searches_def
    using moved_or_equal [where chat = s_ChatID and set_tg = "\<lambda>s. s\<lparr>s_ChatID := tg\<rparr>", OF assms(4,3,2)] by simp
  moreover have "same_criteria (s\<lparr>s_ChatID := tg\<rparr>) s" by (simp add: same_criteria_def)
  ultimately show ?thesis by force
qed

text \<open>The backfill, which repeats the move at every start of the bot for the accounts that are linked, compares less than
  the linking does: a search of the web account, made while the Telegram account was inactive, is deleted when the
  Telegram account has any search for the same make and model, whatever else the two ask for.\<close>

lemma backfill_deletes_other_searches:
  assumes "migrateUserData tg web d = (Inr n, d')" "tg \<noteq> web" "distinct (map s_ID (db_searches d))"
    and "s \<in> set (db_searches d)" "s_ChatID s = web" "x \<in> set (db_searches d)" "s_ChatID x = tg" "same_car x s"
  shows "s_ID s \<notin> s_ID ` set (db_searches d')"
proof
  let ?m = "moves s_ChatID same_car tg web (db_searches d)"
  assume "s_ID s \<in> s_ID ` set (db_searches d')"
  then obtain y where y: "y \<in> set (db_searches d')" "s_ID y = s_ID s" by auto
  have "y \<in> set (move_rows s_ChatID (\<lambda>s. s\<lparr>s_ChatID := tg\<rparr>) same_car tg web (db_searches d))"
    using y(1) migrated [OF assms(1)] by (simp add: move_searches_def)
  then obtain r where r: "r \<in> set (db_searches d)" "y = (if ?m r then r\<lparr>s_ChatID := tg\<rparr> else r)" "s_ChatID y \<noteq> web"
    unfolding move_rows_mem by blast
  have "s_ID r = s_ID s" using r(2) y(2) by (simp split: if_splits)
  then have "r = s" using assms(3,4) r(1) by (metis distinct_map inj_on_eq_iff)
  moreover have "\<not> ?m s" using assms(6,7,8) by (auto simp: moves_def list_ex_iff)
  ultimately show False using r(2,3) assms(5) by simp
qed

definition web_twin :: "int \<Rightarrow> int \<Rightarrow> int \<Rightarrow> search" where
  "web_twin sid chat priceMax = zero_search\<lparr>s_ID := sid, s_ChatID := chat, s_UserSeq := sid, s_Manufacturer := 19, s_PriceMax := priceMax\<rparr>"

lemma backfill_deletes_other_searches_witness:
  "2 \<notin> s_ID ` set (db_searches (snd (migrateUserData 7 2000000000000
     (two_accounts\<lparr>db_searches := [web_twin 1 7 50000, web_twin 2 2000000000000 90000]\<rparr>))))"
proof -
  let ?d = "two_accounts\<lparr>db_searches := [web_twin 1 7 50000, web_twin 2 2000000000000 90000]\<rparr>"
  have f: "searches_movable same_car 7 2000000000000 (db_searches ?d)" "db_faults ?d = []"
    by (simp_all add: searches_movable_def seq_unique_def update_rows_def moves_def web_twin_def zero_search_def same_car_def two_accounts_def empty_db_def)
  obtain n d' where m: "migrateUserData 7 2000000000000 ?d = (Inr n, d')"
    using f by (simp add: migrateUserData_def)
  have "s_ID (web_twin 2 2000000000000 90000) \<notin> s_ID ` set (db_searches d')"
    by (rule backfill_deletes_other_searches [OF m, where x = "web_twin 1 7 50000"])
      (simp_all add: web_twin_def zero_search_def same_car_def)
  then show ?thesis using m by (simp add: web_twin_def)
qed

text \<open>The searches that the move gives to the Telegram account keep their numbers.\<close>

lemma movable_unless_clash:
  assumes "seq_unique ss" "tg \<noteq> web"
  shows "searches_movable same tg web ss \<longleftrightarrow>
    \<not> (\<exists>s \<in> set ss. \<exists>t \<in> set ss. moves s_ChatID same tg web ss s \<and> s_ChatID t = tg \<and> s_UserSeq t = s_UserSeq s)"
proof -
  let ?m = "moves s_ChatID same tg web ss"
  let ?f = "\<lambda>s. (if ?m s then tg else s_ChatID s, s_UserSeq s)"
  have "map (\<lambda>s. (s_ChatID s, s_UserSeq s)) (update_rows s_ChatID (\<lambda>s. s\<lparr>s_ChatID := tg\<rparr>) same tg web ss) = map ?f ss"
    by (simp add: update_rows_def)
  moreover have ss: "distinct ss" "inj_on (\<lambda>s. (s_ChatID s, s_UserSeq s)) (set ss)"
    using assms(1) by (simp_all add: seq_unique_def distinct_map)
  ultimately have movable: "searches_movable same tg web ss \<longleftrightarrow> inj_on ?f (set ss)"
    by (simp add: searches_movable_def seq_unique_def distinct_map)
  have m: "?m s \<Longrightarrow> s_ChatID s = web" for s by (simp add: moves_def)
  have same_row: "a = b" if "a \<in> set ss" "b \<in> set ss" "s_ChatID a = s_ChatID b" "s_UserSeq a = s_UserSeq b" for a b
    using inj_onD [OF ss(2)] that by simp
  show ?thesis unfolding movable
  proof
    assume inj: "inj_on ?f (set ss)"
    have False if "s \<in> set ss" "t \<in> set ss" "?m s" "s_ChatID t = tg" "s_UserSeq t = s_UserSeq s" for s t
    proof -
      have "\<not> ?m t" using m [of t] that(4) assms(2) by auto
      then have "s = t" using inj_onD [OF inj _ that(1,2)] that(3-5) by simp
      then show False using m [OF that(3)] that(4) assms(2) by simp
    qed
    then show "\<not> (\<exists>s \<in> set ss. \<exists>t \<in> set ss. ?m s \<and> s_ChatID t = tg \<and> s_UserSeq t = s_UserSeq s)" by blast
  next
    assume free: "\<not> (\<exists>s \<in> set ss. \<exists>t \<in> set ss. ?m s \<and> s_ChatID t = tg \<and> s_UserSeq t = s_UserSeq s)"
    show "inj_on ?f (set ss)"
    proof (rule inj_onI)
      fix a b
      assume ab: "a \<in> set ss" "b \<in> set ss" "?f a = ?f b"
      consider "?m a" "?m b" | "?m a" "\<not> ?m b" | "\<not> ?m a" "?m b" | "\<not> ?m a" "\<not> ?m b" by blast
      then show "a = b"
      proof cases
        case 1
        then show ?thesis using same_row [OF ab(1,2)] ab(3) m by simp
      next
        case 2
        then show ?thesis using free ab by (metis (mono_tags, lifting) Pair_inject)
      next
        case 3
        then show ?thesis using free ab by (metis (mono_tags, lifting) Pair_inject)
      next
        case 4
        then show ?thesis using same_row [OF ab(1,2)] ab(3) by simp
      qed
    qed
  qed
qed

text \<open>What a search asks for.\<close>

definition asks :: "search \<Rightarrow> (int \<times> int \<times> int \<times> int \<times> int \<times> int \<times> int \<times> int \<times> int \<times> string \<times> string \<times> string \<times> string)" where
  "asks x = (s_Manufacturer x, s_Model x, s_YearMin x, s_YearMax x, s_PriceMin x, s_PriceMax x, s_MaxKm x, s_MaxHand x, s_EngineMinCC x,
     s_Keywords x, s_ExcludeKeys x, s_SellerFilter x, s_GearBox x)"

lemma same_criteria_asks: "same_criteria x s \<longleftrightarrow> asks x = asks s"
  by (auto simp: same_criteria_def asks_def)


text \<open>The first searches of two accounts, for two makes.\<close>

definition two_firsts :: db where
  "two_firsts = two_accounts\<lparr>db_searches :=
     [zero_search\<lparr>s_ID := 1, s_ChatID := 7, s_UserSeq := 1, s_Manufacturer := 19\<rparr>,
      zero_search\<lparr>s_ID := 2, s_ChatID := 2000000000000, s_UserSeq := 1, s_Manufacturer := 27\<rparr>]\<rparr>"


lemma move_seen_keys:
  assumes "(t, tg, i) \<in> fst ` set (move_seen tg web rows)"
  shows "(t, tg, i) \<in> fst ` set rows \<or> (\<forall>j. (t, tg, j) \<notin> fst ` set rows)"
proof -
  let ?m = "moves (fst \<circ> snd \<circ> fst) (\<lambda>a b. fst (fst a) = fst (fst b)) tg web rows"
  obtain x where "((t, tg, i), x) \<in> set (move_seen tg web rows)" using assms by auto
  then obtain y where y: "y \<in> set rows" "((t, tg, i), x) = (if ?m y then (\<lambda>((t, c, i), r). ((t, tg, i), r)) y else y)"
    unfolding move_seen_def move_rows_mem by blast
  show ?thesis
  proof (cases "?m y")
    case True
    then have "fst (fst y) = t" using y(2) by (simp split: prod.splits)
    then show ?thesis using True by (fastforce simp: moves_def list_ex_iff)
  next
    case False
    then show ?thesis using y by (metis fst_conv image_eqI)
  qed
qed

lemma claimed_keys: "k \<in> claimed d \<longleftrightarrow> k \<in> fst ` set (db_seen d)"
  by (simp add: claimed_def dom_map_of_conv_image_fst)

text \<open>Linking makes a search forget what it has alerted: dedup is per search, but the move of the claims compares the
  listings alone. A claim of a moved search is dropped when the Telegram account was ever alerted about that listing
  by another search, and the next cycle finds the listing new for the moved search.\<close>

lemma link_forgets_claims:
  assumes "LinkTelegramToWeb tg web d = (Inr (), d')" "tg \<noteq> web" "(t, web, sid) \<in> claimed d" "(t, tg, other) \<in> claimed d" "(t, tg, sid) \<notin> claimed d"
    and "db_faults d' = []"
  shows "fst (ClaimNew later (t, tg, sid) d') = Inr True"
proof -
  have "(t, tg, sid) \<notin> claimed d'"
    using move_seen_keys [of t tg sid web] assms(4,5) unfolding claimed_keys linked(4) [OF assms(1)] by blast
  moreover obtain r d2 where c: "ClaimNew later (t, tg, sid) d' = (r, d2)" by fastforce
  moreover have "isl r = False" using c assms(6) by (auto simp: ClaimNew_def claim_stmt_def split: option.splits)
  then obtain new where "r = Inr new" by (cases r) auto
  ultimately show ?thesis using ClaimNew_claimed(1) [of later "(t, tg, sid)" d' new d2] by simp
qed

lemma link_forgets_claims_witness:
  "fst (ClaimNew 9 (''t'', 7, 5) (snd (LinkTelegramToWeb 7 2000000000000
    (two_accounts\<lparr>db_seen := [((''t'', 2000000000000, 5), \<lparr>cl_first = 1, cl_last = 1\<rparr>), ((''t'', 7, 4), \<lparr>cl_first = 1, cl_last = 1\<rparr>)]\<rparr>)))) = Inr True"
proof -
  let ?d = "two_accounts\<lparr>db_seen := [((''t'', 2000000000000, 5), \<lparr>cl_first = 1, cl_last = 1\<rparr>), ((''t'', 7, 4), \<lparr>cl_first = 1, cl_last = 1\<rparr>)]\<rparr>"
  have l: "LinkTelegramToWeb 7 2000000000000 ?d = (Inr (), snd (LinkTelegramToWeb 7 2000000000000 ?d))"
    by (simp add: LinkTelegramToWeb_def two_accounts_def empty_db_def is_telegram_def new_user_def searches_movable_def seq_unique_def update_rows_def)
  have f: "db_faults (snd (LinkTelegramToWeb 7 2000000000000 ?d)) = []"
    by (simp add: LinkTelegramToWeb_def two_accounts_def empty_db_def move_data_def link_users_def)
  show ?thesis
    by (rule link_forgets_claims [OF l, where other = 4, OF _ _ _ _ f]) (simp_all add: claimed_keys)
qed

text \<open>A link token: any number of tokens made and used, in any order.\<close>

datatype token_op = MakeToken gotime string int | UseToken gotime string

fun token_step :: "token_op \<Rightarrow> 'z db_scheme \<Rightarrow> int option \<times> 'z db_scheme" where
  "token_step (MakeToken now token web) d = (None, snd (CreateLinkToken now token web d))"
| "token_step (UseToken now token) d =
    (case ConsumeLinkToken now token d of (Inr (Inr web), d) \<Rightarrow> (Some web, d) | (_, d) \<Rightarrow> (None, d))"

fun linked_webs :: "string \<Rightarrow> token_op list \<Rightarrow> 'z db_scheme \<Rightarrow> int list" where
  "linked_webs token [] d = []"
| "linked_webs token (op # ops) d =
    (case token_step op d of (r, d) \<Rightarrow>
       (case (op, r) of (UseToken now t, Some web) \<Rightarrow> if t = token then [web] else [] | _ \<Rightarrow> []) @ linked_webs token ops d)"

definition spent :: "string \<Rightarrow> 'z db_scheme \<Rightarrow> bool" where
  "spent token d \<longleftrightarrow> (\<exists>l. map_of (db_link_tokens d) token = Some l \<and> lt_used l)"

lemma spent_faults [simp]: "spent token (d\<lparr>db_faults := fs\<rparr>) = spent token d"
  by (simp add: spent_def)

lemma create_keeps_spent: "spent token d \<Longrightarrow> spent token (snd (CreateLinkToken now t web d))"
  unfolding CreateLinkToken_def by (rule db_call_inv [where P = "spent token"]) (auto simp: spent_def)

lemma consume_keeps_spent: "spent token d \<Longrightarrow> spent token (snd (ConsumeLinkToken now t d))"
  unfolding ConsumeLinkToken_def
  by (rule db_call_inv [where P = "spent token"]) (auto simp: spent_def update_conv split: option.split)

lemma consume_spends:
  assumes "ConsumeLinkToken now t d = (Inr (Inr web), d')"
  shows "spent t d'" "\<not> spent t d"
    "\<exists>l. map_of (db_link_tokens d) t = Some l \<and> now < lt_expires l \<and> web = lt_web l"
  using assms unfolding ConsumeLinkToken_def
  by (auto elim!: db_call_Inr simp: spent_def update_conv split: option.splits if_splits)

lemma token_step_spent: "spent token d \<Longrightarrow> spent token (snd (token_step op d))"
proof (cases op)
  case (UseToken now t)
  have "snd (token_step (UseToken now t) d) = snd (ConsumeLinkToken now t d)" by (simp split: prod.split sum.split)
  moreover assume "spent token d"
  ultimately show ?thesis using UseToken consume_keeps_spent by simp
qed (simp add: create_keeps_spent)

lemma spent_links_nothing: "spent token d \<Longrightarrow> linked_webs token ops d = []"
proof (induction ops arbitrary: d)
  case (Cons op ops)
  obtain r d1 where s: "token_step op d = (r, d1)" by fastforce
  have "spent token d1" using token_step_spent [OF Cons.prems, of op] s by simp
  moreover have "(case (op, r) of (UseToken now t, Some web) \<Rightarrow> if t = token then [web] else [] | _ \<Rightarrow> []) = []"
    using s Cons.prems consume_spends(2) by (cases op; cases r) (fastforce split: prod.splits sum.splits)+
  ultimately show ?case using Cons.IH s by simp
qed simp

text \<open>C4. A link token works once: whatever tokens are made and used, and whichever calls fail, a token links at most one
  account.\<close>

theorem link_token_works_once: "length (linked_webs token ops d) \<le> 1"
proof (induction ops arbitrary: d)
  case (Cons op ops)
  obtain r d1 where s: "token_step op d = (r, d1)" by fastforce
  show ?case
  proof (cases "(case (op, r) of (UseToken now t, Some web) \<Rightarrow> if t = token then [web] else [] | _ \<Rightarrow> []) = []")
    case True
    then show ?thesis using Cons.IH s by simp
  next
    case False
    then obtain now web where op: "op = UseToken now token" "r = Some web"
      by (cases op; cases r) (auto split: if_splits)
    then have "ConsumeLinkToken now token d = (Inr (Inr web), d1)" using s by (auto split: prod.splits sum.splits)
    then have "linked_webs token ops d1 = []" using consume_spends(1) spent_links_nothing by blast
    then show ?thesis using s op by simp
  qed
qed simp

end
