(* ===== verification/SearchApi.thy ===== *)
theory SearchApi
  imports Accounts
begin

section \<open>The searches of the web API (internal/api/searches.go)\<close>

text \<open>
  The handlers that create, show, change, pause and delete the searches of a web user. A request comes with the chat id
  of the authenticated user (\<open>int option\<close>), the path id as \<open>strconv.ParseInt\<close> reads it, and the decoded body, None
  where decoding fails. A reply carries its status. The catalogue of names is an argument. The number and the share
  token of a new search are arguments, as in the store.
\<close>

subsection \<open>Keywords and sources (internal/botcore/actions.go)\<close>

definition NormalizeKeywords :: "string \<Rightarrow> string" where
  "NormalizeKeywords input = join_with '','' (append_trimmed [] (split_on (CHR '','') input))"

text \<open>The set of sources is toggled as a list; the only source there is decides the result.\<close>

definition ToggleSource :: "string \<Rightarrow> string \<Rightarrow> string" where
  "ToggleSource current toggle =
    (let sources = append_trimmed [] (split_on (CHR '','') current); t = trim_space toggle;
         sources = (if t = '''' then sources else if t \<in> set sources then removeAll t sources else t # sources)
     in join_with '','' (filter (\<lambda>s. s \<in> set sources) [''yad2'']))"

subsection \<open>Requests and replies\<close>

record search_request =
  sq_Name :: string
  sq_Source :: string
  sq_Manufacturer :: int
  sq_Model :: int
  sq_YearMin :: int
  sq_YearMax :: int
  sq_PriceMin :: int
  sq_PriceMax :: int
  sq_EngineMinCC :: int
  sq_MaxKm :: int
  sq_MaxHand :: int
  sq_Keywords :: string
  sq_ExcludeKeys :: string
  sq_SellerFilter :: string
  sq_GearBox :: string
  sq_PriceOnly :: bool
  sq_PhotoOnly :: bool

record update_request =
  uq_YearMin :: int
  uq_YearMax :: int
  uq_PriceMin :: int
  uq_PriceMax :: int
  uq_EngineMinCC :: int
  uq_MaxKm :: int
  uq_MaxHand :: int
  uq_Keywords :: string
  uq_ExcludeKeys :: string
  uq_SellerFilter :: "string option"
  uq_GearBox :: "string option"
  uq_PriceOnly :: "bool option"
  uq_PhotoOnly :: "bool option"

text \<open>\<open>searchResponse\<close>: the row with the names of the catalogue and the numbers.\<close>

record search_stats_inline =
  si_Total :: nat
  si_New24h :: nat
  si_AvgPrice :: real

definition inline_stats :: "search_stats \<Rightarrow> search_stats_inline" where
  "inline_stats st = \<lparr>si_Total = ss_Total st, si_New24h = ss_New24h st, si_AvgPrice = ss_AvgPrice st\<rparr>"

record search_response =
  sp_row :: search
  sp_ManufacturerName :: string
  sp_ModelName :: string
  sp_ListingsCount :: nat
  sp_Stats :: "search_stats_inline option"
  sp_PushPrompt :: bool

datatype api_reply = Failed int string | Shown int search_response | Listed "search_response list" | StatsShown search_stats | NoContent

record name_catalog =
  cat_ManufacturerName :: "int \<Rightarrow> string"
  cat_ModelName :: "int \<Rightarrow> int \<Rightarrow> string"

record search_server =
  ssv_MaxSearches :: int
  ssv_users :: bool
  ssv_listings :: bool
  ssv_catalog :: name_catalog

definition all_manufacturers :: string where
  "all_manufacturers = [CHR 0xD7, CHR 0x9B, CHR 0xD7, CHR 0x9C, CHR 32, CHR 0xD7, CHR 0x94, CHR 0xD7, CHR 0x99, CHR 0xD7, CHR 0xA6, CHR 0xD7,
     CHR 0xA8, CHR 0xD7, CHR 0xA0, CHR 0xD7, CHR 0x99, CHR 0xD7, CHR 0x9D]"

definition all_models :: string where
  "all_models = [CHR 0xD7, CHR 0x9B, CHR 0xD7, CHR 0x9C, CHR 32, CHR 0xD7, CHR 0x94, CHR 0xD7, CHR 0x93, CHR 0xD7, CHR 0x92, CHR 0xD7, CHR 0x9E,
     CHR 0xD7, CHR 0x99, CHR 0xD7, CHR 0x9D]"

subsection \<open>Who asks\<close>

definition chatIDFromContext :: "int option \<Rightarrow> int option" where
  "chatIDFromContext ctx = (case ctx of Some i \<Rightarrow> if i \<le> 0 then None else Some i | None \<Rightarrow> None)"

definition resolveCanonicalChatID :: "search_server \<Rightarrow> int \<Rightarrow> 'z db_scheme \<Rightarrow> int \<times> 'z db_scheme" where
  "resolveCanonicalChatID sv webChatID d =
    (if \<not> ssv_users sv then (webChatID, d)
     else case GetLinkedTelegramUser webChatID d of
       (Inr (Some u), d) \<Rightarrow> (u_ChatID u, d)
     | (_, d) \<Rightarrow> (webChatID, d))"

definition requireResolvedChatID :: "search_server \<Rightarrow> int option \<Rightarrow> 'z db_scheme \<Rightarrow> int option \<times> 'z db_scheme" where
  "requireResolvedChatID sv ctx d =
    (case chatIDFromContext ctx of None \<Rightarrow> (None, d) | Some i \<Rightarrow> (case resolveCanonicalChatID sv i d of (c, d) \<Rightarrow> (Some c, d)))"

definition parsePathID :: "int option \<Rightarrow> int option" where
  "parsePathID path = (case path of Some i \<Rightarrow> if i \<le> 0 then None else Some i | None \<Rightarrow> None)"

definition ensureUserActive :: "int \<Rightarrow> 'z db_scheme \<Rightarrow> 'z db_scheme" where
  "ensureUserActive chatID d =
    (case GetUser chatID d of
       (Inr (Some u), d) \<Rightarrow> if \<not> u_Active u then snd (SetUserActive chatID True d) else d
     | (_, d) \<Rightarrow> d)"

text \<open>The start of the handlers of one search: who asks, and for which search.\<close>

definition with_search_id :: "search_server \<Rightarrow> int option \<Rightarrow> int option \<Rightarrow> (int \<Rightarrow> int \<Rightarrow> 'z db_scheme \<Rightarrow> api_reply \<times> 'z db_scheme) \<Rightarrow>
    'z db_scheme \<Rightarrow> api_reply \<times> 'z db_scheme" where
  "with_search_id sv ctx path f d =
    (case requireResolvedChatID sv ctx d of
       (None, d) \<Rightarrow> (Failed 401 ''invalid user context'', d)
     | (Some chatID, d) \<Rightarrow>
         (case parsePathID path of None \<Rightarrow> (Failed 400 ''invalid search id'', d) | Some sid \<Rightarrow> f chatID sid d))"

subsection \<open>Validation\<close>

definition isValidSource :: "string \<Rightarrow> bool" where
  "isValidSource source \<longleftrightarrow> source = ''yad2''"

definition validateSearchRanges :: "int \<Rightarrow> int \<Rightarrow> int \<Rightarrow> int \<Rightarrow> int \<Rightarrow> int \<Rightarrow> int \<Rightarrow> string" where
  "validateSearchRanges yearMin yearMax priceMin priceMax maxKm maxHand engineMinCC =
    (if yearMin < 0 then ''year_min must not be negative''
     else if yearMax < 0 then ''year_max must not be negative''
     else if yearMin > 0 \<and> yearMax > 0 \<and> yearMin > yearMax then ''year_min must not exceed year_max''
     else if priceMin < 0 then ''price_min must not be negative''
     else if priceMax < 0 then ''price_max must not be negative''
     else if priceMin > 0 \<and> priceMax > 0 \<and> priceMin > priceMax then ''price_min must not exceed price_max''
     else if maxKm < 0 then ''max_km must not be negative''
     else if maxHand < 0 then ''max_hand must not be negative''
     else if engineMinCC < 0 then ''engine_min_cc must not be negative''
     else '''')"

text \<open>The name of a search that was given none.\<close>

definition default_name :: "search_request \<Rightarrow> string \<Rightarrow> string \<Rightarrow> string" where
  "default_name req mfr mdl =
    (if sq_Manufacturer req = 0 then ''all-cars''
     else if sq_Model req = 0 then to_lower mfr @ ''-all''
     else to_lower (mfr @ ''-'' @ mdl))"

definition validateCreateSearchInput :: "search_server \<Rightarrow> int \<Rightarrow> search_request \<Rightarrow> 'z db_scheme \<Rightarrow>
    (int \<times> string + string \<times> search_request) \<times> 'z db_scheme" where
  "validateCreateSearchInput sv chatID req d =
    (if sq_Manufacturer req < 0 \<or> sq_Model req < 0 then (Inl (400, ''manufacturer and model must not be negative''), d)
     else
     let req = (if sq_Source req = '''' then req\<lparr>sq_Source := ''yad2''\<rparr> else req) in
     if \<not> isValidSource (sq_Source req) then (Inl (400, ''invalid source: must be yad2''), d)
     else
     let msg = validateSearchRanges (sq_YearMin req) (sq_YearMax req) (sq_PriceMin req) (sq_PriceMax req) (sq_MaxKm req) (sq_MaxHand req) (sq_EngineMinCC req) in
     if msg \<noteq> '''' then (Inl (400, msg), d)
     else
     let mfr = (if sq_Manufacturer req > 0 then cat_ManufacturerName (ssv_catalog sv) (sq_Manufacturer req) else '''') in
     if sq_Manufacturer req > 0 \<and> (mfr = '''' \<or> mfr = ''Unknown'') then (Inl (400, ''unknown manufacturer id''), d)
     else if sq_Model req > 0 \<and> sq_Manufacturer req \<le> 0 then (Inl (400, ''model requires a manufacturer''), d)
     else
     let mdl = (if sq_Model req > 0 then cat_ModelName (ssv_catalog sv) (sq_Manufacturer req) (sq_Model req) else '''') in
     if sq_Model req > 0 \<and> (mdl = '''' \<or> mdl = ''Unknown'') then (Inl (400, ''unknown model id''), d)
     else
     let name = trim_space (sq_Name req); name = (if name = '''' then default_name req mfr mdl else name) in
     case ListSearches chatID d of
       (Inl _, d) \<Rightarrow> (Inl (500, ''failed to validate search name''), d)
     | (Inr existing, d) \<Rightarrow>
         if list_ex (\<lambda>ex. equal_fold (trim_space (s_Name ex)) name) existing then (Inl (409, ''search name already exists''), d)
         else (Inr (name, req), d))"

definition createSearchRecord :: "int \<Rightarrow> string \<Rightarrow> search_request \<Rightarrow> search" where
  "createSearchRecord chatID name req = zero_search
    \<lparr>s_ChatID := chatID, s_Name := name, s_Source := sq_Source req, s_Manufacturer := sq_Manufacturer req, s_Model := sq_Model req,
     s_YearMin := sq_YearMin req, s_YearMax := sq_YearMax req, s_PriceMin := sq_PriceMin req, s_PriceMax := sq_PriceMax req,
     s_EngineMinCC := sq_EngineMinCC req, s_MaxKm := sq_MaxKm req, s_MaxHand := sq_MaxHand req,
     s_Keywords := NormalizeKeywords (sq_Keywords req), s_ExcludeKeys := NormalizeKeywords (sq_ExcludeKeys req),
     s_SellerFilter := NormalizeSellerFilter (sq_SellerFilter req), s_GearBox := sq_GearBox req, s_PriceOnly := sq_PriceOnly req,
     s_PhotoOnly := sq_PhotoOnly req, s_Active := True\<rparr>"

subsection \<open>Replies\<close>

definition toSearchResponse :: "search_server \<Rightarrow> search \<Rightarrow> search_response" where
  "toSearchResponse sv sr =
    \<lparr>sp_row = sr\<lparr>s_SellerFilter := NormalizeSellerFilter (s_SellerFilter sr)\<rparr>,
     sp_ManufacturerName = (if s_Manufacturer sr > 0 then cat_ManufacturerName (ssv_catalog sv) (s_Manufacturer sr) else all_manufacturers),
     sp_ModelName = (if s_Model sr > 0 then cat_ModelName (ssv_catalog sv) (s_Manufacturer sr) (s_Model sr) else all_models),
     sp_ListingsCount = 0, sp_Stats = None, sp_PushPrompt = False\<rparr>"

definition searchResponseWithListingCount :: "search_server \<Rightarrow> int \<Rightarrow> search \<Rightarrow> 'z db_scheme \<Rightarrow> search_response \<times> 'z db_scheme" where
  "searchResponseWithListingCount sv chatID sr d =
    (let item = toSearchResponse sv sr in
     if \<not> ssv_listings sv then (item, d)
     else case CountSearchListings chatID (s_ID sr) (listingFilterFromSearch sr) d of
       (Inl _, d) \<Rightarrow> (item, d) | (Inr n, d) \<Rightarrow> (item\<lparr>sp_ListingsCount := n\<rparr>, d))"

fun search_stats_of :: "gotime \<Rightarrow> int \<Rightarrow> search list \<Rightarrow> 'z db_scheme \<Rightarrow> search_stats option list \<times> 'z db_scheme" where
  "search_stats_of now chatID [] d = ([], d)"
| "search_stats_of now chatID (sr # srs) d =
    (case SearchStats now chatID (s_ID sr) (listingFilterFromSearch sr) d of (r, d) \<Rightarrow>
       case search_stats_of now chatID srs d of (rs, d) \<Rightarrow> ((case r of Inl _ \<Rightarrow> None | Inr st \<Rightarrow> Some st) # rs, d))"

subsection \<open>Handlers\<close>

definition listSearches :: "search_server \<Rightarrow> gotime \<Rightarrow> int option \<Rightarrow> 'z db_scheme \<Rightarrow> api_reply \<times> 'z db_scheme" where
  "listSearches sv now ctx d =
    (case chatIDFromContext ctx of
       None \<Rightarrow> (Listed [], d)
     | Some i \<Rightarrow>
         (case resolveCanonicalChatID sv i d of (chatID, d) \<Rightarrow>
          case ListSearches chatID d of
            (Inl _, d) \<Rightarrow> (Failed 500 ''failed to list searches'', d)
          | (Inr searches, d) \<Rightarrow>
              (case (if ssv_listings sv then (case CountSearchListingsForChat chatID d of (Inl _, d) \<Rightarrow> ([], d) | (Inr counts, d) \<Rightarrow> (counts, d))
                     else ([], d)) of (counts, d) \<Rightarrow>
               case (if ssv_listings sv then search_stats_of now chatID searches d else (map (\<lambda>_. None) searches, d)) of (stats, d) \<Rightarrow>
                 (Listed (map2 (\<lambda>sr st. (toSearchResponse sv sr)
                    \<lparr>sp_ListingsCount := (case map_of counts (s_ID sr) of Some n \<Rightarrow> n | None \<Rightarrow> 0), sp_Stats := map_option inline_stats st\<rparr>) searches stats), d))))"

definition writeCreatedSearch :: "search_server \<Rightarrow> int \<Rightarrow> int \<Rightarrow> 'z db_scheme \<Rightarrow> api_reply \<times> 'z db_scheme" where
  "writeCreatedSearch sv chatID sid d =
    (case GetSearch sid chatID d of
       (Inr (Some created), d) \<Rightarrow>
         (case searchResponseWithListingCount sv chatID created d of (resp, d) \<Rightarrow>
          case CountSearches chatID d of (r, d) \<Rightarrow> (Shown 201 (if r = Inr 1 then resp\<lparr>sp_PushPrompt := True\<rparr> else resp), d))
     | (_, d) \<Rightarrow> (Failed 500 ''search created but failed to retrieve'', d))"

definition createSearch :: "search_server \<Rightarrow> gotime \<Rightarrow> int \<Rightarrow> string \<Rightarrow> int option \<Rightarrow> search_request option \<Rightarrow> 'z db_scheme \<Rightarrow> api_reply \<times> 'z db_scheme" where
  "createSearch sv now newID share ctx body d =
    (case requireResolvedChatID sv ctx d of
       (None, d) \<Rightarrow> (Failed 401 ''invalid user context'', d)
     | (Some chatID, d) \<Rightarrow>
         (case (if ssv_MaxSearches sv > 0 then
                  (case CountSearches chatID d of
                     (Inl _, d) \<Rightarrow> (Some (Failed 500 ''failed to check search limit''), d)
                   | (Inr n, d) \<Rightarrow> (if int n \<ge> ssv_MaxSearches sv then Some (Failed 409 ''search limit reached'') else None, d))
                else (None, d)) of
            (Some reply, d) \<Rightarrow> (reply, d)
          | (None, d) \<Rightarrow>
              (case body of
                 None \<Rightarrow> (Failed 400 ''invalid request body'', d)
               | Some req \<Rightarrow>
                   (case validateCreateSearchInput sv chatID req d of
                      (Inl (st, msg), d) \<Rightarrow> (Failed st msg, d)
                    | (Inr (name, req), d) \<Rightarrow>
                        (case CreateSearch now newID share (createSearchRecord chatID name req) d of
                           (Inl _, d) \<Rightarrow> (Failed 500 ''failed to create search'', d)
                         | (Inr sid, d) \<Rightarrow> writeCreatedSearch sv chatID sid (ensureUserActive chatID d))))))"

definition getSearch :: "search_server \<Rightarrow> int option \<Rightarrow> int option \<Rightarrow> 'z db_scheme \<Rightarrow> api_reply \<times> 'z db_scheme" where
  "getSearch sv ctx path = with_search_id sv ctx path (\<lambda>chatID sid d.
    (case GetSearch sid chatID d of
       (Inl _, d) \<Rightarrow> (Failed 500 ''failed to get search'', d)
     | (Inr None, d) \<Rightarrow> (Failed 404 ''search not found'', d)
     | (Inr (Some sr), d) \<Rightarrow> (case searchResponseWithListingCount sv chatID sr d of (resp, d) \<Rightarrow> (Shown 200 resp, d))))"

definition apply_update :: "update_request \<Rightarrow> search \<Rightarrow> search" where
  "apply_update req s = s
    \<lparr>s_YearMin := uq_YearMin req, s_YearMax := uq_YearMax req, s_PriceMin := uq_PriceMin req, s_PriceMax := uq_PriceMax req,
     s_EngineMinCC := uq_EngineMinCC req, s_MaxKm := uq_MaxKm req, s_MaxHand := uq_MaxHand req,
     s_Keywords := NormalizeKeywords (uq_Keywords req), s_ExcludeKeys := NormalizeKeywords (uq_ExcludeKeys req),
     s_SellerFilter := (case uq_SellerFilter req of Some f \<Rightarrow> NormalizeSellerFilter f | None \<Rightarrow> s_SellerFilter s),
     s_GearBox := (case uq_GearBox req of Some g \<Rightarrow> g | None \<Rightarrow> s_GearBox s),
     s_PriceOnly := (case uq_PriceOnly req of Some b \<Rightarrow> b | None \<Rightarrow> s_PriceOnly s),
     s_PhotoOnly := (case uq_PhotoOnly req of Some b \<Rightarrow> b | None \<Rightarrow> s_PhotoOnly s)\<rparr>"

definition updateSearch :: "search_server \<Rightarrow> int option \<Rightarrow> int option \<Rightarrow> update_request option \<Rightarrow> 'z db_scheme \<Rightarrow> api_reply \<times> 'z db_scheme" where
  "updateSearch sv ctx path body = with_search_id sv ctx path (\<lambda>chatID sid d.
    (case GetSearch sid chatID d of
       (Inl _, d) \<Rightarrow> (Failed 500 ''failed to get search'', d)
     | (Inr None, d) \<Rightarrow> (Failed 404 ''search not found'', d)
     | (Inr (Some existing), d) \<Rightarrow>
         (case body of
            None \<Rightarrow> (Failed 400 ''invalid request body'', d)
          | Some req \<Rightarrow>
              (let msg = validateSearchRanges (uq_YearMin req) (uq_YearMax req) (uq_PriceMin req) (uq_PriceMax req) (uq_MaxKm req) (uq_MaxHand req) (uq_EngineMinCC req) in
               if msg \<noteq> '''' then (Failed 400 msg, d)
               else case UpdateSearch (apply_update req existing) d of
                 (Inl NotFound, d) \<Rightarrow> (Failed 404 ''search not found'', d)
               | (Inl _, d) \<Rightarrow> (Failed 500 ''failed to update search'', d)
               | (Inr _, d) \<Rightarrow> (case searchResponseWithListingCount sv chatID (apply_update req existing) d of (resp, d) \<Rightarrow> (Shown 200 resp, d))))))"

definition deleteSearch :: "search_server \<Rightarrow> int option \<Rightarrow> int option \<Rightarrow> 'z db_scheme \<Rightarrow> api_reply \<times> 'z db_scheme" where
  "deleteSearch sv ctx path = with_search_id sv ctx path (\<lambda>chatID sid d.
    (case DeleteSearch sid chatID d of
       (Inl NotFound, d) \<Rightarrow> (Failed 404 ''search not found'', d)
     | (Inl _, d) \<Rightarrow> (Failed 500 ''failed to delete search'', d)
     | (Inr _, d) \<Rightarrow> (NoContent, d)))"

definition searchStats :: "search_server \<Rightarrow> gotime \<Rightarrow> int option \<Rightarrow> int option \<Rightarrow> 'z db_scheme \<Rightarrow> api_reply \<times> 'z db_scheme" where
  "searchStats sv now ctx path = with_search_id sv ctx path (\<lambda>chatID sid d.
    (case GetSearch sid chatID d of
       (Inl _, d) \<Rightarrow> (Failed 500 ''failed to get search'', d)
     | (Inr None, d) \<Rightarrow> (Failed 404 ''search not found'', d)
     | (Inr (Some sr), d) \<Rightarrow>
         (if \<not> ssv_listings sv then (Failed 503 ''listing store not available'', d)
          else case SearchStats now chatID sid (listingFilterFromSearch sr) d of
            (Inl _, d) \<Rightarrow> (Failed 500 ''failed to get search stats'', d)
          | (Inr st, d) \<Rightarrow> (StatsShown st, d))))"

definition setSearchActive :: "search_server \<Rightarrow> bool \<Rightarrow> int option \<Rightarrow> int option \<Rightarrow> 'z db_scheme \<Rightarrow> api_reply \<times> 'z db_scheme" where
  "setSearchActive sv active ctx path = with_search_id sv ctx path (\<lambda>chatID sid d.
    (case SetSearchActive sid chatID active d of
       (Inl NotFound, d) \<Rightarrow> (Failed 404 ''search not found'', d)
     | (Inl _, d) \<Rightarrow> (Failed 500 ''failed to update search'', d)
     | (Inr _, d) \<Rightarrow> (NoContent, if active then ensureUserActive chatID d else d)))"

definition pauseSearch :: "search_server \<Rightarrow> int option \<Rightarrow> int option \<Rightarrow> 'z db_scheme \<Rightarrow> api_reply \<times> 'z db_scheme" where
  "pauseSearch sv = setSearchActive sv False"

definition resumeSearch :: "search_server \<Rightarrow> int option \<Rightarrow> int option \<Rightarrow> 'z db_scheme \<Rightarrow> api_reply \<times> 'z db_scheme" where
  "resumeSearch sv = setSearchActive sv True"

text \<open>A request of the API, and what it does.\<close>

datatype search_call =
    ListCall | CreateCall int string "search_request option" | GetCall "int option" | UpdateCall "int option" "update_request option"
  | DeleteCall "int option" | StatsCall "int option" | PauseCall "int option" | ResumeCall "int option"

fun serve :: "search_server \<Rightarrow> gotime \<Rightarrow> int option \<Rightarrow> search_call \<Rightarrow> 'z db_scheme \<Rightarrow> api_reply \<times> 'z db_scheme" where
  "serve sv now ctx ListCall d = listSearches sv now ctx d"
| "serve sv now ctx (CreateCall newID share body) d = createSearch sv now newID share ctx body d"
| "serve sv now ctx (GetCall path) d = getSearch sv ctx path d"
| "serve sv now ctx (UpdateCall path body) d = updateSearch sv ctx path body d"
| "serve sv now ctx (DeleteCall path) d = deleteSearch sv ctx path d"
| "serve sv now ctx (StatsCall path) d = searchStats sv now ctx path d"
| "serve sv now ctx (PauseCall path) d = pauseSearch sv ctx path d"
| "serve sv now ctx (ResumeCall path) d = resumeSearch sv ctx path d"

subsection \<open>Lemmas: keywords\<close>

lemma dropWhile_idem_hd: "t = [] \<or> \<not> P (hd t) \<Longrightarrow> dropWhile P t = t"
  by (cases t) simp_all

lemma trim_space_idem [simp]: "trim_space (trim_space s) = trim_space s"
proof -
  define t where "t = dropWhile is_space s"
  define u where "u = rev (dropWhile is_space (rev t))"
  have u: "trim_space s = u" by (simp add: trim_space_def t_def u_def)
  have "rev t = takeWhile is_space (rev t) @ dropWhile is_space (rev t)" by simp
  then have "t = u @ rev (takeWhile is_space (rev t))" unfolding u_def by (metis rev_append rev_rev_ident)
  then have "u = [] \<or> hd u = hd t \<and> t \<noteq> []" by (metis hd_append2 append_is_Nil_conv)
  then have "u = [] \<or> \<not> is_space (hd u)" using hd_dropWhile [of is_space s] t_def by metis
  then have "dropWhile is_space u = u" by (rule dropWhile_idem_hd)
  moreover have "dropWhile is_space (rev u) = rev u" unfolding u_def by simp
  ultimately show ?thesis unfolding u by (simp add: trim_space_def)
qed

lemma set_trim_space: "set (trim_space s) \<subseteq> set s"
proof
  fix x assume "x \<in> set (trim_space s)"
  then have "x \<in> set (dropWhile is_space (rev (dropWhile is_space s)))" by (simp add: trim_space_def)
  then have "x \<in> set (dropWhile is_space s)" using set_dropWhileD by fastforce
  then show "x \<in> set s" using set_dropWhileD by fastforce
qed

lemma split_join:
  assumes "ps \<noteq> []" "\<forall>p \<in> set ps. sep \<notin> set p"
  shows "split_on sep (join_with [sep] ps) = ps"
  using assms
proof (induction ps rule: induct_list012)
  case (2 p)
  then show ?case by (induction p) auto
next
  case (3 p q ps)
  have "split_on sep (p @ sep # s) = p # split_on sep s" if "sep \<notin> set p" for s
    using that by (induction p) auto
  then show ?case using 3 by simp
qed simp

lemma pieces_trimmed: "k \<in> set (append_trimmed [] (split_on sep s)) \<Longrightarrow> k \<noteq> [] \<and> trim_space k = k \<and> sep \<notin> set k"
  using set_trim_space split_on_no_sep by (fastforce simp: append_trimmed_eq)

lemma append_trimmed_id: "\<forall>k \<in> set ks. k \<noteq> [] \<and> trim_space k = k \<Longrightarrow> append_trimmed [] ks = ks"
  by (simp add: append_trimmed_eq map_idI filter_id_conv)

lemma pieces_normalized:
  "append_trimmed [] (split_on (CHR '','') (NormalizeKeywords s)) = append_trimmed [] (split_on (CHR '','') s)"
proof (cases "append_trimmed [] (split_on (CHR '','') s) = []")
  case True
  then show ?thesis by (simp add: NormalizeKeywords_def trim_space_def)
next
  case False
  have "split_on (CHR '','') (NormalizeKeywords s) = append_trimmed [] (split_on (CHR '','') s)"
    unfolding NormalizeKeywords_def by (rule split_join [OF False]) (use pieces_trimmed in blast)
  then show ?thesis using append_trimmed_id pieces_trimmed by metis
qed

lemma NormalizeKeywords_idem [simp]: "NormalizeKeywords (NormalizeKeywords s) = NormalizeKeywords s"
  unfolding NormalizeKeywords_def [of "NormalizeKeywords s"] pieces_normalized by (simp add: NormalizeKeywords_def)

text \<open>Normalising the keywords of a search does not change what it looks for.\<close>

lemma normalized_keywords_same_criteria:
  "c_Keywords (FilterCriteriaFromSearch (s\<lparr>s_Keywords := NormalizeKeywords ks\<rparr>)) = c_Keywords (FilterCriteriaFromSearch (s\<lparr>s_Keywords := ks\<rparr>))"
  using pieces_normalized [of ks] by (simp add: criteria_keywords append_trimmed_eq)

subsection \<open>Lemmas: what a request can change\<close>

text \<open>The calls that only read, or change other tables, leave the searches as they are.\<close>

lemma searches_kept [simp]:
  "db_searches (snd (GetUser c d)) = db_searches d"
  "db_searches (snd (SetUserActive c b d)) = db_searches d"
  "db_searches (snd (ListSearches c d)) = db_searches d"
  "db_searches (snd (GetSearch i c d)) = db_searches d"
  "db_searches (snd (CountSearches c d)) = db_searches d"
  "db_searches (snd (CountSearchListings c i f d)) = db_searches d"
  "db_searches (snd (CountSearchListingsForChat c d)) = db_searches d"
  "db_searches (snd (SearchStats now c i f d)) = db_searches d"
  "db_searches (snd (GetLinkedTelegramUser c d)) = db_searches d"
  unfolding GetUser_def SetUserActive_def ListSearches_def GetSearch_def CountSearches_def CountSearchListings_def CountSearchListingsForChat_def
    SearchStats_def GetLinkedTelegramUser_def
  by (rule db_call_frame; simp add: update_user_def Let_def)+

lemma ensure_searches [simp]: "db_searches (ensureUserActive c d) = db_searches d"
  by (simp add: ensureUserActive_def split_beta split: sum.split option.split)

lemma resolve_searches [simp]:
  "db_searches (snd (resolveCanonicalChatID sv i d)) = db_searches d"
  "db_searches (snd (requireResolvedChatID sv ctx d)) = db_searches d"
  by (simp_all add: requireResolvedChatID_def resolveCanonicalChatID_def split_beta split: sum.split option.split)

lemma response_searches [simp]:
  "db_searches (snd (searchResponseWithListingCount sv c sr d)) = db_searches d"
  by (simp add: searchResponseWithListingCount_def Let_def split_beta split: sum.split)

lemma stats_searches [simp]: "db_searches (snd (search_stats_of now c srs d)) = db_searches d"
  by (induction srs arbitrary: d) (simp_all add: split_beta)

lemma validate_searches [simp]: "db_searches (snd (validateCreateSearchInput sv c req d)) = db_searches d"
  by (simp add: validateCreateSearchInput_def Let_def split_beta split: sum.split)

lemma written_searches [simp]: "db_searches (snd (writeCreatedSearch sv c i d)) = db_searches d"
  by (simp add: writeCreatedSearch_def split_beta split: sum.split option.split)

lemma readers [simp]:
  "db_searches (snd (listSearches sv now ctx d)) = db_searches d"
  "db_searches (snd (getSearch sv ctx path d)) = db_searches d"
  "db_searches (snd (searchStats sv now ctx path d)) = db_searches d"
  by (simp_all add: listSearches_def getSearch_def searchStats_def with_search_id_def split_beta split: sum.split option.split)

text \<open>What a valid search is, said without the code: no bound is negative or above its counterpart, the source is the one that is
  fetched, the seller filter is one of three words, the numbers fit a column of 32 bits, and the keywords are a list of nonempty,
  trimmed words between commas.\<close>

definition keywords_clean :: "string \<Rightarrow> bool" where
  "keywords_clean s \<longleftrightarrow> s = [] \<or> (\<forall>k \<in> set (split_on (CHR '','') s). k \<noteq> [] \<and> trim_space k = k)"

definition fits_column :: "int \<Rightarrow> bool" where
  "fits_column n \<longleftrightarrow> -2147483648 \<le> n \<and> n \<le> 2147483647"

definition search_ok :: "search \<Rightarrow> bool" where
  "search_ok s \<longleftrightarrow>
     0 \<le> s_YearMin s \<and> 0 \<le> s_YearMax s \<and> (s_YearMin s = 0 \<or> s_YearMax s = 0 \<or> s_YearMin s \<le> s_YearMax s) \<and>
     0 \<le> s_PriceMin s \<and> 0 \<le> s_PriceMax s \<and> (s_PriceMin s = 0 \<or> s_PriceMax s = 0 \<or> s_PriceMin s \<le> s_PriceMax s) \<and>
     0 \<le> s_MaxKm s \<and> 0 \<le> s_MaxHand s \<and> 0 \<le> s_EngineMinCC s \<and>
     s_Source s = ''yad2'' \<and> (s_SellerFilter s = ''any'' \<or> s_SellerFilter s = ''private'' \<or> s_SellerFilter s = ''commercial'') \<and>
     fits_column (s_Manufacturer s) \<and> fits_column (s_Model s) \<and> fits_column (s_YearMin s) \<and> fits_column (s_YearMax s) \<and>
     fits_column (s_PriceMin s) \<and> fits_column (s_PriceMax s) \<and> fits_column (s_EngineMinCC s) \<and> fits_column (s_MaxKm s) \<and>
     fits_column (s_MaxHand s) \<and> keywords_clean (s_Keywords s) \<and> keywords_clean (s_ExcludeKeys s)"

text \<open>The checks of the handlers and the normal forms of the writes amount to just that.\<close>

lemma join_split_on: "join_with [sep] (split_on sep s) = s"
proof (induction s)
  case (Cons c s)
  obtain p ps where p: "split_on sep s = p # ps" by (cases "split_on sep s") (cases s; auto split: list.splits if_splits)+
  show ?case using Cons.IH by (cases ps) (auto simp: p)
qed simp

lemma NormalizeKeywords_fixed: "NormalizeKeywords s = s \<longleftrightarrow> keywords_clean s"
proof
  assume fixed: "NormalizeKeywords s = s"
  show "keywords_clean s"
  proof (cases "append_trimmed [] (split_on (CHR '','') s) = []")
    case True
    then have "s = []" using fixed by (simp add: NormalizeKeywords_def)
    then show ?thesis by (simp add: keywords_clean_def)
  next
    case False
    have "split_on (CHR '','') s = append_trimmed [] (split_on (CHR '','') s)"
      by (subst fixed [symmetric], unfold NormalizeKeywords_def, rule split_join [OF False]) (use pieces_trimmed in blast)
    then show ?thesis using pieces_trimmed unfolding keywords_clean_def by metis
  qed
next
  assume "keywords_clean s"
  then show "NormalizeKeywords s = s"
    using append_trimmed_id join_split_on by (auto simp: keywords_clean_def NormalizeKeywords_def trim_space_def)
qed

lemma search_ok_iff:
  "search_ok s \<longleftrightarrow>
     validateSearchRanges (s_YearMin s) (s_YearMax s) (s_PriceMin s) (s_PriceMax s) (s_MaxKm s) (s_MaxHand s) (s_EngineMinCC s) = ''''
   \<and> isValidSource (s_Source s) \<and> normal_seller s \<and> search_columns_fit s
   \<and> NormalizeKeywords (s_Keywords s) = s_Keywords s \<and> NormalizeKeywords (s_ExcludeKeys s) = s_ExcludeKeys s"
proof -
  have seller: "normal_seller s \<longleftrightarrow> s_SellerFilter s = ''any'' \<or> s_SellerFilter s = ''private'' \<or> s_SellerFilter s = ''commercial''"
  proof
    have n: "NormalizeSellerFilter ''any'' = ''any''" "NormalizeSellerFilter ''private'' = ''private''"
      "NormalizeSellerFilter ''commercial'' = ''commercial''" by code_simp+
    show "normal_seller s" if "s_SellerFilter s = ''any'' \<or> s_SellerFilter s = ''private'' \<or> s_SellerFilter s = ''commercial''"
      using that n by (auto simp: normal_seller_def)
  qed (blast elim: normal_seller_cases)
  have columns: "int4 n \<longleftrightarrow> fits_column n" for n by (auto simp: int4_def fits_column_def)
  have ranges: "validateSearchRanges ymin ymax pmin pmax km hand cc = '''' \<longleftrightarrow>
      0 \<le> ymin \<and> 0 \<le> ymax \<and> (ymin = 0 \<or> ymax = 0 \<or> ymin \<le> ymax) \<and> 0 \<le> pmin \<and> 0 \<le> pmax \<and> (pmin = 0 \<or> pmax = 0 \<or> pmin \<le> pmax) \<and>
      0 \<le> km \<and> 0 \<le> hand \<and> 0 \<le> cc" for ymin ymax pmin pmax km hand cc
    by (auto simp: validateSearchRanges_def)
  show ?thesis unfolding search_ok_def ranges seller isValidSource_def search_columns_fit_def NormalizeKeywords_fixed
    by (simp add: columns)
qed

lemma NormalizeSellerFilter_idem [simp]: "NormalizeSellerFilter (NormalizeSellerFilter f) = NormalizeSellerFilter f"
proof -
  have n: "NormalizeSellerFilter ''any'' = ''any''" "NormalizeSellerFilter ''private'' = ''private''"
    "NormalizeSellerFilter ''commercial'' = ''commercial''" by code_simp+
  show ?thesis using NormalizeSellerFilter_range [of f] n by auto
qed

text \<open>A request of user \<open>c\<close> changes the table in one of three ways: a valid row of \<open>c\<close> more, a row of \<open>c\<close> updated, or the rows
  of \<open>c\<close> of one number gone.\<close>

inductive search_change :: "int \<Rightarrow> search list \<Rightarrow> search list \<Rightarrow> bool" for c ss where
  same: "search_change c ss ss"
| added: "s_ChatID r = c \<Longrightarrow> search_ok r \<Longrightarrow> search_change c ss (ss @ [r])"
| changed: "(\<And>s. s_ChatID (f s) = s_ChatID s) \<Longrightarrow> (\<And>s. s \<in> set ss \<Longrightarrow> \<forall>x \<in> set ss. search_ok x \<Longrightarrow> search_ok (f s)) \<Longrightarrow>
    search_change c ss (map (\<lambda>s. if s_ID s = i \<and> s_ChatID s = c then f s else s) ss)"
| removed: "search_change c ss (filter (\<lambda>s. \<not> (s_ID s = i \<and> s_ChatID s = c)) ss)"

lemma filter_map_other:
  assumes "\<And>s. s_ChatID (f s) = s_ChatID s" "c' \<noteq> c"
  shows "filter (\<lambda>s. s_ChatID s = c') (map (\<lambda>s. if s_ID s = i \<and> s_ChatID s = c then f s else s) ss) = filter (\<lambda>s. s_ChatID s = c') ss"
  using assms by (induction ss) auto

lemma change_others: "search_change c ss ss' \<Longrightarrow> c' \<noteq> c \<Longrightarrow> filter (\<lambda>s. s_ChatID s = c') ss' = filter (\<lambda>s. s_ChatID s = c') ss"
proof (induction rule: search_change.induct)
  case (changed f i)
  then show ?case using filter_map_other by blast
next
  case (removed i)
  then show ?case by (auto intro: filter_cong)
qed auto

lemma change_ok: "search_change c ss ss' \<Longrightarrow> \<forall>s \<in> set ss. search_ok s \<Longrightarrow> \<forall>s \<in> set ss'. search_ok s"
  by (induction rule: search_change.induct) auto

lemma update_own_change:
  assumes "\<And>s. s_ChatID (f s) = s_ChatID s" "\<And>s. s \<in> set (db_searches d) \<Longrightarrow> \<forall>x \<in> set (db_searches d). search_ok x \<Longrightarrow> search_ok (f s)"
  shows "search_change c (db_searches d) (db_searches (snd (update_own i c f d)))"
  using search_change.changed [of f "db_searches d" c i] assms by (simp add: update_own_def Let_def)

lemma SetSearchActive_change: "search_change c (db_searches d) (db_searches (snd (SetSearchActive i c b d)))"
  unfolding SetSearchActive_def
  by (rule db_call_cases [of "DbError ''set search active''" "update_own i c (s_Active_update (\<lambda>_. b))" d])
    (use update_own_change [of "s_Active_update (\<lambda>_. b)" "d\<lparr>db_faults := fs\<rparr>" c i for fs]
     in \<open>auto simp: search_change.same search_ok_iff search_columns_fit_def normal_seller_def\<close>)

text \<open>A search that is valid but for what the store sees to, its columns and its seller filter.\<close>

definition search_input_ok :: "search \<Rightarrow> bool" where
  "search_input_ok s \<longleftrightarrow>
     validateSearchRanges (s_YearMin s) (s_YearMax s) (s_PriceMin s) (s_PriceMax s) (s_MaxKm s) (s_MaxHand s) (s_EngineMinCC s) = ''''
   \<and> isValidSource (s_Source s) \<and> NormalizeKeywords (s_Keywords s) = s_Keywords s \<and> NormalizeKeywords (s_ExcludeKeys s) = s_ExcludeKeys s"

lemma source_or_default_valid: "isValidSource src \<Longrightarrow> source_or_default src = src"
  by (simp add: isValidSource_def source_or_default_def)

lemma CreateSearch_change:
  assumes "search_input_ok s"
  shows "search_change (s_ChatID s) (db_searches d) (db_searches (snd (CreateSearch now i k s d)))"
proof -
  have ok: "search_ok (s\<lparr>s_ID := i, s_UserSeq := n, s_Source := source_or_default (s_Source s),
      s_SellerFilter := NormalizeSellerFilter (s_SellerFilter s), s_Active := True, s_CreatedAt := now, s_ShareToken := k\<rparr>)"
    if "search_columns_fit s" for n
    using assms that source_or_default_valid
    by (simp add: search_ok_iff search_input_ok_def search_columns_fit_def normal_seller_def)
  show ?thesis
    unfolding CreateSearch_def
    by (rule db_call_inv [where P = "\<lambda>d'. search_change (s_ChatID s) (db_searches d) (db_searches d')"])
      (auto simp: search_change.same intro!: search_change.added ok)
qed

lemma UpdateSearch_change:
  assumes "\<forall>x \<in> set (db_searches d). search_ok x \<Longrightarrow> search_input_ok new"
  shows "search_change (s_ChatID new) (db_searches d) (db_searches (snd (UpdateSearch new d)))"
proof -
  have ok: "search_ok (updated_row new s)" if "search_columns_fit new" "search_input_ok new" for s
    using that source_or_default_valid
    by (simp add: updated_row_def search_ok_iff search_input_ok_def search_columns_fit_def normal_seller_def)
  have step: "search_change (s_ChatID new) (db_searches d) (db_searches (snd (update_own (s_ID new) (s_ChatID new) (updated_row new) (d\<lparr>db_faults := fs\<rparr>))))"
    if "search_columns_fit new" for fs
    using update_own_change [of "updated_row new" "d\<lparr>db_faults := fs\<rparr>" "s_ChatID new" "s_ID new"] ok [OF that] assms
    by (simp add: updated_row_def)
  show ?thesis
    unfolding UpdateSearch_def
    by (rule db_call_inv [where P = "\<lambda>d'. search_change (s_ChatID new) (db_searches d) (db_searches d')"])
      (auto simp: search_change.same intro: step)
qed

lemma DeleteSearch_change: "search_change c (db_searches d) (db_searches (snd (DeleteSearch i c d)))"
  unfolding DeleteSearch_def
  by (rule db_call_inv [where P = "\<lambda>d'. search_change c (db_searches d) (db_searches d')"])
    (use search_change.removed [of c "db_searches d" i] in \<open>auto simp: search_change.same\<close>)

lemma validated:
  assumes "fst (validateCreateSearchInput sv c req d) = Inr (name, req')"
  shows "search_input_ok (createSearchRecord c name req')"
proof -
  let ?req = "if sq_Source req = '''' then req\<lparr>sq_Source := ''yad2''\<rparr> else req"
  have "req' = ?req" "isValidSource (sq_Source ?req)"
    "validateSearchRanges (sq_YearMin ?req) (sq_YearMax ?req) (sq_PriceMin ?req) (sq_PriceMax ?req) (sq_MaxKm ?req) (sq_MaxHand ?req) (sq_EngineMinCC ?req) = ''''"
    using assms unfolding validateCreateSearchInput_def Let_def split_beta by (auto split: if_split_asm sum.split_asm)
  then show ?thesis by (simp add: search_input_ok_def createSearchRecord_def)
qed

lemma createSearchRecord_chat [simp]: "s_ChatID (createSearchRecord c name req) = c"
  by (simp add: createSearchRecord_def)

lemma GetSearch_found:
  assumes "fst (GetSearch i c d) = Inr (Some s)"
  shows "s \<in> set (db_searches d)" "s_ID s = i" "s_ChatID s = c"
proof -
  have "find (\<lambda>s. s_ID s = i \<and> s_ChatID s = c) (db_searches d) = Some s"
    using assms unfolding GetSearch_def by (auto simp: db_call_def split_beta next_fault_def split: if_splits list.splits)
  then show "s \<in> set (db_searches d)" "s_ID s = i" "s_ChatID s = c" by (auto simp: find_Some_iff)
qed

text \<open>The account a request acts for.\<close>

definition acting :: "search_server \<Rightarrow> int option \<Rightarrow> 'z db_scheme \<Rightarrow> int option" where
  "acting sv ctx d = fst (requireResolvedChatID sv ctx d)"

lemma acting_no_faults:
  assumes "db_faults d = []"
  shows "requireResolvedChatID sv ctx d = (acting sv ctx d, d)"
  using assms
  by (auto simp: acting_def requireResolvedChatID_def resolveCanonicalChatID_def GetLinkedTelegramUser_def split_beta split: option.split sum.split)

lemma acting_own:
  assumes "acting sv ctx d = Some c"
  shows "ctx = Some c \<or> (\<exists>(k, u) \<in> set (db_users d). u_ChatID u = c \<and> u_LinkedWebID u = ctx \<and> u_Channel u = ''telegram'')"
proof -
  obtain i where i: "chatIDFromContext ctx = Some i" "fst (resolveCanonicalChatID sv i d) = c"
    using assms by (auto simp: acting_def requireResolvedChatID_def split_beta split: option.splits)
  have ctx: "ctx = Some i" using i(1) by (auto simp: chatIDFromContext_def split: option.splits if_splits)
  consider "c = i" | u where "fst (GetLinkedTelegramUser i d) = Inr (Some u)" "u_ChatID u = c"
    using i(2) by (auto simp: resolveCanonicalChatID_def split_beta split: if_splits sum.splits option.splits)
  then show ?thesis
  proof cases
    case 2
    then obtain x where "find (\<lambda>(c, u). u_LinkedWebID u = Some i \<and> u_Channel u = ''telegram'' \<and> u_Active u) (db_users d) = Some x" "snd x = u"
      unfolding GetLinkedTelegramUser_def
      by (auto simp: db_call_def split_beta next_fault_def split: if_splits list.splits)
    then have "x \<in> set (db_users d) \<and> (case x of (c, u) \<Rightarrow> u_LinkedWebID u = Some i \<and> u_Channel u = ''telegram'' \<and> u_Active u)"
      unfolding find_Some_iff by (metis nth_mem)
    then have "x \<in> set (db_users d) \<and> u_LinkedWebID u = Some i \<and> u_Channel u = ''telegram''"
      using \<open>snd x = u\<close> by (auto simp: split_beta)
    then show ?thesis using 2(2) ctx \<open>snd x = u\<close> by (intro disjI2 bexI [where x = x]) auto
  qed (use ctx in simp)
qed

definition served :: "search_server \<Rightarrow> int option \<Rightarrow> 'z db_scheme \<Rightarrow> 'z db_scheme \<Rightarrow> bool" where
  "served sv ctx d d' \<longleftrightarrow> (case acting sv ctx d of None \<Rightarrow> db_searches d' = db_searches d | Some c \<Rightarrow> search_change c (db_searches d) (db_searches d'))"

lemma served_same: "db_searches d' = db_searches d \<Longrightarrow> served sv ctx d d'"
  by (simp add: served_def search_change.same split: option.split)

lemma served_with_id:
  assumes "\<And>c i d1. db_searches d1 = db_searches d \<Longrightarrow> search_change c (db_searches d) (db_searches (snd (f c i d1)))"
  shows "served sv ctx d (snd (with_search_id sv ctx path f d))"
  using assms [of "snd (requireResolvedChatID sv ctx d)"]
  by (auto simp: served_def acting_def with_search_id_def split_beta search_change.same split: option.splits)

lemma served_create: "served sv ctx d (snd (createSearch sv now newID share ctx body d))"
proof -
  obtain a d1 where a: "requireResolvedChatID sv ctx d = (a, d1)" by fastforce
  have d1: "db_searches d1 = db_searches d" using resolve_searches(2) [of sv ctx d] a by simp
  have made: "search_change c (db_searches d) (db_searches (snd (CreateSearch now newID share (createSearchRecord c name req') d2)))"
    if "fst (validateCreateSearchInput sv c req d3) = Inr (name, req')" "db_searches d2 = db_searches d" for c name req req' d2 d3
    using CreateSearch_change [OF validated [OF that(1)], of d2 now newID share] that(2) by simp
  show ?thesis
  proof (cases a)
    case None
    then show ?thesis using a d1 by (simp add: createSearch_def served_same)
  next
    case (Some c)
    have "search_change c (db_searches d) (db_searches (snd (createSearch sv now newID share ctx body d)))"
      unfolding createSearch_def a Some
      by (auto simp: split_beta d1 search_change.same split: option.splits sum.splits if_splits intro!: made)
    then show ?thesis using a Some by (simp add: served_def acting_def)
  qed
qed

lemma served_update: "served sv ctx d (snd (updateSearch sv ctx path body d))"
  unfolding updateSearch_def
proof (rule served_with_id)
  fix c i and d1 :: "'a db_scheme"
  assume d1: "db_searches d1 = db_searches d"
  have upd: "search_change c (db_searches d) (db_searches (snd (UpdateSearch (apply_update req s) (snd (GetSearch i c d1)))))"
    if g: "fst (GetSearch i c d1) = Inr (Some s)"
      and v: "validateSearchRanges (uq_YearMin req) (uq_YearMax req) (uq_PriceMin req) (uq_PriceMax req) (uq_MaxKm req) (uq_MaxHand req) (uq_EngineMinCC req) = ''''"
    for req s
  proof -
    have "search_input_ok (apply_update req s)" if "\<forall>x \<in> set (db_searches d1). search_ok x"
      using that GetSearch_found(1) [OF g] v by (simp add: search_input_ok_def apply_update_def search_ok_iff)
    then show ?thesis
      using UpdateSearch_change [of "snd (GetSearch i c d1)" "apply_update req s"] GetSearch_found(3) [OF g] d1 by (simp add: apply_update_def)
  qed
  show "search_change c (db_searches d) (db_searches (snd (case GetSearch i c d1 of
       (Inl _, d) \<Rightarrow> (Failed 500 ''failed to get search'', d)
     | (Inr None, d) \<Rightarrow> (Failed 404 ''search not found'', d)
     | (Inr (Some existing), d) \<Rightarrow>
         (case body of
            None \<Rightarrow> (Failed 400 ''invalid request body'', d)
          | Some req \<Rightarrow>
              (let msg = validateSearchRanges (uq_YearMin req) (uq_YearMax req) (uq_PriceMin req) (uq_PriceMax req) (uq_MaxKm req) (uq_MaxHand req) (uq_EngineMinCC req) in
               if msg \<noteq> '''' then (Failed 400 msg, d)
               else case UpdateSearch (apply_update req existing) d of
                 (Inl NotFound, d) \<Rightarrow> (Failed 404 ''search not found'', d)
               | (Inl _, d) \<Rightarrow> (Failed 500 ''failed to update search'', d)
               | (Inr _, d) \<Rightarrow> (case searchResponseWithListingCount sv c (apply_update req existing) d of (resp, d) \<Rightarrow> (Shown 200 resp, d)))))))"
    by (auto simp: split_beta Let_def d1 search_change.same split: sum.splits option.splits db_error.splits intro!: upd)
qed

lemma served_delete: "served sv ctx d (snd (deleteSearch sv ctx path d))"
  unfolding deleteSearch_def
proof (rule served_with_id)
  fix c i and d1 :: "'a db_scheme"
  assume d1: "db_searches d1 = db_searches d"
  have "search_change c (db_searches d) (db_searches (snd (DeleteSearch i c d1)))"
    using DeleteSearch_change [of c d1 i] d1 by simp
  then show "search_change c (db_searches d) (db_searches (snd (case DeleteSearch i c d1 of
       (Inl NotFound, d) \<Rightarrow> (Failed 404 ''search not found'', d)
     | (Inl _, d) \<Rightarrow> (Failed 500 ''failed to delete search'', d)
     | (Inr _, d) \<Rightarrow> (NoContent, d))))"
    by (auto simp: split_beta split: sum.splits db_error.splits)
qed

lemma served_active: "served sv ctx d (snd (setSearchActive sv active ctx path d))"
  unfolding setSearchActive_def
proof (rule served_with_id)
  fix c i and d1 :: "'a db_scheme"
  assume d1: "db_searches d1 = db_searches d"
  have "search_change c (db_searches d) (db_searches (snd (SetSearchActive i c active d1)))"
    using SetSearchActive_change [of c d1 i active] d1 by simp
  then show "search_change c (db_searches d) (db_searches (snd (case SetSearchActive i c active d1 of
       (Inl NotFound, d) \<Rightarrow> (Failed 404 ''search not found'', d)
     | (Inl _, d) \<Rightarrow> (Failed 500 ''failed to update search'', d)
     | (Inr _, d) \<Rightarrow> (NoContent, if active then ensureUserActive c d else d))))"
    by (auto simp: split_beta split: sum.splits db_error.splits)
qed

lemma served_serve: "served sv ctx d (snd (serve sv now ctx call d))"
  by (cases call) (simp_all add: served_same served_create served_update served_delete served_active pauseSearch_def resumeSearch_def)


subsection \<open>What the requests keep\<close>

text \<open>A sequence of requests, each by its user at its time.\<close>

fun serve_all :: "search_server \<Rightarrow> (gotime \<times> int option \<times> search_call) list \<Rightarrow> 'z db_scheme \<Rightarrow> 'z db_scheme" where
  "serve_all sv [] d = d"
| "serve_all sv ((now, ctx, call) # calls) d = serve_all sv calls (snd (serve sv now ctx call d))"

lemma served_ok: "served sv ctx d d' \<Longrightarrow> list_all search_ok (db_searches d) \<Longrightarrow> list_all search_ok (db_searches d')"
  unfolding served_def list_all_iff using change_ok by (fastforce split: option.splits)

lemma served_other:
  assumes "served sv ctx d d'" "acting sv ctx d \<noteq> Some c"
  shows "filter (\<lambda>s. s_ChatID s = c) (db_searches d') = filter (\<lambda>s. s_ChatID s = c) (db_searches d)"
  using assms change_others [of _ "db_searches d" "db_searches d'" c] by (auto simp: served_def split: option.splits)

lemma serve_all_ok: "list_all search_ok (db_searches d) \<Longrightarrow> list_all search_ok (db_searches (serve_all sv calls d))"
proof (induction calls arbitrary: d)
  case (Cons r calls)
  obtain now ctx call where r: "r = (now, ctx, call)" using prod_cases3 by blast
  show ?case using Cons.IH [OF served_ok [OF served_serve Cons.prems]] by (simp add: r)
qed simp

text \<open>C5. Whatever requests users send, in whatever order and with whatever database errors, the searches stored stay
  well formed: no bound is negative or above its counterpart, the source is the one that is fetched, every number fits
  its column, the seller filter is one of the three the matcher knows, and the keywords are nonempty trimmed words.\<close>

theorem stored_searches_stay_valid:
  "list_all search_ok (db_searches d) \<Longrightarrow> list_all search_ok (db_searches (serve_all sv calls d))"
  by (rule serve_all_ok)

definition sample_server :: search_server where
  "sample_server = \<lparr>ssv_MaxSearches = 1, ssv_users = True, ssv_listings = True,
     ssv_catalog = \<lparr>cat_ManufacturerName = (\<lambda>i. ''Toyota''), cat_ModelName = (\<lambda>i j. ''Yaris'')\<rparr>\<rparr>"

definition sample_request :: search_request where
  "sample_request = \<lparr>sq_Name = '''', sq_Source = '''', sq_Manufacturer = 19, sq_Model = 0, sq_YearMin = 2015, sq_YearMax = 2020, sq_PriceMin = 0,
     sq_PriceMax = 90000, sq_EngineMinCC = 0, sq_MaxKm = 0, sq_MaxHand = 2, sq_Keywords = '' hybrid , '', sq_ExcludeKeys = '''',
     sq_SellerFilter = ''PRIVATE'', sq_GearBox = '''', sq_PriceOnly = False, sq_PhotoOnly = False\<rparr>"

theorem stored_searches_stay_valid_witness:
  "list_all search_ok (db_searches (serve_all sample_server
     [(5, Some 9, CreateCall 1 ''k'' (Some sample_request)), (6, Some 9, PauseCall (Some 1)), (7, Some 8, DeleteCall (Some 1))]
     (empty_db\<lparr>db_users := [(9, new_user 9 ''dana'' '''' '''')]\<rparr>)))"
  by (rule stored_searches_stay_valid) (simp add: empty_db_def)

text \<open>C6. A user changes no search but his own: a request leaves the searches of every account other than the one it
  authenticates, and the Telegram account linked to it, as they are.\<close>

theorem requests_leave_other_accounts:
  assumes "serve sv now ctx call d = (reply, d')" "ctx \<noteq> Some c"
    and "\<forall>(k, u) \<in> set (db_users d). u_ChatID u = c \<longrightarrow> u_LinkedWebID u \<noteq> ctx"
  shows "filter (\<lambda>s. s_ChatID s = c) (db_searches d') = filter (\<lambda>s. s_ChatID s = c) (db_searches d)"
proof -
  have "acting sv ctx d \<noteq> Some c" using acting_own [of sv ctx d c] assms(2,3) by auto
  then show ?thesis using served_other [OF served_serve [of sv ctx d now call]] assms(1) by simp
qed

theorem requests_leave_other_accounts_witness:
  "map s_ID (filter (\<lambda>s. s_ChatID s = 7) (db_searches (snd (serve sample_server 5 (Some 9) (DeleteCall (Some 1))
     (two_accounts\<lparr>db_searches := [web_twin 1 7 50000]\<rparr>))))) = [1]"
proof -
  let ?d = "two_accounts\<lparr>db_searches := [web_twin 1 7 50000]\<rparr>"
  obtain r d' where s: "serve sample_server 5 (Some 9) (DeleteCall (Some 1)) ?d = (r, d')" by fastforce
  have "filter (\<lambda>s. s_ChatID s = 7) (db_searches d') = filter (\<lambda>s. s_ChatID s = 7) (db_searches ?d)"
    by (rule requests_leave_other_accounts [OF s]) (simp_all add: two_accounts_def new_user_def)
  then show ?thesis using s by (simp add: web_twin_def)
qed

lemma active_mono:
  "length (filter (\<lambda>s. s_ChatID s = c \<and> s_Active s) ss) \<le>
   length (filter (\<lambda>s. s_ChatID s = c \<and> s_Active s) (map (\<lambda>s. if s_ID s = i \<and> s_ChatID s = c then s\<lparr>s_Active := True\<rparr> else s) ss))"
  by (induction ss) simp_all

lemma active_after_resume:
  assumes "s \<in> set ss" "s_ID s = i" "s_ChatID s = c" "\<not> s_Active s"
  shows "length (filter (\<lambda>s. s_ChatID s = c \<and> s_Active s) ss) <
    length (filter (\<lambda>s. s_ChatID s = c \<and> s_Active s) (map (\<lambda>s. if s_ID s = i \<and> s_ChatID s = c then s\<lparr>s_Active := True\<rparr> else s) ss))"
  using assms(1)
proof (induction ss)
  case (Cons x ss)
  show ?case
  proof (cases "x = s")
    case True
    then show ?thesis using active_mono [of c ss i] assms(2-4) by simp
  next
    case False
    then show ?thesis using Cons by simp
  qed
qed simp

lemma SetSearchActive_done:
  assumes "SetSearchActive i c b d = (Inr x, d')"
  shows "db_searches d' = map (\<lambda>s. if s_ID s = i \<and> s_ChatID s = c then s\<lparr>s_Active := b\<rparr> else s) (db_searches d)"
  using assms unfolding SetSearchActive_def update_own_def Let_def by (auto elim!: db_call_Inr split: if_splits)

text \<open>Resuming is not counted against the limit of searches: a user who is at the limit and has a paused search
  resumes it and is above the limit, though the limit refuses a new search. (The bot's command does the same.)\<close>

lemma resume_ignores_limit:
  assumes "resumeSearch sv ctx (Some i) d = (NoContent, d')" "acting sv ctx d = Some c"
    and "s \<in> set (db_searches d)" "s_ID s = i" "s_ChatID s = c" "\<not> s_Active s"
    and "ssv_MaxSearches sv \<le> int (length (filter (\<lambda>s. s_ChatID s = c \<and> s_Active s) (db_searches d)))"
  shows "ssv_MaxSearches sv < int (length (filter (\<lambda>s. s_ChatID s = c \<and> s_Active s) (db_searches d')))"
proof -
  obtain d1 where a: "requireResolvedChatID sv ctx d = (Some c, d1)" using assms(2) by (cases "requireResolvedChatID sv ctx d") (simp add: acting_def)
  have d1: "db_searches d1 = db_searches d" using resolve_searches(2) [of sv ctx d] a by simp
  obtain d2 where s: "SetSearchActive i c True d1 = (Inr (), d2)" and d': "db_searches d' = db_searches d2"
    using assms(1) by (auto simp: resumeSearch_def setSearchActive_def with_search_id_def a split: option.splits sum.splits db_error.splits prod.splits)
      (auto simp: parsePathID_def split: if_splits)
  show ?thesis using active_after_resume [OF assms(3-6)] assms(7) d' SetSearchActive_done [OF s] d1 by simp
qed

lemma resume_ignores_limit_witness:
  "1 < int (length (filter (\<lambda>s. s_ChatID s = 7 \<and> s_Active s) (db_searches (snd (resumeSearch sample_server (Some 7) (Some 2)
     (two_accounts\<lparr>db_searches := [web_twin 1 7 50000\<lparr>s_Active := True\<rparr>, web_twin 2 7 60000\<lparr>s_Active := False\<rparr>]\<rparr>))))))"
proof -
  let ?d = "two_accounts\<lparr>db_searches := [web_twin 1 7 50000\<lparr>s_Active := True\<rparr>, web_twin 2 7 60000\<lparr>s_Active := False\<rparr>]\<rparr>"
  have a: "acting sample_server (Some 7) ?d = Some 7"
    by (simp add: acting_def requireResolvedChatID_def chatIDFromContext_def resolveCanonicalChatID_def sample_server_def
        GetLinkedTelegramUser_def two_accounts_def new_user_def empty_db_def)
  obtain d' where r: "resumeSearch sample_server (Some 7) (Some 2) ?d = (NoContent, d')"
    by (simp add: resumeSearch_def setSearchActive_def with_search_id_def requireResolvedChatID_def chatIDFromContext_def resolveCanonicalChatID_def
        sample_server_def GetLinkedTelegramUser_def two_accounts_def new_user_def empty_db_def parsePathID_def SetSearchActive_def update_own_def
        web_twin_def zero_search_def ensureUserActive_def GetUser_def)
  have "ssv_MaxSearches sample_server < int (length (filter (\<lambda>s. s_ChatID s = 7 \<and> s_Active s) (db_searches d')))"
    by (rule resume_ignores_limit [OF r a, of "web_twin 2 7 60000\<lparr>s_Active := False\<rparr>"])
      (simp_all add: web_twin_def zero_search_def sample_server_def)
  then show ?thesis using r by (simp add: sample_server_def)
qed

end
