(* ===== verification/LogHub.thy ===== *)
theory LogHub
  imports CwPrelude "HOL-Library.Sublist"
begin

section \<open>The log stream (internal/logstream/buffer.go, hub.go)\<close>

text \<open>
  The administration page shows the last entries of the log and then follows it. A ring buffer keeps the last entries;
  the hub writes each entry to it and offers it to the channel of every subscriber. The abstract buffer is the list of
  the entries it holds, oldest first.
\<close>

subsection \<open>The ring buffer\<close>

record 'e log_buffer =
  lb_items :: "'e list"
  lb_pos :: nat
  lb_full :: bool
  lb_cap :: nat

text \<open>\<open>zero\<close> is the zero value of an entry. None is the panic.\<close>

definition NewBuffer :: "'e \<Rightarrow> int \<Rightarrow> 'e log_buffer option" where
  "NewBuffer zero cap =
    (if cap \<le> 0 then None else Some \<lparr>lb_items = replicate (nat cap) zero, lb_pos = 0, lb_full = False, lb_cap = nat cap\<rparr>)"

definition Write :: "'e \<Rightarrow> 'e log_buffer \<Rightarrow> 'e log_buffer" where
  "Write e b =
    (let b = b\<lparr>lb_items := (lb_items b)[lb_pos b := e]\<rparr>;
         b = b\<lparr>lb_pos := (lb_pos b + 1) mod lb_cap b\<rparr>
     in if \<not> lb_full b \<and> lb_pos b = 0 then b\<lparr>lb_full := True\<rparr> else b)"

definition Len :: "'e log_buffer \<Rightarrow> nat" where
  "Len b = (if lb_full b then lb_cap b else lb_pos b)"

definition Recent :: "int \<Rightarrow> 'e log_buffer \<Rightarrow> 'e list" where
  "Recent n b =
    (let count = int (if lb_full b then lb_cap b else lb_pos b);
         n = (if n \<le> 0 \<or> n > count then count else n)
     in if n = 0 then []
        else let start = int (lb_pos b) - n;
                 start = (if start < 0 then start + int (lb_cap b) else start)
             in map (\<lambda>i. lb_items b ! nat ((start + int i) mod int (lb_cap b))) [0..<nat n])"

subsection \<open>The hub\<close>

text \<open>A subscriber is a number; its channel holds at most 64 entries and stays readable after it has unsubscribed.\<close>

record 'e hub =
  h_buf :: "'e log_buffer"
  h_subs :: "nat list"
  h_chan :: "nat \<Rightarrow> 'e list"
  h_next :: nat

definition channelCap :: nat where "channelCap = 64"

definition NewHub :: "'e \<Rightarrow> int \<Rightarrow> 'e hub option" where
  "NewHub zero bufCap = map_option (\<lambda>b. \<lparr>h_buf = b, h_subs = [], h_chan = (\<lambda>_. []), h_next = 0\<rparr>) (NewBuffer zero bufCap)"

definition Publish :: "'e \<Rightarrow> 'e hub \<Rightarrow> 'e hub" where
  "Publish e h = h\<lparr>h_buf := Write e (h_buf h),
     h_chan := (\<lambda>s. if s \<in> set (h_subs h) \<and> length (h_chan h s) < channelCap then h_chan h s @ [e] else h_chan h s)\<rparr>"

definition Subscribe :: "'e hub \<Rightarrow> nat \<times> 'e hub" where
  "Subscribe h = (h_next h, h\<lparr>h_subs := h_next h # h_subs h, h_next := h_next h + 1\<rparr>)"

definition Unsubscribe :: "nat \<Rightarrow> 'e hub \<Rightarrow> 'e hub" where
  "Unsubscribe s h = h\<lparr>h_subs := removeAll s (h_subs h)\<rparr>"

definition HubRecent :: "int \<Rightarrow> 'e hub \<Rightarrow> 'e list" where
  "HubRecent n h = Recent n (h_buf h)"

text \<open>What may happen to a hub: the calls, and a subscriber that takes an entry off its channel.\<close>

datatype 'e hub_op = Pub 'e | Sub | Unsub nat | Take nat

fun hub_step :: "'e hub_op \<Rightarrow> 'e hub \<Rightarrow> 'e option \<times> 'e hub" where
  "hub_step (Pub e) h = (None, Publish e h)"
| "hub_step Sub h = (None, snd (Subscribe h))"
| "hub_step (Unsub s) h = (None, Unsubscribe s h)"
| "hub_step (Take s) h = (case h_chan h s of [] \<Rightarrow> (None, h) | e # es \<Rightarrow> (Some e, h\<lparr>h_chan := (h_chan h)(s := es)\<rparr>))"

subsection \<open>The abstract buffer\<close>

definition last_of :: "nat \<Rightarrow> 'a list \<Rightarrow> 'a list" where
  "last_of k xs = drop (length xs - k) xs"

lemma last_of_all: "length xs \<le> k \<Longrightarrow> last_of k xs = xs"
  by (simp add: last_of_def)

lemma last_of_snoc: "last_of k (last_of k xs @ [x]) = last_of k (xs @ [x])"
  by (cases "length xs \<le> k") (auto simp: last_of_def Suc_diff_le)

text \<open>What a bounded log promises: it holds the last entries, in order.\<close>

locale bounded_log =
  fixes ok :: "'b \<Rightarrow> bool" and contents :: "'b \<Rightarrow> 'e list" and put :: "'e \<Rightarrow> 'b \<Rightarrow> 'b" and capacity :: "'b \<Rightarrow> nat"
  assumes put_ok: "ok b \<Longrightarrow> ok (put e b)"
    and put_capacity: "capacity (put e b) = capacity b"
    and put_contents: "ok b \<Longrightarrow> contents (put e b) = last_of (capacity b) (contents b @ [e])"
    and contents_fit: "ok b \<Longrightarrow> length (contents b) \<le> capacity b"
begin

lemma put_all_ok: "ok b \<Longrightarrow> ok (fold put es b)"
  by (induction es arbitrary: b) (simp_all add: put_ok)

lemma put_all_contents: "ok b \<Longrightarrow> contents (fold put es b) = last_of (capacity b) (contents b @ es)"
proof (induction es rule: rev_induct)
  case Nil
  then show ?case by (simp add: last_of_all contents_fit)
next
  case (snoc e es)
  have "capacity (fold put es b) = capacity b" by (induction es arbitrary: b) (simp_all add: put_capacity)
  then show ?case using snoc put_contents [OF put_all_ok [OF snoc.prems], of e es] last_of_snoc by (simp flip: append_assoc)
qed

end

definition buffer_ok :: "'e log_buffer \<Rightarrow> bool" where
  "buffer_ok b \<longleftrightarrow> length (lb_items b) = lb_cap b \<and> lb_pos b < lb_cap b"

definition contents :: "'e log_buffer \<Rightarrow> 'e list" where
  "contents b = (if lb_full b then drop (lb_pos b) (lb_items b) @ take (lb_pos b) (lb_items b) else take (lb_pos b) (lb_items b))"

lemma Write_ok: "buffer_ok b \<Longrightarrow> buffer_ok (Write e b)"
  by (simp add: buffer_ok_def Write_def Let_def)

lemma Write_cap [simp]: "lb_cap (Write e b) = lb_cap b"
  by (simp add: Write_def Let_def)

lemma length_contents: "buffer_ok b \<Longrightarrow> length (contents b) = Len b"
  by (simp add: contents_def Len_def buffer_ok_def)

lemma Len_le: "buffer_ok b \<Longrightarrow> Len b \<le> lb_cap b"
  by (simp add: Len_def buffer_ok_def)

lemma Write_contents:
  assumes "buffer_ok b"
  shows "contents (Write e b) = last_of (lb_cap b) (contents b @ [e])"
proof -
  have p: "lb_pos b < length (lb_items b)" "length (lb_items b) = lb_cap b" using assms by (auto simp: buffer_ok_def)
  show ?thesis
  proof (cases "lb_pos b + 1 = lb_cap b")
    case True
    then have "take (lb_pos b) (lb_items b) @ [e] = (lb_items b)[lb_pos b := e]"
      using p by (simp add: upd_conv_take_nth_drop)
    then show ?thesis using True p
      by (auto simp: Write_def contents_def last_of_def Let_def drop_Cons' take_Suc_conv_app_nth)
  next
    case False
    then have m: "(lb_pos b + 1) mod lb_cap b = lb_pos b + 1" using p by simp
    have t: "take (lb_pos b + 1) ((lb_items b)[lb_pos b := e]) = take (lb_pos b) (lb_items b) @ [e]"
      using p by (simp add: take_Suc_conv_app_nth)
    show ?thesis using m t p False
      by (auto simp: Write_def contents_def last_of_def Let_def)
  qed
qed

interpretation lb: bounded_log buffer_ok contents Write lb_cap
  by unfold_locales (simp_all add: Write_ok Write_contents length_contents Len_le)

lemma contents_nth:
  assumes "buffer_ok b" "lb_full b" "j < lb_cap b"
  shows "contents b ! j = lb_items b ! ((lb_pos b + j) mod lb_cap b)"
  using assms by (auto simp: contents_def buffer_ok_def nth_append mod_if add.commute)

lemma Recent_last_of:
  assumes "buffer_ok b"
  shows "Recent n b = last_of (if n \<le> 0 then Len b else nat n) (contents b)"
proof -
  define count where "count = int (if lb_full b then lb_cap b else lb_pos b)"
  define m where "m = nat (if n \<le> 0 \<or> n > count then count else n)"
  have count: "count = int (Len b)" by (simp add: count_def Len_def)
  have p: "lb_pos b < lb_cap b" "length (lb_items b) = lb_cap b" using assms by (auto simp: buffer_ok_def)
  have m: "m \<le> Len b" "int m = (if n \<le> 0 \<or> n > count then count else n)" using count by (auto simp: m_def)
  have kept: "last_of (if n \<le> 0 then Len b else nat n) (contents b) = drop (Len b - m) (contents b)"
    using length_contents [OF assms] m count by (auto simp: last_of_def m_def)
  define start where "start = (if int (lb_pos b) - int m < 0 then int (lb_pos b) - int m + int (lb_cap b) else int (lb_pos b) - int m)"
  have R: "Recent n b = map (\<lambda>i. lb_items b ! nat ((start + int i) mod int (lb_cap b))) [0..<m]"
    unfolding Recent_def Let_def count_def [symmetric] m(2) [symmetric] start_def by (simp add: of_nat_eq_0_iff)
  have nth: "lb_items b ! nat ((start + int i) mod int (lb_cap b)) = contents b ! (Len b - m + i)" if i: "i < m" for i
  proof (cases "lb_full b")
    case True
    then have L: "Len b = lb_cap b" by (simp add: Len_def)
    have "int ((lb_pos b + (lb_cap b - m + i)) mod lb_cap b) = (int (lb_pos b) - int m + int i + int (lb_cap b)) mod int (lb_cap b)"
      using m(1) L by (simp add: of_nat_mod of_nat_diff algebra_simps)
    also have "\<dots> = (int (lb_pos b) - int m + int i) mod int (lb_cap b)" by simp
    also have "\<dots> = (start + int i) mod int (lb_cap b)"
      using mod_add_self2 [of "int (lb_pos b) - int m + int i" "int (lb_cap b)"] by (simp add: start_def algebra_simps)
    finally have "nat ((start + int i) mod int (lb_cap b)) = (lb_pos b + (lb_cap b - m + i)) mod lb_cap b" by (metis nat_int)
    then show ?thesis using contents_nth [OF assms True, of "Len b - m + i"] i m(1) L by simp
  next
    case False
    then have L: "Len b = lb_pos b" by (simp add: Len_def)
    then have "start = int (lb_pos b - m)" using m(1) by (simp add: start_def of_nat_diff)
    then have "nat ((start + int i) mod int (lb_cap b)) = lb_pos b - m + i"
      using i m(1) L p by (simp add: nat_mod_distrib nat_add_distrib)
    then show ?thesis using False i m(1) L p by (simp add: contents_def)
  qed
  show ?thesis unfolding kept R
    by (rule nth_equalityI) (use length_contents [OF assms] m(1) nth in \<open>auto simp: add.commute\<close>)
qed

text \<open>C29. The ring buffer implements the list of the last entries: after any entries have been written to a new buffer, what
  \<open>Recent n\<close> reads is the last n, in order, of the last \<open>cap\<close> of them, or those all if n is not positive.\<close>

theorem recent_refines_last_entries:
  assumes "NewBuffer zero cap = Some b"
  shows "Recent n (fold Write es b) = last_of (if n \<le> 0 then nat cap else nat n) (last_of (nat cap) es)"
proof -
  have b: "buffer_ok b" "contents b = []" "lb_cap b = nat cap"
    using assms by (auto simp: NewBuffer_def buffer_ok_def contents_def split: if_splits)
  have ok: "buffer_ok (fold Write es b)" by (rule lb.put_all_ok [OF b(1)])
  have c: "contents (fold Write es b) = last_of (nat cap) es" using lb.put_all_contents [OF b(1), of es] b by simp
  have "Len (fold Write es b) = length (last_of (nat cap) es)" using length_contents [OF ok] c by simp
  then show ?thesis using Recent_last_of [OF ok, of n] c by (simp add: last_of_def)
qed

theorem recent_refines_last_entries_witness:
  "Recent 2 (fold Write [1, 2, 3, 4, 5] \<lparr>lb_items = replicate 3 (0 :: nat), lb_pos = 0, lb_full = False, lb_cap = 3\<rparr>) = [4, 5]"
  by (subst recent_refines_last_entries [of 0 3]) (simp_all add: NewBuffer_def last_of_def)

subsection \<open>Subscribers\<close>

text \<open>What subscriber \<open>s\<close> has taken off its channel, and what was published while it was subscribed.\<close>

fun taken :: "nat \<Rightarrow> 'e hub_op list \<Rightarrow> 'e hub \<Rightarrow> 'e list" where
  "taken s [] h = []"
| "taken s (op # ops) h =
    (case hub_step op h of (r, h') \<Rightarrow> (case (op, r) of (Take t, Some e) \<Rightarrow> if t = s then [e] else [] | _ \<Rightarrow> []) @ taken s ops h')"

fun published :: "nat \<Rightarrow> 'e hub_op list \<Rightarrow> 'e hub \<Rightarrow> 'e list" where
  "published s [] h = []"
| "published s (op # ops) h =
    (case op of Pub e \<Rightarrow> if s \<in> set (h_subs h) then [e] else [] | _ \<Rightarrow> []) @ published s ops (snd (hub_step op h))"

text \<open>A subscriber sees the entries in order, none twice and none from before or after its subscription; it may miss some.\<close>

lemma taken_in_order: "subseq (taken s ops h) (h_chan h s @ published s ops h)"
proof (induction ops arbitrary: h)
  case (Cons op ops)
  show ?case
  proof (cases op)
    case (Pub e)
    have "subseq (h_chan (Publish e h) s) (h_chan h s @ (if s \<in> set (h_subs h) then [e] else []))"
      by (auto simp: Publish_def intro: list_emb_prefix)
    then show ?thesis using Cons.IH [of "Publish e h"] Pub
      by (simp add: list_emb_append_mono subseq_order.order_trans [OF Cons.IH [of "Publish e h"]] flip: append_assoc)
  next
    case Sub
    then show ?thesis using Cons.IH [of "snd (Subscribe h)"] by (simp add: Subscribe_def)
  next
    case (Unsub t)
    then show ?thesis using Cons.IH [of "Unsubscribe t h"] by (simp add: Unsubscribe_def)
  next
    case (Take t)
    show ?thesis
    proof (cases "h_chan h t")
      case Nil
      then show ?thesis using Cons.IH [of h] Take by simp
    next
      case (Cons e es)
      then show ?thesis using Cons.IH [of "h\<lparr>h_chan := (h_chan h)(t := es)\<rparr>"] Take
        by (cases "t = s") simp_all
    qed
  qed
qed simp

lemma channel_bounded: "length (h_chan h s) \<le> channelCap \<Longrightarrow> length (h_chan (snd (hub_step op h)) s) \<le> channelCap"
  by (cases op) (auto simp: Publish_def Subscribe_def Unsubscribe_def split: list.split)

end
