(* ===== verification/Proxies.thy ===== *)
theory Proxies
  imports CwPrelude "HOL-Library.Multiset" "HOL-Library.AList"
begin

section \<open>Proxies and their clients (internal/fetcher/proxy.go, internal/fetcher/yad2/client_pool.go)\<close>

text \<open>
  Requests to the source rotate over a pool of proxies. A proxy that failed rests for five minutes; when all rest, the
  one that has rested longest is used. Each call takes the lock of the pool, so a sequence of calls is a sequence of
  steps; \<open>Next\<close> reads the clock for every entry it looks at, here once per call. A pool of clients keeps one HTTP client
  for each proxy.
\<close>

subsection \<open>The pool\<close>

record proxy_entry =
  pe_url :: string
  pe_healthy :: bool
  pe_cooldown :: gotime

record proxy_pool =
  pp_proxies :: "proxy_entry list"
  pp_idx :: nat

definition proxyCooldown :: duration where "proxyCooldown = minutes 5"

definition NewProxyPool :: "string list \<Rightarrow> proxy_pool" where
  "NewProxyPool urls = \<lparr>pp_proxies = map (\<lambda>u. \<lparr>pe_url = u, pe_healthy = True, pe_cooldown = 0\<rparr>) urls, pp_idx = 0\<rparr>"

text \<open>An entry that has rested is healthy again.\<close>

definition rested :: "gotime \<Rightarrow> proxy_entry \<Rightarrow> proxy_entry" where
  "rested now e = (if \<not> pe_healthy e \<and> now > pe_cooldown e then e\<lparr>pe_healthy := True\<rparr> else e)"

text \<open>The loop over at most as many entries as there are; None when none is healthy.\<close>

fun next_loop :: "gotime \<Rightarrow> nat \<Rightarrow> proxy_pool \<Rightarrow> string option \<times> proxy_pool" where
  "next_loop now 0 p = (None, p)"
| "next_loop now (Suc n) p =
    (let i = pp_idx p; e = rested now (pp_proxies p ! i);
         p = \<lparr>pp_proxies = (pp_proxies p)[i := e], pp_idx = (i + 1) mod length (pp_proxies p)\<rparr>
     in if pe_healthy e then (Some (pe_url e), p) else next_loop now n p)"

definition oldest_entry :: "proxy_entry list \<Rightarrow> nat" where
  "oldest_entry es = fold (\<lambda>i oldest. if pe_cooldown (es ! i) < pe_cooldown (es ! oldest) then i else oldest) [0..<length es] 0"

definition Next :: "gotime \<Rightarrow> proxy_pool \<Rightarrow> string \<times> proxy_pool" where
  "Next now p =
    (if pp_proxies p = [] then ('''', p)
     else case next_loop now (length (pp_proxies p)) p of
       (Some url, p) \<Rightarrow> (url, p)
     | (None, p) \<Rightarrow>
         let oldest = oldest_entry (pp_proxies p); e = (pp_proxies p ! oldest)\<lparr>pe_healthy := True\<rparr>
         in (pe_url e, p\<lparr>pp_proxies := (pp_proxies p)[oldest := e]\<rparr>))"

text \<open>Only the first entry with the URL is marked.\<close>

fun mark_first :: "string \<Rightarrow> (proxy_entry \<Rightarrow> proxy_entry) \<Rightarrow> proxy_entry list \<Rightarrow> proxy_entry list" where
  "mark_first url f [] = []"
| "mark_first url f (e # es) = (if pe_url e = url then f e # es else e # mark_first url f es)"

definition MarkUnhealthy :: "gotime \<Rightarrow> string \<Rightarrow> proxy_pool \<Rightarrow> proxy_pool" where
  "MarkUnhealthy now url p = p\<lparr>pp_proxies := mark_first url (\<lambda>e. e\<lparr>pe_healthy := False, pe_cooldown := now + proxyCooldown\<rparr>) (pp_proxies p)\<rparr>"

definition MarkHealthy :: "string \<Rightarrow> proxy_pool \<Rightarrow> proxy_pool" where
  "MarkHealthy url p = p\<lparr>pp_proxies := mark_first url (\<lambda>e. e\<lparr>pe_healthy := True\<rparr>) (pp_proxies p)\<rparr>"

datatype pool_op = NextOp gotime | FailOp gotime string | GoodOp string

text \<open>The URLs that the pool hands out over a sequence of calls.\<close>

fun pool_step :: "pool_op \<Rightarrow> proxy_pool \<Rightarrow> string option \<times> proxy_pool" where
  "pool_step (NextOp now) p = (case Next now p of (url, p) \<Rightarrow> (Some url, p))"
| "pool_step (FailOp now url) p = (None, MarkUnhealthy now url p)"
| "pool_step (GoodOp url) p = (None, MarkHealthy url p)"

fun handed_out :: "pool_op list \<Rightarrow> proxy_pool \<Rightarrow> string list" where
  "handed_out [] p = []"
| "handed_out (op # ops) p = (case pool_step op p of (r, p) \<Rightarrow> (case r of Some u \<Rightarrow> [u] | None \<Rightarrow> []) @ handed_out ops p)"

subsection \<open>Lemmas: the pool\<close>

definition pool_ok :: "proxy_pool \<Rightarrow> bool" where
  "pool_ok p \<longleftrightarrow> pp_proxies p = [] \<or> pp_idx p < length (pp_proxies p)"

definition urls :: "proxy_pool \<Rightarrow> string list" where
  "urls p = map pe_url (pp_proxies p)"

definition usable :: "gotime \<Rightarrow> proxy_entry \<Rightarrow> bool" where
  "usable now e \<longleftrightarrow> pe_healthy e \<or> now > pe_cooldown e"

lemma next_index_less [simp]: "i < n \<Longrightarrow> Suc i mod n < n"
  by (rule mod_less_divisor) simp

lemma rested_url [simp]: "pe_url (rested now e) = pe_url e"
  by (simp add: rested_def)

lemma rested_usable: "usable t e \<Longrightarrow> usable t (rested now e)"
  by (simp add: rested_def usable_def)

lemma mark_first_urls [simp]: "(\<And>e. pe_url (f e) = pe_url e) \<Longrightarrow> map pe_url (mark_first url f es) = map pe_url es"
  by (induction es) simp_all

lemma mark_first_length [simp]: "length (mark_first url f es) = length es"
  by (induction es) simp_all

lemma mark_first_other: "j < length es \<Longrightarrow> pe_url (es ! j) \<noteq> url \<Longrightarrow> mark_first url f es ! j = es ! j"
  by (induction es arbitrary: j) (auto simp: nth_Cons split: nat.split)

lemma mark_first_url_nth:
  "j < length es \<Longrightarrow> pe_url (mark_first url (\<lambda>e. e\<lparr>pe_healthy := True\<rparr>) es ! j) = pe_url (es ! j)"
  by (induction es arbitrary: j) (auto simp: nth_Cons split: nat.split)

lemma usable_healthy [simp]: "usable t (e\<lparr>pe_healthy := True\<rparr>)"
  by (simp add: usable_def)

lemma mark_first_usable: "j < length es \<Longrightarrow> usable t (es ! j) \<Longrightarrow> usable t (mark_first url (\<lambda>e. e\<lparr>pe_healthy := True\<rparr>) es ! j)"
  by (induction es arbitrary: j) (auto simp: nth_Cons split: nat.split)

lemma loop_facts:
  assumes "pp_idx p < length (pp_proxies p)" "next_loop now n p = (r, p')"
  shows "urls p' = urls p" "length (pp_proxies p') = length (pp_proxies p)" "pp_idx p' < length (pp_proxies p')"
    "r = Some u \<Longrightarrow> u \<in> set (urls p)"
    "\<And>j t. j < length (pp_proxies p) \<Longrightarrow> usable t (pp_proxies p ! j) \<Longrightarrow> usable t (pp_proxies p' ! j)"
proof -
  have "urls p' = urls p \<and> length (pp_proxies p') = length (pp_proxies p) \<and> pp_idx p' < length (pp_proxies p') \<and>
    (\<forall>u. r = Some u \<longrightarrow> u \<in> set (urls p)) \<and> (\<forall>j < length (pp_proxies p). \<forall>t. usable t (pp_proxies p ! j) \<longrightarrow> usable t (pp_proxies p' ! j))"
    using assms
  proof (induction n arbitrary: p)
    case (Suc n)
    let ?e = "rested now (pp_proxies p ! pp_idx p)"
    define q where "q = \<lparr>pp_proxies = (pp_proxies p)[pp_idx p := ?e], pp_idx = (pp_idx p + 1) mod length (pp_proxies p)\<rparr>"
    have len: "length (pp_proxies q) = length (pp_proxies p)" by (simp add: q_def)
    have idx: "pp_idx q < length (pp_proxies q)" using Suc.prems(1) by (simp add: q_def)
    have u: "urls q = urls p" by (simp add: urls_def q_def map_update list_update_same_conv Suc.prems(1))
    have h: "usable t (pp_proxies q ! j)" if "j < length (pp_proxies p)" "usable t (pp_proxies p ! j)" for j t
      using that by (cases "j = pp_idx p") (simp_all add: q_def rested_usable)
    show ?case
    proof (cases "pe_healthy ?e")
      case True
      then have r: "r = Some (pe_url (pp_proxies p ! pp_idx p))" "p' = q" using Suc.prems(2) by (simp_all add: Let_def q_def)
      have "pe_url (pp_proxies p ! pp_idx p) \<in> set (urls p)" using Suc.prems(1) by (simp add: urls_def)
      then show ?thesis using r u idx len h by auto
    next
      case False
      then have "next_loop now n q = (r, p')" using Suc.prems(2) by (simp add: Let_def q_def)
      from Suc.IH [OF idx this] show ?thesis using u len h by auto
    qed
  qed auto
  then show "urls p' = urls p" "length (pp_proxies p') = length (pp_proxies p)" "pp_idx p' < length (pp_proxies p')"
    "r = Some u \<Longrightarrow> u \<in> set (urls p)"
    "\<And>j t. j < length (pp_proxies p) \<Longrightarrow> usable t (pp_proxies p ! j) \<Longrightarrow> usable t (pp_proxies p' ! j)"
    by blast+
qed

text \<open>How many entries the pool looks at before entry \<open>j\<close>.\<close>

definition wait_for :: "proxy_pool \<Rightarrow> nat \<Rightarrow> nat" where
  "wait_for p j = (if j < pp_idx p then j + length (pp_proxies p) - pp_idx p else j - pp_idx p)"

lemma wait_for_less: "pp_idx p < length (pp_proxies p) \<Longrightarrow> j < length (pp_proxies p) \<Longrightarrow> wait_for p j < length (pp_proxies p)"
  by (simp add: wait_for_def) linarith

lemma wait_for_step:
  assumes "pp_idx p < length (pp_proxies p)" "j < length (pp_proxies p)" "j \<noteq> pp_idx p" "length es = length (pp_proxies p)"
  shows "wait_for (p\<lparr>pp_proxies := es, pp_idx := (pp_idx p + 1) mod length (pp_proxies p)\<rparr>) j = wait_for p j - 1"
proof (cases "pp_idx p + 1 = length (pp_proxies p)")
  case True
  then show ?thesis using assms by (auto simp: wait_for_def)
next
  case False
  then have "(pp_idx p + 1) mod length (pp_proxies p) = pp_idx p + 1" using assms(1) by simp
  then show ?thesis using assms by (auto simp: wait_for_def)
qed

lemma marked [simp]:
  "pp_idx (MarkUnhealthy now url p) = pp_idx p" "length (pp_proxies (MarkUnhealthy now url p)) = length (pp_proxies p)"
  "pp_idx (MarkHealthy url p) = pp_idx p" "length (pp_proxies (MarkHealthy url p)) = length (pp_proxies p)"
  "wait_for (MarkUnhealthy now url p) j = wait_for p j" "wait_for (MarkHealthy url p) j = wait_for p j"
  by (simp_all add: MarkUnhealthy_def MarkHealthy_def wait_for_def)

lemma loop_reaches:
  assumes "pp_idx p < length (pp_proxies p)" "j < length (pp_proxies p)" "usable now (pp_proxies p ! j)" "wait_for p j < n"
  shows "\<exists>u p'. next_loop now n p = (Some u, p') \<and> (u = pe_url (pp_proxies p ! j) \<or> wait_for p' j < wait_for p j) \<and>
    (\<exists>e \<in> set (pp_proxies p). pe_url e = u \<and> usable now e)"
  using assms
proof (induction n arbitrary: p)
  case (Suc n)
  let ?i = "pp_idx p"
  let ?e = "rested now (pp_proxies p ! ?i)"
  define q where "q = \<lparr>pp_proxies = (pp_proxies p)[?i := ?e], pp_idx = (?i + 1) mod length (pp_proxies p)\<rparr>"
  have mem: "pp_proxies p ! ?i \<in> set (pp_proxies p)" using Suc.prems(1) by simp
  have healthy: "pe_healthy ?e \<longleftrightarrow> usable now (pp_proxies p ! ?i)" by (auto simp: rested_def usable_def)
  show ?case
  proof (cases "?i = j")
    case True
    then have "pe_healthy ?e" using Suc.prems(3) healthy by simp
    then show ?thesis using True mem Suc.prems(3) by (auto simp: Let_def)
  next
    case False
    have q: "q = p\<lparr>pp_proxies := (pp_proxies p)[?i := ?e], pp_idx := (?i + 1) mod length (pp_proxies p)\<rparr>" by (simp add: q_def)
    have w: "wait_for q j = wait_for p j - 1"
      unfolding q by (rule wait_for_step) (use Suc.prems False in auto)
    have pos: "0 < wait_for p j" using False Suc.prems(1,2) by (auto simp: wait_for_def)
    show ?thesis
    proof (cases "pe_healthy ?e")
      case True
      then have "next_loop now (Suc n) p = (Some (pe_url ?e), q)" by (simp add: Let_def q_def)
      then show ?thesis using w pos mem True healthy by (metis diff_less rested_url zero_less_one)
    next
      case False2: False
      then have nl: "next_loop now (Suc n) p = next_loop now n q" by (simp add: Let_def q_def)
      have idx: "pp_idx q < length (pp_proxies q)" using Suc.prems(1) by (simp add: q_def)
      have qj: "pp_proxies q ! j = pp_proxies p ! j" using False by (simp add: q_def)
      have keep: "?e = pp_proxies p ! ?i" using False2 by (auto simp: rested_def split: if_splits)
      then have qp: "pp_proxies q = pp_proxies p" by (simp add: q_def)
      have less: "wait_for q j < n" using Suc.prems(4) w pos by linarith
      from Suc.IH [of q] obtain u p' where
        "next_loop now n q = (Some u, p')" "u = pe_url (pp_proxies q ! j) \<or> wait_for p' j < wait_for q j"
        "\<exists>e \<in> set (pp_proxies q). pe_url e = u \<and> usable now e"
        using idx Suc.prems(2,3) less qp by auto
      then show ?thesis using nl w qp by auto
    qed
  qed
qed simp

lemma Next_reaches:
  assumes "pp_idx p < length (pp_proxies p)" "j < length (pp_proxies p)" "usable now (pp_proxies p ! j)" "Next now p = (u, p')"
  shows "u = pe_url (pp_proxies p ! j) \<or> wait_for p' j < wait_for p j" "\<exists>e \<in> set (pp_proxies p). pe_url e = u \<and> usable now e"
    "next_loop now (length (pp_proxies p)) p = (Some u, p')"
proof -
  obtain v q where "next_loop now (length (pp_proxies p)) p = (Some v, q)"
    "v = pe_url (pp_proxies p ! j) \<or> wait_for q j < wait_for p j" "\<exists>e \<in> set (pp_proxies p). pe_url e = v \<and> usable now e"
    using loop_reaches [OF assms(1-3) wait_for_less [OF assms(1,2)]] by blast
  moreover have "(v, q) = (u, p')" using calculation(1) assms(1,4) by (cases "pp_proxies p") (simp_all add: Next_def)
  ultimately show "u = pe_url (pp_proxies p ! j) \<or> wait_for p' j < wait_for p j" "\<exists>e \<in> set (pp_proxies p). pe_url e = u \<and> usable now e"
    "next_loop now (length (pp_proxies p)) p = (Some u, p')"
    by simp_all
qed

text \<open>While a proxy is healthy or has rested long enough, no resting one is handed out.\<close>

lemma resting_proxy_is_last_resort:
  assumes "pool_ok p" "e \<in> set (pp_proxies p)" "usable now e" "Next now p = (u, p')"
  shows "\<exists>e' \<in> set (pp_proxies p). pe_url e' = u \<and> usable now e'"
proof -
  obtain j where "j < length (pp_proxies p)" "pp_proxies p ! j = e" using assms(2) by (metis in_set_conv_nth)
  then show ?thesis using Next_reaches(2) [of p j now u p'] assms by (auto simp: pool_ok_def)
qed

fun is_next :: "pool_op \<Rightarrow> bool" where
  "is_next (NextOp now) = True"
| "is_next _ = False"

lemma usable_proxy_reached:
  assumes "pp_idx p < length (pp_proxies p)" "j < length (pp_proxies p)" "\<forall>now. NextOp now \<in> set ops \<longrightarrow> usable now (pp_proxies p ! j)"
    "pe_url (pp_proxies p ! j) = u"
    "\<forall>now. FailOp now u \<notin> set ops" "wait_for p j < length (filter is_next ops)"
  shows "u \<in> set (handed_out ops p)"
  using assms
proof (induction ops arbitrary: p)
  case (Cons op ops)
  have fails: "\<forall>now. FailOp now u \<notin> set ops" using Cons.prems(5) by simp
  have rests: "\<forall>now. NextOp now \<in> set ops \<longrightarrow> usable now (pp_proxies p ! j)" using Cons.prems(3) by simp
  show ?case
  proof (cases op)
    case (NextOp now)
    obtain v p' where n: "Next now p = (v, p')" by fastforce
    note r = Next_reaches [OF Cons.prems(1,2) _ n]
    have us: "usable now (pp_proxies p ! j)" using Cons.prems(3) NextOp by simp
    note facts = loop_facts [OF Cons.prems(1) r(3) [OF us]]
    show ?thesis
    proof (cases "v = u")
      case False
      have "pe_url (pp_proxies p' ! j) = u" using facts(1,2) Cons.prems(2,4) by (metis nth_map urls_def)
      moreover have "wait_for p' j < length (filter is_next ops)"
        using r(1) [OF us] False Cons.prems(4,6) NextOp by simp
      ultimately have "u \<in> set (handed_out ops p')"
        using Cons.IH [of p'] facts(2,3,5) Cons.prems(2) rests fails by simp
      then show ?thesis using NextOp n by simp
    qed (simp add: NextOp n)
  next
    case (FailOp now url)
    then have "pp_proxies (MarkUnhealthy now url p) ! j = pp_proxies p ! j"
      using Cons.prems(2,4,5) by (auto simp: MarkUnhealthy_def intro!: mark_first_other)
    then have "u \<in> set (handed_out ops (MarkUnhealthy now url p))"
      using Cons.prems(1,2,4,6) rests fails FailOp by (intro Cons.IH [of "MarkUnhealthy now url p"]) simp_all
    then show ?thesis using FailOp by simp
  next
    case (GoodOp url)
    have "pe_url (pp_proxies (MarkHealthy url p) ! j) = u"
      using mark_first_url_nth [OF Cons.prems(2)] Cons.prems(4) by (simp add: MarkHealthy_def)
    moreover have "usable t (pp_proxies (MarkHealthy url p) ! j)" if "usable t (pp_proxies p ! j)" for t
      using mark_first_usable [OF Cons.prems(2) that] by (simp add: MarkHealthy_def)
    ultimately have "u \<in> set (handed_out ops (MarkHealthy url p))"
      using Cons.prems(1,2,6) rests fails GoodOp by (intro Cons.IH [of "MarkHealthy url p"]) simp_all
    then show ?thesis using GoodOp by simp
  qed
qed simp

text \<open>C30. The rotation is fair: a proxy that is usable at the time of every request, because it is healthy or its
  cooldown has passed, and that no caller reports as failed meanwhile, is handed out within as many requests as the
  pool has proxies, whatever is reported of the others and however the calls interleave.\<close>

theorem usable_proxy_is_handed_out:
  assumes "pp_idx p < length (pp_proxies p)" "e \<in> set (pp_proxies p)"
    and "\<forall>now. NextOp now \<in> set ops \<longrightarrow> pe_healthy e \<or> pe_cooldown e < now" "\<forall>now. FailOp now (pe_url e) \<notin> set ops"
    and "length (pp_proxies p) \<le> length (filter is_next ops)"
  shows "pe_url e \<in> set (handed_out ops p)"
proof -
  obtain j where j: "j < length (pp_proxies p)" "pp_proxies p ! j = e" using assms(2) by (metis in_set_conv_nth)
  show ?thesis
    using usable_proxy_reached [OF assms(1) j(1)] j assms(3-5) wait_for_less [OF assms(1) j(1)] by (simp add: usable_def)
qed

text \<open>The proxy \<open>b\<close> has failed at time 0 and is back after its five minutes.\<close>

theorem usable_proxy_is_handed_out_witness:
  "''b'' \<in> set (handed_out [NextOp (minutes 6), FailOp (minutes 6) ''a'', NextOp (minutes 7), GoodOp ''c'', NextOp (minutes 8)]
     (MarkUnhealthy 0 ''b'' (NewProxyPool [''a'', ''b'', ''c''])))"
  using usable_proxy_is_handed_out [of "MarkUnhealthy 0 ''b'' (NewProxyPool [''a'', ''b'', ''c''])"
      "\<lparr>pe_url = ''b'', pe_healthy = False, pe_cooldown = minutes 5\<rparr>"
      "[NextOp (minutes 6), FailOp (minutes 6) ''a'', NextOp (minutes 7), GoodOp ''c'', NextOp (minutes 8)]"]
  by (simp add: NewProxyPool_def MarkUnhealthy_def proxyCooldown_def minutes_def seconds_def)

lemma resting_proxy_is_last_resort_witness:
  "\<exists>e' \<in> set (pp_proxies (MarkUnhealthy 0 ''a'' (NewProxyPool [''a'', ''b'']))).
     pe_url e' = fst (Next 1 (MarkUnhealthy 0 ''a'' (NewProxyPool [''a'', ''b'']))) \<and> usable 1 e'"
  by (rule resting_proxy_is_last_resort [of _ "\<lparr>pe_url = ''b'', pe_healthy = True, pe_cooldown = 0\<rparr>" 1 _ "snd (Next 1 (MarkUnhealthy 0 ''a'' (NewProxyPool [''a'', ''b''])))"])
    (simp_all add: NewProxyPool_def MarkUnhealthy_def pool_ok_def usable_def)


subsection \<open>The clients\<close>

text \<open>A client is a number. \<open>Get\<close> holds the lock twice, before and after it makes a client, so that two callers may make one
  for the same proxy; \<open>cp_closed\<close> lists the clients in the order in which they are closed.\<close>

record client_pool =
  cp_clients :: "(string \<times> nat) list"
  cp_closed :: "nat list"

definition NewClientPool :: client_pool where
  "NewClientPool = \<lparr>cp_clients = [], cp_closed = []\<rparr>"

definition get_begin :: "string \<Rightarrow> client_pool \<Rightarrow> nat option" where
  "get_begin proxy p = map_of (cp_clients p) proxy"

definition get_finish :: "string \<Rightarrow> nat \<Rightarrow> client_pool \<Rightarrow> nat \<times> client_pool" where
  "get_finish proxy c p =
    (case map_of (cp_clients p) proxy of
       Some existing \<Rightarrow> (existing, p\<lparr>cp_closed := cp_closed p @ [c]\<rparr>)
     | None \<Rightarrow> (c, p\<lparr>cp_clients := (proxy, c) # cp_clients p\<rparr>))"

text \<open>A caller on its own; \<open>made\<close> is what \<open>NewClient\<close> returns.\<close>

definition Get :: "string \<Rightarrow> nat option \<Rightarrow> client_pool \<Rightarrow> nat option \<times> client_pool" where
  "Get proxy made p =
    (case get_begin proxy p of
       Some c \<Rightarrow> (Some c, p)
     | None \<Rightarrow> (case made of None \<Rightarrow> (None, p) | Some c \<Rightarrow> (case get_finish proxy c p of (r, p) \<Rightarrow> (Some r, p))))"

definition Evict :: "string \<Rightarrow> client_pool \<Rightarrow> client_pool" where
  "Evict proxy p =
    (case map_of (cp_clients p) proxy of
       None \<Rightarrow> p
     | Some c \<Rightarrow> p\<lparr>cp_clients := AList.delete proxy (cp_clients p), cp_closed := cp_closed p @ [c]\<rparr>)"

definition Close :: "client_pool \<Rightarrow> client_pool" where
  "Close p = p\<lparr>cp_clients := [], cp_closed := cp_closed p @ map snd (cp_clients p)\<rparr>"

text \<open>Callers that interleave: the pool, the clients made but not yet handed to it, and the number of the next client.\<close>

inductive cp_step :: "client_pool \<times> (string \<times> nat) multiset \<times> nat \<Rightarrow> client_pool \<times> (string \<times> nat) multiset \<times> nat \<Rightarrow> bool" where
  make: "get_begin proxy p = None \<Longrightarrow> cp_step (p, m, n) (p, add_mset (proxy, n) m, Suc n)"
| finish: "get_finish proxy c p = (r, p') \<Longrightarrow> cp_step (p, add_mset (proxy, c) m, n) (p', m, n)"
| evict: "cp_step (p, m, n) (Evict proxy p, m, n)"
| close: "cp_step (p, m, n) (Close p, m, n)"

definition cp_reachable :: "client_pool \<times> (string \<times> nat) multiset \<times> nat \<Rightarrow> bool" where
  "cp_reachable s = cp_step\<^sup>*\<^sup>* (NewClientPool, {#}, 0) s"

definition pool_ledger :: "client_pool \<times> (string \<times> nat) multiset \<times> nat \<Rightarrow> bool" where
  "pool_ledger s = (case s of (p, m, n) \<Rightarrow> distinct (map fst (cp_clients p)) \<and>
     mset (map snd (cp_clients p)) + image_mset snd m + mset (cp_closed p) = mset [0..<n])"

lemma delete_clients:
  "map_of xs k = Some v \<Longrightarrow> distinct (map fst xs) \<Longrightarrow> add_mset v (mset (map snd (AList.delete k xs))) = mset (map snd xs)"
proof (induction xs)
  case (Cons x xs)
  show ?case
  proof (cases "fst x = k")
    case True
    then have "k \<notin> fst ` set xs" using Cons.prems(2) by auto
    then have "AList.delete k (x # xs) = xs" using True by (simp add: delete_conv' filter_id_conv image_iff)
    then show ?thesis using True Cons.prems(1) by (cases x) simp
  qed (use Cons in \<open>cases x; auto\<close>)
qed simp

lemma cp_step_accounted: "cp_step s s' \<Longrightarrow> pool_ledger s \<Longrightarrow> pool_ledger s'"
proof (induction rule: cp_step.induct)
  case (finish proxy c p r p' m n)
  then show ?case by (auto simp: get_finish_def pool_ledger_def map_of_eq_None_iff image_iff split: option.splits)
next
  case (evict p m n proxy)
  show ?case
  proof (cases "map_of (cp_clients p) proxy")
    case (Some c)
    then show ?thesis using evict delete_clients [OF Some] by (simp add: Evict_def pool_ledger_def distinct_delete) (metis union_mset_add_mset_left)
  qed (use evict in \<open>simp add: Evict_def\<close>)
qed (auto simp: pool_ledger_def Close_def atLeast0_lessThan_Suc ac_simps)

text \<open>Every client that was made is in the pool, or about to be put there, or closed, and only one of these: none is lost and
  none is closed twice, however callers interleave.\<close>

lemma clients_accounted: "cp_reachable (p, m, n) \<Longrightarrow> mset (map snd (cp_clients p)) + image_mset snd m + mset (cp_closed p) = mset [0..<n]"
proof -
  have "pool_ledger s" if "cp_step\<^sup>*\<^sup>* (NewClientPool, {#}, 0) s" for s
    using that by (induction rule: rtranclp_induct) (auto simp: pool_ledger_def NewClientPool_def dest: cp_step_accounted)
  then show "cp_reachable (p, m, n) \<Longrightarrow> ?thesis" unfolding cp_reachable_def by (fastforce simp: pool_ledger_def)
qed

text \<open>A caller on its own never makes a second client for a proxy.\<close>

lemma Get_again: "Get proxy made p = (Some c, p') \<Longrightarrow> Get proxy made' p' = (Some c, p')"
  by (auto simp: Get_def get_begin_def get_finish_def split: option.splits prod.splits)

end
