(* ===== verification/ExtTokens.thy ===== *)
theory ExtTokens
  imports SearchApi Telegram
begin

section \<open>Credentials of the browser extension (internal/storage/postgres/ext_tokens.go, internal/api/ext_token.go)\<close>

text \<open>
  A user gives his browser extension a token of its own. The table holds its hash, when it expires and whether it was
  revoked; every use may push the expiry on. \<open>hash\<close> stands for SHA-256 in hex, \<open>secret\<close> for the random part of a new
  token. The store's clock is the argument \<open>now\<close>.
\<close>

subsection \<open>The table\<close>

record ext_token_row =
  et_ID :: int
  et_ChatID :: int
  et_Hash :: string
  et_Label :: string
  et_CreatedAt :: gotime
  et_LastUsed :: "gotime option"
  et_Expires :: gotime
  et_Revoked :: "gotime option"

record ext_db = db +
  db_ext_tokens :: "ext_token_row list"

definition extTokenSlidingWindow :: duration where "extTokenSlidingWindow = hours (90 * 24)"
definition extTokenRenewBefore :: duration where "extTokenRenewBefore = hours (60 * 24)"
definition lastUsedThrottle :: duration where "lastUsedThrottle = hours 1"

text \<open>\<open>revoked_at IS NULL AND expires_at > NOW()\<close>.\<close>

definition live_token :: "gotime \<Rightarrow> ext_token_row \<Rightarrow> bool" where
  "live_token now r \<longleftrightarrow> et_Revoked r = None \<and> et_Expires r > now"

definition CreateExtToken :: "gotime \<Rightarrow> int \<Rightarrow> int \<Rightarrow> string \<Rightarrow> string \<Rightarrow> gotime \<Rightarrow> 'z ext_db_scheme \<Rightarrow> (db_error + int) \<times> 'z ext_db_scheme" where
  "CreateExtToken now newID chatID tokenHash label expiresAt = db_call (DbError ''create ext token'') (\<lambda>d.
     if map_of (db_users d) chatID = None \<or> list_ex (\<lambda>r. et_Hash r = tokenHash) (db_ext_tokens d) then (Inl (DbError ''create ext token''), d)
     else (Inr newID, d\<lparr>db_ext_tokens := db_ext_tokens d @
       [\<lparr>et_ID = newID, et_ChatID = chatID, et_Hash = tokenHash, et_Label = label, et_CreatedAt = now, et_LastUsed = None,
         et_Expires = expiresAt, et_Revoked = None\<rparr>]\<rparr>))"

definition touch_token :: "gotime \<Rightarrow> ext_token_row \<Rightarrow> ext_token_row" where
  "touch_token now r = r
    \<lparr>et_LastUsed := (case et_LastUsed r of None \<Rightarrow> Some now | Some t \<Rightarrow> if t < now - lastUsedThrottle then Some now else Some t),
     et_Expires := (if et_Expires r < now + extTokenRenewBefore then now + extTokenSlidingWindow else et_Expires r)\<rparr>"

definition ResolveExtToken :: "gotime \<Rightarrow> string \<Rightarrow> 'z ext_db_scheme \<Rightarrow> (db_error + int) \<times> 'z ext_db_scheme" where
  "ResolveExtToken now tokenHash = db_call (DbError ''resolve ext token'') (\<lambda>d.
     let hit = \<lambda>r. et_Hash r = tokenHash \<and> live_token now r
     in case find hit (db_ext_tokens d) of
          None \<Rightarrow> (Inl NotFound, d)
        | Some r \<Rightarrow> (Inr (et_ChatID r), d\<lparr>db_ext_tokens := map (\<lambda>r. if hit r then touch_token now r else r) (db_ext_tokens d)\<rparr>))"

definition revoke_rows :: "gotime \<Rightarrow> (ext_token_row \<Rightarrow> bool) \<Rightarrow> 'z ext_db_scheme \<Rightarrow> (db_error + nat) \<times> 'z ext_db_scheme" where
  "revoke_rows now hit d =
    (Inr (length (filter hit (db_ext_tokens d))),
     d\<lparr>db_ext_tokens := map (\<lambda>r. if hit r then r\<lparr>et_Revoked := Some now\<rparr> else r) (db_ext_tokens d)\<rparr>)"

definition RevokeExtTokens :: "gotime \<Rightarrow> int \<Rightarrow> 'z ext_db_scheme \<Rightarrow> (db_error + nat) \<times> 'z ext_db_scheme" where
  "RevokeExtTokens now chatID = db_call (DbError ''revoke ext tokens'') (revoke_rows now (\<lambda>r. et_ChatID r = chatID \<and> et_Revoked r = None))"

text \<open>The live tokens of a chat, the newest first.\<close>

definition live_tokens :: "gotime \<Rightarrow> int \<Rightarrow> 'z ext_db_scheme \<Rightarrow> ext_token_row list" where
  "live_tokens now chatID d = sort_key (\<lambda>r. - et_CreatedAt r) (filter (\<lambda>r. et_ChatID r = chatID \<and> live_token now r) (db_ext_tokens d))"

definition ListExtTokens :: "gotime \<Rightarrow> int \<Rightarrow> 'z ext_db_scheme \<Rightarrow> (db_error + ext_token_row list) \<times> 'z ext_db_scheme" where
  "ListExtTokens now chatID = db_call (DbError ''list ext tokens'') (\<lambda>d. (Inr (live_tokens now chatID d), d))"

definition PruneExtTokens :: "gotime \<Rightarrow> duration \<Rightarrow> 'z ext_db_scheme \<Rightarrow> (db_error + nat) \<times> 'z ext_db_scheme" where
  "PruneExtTokens now olderThan = db_call (DbError ''prune ext tokens'') (\<lambda>d.
     let cutoff = now - olderThan; old = \<lambda>r. (case et_Revoked r of Some t \<Rightarrow> t < cutoff | None \<Rightarrow> False) \<or> et_Expires r < cutoff
     in (Inr (length (filter old (db_ext_tokens d))), d\<lparr>db_ext_tokens := filter (\<lambda>r. \<not> old r) (db_ext_tokens d)\<rparr>))"

definition RevokeOldestExtTokens :: "gotime \<Rightarrow> int \<Rightarrow> int \<Rightarrow> 'z ext_db_scheme \<Rightarrow> (db_error + nat) \<times> 'z ext_db_scheme" where
  "RevokeOldestExtTokens now chatID keep = db_call (DbError ''revoke oldest ext tokens'') (\<lambda>d.
     let ids = map et_ID (drop (nat keep) (live_tokens now chatID d)) in revoke_rows now (\<lambda>r. et_ID r \<in> set ids) d)"

subsection \<open>The handlers\<close>

definition extTokenPrefix :: string where "extTokenPrefix = ''cwx_''"
definition extTokenTTL :: duration where "extTokenTTL = hours (90 * 24)"
definition maxExtTokensPerUser :: int where "maxExtTokensPerUser = 5"
definition maxExtTokenLabelRunes :: nat where "maxExtTokenLabelRunes = 100"

definition isExtToken :: "string \<Rightarrow> bool" where
  "isExtToken bearer = prefix extTokenPrefix bearer"

definition extTokenLabel :: "string \<Rightarrow> string" where
  "extTokenLabel s =
    (let rs = filter (\<lambda>r. \<not> (case r of [c] \<Rightarrow> (of_char c :: nat) < 0x20 \<or> c = CHR 0x7F | _ \<Rightarrow> False)) (to_runes (trim_space s))
     in concat (take maxExtTokenLabelRunes rs))"

datatype ext_reply = ExtFailed int string | TokenIssued string gotime | TokensListed "ext_token_row list" | TokensRevoked nat

definition createExtToken :: "(string \<Rightarrow> string) \<Rightarrow> search_server \<Rightarrow> gotime \<Rightarrow> int \<Rightarrow> string \<Rightarrow> string \<Rightarrow> int option \<Rightarrow>
    'z ext_db_scheme \<Rightarrow> ext_reply \<times> 'z ext_db_scheme" where
  "createExtToken hash sv now newID secret bodyLabel ctx d =
    (case requireResolvedChatID sv ctx d of
       (None, d) \<Rightarrow> (ExtFailed 401 ''invalid user context'', d)
     | (Some chatID, d) \<Rightarrow>
         let label = extTokenLabel bodyLabel;
             d = (case ListExtTokens now chatID d of
                    (Inl _, d) \<Rightarrow> d
                  | (Inr existing, d) \<Rightarrow>
                      if int (length existing) \<ge> maxExtTokensPerUser then snd (RevokeOldestExtTokens now chatID (maxExtTokensPerUser - 1) d) else d);
             token = extTokenPrefix @ secret; expiresAt = now + extTokenTTL
         in case CreateExtToken now newID chatID (hash token) label expiresAt d of
              (Inl _, d) \<Rightarrow> (ExtFailed 500 ''internal error'', d)
            | (Inr _, d) \<Rightarrow> (TokenIssued token expiresAt, d))"

definition listExtTokensHandler :: "search_server \<Rightarrow> gotime \<Rightarrow> int option \<Rightarrow> 'z ext_db_scheme \<Rightarrow> ext_reply \<times> 'z ext_db_scheme" where
  "listExtTokensHandler sv now ctx d =
    (case requireResolvedChatID sv ctx d of
       (None, d) \<Rightarrow> (ExtFailed 401 ''invalid user context'', d)
     | (Some chatID, d) \<Rightarrow>
         (case ListExtTokens now chatID d of
            (Inl _, d) \<Rightarrow> (ExtFailed 500 ''internal error'', d)
          | (Inr tokens, d) \<Rightarrow> (TokensListed tokens, d)))"

definition revokeExtTokens :: "search_server \<Rightarrow> gotime \<Rightarrow> int option \<Rightarrow> 'z ext_db_scheme \<Rightarrow> ext_reply \<times> 'z ext_db_scheme" where
  "revokeExtTokens sv now ctx d =
    (case requireResolvedChatID sv ctx d of
       (None, d) \<Rightarrow> (ExtFailed 401 ''invalid user context'', d)
     | (Some chatID, d) \<Rightarrow>
         (case RevokeExtTokens now chatID d of
            (Inl _, d) \<Rightarrow> (ExtFailed 500 ''internal error'', d)
          | (Inr n, d) \<Rightarrow> (TokensRevoked n, d)))"


subsection \<open>Lemmas: tokens over time\<close>

datatype ext_op =
    OpCreate gotime int int string string gotime | OpResolve gotime string | OpRevoke gotime int | OpRevokeOldest gotime int int
  | OpList gotime int | OpPrune gotime duration

fun ext_step :: "ext_op \<Rightarrow> 'z ext_db_scheme \<Rightarrow> 'z ext_db_scheme" where
  "ext_step (OpCreate now newID c h label expires) d = snd (CreateExtToken now newID c h label expires d)"
| "ext_step (OpResolve now h) d = snd (ResolveExtToken now h d)"
| "ext_step (OpRevoke now c) d = snd (RevokeExtTokens now c d)"
| "ext_step (OpRevokeOldest now c keep) d = snd (RevokeOldestExtTokens now c keep d)"
| "ext_step (OpList now c) d = snd (ListExtTokens now c d)"
| "ext_step (OpPrune now age) d = snd (PruneExtTokens now age d)"

text \<open>The hash that an operation creates, if any.\<close>

fun creates :: "ext_op \<Rightarrow> string \<Rightarrow> bool" where
  "creates (OpCreate now newID c h label expires) x \<longleftrightarrow> h = x"
| "creates _ x \<longleftrightarrow> False"

text \<open>A property of the rows of one token that its revocation and its use keep.\<close>

lemma ext_step_rows:
  assumes "\<forall>r \<in> set (db_ext_tokens d). et_Hash r = h \<longrightarrow> P r" "\<not> creates op h"
    and "\<And>r t. P r \<Longrightarrow> P (r\<lparr>et_Revoked := Some t\<rparr>)" "\<And>r now. op = OpResolve now h \<Longrightarrow> P r \<Longrightarrow> live_token now r \<Longrightarrow> P (touch_token now r)"
  shows "\<forall>r \<in> set (db_ext_tokens (ext_step op d)). et_Hash r = h \<longrightarrow> P r"
proof (cases op)
  case (OpCreate now newID c h' label expires)
  then show ?thesis using assms(1,2) unfolding OpCreate ext_step.simps CreateExtToken_def
    by - (rule db_call_inv [where P = "\<lambda>d. \<forall>r \<in> set (db_ext_tokens d). et_Hash r = h \<longrightarrow> P r"], auto)
next
  case (OpResolve now h')
  show ?thesis unfolding OpResolve ext_step.simps ResolveExtToken_def
    by (rule db_call_inv [where P = "\<lambda>d. \<forall>r \<in> set (db_ext_tokens d). et_Hash r = h \<longrightarrow> P r"])
      (use assms(1,4) OpResolve in \<open>auto simp: Let_def touch_token_def split: option.splits\<close>)
next
  case (OpRevoke now c)
  show ?thesis unfolding OpRevoke ext_step.simps RevokeExtTokens_def
    by (rule db_call_inv [where P = "\<lambda>d. \<forall>r \<in> set (db_ext_tokens d). et_Hash r = h \<longrightarrow> P r"])
      (use assms(1,3) in \<open>auto simp: revoke_rows_def\<close>)
next
  case (OpRevokeOldest now c keep)
  show ?thesis unfolding OpRevokeOldest ext_step.simps RevokeOldestExtTokens_def
    by (rule db_call_inv [where P = "\<lambda>d. \<forall>r \<in> set (db_ext_tokens d). et_Hash r = h \<longrightarrow> P r"])
      (use assms(1,3) in \<open>auto simp: revoke_rows_def Let_def\<close>)
next
  case (OpList now c)
  show ?thesis unfolding OpList ext_step.simps ListExtTokens_def
    by (rule db_call_inv [where P = "\<lambda>d. \<forall>r \<in> set (db_ext_tokens d). et_Hash r = h \<longrightarrow> P r"]) (use assms(1) in auto)
next
  case (OpPrune now age)
  show ?thesis unfolding OpPrune ext_step.simps PruneExtTokens_def
    by (rule db_call_inv [where P = "\<lambda>d. \<forall>r \<in> set (db_ext_tokens d). et_Hash r = h \<longrightarrow> P r"]) (use assms(1) in \<open>auto simp: Let_def\<close>)
qed

lemma ext_run_rows:
  assumes "\<forall>r \<in> set (db_ext_tokens d). et_Hash r = h \<longrightarrow> P r" "\<forall>op \<in> set ops. \<not> creates op h \<and> Q op"
    and "\<And>r t. P r \<Longrightarrow> P (r\<lparr>et_Revoked := Some t\<rparr>)" "\<And>r t. Q (OpResolve t h) \<Longrightarrow> P r \<Longrightarrow> live_token t r \<Longrightarrow> P (touch_token t r)"
  shows "\<forall>r \<in> set (db_ext_tokens (fold ext_step ops d)). et_Hash r = h \<longrightarrow> P r"
  using assms(1,2)
proof (induction ops arbitrary: d)
  case (Cons op ops)
  have "\<forall>r \<in> set (db_ext_tokens (ext_step op d)). et_Hash r = h \<longrightarrow> P r"
    by (rule ext_step_rows [where P = P, OF Cons.prems(1)]) (use Cons.prems(2) assms(3,4) in auto)
  then show ?case using Cons.IH Cons.prems(2) by simp
qed simp

lemma resolved_row:
  assumes "fst (ResolveExtToken now h d) = Inr c"
  shows "\<exists>r \<in> set (db_ext_tokens d). et_Hash r = h \<and> live_token now r \<and> et_ChatID r = c"
proof -
  obtain d' where "ResolveExtToken now h d = (Inr c, d')" using assms by (metis prod.collapse)
  then show ?thesis unfolding ResolveExtToken_def
    by (auto elim!: db_call_Inr simp: Let_def find_Some_iff split: option.splits) (metis nth_mem)
qed

text \<open>C31. Revoking is final: once a chat's tokens have been revoked, none of them is accepted again, whatever happens to the
  table afterwards and whenever it is tried, unless the same secret is drawn a second time.\<close>

theorem revoked_token_stays_revoked:
  assumes "RevokeExtTokens now c d = (Inr n, d')" "\<forall>r \<in> set (db_ext_tokens d). et_Hash r = h \<longrightarrow> et_ChatID r = c"
    and "\<forall>op \<in> set ops. \<not> creates op h"
  shows "fst (ResolveExtToken t h (fold ext_step ops d')) \<noteq> Inr i"
proof
  assume res: "fst (ResolveExtToken t h (fold ext_step ops d')) = Inr i"
  obtain fs where "revoke_rows now (\<lambda>r. et_ChatID r = c \<and> et_Revoked r = None) (d\<lparr>db_faults := fs\<rparr>) = (Inr n, d')"
    by (rule db_call_Inr [OF assms(1) [unfolded RevokeExtTokens_def]])
  then have d': "d' = snd (revoke_rows now (\<lambda>r. et_ChatID r = c \<and> et_Revoked r = None) (d\<lparr>db_faults := fs\<rparr>))" by simp
  have "\<forall>r \<in> set (db_ext_tokens d'). et_Hash r = h \<longrightarrow> et_Revoked r \<noteq> None"
    unfolding d' revoke_rows_def using assms(2) by auto
  then have "\<forall>r \<in> set (db_ext_tokens (fold ext_step ops d')). et_Hash r = h \<longrightarrow> et_Revoked r \<noteq> None"
    by (rule ext_run_rows [where P = "\<lambda>r. et_Revoked r \<noteq> None" and Q = "\<lambda>op. True"]) (use assms(3) in \<open>auto simp: touch_token_def\<close>)
  then show False using resolved_row [OF res] by (auto simp: live_token_def)
qed

text \<open>A token that is not used ages out: ninety days after its last use, or its creation, it is refused.\<close>

lemma idle_token_ages_out:
  assumes "\<forall>r \<in> set (db_ext_tokens d). et_Hash r = h \<longrightarrow> et_Expires r \<le> since + extTokenSlidingWindow"
    and "\<forall>op \<in> set ops. \<not> creates op h \<and> (\<forall>now. op \<noteq> OpResolve now h)" "since + extTokenSlidingWindow \<le> t"
  shows "fst (ResolveExtToken t h (fold ext_step ops d)) \<noteq> Inr i"
proof
  assume res: "fst (ResolveExtToken t h (fold ext_step ops d)) = Inr i"
  have "\<forall>r \<in> set (db_ext_tokens (fold ext_step ops d)). et_Hash r = h \<longrightarrow> et_Expires r \<le> since + extTokenSlidingWindow"
    by (rule ext_run_rows [where Q = "\<lambda>op. \<forall>now. op \<noteq> OpResolve now h", OF assms(1,2)]) simp_all
  then show False using resolved_row [OF res] assms(3) by (auto simp: live_token_def)
qed

definition sample_ext_db :: ext_db where
  "sample_ext_db = db.extend (empty_db\<lparr>db_users := [(2000000000000, new_user 2000000000000 ''dana'' ''web'' ''uid1''),
       (7, (new_user 7 ''dana'' ''telegram'' ''7'')\<lparr>u_LinkedWebID := Some 2000000000000\<rparr>)]\<rparr>)
     \<lparr>db_ext_tokens = [\<lparr>et_ID = 1, et_ChatID = 2000000000000, et_Hash = ''h'', et_Label = ''laptop'', et_CreatedAt = 0, et_LastUsed = None,
       et_Expires = extTokenTTL, et_Revoked = None\<rparr>]\<rparr>"

theorem revoked_token_stays_revoked_witness:
  "fst (ResolveExtToken 2 ''h'' (fold ext_step [OpResolve 1 ''h'', OpPrune 1 0] (snd (RevokeExtTokens 1 2000000000000 sample_ext_db)))) \<noteq> Inr 7"
  by (rule revoked_token_stays_revoked [where now = 1 and c = 2000000000000 and d = sample_ext_db and n = 1])
    (simp_all add: RevokeExtTokens_def revoke_rows_def sample_ext_db_def empty_db_def db.defs)

lemma length_live_tokens: "length (live_tokens now c d) = length (filter (\<lambda>r. et_ChatID r = c \<and> live_token now r) (db_ext_tokens d))"
  by (simp add: live_tokens_def)

lemma filter_revoked: "(\<And>r. \<not> Q (g r)) \<Longrightarrow> filter Q (map (\<lambda>r. if H r then g r else r) xs) = filter (\<lambda>r. \<not> H r) (filter Q xs)"
  by (induction xs) auto

lemma revoke_oldest_leaves:
  assumes "db_faults d = []"
  shows "length (live_tokens now c (snd (RevokeOldestExtTokens now c keep d))) \<le> nat keep"
proof -
  define L where "L = live_tokens now c d"
  define ids where "ids = set (map et_ID (drop (nat keep) L))"
  have "filter (\<lambda>r. et_ChatID r = c \<and> live_token now r) (db_ext_tokens (snd (RevokeOldestExtTokens now c keep d)))
      = filter (\<lambda>r. et_ID r \<notin> ids) (filter (\<lambda>r. et_ChatID r = c \<and> live_token now r) (db_ext_tokens d))"
    using assms filter_revoked [of "\<lambda>r. et_ChatID r = c \<and> live_token now r" "\<lambda>r. r\<lparr>et_Revoked := Some now\<rparr>" "\<lambda>r. et_ID r \<in> ids" "db_ext_tokens d"]
    by (simp add: RevokeOldestExtTokens_def revoke_rows_def L_def ids_def live_token_def)
  then have "length (live_tokens now c (snd (RevokeOldestExtTokens now c keep d))) =
      length (filter (\<lambda>r. et_ID r \<notin> ids) (filter (\<lambda>r. et_ChatID r = c \<and> live_token now r) (db_ext_tokens d)))"
    by (simp add: length_live_tokens)
  also have "\<dots> = length (filter (\<lambda>r. et_ID r \<notin> ids) L)"
    by (simp add: L_def live_tokens_def filter_sort)
  also have "\<dots> = length (filter (\<lambda>r. et_ID r \<notin> ids) (take (nat keep) L @ drop (nat keep) L))" by simp
  also have "\<dots> = length (filter (\<lambda>r. et_ID r \<notin> ids) (take (nat keep) L))"
    unfolding filter_append by (simp add: filter_empty_conv ids_def)
  also have "\<dots> \<le> nat keep" by (rule order_trans [OF length_filter_le]) simp
  finally show ?thesis .
qed

text \<open>An account has at most five browsers connected: when a token is issued and the database answers, no more than five
  tokens of the account are live.\<close>

lemma ext_tokens_capped:
  assumes "createExtToken hash sv now newID secret label ctx d = (TokenIssued token e, d')" "acting sv ctx d = Some c" "db_faults d = []"
  shows "length (live_tokens now c d') \<le> 5"
proof -
  define d1 where "d1 = (if int (length (live_tokens now c d)) \<ge> 5 then snd (RevokeOldestExtTokens now c 4 d) else d)"
  have few: "length (live_tokens now c d1) \<le> 4"
    using revoke_oldest_leaves [OF assms(3), of now c 4] by (auto simp: d1_def)
  have f1: "db_faults d1 = []" using assms(3) by (simp add: d1_def RevokeOldestExtTokens_def revoke_rows_def)
  have "createExtToken hash sv now newID secret label ctx d =
    (case CreateExtToken now newID c (hash (extTokenPrefix @ secret)) (extTokenLabel label) (now + extTokenTTL) d1 of
       (Inl _, d) \<Rightarrow> (ExtFailed 500 ''internal error'', d) | (Inr _, d) \<Rightarrow> (TokenIssued (extTokenPrefix @ secret) (now + extTokenTTL), d))"
    using acting_no_faults [OF assms(3), of sv ctx] assms(2,3)
    by (simp add: createExtToken_def ListExtTokens_def maxExtTokensPerUser_def d1_def Let_def)
  then have created: "d' = d1\<lparr>db_ext_tokens := db_ext_tokens d1 @ [\<lparr>et_ID = newID, et_ChatID = c, et_Hash = hash (extTokenPrefix @ secret),
      et_Label = extTokenLabel label, et_CreatedAt = now, et_LastUsed = None, et_Expires = now + extTokenTTL, et_Revoked = None\<rparr>]\<rparr>"
    using assms(1) f1 by (auto simp: CreateExtToken_def split: if_splits)
  show ?thesis using few unfolding created by (simp add: length_live_tokens)
qed

lemma ext_tokens_capped_witness:
  "length (live_tokens 5 7 (snd (createExtToken (\<lambda>x. x) sample_server 5 2 ''abc'' ''desk'' (Some 2000000000000) sample_ext_db))) \<le> 5"
  by (rule ext_tokens_capped [where token = "''cwx_abc''" and e = "5 + extTokenTTL" and d = sample_ext_db and hash = "\<lambda>x. x" and
        sv = sample_server and newID = 2 and secret = "''abc''" and label = "''desk''" and ctx = "Some 2000000000000"])
    (simp_all add: createExtToken_def sample_ext_db_def sample_server_def empty_db_def db.defs acting_def requireResolvedChatID_def chatIDFromContext_def
      resolveCanonicalChatID_def GetLinkedTelegramUser_def new_user_def ListExtTokens_def live_tokens_def maxExtTokensPerUser_def CreateExtToken_def
      extTokenPrefix_def Let_def)

lemma find_mapped: "find P xs = Some r \<Longrightarrow> f r = r \<Longrightarrow> (\<And>x. \<not> P x \<Longrightarrow> \<not> P (f x)) \<Longrightarrow> find P (map f xs) = Some r"
  by (induction xs) (auto split: if_splits)

text \<open>A token that was issued before the web account was linked cannot be revoked any more: the handler revokes the tokens of
  the Telegram account the user now acts for, the token belongs to the web account, and it goes on being accepted.\<close>

lemma revoke_misses_token_from_before_link:
  assumes "revokeExtTokens sv now (Some web) d = (TokensRevoked n, d')" "acting sv (Some web) d = Some tg" "tg \<noteq> web" "db_faults d = []"
    and "find (\<lambda>r. et_Hash r = h \<and> live_token now r) (db_ext_tokens d) = Some r" "et_ChatID r = web"
  shows "fst (ResolveExtToken now h d') = Inr web"
proof -
  have d': "d' = d\<lparr>db_ext_tokens := map (\<lambda>r. if et_ChatID r = tg \<and> et_Revoked r = None then r\<lparr>et_Revoked := Some now\<rparr> else r) (db_ext_tokens d)\<rparr>"
    using assms(1,2,4) acting_no_faults [OF assms(4), of sv "Some web"]
    by (simp add: revokeExtTokens_def RevokeExtTokens_def revoke_rows_def)
  have "find (\<lambda>r. et_Hash r = h \<and> live_token now r) (db_ext_tokens d') = Some r"
    unfolding d' using find_mapped [OF assms(5), of "\<lambda>r. if et_ChatID r = tg \<and> et_Revoked r = None then r\<lparr>et_Revoked := Some now\<rparr> else r"] assms(3,6)
    by (auto simp: live_token_def)
  moreover have "db_faults d' = []" using assms(4) by (simp add: d')
  ultimately show ?thesis using assms(6) by (simp add: ResolveExtToken_def Let_def)
qed

lemma revoke_misses_token_from_before_link_witness:
  "fst (ResolveExtToken 1 ''h'' (snd (revokeExtTokens sample_server 1 (Some 2000000000000) sample_ext_db))) = Inr 2000000000000"
  by (rule revoke_misses_token_from_before_link [where tg = 7 and n = 0 and d = sample_ext_db and sv = sample_server and r = "hd (db_ext_tokens sample_ext_db)"])
    (simp_all add: revokeExtTokens_def RevokeExtTokens_def revoke_rows_def sample_ext_db_def sample_server_def empty_db_def db.defs acting_def
      requireResolvedChatID_def chatIDFromContext_def resolveCanonicalChatID_def GetLinkedTelegramUser_def new_user_def live_token_def extTokenTTL_def hours_def)

end
