(* ===== verification/Auth.thy ===== *)
theory Auth
  imports ExtTokens
begin

section \<open>Who a request comes from (internal/api/uid_cache.go, api.go, ext_token.go)\<close>

text \<open>
  Three middlewares turn the Authorization header into a chat id: a strict one, one that lets guests pass, and the one of
  the extension's routes, which also takes the extension's own tokens. A Firebase user id is resolved to an account
  through a cache. What Firebase says of a token is the argument \<open>ac_firebase\<close>: None when Firebase is not configured,
  else the user id and the email of a valid token. The state is the cache and the tables; the cache is read and
  written under its lock, each time with a clock of its own.
\<close>

subsection \<open>The cache of user ids\<close>

type_synonym uid_cache = "(string \<times> (int \<times> gotime)) list"

definition uidCacheTTL :: duration where "uidCacheTTL = minutes 15"
definition uidCacheMaxSize :: nat where "uidCacheMaxSize = 10000"

definition uid_get :: "gotime \<Rightarrow> string \<Rightarrow> uid_cache \<Rightarrow> int option" where
  "uid_get now uid c = (case map_of c uid of None \<Rightarrow> None | Some (chatID, expires) \<Rightarrow> if now > expires then None else Some chatID)"

definition uid_put :: "gotime \<Rightarrow> string \<Rightarrow> int \<Rightarrow> uid_cache \<Rightarrow> uid_cache" where
  "uid_put now uid chatID c = AList.update uid (chatID, now + uidCacheTTL) (if length c \<ge> uidCacheMaxSize then [] else c)"

definition uid_clear :: "uid_cache \<Rightarrow> uid_cache" where
  "uid_clear c = []"

definition resolveWebUser :: "(nat \<Rightarrow> bool) \<Rightarrow> gotime \<Rightarrow> string \<Rightarrow> string \<Rightarrow> uid_cache \<times> 'z db_scheme \<Rightarrow> (upsert_error + int) \<times> uid_cache \<times> 'z db_scheme" where
  "resolveWebUser raced now uid email s =
    (case s of (c, d) \<Rightarrow>
     case uid_get now uid c of
       Some chatID \<Rightarrow> (Inr chatID, c, d)
     | None \<Rightarrow>
         (case UpsertWebUser raced uid email d of
            (Inl e, d) \<Rightarrow> (Inl e, c, d)
          | (Inr chatID, d) \<Rightarrow> (Inr chatID, uid_put now uid chatID c, d)))"

subsection \<open>The middlewares\<close>

record auth_config =
  ac_firebase :: "(string \<Rightarrow> (string \<times> string) option) option"
  ac_AuthToken :: string
  ac_DevChatID :: int
  ac_AdminChatID :: int
  ac_AdminEmail :: string
  ac_ext :: bool
  ac_notifs :: bool
  ac_hash :: "string \<Rightarrow> string"

text \<open>A request is refused with a status, or passed on with a chat id (0 for a guest) and an email.\<close>

datatype auth_result = Refused int string | Passed int string

definition bearerFromAuthHeader :: "string \<Rightarrow> string" where
  "bearerFromAuthHeader authHdr = (if prefix ''Bearer '' authHdr then trim_space (drop 7 authHdr) else '''')"

definition firebase_identity :: "(nat \<Rightarrow> bool) \<Rightarrow> gotime \<Rightarrow> (string \<times> string) option \<Rightarrow> string \<Rightarrow> uid_cache \<times> 'z ext_db_scheme \<Rightarrow>
    auth_result \<times> uid_cache \<times> 'z ext_db_scheme" where
  "firebase_identity raced now verified msg s =
    (case verified of
       None \<Rightarrow> (Refused 401 msg, s)
     | Some (uid, email) \<Rightarrow>
         (case resolveWebUser raced now uid email s of
            (Inl _, s) \<Rightarrow> (Refused 500 ''internal error'', s)
          | (Inr chatID, s) \<Rightarrow> (Passed chatID email, s)))"

definition optionalAuthMiddleware :: "auth_config \<Rightarrow> (nat \<Rightarrow> bool) \<Rightarrow> gotime \<Rightarrow> string \<Rightarrow> uid_cache \<times> 'z ext_db_scheme \<Rightarrow>
    auth_result \<times> uid_cache \<times> 'z ext_db_scheme" where
  "optionalAuthMiddleware cfg raced now authHdr s =
    (let bearer = bearerFromAuthHeader authHdr; credentialOffered = (trim_space authHdr \<noteq> '''') in
     if isExtToken bearer then (Refused 401 ''extension token not valid here'', s)
     else case ac_firebase cfg of
       Some verify \<Rightarrow>
         if bearer \<noteq> '''' then firebase_identity raced now (verify bearer) ''invalid or expired token'' s
         else if credentialOffered then (Refused 401 ''invalid or expired token'', s)
         else (Passed 0 '''', s)
     | None \<Rightarrow>
         if ac_AuthToken cfg \<noteq> '''' then
           (if bearer = ac_AuthToken cfg then (Passed (ac_DevChatID cfg) '''', s)
            else if credentialOffered then (Refused 401 ''invalid or expired token'', s)
            else (Passed 0 '''', s))
         else (Passed (ac_DevChatID cfg) '''', s))"

definition authMiddleware :: "auth_config \<Rightarrow> (nat \<Rightarrow> bool) \<Rightarrow> gotime \<Rightarrow> string \<Rightarrow> uid_cache \<times> 'z ext_db_scheme \<Rightarrow>
    auth_result \<times> uid_cache \<times> 'z ext_db_scheme" where
  "authMiddleware cfg raced now authHdr s =
    (let bearer = bearerFromAuthHeader authHdr in
     if isExtToken bearer then (Refused 401 ''extension token not valid here'', s)
     else case ac_firebase cfg of
       Some verify \<Rightarrow>
         if bearer \<noteq> '''' then firebase_identity raced now (verify bearer) ''invalid or missing token'' s
         else (Refused 401 ''invalid or missing token'', s)
     | None \<Rightarrow>
         if ac_AuthToken cfg \<noteq> '''' \<and> bearer \<noteq> ac_AuthToken cfg then (Refused 401 ''invalid or missing token'', s)
         else if ac_DevChatID cfg = 0 then (Refused 401 ''no user configured'', s)
         else (Passed (ac_DevChatID cfg) '''', s))"

definition extAuthMiddleware :: "auth_config \<Rightarrow> (nat \<Rightarrow> bool) \<Rightarrow> gotime \<Rightarrow> string \<Rightarrow> uid_cache \<times> 'z ext_db_scheme \<Rightarrow>
    auth_result \<times> uid_cache \<times> 'z ext_db_scheme" where
  "extAuthMiddleware cfg raced now authHdr s =
    (let bearer = bearerFromAuthHeader authHdr in
     if \<not> isExtToken bearer then authMiddleware cfg raced now authHdr s
     else if \<not> ac_ext cfg then (Refused 401 ''extension tokens unavailable'', s)
     else case s of (c, d) \<Rightarrow>
       (case ResolveExtToken now (ac_hash cfg bearer) d of
          (Inl _, d) \<Rightarrow> (Refused 401 ''invalid or revoked extension token'', c, d)
        | (Inr chatID, d) \<Rightarrow> (Passed chatID '''', c, d)))"

subsection \<open>The router\<close>

text \<open>The patterns of the top-level \<open>ServeMux\<close>: subtrees end in a slash, a pattern for GET also takes HEAD, and the more
  specific pattern wins. The paths are clean (the mux redirects others). Without a store of notifications their count is not a route of its own and
  falls to the strict chain.\<close>

datatype chain = GuestChain | CatalogChain | CapabilitiesChain | ExtChain | OptAuthChain | AuthChain

definition is_get :: "string \<Rightarrow> bool" where "is_get method \<longleftrightarrow> method = ''GET'' \<or> method = ''HEAD''"

definition chain_of :: "auth_config \<Rightarrow> string \<Rightarrow> string \<Rightarrow> chain" where
  "chain_of cfg method path =
    (if prefix ''/api/v1/guest/'' path then GuestChain
     else if prefix ''/api/v1/catalog/'' path then CatalogChain
     else if is_get method \<and> path = ''/api/v1/capabilities'' then CapabilitiesChain
     else if is_get method \<and> path = ''/api/v1/ext/searches'' then ExtChain
     else if method = ''POST'' \<and> path = ''/api/v1/ext/ingest'' then ExtChain
     else if is_get method \<and> path \<in> {''/api/v1/me'', ''/api/v1/searches''} then OptAuthChain
     else if ac_notifs cfg \<and> is_get method \<and> path = ''/api/v1/notifications/count'' then OptAuthChain
     else AuthChain)"

text \<open>The identity with which the handler of a route is called.\<close>

definition authenticate :: "auth_config \<Rightarrow> (nat \<Rightarrow> bool) \<Rightarrow> gotime \<Rightarrow> string \<Rightarrow> string \<Rightarrow> string \<Rightarrow> uid_cache \<times> 'z ext_db_scheme \<Rightarrow>
    auth_result \<times> uid_cache \<times> 'z ext_db_scheme" where
  "authenticate cfg raced now method path authHdr s =
    (case chain_of cfg method path of
       ExtChain \<Rightarrow> extAuthMiddleware cfg raced now authHdr s
     | OptAuthChain \<Rightarrow> optionalAuthMiddleware cfg raced now authHdr s
     | AuthChain \<Rightarrow> authMiddleware cfg raced now authHdr s
     | _ \<Rightarrow> (Passed 0 '''', s))"

subsection \<open>Administrators\<close>

definition isAdmin :: "auth_config \<Rightarrow> int \<Rightarrow> string \<Rightarrow> bool" where
  "isAdmin cfg chatID email \<longleftrightarrow>
     (chatID > 0 \<and> ac_AdminChatID cfg \<noteq> 0 \<and> chatID = ac_AdminChatID cfg)
   \<or> (ac_AdminEmail cfg \<noteq> '''' \<and> email \<noteq> '''' \<and> to_lower (trim_space email) = ac_AdminEmail cfg)"

text \<open>The configuration of \<open>New\<close> normalises the email once.\<close>

definition normalize_config :: "auth_config \<Rightarrow> auth_config" where
  "normalize_config cfg = cfg\<lparr>ac_AdminEmail := to_lower (trim_space (ac_AdminEmail cfg))\<rparr>"

subsection \<open>Lemmas\<close>

lemma length_update: "length (AList.update k v xs) \<le> Suc (length xs)"
  by (induction xs) auto

lemma uid_cache_bounded: "length c \<le> uidCacheMaxSize \<Longrightarrow> length (uid_put now uid i c) \<le> uidCacheMaxSize"
  using length_update [of uid "(i, now + uidCacheTTL)" c]
  by (cases "length c \<ge> uidCacheMaxSize") (simp_all add: uid_put_def uidCacheMaxSize_def)

text \<open>An account belongs to a Firebase user.\<close>

definition account_of :: "string \<Rightarrow> int \<Rightarrow> 'z db_scheme \<Rightarrow> bool" where
  "account_of uid chatID d \<longleftrightarrow> (\<exists>u. (chatID, u) \<in> set (db_users d) \<and> u_Channel u = ''web'' \<and> u_ChannelID u = uid)"

definition uid_cache_ok :: "uid_cache \<times> 'z db_scheme \<Rightarrow> bool" where
  "uid_cache_ok s = list_all (\<lambda>(uid, (i, expires)). account_of uid i (snd s)) (fst s)"

lemma account_of_faults [simp]: "account_of uid i (d\<lparr>db_faults := fs\<rparr>) = account_of uid i d"
  by (simp add: account_of_def)

lemma find_SomeD: "find P xs = Some x \<Longrightarrow> x \<in> set xs \<and> P x"
  by (induction xs) (auto split: if_splits)

lemma try_upsert:
  assumes "tryUpsertChannelUser raced channel channelID username off d = (r, d')"
  shows "set (db_users d) \<subseteq> set (db_users d') \<and>
    (\<forall>i. r = Inr i \<longrightarrow> (\<exists>u. (i, u) \<in> set (db_users d') \<and> u_Channel u = channel \<and> u_ChannelID u = channelID))"
proof -
  let ?tx = "channel_tx raced channel channelID username off :: 'a db_scheme \<Rightarrow> _"
  have tx: "set (db_users d) \<subseteq> set (db_users (snd (?tx d))) \<and>
    (\<forall>i. fst (?tx d) = Inr (Some i) \<longrightarrow> (\<exists>u. (i, u) \<in> set (db_users (snd (?tx d))) \<and> u_Channel u = channel \<and> u_ChannelID u = channelID))"
  proof (cases "find (has_channel channel channelID) (db_users d)")
    case None
    let ?u = "new_user (next_user_id off (db_users d)) username channel channelID"
    have "?tx d = (if raced then (Inr None, d) else (Inr (Some (next_user_id off (db_users d))), d\<lparr>db_users := db_users d @ [(next_user_id off (db_users d), ?u)]\<rparr>))"
      using None by (simp add: channel_tx_def Let_def)
    moreover have "u_Channel ?u = channel" "u_ChannelID ?u = channelID" by (simp_all add: new_user_def)
    ultimately show ?thesis by (cases raced) auto
  next
    case (Some x)
    obtain k u where x: "x = (k, u)" by fastforce
    have "?tx d = (Inr (Some k), d)" using Some x by (simp add: channel_tx_def)
    moreover have "(k, u) \<in> set (db_users d) \<and> u_Channel u = channel \<and> u_ChannelID u = channelID"
      using find_SomeD [OF Some] x by (auto simp: has_channel_def)
    ultimately show ?thesis by auto
  qed
  have faults: "?tx (d\<lparr>db_faults := fs\<rparr>) = (fst (?tx d), (snd (?tx d))\<lparr>db_faults := fs\<rparr>)" for fs
    by (simp add: channel_tx_def Let_def split: option.split)
  show ?thesis
  proof (cases rule: db_call_cases [of "DbError ''''" ?tx d])
    case (1 fs)
    then show ?thesis using assms by (auto simp: tryUpsertChannelUser_def)
  next
    case (2 fs)
    have "db_users d' = db_users (snd (?tx d))" "\<forall>i. r = Inr i \<longrightarrow> fst (?tx d) = Inr (Some i)"
      using assms 2 by (auto simp: tryUpsertChannelUser_def faults split: prod.splits sum.splits option.splits)
    then show ?thesis using tx by simp
  qed
qed

lemma upsert_attempts_facts:
  assumes "upsert_attempts n raced channel channelID username off d = (r, d')"
  shows "set (db_users d) \<subseteq> set (db_users d') \<and>
    (\<forall>i. r = Inr i \<longrightarrow> (\<exists>u. (i, u) \<in> set (db_users d') \<and> u_Channel u = channel \<and> u_ChannelID u = channelID))"
  using assms
proof (induction n arbitrary: d)
  case (Suc n)
  obtain q d1 where t: "tryUpsertChannelUser (raced n) channel channelID username off d = (q, d1)" by fastforce
  note try_upsert [OF t]
  then show ?case using Suc.prems Suc.IH [of d1] t by (cases "q = Inl UniqueViolation") (auto split: sum.splits upsert_error.splits)
qed auto

lemma UpsertWebUser_account:
  assumes "UpsertWebUser raced uid email d = (Inr i, d')"
  shows "account_of uid i d'"
  using upsert_attempts_facts assms unfolding UpsertWebUser_def upsertChannelUser_def account_of_def by metis

lemma UpsertWebUser_keeps: "UpsertWebUser raced uid email d = (r, d') \<Longrightarrow> account_of uid' i d \<Longrightarrow> account_of uid' i d'"
  using upsert_attempts_facts unfolding UpsertWebUser_def upsertChannelUser_def account_of_def by (metis subsetD)

text \<open>Resolving keeps the cache true to the table, and answers with the account of the user it was asked for.\<close>

lemma resolve_account:
  assumes "resolveWebUser raced now uid email s = (r, s')" "uid_cache_ok s"
  shows "uid_cache_ok s' \<and> (\<forall>i. r = Inr i \<longrightarrow> account_of uid i (snd s'))"
proof -
  obtain c d where s: "s = (c, d)" by fastforce
  show ?thesis
  proof (cases "uid_get now uid c")
    case (Some i)
    then obtain e where "map_of c uid = Some (i, e)" by (auto simp: uid_get_def split: option.splits if_splits prod.splits)
    then have "(uid, i, e) \<in> set c" by (rule map_of_SomeD)
    then show ?thesis using assms Some by (auto simp: s resolveWebUser_def uid_cache_ok_def list_all_iff)
  next
    case None
    obtain q d1 where u: "UpsertWebUser raced uid email d = (q, d1)" by fastforce
    have kept: "list_all (\<lambda>(uid, (i, expires)). account_of uid i d1) c"
      using assms(2) UpsertWebUser_keeps [OF u] by (auto simp: s uid_cache_ok_def list_all_iff)
    have put: "list_all (\<lambda>(uid, (i, expires)). account_of uid i d1) (uid_put now uid i c)" if "account_of uid i d1" for i
    proof -
      have "set (AList.update uid v xs) \<subseteq> insert (uid, v) (set xs)" for v :: "int \<times> gotime" and xs by (induction xs) auto
      then show ?thesis using kept that by (fastforce simp: uid_put_def list_all_iff)
    qed
    show ?thesis
    proof (cases q)
      case (Inl e)
      then show ?thesis using assms(1) None u kept by (auto simp: s resolveWebUser_def uid_cache_ok_def)
    next
      case (Inr i)
      then have "account_of uid i d1" using UpsertWebUser_account u by blast
      then show ?thesis using assms(1) None u put Inr by (auto simp: s resolveWebUser_def uid_cache_ok_def)
    qed
  qed
qed


lemma firebase_identity_facts:
  assumes "firebase_identity raced now v msg s = (r, s')" "uid_cache_ok s"
  shows "uid_cache_ok s' \<and> (\<forall>c e. r = Passed c e \<longrightarrow> (\<exists>uid. v = Some (uid, e) \<and> account_of uid c (snd s')))"
proof (cases v)
  case None
  then show ?thesis using assms by (auto simp: firebase_identity_def)
next
  case (Some w)
  obtain uid email where w: "w = (uid, email)" by fastforce
  obtain q s1 where q: "resolveWebUser raced now uid email s = (q, s1)" using prod.exhaust by blast
  then show ?thesis using assms(1) Some w resolve_account [OF q assms(2)] by (cases q) (auto simp: firebase_identity_def)
qed

text \<open>What a middleware that resolves Firebase users promises.\<close>

definition vouched :: "auth_config \<Rightarrow> string \<Rightarrow> auth_result \<Rightarrow> uid_cache \<times> 'z ext_db_scheme \<Rightarrow> bool" where
  "vouched cfg authHdr r s' \<longleftrightarrow> (\<forall>c e verify. r = Passed c e \<longrightarrow> c \<noteq> 0 \<longrightarrow> ac_firebase cfg = Some verify \<longrightarrow>
     (\<exists>uid. verify (bearerFromAuthHeader authHdr) = Some (uid, e) \<and> account_of uid c (snd s')))"

lemma authMiddleware_facts:
  assumes "authMiddleware cfg raced now hdr s = (r, s')" "uid_cache_ok s"
  shows "uid_cache_ok s' \<and> vouched cfg hdr r s'"
  using assms firebase_identity_facts [of raced now _ _ s r s']
  by (auto simp: authMiddleware_def Let_def vouched_def split: if_splits option.splits)

lemma optionalAuthMiddleware_facts:
  assumes "optionalAuthMiddleware cfg raced now hdr s = (r, s')" "uid_cache_ok s"
  shows "uid_cache_ok s' \<and> vouched cfg hdr r s'"
  using assms firebase_identity_facts [of raced now _ _ s r s']
  by (auto simp: optionalAuthMiddleware_def Let_def vouched_def split: if_splits option.splits)

lemma ResolveExtToken_users: "db_users (snd (ResolveExtToken now h d)) = db_users d"
  unfolding ResolveExtToken_def by (rule db_call_frame) (auto simp: Let_def split: option.split)

lemma account_of_users: "db_users d' = db_users d \<Longrightarrow> account_of uid i d' = account_of uid i d"
  by (simp add: account_of_def)

lemma extAuthMiddleware_facts:
  assumes "extAuthMiddleware cfg raced now hdr s = (r, s')" "uid_cache_ok s"
  shows "uid_cache_ok s' \<and> (\<not> isExtToken (bearerFromAuthHeader hdr) \<longrightarrow> vouched cfg hdr r s')"
proof (cases "isExtToken (bearerFromAuthHeader hdr) \<and> ac_ext cfg")
  case False
  then show ?thesis using assms authMiddleware_facts [of cfg raced now hdr s r s'] by (auto simp: extAuthMiddleware_def Let_def split: if_splits)
next
  case True
  obtain c d where s: "s = (c, d)" by fastforce
  have "s' = (c, snd (ResolveExtToken now (ac_hash cfg (bearerFromAuthHeader hdr)) d))"
    using assms(1) True by (auto simp: s extAuthMiddleware_def Let_def split: prod.splits sum.splits)
  then show ?thesis using assms(2) True by (simp add: s uid_cache_ok_def account_of_users [OF ResolveExtToken_users])
qed

lemma authenticate_facts:
  assumes "authenticate cfg raced now method path hdr s = (r, s')" "uid_cache_ok s"
  shows "uid_cache_ok s' \<and> (\<not> isExtToken (bearerFromAuthHeader hdr) \<longrightarrow> vouched cfg hdr r s')"
proof (cases "chain_of cfg method path")
  case ExtChain
  then show ?thesis using assms extAuthMiddleware_facts [of cfg raced now hdr s r s'] by (simp add: authenticate_def)
next
  case OptAuthChain
  then show ?thesis using assms optionalAuthMiddleware_facts [of cfg raced now hdr s r s'] by (simp add: authenticate_def)
next
  case AuthChain
  then show ?thesis using assms authMiddleware_facts [of cfg raced now hdr s r s'] by (simp add: authenticate_def)
qed (use assms in \<open>auto simp: authenticate_def vouched_def\<close>)

text \<open>C32. The token of the extension opens the two routes of the extension and nothing else, and there it stands for the
  account it was issued to, as long as it is live.\<close>

theorem ext_token_stays_in_scope:
  assumes "authenticate cfg raced now method path hdr s = (Passed c e, s')" "c \<noteq> 0" "isExtToken (bearerFromAuthHeader hdr)"
  shows "(is_get method \<and> path = ''/api/v1/ext/searches'' \<or> method = ''POST'' \<and> path = ''/api/v1/ext/ingest'') \<and>
    (\<exists>r \<in> set (db_ext_tokens (snd s)). et_Hash r = ac_hash cfg (bearerFromAuthHeader hdr) \<and> live_token now r \<and> et_ChatID r = c)"
proof -
  obtain k d where s: "s = (k, d)" by fastforce
  have chain: "chain_of cfg method path = ExtChain" using assms
    by (auto simp: authenticate_def authMiddleware_def optionalAuthMiddleware_def Let_def split: chain.splits)
  then have route: "is_get method \<and> path = ''/api/v1/ext/searches'' \<or> method = ''POST'' \<and> path = ''/api/v1/ext/ingest''"
    unfolding chain_of_def by (auto split: if_splits)
  have "fst (ResolveExtToken now (ac_hash cfg (bearerFromAuthHeader hdr)) d) = Inr c"
    using assms(1,3) chain by (auto simp: authenticate_def extAuthMiddleware_def Let_def s split: if_splits prod.splits sum.splits)
  from resolved_row [OF this] route show ?thesis by (auto simp: s)
qed

definition sample_auth :: auth_config where
  "sample_auth = \<lparr>ac_firebase = Some (\<lambda>t. if t = ''good'' then Some (''uid1'', ''dana@x.il'') else None), ac_AuthToken = '''', ac_DevChatID = 0,
     ac_AdminChatID = 0, ac_AdminEmail = '''', ac_ext = True, ac_notifs = True, ac_hash = (\<lambda>t. if t = ''cwx_abc'' then ''h'' else '''')\<rparr>"

theorem ext_token_stays_in_scope_witness:
  "\<exists>r \<in> set (db_ext_tokens sample_ext_db). et_Hash r = ''h'' \<and> live_token 1 r \<and> et_ChatID r = 2000000000000"
proof -
  have b: "bearerFromAuthHeader ''Bearer cwx_abc'' = ''cwx_abc''" by code_simp
  obtain s' where a: "authenticate sample_auth (\<lambda>_. False) 1 ''POST'' ''/api/v1/ext/ingest'' ''Bearer cwx_abc'' ([], sample_ext_db) = (Passed 2000000000000 '''', s')"
    using b by (simp add: authenticate_def chain_of_def is_get_def extAuthMiddleware_def isExtToken_def extTokenPrefix_def sample_auth_def
        ResolveExtToken_def sample_ext_db_def db.defs empty_db_def live_token_def extTokenTTL_def hours_def Let_def)
  then have "\<exists>r \<in> set (db_ext_tokens (snd ([] :: uid_cache, sample_ext_db))). et_Hash r = ac_hash sample_auth (bearerFromAuthHeader ''Bearer cwx_abc'') \<and> live_token 1 r \<and> et_ChatID r = 2000000000000"
    using ext_token_stays_in_scope [OF a] b by (simp add: isExtToken_def extTokenPrefix_def)
  then show ?thesis using b by (simp add: sample_auth_def)
qed

end
