(* ===== verification/Admin.thy ===== *)
theory Admin
  imports Auth
begin

section \<open>Administration (internal/api/admin.go, admin_confirm.go, internal/storage/postgres/admin.go)\<close>

text \<open>
  The requests of an administrator that change data: deleting users, searches and listings, emptying tables, and the token
  that confirms the destructive ones. The tokens and the cache of user ids are in memory, the rest in the tables. The
  counts of rows that the replies report, and the tables that the model lacks, are left out.
\<close>

subsection \<open>Confirm tokens\<close>

type_synonym confirm_store = "(int \<times> (string \<times> gotime)) list"

definition confirmTokenTTL :: duration where "confirmTokenTTL = seconds 60"
definition confirmTokenMaxPerIP :: nat where "confirmTokenMaxPerIP = 32"

definition issue :: "gotime \<Rightarrow> string \<Rightarrow> int \<Rightarrow> confirm_store \<Rightarrow> confirm_store" where
  "issue now tok chatID c =
    AList.update chatID (tok, now + confirmTokenTTL)
      (if length c > confirmTokenMaxPerIP then filter (\<lambda>(i, t, expires). \<not> now > expires) c else c)"

definition consume :: "gotime \<Rightarrow> int \<Rightarrow> string \<Rightarrow> confirm_store \<Rightarrow> bool \<times> confirm_store" where
  "consume now chatID tok c =
    (if tok = '''' then (False, c)
     else case map_of c chatID of
       None \<Rightarrow> (False, c)
     | Some (stored, expires) \<Rightarrow> (\<not> now > expires \<and> stored = tok, AList.delete chatID c))"

subsection \<open>The store\<close>

definition purgeable :: "string list" where
  "purgeable = [''listing_history'', ''price_history'', ''seen_listings'', ''listing_user_seen'', ''saved_listings'', ''hidden_listings'',
     ''pending_digest'', ''notification_deliveries'', ''ext_scan_status'']"

definition purge_table :: "string \<Rightarrow> 'z db_scheme \<Rightarrow> 'z db_scheme" where
  "purge_table table d =
    (if table = ''listing_history'' then d\<lparr>db_history := []\<rparr>
     else if table = ''price_history'' then d\<lparr>db_prices := []\<rparr>
     else if table = ''seen_listings'' then d\<lparr>db_seen := []\<rparr>
     else if table = ''saved_listings'' then d\<lparr>db_saved := []\<rparr>
     else if table = ''hidden_listings'' then d\<lparr>db_hidden := []\<rparr>
     else if table = ''pending_digest'' then d\<lparr>db_digest := []\<rparr>
     else if table = ''notification_deliveries'' then d\<lparr>db_deliveries := []\<rparr>
     else d)"

text \<open>None is \<open>ErrNotPurgeable\<close>.\<close>

definition PurgeTable :: "string \<Rightarrow> 'z db_scheme \<Rightarrow> (db_error + unit) option \<times> 'z db_scheme" where
  "PurgeTable table d =
    (if table \<notin> set purgeable then (None, d)
     else case db_call (DbError ''purge'') (\<lambda>d. (Inr (), purge_table table d)) d of (r, d) \<Rightarrow> (Some r, d))"

definition ResetAllData :: "'z db_scheme \<Rightarrow> (db_error + unit) \<times> 'z db_scheme" where
  "ResetAllData = db_call (DbError ''reset'') (\<lambda>d. (Inr (),
     d\<lparr>db_saved := [], db_hidden := [], db_seen := [], db_digest := [], db_deliveries := [], db_history := [], db_prices := [],
       db_pricelist := [], db_link_tokens := []\<rparr>))"

definition AdminDeleteListing :: "string \<Rightarrow> int \<Rightarrow> 'z db_scheme \<Rightarrow> (db_error + unit) \<times> 'z db_scheme" where
  "AdminDeleteListing token chatID = db_call (DbError '''') (\<lambda>d. (Inr (), d\<lparr>db_history := AList.delete (token, chatID) (db_history d)\<rparr>))"

definition AdminDeleteSearch :: "int \<Rightarrow> 'z db_scheme \<Rightarrow> (db_error + unit) \<times> 'z db_scheme" where
  "AdminDeleteSearch sid d =
    (case db_call (DbError ''lookup search'') (\<lambda>d. (case find (\<lambda>s. s_ID s = sid) (db_searches d) of None \<Rightarrow> Inl NotFound | Some s \<Rightarrow> Inr (s_ChatID s), d)) d of
       (Inl e, d) \<Rightarrow> (Inl e, d)
     | (Inr chatID, d) \<Rightarrow> DeleteSearch sid chatID d)"

text \<open>One transaction; the tokens of the extension go by the cascade of their foreign key.\<close>

definition delete_user_rows :: "int \<Rightarrow> 'z ext_db_scheme \<Rightarrow> 'z ext_db_scheme" where
  "delete_user_rows chatID d = d
    \<lparr>db_searches := filter (\<lambda>s. s_ChatID s \<noteq> chatID) (db_searches d),
     db_history := filter (\<lambda>((t, c), r). c \<noteq> chatID) (db_history d),
     db_seen := filter (\<lambda>((t, c, i), r). c \<noteq> chatID) (db_seen d),
     db_saved := filter (\<lambda>(c, t). c \<noteq> chatID) (db_saved d),
     db_hidden := filter (\<lambda>(c, t). c \<noteq> chatID) (db_hidden d),
     db_digest := filter (\<lambda>r. dg_chat r \<noteq> chatID) (db_digest d),
     db_deliveries := filter (\<lambda>r. de_ChatID r \<noteq> chatID) (db_deliveries d),
     db_link_tokens := filter (\<lambda>(t, l). lt_web l \<noteq> chatID) (db_link_tokens d),
     db_users := filter (\<lambda>(c, u). c \<noteq> chatID) (db_users d),
     db_ext_tokens := filter (\<lambda>r. et_ChatID r \<noteq> chatID) (db_ext_tokens d)\<rparr>"

definition AdminDeleteUser :: "int \<Rightarrow> 'z ext_db_scheme \<Rightarrow> (db_error + unit) \<times> 'z ext_db_scheme" where
  "AdminDeleteUser chatID = db_call (DbError ''admin delete user'') (\<lambda>d. (Inr (), delete_user_rows chatID d))"

definition has_active_search :: "'z db_scheme \<Rightarrow> int \<Rightarrow> bool" where
  "has_active_search d c = list_ex (\<lambda>s. s_ChatID s = c \<and> s_Active s) (db_searches d)"

text \<open>Two statements.\<close>

definition SyncUserActiveStatus :: "'z db_scheme \<Rightarrow> (db_error + unit) \<times> 'z db_scheme" where
  "SyncUserActiveStatus d =
    (case db_call (DbError ''activate users with searches'') (\<lambda>d. (Inr (),
         d\<lparr>db_users := map (\<lambda>(c, u). (c, if has_active_search d c then u\<lparr>u_Active := True\<rparr> else u)) (db_users d)\<rparr>)) d of
       (Inl e, d) \<Rightarrow> (Inl e, d)
     | (Inr _, d) \<Rightarrow> db_call (DbError ''deactivate users without searches'') (\<lambda>d. (Inr (),
         d\<lparr>db_users := map (\<lambda>(c, u). (c, if \<not> has_active_search d c then u\<lparr>u_Active := False\<rparr> else u)) (db_users d)\<rparr>)) d)"

subsection \<open>The handlers\<close>

record admin_state =
  ad_confirm :: confirm_store
  ad_cache :: uid_cache
  ad_db :: ext_db

datatype admin_reply = AdminFailed int string | TokenGiven string | Done

definition on_db :: "(ext_db \<Rightarrow> 'r \<times> ext_db) \<Rightarrow> admin_state \<Rightarrow> 'r \<times> admin_state" where
  "on_db f st = (case f (ad_db st) of (r, d) \<Rightarrow> (r, st\<lparr>ad_db := d\<rparr>))"

definition adminConfirmToken :: "gotime \<Rightarrow> string \<Rightarrow> int option \<Rightarrow> admin_state \<Rightarrow> admin_reply \<times> admin_state" where
  "adminConfirmToken now tok ctx st =
    (case chatIDFromContext ctx of
       None \<Rightarrow> (AdminFailed 401 ''invalid user context'', st)
     | Some chatID \<Rightarrow> (TokenGiven tok, st\<lparr>ad_confirm := issue now tok chatID (ad_confirm st)\<rparr>))"

definition requireConfirmToken :: "gotime \<Rightarrow> int option \<Rightarrow> string \<Rightarrow> admin_state \<Rightarrow> admin_reply option \<times> admin_state" where
  "requireConfirmToken now ctx confirmTok st =
    (case chatIDFromContext ctx of
       None \<Rightarrow> (Some (AdminFailed 401 ''invalid user context''), st)
     | Some chatID \<Rightarrow>
         (case consume now chatID confirmTok (ad_confirm st) of (ok, c) \<Rightarrow>
            (if ok then None else Some (AdminFailed 428 ''this action requires a fresh confirm token (GET /api/v1/admin/confirm-token)''),
             st\<lparr>ad_confirm := c\<rparr>)))"

definition adminPurgeTable :: "gotime \<Rightarrow> int option \<Rightarrow> (string \<times> string) option \<Rightarrow> admin_state \<Rightarrow> admin_reply \<times> admin_state" where
  "adminPurgeTable now ctx body st =
    (case body of
       None \<Rightarrow> (AdminFailed 400 ''table is required'', st)
     | Some (table, confirmTok) \<Rightarrow>
         if table = '''' then (AdminFailed 400 ''table is required'', st)
         else case requireConfirmToken now ctx confirmTok st of
           (Some reply, st) \<Rightarrow> (reply, st)
         | (None, st) \<Rightarrow>
             (case on_db (PurgeTable table) st of
                (None, st) \<Rightarrow> (AdminFailed 400 ''purge operation failed'', st)
              | (Some (Inl _), st) \<Rightarrow> (AdminFailed 500 ''purge operation failed'', st)
              | (Some (Inr _), st) \<Rightarrow> (Done, st)))"

definition adminResetAll :: "gotime \<Rightarrow> int option \<Rightarrow> string \<Rightarrow> admin_state \<Rightarrow> admin_reply \<times> admin_state" where
  "adminResetAll now ctx confirmTok st =
    (case requireConfirmToken now ctx confirmTok st of
       (Some reply, st) \<Rightarrow> (reply, st)
     | (None, st) \<Rightarrow>
         (case on_db ResetAllData st of
            (Inl _, st) \<Rightarrow> (AdminFailed 500 ''failed to reset data'', st)
          | (Inr _, st) \<Rightarrow> (Done, st\<lparr>ad_cache := uid_clear (ad_cache st)\<rparr>)))"

definition adminDeleteListing :: "string \<Rightarrow> int option \<Rightarrow> admin_state \<Rightarrow> admin_reply \<times> admin_state" where
  "adminDeleteListing token body st =
    (if token = '''' then (AdminFailed 400 ''token is required'', st)
     else if body = None \<or> body = Some 0 then (AdminFailed 400 ''chat_id is required in body'', st)
     else case on_db (AdminDeleteListing token (the body)) st of
       (Inl _, st) \<Rightarrow> (AdminFailed 500 ''failed to delete listing'', st)
     | (Inr _, st) \<Rightarrow> (Done, st))"

definition adminDeleteSearch :: "int option \<Rightarrow> admin_state \<Rightarrow> admin_reply \<times> admin_state" where
  "adminDeleteSearch path st =
    (case parsePathID path of
       None \<Rightarrow> (AdminFailed 400 ''valid search id is required'', st)
     | Some sid \<Rightarrow>
         (case on_db (AdminDeleteSearch sid) st of
            (Inl NotFound, st) \<Rightarrow> (AdminFailed 404 ''search not found'', st)
          | (Inl _, st) \<Rightarrow> (AdminFailed 500 ''failed to delete search'', st)
          | (Inr _, st) \<Rightarrow> (Done, st)))"

definition adminDeleteUser :: "int option \<Rightarrow> admin_state \<Rightarrow> admin_reply \<times> admin_state" where
  "adminDeleteUser path st =
    (case parsePathID path of
       None \<Rightarrow> (AdminFailed 400 ''valid chat_id is required'', st)
     | Some chatID \<Rightarrow>
         (case on_db (AdminDeleteUser chatID) st of
            (Inl _, st) \<Rightarrow> (AdminFailed 500 ''failed to delete user'', st)
          | (Inr _, st) \<Rightarrow> (Done, st\<lparr>ad_cache := uid_clear (ad_cache st)\<rparr>)))"

definition adminSetUserActive :: "int option \<Rightarrow> bool option \<Rightarrow> admin_state \<Rightarrow> admin_reply \<times> admin_state" where
  "adminSetUserActive path body st =
    (case parsePathID path of
       None \<Rightarrow> (AdminFailed 400 ''valid chat_id is required'', st)
     | Some chatID \<Rightarrow>
         (case body of
            None \<Rightarrow> (AdminFailed 400 ''invalid JSON body'', st)
          | Some active \<Rightarrow>
              (case on_db (SetUserActive chatID active) st of
                 (Inl _, st) \<Rightarrow> (AdminFailed 500 ''failed to update user'', st)
               | (Inr _, st) \<Rightarrow> (Done, st))))"

definition adminSyncUserStatus :: "admin_state \<Rightarrow> admin_reply \<times> admin_state" where
  "adminSyncUserStatus st =
    (case on_db SyncUserActiveStatus st of
       (Inl _, st) \<Rightarrow> (AdminFailed 500 ''failed to sync user status'', st)
     | (Inr _, st) \<Rightarrow> (Done, st))"

datatype admin_call =
    ConfirmCall string | PurgeCall "(string \<times> string) option" | ResetCall string | DropListingCall string "int option"
  | DropSearchCall "int option" | DropUserCall "int option" | ActiveCall "int option" "bool option" | SyncCall

text \<open>A request to a route of \<open>requireAdmin\<close> with its identity.\<close>

definition requireAdmin :: "auth_config \<Rightarrow> int option \<Rightarrow> string \<Rightarrow> (admin_state \<Rightarrow> admin_reply \<times> admin_state) \<Rightarrow> admin_state \<Rightarrow> admin_reply \<times> admin_state" where
  "requireAdmin cfg ctx email next st =
    (if \<not> isAdmin cfg (case chatIDFromContext ctx of Some i \<Rightarrow> i | None \<Rightarrow> 0) email then (AdminFailed 403 ''admin access required'', st)
     else next st)"

fun admin_handler :: "gotime \<Rightarrow> int option \<Rightarrow> admin_call \<Rightarrow> admin_state \<Rightarrow> admin_reply \<times> admin_state" where
  "admin_handler now ctx (ConfirmCall tok) st = adminConfirmToken now tok ctx st"
| "admin_handler now ctx (PurgeCall body) st = adminPurgeTable now ctx body st"
| "admin_handler now ctx (ResetCall tok) st = adminResetAll now ctx tok st"
| "admin_handler now ctx (DropListingCall token body) st = adminDeleteListing token body st"
| "admin_handler now ctx (DropSearchCall path) st = adminDeleteSearch path st"
| "admin_handler now ctx (DropUserCall path) st = adminDeleteUser path st"
| "admin_handler now ctx (ActiveCall path body) st = adminSetUserActive path body st"
| "admin_handler now ctx SyncCall st = adminSyncUserStatus st"

definition admin_serve :: "auth_config \<Rightarrow> gotime \<Rightarrow> int option \<Rightarrow> string \<Rightarrow> admin_call \<Rightarrow> admin_state \<Rightarrow> admin_reply \<times> admin_state" where
  "admin_serve cfg now ctx email call = requireAdmin cfg ctx email (admin_handler now ctx call)"


subsection \<open>A deleted account's number\<close>

text \<open>The next number is at least the offset, above every number from there on, and otherwise as small as can be.\<close>

lemma next_user_id_spec:
  "off \<le> next_user_id off us" "c \<in> fst ` set us \<Longrightarrow> off \<le> c \<Longrightarrow> c < next_user_id off us"
  "next_user_id off us = off \<or> next_user_id off us - 1 \<in> fst ` set us"
proof -
  let ?cs = "filter (\<lambda>c. c \<ge> off) (map fst us)"
  have "off \<le> next_user_id off us \<and> (\<forall>c \<in> set ?cs. c < next_user_id off us) \<and>
    (next_user_id off us = off \<or> next_user_id off us - 1 \<in> set ?cs)"
  proof (cases ?cs)
    case Nil
    then have "next_user_id off us = off" by (simp only: next_user_id_def list.case)
    then show ?thesis unfolding Nil by simp
  next
    case (Cons c cs)
    have "next_user_id off us = fold max cs c + 1" by (simp only: next_user_id_def Cons list.case)
    then have m: "next_user_id off us = Max (set ?cs) + 1" unfolding Cons by (simp only: Max.set_eq_fold)
    have "Max (set ?cs) \<in> set ?cs" using Cons by (intro Max_in) (simp_all only: finite_set set_empty, simp)
    moreover have "\<forall>c \<in> set ?cs. c \<le> Max (set ?cs)" by simp
    ultimately show ?thesis using m by auto
  qed
  then show "off \<le> next_user_id off us" "c \<in> fst ` set us \<Longrightarrow> off \<le> c \<Longrightarrow> c < next_user_id off us"
    "next_user_id off us = off \<or> next_user_id off us - 1 \<in> fst ` set us" by auto
qed

lemma freed_number:
  assumes "off \<le> w"
  shows "next_user_id off (filter (\<lambda>(c, u). c \<noteq> w) us) = w \<longleftrightarrow> (\<forall>c \<in> fst ` set us. c \<le> w) \<and> (w = off \<or> w - 1 \<in> fst ` set us)"
proof -
  let ?us = "filter (\<lambda>(c, u). c \<noteq> w) us"
  define n where "n = next_user_id off ?us"
  have ids: "fst ` set ?us = fst ` set us - {w}" by force
  note N = next_user_id_spec [where off = off and us = ?us, folded n_def, unfolded ids]
  show ?thesis
  proof
    assume "next_user_id off ?us = w"
    then have w: "n = w" by (simp add: n_def)
    have "c \<le> w" if "c \<in> fst ` set us" for c
      using N(2) [of c] that assms w by (cases "c = w"; cases "off \<le> c") auto
    then show "(\<forall>c \<in> fst ` set us. c \<le> w) \<and> (w = off \<or> w - 1 \<in> fst ` set us)" using N(3) w by auto
  next
    assume top: "(\<forall>c \<in> fst ` set us. c \<le> w) \<and> (w = off \<or> w - 1 \<in> fst ` set us)"
    have "n \<le> w" using N(3) top assms by force
    moreover have "w \<le> n" using N(1) N(2) [of "w - 1"] top assms by (cases "w = off") auto
    ultimately show "next_user_id off ?us = w" by (simp add: n_def)
  qed
qed

lemma find_filter_append: "find P xs = Some x \<Longrightarrow> Q x \<Longrightarrow> find P (filter Q xs @ ys) = Some x"
  by (induction xs) (auto split: if_splits)

lemma acting_linked:
  assumes "acting sv (Some w) d = Some tg" "tg \<noteq> w" "db_faults d = []"
  obtains k u where "find (\<lambda>(c, u). u_LinkedWebID u = Some w \<and> u_Channel u = ''telegram'' \<and> u_Active u) (db_users d) = Some (k, u)"
    "u_ChatID u = tg" "ssv_users sv" "w > 0"
  using assms
  by (auto simp: acting_def requireResolvedChatID_def resolveCanonicalChatID_def GetLinkedTelegramUser_def chatIDFromContext_def split_beta
      split: if_splits option.splits)

lemma fresh_web_user:
  assumes "UpsertWebUser (\<lambda>_. False) uid email d = (Inr i, d')" "db_faults d = []" "find (has_channel ''web'' uid) (db_users d) = None"
  shows "i = next_user_id webIDOffset (db_users d)" "db_users d' = db_users d @ [(i, new_user i email ''web'' uid)]" "db_faults d' = []"
  using assms
  by (auto simp: UpsertWebUser_def upsertChannelUser_def numeral_eq_Suc tryUpsertChannelUser_def channel_tx_def Let_def
      split: if_splits)

text \<open>C33. Deleting a web account that is linked to a Telegram account does not undo the link. When no store call fails
  and nobody signs in at the same moment, the next new user is given the number of the deleted account exactly if
  that was the highest number of all accounts and the number before it is in use, or it was the first number of a
  web account; and this stranger then acts for the Telegram account of the deleted user. The number of an older
  account is not given out again.\<close>

theorem deleted_account_is_inherited:
  assumes "acting sv (Some w) d = Some tg" "tg \<noteq> w" "db_faults d = []"
    and "webIDOffset \<le> w" "\<forall>(c, u) \<in> set (db_users d). c = w \<longrightarrow> u_Channel u = ''web''"
    and "AdminDeleteUser w d = (Inr (), d1)"
    and "find (has_channel ''web'' stranger) (db_users d) = None" "UpsertWebUser (\<lambda>_. False) stranger email d1 = (Inr i, d2)"
  shows "(i = w \<longleftrightarrow> (\<forall>c \<in> fst ` set (db_users d). c \<le> w) \<and> (w = webIDOffset \<or> w - 1 \<in> fst ` set (db_users d)))
    \<and> (i = w \<longrightarrow> acting sv (Some i) d2 = Some tg)"
proof -
  let ?link = "\<lambda>(c, u). u_LinkedWebID u = Some w \<and> u_Channel u = ''telegram'' \<and> u_Active u"
  obtain k u where l: "find ?link (db_users d) = Some (k, u)" "u_ChatID u = tg" "ssv_users sv" "w > 0"
    using acting_linked [OF assms(1-3)] by blast
  have d1: "db_users d1 = filter (\<lambda>(c, u). c \<noteq> w) (db_users d)" "db_faults d1 = []"
    using assms(3,6) by (auto simp: AdminDeleteUser_def delete_user_rows_def)
  have "find (has_channel ''web'' stranger) (db_users d1) = None" using assms(7) by (auto simp: d1 find_None_iff)
  note fresh = fresh_web_user [OF assms(8) d1(2) this]
  have i: "i = w \<longleftrightarrow> (\<forall>c \<in> fst ` set (db_users d). c \<le> w) \<and> (w = webIDOffset \<or> w - 1 \<in> fst ` set (db_users d))"
    using freed_number [OF assms(4)] by (simp only: fresh(1) d1)
  have "(k, u) \<in> set (db_users d)" "u_Channel u = ''telegram''" using find_SomeD [OF l(1)] by auto
  then have "k \<noteq> w" using assms(5) by fastforce
  then have "find ?link (db_users d2) = Some (k, u)" unfolding fresh(2) d1 by (intro find_filter_append [OF l(1)]) simp
  then have "i = w \<Longrightarrow> acting sv (Some i) d2 = Some tg" using l fresh(3)
    by (simp add: acting_def requireResolvedChatID_def resolveCanonicalChatID_def GetLinkedTelegramUser_def chatIDFromContext_def)
  with i show ?thesis by blast
qed

theorem deleted_account_is_inherited_witness:
  "acting sample_server (Some 2000000000000) (snd (UpsertWebUser (\<lambda>_. False) ''uid9'' ''eve@x.il'' (snd (AdminDeleteUser 2000000000000 sample_ext_db)))) = Some 7"
proof -
  let ?d1 = "snd (AdminDeleteUser 2000000000000 sample_ext_db)"
  have f: "db_faults sample_ext_db = []" by (simp add: sample_ext_db_def empty_db_def db.defs)
  then have r1: "AdminDeleteUser 2000000000000 sample_ext_db = (Inr (), ?d1)" by (simp add: AdminDeleteUser_def)
  have u: "db_users sample_ext_db = [(2000000000000, new_user 2000000000000 ''dana'' ''web'' ''uid1''),
     (7, (new_user 7 ''dana'' ''telegram'' ''7'')\<lparr>u_LinkedWebID := Some 2000000000000\<rparr>)]"
    by (simp add: sample_ext_db_def empty_db_def db.defs)
  have r2: "UpsertWebUser (\<lambda>_. False) ''uid9'' ''eve@x.il'' ?d1 = (Inr 2000000000000, snd (UpsertWebUser (\<lambda>_. False) ''uid9'' ''eve@x.il'' ?d1))"
    using f by (simp add: AdminDeleteUser_def delete_user_rows_def u UpsertWebUser_def upsertChannelUser_def numeral_eq_Suc
      tryUpsertChannelUser_def channel_tx_def has_channel_def new_user_def next_user_id_def webIDOffset_def Let_def)
  show ?thesis
    using deleted_account_is_inherited [OF _ _ f _ _ r1 _ r2, of sample_server 7]
    by (simp add: u f webIDOffset_def acting_def requireResolvedChatID_def resolveCanonicalChatID_def GetLinkedTelegramUser_def
        chatIDFromContext_def sample_server_def has_channel_def new_user_def)
qed


subsection \<open>Confirm tokens are spent\<close>

definition destructive :: "admin_call \<Rightarrow> bool" where
  "destructive call = (case call of PurgeCall _ \<Rightarrow> True | ResetCall _ \<Rightarrow> True | _ \<Rightarrow> False)"

type_synonym admin_request = "gotime \<times> int option \<times> string \<times> admin_call"

fun admin_run :: "auth_config \<Rightarrow> admin_request list \<Rightarrow> admin_state \<Rightarrow> (admin_request \<times> admin_reply) list \<times> admin_state" where
  "admin_run cfg [] st = ([], st)"
| "admin_run cfg (q # qs) st =
    (case q of (now, ctx, email, call) \<Rightarrow>
     case admin_serve cfg now ctx email call st of (r, st) \<Rightarrow>
     case admin_run cfg qs st of (rs, st) \<Rightarrow> ((q, r) # rs, st))"

text \<open>The destructive requests of a chat that were carried out, and the tokens it was given.\<close>

fun carried_out :: "int \<Rightarrow> admin_request \<times> admin_reply \<Rightarrow> bool" where
  "carried_out chatID ((now, ctx, email, call), r) \<longleftrightarrow> ctx = Some chatID \<and> destructive call \<and> r = Done"

fun token_given :: "int \<Rightarrow> admin_request \<times> admin_reply \<Rightarrow> bool" where
  "token_given chatID ((now, ctx, email, call), r) \<longleftrightarrow> ctx = Some chatID \<and> (\<exists>tok. r = TokenGiven tok)"

definition held :: "int \<Rightarrow> admin_state \<Rightarrow> nat" where
  "held chatID st = of_bool (chatID \<in> fst ` set (ad_confirm st))"

lemma held_cong: "ad_confirm st' = ad_confirm st \<Longrightarrow> held c st' = held c st"
  by (simp add: held_def)

lemma on_db_snd [simp]: "ad_confirm (snd (on_db f st)) = ad_confirm st"
  by (simp add: on_db_def split_beta)

lemma on_db_confirm: "on_db f st = (r, st') \<Longrightarrow> ad_confirm st' = ad_confirm st"
  using on_db_snd [of f st] by simp

lemma confirm_burned:
  assumes "consume now i tok c = (ok, c')"
  shows "fst ` set c' \<subseteq> fst ` set c \<and> (ok \<longrightarrow> i \<in> fst ` set c \<and> i \<notin> fst ` set c')"
proof (cases "map_of c i")
  case (Some p)
  then have "i \<in> fst ` set c" by (metis map_of_eq_None_iff option.distinct(1))
  then show ?thesis using assms Some dom_delete_subset [of i c] delete_notin_dom [of i c]
    by (auto simp: consume_def split: if_splits prod.splits)
qed (use assms in \<open>auto simp: consume_def split: if_splits\<close>)

lemma requireConfirmToken_spends:
  assumes "requireConfirmToken now ctx tok st = (r, st')"
  shows "held c st' \<le> held c st \<and> (r = None \<longrightarrow> ctx = Some c \<longrightarrow> held c st = 1 \<and> held c st' = 0) \<and> r \<noteq> Some Done \<and> (\<forall>t. r \<noteq> Some (TokenGiven t))"
proof (cases "chatIDFromContext ctx")
  case (Some i)
  then have ctx: "ctx = Some i" by (auto simp: chatIDFromContext_def split: option.splits if_splits)
  obtain ok c' where k: "consume now i tok (ad_confirm st) = (ok, c')" by fastforce
  define K where "K = fst ` set (ad_confirm st)"
  define K' where "K' = fst ` set c'"
  have spent: "K' \<subseteq> K" "ok \<Longrightarrow> i \<in> K" "ok \<Longrightarrow> i \<notin> K'" using confirm_burned [OF k] by (simp_all add: K_def K'_def)
  have "st' = st\<lparr>ad_confirm := c'\<rparr>" "r = None \<longleftrightarrow> ok" "r \<noteq> Some Done" "\<forall>t. r \<noteq> Some (TokenGiven t)"
    using assms Some ctx k by (auto simp: requireConfirmToken_def split: if_splits)
  moreover from this(1) have "held c st' = of_bool (c \<in> K')" "held c st = of_bool (c \<in> K)" by (simp_all add: held_def K_def K'_def)
  ultimately show ?thesis using spent ctx by auto
qed (use assms in \<open>auto simp: requireConfirmToken_def\<close>)

lemma destructive_spends:
  assumes "admin_handler now ctx call st = (r, st')" "destructive call"
  shows "of_bool (ctx = Some c \<and> r = Done) + held c st' \<le> held c st \<and> (\<forall>t. r \<noteq> TokenGiven t)"
proof (cases call)
  case (PurgeCall body)
  then show ?thesis
  proof (cases "body = None \<or> fst (the body) = []")
    case True
    then show ?thesis using assms(1) PurgeCall by (cases body) (auto simp: adminPurgeTable_def split: if_splits prod.splits)
  next
    case False
    then obtain table tok where b: "body = Some (table, tok)" "table \<noteq> []" by auto
    obtain q s1 where q: "requireConfirmToken now ctx tok st = (q, s1)" by fastforce
    obtain p s2 where p: "on_db (PurgeTable table) s1 = (p, s2)" by fastforce
    show ?thesis using assms(1) PurgeCall b q p requireConfirmToken_spends [OF q, of c] held_cong [OF on_db_confirm [OF p], of c]
      by (auto simp: adminPurgeTable_def split: option.splits sum.splits)
  qed
next
  case (ResetCall tok)
  obtain q s1 where q: "requireConfirmToken now ctx tok st = (q, s1)" by fastforce
  obtain p s2 where p: "on_db ResetAllData s1 = (p, s2)" by fastforce
  have "held c (s2\<lparr>ad_cache := uid_clear (ad_cache s2)\<rparr>) = held c s1" using on_db_confirm [OF p] by (simp add: held_def)
  then show ?thesis using assms(1) ResetCall q p requireConfirmToken_spends [OF q, of c] held_cong [OF on_db_confirm [OF p], of c]
    by (auto simp: adminResetAll_def split: option.splits sum.splits)
qed (use assms in \<open>simp_all add: destructive_def\<close>)

lemma issue_keys: "fst ` set (issue now tok i c) \<subseteq> insert i (fst ` set c)"
  by (auto simp: issue_def dom_update)

lemma harmless_keeps:
  assumes "admin_handler now ctx call st = (r, st')" "\<not> destructive call"
  shows "held c st' \<le> of_bool (ctx = Some c \<and> (\<exists>t. r = TokenGiven t)) + held c st"
proof (cases call)
  case (ConfirmCall tok)
  show ?thesis
  proof (cases "chatIDFromContext ctx")
    case None
    then show ?thesis using assms(1) ConfirmCall by (auto simp: adminConfirmToken_def)
  next
    case (Some i)
    define K where "K = fst ` set (ad_confirm st)"
    define K' where "K' = fst ` set (issue now tok i (ad_confirm st))"
    have "K' \<subseteq> insert i K" "ctx = Some i" using issue_keys Some by (auto simp: K_def K'_def chatIDFromContext_def split: option.splits if_splits)
    moreover have "r = TokenGiven tok" "held c st' = of_bool (c \<in> K')" "held c st = of_bool (c \<in> K)"
      using assms(1) ConfirmCall Some by (auto simp: adminConfirmToken_def held_def K_def K'_def)
    ultimately show ?thesis by auto
  qed
next
  case (DropListingCall token body)
  then have "ad_confirm st' = ad_confirm (snd (adminDeleteListing token body st))" using assms(1) by simp
  also have "\<dots> = ad_confirm st" by (simp add: adminDeleteListing_def case_prod_beta split: sum.split)
  finally show ?thesis by (simp add: held_cong [of st' st])
next
  case (DropSearchCall path)
  then have "ad_confirm st' = ad_confirm (snd (adminDeleteSearch path st))" using assms(1) by simp
  also have "\<dots> = ad_confirm st" by (simp add: adminDeleteSearch_def case_prod_beta split: option.split sum.split db_error.split)
  finally show ?thesis by (simp add: held_cong [of st' st])
next
  case (DropUserCall path)
  then have "ad_confirm st' = ad_confirm (snd (adminDeleteUser path st))" using assms(1) by simp
  also have "\<dots> = ad_confirm st" by (simp add: adminDeleteUser_def case_prod_beta split: option.split sum.split)
  finally show ?thesis by (simp add: held_cong [of st' st])
next
  case (ActiveCall path body)
  then have "ad_confirm st' = ad_confirm (snd (adminSetUserActive path body st))" using assms(1) by simp
  also have "\<dots> = ad_confirm st" by (simp add: adminSetUserActive_def case_prod_beta split: option.split sum.split)
  finally show ?thesis by (simp add: held_cong [of st' st])
next
  case SyncCall
  then have "ad_confirm st' = ad_confirm (snd (adminSyncUserStatus st))" using assms(1) by simp
  also have "\<dots> = ad_confirm st" by (simp add: adminSyncUserStatus_def case_prod_beta split: sum.split)
  finally show ?thesis by (simp add: held_cong [of st' st])
qed (use assms in \<open>simp_all add: destructive_def\<close>)

lemma admin_serve_spends:
  assumes "admin_serve cfg now ctx email call st = (r, st')"
  shows "of_bool (carried_out c ((now, ctx, email, call), r)) + held c st' \<le> of_bool (token_given c ((now, ctx, email, call), r)) + held c st"
proof (cases "admin_handler now ctx call st = (r, st')")
  case True
  then show ?thesis using destructive_spends [OF True, of c] harmless_keeps [OF True, of c] by (cases "destructive call") auto
next
  case False
  then have "r = AdminFailed 403 ''admin access required''" "st' = st"
    using assms by (auto simp: admin_serve_def requireAdmin_def split: if_splits)
  then show ?thesis by simp
qed

lemma admin_run_spends:
  "admin_run cfg qs st = (rs, st') \<Longrightarrow>
    length (filter (carried_out c) rs) + held c st' \<le> length (filter (token_given c) rs) + held c st"
proof (induction qs arbitrary: st rs)
  case (Cons q qs)
  obtain now ctx email call where q: "q = (now, ctx, email, call)" by (metis surj_pair)
  obtain r s1 where r: "admin_serve cfg now ctx email call st = (r, s1)" by fastforce
  obtain rs1 s2 where rs: "admin_run cfg qs s1 = (rs1, s2)" by fastforce
  have "rs = (q, r) # rs1" "st' = s2" using Cons.prems q r rs by auto
  then show ?case using Cons.IH [of s1 rs1] rs admin_serve_spends [OF r, of c] q by (auto split: if_splits)
qed simp

text \<open>Of any sequence of administrative requests, at most as many purges and resets of a chat are carried out as it was given
  confirm tokens: a token confirms one action, and a request without one does nothing.\<close>

lemma destructive_actions_are_confirmed:
  "ad_confirm st = [] \<Longrightarrow>
    length (filter (carried_out c) (fst (admin_run cfg qs st))) \<le> length (filter (token_given c) (fst (admin_run cfg qs st)))"
  using admin_run_spends [of cfg qs st "fst (admin_run cfg qs st)" "snd (admin_run cfg qs st)" c] by (simp add: held_def)

text \<open>Twice the same token: the second reset is refused.\<close>

definition sample_admin :: "admin_request list" where
  "sample_admin = [(1, Some 9, '''', ConfirmCall ''t''), (2, Some 9, '''', ResetCall ''t''), (3, Some 9, '''', ResetCall ''t'')]"

lemma sample_admin_run:
  "map snd (fst (admin_run (sample_auth\<lparr>ac_AdminChatID := 9\<rparr>) sample_admin \<lparr>ad_confirm = [], ad_cache = [], ad_db = sample_ext_db\<rparr>)) =
    [TokenGiven ''t'', Done, AdminFailed 428 ''this action requires a fresh confirm token (GET /api/v1/admin/confirm-token)'']"
  by (simp add: sample_admin_def admin_serve_def requireAdmin_def isAdmin_def sample_auth_def chatIDFromContext_def adminConfirmToken_def
      issue_def confirmTokenMaxPerIP_def confirmTokenTTL_def adminResetAll_def requireConfirmToken_def consume_def on_db_def
      ResetAllData_def sample_ext_db_def empty_db_def db.defs seconds_def)

lemma destructive_actions_are_confirmed_witness:
  "length (filter (carried_out 9) (fst (admin_run (sample_auth\<lparr>ac_AdminChatID := 9\<rparr>) sample_admin \<lparr>ad_confirm = [], ad_cache = [], ad_db = sample_ext_db\<rparr>)))
    \<le> length (filter (token_given 9) (fst (admin_run (sample_auth\<lparr>ac_AdminChatID := 9\<rparr>) sample_admin \<lparr>ad_confirm = [], ad_cache = [], ad_db = sample_ext_db\<rparr>)))"
  by (rule destructive_actions_are_confirmed) simp


subsection \<open>Deleting accounts and the cache\<close>

definition accounts_kept :: "'z db_scheme \<Rightarrow> 'z db_scheme \<Rightarrow> bool" where
  "accounts_kept d d' \<longleftrightarrow> (\<forall>uid i. account_of uid i d \<longrightarrow> account_of uid i d')"

lemma accounts_kept_users: "db_users d' = db_users d \<Longrightarrow> accounts_kept d d'"
  by (simp add: accounts_kept_def account_of_def)

lemma accounts_kept_mapped:
  assumes "db_users d' = map (\<lambda>(c, u). (c, g c u)) (db_users d)" "\<And>c u. u_Channel (g c u) = u_Channel u" "\<And>c u. u_ChannelID (g c u) = u_ChannelID u"
  shows "accounts_kept d d'"
  using assms by (fastforce simp: accounts_kept_def account_of_def)

lemma accounts_kept_trans: "accounts_kept d d1 \<Longrightarrow> accounts_kept d1 d2 \<Longrightarrow> accounts_kept d d2"
  by (simp add: accounts_kept_def)

lemma accounts_kept_faults [simp]: "accounts_kept d (d\<lparr>db_faults := fs\<rparr>)" "accounts_kept (d\<lparr>db_faults := fs\<rparr>) d' = accounts_kept d d'"
  by (simp_all add: accounts_kept_def)

lemma db_call_accounts: "(\<And>fs. accounts_kept d (snd (f (d\<lparr>db_faults := fs\<rparr>)))) \<Longrightarrow> accounts_kept d (snd (db_call err f d))"
  by (rule db_call_inv) simp_all

lemma cache_ok_kept: "uid_cache_ok (c, d) \<Longrightarrow> accounts_kept d d' \<Longrightarrow> uid_cache_ok (c, d')"
  by (fastforce simp: uid_cache_ok_def accounts_kept_def list_all_iff)

lemma purge_accounts: "accounts_kept d (snd (PurgeTable table d))"
proof -
  have "accounts_kept d (snd (db_call (DbError ''purge'') (\<lambda>d. (Inr (), purge_table table d)) d))"
    by (intro db_call_accounts accounts_kept_users) (simp add: purge_table_def)
  then show ?thesis by (simp add: PurgeTable_def split_beta accounts_kept_users)
qed

lemma reset_accounts: "accounts_kept d (snd (ResetAllData d))"
  unfolding ResetAllData_def by (intro db_call_accounts accounts_kept_users) simp

lemma delete_listing_accounts: "accounts_kept d (snd (AdminDeleteListing token c d))"
  unfolding AdminDeleteListing_def by (intro db_call_accounts accounts_kept_users) simp

lemma set_active_accounts: "accounts_kept d (snd (SetUserActive c a d))"
  unfolding SetUserActive_def
  by (intro db_call_accounts accounts_kept_mapped [where g = "\<lambda>k u. if k = c then u\<lparr>u_Active := a\<rparr> else u"]) (auto simp: update_user_def)

lemma sync_accounts: "accounts_kept d (snd (SyncUserActiveStatus d))"
proof -
  have step: "accounts_kept d (snd (db_call err (\<lambda>d. (Inr (), d\<lparr>db_users := map (\<lambda>(c, u). (c, if P d c then u\<lparr>u_Active := a\<rparr> else u)) (db_users d)\<rparr>)) d))"
    for err a d and P :: "'a db_scheme \<Rightarrow> int \<Rightarrow> bool"
  proof (rule db_call_accounts)
    show "accounts_kept d (snd (Inr (), d\<lparr>db_faults := fs, db_users := map (\<lambda>(c, u). (c, if P (d\<lparr>db_faults := fs\<rparr>) c then u\<lparr>u_Active := a\<rparr> else u)) (db_users (d\<lparr>db_faults := fs\<rparr>))\<rparr>))" for fs
      by (rule accounts_kept_mapped [where g = "\<lambda>c u. if P (d\<lparr>db_faults := fs\<rparr>) c then u\<lparr>u_Active := a\<rparr> else u"]) simp_all
  qed
  show ?thesis unfolding SyncUserActiveStatus_def
    using step [of d _ has_active_search True] step [of _ _ "\<lambda>d c. \<not> has_active_search d c" False]
    by (auto split: prod.split sum.split intro: accounts_kept_trans simp: prod_eq_iff)
qed

lemma delete_search_accounts: "accounts_kept d (snd (AdminDeleteSearch sid d))"
proof -
  let ?look = "db_call (DbError ''lookup search'') (\<lambda>d. (case find (\<lambda>s. s_ID s = sid) (db_searches d) of None \<Rightarrow> Inl NotFound | Some s \<Rightarrow> Inr (s_ChatID s), d)) d"
  have look: "accounts_kept d (snd ?look)" by (intro db_call_accounts) simp
  have del: "accounts_kept d (snd (DeleteSearch sid c d))" for c and d :: "'a db_scheme"
    unfolding DeleteSearch_def by (intro db_call_accounts accounts_kept_users) simp
  show ?thesis unfolding AdminDeleteSearch_def
    using look accounts_kept_trans [OF look del] by (simp add: split_beta split: sum.split)
qed

lemma on_db_parts: "ad_cache (snd (on_db f st)) = ad_cache st" "ad_db (snd (on_db f st)) = snd (f (ad_db st))" "fst (on_db f st) = fst (f (ad_db st))"
  by (simp_all add: on_db_def split_beta)

definition true_cache :: "admin_state \<Rightarrow> bool" where
  "true_cache st = uid_cache_ok (ad_cache st, ad_db st)"

lemma on_db_cache: "true_cache st \<Longrightarrow> accounts_kept (ad_db st) (snd (f (ad_db st))) \<Longrightarrow> true_cache (snd (on_db f st))"
  by (simp add: true_cache_def on_db_parts cache_ok_kept)

lemma cleared_cache [simp]: "true_cache (st\<lparr>ad_cache := uid_clear c\<rparr>)"
  by (simp add: true_cache_def uid_cache_ok_def uid_clear_def)

lemma confirm_cache [simp]: "true_cache (st\<lparr>ad_confirm := c\<rparr>) = true_cache st"
  by (simp add: true_cache_def)

lemma requireConfirmToken_cache: "true_cache st \<Longrightarrow> true_cache (snd (requireConfirmToken now ctx tok st))"
  by (simp add: requireConfirmToken_def split_beta split: option.split)

lemma admin_handler_cache:
  assumes "true_cache st"
  shows "true_cache (snd (admin_handler now ctx call st))"
proof (cases call)
  case (ConfirmCall tok)
  then show ?thesis using assms by (simp add: adminConfirmToken_def split: option.split)
next
  case (PurgeCall body)
  have "true_cache (snd (on_db (PurgeTable table) (snd (requireConfirmToken now ctx tok st))))" for table tok
    by (intro on_db_cache requireConfirmToken_cache purge_accounts assms)
  then show ?thesis using assms PurgeCall requireConfirmToken_cache [OF assms, of now ctx]
    by (simp add: adminPurgeTable_def split_beta split: option.split sum.split)
next
  case (ResetCall tok)
  have "true_cache (snd (on_db ResetAllData (snd (requireConfirmToken now ctx tok st))))"
    by (intro on_db_cache requireConfirmToken_cache reset_accounts assms)
  then show ?thesis using ResetCall requireConfirmToken_cache [OF assms, of now ctx]
    by (simp add: adminResetAll_def split_beta split: option.split sum.split)
next
  case (DropListingCall token body)
  have "true_cache (snd (on_db (AdminDeleteListing t c) st))" for t c
    by (intro on_db_cache delete_listing_accounts assms)
  then show ?thesis using assms DropListingCall
    by (simp add: adminDeleteListing_def split_beta split: sum.split)
next
  case (DropSearchCall path)
  have "true_cache (snd (on_db (AdminDeleteSearch i) st))" for i
    by (intro on_db_cache delete_search_accounts assms)
  then show ?thesis using assms DropSearchCall
    by (simp add: adminDeleteSearch_def split_beta split: option.split sum.split db_error.split)
next
  case (DropUserCall path)
  have "true_cache (snd (on_db (AdminDeleteUser c) st))" if "fst (on_db (AdminDeleteUser c) st) = Inl e" for c e
  proof -
    have "accounts_kept (ad_db st) (snd (AdminDeleteUser c (ad_db st)))" using that
      by (cases rule: db_call_cases [of "DbError ''admin delete user''" "\<lambda>d. (Inr (), delete_user_rows c d)" "ad_db st"])
        (simp_all add: on_db_parts AdminDeleteUser_def)
    then show ?thesis by (rule on_db_cache [OF assms])
  qed
  then show ?thesis using assms DropUserCall by (simp add: adminDeleteUser_def split_beta split: option.split sum.split)
next
  case (ActiveCall path body)
  have "true_cache (snd (on_db (SetUserActive c a) st))" for c a
    by (intro on_db_cache set_active_accounts assms)
  then show ?thesis using assms ActiveCall
    by (simp add: adminSetUserActive_def split_beta split: option.split sum.split)
next
  case SyncCall
  have "true_cache (snd (on_db (SyncUserActiveStatus) st))"
    by (intro on_db_cache sync_accounts assms)
  then show ?thesis using assms SyncCall
    by (simp add: adminSyncUserStatus_def split_beta split: sum.split)
qed

text \<open>The requests that a server answers one after another: signing in, and administration.\<close>

datatype web_event = SignIn "nat \<Rightarrow> bool" gotime string string string | Administer gotime "int option" string admin_call

fun web_step :: "auth_config \<Rightarrow> web_event \<Rightarrow> admin_state \<Rightarrow> admin_state" where
  "web_step cfg (SignIn raced now method path hdr) st =
    (case authenticate cfg raced now method path hdr (ad_cache st, ad_db st) of (r, c, d) \<Rightarrow> st\<lparr>ad_cache := c, ad_db := d\<rparr>)"
| "web_step cfg (Administer now ctx email call) st = snd (admin_serve cfg now ctx email call st)"

lemma web_step_cache:
  assumes "true_cache st"
  shows "true_cache (web_step cfg ev st)"
proof (cases ev)
  case (SignIn raced now verb path hdr)
  obtain r c d where a: "authenticate cfg raced now verb path hdr (ad_cache st, ad_db st) = (r, c, d)" using prod.exhaust by metis
  then show ?thesis using SignIn authenticate_facts [OF a] assms by (simp add: true_cache_def)
next
  case (Administer now ctx email call)
  then show ?thesis using admin_handler_cache [OF assms] assms by (simp add: admin_serve_def requireAdmin_def)
qed

lemma web_run_cache: "true_cache st \<Longrightarrow> true_cache (fold (web_step cfg) evs st)"
  by (induction evs arbitrary: st) (simp_all add: web_step_cache)

text \<open>C34. Whatever requests came before, in whatever order, a request that is let through with a Firebase token acts as an account of
  that Firebase user which is in the table: the cache of user ids never gives out a deleted account, nor that of another user.\<close>

theorem signed_in_as_oneself:
  assumes "ad_cache st0 = []" "st = fold (web_step cfg) evs st0"
    and "authenticate cfg raced now method path hdr (ad_cache st, ad_db st) = (Passed chatID email, c, d)"
    and "chatID \<noteq> 0" "\<not> isExtToken (bearerFromAuthHeader hdr)" "ac_firebase cfg = Some verify"
  shows "\<exists>uid u. verify (bearerFromAuthHeader hdr) = Some (uid, email) \<and> (chatID, u) \<in> set (db_users d) \<and>
    u_Channel u = ''web'' \<and> u_ChannelID u = uid"
proof -
  have "true_cache st0" using assms(1) by (simp add: true_cache_def uid_cache_ok_def)
  then have "uid_cache_ok (ad_cache st, ad_db st)" using web_run_cache assms(2) unfolding true_cache_def by metis
  then have "vouched cfg hdr (Passed chatID email) (c, d)" using authenticate_facts [OF assms(3)] assms(5) by blast
  then show ?thesis using assms(4,6) unfolding vouched_def account_of_def by auto
qed

text \<open>Dana signs in, and once more after a request that only an administrator may make.\<close>

definition sample_web :: "web_event list" where
  "sample_web = [SignIn (\<lambda>_. False) 1 ''GET'' ''/api/v1/me'' ''Bearer good'', Administer 2 (Some 9) '''' (DropUserCall (Some 9))]"

theorem signed_in_as_oneself_witness:
  "\<exists>uid u. Some (''uid1'', ''dana@x.il'') = Some (uid, ''dana@x.il'') \<and> (2000000000000, u) \<in> set (db_users sample_ext_db) \<and>
    u_Channel u = ''web'' \<and> u_ChannelID u = uid"
proof -
  let ?st0 = "\<lparr>ad_confirm = [], ad_cache = [], ad_db = sample_ext_db\<rparr>"
  let ?c = "[(''uid1'', 2000000000000, 1 + uidCacheTTL)] :: uid_cache"
  have b: "bearerFromAuthHeader ''Bearer good'' = ''good''" "trim_space ''Bearer good'' \<noteq> ''''" by code_simp+
  have verify: "ac_firebase sample_auth = Some (\<lambda>t. if t = ''good'' then Some (''uid1'', ''dana@x.il'') else None)" by (simp add: sample_auth_def)
  have up: "UpsertWebUser (\<lambda>_. False) ''uid1'' ''dana@x.il'' sample_ext_db = (Inr 2000000000000, sample_ext_db)"
    by (simp add: UpsertWebUser_def upsertChannelUser_def numeral_eq_Suc tryUpsertChannelUser_def channel_tx_def has_channel_def
        new_user_def sample_ext_db_def empty_db_def db.defs)
  have first: "authenticate sample_auth (\<lambda>_. False) 1 ''GET'' ''/api/v1/me'' ''Bearer good'' ([], sample_ext_db) = (Passed 2000000000000 ''dana@x.il'', ?c, sample_ext_db)"
    using up by (simp add: authenticate_def chain_of_def is_get_def optionalAuthMiddleware_def b isExtToken_def extTokenPrefix_def verify
        firebase_identity_def resolveWebUser_def uid_get_def uid_put_def uidCacheMaxSize_def Let_def)
  have st: "fold (web_step sample_auth) sample_web ?st0 = ?st0\<lparr>ad_cache := ?c\<rparr>"
    using first by (simp add: sample_web_def admin_serve_def requireAdmin_def isAdmin_def sample_auth_def)
  have again: "authenticate sample_auth (\<lambda>_. False) 3 ''GET'' ''/api/v1/me'' ''Bearer good'' (?c, sample_ext_db) = (Passed 2000000000000 ''dana@x.il'', ?c, sample_ext_db)"
    by (simp add: authenticate_def chain_of_def is_get_def optionalAuthMiddleware_def b isExtToken_def extTokenPrefix_def verify
        firebase_identity_def resolveWebUser_def uid_get_def uidCacheTTL_def minutes_def Let_def)
  show ?thesis
    using signed_in_as_oneself [where ?st0.0 = ?st0 and st = "?st0\<lparr>ad_cache := ?c\<rparr>" and evs = sample_web, OF _ _ _ _ _ verify, of "\<lambda>_. False" 3
        "''GET''" "''/api/v1/me''" "''Bearer good''" 2000000000000 "''dana@x.il''" ?c sample_ext_db] st again b
    by (simp add: isExtToken_def extTokenPrefix_def)
qed

text \<open>A request in flight undoes it: the row is written, the account is deleted and the cache cleared, and then the number of the
  deleted account is put into the cache, where it stands for a quarter of an hour.\<close>

lemma deleted_account_signs_in:
  assumes "UpsertWebUser raced uid email d = (Inr i, d1)" "AdminDeleteUser i d1 = (Inr (), d2)" "now' \<le> now + uidCacheTTL"
  shows "resolveWebUser raced' now' uid email' (uid_put now uid i (uid_clear c), d2) = (Inr i, uid_put now uid i (uid_clear c), d2) \<and>
    \<not> account_of uid i d2"
proof -
  obtain fs where "delete_user_rows i (d1\<lparr>db_faults := fs\<rparr>) = d2" using assms(2) by (auto simp: AdminDeleteUser_def elim!: db_call_Inr)
  then have "\<not> account_of uid i d2" by (auto simp: account_of_def delete_user_rows_def)
  then show ?thesis using assms(3) by (simp add: resolveWebUser_def uid_get_def uid_put_def uid_clear_def uidCacheMaxSize_def)
qed

end
