(* ===== verification/Json.thy ===== *)
theory Json
  imports Telegram
begin

section \<open>JSON (encoding/json)\<close>

text \<open>
  The part of Go's encoding/json that the bot keeps its dialogues with: the text of a value, which is what
  \<open>json.Marshal\<close> writes, and the reader behind \<open>json.Unmarshal\<close>, which takes any JSON text. Numbers stay
  literals until a field asks for an integer. Strings are bytes; what is not UTF-8 becomes U+FFFD, written and read.
  The reader's limit on nesting is left out.
\<close>

datatype json =
    JNull | JBool bool | JNum string | JStr string | JArr "json list" | JObj "(string \<times> json) list"

subsection \<open>Writing\<close>

abbreviation quote_char :: char where "quote_char \<equiv> CHR 0x22"
abbreviation backslash :: char where "backslash \<equiv> CHR 0x5C"

definition hex_digit :: "nat \<Rightarrow> char" where
  "hex_digit n = (if n < 10 then char_of (48 + n) else char_of (87 + n))"

definition unicode_escape :: "nat \<Rightarrow> string" where
  "unicode_escape n = [backslash, CHR ''u'', hex_digit (n div 4096 mod 16), hex_digit (n div 256 mod 16), hex_digit (n div 16 mod 16), hex_digit (n mod 16)]"

text \<open>The escapes are the ones for HTML, which \<open>Marshal\<close> uses; line and paragraph separators are escaped, too.\<close>

definition short_escapes :: "(char \<times> char) list" where
  "short_escapes = [(CHR 0x08, CHR ''b''), (CHR 0x0C, CHR ''f''), (CHR 0x0A, CHR ''n''), (CHR 0x0D, CHR ''r''), (CHR 0x09, CHR ''t'')]"

definition escape_byte :: "char \<Rightarrow> string" where
  "escape_byte c =
    (if c = quote_char \<or> c = backslash then [backslash, c]
     else case map_of short_escapes c of
       Some e \<Rightarrow> [backslash, e]
     | None \<Rightarrow> if of_char c < (32 :: nat) \<or> c \<in> {CHR ''<'', CHR ''>'', CHR ''&''} then unicode_escape (of_char c) else [c])"

definition escape_rune :: "string \<Rightarrow> string" where
  "escape_rune r =
    (if \<not> utf8_rune r then unicode_escape 0xFFFD
     else if length r = 1 then escape_byte (hd r)
     else if r = [CHR 0xE2, CHR 0x80, CHR 0xA8] then unicode_escape 0x2028
     else if r = [CHR 0xE2, CHR 0x80, CHR 0xA9] then unicode_escape 0x2029
     else r)"

definition json_string :: "string \<Rightarrow> string" where
  "json_string s = quote_char # concat (map escape_rune (runes s)) @ [quote_char]"

fun json_text :: "json \<Rightarrow> string" where
  "json_text JNull = ''null''"
| "json_text (JBool b) = (if b then ''true'' else ''false'')"
| "json_text (JNum l) = l"
| "json_text (JStr s) = json_string s"
| "json_text (JArr vs) = CHR ''['' # join_with '','' (map json_text vs) @ '']''"
| "json_text (JObj ms) = CHR ''{'' # join_with '','' (map (\<lambda>(k, v). json_string k @ CHR '':'' # json_text v) ms) @ ''}''"

subsection \<open>Reading\<close>

definition skip_ws :: "string \<Rightarrow> string" where
  "skip_ws s = dropWhile (\<lambda>c. c \<in> {CHR 0x20, CHR 0x09, CHR 0x0A, CHR 0x0D}) s"

definition expect :: "char \<Rightarrow> string \<Rightarrow> string option" where
  "expect c s = (case skip_ws s of [] \<Rightarrow> None | d # r \<Rightarrow> if d = c then Some r else None)"

definition hex4 :: "string \<Rightarrow> (nat \<times> string) option" where
  "hex4 s =
    (if length s \<ge> 4 \<and> list_all is_hex (take 4 s)
     then Some (foldl (\<lambda>n c. 16 * n + unhex c) 0 (take 4 s), drop 4 s) else None)"

definition utf8_encode :: "nat \<Rightarrow> string" where
  "utf8_encode n =
    (if n < 0x80 then [char_of n]
     else if n < 0x800 then [char_of (0xC0 + n div 64), char_of (0x80 + n mod 64)]
     else if n < 0x10000 then [char_of (0xE0 + n div 4096), char_of (0x80 + n div 64 mod 64), char_of (0x80 + n mod 64)]
     else [char_of (0xF0 + n div 262144), char_of (0x80 + n div 4096 mod 64), char_of (0x80 + n div 64 mod 64), char_of (0x80 + n mod 64)])"

text \<open>After \<open>\u\<close>: a code point, a surrogate pair, or half of one, which reads as U+FFFD.\<close>

definition read_unicode :: "string \<Rightarrow> (string \<times> string) option" where
  "read_unicode s =
    (case hex4 s of
       None \<Rightarrow> None
     | Some (n, r) \<Rightarrow>
         if \<not> (0xD800 \<le> n \<and> n < 0xE000) then Some (utf8_encode n, r)
         else if n < 0xDC00 \<and> prefix [backslash, CHR ''u''] r then
           (case hex4 (drop 2 r) of
              Some (m, r') \<Rightarrow>
                if 0xDC00 \<le> m \<and> m < 0xE000 then Some (utf8_encode (0x10000 + (n - 0xD800) * 1024 + (m - 0xDC00)), r')
                else Some (error_rune, r)
            | None \<Rightarrow> Some (error_rune, r))
         else Some (error_rune, r))"

definition short_escape :: "char \<Rightarrow> char option" where
  "short_escape e =
    (if e \<in> {quote_char, backslash, CHR ''/''} then Some e else map_of (map prod.swap short_escapes) e)"

definition read_escape :: "string \<Rightarrow> (string \<times> string) option" where
  "read_escape s =
    (case s of [] \<Rightarrow> None
     | e # r \<Rightarrow> if e = CHR ''u'' then read_unicode r else map_option (\<lambda>c. ([c], r)) (short_escape e))"

lemma hex4_shorter: "hex4 s = Some (n, r) \<Longrightarrow> length r < length s"
  by (auto simp: hex4_def split: if_splits)

lemma read_escape_shorter: "read_escape s = Some (t, r) \<Longrightarrow> length r < length s"
  by (force simp: read_escape_def read_unicode_def dest: hex4_shorter split: list.splits option.splits if_splits prod.splits)

text \<open>The rest of a string after its opening quote.\<close>

function read_chars :: "string \<Rightarrow> (string \<times> string) option" where
  "read_chars [] = None"
| "read_chars (c # s) =
    (if c = quote_char then Some ([], s)
     else if c = backslash then
       (case read_escape s of
          None \<Rightarrow> None
        | Some (t, r) \<Rightarrow> map_option (\<lambda>(u, r). (t @ u, r)) (read_chars r))
     else if of_char c < (32 :: nat) then None
     else map_option (\<lambda>(u, r). (c # u, r)) (read_chars s))"
  by pat_completeness auto
termination by (relation "measure length") (auto dest: read_escape_shorter)

text \<open>The string with U+FFFD for what is not UTF-8.\<close>

definition valid_string :: "string \<Rightarrow> string" where
  "valid_string s = concat (to_runes s)"

definition read_string :: "string \<Rightarrow> (string \<times> string) option" where
  "read_string s = map_option (\<lambda>(t, r). (valid_string t, r)) (read_chars s)"

definition num_char :: "char \<Rightarrow> bool" where
  "num_char c \<longleftrightarrow> is_digit c \<or> c \<in> {CHR ''-'', CHR ''+'', CHR ''.'', CHR ''e'', CHR ''E''}"

text \<open>The grammar of numbers: an optional sign, digits without a leading zero, a fraction, an exponent.\<close>

definition read_digits :: "string \<Rightarrow> string option" where
  "read_digits s = (if takeWhile is_digit s = [] then None else Some (dropWhile is_digit s))"

definition read_exponent :: "string \<Rightarrow> bool" where
  "read_exponent s =
    (case s of [] \<Rightarrow> True
     | c # r \<Rightarrow> c \<in> {CHR ''e'', CHR ''E''} \<and>
         read_digits (case r of d # q \<Rightarrow> if d \<in> {CHR ''+'', CHR ''-''} then q else r | [] \<Rightarrow> []) = Some [])"

definition read_fraction :: "string \<Rightarrow> bool" where
  "read_fraction s =
    (case s of
       c # r \<Rightarrow> if c = CHR ''.'' then (case read_digits r of None \<Rightarrow> False | Some q \<Rightarrow> read_exponent q) else read_exponent s
     | [] \<Rightarrow> True)"

definition number_literal :: "string \<Rightarrow> bool" where
  "number_literal s =
    (let r = (case s of c # q \<Rightarrow> if c = CHR ''-'' then q else s | [] \<Rightarrow> []) in
     case r of [] \<Rightarrow> False
     | c # q \<Rightarrow> if c = CHR ''0'' then read_fraction q else (case read_digits r of None \<Rightarrow> False | Some q \<Rightarrow> read_fraction q))"

definition read_literal :: "string \<Rightarrow> (json \<times> string) option" where
  "read_literal s =
    (if prefix ''true'' s then Some (JBool True, drop 4 s)
     else if prefix ''false'' s then Some (JBool False, drop 5 s)
     else if prefix ''null'' s then Some (JNull, drop 4 s)
     else if number_literal (takeWhile num_char s) then Some (JNum (takeWhile num_char s), dropWhile num_char s)
     else None)"

text \<open>Values, and the members and elements up to the closing bracket. Every step reads a character, so the length of the text
  is fuel enough.\<close>

fun read_value :: "nat \<Rightarrow> string \<Rightarrow> (json \<times> string) option"
  and read_members :: "nat \<Rightarrow> string \<Rightarrow> ((string \<times> json) list \<times> string) option"
  and read_elements :: "nat \<Rightarrow> string \<Rightarrow> (json list \<times> string) option" where
  "read_value 0 s = None"
| "read_value (Suc n) s =
    (case skip_ws s of [] \<Rightarrow> None
     | c # r \<Rightarrow>
         if c = quote_char then map_option (\<lambda>(t, r). (JStr t, r)) (read_string r)
         else if c = CHR ''{'' then
           (case expect (CHR ''}'') r of Some r \<Rightarrow> Some (JObj [], r) | None \<Rightarrow> map_option (\<lambda>(ms, r). (JObj ms, r)) (read_members n r))
         else if c = CHR ''['' then
           (case expect (CHR '']'') r of Some r \<Rightarrow> Some (JArr [], r) | None \<Rightarrow> map_option (\<lambda>(vs, r). (JArr vs, r)) (read_elements n r))
         else read_literal (c # r))"
| "read_members 0 s = None"
| "read_members (Suc n) s =
    (case Option.bind (expect quote_char s) read_string of None \<Rightarrow> None
     | Some (k, s) \<Rightarrow>
       (case Option.bind (expect (CHR '':'') s) (read_value n) of None \<Rightarrow> None
        | Some (v, s) \<Rightarrow>
          (case expect (CHR '','') s of
             Some s \<Rightarrow> map_option (\<lambda>(ms, r). ((k, v) # ms, r)) (read_members n s)
           | None \<Rightarrow> map_option (\<lambda>r. ([(k, v)], r)) (expect (CHR ''}'') s))))"
| "read_elements 0 s = None"
| "read_elements (Suc n) s =
    (case read_value n s of None \<Rightarrow> None
     | Some (v, s) \<Rightarrow>
       (case expect (CHR '','') s of
          Some s \<Rightarrow> map_option (\<lambda>(vs, r). (v # vs, r)) (read_elements n s)
        | None \<Rightarrow> map_option (\<lambda>r. ([v], r)) (expect (CHR '']'') s)))"

definition json_read :: "string \<Rightarrow> json option" where
  "json_read s = (case read_value (Suc (length s)) s of None \<Rightarrow> None | Some (v, r) \<Rightarrow> if skip_ws r = [] then Some v else None)"

text \<open>\<open>strconv.ParseInt\<close> on the literal of an integer field: no fraction, no exponent.\<close>

definition int_literal :: "string \<Rightarrow> int option" where
  "int_literal l =
    (case l of c # q \<Rightarrow>
       if c = CHR ''-'' then (if q \<noteq> [] \<and> list_all is_digit q then Some (- decimal_value q) else None)
       else if list_all is_digit l then Some (decimal_value l) else None
     | [] \<Rightarrow> None)"


subsection \<open>Reading what was written\<close>

lemma unhex_hex_digit:
  assumes "n < 16"
  shows "is_hex (hex_digit n) \<and> unhex (hex_digit n) = n"
proof (cases "n < 10")
  case True
  then have "of_char (hex_digit n) = 48 + n" by (simp add: hex_digit_def)
  then show ?thesis using True by (simp add: is_hex_def unhex_def is_digit_def between_def)
next
  case False
  then have "of_char (hex_digit n) = 87 + n" using assms by (simp add: hex_digit_def)
  then show ?thesis using False assms by (simp add: is_hex_def unhex_def is_digit_def between_def)
qed

lemma hex_value: "n < 65536 \<Longrightarrow> 16 * (16 * (16 * (n div 4096 mod 16) + n div 256 mod 16) + n div 16 mod 16) + n mod 16 = (n :: nat)"
proof -
  assume "n < 65536"
  then have "n div 4096 mod 16 = n div 16 div 16 div 16" by (simp add: div_mult2_eq [symmetric] less_mult_imp_div_less)
  moreover have "n div 256 = n div 16 div 16" by (simp add: div_mult2_eq [symmetric])
  ultimately show ?thesis by (simp only: mult_div_mod_eq)
qed

lemma hex4_escape:
  assumes "n < 65536"
  shows "hex4 (tl (tl (unicode_escape n)) @ r) = Some (n, r)"
  using hex_value [OF assms] assms by (simp add: hex4_def unicode_escape_def unhex_hex_digit less_mult_imp_div_less)

lemma read_escape_unicode:
  assumes "n < 65536" "\<not> (0xD800 \<le> n \<and> n < 0xE000)"
  shows "read_escape (tl (unicode_escape n) @ r) = Some (utf8_encode n, r)"
  using hex4_escape [OF assms(1), of r] assms(2)
  by (simp add: read_escape_def read_unicode_def unicode_escape_def)

lemma read_chars_unicode:
  assumes "n < 65536" "\<not> (0xD800 \<le> n \<and> n < 0xE000)"
  shows "read_chars (unicode_escape n @ r) = map_option (\<lambda>(u, r). (utf8_encode n @ u, r)) (read_chars r)"
proof -
  have eq: "unicode_escape n @ r = backslash # tl (unicode_escape n) @ r" by (simp add: unicode_escape_def)
  show ?thesis unfolding eq using read_escape_unicode [OF assms, of r] by simp
qed

lemma read_chars_plain:
  "(\<And>c. c \<in> set t \<Longrightarrow> c \<noteq> quote_char \<and> c \<noteq> backslash \<and> \<not> of_char c < (32 :: nat)) \<Longrightarrow>
    read_chars (t @ r) = map_option (\<lambda>(u, r). (t @ u, r)) (read_chars r)"
proof (induction t)
  case Nil
  then show ?case by (cases "read_chars r") auto
next
  case (Cons c t)
  then show ?case by (cases "read_chars r") auto
qed

lemma char_eq_code: "c = d \<longleftrightarrow> (of_char c :: nat) = of_char d"
  by simp

lemma read_chars_byte:
  assumes "byte_in 0 0x7F c"
  shows "read_chars (escape_byte c @ r) = map_option (\<lambda>(u, r). (c # u, r)) (read_chars r)"
proof -
  have low: "of_char c < (128 :: nat)" using assms by (simp add: byte_in_def)
  have short: "read_chars (backslash # e # r) = map_option (\<lambda>(u, r). (c # u, r)) (read_chars r)"
    if "short_escape e = Some c" "e \<noteq> CHR ''u''" for e
    using that by (simp add: read_escape_def)
  consider e where "map_of short_escapes c = Some e" | "c = quote_char \<or> c = backslash"
    | "c \<noteq> quote_char" "c \<noteq> backslash" "map_of short_escapes c = None" by auto
  then show ?thesis
  proof cases
    case (1 e)
    then have "short_escape e = Some c" "e \<noteq> CHR ''u''" "c \<noteq> quote_char" "c \<noteq> backslash"
      by (auto simp: short_escapes_def short_escape_def split: if_splits)
    then show ?thesis using short 1 by (simp add: escape_byte_def)
  next
    case 2
    then show ?thesis using short [of c] by (auto simp: escape_byte_def short_escape_def)
  next
    case 3
    show ?thesis
    proof (cases "of_char c < (32 :: nat) \<or> c \<in> {CHR ''<'', CHR ''>'', CHR ''&''}")
      case True
      have "utf8_encode (of_char c) = [c]" using low by (simp add: utf8_encode_def)
      then show ?thesis using True 3 low read_chars_unicode [of "of_char c" r] by (auto simp: escape_byte_def)
    next
      case False
      then show ?thesis using 3 read_chars_plain [of "[c]" r] by (auto simp: escape_byte_def)
    qed
  qed
qed

lemma read_chars_rune:
  assumes "utf8_rune w"
  shows "read_chars (escape_rune w @ r) = map_option (\<lambda>(u, r). (w @ u, r)) (read_chars r)"
proof (cases "length w = 1")
  case True
  then obtain c where w: "w = [c]" by (cases w) auto
  then have "byte_in 0 0x7F c" using assms
    by (cases rule: rune_width_cases [of "[c]"]) (simp_all add: utf8_rune_def)
  then show ?thesis using assms w read_chars_byte by (simp add: escape_rune_def)
next
  case False
  then have high: "\<forall>b \<in> set w. byte_in 0x80 0xFF b" using utf8_rune_bytes [OF assms] by auto
  consider "w = [CHR 0xE2, CHR 0x80, CHR 0xA8]" | "w = [CHR 0xE2, CHR 0x80, CHR 0xA9]" | "escape_rune w = w"
    using assms False by (simp add: escape_rune_def) metis
  then show ?thesis
  proof cases
    case 1
    moreover have "utf8_encode 0x2028 = [CHR 0xE2, CHR 0x80, CHR 0xA8]" by (simp add: utf8_encode_def char_of_eq_iff)
    ultimately show ?thesis using assms read_chars_unicode [of "0x2028" r] by (simp add: escape_rune_def)
  next
    case 2
    moreover have "utf8_encode 0x2029 = [CHR 0xE2, CHR 0x80, CHR 0xA9]" by (simp add: utf8_encode_def char_of_eq_iff)
    ultimately show ?thesis using assms read_chars_unicode [of "0x2029" r] by (simp add: escape_rune_def)
  next
    case 3
    have "read_chars (w @ r) = map_option (\<lambda>(u, r). (w @ u, r)) (read_chars r)"
      using high by (intro read_chars_plain) (auto simp: byte_in_def)
    then show ?thesis using 3 by simp
  qed
qed

lemma read_chars_any_rune:
  "read_chars (escape_rune w @ r) = map_option (\<lambda>(u, r). ((if utf8_rune w then w else error_rune) @ u, r)) (read_chars r)"
proof (cases "utf8_rune w")
  case False
  have "utf8_encode 0xFFFD = error_rune" by (simp add: utf8_encode_def error_rune_def char_of_eq_iff)
  then show ?thesis using False read_chars_unicode [of "0xFFFD" r] by (simp add: escape_rune_def)
qed (simp add: read_chars_rune)

lemma read_chars_runes:
  "read_chars (concat (map escape_rune rs) @ quote_char # r) = Some (concat (map (\<lambda>w. if utf8_rune w then w else error_rune) rs), r)"
  by (induction rs) (simp_all add: read_chars_any_rune)

lemma error_rune_utf8: "utf8_rune error_rune"
  by (simp add: error_rune_def utf8_rune_def rune_width.simps byte_in_def second_byte_def)

lemma valid_string_valid: "valid_utf8 (valid_string s)"
  unfolding valid_string_def by (rule valid_utf8_concat) (auto simp: to_runes_def list_all_iff error_rune_utf8)

lemma valid_string_id: "valid_utf8 s \<Longrightarrow> valid_string s = s"
  by (simp add: valid_string_def to_runes_valid concat_runes)

lemma valid_string_empty [simp]: "valid_string s = [] \<longleftrightarrow> s = []"
proof (cases s)
  case (Cons c t)
  have "(if utf8_rune w then w else error_rune) \<noteq> []" for w by (simp add: utf8_rune_def error_rune_def)
  then show ?thesis using Cons by (simp add: valid_string_def to_runes_def del: take.simps drop.simps)
qed (simp add: valid_string_def to_runes_def)

lemma read_string_text: "read_string (tl (json_string s) @ r) = Some (valid_string s, r)"
proof -
  have "read_chars (tl (json_string s) @ r) = Some (valid_string s, r)"
    using read_chars_runes [of "runes s" r] by (simp add: json_string_def valid_string_def to_runes_def)
  then show ?thesis by (simp add: read_string_def valid_string_id [OF valid_string_valid])
qed

text \<open>The values whose text reads back, with their strings made valid: the literals of numbers are in the grammar.\<close>

fun plain_json :: "json \<Rightarrow> bool" where
  "plain_json (JNum l) \<longleftrightarrow> number_literal l \<and> list_all num_char l"
| "plain_json (JArr vs) \<longleftrightarrow> list_all plain_json vs"
| "plain_json (JObj ms) \<longleftrightarrow> list_all (\<lambda>(k, v). plain_json v) ms"
| "plain_json _ \<longleftrightarrow> True"

fun clean_json :: "json \<Rightarrow> json" where
  "clean_json (JStr s) = JStr (valid_string s)"
| "clean_json (JArr vs) = JArr (map clean_json vs)"
| "clean_json (JObj ms) = JObj (map (\<lambda>(k, v). (valid_string k, clean_json v)) ms)"
| "clean_json j = j"

definition no_ws :: "char \<Rightarrow> bool" where
  "no_ws c \<longleftrightarrow> c \<notin> {CHR 0x20, CHR 0x09, CHR 0x0A, CHR 0x0D}"

lemma skip_ws_id: "no_ws c \<Longrightarrow> skip_ws (c # s) = c # s"
  by (simp add: skip_ws_def no_ws_def)

lemma expect_here: "no_ws d \<Longrightarrow> expect c (d # s) = (if d = c then Some s else None)"
  by (simp add: expect_def skip_ws_id)

lemma num_char_digit: "is_digit c \<Longrightarrow> num_char c"
  by (simp add: num_char_def)

lemma digit_code: "is_digit c \<longleftrightarrow> (48 :: nat) \<le> of_char c \<and> of_char c \<le> (57 :: nat)"
  by (simp add: is_digit_def between_def)

lemma number_literal_head:
  assumes "number_literal l"
  obtains c t where "l = c # t" "is_digit c \<or> c = CHR ''-''"
proof (cases l)
  case Nil
  then show ?thesis using assms by (simp add: number_literal_def)
next
  case (Cons c t)
  have "is_digit c" if "c \<noteq> CHR ''-''" "c \<noteq> CHR ''0''"
    using assms that Cons by (auto simp: number_literal_def read_digits_def split: option.splits if_splits)
  then show ?thesis using that Cons by (cases "c = CHR ''-''"; cases "c = CHR ''0''") (auto simp: digit_code)
qed

lemma text_head:
  assumes "plain_json j"
  obtains c t where "json_text j = c # t" "no_ws c" "c \<noteq> CHR '']''" "c \<noteq> CHR ''}''" "c \<noteq> CHR '',''"
proof (cases j)
  case (JNum l)
  then obtain c t where "l = c # t" "is_digit c \<or> c = CHR ''-''" using assms number_literal_head by auto
  moreover from this have "no_ws c" "c \<noteq> CHR '']''" "c \<noteq> CHR ''}''" "c \<noteq> CHR '',''" by (auto simp: no_ws_def digit_code)
  ultimately show ?thesis using that JNum by simp
next
  case (JBool b)
  then show ?thesis using that by (cases b) (simp_all add: no_ws_def)
qed (use that in \<open>simp_all add: no_ws_def json_string_def\<close>)

definition ends_number :: "string \<Rightarrow> bool" where
  "ends_number r \<longleftrightarrow> (case r of [] \<Rightarrow> True | c # _ \<Rightarrow> \<not> num_char c)"

lemma span_number:
  assumes "list_all num_char l" "ends_number r"
  shows "takeWhile num_char (l @ r) = l" "dropWhile num_char (l @ r) = r"
  using assms by (induction l) (auto simp: ends_number_def split: list.splits)

lemma read_number:
  assumes "number_literal l" "list_all num_char l" "ends_number r"
  shows "read_value (Suc n) (l @ r) = Some (JNum l, r)"
proof -
  obtain c t where l: "l = c # t" "is_digit c \<or> c = CHR ''-''" using assms(1) by (rule number_literal_head)
  then have c: "no_ws c" "c \<noteq> quote_char" "c \<noteq> CHR ''{''" "c \<noteq> CHR ''[''" "c \<noteq> CHR ''t''" "c \<noteq> CHR ''f''" "c \<noteq> CHR ''n''"
    by (auto simp: no_ws_def digit_code)
  have "read_literal (l @ r) = Some (JNum l, r)" using assms(1) c l(1) span_number [OF assms(2,3)] by (simp add: read_literal_def)
  then show ?thesis using c l(1) by (simp add: skip_ws_id)
qed

lemma no_ws_punctuation: "no_ws quote_char" "no_ws (CHR '','')" "no_ws (CHR '':'')" "no_ws (CHR ''}'')" "no_ws (CHR '']'')" "no_ws (CHR ''{'')" "no_ws (CHR ''['')"
  by (simp_all add: no_ws_def)

lemma ends_number_punctuation: "ends_number (CHR '','' # r)" "ends_number (CHR ''}'' # r)" "ends_number (CHR '']'' # r)" "ends_number []"
  by (simp_all add: ends_number_def num_char_def digit_code)

definition reads :: "json \<Rightarrow> bool" where
  "reads v \<longleftrightarrow> (\<forall>n r. length (json_text v) < n \<longrightarrow> ends_number r \<longrightarrow> read_value n (json_text v @ r) = Some (clean_json v, r))"

lemma read_elements_text:
  assumes "\<And>v. v \<in> set vs \<Longrightarrow> plain_json v \<and> reads v" "vs \<noteq> []" "length (join_with '','' (map json_text vs)) + 1 < n"
  shows "read_elements n (join_with '','' (map json_text vs) @ CHR '']'' # r) = Some (map clean_json vs, r)"
  using assms
proof (induction vs arbitrary: n)
  case (Cons v vs)
  obtain m where n: "n = Suc m" using Cons.prems(3) by (cases n) auto
  show ?case
  proof (cases vs)
    case Nil
    then have "read_value m (json_text v @ CHR '']'' # r) = Some (clean_json v, CHR '']'' # r)"
      using Cons.prems n ends_number_punctuation by (auto simp: reads_def)
    then show ?thesis using Nil n by (simp add: expect_here no_ws_punctuation)
  next
    case (Cons w ws)
    let ?t = "join_with '','' (map json_text vs) @ CHR '']'' # r"
    have "read_value m (json_text v @ CHR '','' # ?t) = Some (clean_json v, CHR '','' # ?t)"
      using Cons.prems n ends_number_punctuation Cons by (auto simp: reads_def)
    moreover have "read_elements m ?t = Some (map clean_json vs, r)" using Cons.IH [of m] Cons.prems n Cons by simp
    ultimately show ?thesis using Cons n by (simp add: expect_here no_ws_punctuation)
  qed
qed simp

abbreviation member_text :: "string \<times> json \<Rightarrow> string" where
  "member_text \<equiv> \<lambda>(k, v). json_string k @ CHR '':'' # json_text v"

abbreviation clean_members :: "(string \<times> json) list \<Rightarrow> (string \<times> json) list" where
  "clean_members \<equiv> map (\<lambda>(k, v). (valid_string k, clean_json v))"

lemma read_members_text:
  assumes "\<And>k v. (k, v) \<in> set ms \<Longrightarrow> plain_json v \<and> reads v" "ms \<noteq> []" "length (join_with '','' (map member_text ms)) + 1 < n"
  shows "read_members n (join_with '','' (map member_text ms) @ CHR ''}'' # r) = Some (clean_members ms, r)"
  using assms
proof (induction ms arbitrary: n)
  case (Cons p ms)
  obtain k v where p: "p = (k, v)" by fastforce
  obtain m where n: "n = Suc m" using Cons.prems(3) by (cases n) auto
  have k: "reads v" using Cons.prems(1) p by auto
  have first: "Option.bind (expect quote_char (json_string k @ s)) read_string = Some (valid_string k, s)" for s
    using read_string_text [of k s] by (simp add: json_string_def expect_here no_ws_punctuation)
  show ?case
  proof (cases ms)
    case Nil
    then have "read_value m (json_text v @ CHR ''}'' # r) = Some (clean_json v, CHR ''}'' # r)"
      using Cons.prems n p k ends_number_punctuation by (auto simp: reads_def)
    then show ?thesis using Nil n p first by (simp add: expect_here no_ws_punctuation)
  next
    case (Cons q qs)
    let ?t = "join_with '','' (map member_text ms) @ CHR ''}'' # r"
    have "read_value m (json_text v @ CHR '','' # ?t) = Some (clean_json v, CHR '','' # ?t)"
      using Cons.prems n p k ends_number_punctuation Cons by (auto simp: reads_def)
    moreover have "read_members m ?t = Some (clean_members ms, r)"
    proof (rule Cons.IH)
      show "plain_json v \<and> reads v" if "(k, v) \<in> set ms" for k v using Cons.prems(1) [of k v] that by simp
    qed (use Cons.prems n p Cons in simp_all)
    ultimately show ?thesis using Cons n p first by (simp add: expect_here no_ws_punctuation)
  qed
qed simp


lemma readsI: "(\<And>m r. ends_number r \<Longrightarrow> read_value (Suc m) (json_text v @ r) = Some (clean_json v, r)) \<Longrightarrow> reads v"
  unfolding reads_def
proof (intro allI impI)
  fix n :: nat and r assume h: "\<And>m r. ends_number r \<Longrightarrow> read_value (Suc m) (json_text v @ r) = Some (clean_json v, r)" "length (json_text v) < n" "ends_number r"
  then show "read_value n (json_text v @ r) = Some (clean_json v, r)" by (cases n) simp_all
qed

lemma text_reads: "plain_json j \<Longrightarrow> reads j"
proof (induction j)
  case JNull
  show ?case by (intro readsI) (simp add: read_literal_def skip_ws_id no_ws_def)
next
  case (JBool b)
  show ?case by (intro readsI) (simp add: read_literal_def skip_ws_id no_ws_def)
next
  case (JNum l)
  then show ?case using read_number [of l] by (intro readsI) simp
next
  case (JStr s)
  have "read_value (Suc m) (json_text (JStr s) @ r) = Some (JStr (valid_string s), r)" for m r
  proof -
    obtain t where t: "json_string s = quote_char # t" by (simp add: json_string_def)
    then have "read_string (t @ r) = Some (valid_string s, r)" using read_string_text [of s r] by simp
    then show ?thesis using t by (simp add: skip_ws_id no_ws_punctuation)
  qed
  then show ?case by (intro readsI) simp
next
  case (JArr vs)
  show ?case unfolding reads_def
  proof (intro allI impI)
    fix n :: nat and r assume n: "length (json_text (JArr vs)) < n" "ends_number r"
    then obtain m where m: "n = Suc m" by (cases n) auto
    let ?t = "join_with '','' (map json_text vs) @ CHR '']'' # r"
    show "read_value n (json_text (JArr vs) @ r) = Some (clean_json (JArr vs), r)"
    proof (cases vs)
      case Nil
      then show ?thesis using m by (simp add: skip_ws_id no_ws_punctuation expect_here)
    next
      case (Cons v ws)
      then have "plain_json v" using JArr.prems by simp
      then obtain c t where "json_text v = c # t" "no_ws c" "c \<noteq> CHR '']''" by (rule text_head)
      then have "expect (CHR '']'') ?t = None" using Cons by (cases ws) (simp_all add: expect_here)
      moreover have "read_elements m ?t = Some (map clean_json vs, r)"
        using JArr n m Cons by (intro read_elements_text) (auto simp: list_all_iff)
      ultimately show ?thesis using m by (simp add: skip_ws_id no_ws_punctuation)
    qed
  qed
next
  case (JObj ms)
  show ?case unfolding reads_def
  proof (intro allI impI)
    fix n :: nat and r assume n: "length (json_text (JObj ms)) < n" "ends_number r"
    then obtain m where m: "n = Suc m" by (cases n) auto
    let ?t = "join_with '','' (map member_text ms) @ CHR ''}'' # r"
    show "read_value n (json_text (JObj ms) @ r) = Some (clean_json (JObj ms), r)"
    proof (cases ms)
      case Nil
      then show ?thesis using m by (simp add: skip_ws_id no_ws_punctuation expect_here)
    next
      case (Cons p ps)
      obtain k v where p: "p = (k, v)" by fastforce
      have "expect (CHR ''}'') (json_string k @ s) = None" for s by (simp add: json_string_def expect_here no_ws_punctuation)
      then have "expect (CHR ''}'') ?t = None" using Cons p by (cases ps) simp_all
      moreover have "read_members m ?t = Some (clean_members ms, r)"
      proof (rule read_members_text)
        show "plain_json v \<and> reads v" if "(k, v) \<in> set ms" for k v
          using JObj.IH [OF that, of v] JObj.prems that by (auto simp: list_all_iff)
      qed (use n m Cons in simp_all)
      ultimately show ?thesis using m by (simp add: skip_ws_id no_ws_punctuation)
    qed
  qed
qed

theorem json_roundtrip: "plain_json j \<Longrightarrow> json_read (json_text j) = Some (clean_json j)"
proof -
  assume "plain_json j"
  then have "read_value (Suc (length (json_text j))) (json_text j @ []) = Some (clean_json j, [])"
    using text_reads ends_number_punctuation(4) unfolding reads_def by blast
  then show ?thesis by (simp add: json_read_def skip_ws_def del: read_value.simps)
qed

text \<open>The literals of integers.\<close>

lemma digit_char_digit: "n < 10 \<Longrightarrow> is_digit (digit_char n) \<and> int (of_char (digit_char n)) - 48 = int n"
  by (simp add: digit_code digit_char_def)

lemma decimal_value_snoc: "decimal_value (ds @ [c]) = 10 * decimal_value ds + (int (of_char c) - 48)"
  by (simp add: decimal_value_def)

lemma digits_back: "list_all is_digit (nat_digits n) \<and> decimal_value (nat_digits n) = int n"
proof (induction n rule: nat_digits.induct)
  case (1 n)
  show ?case
  proof (cases "n < 10")
    case True
    then show ?thesis using digit_char_digit by (simp add: nat_digits.simps [of n] decimal_value_def)
  next
    case False
    then show ?thesis using 1 digit_char_digit [of "n mod 10"]
      by (simp add: nat_digits.simps [of n] decimal_value_snoc) presburger
  qed
qed

lemma digits_head: "nat_digits n = [CHR ''0''] \<or> (\<exists>c t. nat_digits n = c # t \<and> c \<noteq> CHR ''0'')"
proof (induction n rule: nat_digits.induct)
  case (1 n)
  show ?case
  proof (cases "n < 10")
    case True
    have "digit_char 0 = CHR ''0''" by (simp add: digit_char_def char_of_eq_iff)
    moreover from this have "digit_char n \<noteq> CHR ''0''" if "n \<noteq> 0" using True that digit_char_inj [of n 0] by auto
    ultimately show ?thesis using True by (cases "n = 0") (simp_all add: nat_digits.simps [of n] nat_digits.simps [of 0])
  next
    case False
    then have "nat_digits (n div 10) \<noteq> [CHR ''0'']" using digits_back [of "n div 10"] by (auto simp: decimal_value_def)
    then show ?thesis using 1 False by (auto simp: nat_digits.simps [of n])
  qed
qed

lemma all_digits_literal:
  assumes "list_all is_digit ds" "ds = [CHR ''0''] \<or> (\<exists>c t. ds = c # t \<and> c \<noteq> CHR ''0'')"
  shows "number_literal ds \<and> number_literal (CHR ''-'' # ds)"
proof -
  have t: "takeWhile is_digit ds = ds" using assms(1) by (simp only: takeWhile_eq_all_conv list_all_iff)
  have d: "dropWhile is_digit ds = []" using assms(1) by (simp add: list_all_iff)
  have "read_digits ds = (if ds = [] then None else Some [])" unfolding read_digits_def t d ..
  moreover have "hd ds \<noteq> CHR ''-''" if "ds \<noteq> []" using assms(1) that by (cases ds) (auto simp: digit_code)
  ultimately show ?thesis using assms(2) by (auto simp: number_literal_def read_fraction_def)
qed

lemma int_literal_itoa: "int_literal (itoa i) = Some i"
proof -
  have d: "list_all is_digit (nat_digits n)" "decimal_value (nat_digits n) = int n" for n using digits_back by auto
  obtain c t where c: "nat_digits (nat i) = c # t" by (cases "nat_digits (nat i)") simp_all
  then have "c \<noteq> CHR ''-''" using d(1) [of "nat i"] by (auto simp: digit_code)
  moreover have "list_all is_digit (c # t)" "decimal_value (c # t) = int (nat i)" using d [of "nat i"] unfolding c by auto
  ultimately show ?thesis using d [of "nat (- i)"] c by (auto simp: itoa_def int_literal_def)
qed

lemma plain_itoa: "plain_json (JNum (itoa i))"
  using all_digits_literal [OF conjunct1 [OF digits_back] digits_head] digits_back num_char_digit
  by (auto simp: itoa_def list_all_iff num_char_def)

end
