(* ===== verification/JsonFields.thy ===== *)
theory JsonFields
  imports Json "HOL-Library.AList"
begin

section \<open>JSON into structs (encoding/json)\<close>

text \<open>
  \<open>json.Unmarshal\<close> into a struct: the members of an object, in their order, into the fields of their name, in any letter
  case. A member of no field is skipped, a later member overwrites or, into a struct, merges. A value of the wrong type
  makes the whole reading an error (None).
\<close>

text \<open>A field takes a value of its type; null leaves it as it is, any other value is an error.\<close>

type_synonym 'w setter = "json \<Rightarrow> 'w \<Rightarrow> 'w option"

definition str_field :: "((string \<Rightarrow> string) \<Rightarrow> 'w \<Rightarrow> 'w) \<Rightarrow> 'w setter" where
  "str_field upd v w = (case v of JStr s \<Rightarrow> Some (upd (\<lambda>_. s) w) | JNull \<Rightarrow> Some w | _ \<Rightarrow> None)"

definition int_field :: "((int \<Rightarrow> int) \<Rightarrow> 'w \<Rightarrow> 'w) \<Rightarrow> 'w setter" where
  "int_field upd v w = (case v of JNum l \<Rightarrow> map_option (\<lambda>i. upd (\<lambda>_. i) w) (int_literal l) | JNull \<Rightarrow> Some w | _ \<Rightarrow> None)"

definition bool_field :: "((bool \<Rightarrow> bool) \<Rightarrow> 'w \<Rightarrow> 'w) \<Rightarrow> 'w setter" where
  "bool_field upd v w = (case v of JBool b \<Rightarrow> Some (upd (\<lambda>_. b) w) | JNull \<Rightarrow> Some w | _ \<Rightarrow> None)"

fun set_members :: "(string \<times> 'w setter) list \<Rightarrow> (string \<times> json) list \<Rightarrow> 'w \<Rightarrow> 'w option" where
  "set_members fs [] w = Some w"
| "set_members fs ((k, v) # ms) w =
    Option.bind (case map_of fs (to_lower k) of None \<Rightarrow> Some w | Some f \<Rightarrow> f v w) (set_members fs ms)"

text \<open>Names as the fields have them: ASCII, in lower case.\<close>

definition field_name :: "string \<Rightarrow> bool" where
  "field_name k \<longleftrightarrow> valid_string k = k \<and> to_lower k = k"

lemma ascii_valid: "list_all (byte_in 0 0x7F) s \<Longrightarrow> valid_string s = s"
proof -
  assume a: "list_all (byte_in 0 0x7F) s"
  have "utf8_rune [c]" if "byte_in 0 0x7F c" for c using that by (simp add: utf8_rune_def rune_width.simps)
  then have "list_all utf8_rune (map (\<lambda>c. [c]) s)" using a by (auto simp: list_all_iff)
  then have "valid_utf8 (concat (map (\<lambda>c. [c]) s))" by (rule valid_utf8_concat)
  then show ?thesis by (simp add: valid_string_id)
qed

lemma known_name: "list_all field_name (map fst fs) \<Longrightarrow> map_of fs k = Some f \<Longrightarrow> valid_string k = k \<and> to_lower k = k"
  by (auto simp: list_all_iff field_name_def dest!: map_of_SomeD)

subsection \<open>Other fields\<close>

text \<open>An \<open>int\<close> of 64 bits, and \<open>strconv.ParseFloat\<close>, which fails when the value is too large for a \<open>float64\<close>.\<close>

definition int64_literal :: "string \<Rightarrow> int option" where
  "int64_literal l = (case int_literal l of None \<Rightarrow> None | Some i \<Rightarrow> if - (2 ^ 63) \<le> i \<and> i < 2 ^ 63 then Some i else None)"

definition exponent_value :: "string \<Rightarrow> int" where
  "exponent_value s =
    (case drop 1 s of [] \<Rightarrow> 0
     | c # q \<Rightarrow> if c = CHR ''-'' then - decimal_value q else if c = CHR ''+'' then decimal_value q else decimal_value (c # q))"

definition real_value :: "string \<Rightarrow> real" where
  "real_value l =
    (let s = (if prefix ''-'' l then drop 1 l else l);
         whole = takeWhile is_digit s; r = dropWhile is_digit s;
         frac = (if prefix ''.'' r then takeWhile is_digit (drop 1 r) else []);
         r = (if prefix ''.'' r then dropWhile is_digit (drop 1 r) else r);
         x = of_int (decimal_value (whole @ frac)) * 10 powi (exponent_value r - int (length frac))
     in if prefix ''-'' l then - x else x)"

definition float_literal :: "string \<Rightarrow> real option" where
  "float_literal l = (let x = real_value l in if \<bar>x\<bar> < 2 ^ 1024 - 2 ^ 970 then Some x else None)"

definition int64_field :: "((int \<Rightarrow> int) \<Rightarrow> 'w \<Rightarrow> 'w) \<Rightarrow> 'w setter" where
  "int64_field upd v w = (case v of JNum l \<Rightarrow> map_option (\<lambda>i. upd (\<lambda>_. i) w) (int64_literal l) | JNull \<Rightarrow> Some w | _ \<Rightarrow> None)"

definition float_field :: "((real \<Rightarrow> real) \<Rightarrow> 'w \<Rightarrow> 'w) \<Rightarrow> 'w setter" where
  "float_field upd v w = (case v of JNum l \<Rightarrow> map_option (\<lambda>x. upd (\<lambda>_. x) w) (float_literal l) | JNull \<Rightarrow> Some w | _ \<Rightarrow> None)"

text \<open>A struct in a struct is read into what is there. A \<open>json.RawMessage\<close> keeps the value, null too; None is its zero value.\<close>

definition members_of :: "(string \<times> 'w setter) list \<Rightarrow> 'w setter" where
  "members_of fs v w = (case v of JObj ms \<Rightarrow> set_members fs ms w | JNull \<Rightarrow> Some w | _ \<Rightarrow> None)"

definition struct_field :: "(string \<times> 'a setter) list \<Rightarrow> ('w \<Rightarrow> 'a) \<Rightarrow> (('a \<Rightarrow> 'a) \<Rightarrow> 'w \<Rightarrow> 'w) \<Rightarrow> 'w setter" where
  "struct_field fs get upd v w = map_option (\<lambda>a. upd (\<lambda>_. a) w) (members_of fs v (get w))"

definition pointer_field :: "(string \<times> 'a setter) list \<Rightarrow> 'a \<Rightarrow> ('w \<Rightarrow> 'a option) \<Rightarrow> (('a option \<Rightarrow> 'a option) \<Rightarrow> 'w \<Rightarrow> 'w) \<Rightarrow> 'w setter" where
  "pointer_field fs zero get upd v w =
    (if v = JNull then Some (upd (\<lambda>_. None) w)
     else map_option (\<lambda>a. upd (\<lambda>_. Some a) w) (members_of fs v (case get w of Some a \<Rightarrow> a | None \<Rightarrow> zero)))"

definition raw_field :: "((json option \<Rightarrow> json option) \<Rightarrow> 'w \<Rightarrow> 'w) \<Rightarrow> 'w setter" where
  "raw_field upd v w = Some (upd (\<lambda>_. Some v) w)"

text \<open>A slice; null is the nil slice.\<close>

definition slice_field :: "(json \<Rightarrow> 'a option) \<Rightarrow> (('a list \<Rightarrow> 'a list) \<Rightarrow> 'w \<Rightarrow> 'w) \<Rightarrow> 'w setter" where
  "slice_field read upd v w =
    (case v of
       JNull \<Rightarrow> Some (upd (\<lambda>_. []) w)
     | JArr vs \<Rightarrow> if list_ex (\<lambda>v. read v = None) vs then None else Some (upd (\<lambda>_. map (\<lambda>v. the (read v)) vs) w)
     | _ \<Rightarrow> None)"

definition read_str :: "json \<Rightarrow> string option" where
  "read_str v = (case v of JStr s \<Rightarrow> Some s | JNull \<Rightarrow> Some [] | _ \<Rightarrow> None)"

text \<open>A \<open>map[string]json.RawMessage\<close>: the members by their exact names, the last one of a name.\<close>

definition raw_map :: "json \<Rightarrow> (string \<times> json) list option" where
  "raw_map v = (case v of JObj ms \<Rightarrow> Some (AList.updates (map fst ms) (map snd ms) []) | JNull \<Rightarrow> Some [] | _ \<Rightarrow> None)"

text \<open>What is read when nothing has the wrong type.\<close>

lemma members_of_null [simp]: "members_of fs JNull w = Some w"
  by (simp add: members_of_def)

lemma members_of_object [simp]: "members_of fs (JObj ms) w = set_members fs ms w"
  by (simp add: members_of_def)

lemma set_members_append: "set_members fs (ms @ ns) w = Option.bind (set_members fs ms w) (set_members fs ns)"
  by (induction ms arbitrary: w) (auto split: option.split Option.bind_split)

lemma set_members_skip: "list_all (\<lambda>(k, v). map_of fs (to_lower k) = None) ms \<Longrightarrow> set_members fs ms w = Some w"
  by (induction ms) auto

lemma int64_itoa: "- (2 ^ 63) \<le> i \<Longrightarrow> i < 2 ^ 63 \<Longrightarrow> int64_literal (itoa i) = Some i"
  by (simp add: int64_literal_def int_literal_itoa)

lemma real_value_examples: "real_value ''1.5'' = 3 / 2" "real_value ''-2e3'' = - 2000" "real_value ''1998'' = 1998"
  by (simp_all add: real_value_def exponent_value_def is_digit_def between_def decimal_value_def power_int_def)

end
