(* ===== verification/WizardData.thy ===== *)
theory WizardData
  imports JsonFields SearchApi
begin

section \<open>The data of a dialogue (internal/botcore/state.go)\<close>

text \<open>
  What a user has answered so far, kept as JSON in his row. The fields are written in the order of the struct, empty
  ones left out; a field is read from the member whose name is its own but for the letter case.
\<close>

record original_search =
  os_Source :: string
  os_Manufacturer :: int
  os_ManufacturerName :: string
  os_Model :: int
  os_ModelName :: string
  os_YearMin :: int
  os_YearMax :: int
  os_PriceMax :: int
  os_PriceMin :: int
  os_GearBox :: string
  os_EngineMinCC :: int
  os_MaxKm :: int
  os_MaxHand :: int
  os_Keywords :: string
  os_ExcludeKeys :: string

record wizard_data =
  wd_Source :: string
  wd_Manufacturer :: int
  wd_ManufacturerName :: string
  wd_Model :: int
  wd_ModelName :: string
  wd_YearMin :: int
  wd_YearMax :: int
  wd_PriceMax :: int
  wd_PriceMin :: int
  wd_GearBox :: string
  wd_EngineMinCC :: int
  wd_MaxKm :: int
  wd_MaxHand :: int
  wd_Keywords :: string
  wd_ExcludeKeys :: string
  wd_SellerFilter :: string
  wd_PriceOnly :: bool
  wd_PhotoOnly :: bool
  wd_EditSearchID :: int
  wd_OriginalSearch :: "original_search option"
  wd_UpdatedAt :: int

definition empty_original :: original_search where
  "empty_original = \<lparr>os_Source = '''', os_Manufacturer = 0, os_ManufacturerName = '''', os_Model = 0, os_ModelName = '''',
     os_YearMin = 0, os_YearMax = 0, os_PriceMax = 0, os_PriceMin = 0, os_GearBox = '''', os_EngineMinCC = 0, os_MaxKm = 0,
     os_MaxHand = 0, os_Keywords = '''', os_ExcludeKeys = ''''\<rparr>"

definition empty_wizard :: wizard_data where
  "empty_wizard = \<lparr>wd_Source = '''', wd_Manufacturer = 0, wd_ManufacturerName = '''', wd_Model = 0, wd_ModelName = '''',
     wd_YearMin = 0, wd_YearMax = 0, wd_PriceMax = 0, wd_PriceMin = 0, wd_GearBox = '''', wd_EngineMinCC = 0, wd_MaxKm = 0,
     wd_MaxHand = 0, wd_Keywords = '''', wd_ExcludeKeys = '''', wd_SellerFilter = '''', wd_PriceOnly = False, wd_PhotoOnly = False,
     wd_EditSearchID = 0, wd_OriginalSearch = None, wd_UpdatedAt = 0\<rparr>"

subsection \<open>Writing\<close>

definition str_member :: "string \<Rightarrow> string \<Rightarrow> (string \<times> json) list" where
  "str_member k s = (if s = '''' then [] else [(k, JStr s)])"

definition int_member :: "string \<Rightarrow> int \<Rightarrow> (string \<times> json) list" where
  "int_member k i = (if i = 0 then [] else [(k, JNum (itoa i))])"

definition bool_member :: "string \<Rightarrow> bool \<Rightarrow> (string \<times> json) list" where
  "bool_member k b = (if b then [(k, JBool True)] else [])"

definition original_members :: "original_search \<Rightarrow> (string \<times> json) list" where
  "original_members w =
    str_member ''source'' (os_Source w) @ int_member ''manufacturer'' (os_Manufacturer w) @ str_member ''manufacturer_name'' (os_ManufacturerName w) @
    int_member ''model'' (os_Model w) @ str_member ''model_name'' (os_ModelName w) @ int_member ''year_min'' (os_YearMin w) @
    int_member ''year_max'' (os_YearMax w) @ int_member ''price_max'' (os_PriceMax w) @ int_member ''price_min'' (os_PriceMin w) @
    str_member ''gear_box'' (os_GearBox w) @ int_member ''engine_min_cc'' (os_EngineMinCC w) @ int_member ''max_km'' (os_MaxKm w) @
    int_member ''max_hand'' (os_MaxHand w) @ str_member ''keywords'' (os_Keywords w) @ str_member ''exclude_keys'' (os_ExcludeKeys w)"

definition wizard_members :: "wizard_data \<Rightarrow> (string \<times> json) list" where
  "wizard_members w =
    str_member ''source'' (wd_Source w) @ int_member ''manufacturer'' (wd_Manufacturer w) @ str_member ''manufacturer_name'' (wd_ManufacturerName w) @
    int_member ''model'' (wd_Model w) @ str_member ''model_name'' (wd_ModelName w) @ int_member ''year_min'' (wd_YearMin w) @
    int_member ''year_max'' (wd_YearMax w) @ int_member ''price_max'' (wd_PriceMax w) @ int_member ''price_min'' (wd_PriceMin w) @
    str_member ''gear_box'' (wd_GearBox w) @ int_member ''engine_min_cc'' (wd_EngineMinCC w) @ int_member ''max_km'' (wd_MaxKm w) @
    int_member ''max_hand'' (wd_MaxHand w) @ str_member ''keywords'' (wd_Keywords w) @ str_member ''exclude_keys'' (wd_ExcludeKeys w) @
    str_member ''seller_filter'' (wd_SellerFilter w) @ bool_member ''price_only'' (wd_PriceOnly w) @ bool_member ''photo_only'' (wd_PhotoOnly w) @
    int_member ''edit_search_id'' (wd_EditSearchID w) @
    (case wd_OriginalSearch w of None \<Rightarrow> [] | Some os \<Rightarrow> [(''original_search'', JObj (original_members os))]) @
    int_member ''updated_at'' (wd_UpdatedAt w)"

definition marshal_wizard :: "wizard_data \<Rightarrow> string" where
  "marshal_wizard w = json_text (JObj (wizard_members w))"

subsection \<open>Reading\<close>

definition original_fields :: "(string \<times> original_search setter) list" where
  "original_fields =
    [(''source'', str_field os_Source_update), (''manufacturer'', int_field os_Manufacturer_update),
     (''manufacturer_name'', str_field os_ManufacturerName_update), (''model'', int_field os_Model_update),
     (''model_name'', str_field os_ModelName_update), (''year_min'', int_field os_YearMin_update), (''year_max'', int_field os_YearMax_update),
     (''price_max'', int_field os_PriceMax_update), (''price_min'', int_field os_PriceMin_update), (''gear_box'', str_field os_GearBox_update),
     (''engine_min_cc'', int_field os_EngineMinCC_update), (''max_km'', int_field os_MaxKm_update), (''max_hand'', int_field os_MaxHand_update),
     (''keywords'', str_field os_Keywords_update), (''exclude_keys'', str_field os_ExcludeKeys_update)]"

text \<open>The pointer: null is nil, an object is read into what is there, or into a new struct.\<close>

definition original_field :: "wizard_data setter" where
  "original_field v w =
    (case v of
       JNull \<Rightarrow> Some (w\<lparr>wd_OriginalSearch := None\<rparr>)
     | JObj ms \<Rightarrow>
         map_option (\<lambda>os. w\<lparr>wd_OriginalSearch := Some os\<rparr>)
           (set_members original_fields ms (case wd_OriginalSearch w of Some os \<Rightarrow> os | None \<Rightarrow> empty_original))
     | _ \<Rightarrow> None)"

definition wizard_fields :: "(string \<times> wizard_data setter) list" where
  "wizard_fields =
    [(''source'', str_field wd_Source_update), (''manufacturer'', int_field wd_Manufacturer_update),
     (''manufacturer_name'', str_field wd_ManufacturerName_update), (''model'', int_field wd_Model_update),
     (''model_name'', str_field wd_ModelName_update), (''year_min'', int_field wd_YearMin_update), (''year_max'', int_field wd_YearMax_update),
     (''price_max'', int_field wd_PriceMax_update), (''price_min'', int_field wd_PriceMin_update), (''gear_box'', str_field wd_GearBox_update),
     (''engine_min_cc'', int_field wd_EngineMinCC_update), (''max_km'', int_field wd_MaxKm_update), (''max_hand'', int_field wd_MaxHand_update),
     (''keywords'', str_field wd_Keywords_update), (''exclude_keys'', str_field wd_ExcludeKeys_update),
     (''seller_filter'', str_field wd_SellerFilter_update), (''price_only'', bool_field wd_PriceOnly_update),
     (''photo_only'', bool_field wd_PhotoOnly_update), (''edit_search_id'', int_field wd_EditSearchID_update),
     (''original_search'', original_field), (''updated_at'', int_field wd_UpdatedAt_update)]"

text \<open>None is an error of \<open>json.Unmarshal\<close>.\<close>

definition unmarshal_wizard :: "string \<Rightarrow> wizard_data option" where
  "unmarshal_wizard s =
    (case json_read s of
       Some (JObj ms) \<Rightarrow> set_members wizard_fields ms empty_wizard
     | Some JNull \<Rightarrow> Some empty_wizard
     | _ \<Rightarrow> None)"

subsection \<open>The round trip\<close>

definition clean_original :: "original_search \<Rightarrow> original_search" where
  "clean_original w = w\<lparr>os_Source := valid_string (os_Source w), os_ManufacturerName := valid_string (os_ManufacturerName w),
     os_ModelName := valid_string (os_ModelName w), os_GearBox := valid_string (os_GearBox w), os_Keywords := valid_string (os_Keywords w),
     os_ExcludeKeys := valid_string (os_ExcludeKeys w)\<rparr>"

definition clean_wizard :: "wizard_data \<Rightarrow> wizard_data" where
  "clean_wizard w = w\<lparr>wd_Source := valid_string (wd_Source w), wd_ManufacturerName := valid_string (wd_ManufacturerName w),
     wd_ModelName := valid_string (wd_ModelName w), wd_GearBox := valid_string (wd_GearBox w), wd_Keywords := valid_string (wd_Keywords w),
     wd_ExcludeKeys := valid_string (wd_ExcludeKeys w), wd_SellerFilter := valid_string (wd_SellerFilter w),
     wd_OriginalSearch := map_option clean_original (wd_OriginalSearch w)\<rparr>"

lemma wizard_names: "list_all field_name (map fst wizard_fields)" "list_all field_name (map fst original_fields)"
proof -
  have "list_all (list_all (byte_in 0 0x7F)) (map fst wizard_fields)" "list_all (\<lambda>k. to_lower k = k) (map fst wizard_fields)"
    "list_all (list_all (byte_in 0 0x7F)) (map fst original_fields)" "list_all (\<lambda>k. to_lower k = k) (map fst original_fields)"
    by (simp_all add: wizard_fields_def original_fields_def byte_in_def to_lower_def lower_char_def)
  then show "list_all field_name (map fst wizard_fields)" "list_all field_name (map fst original_fields)"
    by (auto simp: list_all_iff field_name_def intro: ascii_valid)
qed

lemma set_str:
  assumes "list_all field_name (map fst fs)" "map_of fs k = Some (str_field upd)" "upd (\<lambda>_. '''') w = w"
  shows "set_members fs (clean_members (str_member k s) @ ms) w = set_members fs ms (upd (\<lambda>_. valid_string s) w)"
proof (cases "s = ''''")
  case True
  then have "valid_string s = ''''" by simp
  then show ?thesis using True assms(3) by (simp only: str_member_def) simp
next
  case False
  then show ?thesis using assms known_name [OF assms(1,2)] by (simp add: str_member_def str_field_def)
qed

lemma set_int:
  assumes "list_all field_name (map fst fs)" "map_of fs k = Some (int_field upd)" "upd (\<lambda>_. 0) w = w"
  shows "set_members fs (clean_members (int_member k i) @ ms) w = set_members fs ms (upd (\<lambda>_. i) w)"
  using assms known_name [OF assms(1,2)] by (simp add: int_member_def int_field_def int_literal_itoa)

lemma set_bool:
  assumes "list_all field_name (map fst fs)" "map_of fs k = Some (bool_field upd)" "upd (\<lambda>_. False) w = w"
  shows "set_members fs (clean_members (bool_member k b) @ ms) w = set_members fs ms (upd (\<lambda>_. b) w)"
  using assms known_name [OF assms(1,2)] by (cases b) (simp_all add: bool_member_def bool_field_def)

lemma set_last_str:
  assumes "list_all field_name (map fst fs)" "map_of fs k = Some (str_field upd)" "upd (\<lambda>_. '''') w = w"
  shows "set_members fs (clean_members (str_member k s)) w = Some (upd (\<lambda>_. valid_string s) w)"
  using set_str [OF assms, of s "[]"] by simp

lemma original_lookup:
  "map_of original_fields ''source'' = Some (str_field os_Source_update)"
  "map_of original_fields ''manufacturer'' = Some (int_field os_Manufacturer_update)"
  "map_of original_fields ''manufacturer_name'' = Some (str_field os_ManufacturerName_update)"
  "map_of original_fields ''model'' = Some (int_field os_Model_update)"
  "map_of original_fields ''model_name'' = Some (str_field os_ModelName_update)"
  "map_of original_fields ''year_min'' = Some (int_field os_YearMin_update)"
  "map_of original_fields ''year_max'' = Some (int_field os_YearMax_update)"
  "map_of original_fields ''price_max'' = Some (int_field os_PriceMax_update)"
  "map_of original_fields ''price_min'' = Some (int_field os_PriceMin_update)"
  "map_of original_fields ''gear_box'' = Some (str_field os_GearBox_update)"
  "map_of original_fields ''engine_min_cc'' = Some (int_field os_EngineMinCC_update)"
  "map_of original_fields ''max_km'' = Some (int_field os_MaxKm_update)"
  "map_of original_fields ''max_hand'' = Some (int_field os_MaxHand_update)"
  "map_of original_fields ''keywords'' = Some (str_field os_Keywords_update)"
  "map_of original_fields ''exclude_keys'' = Some (str_field os_ExcludeKeys_update)"
  by (simp_all add: original_fields_def)

lemma set_original:
  "set_members original_fields (clean_members (original_members w)) empty_original = Some (clean_original w)"
  by (cases w) (simp add: original_members_def empty_original_def clean_original_def set_last_str [OF wizard_names(2)] set_str [OF wizard_names(2)] set_int [OF wizard_names(2)] original_lookup)

lemma wizard_lookup:
  "map_of wizard_fields ''source'' = Some (str_field wd_Source_update)"
  "map_of wizard_fields ''manufacturer'' = Some (int_field wd_Manufacturer_update)"
  "map_of wizard_fields ''manufacturer_name'' = Some (str_field wd_ManufacturerName_update)"
  "map_of wizard_fields ''model'' = Some (int_field wd_Model_update)"
  "map_of wizard_fields ''model_name'' = Some (str_field wd_ModelName_update)"
  "map_of wizard_fields ''year_min'' = Some (int_field wd_YearMin_update)"
  "map_of wizard_fields ''year_max'' = Some (int_field wd_YearMax_update)"
  "map_of wizard_fields ''price_max'' = Some (int_field wd_PriceMax_update)"
  "map_of wizard_fields ''price_min'' = Some (int_field wd_PriceMin_update)"
  "map_of wizard_fields ''gear_box'' = Some (str_field wd_GearBox_update)"
  "map_of wizard_fields ''engine_min_cc'' = Some (int_field wd_EngineMinCC_update)"
  "map_of wizard_fields ''max_km'' = Some (int_field wd_MaxKm_update)"
  "map_of wizard_fields ''max_hand'' = Some (int_field wd_MaxHand_update)"
  "map_of wizard_fields ''keywords'' = Some (str_field wd_Keywords_update)"
  "map_of wizard_fields ''exclude_keys'' = Some (str_field wd_ExcludeKeys_update)"
  "map_of wizard_fields ''seller_filter'' = Some (str_field wd_SellerFilter_update)"
  "map_of wizard_fields ''price_only'' = Some (bool_field wd_PriceOnly_update)"
  "map_of wizard_fields ''photo_only'' = Some (bool_field wd_PhotoOnly_update)"
  "map_of wizard_fields ''edit_search_id'' = Some (int_field wd_EditSearchID_update)"
  "map_of wizard_fields ''original_search'' = Some original_field"
  "map_of wizard_fields ''updated_at'' = Some (int_field wd_UpdatedAt_update)"
  by (simp_all add: wizard_fields_def)

lemma set_last_int:
  assumes "list_all field_name (map fst fs)" "map_of fs k = Some (int_field upd)" "upd (\<lambda>_. 0) w = w"
  shows "set_members fs (clean_members (int_member k i)) w = Some (upd (\<lambda>_. i) w)"
  using set_int [OF assms, of i "[]"] by simp

lemma set_pointer:
  assumes "wd_OriginalSearch w = None"
  shows "set_members wizard_fields (clean_members (case p of None \<Rightarrow> [] | Some os \<Rightarrow> [(''original_search'', JObj (original_members os))]) @ ms) w =
    set_members wizard_fields ms (w\<lparr>wd_OriginalSearch := map_option clean_original p\<rparr>)"
  using assms known_name [OF wizard_names(1) wizard_lookup(20)] set_original
  by (cases p; cases w) (simp_all add: wizard_lookup original_field_def)

lemma set_wizard: "set_members wizard_fields (clean_members (wizard_members w)) empty_wizard = Some (clean_wizard w)"
  by (cases w) (simp add: wizard_members_def empty_wizard_def clean_wizard_def set_str [OF wizard_names(1)] set_int [OF wizard_names(1)]
      set_bool [OF wizard_names(1)] set_pointer set_last_int [OF wizard_names(1)] wizard_lookup)

lemma plain_members:
  "list_all (\<lambda>(k, v). plain_json v) (str_member k s)" "list_all (\<lambda>(k, v). plain_json v) (int_member k i)"
  "list_all (\<lambda>(k, v). plain_json v) (bool_member k b)"
  using plain_itoa by (simp_all add: str_member_def int_member_def bool_member_def del: plain_json.simps(1))

lemma unmarshal_marshal: "unmarshal_wizard (marshal_wizard w) = Some (clean_wizard w)"
proof -
  have "plain_json (JObj (wizard_members w))"
    by (simp add: wizard_members_def original_members_def plain_members split: option.split)
  then have "json_read (marshal_wizard w) = Some (clean_json (JObj (wizard_members w)))"
    unfolding marshal_wizard_def by (rule json_roundtrip)
  then show ?thesis using set_wizard [of w] by (simp add: unmarshal_wizard_def)
qed

text \<open>C9. A dialogue that is saved loads back as it was, up to bytes that are not UTF-8, which become U+FFFD.\<close>

theorem wizard_data_roundtrip: "unmarshal_wizard (marshal_wizard w) = Some (clean_wizard w)"
  by (rule unmarshal_marshal)

lemma unmarshal_empty: "unmarshal_wizard ''{}'' = Some empty_wizard"
  by (simp add: unmarshal_wizard_def json_read_def expect_def skip_ws_def)

lemma unmarshal_nothing: "unmarshal_wizard '''' = None"
  by (simp add: unmarshal_wizard_def json_read_def skip_ws_def)

end
