(* ===== verification/Feeds.thy ===== *)
theory Feeds
  imports SearchApi Telegram "HOL-Library.Product_Lexorder" "HOL-Library.List_Lexorder" "HOL-Library.Char_ord"
begin

section \<open>Bookmarks, hidden listings, the notification centre and the pages of listings\<close>

text \<open>
  The queries of internal/storage/postgres/listings.go, notifications_center.go and listing_user_seen.go that return a
  page of rows, and the handlers of internal/api/bookmarks.go, notifications.go, listing_seen.go and listings.go that
  serve them. The time columns \<open>saved_at\<close> and \<open>hidden_at\<close> are the order of insertion. Text is ordered by its bytes
  (the collation of the database). Times are not formatted.
\<close>

subsection \<open>Descending order\<close>

datatype 'a desc = Desc (undesc: 'a)

instantiation desc :: (linorder) linorder
begin

fun less_eq_desc :: "'a desc \<Rightarrow> 'a desc \<Rightarrow> bool" where
  "less_eq_desc (Desc a) (Desc b) = (b \<le> a)"

fun less_desc :: "'a desc \<Rightarrow> 'a desc \<Rightarrow> bool" where
  "less_desc (Desc a) (Desc b) = (b < a)"

instance
proof
  fix x y z :: "'a desc"
  show "(x < y) = (x \<le> y \<and> \<not> y \<le> x)" by (cases x; cases y) auto
  show "x \<le> x" by (cases x) auto
  show "x \<le> y \<Longrightarrow> y \<le> z \<Longrightarrow> x \<le> z" by (cases x; cases y; cases z) auto
  show "x \<le> y \<Longrightarrow> y \<le> x \<Longrightarrow> x = y" by (cases x; cases y) auto
  show "x \<le> y \<or> y \<le> x" by (cases x; cases y) auto
qed

end

subsection \<open>The queries (internal/storage/postgres)\<close>

text \<open>\<open>LIMIT limit OFFSET offset\<close>.\<close>

definition page_of :: "int \<Rightarrow> int \<Rightarrow> 'a list \<Rightarrow> 'a list" where
  "page_of limit offset xs = take (nat limit) (drop (nat offset) xs)"

definition own :: "int \<Rightarrow> (int \<times> string) list \<Rightarrow> string list" where
  "own chatID rows = map snd (filter (\<lambda>(c, t). c = chatID) rows)"

definition add_pair :: "int \<Rightarrow> string \<Rightarrow> (int \<times> string) list \<Rightarrow> (int \<times> string) list" where
  "add_pair chatID token rows = (if (chatID, token) \<in> set rows then rows else rows @ [(chatID, token)])"

definition remove_pair :: "int \<Rightarrow> string \<Rightarrow> (int \<times> string) list \<Rightarrow> (int \<times> string) list" where
  "remove_pair chatID token rows = filter (\<lambda>r. r \<noteq> (chatID, token)) rows"

definition SaveBookmark :: "int \<Rightarrow> string \<Rightarrow> 'z db_scheme \<Rightarrow> (db_error + unit) \<times> 'z db_scheme" where
  "SaveBookmark chatID token = db_call (DbError '''') (\<lambda>d. (Inr (), d\<lparr>db_saved := add_pair chatID token (db_saved d)\<rparr>))"

definition RemoveBookmark :: "int \<Rightarrow> string \<Rightarrow> 'z db_scheme \<Rightarrow> (db_error + unit) \<times> 'z db_scheme" where
  "RemoveBookmark chatID token = db_call (DbError '''') (\<lambda>d. (Inr (), d\<lparr>db_saved := remove_pair chatID token (db_saved d)\<rparr>))"

text \<open>The bookmarks, newest first, joined with the rows they stand for.\<close>

definition saved_rows :: "int \<Rightarrow> 'z db_scheme \<Rightarrow> history_row list" where
  "saved_rows chatID d = List.map_filter (\<lambda>t. map_of (db_history d) (t, chatID)) (rev (own chatID (db_saved d)))"

definition ListSaved :: "int \<Rightarrow> int \<Rightarrow> int \<Rightarrow> 'z db_scheme \<Rightarrow> (db_error + history_row list) \<times> 'z db_scheme" where
  "ListSaved chatID limit offset = db_call (DbError '''') (\<lambda>d. (Inr (page_of limit offset (saved_rows chatID d)), d))"

definition CountSaved :: "int \<Rightarrow> 'z db_scheme \<Rightarrow> (db_error + nat) \<times> 'z db_scheme" where
  "CountSaved chatID = db_call (DbError '''') (\<lambda>d. (Inr (length (own chatID (db_saved d))), d))"

definition IsSaved :: "int \<Rightarrow> string \<Rightarrow> 'z db_scheme \<Rightarrow> (db_error + bool) \<times> 'z db_scheme" where
  "IsSaved chatID token = db_call (DbError '''') (\<lambda>d. (Inr ((chatID, token) \<in> set (db_saved d)), d))"

definition savedAmongBatchSize :: nat where "savedAmongBatchSize = 500"

text \<open>The tokens asked for, each once, in batches.\<close>

definition uniq_tokens :: "string list \<Rightarrow> string list" where
  "uniq_tokens tokens = rev (fold (\<lambda>t uniq. if t = '''' \<or> t \<in> set uniq then uniq else t # uniq) tokens [])"

fun in_batches :: "nat \<Rightarrow> 'a list \<Rightarrow> 'a list list" where
  "in_batches n [] = []"
| "in_batches n (x # xs) = (x # take (n - 1) xs) # in_batches n (drop (n - 1) xs)"

definition lookup_among :: "('z db_scheme \<Rightarrow> (int \<times> string) list) \<Rightarrow> int \<Rightarrow> string list \<Rightarrow> 'z db_scheme \<Rightarrow> (db_error + string set) \<times> 'z db_scheme" where
  "lookup_among table chatID tokens d =
    (let uniq = uniq_tokens tokens in
     if uniq = [] then (Inr {}, d)
     else db_call (DbError '''') (\<lambda>d. (Inr (set (concat (map (\<lambda>batch. filter (\<lambda>t. (chatID, t) \<in> set (table d)) batch)
       (in_batches savedAmongBatchSize uniq)))), d)) d)"

definition SavedAmong :: "int \<Rightarrow> string list \<Rightarrow> 'z db_scheme \<Rightarrow> (db_error + string set) \<times> 'z db_scheme" where
  "SavedAmong = lookup_among db_saved"

definition HideListing :: "int \<Rightarrow> string \<Rightarrow> 'z db_scheme \<Rightarrow> (db_error + unit) \<times> 'z db_scheme" where
  "HideListing chatID token = db_call (DbError '''') (\<lambda>d. (Inr (), d\<lparr>db_hidden := add_pair chatID token (db_hidden d)\<rparr>))"

definition UnhideListing :: "int \<Rightarrow> string \<Rightarrow> 'z db_scheme \<Rightarrow> (db_error + unit) \<times> 'z db_scheme" where
  "UnhideListing chatID token = db_call (DbError '''') (\<lambda>d. (Inr (), d\<lparr>db_hidden := remove_pair chatID token (db_hidden d)\<rparr>))"

definition IsHidden :: "int \<Rightarrow> string \<Rightarrow> 'z db_scheme \<Rightarrow> (db_error + bool) \<times> 'z db_scheme" where
  "IsHidden chatID token = db_call (DbError '''') (\<lambda>d. (Inr ((chatID, token) \<in> set (db_hidden d)), d))"

definition ListHidden :: "int \<Rightarrow> int \<Rightarrow> int \<Rightarrow> 'z db_scheme \<Rightarrow> (db_error + string list) \<times> 'z db_scheme" where
  "ListHidden chatID limit offset = db_call (DbError '''') (\<lambda>d. (Inr (page_of limit offset (rev (own chatID (db_hidden d)))), d))"

definition CountHidden :: "int \<Rightarrow> 'z db_scheme \<Rightarrow> (db_error + nat) \<times> 'z db_scheme" where
  "CountHidden chatID = db_call (DbError '''') (\<lambda>d. (Inr (length (own chatID (db_hidden d))), d))"

definition ClearHidden :: "int \<Rightarrow> 'z db_scheme \<Rightarrow> (db_error + unit) \<times> 'z db_scheme" where
  "ClearHidden chatID = db_call (DbError '''') (\<lambda>d. (Inr (), d\<lparr>db_hidden := filter (\<lambda>(c, t). c \<noteq> chatID) (db_hidden d)\<rparr>))"

definition GetListing :: "int \<Rightarrow> string \<Rightarrow> 'z db_scheme \<Rightarrow> (db_error + history_row option) \<times> 'z db_scheme" where
  "GetListing chatID token = db_call (DbError '''') (\<lambda>d. (Inr (map_of (db_history d) (token, chatID)), d))"

text \<open>The rows of a user that are not gone, newest first.\<close>

definition user_rows :: "int \<Rightarrow> 'z db_scheme \<Rightarrow> history_row list" where
  "user_rows chatID d = sort_key (\<lambda>r. (Desc (lr_FirstSeenAt r), Desc (lr_Token r)))
     (map snd (filter (\<lambda>((t, c), r). c = chatID \<and> lr_RemovedAt r = None) (db_history d)))"

definition ListUserListings :: "int \<Rightarrow> int \<Rightarrow> int \<Rightarrow> 'z db_scheme \<Rightarrow> (db_error + history_row list) \<times> 'z db_scheme" where
  "ListUserListings chatID limit offset = db_call (DbError '''') (\<lambda>d. (Inr (page_of limit offset (user_rows chatID d)), d))"

definition CountUserListings :: "int \<Rightarrow> 'z db_scheme \<Rightarrow> (db_error + nat) \<times> 'z db_scheme" where
  "CountUserListings chatID = db_call (DbError '''') (\<lambda>d. (Inr (length (user_rows chatID d)), d))"

definition newestOrderBy :: "history_row list \<Rightarrow> history_row list" where
  "newestOrderBy = sort_key (\<lambda>r. (Desc (case lr_PostedAt r of Some t \<Rightarrow> t | None \<Rightarrow> lr_FirstSeenAt r), Desc (lr_Token r)))"

definition listingsOrderBy :: "string \<Rightarrow> history_row list \<Rightarrow> history_row list" where
  "listingsOrderBy order =
    (if order = ''price_asc'' then sort_key (\<lambda>r. (lr_Price r \<le> 0, lr_Price r, Desc (lr_Token r)))
     else if order = ''price_desc'' then sort_key (\<lambda>r. (lr_Price r \<le> 0, Desc (lr_Price r), Desc (lr_Token r)))
     else if order = ''score'' then sort_key (\<lambda>r. (lr_FitnessScore r = None, Desc (case lr_FitnessScore r of Some x \<Rightarrow> x | None \<Rightarrow> 0), Desc (lr_Token r)))
     else if order = ''km'' then sort_key (\<lambda>r. (lr_Km r \<le> 0, lr_Km r, Desc (lr_Token r)))
     else if order = ''year'' then sort_key (\<lambda>r. (Desc (lr_Year r), Desc (lr_Token r)))
     else newestOrderBy)"

definition ListSearchListings :: "int \<Rightarrow> int \<Rightarrow> listing_filter \<Rightarrow> int \<Rightarrow> int \<Rightarrow> string \<Rightarrow> 'z db_scheme \<Rightarrow> (db_error + history_row list) \<times> 'z db_scheme" where
  "ListSearchListings chatID sid f limit offset order = db_call (DbError '''') (\<lambda>d.
     (Inr (page_of limit offset (listingsOrderBy order (search_rows chatID sid f d))), d))"


subsection \<open>The notification centre (notifications_center.go, listing_user_seen.go)\<close>

text \<open>The listings that a user has dismissed, and two columns of his row.\<close>

record feed_db = db +
  db_user_seen :: "(int \<times> string) list"
  db_created_at :: "int \<Rightarrow> gotime"
  db_last_seen_at :: "int \<Rightarrow> gotime option"

definition MarkListingUserSeen :: "int \<Rightarrow> string \<Rightarrow> 'z feed_db_scheme \<Rightarrow> (db_error + unit) \<times> 'z feed_db_scheme" where
  "MarkListingUserSeen chatID token d =
    (if token = '''' then (Inr (), d)
     else db_call (DbError ''mark listing user seen'') (\<lambda>d. (Inr (), d\<lparr>db_user_seen := add_pair chatID token (db_user_seen d)\<rparr>)) d)"

definition UnmarkListingUserSeen :: "int \<Rightarrow> string \<Rightarrow> 'z feed_db_scheme \<Rightarrow> (db_error + unit) \<times> 'z feed_db_scheme" where
  "UnmarkListingUserSeen chatID token d =
    (if token = '''' then (Inr (), d)
     else db_call (DbError ''unmark listing user seen'') (\<lambda>d. (Inr (), d\<lparr>db_user_seen := remove_pair chatID token (db_user_seen d)\<rparr>)) d)"

definition ListingUserSeenAmong :: "int \<Rightarrow> string list \<Rightarrow> 'z feed_db_scheme \<Rightarrow> (db_error + string set) \<times> 'z feed_db_scheme" where
  "ListingUserSeenAmong = lookup_among db_user_seen"

definition GetLastSeenAt :: "int \<Rightarrow> 'z feed_db_scheme \<Rightarrow> (db_error + gotime) \<times> 'z feed_db_scheme" where
  "GetLastSeenAt chatID = db_call (DbError ''get last seen at'') (\<lambda>d.
     (if map_of (db_users d) chatID = None then Inl (DbError ''get last seen at'')
      else Inr (case db_last_seen_at d chatID of Some t \<Rightarrow> t | None \<Rightarrow> db_created_at d chatID), d))"

definition UpdateLastSeenAt :: "gotime \<Rightarrow> int \<Rightarrow> 'z feed_db_scheme \<Rightarrow> (db_error + unit) \<times> 'z feed_db_scheme" where
  "UpdateLastSeenAt now chatID = db_call (DbError '''') (\<lambda>d.
     (Inr (), if map_of (db_users d) chatID = None then d else d\<lparr>db_last_seen_at := (db_last_seen_at d)(chatID := Some now)\<rparr>))"

text \<open>\<open>notifFilterSQL\<close>: NULL in \<open>is_commercial\<close> equals neither 0 nor 1.\<close>

definition notifFilter :: "search \<Rightarrow> 'z listing_record_scheme \<Rightarrow> bool" where
  "notifFilter s r \<longleftrightarrow>
     (s_MaxKm s = 0 \<or> lr_Km r \<le> s_MaxKm s \<or> lr_Km r = 0)
   \<and> (s_MaxHand s = 0 \<or> lr_Hand r \<le> s_MaxHand s)
   \<and> (s_PriceMin s = 0 \<or> lr_Price r \<ge> s_PriceMin s \<or> lr_Price r = 0)
   \<and> (s_PriceMax s = 0 \<or> lr_Price r \<le> s_PriceMax s)
   \<and> (s_YearMin s = 0 \<or> lr_Year r \<ge> s_YearMin s)
   \<and> (s_YearMax s = 0 \<or> lr_Year r \<le> s_YearMax s)
   \<and> (s_SellerFilter s = '''' \<or> s_SellerFilter s = ''any''
      \<or> (s_SellerFilter s = ''private'' \<and> lr_IsCommercial r = Some False)
      \<or> (s_SellerFilter s = ''commercial'' \<and> lr_IsCommercial r = Some True))"

definition new_rows :: "int \<Rightarrow> gotime \<Rightarrow> 'z feed_db_scheme \<Rightarrow> history_row list" where
  "new_rows chatID since d = map snd (filter (\<lambda>((t, c), r). c = chatID \<and> lr_FirstSeenAt r > since \<and> (c, t) \<notin> set (db_user_seen d)
     \<and> list_ex (\<lambda>s. s_ID s = lr_SearchID r \<and> s_ChatID s = c \<and> notifFilter s r) (db_searches d)) (db_history d))"

definition NewListingsSince :: "int \<Rightarrow> gotime \<Rightarrow> int \<Rightarrow> int \<Rightarrow> 'z feed_db_scheme \<Rightarrow> (db_error + history_row list) \<times> 'z feed_db_scheme" where
  "NewListingsSince chatID since limit offset = db_call (DbError ''new listings since'') (\<lambda>d.
     (Inr (page_of limit offset (sort_key (\<lambda>r. (Desc (lr_FirstSeenAt r), Desc (lr_Token r))) (new_rows chatID since d))), d))"

definition CountNewListingsSince :: "int \<Rightarrow> gotime \<Rightarrow> 'z feed_db_scheme \<Rightarrow> (db_error + nat) \<times> 'z feed_db_scheme" where
  "CountNewListingsSince chatID since = db_call (DbError ''count new listings since'') (\<lambda>d. (Inr (length (new_rows chatID since d)), d))"

subsection \<open>The handlers (internal/api)\<close>

record feed_server = search_server +
  fs_saved :: bool
  fs_notifs :: bool

definition maxSavedListings :: nat where "maxSavedListings = 500"
definition maxHiddenListings :: nat where "maxHiddenListings = 1000"

record listing_response =
  rp_Listing :: history_row
  rp_ScoreBreakdown :: "(real \<times> real \<times> real) option"
  rp_OriginalOwnership :: "string option"
  rp_Saved :: bool
  rp_Seen :: bool

datatype feed_reply =
    FeedFailed int string
  | FeedDone
  | FeedPage "listing_response list" nat int int
  | FeedListing listing_response
  | FeedCount nat
  | FeedPrices "(int \<times> gotime) list"

definition listing_view :: "bool \<Rightarrow> bool \<Rightarrow> history_row \<Rightarrow> listing_response" where
  "listing_view saved seen l = \<lparr>rp_Listing = l,
     rp_ScoreBreakdown = (case (lr_ScoreCondition l, lr_ScoreValue l, lr_ScoreEngine l) of
       (Some c, Some v, Some e) \<Rightarrow> Some (c, v, e) | _ \<Rightarrow> None),
     rp_OriginalOwnership = (case lr_OriginalOwnership l of Some ow \<Rightarrow> if ow \<noteq> '''' then Some ow else None | None \<Rightarrow> None),
     rp_Saved = saved, rp_Seen = seen\<rparr>"

definition toListingResponses :: "history_row list \<Rightarrow> string set \<Rightarrow> string set \<Rightarrow> listing_response list" where
  "toListingResponses records saved seen = map (\<lambda>l. listing_view (lr_Token l \<in> saved) (lr_Token l \<in> seen) l) records"

text \<open>\<open>strconv.Atoi\<close>, \<open>strconv.ParseInt\<close> to the base 10.\<close>

definition Atoi :: "string \<Rightarrow> int option" where
  "Atoi s =
    (let neg = prefix ''-'' s; ds = (if neg \<or> prefix ''+'' s then drop 1 s else s); n = (if neg then - decimal_value ds else decimal_value ds) in
     if ds = '''' \<or> \<not> list_all is_digit ds \<or> n < - (2 ^ 63) \<or> n \<ge> 2 ^ 63 then None else Some n)"

definition parseIntParam :: "string \<Rightarrow> string \<Rightarrow> int \<Rightarrow> string + int" where
  "parseIntParam name s defaultVal =
    (if s = '''' then Inr defaultVal
     else case Atoi s of
       None \<Rightarrow> Inl (''invalid '' @ name @ '' parameter: must be an integer'')
     | Some v \<Rightarrow> if v < 0 then Inl (''invalid '' @ name @ '' parameter: must be non-negative'') else Inr v)"

definition page_limit :: "int \<Rightarrow> int" where
  "page_limit limit = (if limit \<le> 0 then 20 else if limit > 100 then 100 else limit)"

definition parsePagination :: "string \<Rightarrow> string \<Rightarrow> string + int \<times> int" where
  "parsePagination limit offset =
    (case parseIntParam ''limit'' limit 20 of
       Inl e \<Rightarrow> Inl e
     | Inr l \<Rightarrow>
         (case parseIntParam ''offset'' offset 0 of
            Inl e \<Rightarrow> Inl e
          | Inr off \<Rightarrow> Inr (page_limit l, if off < 0 then 0 else off)))"

definition parseSortParam :: "string \<Rightarrow> string" where
  "parseSortParam s = (if s \<in> {''price_asc'', ''price_desc'', ''score'', ''km'', ''year''} then s else ''newest'')"

definition savedLookupForRecords :: "feed_server \<Rightarrow> int \<Rightarrow> history_row list \<Rightarrow> 'z db_scheme \<Rightarrow> string set \<times> 'z db_scheme" where
  "savedLookupForRecords sv chatID records d =
    (if \<not> fs_saved sv \<or> records = [] then ({}, d)
     else case SavedAmong chatID (map lr_Token records) d of (Inr m, d) \<Rightarrow> (m, d) | (Inl _, d) \<Rightarrow> ({}, d))"

definition seenLookupForRecords :: "feed_server \<Rightarrow> int \<Rightarrow> string list \<Rightarrow> 'z feed_db_scheme \<Rightarrow> string set \<times> 'z feed_db_scheme" where
  "seenLookupForRecords sv chatID tokens d =
    (if \<not> fs_notifs sv \<or> tokens = [] then ({}, d)
     else case ListingUserSeenAmong chatID tokens d of (Inr m, d) \<Rightarrow> (m, d) | (Inl _, d) \<Rightarrow> ({}, d))"


text \<open>The start of the handlers: who asks, and for which listing.\<close>

definition as_user :: "feed_server \<Rightarrow> int option \<Rightarrow> (int \<Rightarrow> 'z db_scheme \<Rightarrow> feed_reply \<times> 'z db_scheme) \<Rightarrow> 'z db_scheme \<Rightarrow> feed_reply \<times> 'z db_scheme" where
  "as_user sv ctx f d =
    (case requireResolvedChatID (search_server.truncate sv) ctx d of
       (None, d) \<Rightarrow> (FeedFailed 401 ''invalid user context'', d)
     | (Some chatID, d) \<Rightarrow> f chatID d)"

definition with_token :: "feed_server \<Rightarrow> int option \<Rightarrow> string \<Rightarrow> (int \<Rightarrow> 'z db_scheme \<Rightarrow> feed_reply \<times> 'z db_scheme) \<Rightarrow>
    'z db_scheme \<Rightarrow> feed_reply \<times> 'z db_scheme" where
  "with_token sv ctx token f = as_user sv ctx (\<lambda>chatID d. if token = '''' then (FeedFailed 400 ''missing token'', d) else f chatID d)"

text \<open>A call whose result is only whether it worked.\<close>

definition done_or :: "string \<Rightarrow> (db_error + unit) \<times> 'z db_scheme \<Rightarrow> feed_reply \<times> 'z db_scheme" where
  "done_or msg r = (case r of (Inl _, d) \<Rightarrow> (FeedFailed 500 msg, d) | (Inr _, d) \<Rightarrow> (FeedDone, d))"

definition saveListing :: "feed_server \<Rightarrow> int option \<Rightarrow> string \<Rightarrow> 'z db_scheme \<Rightarrow> feed_reply \<times> 'z db_scheme" where
  "saveListing sv ctx token = with_token sv ctx token (\<lambda>chatID d.
     case CountSaved chatID d of
       (Inl _, d) \<Rightarrow> (FeedFailed 500 ''failed to save bookmark'', d)
     | (Inr n, d) \<Rightarrow>
         if n \<ge> maxSavedListings then (FeedFailed 422 ''limit'', d)
         else done_or ''failed to save bookmark'' (SaveBookmark chatID token d))"

definition unsaveListing :: "feed_server \<Rightarrow> int option \<Rightarrow> string \<Rightarrow> 'z db_scheme \<Rightarrow> feed_reply \<times> 'z db_scheme" where
  "unsaveListing sv ctx token = with_token sv ctx token (\<lambda>chatID d. done_or ''failed to remove bookmark'' (RemoveBookmark chatID token d))"

definition hideListing :: "feed_server \<Rightarrow> int option \<Rightarrow> string \<Rightarrow> 'z db_scheme \<Rightarrow> feed_reply \<times> 'z db_scheme" where
  "hideListing sv ctx token = with_token sv ctx token (\<lambda>chatID d.
     case CountHidden chatID d of
       (Inl _, d) \<Rightarrow> (FeedFailed 500 ''failed to hide listing'', d)
     | (Inr n, d) \<Rightarrow>
         if n \<ge> maxHiddenListings then (FeedFailed 422 ''limit'', d)
         else done_or ''failed to hide listing'' (HideListing chatID token d))"

definition unhideListing :: "feed_server \<Rightarrow> int option \<Rightarrow> string \<Rightarrow> 'z db_scheme \<Rightarrow> feed_reply \<times> 'z db_scheme" where
  "unhideListing sv ctx token = with_token sv ctx token (\<lambda>chatID d. done_or ''failed to unhide listing'' (UnhideListing chatID token d))"

text \<open>A page: the rows, their number, and which of them are bookmarked or dismissed.\<close>

definition listSaved :: "feed_server \<Rightarrow> int option \<Rightarrow> string \<Rightarrow> string \<Rightarrow> 'z feed_db_scheme \<Rightarrow> feed_reply \<times> 'z feed_db_scheme" where
  "listSaved sv ctx qlimit qoffset = as_user sv ctx (\<lambda>chatID d.
     case parsePagination qlimit qoffset of
       Inl e \<Rightarrow> (FeedFailed 400 e, d)
     | Inr (limit, offset) \<Rightarrow>
         (case ListSaved chatID limit offset d of
            (Inl _, d) \<Rightarrow> (FeedFailed 500 ''failed to list saved'', d)
          | (Inr listings, d) \<Rightarrow>
              (case CountSaved chatID d of
                 (Inl _, d) \<Rightarrow> (FeedFailed 500 ''failed to count saved'', d)
               | (Inr n, d) \<Rightarrow>
                   (case seenLookupForRecords sv chatID (map lr_Token listings) d of
                      (seen, d) \<Rightarrow> (FeedPage (toListingResponses listings (set (map lr_Token listings)) seen) n limit offset, d)))))"

definition with_flags :: "feed_server \<Rightarrow> int \<Rightarrow> history_row list \<Rightarrow> nat \<Rightarrow> int \<Rightarrow> int \<Rightarrow> 'z feed_db_scheme \<Rightarrow> feed_reply \<times> 'z feed_db_scheme" where
  "with_flags sv chatID listings n limit offset d =
    (case savedLookupForRecords sv chatID listings d of
       (saved, d) \<Rightarrow>
         (case seenLookupForRecords sv chatID (map lr_Token listings) d of
            (seen, d) \<Rightarrow> (FeedPage (toListingResponses listings saved seen) n limit offset, d)))"

definition listHistory :: "feed_server \<Rightarrow> int option \<Rightarrow> string \<Rightarrow> string \<Rightarrow> 'z feed_db_scheme \<Rightarrow> feed_reply \<times> 'z feed_db_scheme" where
  "listHistory sv ctx qlimit qoffset = as_user sv ctx (\<lambda>chatID d.
     case parsePagination qlimit qoffset of
       Inl e \<Rightarrow> (FeedFailed 400 e, d)
     | Inr (limit, offset) \<Rightarrow>
         (case ListUserListings chatID limit offset d of
            (Inl _, d) \<Rightarrow> (FeedFailed 500 ''failed to list history'', d)
          | (Inr listings, d) \<Rightarrow>
              (case CountUserListings chatID d of
                 (Inl _, d) \<Rightarrow> (FeedFailed 500 ''failed to count history'', d)
               | (Inr n, d) \<Rightarrow> with_flags sv chatID listings n limit offset d)))"

definition listListings :: "feed_server \<Rightarrow> int option \<Rightarrow> int option \<Rightarrow> string \<Rightarrow> string \<Rightarrow> string \<Rightarrow> 'z feed_db_scheme \<Rightarrow> feed_reply \<times> 'z feed_db_scheme" where
  "listListings sv ctx path qlimit qoffset qsort = as_user sv ctx (\<lambda>chatID d.
     case parsePathID path of
       None \<Rightarrow> (FeedFailed 400 ''invalid search id'', d)
     | Some sid \<Rightarrow>
         (case GetSearch sid chatID d of
            (Inl _, d) \<Rightarrow> (FeedFailed 500 ''failed to get search'', d)
          | (Inr None, d) \<Rightarrow> (FeedFailed 404 ''search not found'', d)
          | (Inr (Some sr), d) \<Rightarrow>
              (case parsePagination qlimit qoffset of
                 Inl e \<Rightarrow> (FeedFailed 400 e, d)
               | Inr (limit, offset) \<Rightarrow>
                   (let f = listingFilterFromSearch sr in
                    case ListSearchListings chatID (s_ID sr) f limit offset (parseSortParam qsort) d of
                      (Inl _, d) \<Rightarrow> (FeedFailed 500 ''failed to list listings'', d)
                    | (Inr listings, d) \<Rightarrow>
                        (case CountSearchListings chatID (s_ID sr) f d of
                           (Inl _, d) \<Rightarrow> (FeedFailed 500 ''failed to count listings'', d)
                         | (Inr n, d) \<Rightarrow> with_flags sv chatID listings n limit offset d)))))"

definition getListing :: "feed_server \<Rightarrow> int option \<Rightarrow> string \<Rightarrow> 'z feed_db_scheme \<Rightarrow> feed_reply \<times> 'z feed_db_scheme" where
  "getListing sv ctx token = with_token sv ctx token (\<lambda>chatID d.
     case GetListing chatID token d of
       (Inl _, d) \<Rightarrow> (FeedFailed 500 ''failed to get listing'', d)
     | (Inr None, d) \<Rightarrow> (FeedFailed 404 ''listing not found'', d)
     | (Inr (Some l), d) \<Rightarrow>
         (case (if fs_saved sv then IsSaved chatID token d else (Inr False, d)) of
            (r, d) \<Rightarrow>
              (case seenLookupForRecords sv chatID [token] d of
                 (seen, d) \<Rightarrow> (FeedListing (listing_view (r = Inr True) (token \<in> seen) l), d))))"

definition listingPriceHistory :: "feed_server \<Rightarrow> int option \<Rightarrow> string \<Rightarrow> 'z db_scheme \<Rightarrow> feed_reply \<times> 'z db_scheme" where
  "listingPriceHistory sv ctx token = with_token sv ctx token (\<lambda>chatID d.
     case GetListing chatID token d of
       (Inl _, d) \<Rightarrow> (FeedFailed 500 ''failed to verify listing ownership'', d)
     | (Inr None, d) \<Rightarrow> (FeedFailed 404 ''listing not found'', d)
     | (Inr (Some l), d) \<Rightarrow>
         (case GetPriceHistory token d of
            (Inl _, d) \<Rightarrow> (FeedFailed 500 ''failed to get price history'', d)
          | (Inr points, d) \<Rightarrow> (FeedPrices points, d)))"

definition notificationCount :: "feed_server \<Rightarrow> int option \<Rightarrow> 'z feed_db_scheme \<Rightarrow> feed_reply \<times> 'z feed_db_scheme" where
  "notificationCount sv ctx d =
    (case chatIDFromContext ctx of
       None \<Rightarrow> (FeedCount 0, d)
     | Some i \<Rightarrow>
         (case resolveCanonicalChatID (search_server.truncate sv) i d of
            (chatID, d) \<Rightarrow>
              (case GetLastSeenAt chatID d of
                 (Inl _, d) \<Rightarrow> (FeedFailed 500 ''failed to get notification count'', d)
               | (Inr since, d) \<Rightarrow>
                   (case CountNewListingsSince chatID since d of
                      (Inl _, d) \<Rightarrow> (FeedFailed 500 ''failed to count notifications'', d)
                    | (Inr n, d) \<Rightarrow> (FeedCount n, d)))))"

definition listNotifications :: "feed_server \<Rightarrow> int option \<Rightarrow> string \<Rightarrow> string \<Rightarrow> 'z feed_db_scheme \<Rightarrow> feed_reply \<times> 'z feed_db_scheme" where
  "listNotifications sv ctx qlimit qoffset = as_user sv ctx (\<lambda>chatID d.
     case parsePagination qlimit qoffset of
       Inl e \<Rightarrow> (FeedFailed 400 e, d)
     | Inr (limit, offset) \<Rightarrow>
         (case GetLastSeenAt chatID d of
            (Inl _, d) \<Rightarrow> (FeedFailed 500 ''failed to list notifications'', d)
          | (Inr since, d) \<Rightarrow>
              (case NewListingsSince chatID since limit offset d of
                 (Inl _, d) \<Rightarrow> (FeedFailed 500 ''failed to list notifications'', d)
               | (Inr listings, d) \<Rightarrow>
                   (case CountNewListingsSince chatID since d of
                      (Inl _, d) \<Rightarrow> (FeedFailed 500 ''failed to count notifications'', d)
                    | (Inr n, d) \<Rightarrow> with_flags sv chatID listings n limit offset d))))"

definition markNotificationsSeen :: "feed_server \<Rightarrow> gotime \<Rightarrow> int option \<Rightarrow> 'z feed_db_scheme \<Rightarrow> feed_reply \<times> 'z feed_db_scheme" where
  "markNotificationsSeen sv now ctx = as_user sv ctx (\<lambda>chatID d. done_or ''failed to mark as seen'' (UpdateLastSeenAt now chatID d))"

definition markListingSeen :: "feed_server \<Rightarrow> int option \<Rightarrow> string \<Rightarrow> 'z feed_db_scheme \<Rightarrow> feed_reply \<times> 'z feed_db_scheme" where
  "markListingSeen sv ctx token = with_token sv ctx token (\<lambda>chatID d. done_or ''failed to mark listing'' (MarkListingUserSeen chatID token d))"

definition unmarkListingSeen :: "feed_server \<Rightarrow> int option \<Rightarrow> string \<Rightarrow> 'z feed_db_scheme \<Rightarrow> feed_reply \<times> 'z feed_db_scheme" where
  "unmarkListingSeen sv ctx token = with_token sv ctx token (\<lambda>chatID d. done_or ''failed to unmark listing'' (UnmarkListingUserSeen chatID token d))"


subsection \<open>Reading leaves the tables as they are\<close>

definition reads_only :: "('z db_scheme \<Rightarrow> 'r \<times> 'z db_scheme) \<Rightarrow> bool" where
  "reads_only f \<longleftrightarrow> (\<forall>d. \<exists>fs. snd (f d) = d\<lparr>db_faults := fs\<rparr>)"

lemma reads_call [intro]: "(\<And>d. snd (f d) = d) \<Longrightarrow> reads_only (db_call err f)"
proof (unfold reads_only_def, rule allI)
  fix d assume same: "\<And>d. snd (f d) = d"
  show "\<exists>fs. snd (db_call err f d) = d\<lparr>db_faults := fs\<rparr>"
    by (rule db_call_cases [of err f d]) (auto simp: same intro: exI)
qed

lemma reads_here: "reads_only f \<Longrightarrow> \<exists>fs. snd (f d) = d\<lparr>db_faults := fs\<rparr>"
  by (simp add: reads_only_def)

lemma reads_obtain:
  assumes "reads_only f" "f d = (r, d')"
  obtains fs where "d' = d\<lparr>db_faults := fs\<rparr>"
  using reads_here [OF assms(1), of d] assms(2) by auto

lemma reads_queries [simp]:
  "reads_only (CountSaved c)" "reads_only (CountHidden c)" "reads_only (IsSaved c t)" "reads_only (GetListing c t)" "reads_only (ListSaved c l off)"
  "reads_only (ListUserListings c l off)" "reads_only (CountUserListings c)" "reads_only (ListSearchListings c i f l off ord)"
  "reads_only (CountSearchListings c i f)" "reads_only (GetSearch i c)" "reads_only (GetPriceHistory t)" "reads_only (GetLastSeenAt c)"
  "reads_only (CountNewListingsSince c since)" "reads_only (NewListingsSince c since l off)" "reads_only (GetLinkedTelegramUser c)"
  unfolding CountSaved_def CountHidden_def IsSaved_def GetListing_def ListSaved_def ListUserListings_def CountUserListings_def
    ListSearchListings_def CountSearchListings_def GetSearch_def GetPriceHistory_def GetLastSeenAt_def CountNewListingsSince_def
    NewListingsSince_def GetLinkedTelegramUser_def
  by (rule reads_call; simp)+


lemma reads_pure [simp]: "reads_only (\<lambda>d. (g d, d))"
proof (unfold reads_only_def snd_conv, rule allI)
  fix d show "\<exists>fs. d = d\<lparr>db_faults := fs\<rparr>" by (rule exI [of _ "db_faults d"]) simp
qed

lemma reads_Pair [simp]: "reads_only (Pair x)"
  by (rule reads_pure)

lemma reads_then:
  assumes "reads_only f" "\<And>r. reads_only (g r)"
  shows "reads_only (\<lambda>d. case f d of (r, d) \<Rightarrow> g r d)"
proof (unfold reads_only_def, rule allI)
  fix d
  obtain r d' where fd: "f d = (r, d')" by fastforce
  then obtain fs where d': "d' = d\<lparr>db_faults := fs\<rparr>" by (rule reads_obtain [OF assms(1)])
  obtain fs' where "snd (g r d') = d'\<lparr>db_faults := fs'\<rparr>" using reads_here [OF assms(2)] by blast
  then show "\<exists>fs. snd (case f d of (r, d) \<Rightarrow> g r d) = d\<lparr>db_faults := fs\<rparr>" by (auto simp: fd d')
qed

lemma reads_if: "reads_only f \<Longrightarrow> reads_only g \<Longrightarrow> reads_only (\<lambda>d. if b then f d else g d)"
  by (simp add: reads_only_def)

lemma reads_sum: "(\<And>x. reads_only (f x)) \<Longrightarrow> (\<And>y. reads_only (g y)) \<Longrightarrow> reads_only (\<lambda>d. case r of Inl x \<Rightarrow> f x d | Inr y \<Rightarrow> g y d)"
  by (cases r) simp_all

lemma reads_option: "reads_only f \<Longrightarrow> (\<And>y. reads_only (g y)) \<Longrightarrow> reads_only (\<lambda>d. case r of None \<Rightarrow> f d | Some y \<Rightarrow> g y d)"
  by (cases r) simp_all

lemma reads_prod: "(\<And>x y. reads_only (f x y)) \<Longrightarrow> reads_only (\<lambda>d. case r of (x, y) \<Rightarrow> f x y d)"
  by (cases r) simp

lemmas reads_rules = reads_pure reads_Pair reads_then reads_if reads_sum reads_option reads_prod reads_queries

lemma reads_among: "reads_only (lookup_among table c ts)"
  unfolding lookup_among_def [abs_def] Let_def by (intro reads_rules reads_call) simp

lemma reads_resolve: "reads_only (resolveCanonicalChatID sv i)"
  unfolding resolveCanonicalChatID_def [abs_def] by (intro reads_rules)

lemma reads_require: "reads_only (requireResolvedChatID sv ctx)"
  unfolding requireResolvedChatID_def [abs_def] by (intro reads_rules reads_resolve)

lemma reads_lookups: "reads_only (savedLookupForRecords sv c rs)" "reads_only (seenLookupForRecords sv c ts)"
  unfolding savedLookupForRecords_def [abs_def] seenLookupForRecords_def [abs_def] SavedAmong_def ListingUserSeenAmong_def
  by (intro reads_rules reads_among)+

text \<open>A handler starts with finding out who asks.\<close>

lemma as_user_cases:
  obtains (refused) fs where "as_user sv ctx f d = (FeedFailed 401 ''invalid user context'', d\<lparr>db_faults := fs\<rparr>)"
  | (user) c fs where "as_user sv ctx f d = f c (d\<lparr>db_faults := fs\<rparr>)"
proof -
  obtain r d' where q: "requireResolvedChatID (search_server.truncate sv) ctx d = (r, d')" by fastforce
  then obtain fs where "d' = d\<lparr>db_faults := fs\<rparr>" by (rule reads_obtain [OF reads_require])
  then show ?thesis using that q by (cases r) (auto simp: as_user_def)
qed

lemma with_token_cases:
  obtains (refused) r fs where "with_token sv ctx token f d = (r, d\<lparr>db_faults := fs\<rparr>)"
  | (user) c fs where "token \<noteq> ''''" "with_token sv ctx token f d = f c (d\<lparr>db_faults := fs\<rparr>)"
  unfolding with_token_def
  by (rule as_user_cases [of sv ctx _ d]) (auto split: if_splits)

subsection \<open>Limits\<close>

lemma length_own_add: "length (own c (add_pair c' t rows)) \<le> length (own c rows) + (if c = c' then 1 else 0)"
  by (auto simp: own_def add_pair_def)

lemma length_own_filter: "length (own c (filter P rows)) \<le> length (own c rows)"
  by (induction rows) (auto simp: own_def)


lemma reads_as_user: "(\<And>c. reads_only (f c)) \<Longrightarrow> reads_only (as_user sv ctx f)"
  unfolding as_user_def [abs_def] by (intro reads_rules reads_require)

lemma reads_with_token: "(\<And>c. reads_only (f c)) \<Longrightarrow> reads_only (with_token sv ctx token f)"
  unfolding with_token_def by (intro reads_as_user reads_if) simp_all

lemma reads_with_flags: "reads_only (with_flags sv c rs n limit offset)"
  unfolding with_flags_def [abs_def] by (intro reads_rules reads_lookups)

text \<open>The handlers that show something change nothing.\<close>

lemma viewing_reads:
  "reads_only (listSaved sv ctx ql qo)" "reads_only (listHistory sv ctx ql qo)" "reads_only (listListings sv ctx path ql qo qs)" "reads_only (getListing sv ctx token)"
  "reads_only (listingPriceHistory sv ctx token)" "reads_only (notificationCount sv ctx)" "reads_only (listNotifications sv ctx ql qo)"
  unfolding listSaved_def listHistory_def listListings_def getListing_def listingPriceHistory_def notificationCount_def [abs_def] listNotifications_def Let_def
  by (intro reads_rules reads_as_user reads_with_token reads_with_flags reads_lookups reads_resolve)+

text \<open>What the requests about bookmarks, hidden listings and notifications can do.\<close>

inductive feed_step :: "feed_server \<Rightarrow> 'z feed_db_scheme \<Rightarrow> 'z feed_db_scheme \<Rightarrow> bool" for sv where
  view: "reads_only f \<Longrightarrow> feed_step sv d (snd ((f :: 'z feed_db_scheme \<Rightarrow> feed_reply \<times> 'z feed_db_scheme) d))"
| save: "feed_step sv d (snd (saveListing sv ctx token d))"
| unsave: "feed_step sv d (snd (unsaveListing sv ctx token d))"
| hide: "feed_step sv d (snd (hideListing sv ctx token d))"
| unhide: "feed_step sv d (snd (unhideListing sv ctx token d))"
| seen: "feed_step sv d (snd (markListingSeen sv ctx token d))"
| unseen: "feed_step sv d (snd (unmarkListingSeen sv ctx token d))"
| all_seen: "feed_step sv d (snd (markNotificationsSeen sv now ctx d))"

inductive_cases feed_stepE: "feed_step sv d d'"

definition feeds_capped :: "'z db_scheme \<Rightarrow> bool" where
  "feeds_capped d \<longleftrightarrow> (\<forall>c. length (own c (db_saved d)) \<le> maxSavedListings \<and> length (own c (db_hidden d)) \<le> maxHiddenListings)"

lemma feeds_capped_faults [simp]: "feeds_capped (d\<lparr>db_faults := fs\<rparr>) = feeds_capped d"
  by (simp add: feeds_capped_def)

lemma capped_same: "db_saved d' = db_saved d \<Longrightarrow> db_hidden d' = db_hidden d \<Longrightarrow> feeds_capped d' = feeds_capped d"
  by (simp add: feeds_capped_def)

lemma capped_reads:
  assumes "reads_only f" "feeds_capped d"
  shows "feeds_capped (snd (f d))"
  using reads_here [OF assms(1), of d] assms(2) by (metis feeds_capped_faults)

lemma done_or_state [simp]: "snd (done_or msg r) = snd r"
  by (cases r) (simp add: done_or_def split: sum.split)

text \<open>A call spelled out.\<close>

lemma no_faults_update: "db_faults d = [] \<Longrightarrow> d\<lparr>db_faults := []\<rparr> = d"
  by (cases d) simp

lemma db_call_eq:
  "db_call err f d = (if db_faults d \<noteq> [] \<and> hd (db_faults d) then (Inl err, d\<lparr>db_faults := tl (db_faults d)\<rparr>) else f (d\<lparr>db_faults := tl (db_faults d)\<rparr>))"
proof (cases "db_faults d")
  case Nil
  then show ?thesis by (simp add: no_faults_update)
qed (simp add: db_call_def next_fault_def)

lemma with_token_P:
  assumes "\<And>r fs. P (r, d\<lparr>db_faults := fs\<rparr>)" "\<And>c fs. token \<noteq> '''' \<Longrightarrow> P (f c (d\<lparr>db_faults := fs\<rparr>))"
  shows "P (with_token sv ctx token f d)"
  by (rule with_token_cases [of sv ctx token f d]) (simp_all add: assms)

lemma as_user_P:
  assumes "\<And>r fs. P (r, d\<lparr>db_faults := fs\<rparr>)" "\<And>c fs. P (f c (d\<lparr>db_faults := fs\<rparr>))"
  shows "P (as_user sv ctx f d)"
  by (rule as_user_cases [of sv ctx f d]) (simp_all add: assms)

lemma saveListing_tables:
  "snd (saveListing sv ctx token d) = d'
   \<Longrightarrow> db_hidden d' = db_hidden d \<and> (db_saved d' = db_saved d \<or> (\<exists>c. length (own c (db_saved d)) < maxSavedListings \<and> db_saved d' = add_pair c token (db_saved d)))"
  unfolding saveListing_def
  by (erule subst, rule with_token_P) (auto simp: CountSaved_def SaveBookmark_def db_call_eq done_or_def not_le)

lemma hideListing_tables:
  "snd (hideListing sv ctx token d) = d'
   \<Longrightarrow> db_saved d' = db_saved d \<and> (db_hidden d' = db_hidden d \<or> (\<exists>c. length (own c (db_hidden d)) < maxHiddenListings \<and> db_hidden d' = add_pair c token (db_hidden d)))"
  unfolding hideListing_def
  by (erule subst, rule with_token_P) (auto simp: CountHidden_def HideListing_def db_call_eq done_or_def not_le)


lemma unsave_tables:
  "db_hidden (snd (unsaveListing sv ctx token d)) = db_hidden d
   \<and> length (own c (db_saved (snd (unsaveListing sv ctx token d)))) \<le> length (own c (db_saved d))"
  unfolding unsaveListing_def
  by (rule with_token_P [where P = "\<lambda>x. db_hidden (snd x) = db_hidden d \<and> length (own c (db_saved (snd x))) \<le> length (own c (db_saved d))"])
    (simp_all add: RemoveBookmark_def remove_pair_def db_call_eq length_own_filter)

lemma unhide_tables:
  "db_saved (snd (unhideListing sv ctx token d)) = db_saved d
   \<and> length (own c (db_hidden (snd (unhideListing sv ctx token d)))) \<le> length (own c (db_hidden d))"
  unfolding unhideListing_def
  by (rule with_token_P [where P = "\<lambda>x. db_saved (snd x) = db_saved d \<and> length (own c (db_hidden (snd x))) \<le> length (own c (db_hidden d))"])
    (simp_all add: UnhideListing_def remove_pair_def db_call_eq length_own_filter)

definition same_lists :: "'z db_scheme \<Rightarrow> 'z db_scheme \<Rightarrow> bool" where
  "same_lists d d' \<longleftrightarrow> db_saved d' = db_saved d \<and> db_hidden d' = db_hidden d"

lemma seen_tables:
  "same_lists d (snd (markListingSeen sv ctx token d))" "same_lists d (snd (unmarkListingSeen sv ctx token d))"
  "same_lists d (snd (markNotificationsSeen sv now ctx d))"
proof -
  show "same_lists d (snd (markListingSeen sv ctx token d))"
    unfolding markListingSeen_def
    by (rule with_token_P [where P = "\<lambda>x. same_lists d (snd x)"]) (simp_all add: same_lists_def MarkListingUserSeen_def db_call_eq)
  show "same_lists d (snd (unmarkListingSeen sv ctx token d))"
    unfolding unmarkListingSeen_def
    by (rule with_token_P [where P = "\<lambda>x. same_lists d (snd x)"]) (simp_all add: same_lists_def UnmarkListingUserSeen_def db_call_eq)
  show "same_lists d (snd (markNotificationsSeen sv now ctx d))"
    unfolding markNotificationsSeen_def
    by (rule as_user_P [where P = "\<lambda>x. same_lists d (snd x)"]) (simp_all add: same_lists_def UpdateLastSeenAt_def db_call_eq)
qed

lemma own_add_le:
  assumes "length (own c rows) < m" "length (own c' rows) \<le> m"
  shows "length (own c' (add_pair c token rows)) \<le> m"
  using length_own_add [of c' c token rows] assms by (cases "c' = c") simp_all

lemma capped_step:
  assumes "feed_step sv d d'" "feeds_capped d"
  shows "feeds_capped d'"
  using assms
proof (induction rule: feed_step.induct)
  case (view f d)
  then show ?case by (rule capped_reads)
next
  case (save d ctx token)
  then show ?case
    using saveListing_tables [OF refl, of sv ctx token d] own_add_le unfolding feeds_capped_def by metis
next
  case (unsave d ctx token)
  then show ?case using unsave_tables [of sv ctx token d] order_trans unfolding feeds_capped_def by metis
next
  case (hide d ctx token)
  then show ?case
    using hideListing_tables [OF refl, of sv ctx token d] own_add_le unfolding feeds_capped_def by metis
next
  case (unhide d ctx token)
  then show ?case using unhide_tables [of sv ctx token d] order_trans unfolding feeds_capped_def by metis
qed (use seen_tables capped_same in \<open>metis same_lists_def\<close>)+


text \<open>C15. From tables within the limits, whatever requests about bookmarks, hidden listings and notifications the web API serves, of
  whatever users and one after another, and whichever calls to the database fail, no account gets more than 500 bookmarks or 1000
  hidden listings. Linking two accounts, which moves the rows of one to the other without a count, is not among these requests.\<close>

theorem bookmarks_capped:
  assumes "(feed_step sv)\<^sup>*\<^sup>* d d'" "feeds_capped d"
  shows "length (own c (db_saved d')) \<le> 500 \<and> length (own c (db_hidden d')) \<le> 1000"
proof -
  have "feeds_capped d'" using assms by (induction rule: rtranclp_induct) (auto intro: capped_step)
  then show ?thesis by (simp add: feeds_capped_def maxSavedListings_def maxHiddenListings_def)
qed

definition sample_feed :: feed_db where
  "sample_feed = db.extend (sample_tables\<lparr>db_users := [(7, new_user 7 ''a'' ''telegram'' '''')]\<rparr>)
     \<lparr>db_user_seen = [], db_created_at = (\<lambda>_. 0), db_last_seen_at = (\<lambda>_. None)\<rparr>"

definition sample_feed_server :: feed_server where
  "sample_feed_server = search_server.extend sample_server \<lparr>fs_saved = True, fs_notifs = True\<rparr>"

subsection \<open>Pages\<close>

lemma concat_pages: "concat (map (\<lambda>i. take n (drop (i * n) xs)) [0..<k]) = take (k * n) xs"
proof (induction k)
  case (Suc k)
  have "take (Suc k * n) xs = take (k * n + n) xs" by (simp add: add.commute)
  then show ?case using Suc by (simp add: take_add del: mult_Suc)
qed simp

lemma mset_listingsOrderBy: "mset (listingsOrderBy order rows) = mset rows"
  by (simp add: listingsOrderBy_def newestOrderBy_def)

text \<open>The rows of the history stand under the keys that their columns name, each key once.\<close>

definition history_keyed :: "'z db_scheme \<Rightarrow> bool" where
  "history_keyed d \<longleftrightarrow> distinct (map fst (db_history d)) \<and> (\<forall>((t, c), h) \<in> set (db_history d). lr_Token h = t \<and> lr_ChatID h = c)"

text \<open>Which of two listings is shown first: the one with a price, a score or a mileage before the one without; then the cheaper, the
  dearer, the better, the one driven less, the younger, or the one posted later, as asked for; then the one with the greater token.\<close>

definition listed_before :: "string \<Rightarrow> history_row \<Rightarrow> history_row \<Rightarrow> bool" where
  "listed_before order r q \<longleftrightarrow>
    (let known_first = (\<lambda>known better equal. (known r \<and> \<not> known q) \<or>
           (known r = known q \<and> (better r q \<or> (equal r q \<and> lr_Token q < lr_Token r))));
         posted = (\<lambda>x. case lr_PostedAt x of Some t \<Rightarrow> t | None \<Rightarrow> lr_FirstSeenAt x)
     in if order = ''price_asc'' then known_first (\<lambda>x. lr_Price x > 0) (\<lambda>x y. lr_Price x < lr_Price y) (\<lambda>x y. lr_Price x = lr_Price y)
     else if order = ''price_desc'' then known_first (\<lambda>x. lr_Price x > 0) (\<lambda>x y. lr_Price x > lr_Price y) (\<lambda>x y. lr_Price x = lr_Price y)
     else if order = ''score'' then known_first (\<lambda>x. lr_FitnessScore x \<noteq> None)
       (\<lambda>x y. the (lr_FitnessScore x) > the (lr_FitnessScore y) \<and> lr_FitnessScore x \<noteq> None) (\<lambda>x y. lr_FitnessScore x = lr_FitnessScore y)
     else if order = ''km'' then known_first (\<lambda>x. lr_Km x > 0) (\<lambda>x y. lr_Km x < lr_Km y) (\<lambda>x y. lr_Km x = lr_Km y)
     else if order = ''year'' then known_first (\<lambda>x. True) (\<lambda>x y. lr_Year x > lr_Year y) (\<lambda>x y. lr_Year x = lr_Year y)
     else known_first (\<lambda>x. True) (\<lambda>x y. posted x > posted y) (\<lambda>x y. posted x = posted y))"

lemma sorted_strict:
  fixes key :: "'a \<Rightarrow> 'k :: linorder"
  assumes "distinct (map tok xs)" "\<And>x y. key x \<le> key y \<Longrightarrow> tok x \<noteq> tok y \<Longrightarrow> P x y"
  shows "sorted_wrt P (sort_key key xs)"
proof -
  have "distinct (map tok (sort_key key xs))"
    using assms(1) by (metis mset_map mset_sort distinct_count_atmost_1 mset_eq_imp_distinct_iff)
  then have ne: "sorted_wrt (\<lambda>x y. tok x \<noteq> tok y) (sort_key key xs)"
    by (induction "sort_key key xs" rule: rev_induct) (simp_all add: distinct_conv_nth sorted_wrt_iff_nth_less)
  have "sorted_wrt (\<lambda>x y. key x \<le> key y) (sort_key key xs)" using sorted_sort_key [of key xs] by (simp add: sorted_map)
  with ne show ?thesis using assms(2) by (simp add: sorted_wrt_iff_nth_less)
qed

lemma listingsOrderBy_sorted:
  assumes "distinct (map lr_Token rows)"
  shows "sorted_wrt (listed_before order) (listingsOrderBy order rows)"
proof -
  note strict = sorted_strict [where tok = lr_Token, OF assms]
  note defs = listed_before_def Let_def less_eq_prod_def less_prod_def
  have score: "sorted_wrt (listed_before ''score'')
      (sort_key (\<lambda>r. (lr_FitnessScore r = None, Desc (case lr_FitnessScore r of Some x \<Rightarrow> x | None \<Rightarrow> 0), Desc (lr_Token r))) rows)"
    by (rule strict) (auto simp: defs split: option.splits)
  have "sorted_wrt (listed_before ''price_asc'') (sort_key (\<lambda>r. (lr_Price r \<le> 0, lr_Price r, Desc (lr_Token r))) rows)"
    "sorted_wrt (listed_before ''price_desc'') (sort_key (\<lambda>r. (lr_Price r \<le> 0, Desc (lr_Price r), Desc (lr_Token r))) rows)"
    "sorted_wrt (listed_before ''km'') (sort_key (\<lambda>r. (lr_Km r \<le> 0, lr_Km r, Desc (lr_Token r))) rows)"
    "sorted_wrt (listed_before ''year'') (sort_key (\<lambda>r. (Desc (lr_Year r), Desc (lr_Token r))) rows)"
    by (rule strict; auto simp: defs)+
  moreover have "sorted_wrt (listed_before order) (newestOrderBy rows)"
    if "order \<notin> {''price_asc'', ''price_desc'', ''score'', ''km'', ''year''}"
    unfolding newestOrderBy_def by (rule strict) (use that in \<open>auto simp: defs split: option.splits\<close>)
  ultimately show ?thesis using score by (auto simp: listingsOrderBy_def)
qed

lemma search_rows_tokens:
  assumes "history_keyed d"
  shows "distinct (map lr_Token (search_rows c sid f d))"
proof -
  let ?rows = "filter (\<lambda>((t, k), h). k = c \<and> lr_SearchID h = sid \<and> shown f h) (db_history d)"
  have "map lr_Token (map snd ?rows) = map fst (map fst ?rows)"
    using assms by (auto simp: history_keyed_def)
  moreover have "distinct (map fst ?rows)" using assms by (simp add: history_keyed_def distinct_map_filter)
  moreover have "inj_on fst (set (map fst ?rows))" by (auto simp: inj_on_def)
  ultimately have "distinct (map lr_Token (map snd ?rows))" by (simp only: distinct_map)
  then show ?thesis by (simp add: search_rows_def)
qed

text \<open>The rows of the \<open>i\<close>-th page of \<open>n\<close> rows; none when the query fails.\<close>

definition nth_page :: "int \<Rightarrow> int \<Rightarrow> listing_filter \<Rightarrow> string \<Rightarrow> nat \<Rightarrow> 'z db_scheme \<Rightarrow> nat \<Rightarrow> history_row list" where
  "nth_page c sid f order n d i =
    (case fst (ListSearchListings c sid f (int n) (int (i * n)) order d) of Inr rows \<Rightarrow> rows | Inl _ \<Rightarrow> [])"

lemma nth_page_take: "db_faults d = [] \<Longrightarrow> nth_page c sid f order n d i = take n (drop (i * n) (listingsOrderBy order (search_rows c sid f d)))"
  by (simp add: nth_page_def ListSearchListings_def page_of_def nat_mult_distrib)

text \<open>C16. The pages of a search, read one after the other while the database answers and the list does not change, are its
  listings in the order asked for: every listing of the search that is shown is on exactly one page, once, each listing stands
  before those it is to be listed before, every page but the last is full, and the count that goes with the pages is their number.\<close>

theorem pages_partition:
  assumes "db_faults d = []" "history_keyed d" "length (search_rows c sid f d) \<le> k * n"
  shows "set (concat (map (nth_page c sid f order n d) [0..<k])) = {h. \<exists>t. ((t, c), h) \<in> set (db_history d) \<and> lr_SearchID h = sid \<and> shown f h}
    \<and> distinct (map lr_Token (concat (map (nth_page c sid f order n d) [0..<k])))
    \<and> sorted_wrt (listed_before order) (concat (map (nth_page c sid f order n d) [0..<k]))
    \<and> (\<forall>i<k. nth_page c sid f order n d (Suc i) \<noteq> [] \<longrightarrow> length (nth_page c sid f order n d i) = n)
    \<and> fst (CountSearchListings c sid f d) = Inr (length (concat (map (nth_page c sid f order n d) [0..<k])))"
proof -
  let ?rows = "listingsOrderBy order (search_rows c sid f d)"
  have len: "length ?rows = length (search_rows c sid f d)" by (metis mset_listingsOrderBy size_mset)
  note page = nth_page_take [OF assms(1), of c sid f order n]
  have all: "concat (map (nth_page c sid f order n d) [0..<k]) = ?rows"
    using concat_pages [of n ?rows k] assms(3) len by (simp add: page [abs_def])
  have "distinct (map lr_Token ?rows)"
    using search_rows_tokens [OF assms(2)] by (metis mset_listingsOrderBy mset_map mset_eq_imp_distinct_iff)
  moreover have "set ?rows = {h. \<exists>t. ((t, c), h) \<in> set (db_history d) \<and> lr_SearchID h = sid \<and> shown f h}"
    using mset_eq_setD [OF mset_listingsOrderBy] by (force simp: search_rows_def)
  moreover have "length (nth_page c sid f order n d i) = n" if "nth_page c sid f order n d (Suc i) \<noteq> []" for i
    using that by (auto simp: page min_def)
  ultimately show ?thesis
    unfolding all using listingsOrderBy_sorted [OF search_rows_tokens [OF assms(2)]] assms(1) len by (simp add: CountSearchListings_def)
qed

text \<open>Two listings on one page, by mileage: the one whose mileage is known comes first.\<close>

definition two_listings :: db where
  "two_listings = empty_db\<lparr>db_history :=
     [((''a'', 7), new_row 0 (zero_record\<lparr>lr_Token := ''a'', lr_ChatID := 7, lr_SearchID := 2\<rparr>)),
      ((''b'', 7), new_row 0 (zero_record\<lparr>lr_Token := ''b'', lr_ChatID := 7, lr_SearchID := 2, lr_Km := 9\<rparr>))]\<rparr>"

theorem pages_partition_witness:
  "sorted_wrt (listed_before ''km'') (concat (map (nth_page 7 2 (listingFilterFromSearch zero_search) ''km'' 1 two_listings) [0..<2]))
   \<and> map lr_Token (concat (map (nth_page 7 2 (listingFilterFromSearch zero_search) ''km'' 1 two_listings) [0..<2])) = [''b'', ''a'']"
proof -
  have h: "db_faults two_listings = []" "history_keyed two_listings"
    "length (search_rows 7 2 (listingFilterFromSearch zero_search) two_listings) \<le> 2 * 1"
    by (simp_all add: two_listings_def empty_db_def history_keyed_def new_row_def listing_record.defs zero_record_def search_rows_def)
  have "map lr_Token (concat (map (nth_page 7 2 (listingFilterFromSearch zero_search) ''km'' 1 two_listings) [0..<2])) = [''b'', ''a'']"
    by code_simp
  then show ?thesis using pages_partition [OF h, of "''km''"] by simp
qed

subsection \<open>The badge and the list\<close>

lemma notifFilter_seller:
  "notifFilter s (r\<lparr>lr_IsCommercial := x\<rparr>) \<longleftrightarrow>
     (s_MaxKm s = 0 \<or> lr_Km r \<le> s_MaxKm s \<or> lr_Km r = 0)
   \<and> (s_MaxHand s = 0 \<or> lr_Hand r \<le> s_MaxHand s)
   \<and> (s_PriceMin s = 0 \<or> lr_Price r \<ge> s_PriceMin s \<or> lr_Price r = 0)
   \<and> (s_PriceMax s = 0 \<or> lr_Price r \<le> s_PriceMax s)
   \<and> (s_YearMin s = 0 \<or> lr_Year r \<ge> s_YearMin s)
   \<and> (s_YearMax s = 0 \<or> lr_Year r \<le> s_YearMax s)
   \<and> (s_SellerFilter s = '''' \<or> s_SellerFilter s = ''any'' \<or> (s_SellerFilter s = ''private'' \<and> x = Some False)
      \<or> (s_SellerFilter s = ''commercial'' \<and> x = Some True))"
  by (simp add: notifFilter_def)

lemma shown_badge:
  assumes "search_ok s"
  shows "shown (listingFilterFromSearch s) r \<longleftrightarrow>
    notifFilter s (r\<lparr>lr_IsCommercial := Some (lr_IsCommercial r = Some True)\<rparr>) \<and> lr_RemovedAt r = None
    \<and> (s_GearBox s = '''' \<or> lr_GearBox r = '''' \<or> to_lower (lr_GearBox r) = to_lower (s_GearBox s))
    \<and> (s_PriceOnly s \<longrightarrow> lr_Price r > 0) \<and> (s_PhotoOnly s \<longrightarrow> lr_ImageURL r \<noteq> '''')"
proof -
  have "normal_seller s" and pos: "0 \<le> s_YearMin s" "0 \<le> s_YearMax s" "0 \<le> s_PriceMin s" "0 \<le> s_PriceMax s" "0 \<le> s_MaxKm s" "0 \<le> s_MaxHand s"
    using assms search_ok_iff [of s] by (simp_all add: search_ok_def)
  have n: "NormalizeSellerFilter ''any'' = ''any''" "NormalizeSellerFilter ''private'' = ''private''"
    "NormalizeSellerFilter ''commercial'' = ''commercial''" by code_simp+
  have seller: "(case lf_Commercial (listingFilterFromSearch s) of None \<Rightarrow> True | Some x \<Rightarrow> (lr_IsCommercial r = Some True) = x) \<longleftrightarrow>
      s_SellerFilter s = '''' \<or> s_SellerFilter s = ''any'' \<or> (s_SellerFilter s = ''private'' \<and> Some (lr_IsCommercial r = Some True) = Some False)
      \<or> (s_SellerFilter s = ''commercial'' \<and> Some (lr_IsCommercial r = Some True) = Some True)"
    by (rule normal_seller_cases [OF \<open>normal_seller s\<close>]) (simp_all add: n listingFilterFromSearch_def Let_def)
  have zero: "(0 < x \<longrightarrow> P) = (x = 0 \<or> P)" if "0 \<le> x" for x :: int and P using that by auto
  show ?thesis
    unfolding shown_iff notifFilter_seller seller
    by (simp only: listingFilterFromSearch_def listing_filter.simps zero [OF pos(1)] zero [OF pos(2)] zero [OF pos(3)] zero [OF pos(4)]
      zero [OF pos(5)] zero [OF pos(6)] simp_thms) blast
qed

lemma badge_seller: "lr_IsCommercial r \<noteq> None \<Longrightarrow> notifFilter s (r\<lparr>lr_IsCommercial := Some (lr_IsCommercial r = Some True)\<rparr>) = notifFilter s r"
  unfolding notifFilter_seller by (cases "lr_IsCommercial r") (simp_all add: notifFilter_def)

text \<open>C17. The badge of the notification centre and the list of a search do not agree on the listings that are new. Let \<open>h\<close> be a row of
  a search that passed the checks, first seen after the moment asked about and not dismissed. The list shows it exactly if it is not
  gone, meets the gear box, price-only and photo-only settings, and the badge counts it, or would count it were its seller, who is
  unknown, a private one: the badge knows nothing of these settings, counts what is gone, and leaves out unknown sellers whenever the
  search asks for private ones.\<close>

theorem list_is_narrower_than_badge:
  assumes "search_ok s" "s \<in> set (db_searches d)" "distinct (map s_ID (db_searches d))"
    and "((t, s_ChatID s), h) \<in> set (db_history d)" "lr_SearchID h = s_ID s" "lr_FirstSeenAt h > since" "(s_ChatID s, t) \<notin> set (db_user_seen d)"
  shows "h \<in> set (search_rows (s_ChatID s) (s_ID s) (listingFilterFromSearch s) d) \<longleftrightarrow>
    (h \<in> set (new_rows (s_ChatID s) since d) \<or>
      lr_IsCommercial h = None \<and> notifFilter s (h\<lparr>lr_IsCommercial := Some False\<rparr>))
    \<and> lr_RemovedAt h = None
    \<and> (s_GearBox s = '''' \<or> lr_GearBox h = '''' \<or> to_lower (lr_GearBox h) = to_lower (s_GearBox s))
    \<and> (s_PriceOnly s \<longrightarrow> lr_Price h > 0) \<and> (s_PhotoOnly s \<longrightarrow> lr_ImageURL h \<noteq> '''')"
proof -
  have one: "x = s" if "x \<in> set (db_searches d)" "s_ID x = s_ID s" for x
    using that assms(2,3) by (metis distinct_map inj_onD)
  have "list_ex (\<lambda>x. s_ID x = lr_SearchID h \<and> s_ChatID x = s_ChatID s \<and> notifFilter x h) (db_searches d) \<longleftrightarrow> notifFilter s h"
    using assms(2,5) one by (metis (mono_tags, lifting) list_ex_iff)
  moreover have "h \<in> set (new_rows (s_ChatID s) since d) \<longleftrightarrow>
      list_ex (\<lambda>x. s_ID x = lr_SearchID h \<and> s_ChatID x = s_ChatID s \<and> notifFilter x h) (db_searches d)" (is "_ \<longleftrightarrow> ?any")
  proof
    assume "h \<in> set (new_rows (s_ChatID s) since d)"
    then show ?any unfolding new_rows_def by auto
  next
    assume ?any
    then show "h \<in> set (new_rows (s_ChatID s) since d)"
      unfolding new_rows_def set_map set_filter using assms(4,6,7) by (intro image_eqI [of h snd "((t, s_ChatID s), h)"]) simp_all
  qed
  ultimately have badge: "h \<in> set (new_rows (s_ChatID s) since d) \<longleftrightarrow> notifFilter s h" by simp
  have list: "h \<in> set (search_rows (s_ChatID s) (s_ID s) (listingFilterFromSearch s) d) \<longleftrightarrow> shown (listingFilterFromSearch s) h"
    using assms(4,5) by (force simp: search_rows_def)
  have unknown: "notifFilter s h \<Longrightarrow> lr_IsCommercial h = None \<Longrightarrow> notifFilter s (h\<lparr>lr_IsCommercial := Some False\<rparr>)"
    by (auto simp: notifFilter_def)
  have seller: "notifFilter s (h\<lparr>lr_IsCommercial := Some (lr_IsCommercial h = Some True)\<rparr>) \<longleftrightarrow>
      notifFilter s h \<or> lr_IsCommercial h = None \<and> notifFilter s (h\<lparr>lr_IsCommercial := Some False\<rparr>)"
    using badge_seller [of h s] unknown by (cases "lr_IsCommercial h = None") auto
  show ?thesis unfolding list badge shown_badge [OF assms(1)] seller ..
qed

text \<open>A listing without a price under a search for listings with one: the badge counts it, the list does not show it.\<close>

definition priced_search :: search where
  "priced_search = zero_search\<lparr>s_ID := 2, s_ChatID := 7, s_Source := ''yad2'', s_SellerFilter := ''any'', s_PriceOnly := True\<rparr>"

definition unpriced_row :: history_row where
  "unpriced_row = new_row 0 (zero_record\<lparr>lr_Token := ''a'', lr_ChatID := 7, lr_SearchID := 2, lr_FirstSeenAt := 5\<rparr>)"

definition unpriced_feed :: feed_db where
  "unpriced_feed = db.extend (empty_db\<lparr>db_searches := [priced_search], db_history := [((''a'', 7), unpriced_row)]\<rparr>)
     \<lparr>db_user_seen = [], db_created_at = (\<lambda>_. 0), db_last_seen_at = (\<lambda>_. None)\<rparr>"

theorem list_is_narrower_than_badge_witness:
  "unpriced_row \<notin> set (search_rows 7 2 (listingFilterFromSearch priced_search) unpriced_feed)
   \<and> unpriced_row \<in> set (new_rows 7 4 unpriced_feed)"
proof -
  have row: "lr_Price unpriced_row = 0" "lr_SearchID unpriced_row = 2" "lr_FirstSeenAt unpriced_row = 5" "lr_Token unpriced_row = ''a''" "lr_ChatID unpriced_row = 7"
    by (simp_all add: unpriced_row_def new_row_def listing_record.defs zero_record_def)
  have s: "s_ID priced_search = 2" "s_ChatID priced_search = 7" "s_PriceOnly priced_search" by (simp_all add: priced_search_def)
  have feed: "db_searches unpriced_feed = [priced_search]" "db_history unpriced_feed = [((''a'', 7), unpriced_row)]" "db_user_seen unpriced_feed = []"
    by (simp_all add: unpriced_feed_def db.defs)
  have "search_ok priced_search" by code_simp
  from list_is_narrower_than_badge [OF this, of unpriced_feed "''a''" unpriced_row 4]
  have "unpriced_row \<notin> set (search_rows 7 2 (listingFilterFromSearch priced_search) unpriced_feed)"
    by (simp add: feed s row)
  moreover have "unpriced_row \<in> set (new_rows 7 4 unpriced_feed)"
    by (simp add: new_rows_def feed s row) (simp add: notifFilter_def priced_search_def zero_search_def unpriced_row_def new_row_def listing_record.defs zero_record_def)
  ultimately show ?thesis by simp
qed

text \<open>A bookmark need not stand for a listing: a request to save any token is accepted, counts for the number of bookmarks
  (which the page shows and the limit of 500 is about), and changes nothing in the pages of bookmarks.\<close>

lemma phantom_bookmark:
  assumes "db_faults d = []" "acting (search_server.truncate sv) ctx d = Some c" "token \<noteq> ''''"
    and "(c, token) \<notin> set (db_saved d)" "map_of (db_history d) (token, c) = None"
    and "length (own c (db_saved d)) < maxSavedListings"
  shows "fst (saveListing sv ctx token d) = FeedDone
    \<and> fst (CountSaved c (snd (saveListing sv ctx token d))) = Inr (length (own c (db_saved d)) + 1)
    \<and> fst (ListSaved c limit offset (snd (saveListing sv ctx token d))) = fst (ListSaved c limit offset d)"
proof -
  let ?d = "d\<lparr>db_saved := add_pair c token (db_saved d)\<rparr>"
  have saved: "saveListing sv ctx token d = (FeedDone, ?d)"
    using assms by (simp add: saveListing_def with_token_def as_user_def acting_no_faults CountSaved_def SaveBookmark_def done_or_def)
  have "own c (add_pair c token (db_saved d)) = own c (db_saved d) @ [token]"
    using assms(4) by (simp add: own_def add_pair_def)
  then show ?thesis
    using assms(1,5) by (simp add: saved CountSaved_def ListSaved_def saved_rows_def map_filter_simps)
qed

lemma acting_users:
  assumes "db_faults d = []" "db_faults d' = []" "db_users d' = db_users d"
  shows "acting sv ctx d' = acting sv ctx d"
  using assms
  by (simp add: acting_def requireResolvedChatID_def resolveCanonicalChatID_def GetLinkedTelegramUser_def split_beta split: option.split sum.split)

text \<open>Once a user has looked at his notifications, the badge shows nothing until a listing newer than that is stored.\<close>

lemma badge_cleared_by_looking:
  assumes "db_faults d = []" "acting (search_server.truncate sv) ctx d = Some c" "map_of (db_users d) c \<noteq> None"
    and "\<forall>(k, r) \<in> set (db_history d). lr_FirstSeenAt r \<le> now"
  shows "fst (markNotificationsSeen sv now ctx d) = FeedDone
    \<and> fst (notificationCount sv ctx (snd (markNotificationsSeen sv now ctx d))) = FeedCount 0"
proof -
  let ?d = "d\<lparr>db_last_seen_at := (db_last_seen_at d)(c := Some now)\<rparr>"
  obtain u where u: "map_of (db_users d) c = Some u" using assms(3) by blast
  have marked: "markNotificationsSeen sv now ctx d = (FeedDone, ?d)"
    using assms(1,2) u by (simp add: markNotificationsSeen_def as_user_def acting_no_faults UpdateLastSeenAt_def done_or_def)
  have none: "new_rows c now ?d = []"
    using assms(4) by (auto simp: new_rows_def filter_empty_conv)
  obtain i where i: "chatIDFromContext ctx = Some i"
    using assms(2) by (auto simp: acting_def requireResolvedChatID_def split: option.splits)
  have "acting (search_server.truncate sv) ctx ?d = Some c"
    using assms(1,2) acting_users [of d ?d] by simp
  then have "resolveCanonicalChatID (search_server.truncate sv) i ?d = (c, ?d)"
    using acting_no_faults [of ?d "search_server.truncate sv" ctx] assms(1) i
    by (simp add: requireResolvedChatID_def split: prod.splits)
  then show ?thesis
    using assms(1) u none by (simp add: marked notificationCount_def i GetLastSeenAt_def CountNewListingsSince_def)
qed


text \<open>A user with one listing, and a server for him.\<close>

lemma sample_acting:
  "acting (search_server.truncate sample_feed_server) (Some 7) sample_feed = Some 7"
  "db_faults sample_feed = []"
  by (simp_all add: acting_def requireResolvedChatID_def chatIDFromContext_def resolveCanonicalChatID_def GetLinkedTelegramUser_def sample_feed_def
    sample_feed_server_def sample_server_def sample_tables_def empty_db_def new_user_def search_server.defs db.defs)

lemma phantom_bookmark_witness:
  "fst (saveListing sample_feed_server (Some 7) ''ghost'' sample_feed) = FeedDone
   \<and> fst (CountSaved 7 (snd (saveListing sample_feed_server (Some 7) ''ghost'' sample_feed))) = Inr 1"
proof -
  have "db_saved sample_feed = []" "map_of (db_history sample_feed) (''ghost'', 7) = None"
    by (simp_all add: sample_feed_def sample_tables_def empty_db_def db.defs)
  then show ?thesis
    using phantom_bookmark [of sample_feed sample_feed_server "Some 7" 7 "''ghost''" 20 0]
    by (simp add: sample_acting own_def maxSavedListings_def)
qed

lemma badge_cleared_by_looking_witness:
  "fst (notificationCount sample_feed_server (Some 7) (snd (markNotificationsSeen sample_feed_server 5 (Some 7) sample_feed))) = FeedCount 0"
proof -
  have "map_of (db_users sample_feed) 7 \<noteq> None" "\<forall>(k, r) \<in> set (db_history sample_feed). lr_FirstSeenAt r \<le> 5"
    by (simp_all add: sample_feed_def sample_tables_def db.defs new_row_def listing_record.defs zero_record_def)
  then show ?thesis
    using badge_cleared_by_looking [of sample_feed sample_feed_server "Some 7" 7 5] by (simp add: sample_acting)
qed

theorem bookmarks_capped_witness:
  "length (own 7 (db_saved (snd (saveListing sample_feed_server (Some 7) ''ghost'' sample_feed)))) \<le> 500"
proof -
  have "feeds_capped sample_feed"
    by (simp add: feeds_capped_def sample_feed_def sample_tables_def empty_db_def db.defs own_def)
  then show ?thesis
    using bookmarks_capped [of sample_feed_server sample_feed "snd (saveListing sample_feed_server (Some 7) ''ghost'' sample_feed)"]
      feed_step.save by blast
qed

text \<open>A row of the example, seen from the notification centre.\<close>

lemma batches_exact: "set (concat (map (filter P) (in_batches n xs))) = set (filter P xs)"
proof (induction n xs rule: in_batches.induct)
  case (2 n x xs)
  have "set (filter P (x # take (n - 1) xs)) \<union> set (filter P (drop (n - 1) xs)) = set (filter P (x # xs))"
    by (metis append_Cons append_take_drop_id filter_append set_append)
  then show ?case using 2 by simp
qed simp

lemma uniq_tokens_set: "set (uniq_tokens ts) = set ts - {''''}"
proof -
  have "set (fold (\<lambda>t uniq. if t = '''' \<or> t \<in> set uniq then uniq else t # uniq) ts acc) = set acc \<union> (set ts - {''''})" for acc
    by (induction ts arbitrary: acc) auto
  then show ?thesis by (simp add: uniq_tokens_def)
qed

text \<open>The batches answer what one look at the table would: which of the tokens are bookmarked.\<close>

lemma SavedAmong_exact:
  assumes "db_faults d = []"
  shows "SavedAmong c ts d = (Inr {t \<in> set ts - {''''}. (c, t) \<in> set (db_saved d)}, d)"
proof -
  have "{t \<in> set ts - {''''}. (c, t) \<in> set (db_saved d)} = {}" if "uniq_tokens ts = []"
    using that uniq_tokens_set [of ts] by auto
  then show ?thesis
    using assms unfolding SavedAmong_def lookup_among_def Let_def
    by (auto simp: uniq_tokens_set simp del: set_concat simp: batches_exact)
qed

end
