(* ===== verification/Wizard.thy ===== *)
theory Wizard
  imports WizardData Feeds "HOL-Library.State_Monad"
begin

section \<open>The dialogue of the Telegram bot (internal/bot/wizard.go, state.go, bot.go)\<close>

text \<open>
  A user builds or edits a search by answering questions: each answer is a message or a pressed button, handled by the
  handler of the state that his row holds. The handlers read and write the row through the store, any call of which
  may fail; they are in the state monad, in the order of the code. A message is recorded by the key of its text; what
  its placeholders and buttons show is left out, as are logging and the sending itself, whose errors are only logged.
  Updates of a chat are handled one after another.
\<close>

subsection \<open>The bot\<close>

text \<open>The configuration, the catalogue and the texts, and what an update finds: the clock (seconds, and the year), and the
  number and share token of a row that would be inserted.\<close>

record bot =
  bt_MaxSearches :: int
  bt_QuickStartManufacturer :: int
  bt_QuickStartModel :: int
  bt_ManufacturerName :: "int \<Rightarrow> string"
  bt_ModelName :: "int \<Rightarrow> int \<Rightarrow> string"
  bt_T :: "string \<Rightarrow> string \<Rightarrow> string"
  bt_poll :: bool
  bt_links :: bool
  bt_listings :: bool
  bt_digests :: bool
  bt_dailyDigests :: bool
  bt_saved :: bool
  bt_hidden :: bool
  bt_adminChatID :: int
  bt_username :: string
  bt_now :: int
  bt_year :: int
  bt_time :: gotime
  bt_newID :: int
  bt_shareToken :: string

record dialogs =
  dl_db :: db
  dl_sent :: "(int \<times> string) list"
  dl_pages :: "(int \<times> string list) list"
  dl_polls :: nat

type_synonym 'a act = "(dialogs, 'a) state"
type_synonym handler = "bot \<Rightarrow> int \<Rightarrow> string \<Rightarrow> unit act"

abbreviation stop :: "unit act" where "stop \<equiv> State_Monad.return ()"

definition store :: "(db \<Rightarrow> 'a \<times> db) \<Rightarrow> 'a act" where
  "store f = State (\<lambda>s. case f (dl_db s) of (r, d) \<Rightarrow> (r, s\<lparr>dl_db := d\<rparr>))"

definition say :: "int \<Rightarrow> string \<Rightarrow> unit act" where
  "say chatID key = State (\<lambda>s. ((), s\<lparr>dl_sent := dl_sent s @ [(chatID, key)]\<rparr>))"

definition TriggerPoll :: "bot \<Rightarrow> unit act" where
  "TriggerPoll b = State (\<lambda>s. ((), if bt_poll b then s\<lparr>dl_polls := dl_polls s + 1\<rparr> else s))"


definition getUserLang :: "int \<Rightarrow> string act" where
  "getUserLang chatID = do {
     r \<leftarrow> store (GetUser chatID);
     State_Monad.return (case r of Inr (Some u) \<Rightarrow> if u_Language u = '''' then ''he'' else u_Language u | _ \<Rightarrow> ''he'')
   }"

text \<open>\<open>b.send(ctx, chatID, locale.T(b.getUserLang(ctx, chatID), key))\<close>.\<close>

definition sayT :: "int \<Rightarrow> string \<Rightarrow> unit act" where
  "sayT chatID key = do { lang \<leftarrow> getUserLang chatID; say chatID key }"

definition ensureUser :: "int \<Rightarrow> string \<Rightarrow> bool act" where
  "ensureUser chatID username = do {
     r \<leftarrow> store (UpsertUser chatID username);
     case r of
       Inl _ \<Rightarrow> do { sayT chatID ''error_generic''; State_Monad.return False }
     | Inr _ \<Rightarrow> State_Monad.return True
   }"

definition defaultMaxSearches :: int where "defaultMaxSearches = 10"

definition maxSearchesForUser :: "bot \<Rightarrow> int" where
  "maxSearchesForUser b = (if bt_MaxSearches b > 0 then bt_MaxSearches b else defaultMaxSearches)"

definition checkSearchLimit :: "bot \<Rightarrow> int \<Rightarrow> string \<Rightarrow> bool act" where
  "checkSearchLimit b chatID limitKey = do {
     r \<leftarrow> store (CountSearches chatID);
     case r of
       Inl _ \<Rightarrow> do { say chatID (limitKey @ ''_error''); State_Monad.return True }
     | Inr n \<Rightarrow>
         if int n \<ge> maxSearchesForUser b then do { say chatID (limitKey @ ''_reached''); State_Monad.return True }
         else State_Monad.return False
   }"

definition modelDisplayName :: "bot \<Rightarrow> int \<Rightarrow> int \<Rightarrow> string" where
  "modelDisplayName b manufacturerID modelID = (if modelID = 0 then ''Any model'' else bt_ModelName b manufacturerID modelID)"

subsection \<open>States and their data\<close>

definition StateIdle :: string where "StateIdle = ''idle''"
definition StateAskSource :: string where "StateAskSource = ''ask_source''"
definition StateAskManufacturer :: string where "StateAskManufacturer = ''ask_manufacturer''"
definition StateSearchManufacturer :: string where "StateSearchManufacturer = ''search_manufacturer''"
definition StateAskModel :: string where "StateAskModel = ''ask_model''"
definition StateSearchModel :: string where "StateSearchModel = ''search_model''"
definition StateAskYearMin :: string where "StateAskYearMin = ''ask_year_min''"
definition StateAskYearMax :: string where "StateAskYearMax = ''ask_year_max''"
definition StateAskPriceMax :: string where "StateAskPriceMax = ''ask_price_max''"
definition StateAskPriceMin :: string where "StateAskPriceMin = ''ask_price_min''"
definition StateAskGearBox :: string where "StateAskGearBox = ''ask_gear_box''"
definition StateAskEngine :: string where "StateAskEngine = ''ask_engine''"
definition StateAskMaxKm :: string where "StateAskMaxKm = ''ask_max_km''"
definition StateAskMaxHand :: string where "StateAskMaxHand = ''ask_max_hand''"
definition StateAskKeywords :: string where "StateAskKeywords = ''ask_keywords''"
definition StateAskExcludeKeys :: string where "StateAskExcludeKeys = ''ask_exclude_keys''"
definition StateConfirm :: string where "StateConfirm = ''confirm''"

lemmas state_names = StateIdle_def StateAskSource_def StateAskManufacturer_def StateSearchManufacturer_def StateAskModel_def
  StateSearchModel_def StateAskYearMin_def StateAskYearMax_def StateAskPriceMax_def StateAskPriceMin_def StateAskGearBox_def
  StateAskEngine_def StateAskMaxKm_def StateAskMaxHand_def StateAskKeywords_def StateAskExcludeKeys_def StateConfirm_def

definition expectStateOrNotify :: "int \<Rightarrow> string \<Rightarrow> bool act" where
  "expectStateOrNotify chatID expected = do {
     lang \<leftarrow> getUserLang chatID;
     r \<leftarrow> store (GetUser chatID);
     case r of
       Inl _ \<Rightarrow> do { say chatID ''error_generic''; State_Monad.return False }
     | Inr None \<Rightarrow> do { say chatID ''callback_expired''; State_Monad.return False }
     | Inr (Some u) \<Rightarrow>
         if u_State u \<noteq> expected then do { say chatID ''callback_expired''; State_Monad.return False }
         else State_Monad.return True
   }"

definition dialogue_data :: "user \<Rightarrow> wizard_data" where
  "dialogue_data u = (case unmarshal_wizard (u_StateData u) of Some wd \<Rightarrow> wd | None \<Rightarrow> empty_wizard)"

definition loadWizardData :: "int \<Rightarrow> wizard_data act" where
  "loadWizardData chatID = do {
     r \<leftarrow> store (GetUser chatID);
     State_Monad.return (case r of Inr (Some u) \<Rightarrow> dialogue_data u | _ \<Rightarrow> empty_wizard)
   }"

definition saveWizardStateOrAbort :: "bot \<Rightarrow> int \<Rightarrow> string \<Rightarrow> wizard_data \<Rightarrow> bool act" where
  "saveWizardStateOrAbort b chatID st wd = do {
     r \<leftarrow> store (UpdateUserState chatID st (marshal_wizard (wd\<lparr>wd_UpdatedAt := bt_now b\<rparr>)));
     case r of
       Inl _ \<Rightarrow> do { sayT chatID ''wizard_save_failed''; State_Monad.return False }
     | Inr _ \<Rightarrow> State_Monad.return True
   }"

text \<open>Save, and on success ask the next question.\<close>

abbreviation save_then :: "bot \<Rightarrow> int \<Rightarrow> string \<Rightarrow> wizard_data \<Rightarrow> unit act \<Rightarrow> unit act" where
  "save_then b chatID st wd next \<equiv> do { ok \<leftarrow> saveWizardStateOrAbort b chatID st wd; if ok then next else stop }"

definition reset_dialogue :: "int \<Rightarrow> string \<Rightarrow> unit act" where
  "reset_dialogue chatID st = do { r \<leftarrow> store (UpdateUserState chatID st ''{}''); stop }"

subsection \<open>Reading the answers\<close>

definition TrimPrefix :: "string \<Rightarrow> string \<Rightarrow> string" where
  "TrimPrefix s p = (if prefix p s then drop (length p) s else s)"

definition fields_of :: "string \<Rightarrow> string list" where
  "fields_of s = filter (\<lambda>p. p \<noteq> '''') (split_on CHR 0x20 (map (\<lambda>c. if is_space c then CHR 0x20 else c) s))"

definition without_commas :: "string \<Rightarrow> string" where
  "without_commas s = filter (\<lambda>c. c \<noteq> CHR '','') s"

text \<open>The word for skip, in the language of the user, in English, in Hebrew.\<close>

definition says_skip :: "bot \<Rightarrow> string \<Rightarrow> string \<Rightarrow> bool" where
  "says_skip b lang text \<longleftrightarrow> equal_fold text (bt_T b lang ''wizard_keywords_skip'') \<or> equal_fold text ''skip''
     \<or> equal_fold text [CHR 0xD7, CHR 0x93, CHR 0xD7, CHR 0x9C, CHR 0xD7, CHR 0x92]"


subsection \<open>The questions (wizard.go)\<close>

definition sourceDone :: "bot \<Rightarrow> int \<Rightarrow> unit act" where
  "sourceDone b chatID = do {
     wd \<leftarrow> loadWizardData chatID;
     lang \<leftarrow> getUserLang chatID;
     if wd_Source wd = '''' then say chatID ''wizard_source_empty''
     else save_then b chatID StateAskManufacturer wd
       (do { searches \<leftarrow> store (ListSearches chatID); say chatID ''wizard_mfr_prompt'' })
   }"

definition onSourceToggle :: handler where
  "onSourceToggle b chatID data = do {
     wd \<leftarrow> loadWizardData chatID;
     save_then b chatID StateAskSource (wd\<lparr>wd_Source := ToggleSource (wd_Source wd) (TrimPrefix data ''src_toggle:'')\<rparr>)
       (sayT chatID ''wizard_source_prompt'')
   }"

definition onLegacySourceSelected :: handler where
  "onLegacySourceSelected b chatID data = do {
     wd \<leftarrow> loadWizardData chatID;
     save_then b chatID StateAskSource (wd\<lparr>wd_Source := TrimPrefix data ''src:''\<rparr>) (sourceDone b chatID)
   }"

definition onSourceDone :: handler where
  "onSourceDone b chatID data = sourceDone b chatID"

definition onMfrPage :: handler where
  "onMfrPage b chatID data =
    (case Atoi (TrimPrefix data ''mfr_pg:'') of
       None \<Rightarrow> sayT chatID ''error_wrong_state''
     | Some page \<Rightarrow> do {
         lang \<leftarrow> getUserLang chatID;
         u \<leftarrow> (if page = 0 then do { r \<leftarrow> store (ListSearches chatID); stop } else stop);
         say chatID ''wizard_mfr_prompt''
       })"

definition onMfrSearch :: handler where
  "onMfrSearch b chatID data = do {
     wd \<leftarrow> loadWizardData chatID;
     save_then b chatID StateSearchManufacturer wd (sayT chatID ''wizard_mfr_search'')
   }"

definition onMdlPage :: handler where
  "onMdlPage b chatID data =
    (case Atoi (TrimPrefix data ''mdl_pg:'') of
       None \<Rightarrow> sayT chatID ''error_wrong_state''
     | Some page \<Rightarrow> do { wd \<leftarrow> loadWizardData chatID; sayT chatID ''wizard_model_prompt'' })"

definition onMdlSearch :: handler where
  "onMdlSearch b chatID data = do {
     wd \<leftarrow> loadWizardData chatID;
     save_then b chatID StateSearchModel wd (sayT chatID ''wizard_model_search'')
   }"

definition onManufacturerSelected :: handler where
  "onManufacturerSelected b chatID data = do {
     ok \<leftarrow> expectStateOrNotify chatID StateAskManufacturer;
     if \<not> ok then stop
     else case Atoi (TrimPrefix data ''mfr:'') of
       None \<Rightarrow> sayT chatID ''error_wrong_state''
     | Some i \<Rightarrow> do {
         lang \<leftarrow> getUserLang chatID;
         if i < 0 then say chatID ''error_wrong_state''
         else do {
           wd \<leftarrow> loadWizardData chatID;
           if i = 0 then
             save_then b chatID StateAskYearMin
               (wd\<lparr>wd_Manufacturer := i, wd_ManufacturerName := bt_T b lang ''btn_any_manufacturer'', wd_Model := 0,
                  wd_ModelName := bt_T b lang ''btn_any_model''\<rparr>) (say chatID ''wizard_year_min'')
           else
             save_then b chatID StateAskModel (wd\<lparr>wd_Manufacturer := i, wd_ManufacturerName := bt_ManufacturerName b i\<rparr>)
               (say chatID ''wizard_model_prompt'')
         }
       }
   }"

definition onModelSelected :: handler where
  "onModelSelected b chatID data = do {
     ok \<leftarrow> expectStateOrNotify chatID StateAskModel;
     if \<not> ok then stop
     else case Atoi (TrimPrefix data ''mdl:'') of
       None \<Rightarrow> sayT chatID ''error_wrong_state''
     | Some i \<Rightarrow> do {
         wd \<leftarrow> loadWizardData chatID;
         save_then b chatID StateAskYearMin (wd\<lparr>wd_Model := i, wd_ModelName := modelDisplayName b (wd_Manufacturer wd) i\<rparr>)
           (sayT chatID ''wizard_year_min'')
       }
   }"

definition maxYear :: "bot \<Rightarrow> int" where "maxYear b = bt_year b + 2"

definition handleYearMin :: handler where
  "handleYearMin b chatID text = do {
     lang \<leftarrow> getUserLang chatID;
     case Atoi text of
       None \<Rightarrow> say chatID ''wizard_year_invalid''
     | Some year \<Rightarrow>
         if year < 1990 \<or> year > maxYear b then say chatID ''wizard_year_invalid''
         else do {
           wd \<leftarrow> loadWizardData chatID;
           save_then b chatID StateAskYearMax (wd\<lparr>wd_YearMin := year\<rparr>) (say chatID ''wizard_year_max'')
         }
   }"

definition handleYearMax :: handler where
  "handleYearMax b chatID text = do {
     lang \<leftarrow> getUserLang chatID;
     case Atoi text of
       None \<Rightarrow> say chatID ''wizard_year_invalid''
     | Some year \<Rightarrow>
         if year < 1990 \<or> year > maxYear b then say chatID ''wizard_year_invalid''
         else do {
           wd \<leftarrow> loadWizardData chatID;
           if year < wd_YearMin wd then say chatID ''wizard_year_min_error''
           else save_then b chatID StateAskPriceMax (wd\<lparr>wd_YearMax := year\<rparr>) (say chatID ''wizard_price_prompt'')
         }
   }"

definition handlePriceMax :: handler where
  "handlePriceMax b chatID text = do {
     lang \<leftarrow> getUserLang chatID;
     case Atoi (without_commas text) of
       None \<Rightarrow> say chatID ''wizard_price_invalid''
     | Some price \<Rightarrow>
         if price < 1000 \<or> price > 10000000 then say chatID ''wizard_price_invalid''
         else do {
           wd \<leftarrow> loadWizardData chatID;
           save_then b chatID StateAskPriceMin (wd\<lparr>wd_PriceMax := price\<rparr>) (say chatID ''wizard_price_min_prompt'')
         }
   }"

definition handlePriceMin :: handler where
  "handlePriceMin b chatID text = do {
     lang \<leftarrow> getUserLang chatID;
     wd \<leftarrow> loadWizardData chatID;
     let next = (\<lambda>price. save_then b chatID StateAskGearBox (wd\<lparr>wd_PriceMin := price\<rparr>) (say chatID ''wizard_gearbox_prompt''));
     if says_skip b lang text \<or> text = ''0'' then next 0
     else case Atoi (without_commas text) of
       None \<Rightarrow> say chatID ''wizard_price_min_invalid''
     | Some price \<Rightarrow>
         if price < 0 \<or> price > 10000000 then say chatID ''wizard_price_min_invalid''
         else if wd_PriceMax wd > 0 \<and> price > wd_PriceMax wd then say chatID ''wizard_price_min_exceeds_max''
         else next price
   }"

definition onSkipPriceMin :: handler where
  "onSkipPriceMin b chatID data = do {
     ok \<leftarrow> expectStateOrNotify chatID StateAskPriceMin;
     if \<not> ok then stop
     else do {
       wd \<leftarrow> loadWizardData chatID;
       save_then b chatID StateAskGearBox (wd\<lparr>wd_PriceMin := 0\<rparr>) (sayT chatID ''wizard_gearbox_prompt'')
     }
   }"

definition onGearBoxSelected :: handler where
  "onGearBoxSelected b chatID data = do {
     ok \<leftarrow> expectStateOrNotify chatID StateAskGearBox;
     if \<not> ok then stop
     else do {
       wd \<leftarrow> loadWizardData chatID;
       let gearbox = TrimPrefix data ''gearbox:'';
       save_then b chatID StateAskEngine (wd\<lparr>wd_GearBox := (if gearbox = ''any'' then '''' else gearbox)\<rparr>) (sayT chatID ''wizard_engine_prompt'')
     }
   }"

definition onEngineSelected :: handler where
  "onEngineSelected b chatID data = do {
     ok \<leftarrow> expectStateOrNotify chatID StateAskEngine;
     if \<not> ok then stop
     else case Atoi (TrimPrefix data ''eng:'') of
       None \<Rightarrow> sayT chatID ''error_wrong_state''
     | Some cc \<Rightarrow> do {
         wd \<leftarrow> loadWizardData chatID;
         save_then b chatID StateAskMaxKm (wd\<lparr>wd_EngineMinCC := cc\<rparr>) (sayT chatID ''wizard_km_prompt'')
       }
   }"

definition onMaxKmSelected :: handler where
  "onMaxKmSelected b chatID data = do {
     ok \<leftarrow> expectStateOrNotify chatID StateAskMaxKm;
     if \<not> ok then stop
     else case Atoi (TrimPrefix data ''maxkm:'') of
       None \<Rightarrow> sayT chatID ''error_wrong_state''
     | Some km \<Rightarrow> do {
         wd \<leftarrow> loadWizardData chatID;
         save_then b chatID StateAskMaxHand (wd\<lparr>wd_MaxKm := km\<rparr>) (sayT chatID ''wizard_hand_prompt'')
       }
   }"

definition onMaxHandSelected :: handler where
  "onMaxHandSelected b chatID data = do {
     ok \<leftarrow> expectStateOrNotify chatID StateAskMaxHand;
     if \<not> ok then stop
     else case Atoi (TrimPrefix data ''maxhand:'') of
       None \<Rightarrow> sayT chatID ''error_wrong_state''
     | Some hand \<Rightarrow> do {
         wd \<leftarrow> loadWizardData chatID;
         save_then b chatID StateAskKeywords (wd\<lparr>wd_MaxHand := hand\<rparr>) (sayT chatID ''wizard_keywords_prompt'')
       }
   }"

definition maxKeywordsLen :: nat where "maxKeywordsLen = 500"

definition handleKeywordsInput :: handler where
  "handleKeywordsInput b chatID text = do {
     wd \<leftarrow> loadWizardData chatID;
     lang \<leftarrow> getUserLang chatID;
     let next = (\<lambda>k. save_then b chatID StateAskExcludeKeys (wd\<lparr>wd_Keywords := k\<rparr>) (say chatID ''wizard_exclude_keys_prompt''));
     if says_skip b lang text then next ''''
     else if RuneCountInString text > maxKeywordsLen then say chatID ''wizard_keywords_too_long''
     else next (NormalizeKeywords text)
   }"

definition onSkipKeywords :: handler where
  "onSkipKeywords b chatID data = do {
     ok \<leftarrow> expectStateOrNotify chatID StateAskKeywords;
     if \<not> ok then stop
     else do {
       wd \<leftarrow> loadWizardData chatID;
       save_then b chatID StateAskExcludeKeys (wd\<lparr>wd_Keywords := ''''\<rparr>) (sayT chatID ''wizard_exclude_keys_prompt'')
     }
   }"

definition handleExcludeKeysInput :: handler where
  "handleExcludeKeysInput b chatID text = do {
     wd \<leftarrow> loadWizardData chatID;
     lang \<leftarrow> getUserLang chatID;
     let next = (\<lambda>k. save_then b chatID StateConfirm (wd\<lparr>wd_ExcludeKeys := k\<rparr>) (say chatID ''wizard_confirm_summary''));
     if says_skip b lang text then next ''''
     else if RuneCountInString text > maxKeywordsLen then say chatID ''wizard_keywords_too_long''
     else next (NormalizeKeywords text)
   }"

definition onSkipExcludeKeys :: handler where
  "onSkipExcludeKeys b chatID data = do {
     ok \<leftarrow> expectStateOrNotify chatID StateAskExcludeKeys;
     if \<not> ok then stop
     else do {
       wd \<leftarrow> loadWizardData chatID;
       save_then b chatID StateConfirm (wd\<lparr>wd_ExcludeKeys := ''''\<rparr>) (sayT chatID ''wizard_confirm_summary'')
     }
   }"

definition handleManufacturerSearch :: handler where
  "handleManufacturerSearch b chatID query = do {
     wd \<leftarrow> loadWizardData chatID;
     save_then b chatID StateAskManufacturer wd (sayT chatID ''wizard_mfr_results'')
   }"

definition handleModelSearch :: handler where
  "handleModelSearch b chatID query = do {
     wd \<leftarrow> loadWizardData chatID;
     save_then b chatID StateAskModel wd (sayT chatID ''wizard_model_results'')
   }"


subsection \<open>Saving the search\<close>

definition blank_search :: search where
  "blank_search = \<lparr>s_ID = 0, s_ChatID = 0, s_UserSeq = 0, s_Name = '''', s_Source = '''', s_Manufacturer = 0, s_Model = 0, s_YearMin = 0,
     s_YearMax = 0, s_PriceMin = 0, s_PriceMax = 0, s_EngineMinCC = 0, s_MaxKm = 0, s_MaxHand = 0, s_Keywords = '''', s_ExcludeKeys = '''',
     s_SellerFilter = '''', s_GearBox = '''', s_PriceOnly = False, s_PhotoOnly = False, s_Active = False, s_CreatedAt = 0, s_ShareToken = ''''\<rparr>"

definition wizard_name :: "wizard_data \<Rightarrow> string" where
  "wizard_name wd =
    (if wd_Manufacturer wd = 0 then ''all-cars''
     else if wd_Model wd = 0 then to_lower (wd_ManufacturerName wd) @ ''-all''
     else to_lower (wd_ManufacturerName wd) @ ''-'' @ to_lower (wd_ModelName wd))"

definition wizard_search :: "int \<Rightarrow> int \<Rightarrow> wizard_data \<Rightarrow> search" where
  "wizard_search i chatID wd = blank_search\<lparr>s_ID := i, s_ChatID := chatID, s_Name := wizard_name wd,
     s_Source := (if wd_Source wd = '''' then ''yad2'' else wd_Source wd), s_Manufacturer := wd_Manufacturer wd, s_Model := wd_Model wd,
     s_YearMin := wd_YearMin wd, s_YearMax := wd_YearMax wd, s_PriceMin := wd_PriceMin wd, s_PriceMax := wd_PriceMax wd,
     s_EngineMinCC := wd_EngineMinCC wd, s_MaxKm := wd_MaxKm wd, s_MaxHand := wd_MaxHand wd, s_Keywords := wd_Keywords wd,
     s_ExcludeKeys := wd_ExcludeKeys wd, s_SellerFilter := wd_SellerFilter wd, s_GearBox := wd_GearBox wd, s_PriceOnly := wd_PriceOnly wd,
     s_PhotoOnly := wd_PhotoOnly wd\<rparr>"

text \<open>\<open>CreateSearch\<close> with the number and the token of the update.\<close>

definition create_search :: "bot \<Rightarrow> search \<Rightarrow> (db_error + int) act" where
  "create_search b s = store (CreateSearch (bt_time b) (bt_newID b) (bt_shareToken b) s)"

definition onConfirm :: handler where
  "onConfirm b chatID data = do {
     r \<leftarrow> store (GetUser chatID);
     case r of
       Inl _ \<Rightarrow> sayT chatID ''error_generic''
     | Inr user \<Rightarrow> do {
         lang \<leftarrow> getUserLang chatID;
         if user = None \<or> u_State (the user) \<noteq> StateConfirm then say chatID ''wizard_session_expired''
         else do {
           wd \<leftarrow> loadWizardData chatID;
           if wd_EditSearchID wd > 0 then do {
             r \<leftarrow> store (UpdateSearch (wizard_search (wd_EditSearchID wd) chatID wd));
             case r of
               Inl _ \<Rightarrow> say chatID ''wizard_save_failed''
             | Inr _ \<Rightarrow> do { reset_dialogue chatID StateIdle; say chatID ''wizard_search_updated''; TriggerPoll b }
           }
           else do {
             limited \<leftarrow> checkSearchLimit b chatID ''watch_limit'';
             if limited then stop
             else do {
               r \<leftarrow> create_search b (wizard_search 0 chatID wd);
               case r of
                 Inl _ \<Rightarrow> say chatID ''wizard_save_failed''
               | Inr _ \<Rightarrow> do { reset_dialogue chatID StateIdle; say chatID ''wizard_search_saved''; TriggerPoll b }
             }
           }
         }
       }
   }"

end
