(* ===== verification/BotMenus.thy ===== *)
theory BotMenus
  imports Wizard
begin

section \<open>The commands and the other buttons of the Telegram bot (internal/bot/commands.go, callbacks.go, history.go)\<close>

text \<open>
  As in the dialogue, a handler is a program in the state monad, a message is recorded by the key of its text, and the
  "typing" notice, logging and the layout of lists and keyboards are left out. Of a page, the rows that it lists are kept.
\<close>

text \<open>A command gets the chat, the name of the sender and the text.\<close>

type_synonym command = "bot \<Rightarrow> int \<Rightarrow> string \<Rightarrow> string \<Rightarrow> unit act"

subsection \<open>Other buttons (callbacks.go)\<close>

definition onDeleteSearch :: handler where
  "onDeleteSearch b chatID data = do {
     lang \<leftarrow> getUserLang chatID;
     case Atoi (TrimPrefix data ''del:'') of
       None \<Rightarrow> say chatID ''error_invalid_id''
     | Some i \<Rightarrow> do {
         r \<leftarrow> store (DeleteSearch i chatID);
         case r of
           Inl e \<Rightarrow> say chatID (if e = NotFound then ''pause_not_found'' else ''stop_failed'')
         | Inr _ \<Rightarrow> say chatID ''stop_success''
       }
   }"

definition onShareCopy :: handler where
  "onShareCopy b chatID data = do {
     lang \<leftarrow> getUserLang chatID;
     let token = TrimPrefix data ''share_copy:'';
     if length token = 0 \<or> length token > 64 then say chatID ''share_invalid_link''
     else do {
       r \<leftarrow> store (GetSearchByShareToken token);
       case r of
         Inr (Some src) \<Rightarrow> do {
           limited \<leftarrow> checkSearchLimit b chatID ''share_limit'';
           if limited then stop
           else do {
             r \<leftarrow> create_search b (src\<lparr>s_ID := 0, s_ChatID := chatID, s_UserSeq := 0, s_Active := False, s_CreatedAt := 0, s_ShareToken := '''',
               s_Name := to_lower (bt_ManufacturerName b (s_Manufacturer src)) @ ''-'' @ to_lower (modelDisplayName b (s_Manufacturer src) (s_Model src))\<rparr>);
             case r of Inl _ \<Rightarrow> say chatID ''share_copy_failed'' | Inr _ \<Rightarrow> say chatID ''share_copy_success''
           }
         }
       | _ \<Rightarrow> say chatID ''share_search_deleted''
     }
   }"

definition onCancelCallback :: handler where
  "onCancelCallback b chatID data = do { reset_dialogue chatID StateIdle; sayT chatID ''cancel'' }"

definition onEditRestart :: handler where
  "onEditRestart b chatID data = do {
     lang \<leftarrow> getUserLang chatID;
     wd \<leftarrow> loadWizardData chatID;
     save_then b chatID StateAskSource (empty_wizard\<lparr>wd_EditSearchID := wd_EditSearchID wd\<rparr>) (say chatID ''wizard_start_over'')
   }"

definition onLanguageSwitch :: "string \<Rightarrow> handler" where
  "onLanguageSwitch lang b chatID data = do {
     r \<leftarrow> store (SetUserLanguage chatID lang);
     case r of Inl _ \<Rightarrow> say chatID ''error_generic'' | Inr _ \<Rightarrow> say chatID ''language_switched''
   }"

definition onQuickStart :: handler where
  "onQuickStart b chatID data = do {
     lang \<leftarrow> getUserLang chatID;
     limited \<leftarrow> checkSearchLimit b chatID ''watch_limit'';
     if limited then stop
     else do {
       let mfr = bt_QuickStartManufacturer b;
       let mdl = bt_QuickStartModel b;
       r \<leftarrow> create_search b (blank_search\<lparr>s_ChatID := chatID, s_Source := ''yad2'', s_Manufacturer := mfr, s_Model := mdl, s_YearMin := 2018,
         s_YearMax := bt_year b + 2, s_PriceMax := 200000,
         s_Name := to_lower (bt_ManufacturerName b mfr) @ ''-'' @ to_lower (modelDisplayName b mfr mdl)\<rparr>);
       case r of
         Inl _ \<Rightarrow> say chatID ''wizard_save_failed''
       | Inr _ \<Rightarrow> do { say chatID ''wizard_search_saved''; TriggerPoll b }
     }
   }"

definition start_watch :: "bot \<Rightarrow> int \<Rightarrow> unit act" where
  "start_watch b chatID = do {
     lang \<leftarrow> getUserLang chatID;
     limited \<leftarrow> checkSearchLimit b chatID ''watch_limit'';
     if limited then stop
     else do { reset_dialogue chatID StateAskSource; say chatID ''wizard_source_prompt'' }
   }"

definition onWatchFromCallback :: handler where
  "onWatchFromCallback b chatID data = start_watch b chatID"

subsection \<open>Bookmarks and hidden listings (callbacks.go)\<close>

definition isValidToken :: "string \<Rightarrow> bool" where
  "isValidToken token \<longleftrightarrow> 5 \<le> length token \<and> length token \<le> 40
     \<and> list_all (\<lambda>c. is_letter c \<or> is_digit c \<or> c = CHR ''-'' \<or> c = CHR ''_'') token"

definition onSaveListing :: handler where
  "onSaveListing b chatID data = do {
     lang \<leftarrow> getUserLang chatID;
     let token = TrimPrefix data ''save:'';
     if \<not> bt_saved b then stop
     else if \<not> isValidToken token then say chatID ''error_generic''
     else do {
       r \<leftarrow> store (CountSaved chatID);
       case r of
         Inl _ \<Rightarrow> say chatID ''error_generic''
       | Inr n \<Rightarrow>
           if n \<ge> maxSavedListings then say chatID ''saved_limit_reached''
           else do {
             r \<leftarrow> store (SaveBookmark chatID token);
             case r of Inl _ \<Rightarrow> say chatID ''error_generic'' | Inr _ \<Rightarrow> say chatID ''listing_saved''
           }
     }
   }"

definition onHideListing :: handler where
  "onHideListing b chatID data = do {
     lang \<leftarrow> getUserLang chatID;
     let token = TrimPrefix data ''hide:'';
     if \<not> bt_hidden b then stop
     else if \<not> isValidToken token then say chatID ''error_generic''
     else do {
       r \<leftarrow> store (CountHidden chatID);
       case r of
         Inl _ \<Rightarrow> say chatID ''error_generic''
       | Inr n \<Rightarrow>
           if n \<ge> maxHiddenListings then say chatID ''hidden_limit_reached''
           else do {
             r \<leftarrow> store (HideListing chatID token);
             case r of Inl _ \<Rightarrow> say chatID ''error_generic'' | Inr _ \<Rightarrow> say chatID ''listing_hidden''
           }
     }
   }"

definition onClearHidden :: handler where
  "onClearHidden b chatID data = do {
     lang \<leftarrow> getUserLang chatID;
     if \<not> bt_hidden b then stop
     else do {
       r \<leftarrow> store (CountHidden chatID);
       case r of
         Inl _ \<Rightarrow> say chatID ''error_generic''
       | Inr n \<Rightarrow> say chatID (if n = 0 then ''hidden_empty'' else ''hidden_clear_confirm'')
     }
   }"

definition onClearHiddenConfirm :: handler where
  "onClearHiddenConfirm b chatID data = do {
     lang \<leftarrow> getUserLang chatID;
     if \<not> bt_hidden b then stop
     else do {
       r \<leftarrow> store (ClearHidden chatID);
       case r of Inl _ \<Rightarrow> say chatID ''error_generic'' | Inr _ \<Rightarrow> say chatID ''hidden_cleared''
     }
   }"

subsection \<open>Digests (callbacks.go; digest.go of internal/storage/postgres)\<close>

definition SetDigestMode :: "int \<Rightarrow> string \<Rightarrow> string \<Rightarrow> 'z db_scheme \<Rightarrow> (db_error + unit) \<times> 'z db_scheme" where
  "SetDigestMode chatID mode interval = db_call (DbError ''set digest mode'') (\<lambda>d.
     (Inr (), update_user chatID (\<lambda>u. u\<lparr>u_digest_mode := mode, u_digest_interval := interval\<rparr>) d))"

definition SetDailyDigest :: "int \<Rightarrow> bool \<Rightarrow> string \<Rightarrow> 'z db_scheme \<Rightarrow> (db_error + unit) \<times> 'z db_scheme" where
  "SetDailyDigest chatID enabled digestTime = db_call (DbError ''set daily digest'') (\<lambda>d.
     (Inr (), update_user chatID (\<lambda>u. u\<lparr>u_daily_digest := enabled, u_daily_digest_time := digestTime\<rparr>) d))"

definition GetDailyDigest :: "int \<Rightarrow> 'z db_scheme \<Rightarrow> (db_error + bool \<times> string \<times> gotime) \<times> 'z db_scheme" where
  "GetDailyDigest chatID = db_call (DbError ''get daily digest'') (\<lambda>d.
     (Inr (case map_of (db_users d) chatID of None \<Rightarrow> (False, ''09:00'', 0)
        | Some u \<Rightarrow> (u_daily_digest u, u_daily_digest_time u, u_daily_digest_last_sent u)), d))"

definition onDigestOn :: handler where
  "onDigestOn b chatID data =
    (if \<not> bt_digests b then stop
     else do {
       lang \<leftarrow> getUserLang chatID;
       r \<leftarrow> store (SetDigestMode chatID ''digest'' ''6h'');
       case r of Inl _ \<Rightarrow> say chatID ''digest_update_failed'' | Inr _ \<Rightarrow> say chatID ''digest_switched_digest''
     })"

definition onDigestOff :: handler where
  "onDigestOff b chatID data =
    (if \<not> bt_digests b then stop
     else do {
       lang \<leftarrow> getUserLang chatID;
       r \<leftarrow> store (SetDigestMode chatID ''instant'' ''6h'');
       case r of Inl _ \<Rightarrow> say chatID ''digest_update_failed'' | Inr _ \<Rightarrow> say chatID ''digest_switched_instant''
     })"

definition onDigestInterval :: handler where
  "onDigestInterval b chatID data =
    (if \<not> bt_digests b then stop
     else do {
       lang \<leftarrow> getUserLang chatID;
       let interval = TrimPrefix data ''digest_int:'';
       if interval \<notin> {''2h'', ''6h'', ''12h'', ''24h''} then say chatID ''digest_invalid_interval''
       else do {
         r \<leftarrow> store (SetDigestMode chatID ''digest'' interval);
         case r of Inl _ \<Rightarrow> say chatID ''digest_update_failed'' | Inr _ \<Rightarrow> say chatID ''digest_switched_digest''
       }
     })"

text \<open>\<open>onDailyDigestOn\<close> and \<open>onDailyDigestOff\<close>, which differ in the flag and in the message.\<close>

definition set_daily :: "bool \<Rightarrow> string \<Rightarrow> bot \<Rightarrow> int \<Rightarrow> unit act" where
  "set_daily enabled done_key b chatID =
    (if \<not> bt_dailyDigests b then stop
     else do {
       lang \<leftarrow> getUserLang chatID;
       r \<leftarrow> store (GetDailyDigest chatID);
       case r of
         Inl _ \<Rightarrow> say chatID ''error_generic''
       | Inr (_, digestTime, _) \<Rightarrow> do {
           r \<leftarrow> store (SetDailyDigest chatID enabled (if digestTime = '''' then ''09:00'' else digestTime));
           case r of Inl _ \<Rightarrow> say chatID ''error_generic'' | Inr _ \<Rightarrow> say chatID done_key
         }
     })"

definition onDailyDigestOn :: handler where
  "onDailyDigestOn b chatID data = set_daily True ''daily_digest_enabled'' b chatID"

definition onDailyDigestOff :: handler where
  "onDailyDigestOff b chatID data = set_daily False ''daily_digest_disabled'' b chatID"


subsection \<open>Pages (history.go)\<close>

definition historyPageSize :: nat where "historyPageSize = 5"

definition totalPages :: "nat \<Rightarrow> int" where
  "totalPages n = int ((n + historyPageSize - 1) div historyPageSize)"

text \<open>A message that lists rows.\<close>

definition say_page :: "int \<Rightarrow> string \<Rightarrow> string list \<Rightarrow> unit act" where
  "say_page chatID key tokens = do { say chatID key; State (\<lambda>s. ((), s\<lparr>dl_pages := dl_pages s @ [(chatID, tokens)]\<rparr>)) }"

definition sendHistoryPage :: "bot \<Rightarrow> int \<Rightarrow> int \<Rightarrow> unit act" where
  "sendHistoryPage b chatID page = do {
     lang \<leftarrow> getUserLang chatID;
     if \<not> bt_listings b then say chatID ''history_unavailable''
     else do {
       r \<leftarrow> store (CountUserListings chatID);
       case r of
         Inl _ \<Rightarrow> say chatID ''history_load_error''
       | Inr n \<Rightarrow>
           if n = 0 then say chatID ''history_empty''
           else if page < 0 \<or> page \<ge> totalPages n then say chatID ''history_page_invalid''
           else do {
             r \<leftarrow> store (ListUserListings chatID (int historyPageSize) (page * int historyPageSize));
             case r of Inl _ \<Rightarrow> say chatID ''history_load_error'' | Inr rows \<Rightarrow> say_page chatID ''history_header'' (map lr_Token rows)
           }
     }
   }"

text \<open>An unknown page of the bookmarks or of the hidden listings is their first.\<close>

definition first_if_unknown :: "int \<Rightarrow> nat \<Rightarrow> int" where
  "first_if_unknown page n = (if page < 0 \<or> page \<ge> totalPages n then 0 else page)"

definition sendSavedPage :: "bot \<Rightarrow> int \<Rightarrow> int \<Rightarrow> unit act" where
  "sendSavedPage b chatID page = do {
     lang \<leftarrow> getUserLang chatID;
     if \<not> bt_saved b then say chatID ''saved_empty''
     else do {
       r \<leftarrow> store (CountSaved chatID);
       case r of
         Inl _ \<Rightarrow> say chatID ''saved_load_error''
       | Inr n \<Rightarrow>
           if n = 0 then say chatID ''saved_empty''
           else do {
             r \<leftarrow> store (ListSaved chatID (int historyPageSize) (first_if_unknown page n * int historyPageSize));
             case r of Inl _ \<Rightarrow> say chatID ''saved_load_error'' | Inr rows \<Rightarrow> say_page chatID ''saved_header'' (map lr_Token rows)
           }
     }
   }"

definition sendHiddenPage :: "bot \<Rightarrow> int \<Rightarrow> int \<Rightarrow> unit act" where
  "sendHiddenPage b chatID page = do {
     lang \<leftarrow> getUserLang chatID;
     if \<not> bt_hidden b then say chatID ''hidden_empty''
     else do {
       r \<leftarrow> store (CountHidden chatID);
       case r of
         Inl _ \<Rightarrow> say chatID ''error_generic''
       | Inr n \<Rightarrow>
           if n = 0 then say chatID ''hidden_empty''
           else do {
             r \<leftarrow> store (ListHidden chatID (int historyPageSize) (first_if_unknown page n * int historyPageSize));
             case r of Inl _ \<Rightarrow> say chatID ''error_generic'' | Inr tokens \<Rightarrow> say_page chatID ''hidden_header'' tokens
           }
     }
   }"

definition page_button :: "string \<Rightarrow> (bot \<Rightarrow> int \<Rightarrow> int \<Rightarrow> unit act) \<Rightarrow> handler" where
  "page_button pre send b chatID data =
    (case Atoi (TrimPrefix data pre) of None \<Rightarrow> sayT chatID ''error_generic'' | Some page \<Rightarrow> send b chatID page)"

definition onHistoryPage :: handler where "onHistoryPage = page_button ''hist_pg:'' sendHistoryPage"
definition onSavedPage :: handler where "onSavedPage = page_button ''saved_pg:'' sendSavedPage"
definition onHiddenPage :: handler where "onHiddenPage = page_button ''hidden_pg:'' sendHiddenPage"

subsection \<open>Commands (commands.go)\<close>

text \<open>Most commands begin with the row of the sender.\<close>

definition as_known :: "int \<Rightarrow> string \<Rightarrow> unit act \<Rightarrow> unit act" where
  "as_known chatID username act = do { ok \<leftarrow> ensureUser chatID username; if ok then act else stop }"

definition handleHistory :: command where "handleHistory b chatID username text = as_known chatID username (sendHistoryPage b chatID 0)"
definition handleSaved :: command where "handleSaved b chatID username text = as_known chatID username (sendSavedPage b chatID 0)"
definition handleHidden :: command where "handleHidden b chatID username text = as_known chatID username (sendHiddenPage b chatID 0)"

definition handleShareStart :: "bot \<Rightarrow> int \<Rightarrow> string \<Rightarrow> unit act" where
  "handleShareStart b chatID param = do {
     lang \<leftarrow> getUserLang chatID;
     let token = TrimPrefix param ''share_'';
     if length token = 0 \<or> length token > 64 then say chatID ''share_invalid_link''
     else do {
       r \<leftarrow> store (GetSearchByShareToken token);
       case r of Inr (Some _) \<Rightarrow> say chatID ''share_summary'' | _ \<Rightarrow> say chatID ''share_search_deleted''
     }
   }"

text \<open>\<open>handleLinkStart\<close> of Accounts, with its answers.\<close>

definition link_start :: "bot \<Rightarrow> int \<Rightarrow> string \<Rightarrow> unit act" where
  "link_start b chatID param = do {
     lang \<leftarrow> getUserLang chatID;
     r \<leftarrow> store (handleLinkStart (bt_links b) (bt_time b) chatID param);
     say chatID (case r of LinkExpired \<Rightarrow> ''link_expired'' | LinkError \<Rightarrow> ''link_error'' | LinkSuccess \<Rightarrow> ''link_success'')
   }"

definition handleStart :: command where
  "handleStart b chatID username text = as_known chatID username
     (let parts = fields_of text in
      if length parts = 2 \<and> prefix ''share_'' (parts ! 1) then handleShareStart b chatID (parts ! 1)
      else if length parts = 2 \<and> prefix ''link_'' (parts ! 1) then link_start b chatID (parts ! 1)
      else sayT chatID ''onboarding_welcome'')"

definition handleWatch :: command where "handleWatch b chatID username text = as_known chatID username (start_watch b chatID)"

definition handleList :: command where
  "handleList b chatID username text = as_known chatID username (do {
     lang \<leftarrow> getUserLang chatID;
     r \<leftarrow> store (ListSearches chatID);
     say chatID (case r of Inl _ \<Rightarrow> ''list_load_error'' | Inr searches \<Rightarrow> if searches = [] then ''list_empty'' else ''list_header'')
   })"

text \<open>The number that follows a command.\<close>

definition with_number :: "int \<Rightarrow> string \<Rightarrow> string \<Rightarrow> (int \<Rightarrow> unit act) \<Rightarrow> unit act" where
  "with_number chatID name text f = do {
     lang \<leftarrow> getUserLang chatID;
     let parts = fields_of text;
     if length parts < 2 then say chatID (name @ ''_usage'')
     else case Atoi (parts ! 1) of None \<Rightarrow> say chatID (name @ ''_invalid'') | Some i \<Rightarrow> f i
   }"

definition handleStop :: command where
  "handleStop b chatID username text = with_number chatID ''stop'' text (\<lambda>i. do {
     r \<leftarrow> store (DeleteSearch i chatID);
     say chatID (case r of Inl _ \<Rightarrow> ''stop_failed'' | Inr _ \<Rightarrow> ''stop_success'')
   })"

definition handlePause :: command where
  "handlePause b chatID username text = with_number chatID ''pause'' text (\<lambda>i. do {
     r \<leftarrow> store (GetSearch i chatID);
     case r of
       Inr (Some search) \<Rightarrow>
         if \<not> s_Active search then say chatID ''pause_already_paused''
         else do {
           r \<leftarrow> store (SetSearchActive i chatID False);
           say chatID (case r of Inl _ \<Rightarrow> ''pause_failed'' | Inr _ \<Rightarrow> ''pause_success'')
         }
     | _ \<Rightarrow> say chatID ''pause_not_found''
   })"

definition handleResume :: command where
  "handleResume b chatID username text = with_number chatID ''resume'' text (\<lambda>i. do {
     r \<leftarrow> store (GetSearch i chatID);
     case r of
       Inr (Some search) \<Rightarrow>
         if s_Active search then say chatID ''resume_already_active''
         else do {
           r \<leftarrow> store (SetSearchActive i chatID True);
           say chatID (case r of Inl _ \<Rightarrow> ''resume_failed'' | Inr _ \<Rightarrow> ''resume_success'')
         }
     | _ \<Rightarrow> say chatID ''resume_not_found''
   })"


definition handleShare :: command where
  "handleShare b chatID username text = as_known chatID username (do {
     lang \<leftarrow> getUserLang chatID;
     if bt_username b = '''' then say chatID ''share_not_configured''
     else let parts = fields_of text in
       if length parts < 2 then say chatID ''share_usage''
       else case Atoi (parts ! 1) of
         None \<Rightarrow> say chatID ''share_invalid''
       | Some i \<Rightarrow> do {
           r \<leftarrow> store (GetSearch i chatID);
           case r of Inr (Some _) \<Rightarrow> say chatID ''share_link'' | _ \<Rightarrow> say chatID ''share_not_found''
         }
   })"

definition handleCancel :: command where
  "handleCancel b chatID username text = do { lang \<leftarrow> getUserLang chatID; reset_dialogue chatID StateIdle; say chatID ''cancel'' }"

definition handleHelp :: command where "handleHelp b chatID username text = sayT chatID ''help''"

definition handleSettings :: command where
  "handleSettings b chatID username text = as_known chatID username (do {
     lang \<leftarrow> getUserLang chatID;
     r \<leftarrow> store (CountSearches chatID);
     say chatID (case r of Inl _ \<Rightarrow> ''error_generic'' | Inr _ \<Rightarrow> ''settings'')
   })"

definition handleStats :: command where
  "handleStats b chatID username text =
    (if chatID \<noteq> bt_adminChatID b then sayT chatID ''unknown_command''
     else do { u \<leftarrow> store CountUsers; n \<leftarrow> store CountAllSearches; say chatID ''stats'' })"

definition handleDigest :: command where
  "handleDigest b chatID username text = as_known chatID username (do {
     lang \<leftarrow> getUserLang chatID;
     if \<not> bt_digests b then say chatID ''digest_unavailable''
     else do {
       r \<leftarrow> store (GetDigestMode chatID);
       case r of
         Inl _ \<Rightarrow> say chatID ''digest_load_error''
       | Inr (mode, interval) \<Rightarrow> do {
           u \<leftarrow> (if bt_dailyDigests b then do { r \<leftarrow> store (GetDailyDigest chatID); stop } else stop);
           say chatID (if mode = ''digest'' then ''digest_mode_digest'' else ''digest_mode_instant'')
         }
     }
   })"

definition handleLanguage :: command where
  "handleLanguage b chatID username text = as_known chatID username (sayT chatID ''language_current'')"

definition handleUpgrade :: command where
  "handleUpgrade b chatID username text = as_known chatID username (sayT chatID ''upgrade_disabled'')"

text \<open>The answers that a search stands for; the edit starts from them.\<close>

definition answers_of :: "bot \<Rightarrow> search \<Rightarrow> wizard_data" where
  "answers_of b s = (let mfr = bt_ManufacturerName b (s_Manufacturer s); mdl = modelDisplayName b (s_Manufacturer s) (s_Model s) in
    empty_wizard\<lparr>wd_Source := s_Source s, wd_Manufacturer := s_Manufacturer s, wd_ManufacturerName := mfr, wd_Model := s_Model s,
      wd_ModelName := mdl, wd_YearMin := s_YearMin s, wd_YearMax := s_YearMax s, wd_PriceMin := s_PriceMin s, wd_PriceMax := s_PriceMax s,
      wd_GearBox := s_GearBox s, wd_EngineMinCC := s_EngineMinCC s, wd_MaxKm := s_MaxKm s, wd_MaxHand := s_MaxHand s,
      wd_Keywords := s_Keywords s, wd_ExcludeKeys := s_ExcludeKeys s, wd_SellerFilter := s_SellerFilter s, wd_PriceOnly := s_PriceOnly s,
      wd_PhotoOnly := s_PhotoOnly s, wd_EditSearchID := s_ID s,
      wd_OriginalSearch := Some \<lparr>os_Source = s_Source s, os_Manufacturer = s_Manufacturer s, os_ManufacturerName = mfr, os_Model = s_Model s,
        os_ModelName = mdl, os_YearMin = s_YearMin s, os_YearMax = s_YearMax s, os_PriceMax = s_PriceMax s, os_PriceMin = s_PriceMin s,
        os_GearBox = s_GearBox s, os_EngineMinCC = s_EngineMinCC s, os_MaxKm = s_MaxKm s, os_MaxHand = s_MaxHand s,
        os_Keywords = s_Keywords s, os_ExcludeKeys = s_ExcludeKeys s\<rparr>\<rparr>)"

definition handleEdit :: command where
  "handleEdit b chatID username text = as_known chatID username (with_number chatID ''edit'' text (\<lambda>i. do {
     r \<leftarrow> store (GetSearch i chatID);
     case r of
       Inr (Some search) \<Rightarrow> save_then b chatID StateAskSource (answers_of b search) (say chatID ''wizard_source_prompt'')
     | _ \<Rightarrow> say chatID ''edit_not_found''
   }))"

end
