(* ===== verification/Bot.thy ===== *)
theory Bot
  imports BotMenus RateLimit
begin

section \<open>The updates of the Telegram bot (internal/bot/bot.go, callback_registry.go, wizard.go)\<close>

text \<open>
  How an update finds its handler: commands by their text, buttons by their data, everything else by the state of the
  dialogue; and the limiter in front of commands and buttons. Updates come one after another.
\<close>

subsection \<open>The routes of the buttons (callback_registry.go)\<close>

definition callbackExact :: "(string \<times> handler) list" where
  "callbackExact =
    [(''src_done'', onSourceDone), (''mfr_search'', onMfrSearch), (''mdl_search'', onMdlSearch), (''skip_price_min'', onSkipPriceMin),
     (''skip_keywords'', onSkipKeywords), (''skip_exclude_keys'', onSkipExcludeKeys), (''confirm:yes'', onConfirm), (''confirm:edit'', onEditRestart),
     (''confirm:cancel'', onCancelCallback), (''digest:on'', onDigestOn), (''digest:off'', onDigestOff), (''lang:he'', onLanguageSwitch ''he''),
     (''lang:en'', onLanguageSwitch ''en''), (''quick_start'', onQuickStart), (''hidden_clear'', onClearHidden), (''hidden_clear_yes'', onClearHiddenConfirm),
     (''daily_digest:on'', onDailyDigestOn), (''daily_digest:off'', onDailyDigestOff), (''watch'', onWatchFromCallback), (''noop'', \<lambda>b chatID data. stop)]"

definition callbackPrefixes :: "(string \<times> handler) list" where
  "callbackPrefixes =
    [(''src:'', onLegacySourceSelected), (''src_toggle:'', onSourceToggle), (''mfr_pg:'', onMfrPage), (''mfr:'', onManufacturerSelected),
     (''mdl_pg:'', onMdlPage), (''mdl:'', onModelSelected), (''gearbox:'', onGearBoxSelected), (''eng:'', onEngineSelected),
     (''maxkm:'', onMaxKmSelected), (''maxhand:'', onMaxHandSelected), (''del:'', onDeleteSearch), (''share_copy:'', onShareCopy),
     (''digest_int:'', onDigestInterval), (''hist_pg:'', onHistoryPage), (''save:'', onSaveListing), (''hide:'', onHideListing),
     (''saved_pg:'', onSavedPage), (''hidden_pg:'', onHiddenPage)]"

definition dispatchCallbackData :: handler where
  "dispatchCallbackData b chatID data =
    (case map_of callbackExact data of
       Some h \<Rightarrow> h b chatID data
     | None \<Rightarrow>
         (case find (\<lambda>(p, h). prefix p data) callbackPrefixes of
            Some (p, h) \<Rightarrow> h b chatID data
          | None \<Rightarrow> do { lang \<leftarrow> getUserLang chatID; say chatID ''callback_expired'' }))"

text \<open>A button works only in the chat of the user who presses it.\<close>

definition handleCallback :: "bot \<Rightarrow> int \<Rightarrow> int \<Rightarrow> string \<Rightarrow> unit act" where
  "handleCallback b chatID fromID data = (if chatID \<noteq> fromID then stop else dispatchCallbackData b chatID data)"


subsection \<open>Messages\<close>

definition wizardTimeout :: int where "wizardTimeout = 30 * 60"

definition dialogue_routes :: "(string \<times> handler) list" where
  "dialogue_routes =
    [(StateSearchManufacturer, handleManufacturerSearch), (StateSearchModel, handleModelSearch), (StateAskYearMin, handleYearMin),
     (StateAskYearMax, handleYearMax), (StateAskPriceMax, handlePriceMax), (StateAskPriceMin, handlePriceMin),
     (StateAskKeywords, handleKeywordsInput), (StateAskExcludeKeys, handleExcludeKeysInput)]"

text \<open>A message that is no command: an answer, or a word that the bot does not know. The first part is the check for a
  dialogue that was left alone.\<close>

definition dialogue_expired :: "bot \<Rightarrow> int \<Rightarrow> string \<Rightarrow> bool act" where
  "dialogue_expired b chatID st =
    (if st = StateIdle then State_Monad.return False
     else do {
       wd \<leftarrow> loadWizardData chatID;
       if wd_UpdatedAt wd > 0 \<and> bt_now b - wd_UpdatedAt wd > wizardTimeout then do {
         reset_dialogue chatID StateIdle;
         sayT chatID ''wizard_timeout'';
         State_Monad.return True
       }
       else State_Monad.return False
     })"

definition handleDefault :: command where
  "handleDefault b chatID username msg = as_known chatID username (do {
     r \<leftarrow> store (GetUser chatID);
     case r of
       Inr (Some user) \<Rightarrow> do {
         let text = trim_space msg;
         expired \<leftarrow> dialogue_expired b chatID (u_State user);
         if expired then stop
         else case map_of dialogue_routes (u_State user) of
           Some h \<Rightarrow> h b chatID text
         | None \<Rightarrow> if text \<noteq> '''' \<and> \<not> prefix ''/'' text then sayT chatID ''unknown_command'' else stop
       }
     | _ \<Rightarrow> stop
   })"

text \<open>The commands, by the whole text or by its start (\<open>RegisterHandlers\<close>).\<close>

datatype text_match = Exact string | Prefix string

fun text_matches :: "text_match \<Rightarrow> string \<Rightarrow> bool" where
  "text_matches (Exact p) text \<longleftrightarrow> text = p"
| "text_matches (Prefix p) text \<longleftrightarrow> prefix p text"

definition command_routes :: "(text_match \<times> command) list" where
  "command_routes =
    [(Prefix ''/start'', handleStart), (Exact ''/watch'', handleWatch), (Exact ''/list'', handleList), (Prefix ''/stop'', handleStop),
     (Prefix ''/pause'', handlePause), (Prefix ''/resume'', handleResume), (Prefix ''/share'', handleShare), (Exact ''/cancel'', handleCancel),
     (Exact ''/help'', handleHelp), (Exact ''/history'', handleHistory), (Exact ''/digest'', handleDigest), (Exact ''/settings'', handleSettings),
     (Exact ''/stats'', handleStats), (Exact ''/language'', handleLanguage), (Prefix ''/edit'', handleEdit), (Exact ''/saved'', handleSaved),
     (Exact ''/hidden'', handleHidden), (Exact ''/upgrade'', handleUpgrade)]"

definition command_for :: "string \<Rightarrow> command option" where
  "command_for text = map_option snd (find (\<lambda>(m, h). text_matches m text) command_routes)"

subsection \<open>The limiter (bot.go)\<close>

record user_rate_limit =
  ul_tokens :: int
  ul_lastTick :: gotime
  ul_lastSeen :: gotime

definition rateLimitBurst :: int where "rateLimitBurst = 10"
definition rateLimitInterval :: duration where "rateLimitInterval = seconds 1"

definition new_limit :: "gotime \<Rightarrow> user_rate_limit" where
  "new_limit now = \<lparr>ul_tokens = rateLimitBurst, ul_lastTick = now, ul_lastSeen = 0\<rparr>"

text \<open>One call, under the lock of the chat's entry: whether it is let through.\<close>

definition limit_allow :: "gotime \<Rightarrow> user_rate_limit \<Rightarrow> bool \<times> user_rate_limit" where
  "limit_allow now rl =
    (let refill = go_div (now - ul_lastTick rl) rateLimitInterval;
         rl = (if refill > 0 then rl\<lparr>ul_tokens := min (ul_tokens rl + refill) rateLimitBurst,
                 ul_lastTick := ul_lastTick rl + refill * rateLimitInterval\<rparr> else rl)
     in if ul_tokens rl \<le> 0 then (False, rl) else (True, rl\<lparr>ul_tokens := ul_tokens rl - 1, ul_lastSeen := now\<rparr>))"

type_synonym limits = "(int \<times> user_rate_limit) list"

definition isRateLimited :: "gotime \<Rightarrow> int \<Rightarrow> limits \<Rightarrow> bool \<times> limits" where
  "isRateLimited now chatID ls =
    (case limit_allow now (case map_of ls chatID of Some rl \<Rightarrow> rl | None \<Rightarrow> new_limit now) of
       (ok, rl) \<Rightarrow> (\<not> ok, AList.update chatID rl ls))"

definition staleThreshold :: duration where "staleThreshold = hours 1"

text \<open>The part of \<open>sweepStaleMaps\<close> that is about the limiter, when no entry is in use.\<close>

definition sweep_limits :: "gotime \<Rightarrow> limits \<Rightarrow> limits" where
  "sweep_limits now ls = filter (\<lambda>(c, rl). \<not> (ul_lastSeen rl > 0 \<and> ul_lastSeen rl < now - staleThreshold)) ls"

subsection \<open>Updates\<close>

datatype update = Message int string string | Button int int string | OtherUpdate

record bot_state =
  bs_dialogs :: dialogs
  bs_limits :: limits

definition perform :: "unit act \<Rightarrow> bot_state \<Rightarrow> bot_state" where
  "perform act s = s\<lparr>bs_dialogs := snd (run_state act (bs_dialogs s))\<rparr>"

text \<open>\<open>rateLimited\<close>; \<open>refused\<close> is what a refused update is told.\<close>

definition rateLimited :: "bot \<Rightarrow> int \<Rightarrow> unit act \<Rightarrow> unit act \<Rightarrow> bot_state \<Rightarrow> bot_state" where
  "rateLimited b chatID refused act s =
    (if chatID = 0 then s
     else case isRateLimited (bt_time b) chatID (bs_limits s) of
       (limited, ls) \<Rightarrow> perform (if limited then refused else act) (s\<lparr>bs_limits := ls\<rparr>))"

fun handle_update :: "bot \<Rightarrow> update \<Rightarrow> bot_state \<Rightarrow> bot_state" where
  "handle_update b (Message chatID username text) s =
    (case command_for text of
       Some h \<Rightarrow> rateLimited b chatID (say chatID ''rate_limit_message'') (h b chatID username text) s
     | None \<Rightarrow> perform (handleDefault b chatID username text) s)"
| "handle_update b (Button chatID fromID data) s = rateLimited b chatID stop (handleCallback b chatID fromID data) s"
| "handle_update b OtherUpdate s = s"

fun handle_updates :: "(bot \<times> update) list \<Rightarrow> bot_state \<Rightarrow> bot_state" where
  "handle_updates [] s = s"
| "handle_updates ((b, u) # us) s = handle_updates us (handle_update b u s)"


subsection \<open>Routes and limits\<close>

text \<open>No text fits two commands and no data two prefixes, so the order in which the routes are tried does not matter.\<close>

fun overlap :: "text_match \<Rightarrow> text_match \<Rightarrow> bool" where
  "overlap (Exact p) (Exact q) \<longleftrightarrow> p = q"
| "overlap (Exact p) (Prefix q) \<longleftrightarrow> prefix q p"
| "overlap (Prefix p) (Exact q) \<longleftrightarrow> prefix p q"
| "overlap (Prefix p) (Prefix q) \<longleftrightarrow> prefix p q \<or> prefix q p"

lemma overlapI: "text_matches m t \<Longrightarrow> text_matches n t \<Longrightarrow> overlap m n"
  by (cases m; cases n) (auto dest: prefix_same_cases)

fun no_overlap :: "text_match list \<Rightarrow> bool" where
  "no_overlap [] \<longleftrightarrow> True"
| "no_overlap (m # ms) \<longleftrightarrow> list_all (\<lambda>n. \<not> overlap m n) ms \<and> no_overlap ms"

lemma no_overlap_unique:
  "no_overlap ms \<Longrightarrow> i < length ms \<Longrightarrow> j < length ms \<Longrightarrow> text_matches (ms ! i) t \<Longrightarrow> text_matches (ms ! j) t \<Longrightarrow> i = j"
proof (induction ms arbitrary: i j)
  case (Cons m ms)
  have apart: "\<not> text_matches (ms ! k) t" if "k < length ms" "text_matches m t" for k
    using that Cons.prems(1) overlapI [of m t "ms ! k"] by (auto simp: list_all_length)
  show ?case using Cons apart by (cases i; cases j) auto
qed simp

lemma commands_unambiguous: "no_overlap (map fst command_routes)"
  by (simp add: command_routes_def)

lemma buttons_unambiguous: "no_overlap (map (Exact \<circ> fst) callbackExact @ map (Prefix \<circ> fst) callbackPrefixes)"
  by (simp add: callbackExact_def callbackPrefixes_def)

definition good_limit :: "user_rate_limit \<Rightarrow> bool" where
  "good_limit rl \<longleftrightarrow> 0 \<le> ul_tokens rl \<and> ul_tokens rl \<le> rateLimitBurst"

lemma limit_allow_spec:
  assumes "good_limit rl" "limit_allow now rl = (ok, rl')"
  shows "good_limit rl' \<and> ul_lastTick rl \<le> ul_lastTick rl' \<and> ul_lastTick rl' \<le> max now (ul_lastTick rl) \<and>
    (ul_tokens rl' + of_bool ok - ul_tokens rl) * rateLimitInterval \<le> ul_lastTick rl' - ul_lastTick rl \<and>
    (\<not> ok \<longrightarrow> ul_tokens rl' = 0 \<and> now < ul_lastTick rl' + rateLimitInterval)"
proof -
  define r where "r = go_div (now - ul_lastTick rl) rateLimitInterval"
  define n where "n = (if 0 < r then min (ul_tokens rl + r) rateLimitBurst else ul_tokens rl)"
  define tk where "tk = (if 0 < r then ul_lastTick rl + r * rateLimitInterval else ul_lastTick rl)"
  have core: "0 \<le> n \<and> n \<le> rateLimitBurst \<and> ul_lastTick rl \<le> tk \<and> tk \<le> max now (ul_lastTick rl) \<and>
      (n - ul_tokens rl) * rateLimitInterval \<le> tk - ul_lastTick rl \<and> now < tk + rateLimitInterval"
    using assms(1) by (intro refill_core) (simp_all add: good_limit_def n_def tk_def r_def rateLimitInterval_def duration_defs)
  have "limit_allow now rl =
      (if n \<le> 0 then (False, rl\<lparr>ul_tokens := n, ul_lastTick := tk\<rparr>)
       else (True, rl\<lparr>ul_tokens := n - 1, ul_lastTick := tk, ul_lastSeen := now\<rparr>))"
    by (simp add: limit_allow_def Let_def n_def tk_def r_def)
  then show ?thesis using core assms by (auto simp: good_limit_def split: if_splits)
qed

text \<open>The entry of a chat fulfils the contract of a token bucket.\<close>

interpretation chat: token_bucket limit_allow ul_tokens ul_lastTick good_limit rateLimitInterval
proof
  fix s now ok s'
  assume g: "good_limit s"
  then show "0 < rateLimitInterval" "0 \<le> ul_tokens s" by (simp_all add: good_limit_def rateLimitInterval_def duration_defs)
  assume a: "limit_allow now s = (ok, s')"
  note B = limit_allow_spec [OF g a]
  show "good_limit s'" "ul_lastTick s \<le> ul_lastTick s' \<and> ul_lastTick s' \<le> max now (ul_lastTick s)"
    "(ul_tokens s' + of_bool ok - ul_tokens s) * rateLimitInterval \<le> ul_lastTick s' - ul_lastTick s"
    "\<not> ok \<Longrightarrow> ul_tokens s' = 0 \<and> now < ul_lastTick s' + rateLimitInterval"
    using B by blast+
qed

text \<open>So a chat that is new at time \<open>t0\<close> gets at most ten commands through, and one more for every second.\<close>

lemma chat_rate_bound:
  assumes "chat.allow_all ts (new_limit t0) = (oks, rl)" "\<forall>t \<in> set ts. t \<le> u" "t0 \<le> u"
  shows "int (count_list oks True) * rateLimitInterval \<le> rateLimitBurst * rateLimitInterval + (u - t0)"
  using chat.rate_bound [OF _ assms(1) _ assms(2)] assms(3) by (simp add: good_limit_def new_limit_def rateLimitBurst_def)

end
