(* ===== verification/Dialogue.thy ===== *)
theory Dialogue
  imports Bot
begin

section \<open>What the dialogue guarantees\<close>

text \<open>
  The answers are checked one question at a time, and what a question has checked must still hold when the search is
  saved. The invariant \<open>dialogues_ok\<close> says for each state which answers have been checked. It is kept by every update
  as long as no call to the database fails; a failing read of the user's row breaks it.
\<close>

subsection \<open>The invariant\<close>

definition year_min_ok :: "wizard_data \<Rightarrow> bool" where
  "year_min_ok wd \<longleftrightarrow> 1990 \<le> wd_YearMin wd"

definition years_ok :: "int \<Rightarrow> wizard_data \<Rightarrow> bool" where
  "years_ok y wd \<longleftrightarrow> 1990 \<le> wd_YearMin wd \<and> wd_YearMin wd \<le> wd_YearMax wd \<and> wd_YearMax wd \<le> y + 2"

definition price_max_ok :: "wizard_data \<Rightarrow> bool" where
  "price_max_ok wd \<longleftrightarrow> 1000 \<le> wd_PriceMax wd \<and> wd_PriceMax wd \<le> 10000000"

definition prices_ok :: "wizard_data \<Rightarrow> bool" where
  "prices_ok wd \<longleftrightarrow> price_max_ok wd \<and> 0 \<le> wd_PriceMin wd \<and> wd_PriceMin wd \<le> wd_PriceMax wd"

text \<open>The answers that have been checked when the dialogue is in a state.\<close>

definition late_states :: "string list" where
  "late_states = [StateAskGearBox, StateAskEngine, StateAskMaxKm, StateAskMaxHand, StateAskKeywords, StateAskExcludeKeys, StateConfirm]"

definition stage_ok :: "int \<Rightarrow> string \<Rightarrow> wizard_data \<Rightarrow> bool" where
  "stage_ok y st wd \<longleftrightarrow>
     (st = StateAskYearMax \<longrightarrow> year_min_ok wd)
   \<and> (st = StateAskPriceMax \<longrightarrow> years_ok y wd)
   \<and> (st = StateAskPriceMin \<longrightarrow> years_ok y wd \<and> price_max_ok wd)
   \<and> (st \<in> set late_states \<longrightarrow> years_ok y wd \<and> prices_ok wd)"

definition user_ok :: "int \<Rightarrow> user \<Rightarrow> bool" where
  "user_ok y u \<longleftrightarrow> stage_ok y (u_State u) (dialogue_data u)"

definition users_ok :: "int \<Rightarrow> (int \<times> user) list \<Rightarrow> bool" where
  "users_ok y us \<longleftrightarrow> list_all (\<lambda>(c, u). user_ok y u) us"

definition quiet :: "dialogs \<Rightarrow> bool" where
  "quiet s \<longleftrightarrow> db_faults (dl_db s) = []"

definition dialogues_ok :: "int \<Rightarrow> dialogs \<Rightarrow> bool" where
  "dialogues_ok y s \<longleftrightarrow> quiet s \<and> users_ok y (db_users (dl_db s))"

lemma stage_ok_early:
  "stage_ok y StateIdle wd" "stage_ok y StateAskSource wd" "stage_ok y StateAskManufacturer wd" "stage_ok y StateSearchManufacturer wd"
  "stage_ok y StateAskModel wd" "stage_ok y StateSearchModel wd" "stage_ok y StateAskYearMin wd"
  by (simp_all add: stage_ok_def late_states_def state_names)

lemma stage_ok_checked:
  "stage_ok y StateAskYearMax wd = year_min_ok wd"
  "stage_ok y StateAskPriceMax wd = years_ok y wd"
  "stage_ok y StateAskPriceMin wd = (years_ok y wd \<and> price_max_ok wd)"
  "st \<in> set late_states \<Longrightarrow> stage_ok y st wd = (years_ok y wd \<and> prices_ok wd)"
  by (auto simp: stage_ok_def late_states_def state_names)

lemma late [simp]:
  "StateAskGearBox \<in> set late_states" "StateAskEngine \<in> set late_states" "StateAskMaxKm \<in> set late_states" "StateAskMaxHand \<in> set late_states"
  "StateAskKeywords \<in> set late_states" "StateAskExcludeKeys \<in> set late_states" "StateConfirm \<in> set late_states"
  by (simp_all add: late_states_def)

lemma clean_wizard_numbers [simp]:
  "wd_YearMin (clean_wizard wd) = wd_YearMin wd" "wd_YearMax (clean_wizard wd) = wd_YearMax wd"
  "wd_PriceMin (clean_wizard wd) = wd_PriceMin wd" "wd_PriceMax (clean_wizard wd) = wd_PriceMax wd"
  by (simp_all add: clean_wizard_def)

lemma stage_ok_numbers:
  assumes "wd_YearMin wd' = wd_YearMin wd" "wd_YearMax wd' = wd_YearMax wd" "wd_PriceMin wd' = wd_PriceMin wd" "wd_PriceMax wd' = wd_PriceMax wd"
  shows "stage_ok y st wd' = stage_ok y st wd"
  using assms by (simp add: stage_ok_def year_min_ok_def years_ok_def prices_ok_def price_max_ok_def)

subsection \<open>Reads, when no call fails\<close>

definition row_of :: "dialogs \<Rightarrow> int \<Rightarrow> user option" where
  "row_of s c = map_of (db_users (dl_db s)) c"

definition data_of :: "dialogs \<Rightarrow> int \<Rightarrow> wizard_data" where
  "data_of s c = (case row_of s c of Some u \<Rightarrow> dialogue_data u | None \<Rightarrow> empty_wizard)"

definition lang_of :: "dialogs \<Rightarrow> int \<Rightarrow> string" where
  "lang_of s c = (case row_of s c of Some u \<Rightarrow> if u_Language u = '''' then ''he'' else u_Language u | None \<Rightarrow> ''he'')"

lemma run_store: "run_state (store f) s = (case f (dl_db s) of (r, d) \<Rightarrow> (r, s\<lparr>dl_db := d\<rparr>))"
  by (simp add: store_def)

lemma run_store_read: "f (dl_db s) = (r, dl_db s) \<Longrightarrow> run_state (store f) s = (r, s)"
  by (simp add: run_store)

lemma run_say [simp]: "run_state (say c key) s = ((), s\<lparr>dl_sent := dl_sent s @ [(c, key)]\<rparr>)"
  by (simp add: say_def)

lemma run_reads [simp]:
  assumes "quiet s"
  shows "run_state (store (GetUser c)) s = (Inr (row_of s c), s)"
    "run_state (getUserLang c) s = (lang_of s c, s)"
    "run_state (loadWizardData c) s = (data_of s c, s)"
    "run_state (sayT c key) s = ((), s\<lparr>dl_sent := dl_sent s @ [(c, key)]\<rparr>)"
proof -
  show *: "run_state (store (GetUser c)) s = (Inr (row_of s c), s)"
    using assms by (simp add: run_store GetUser_def quiet_def row_of_def)
  then show lang: "run_state (getUserLang c) s = (lang_of s c, s)"
    by (simp add: getUserLang_def lang_of_def split: option.split)
  show "run_state (loadWizardData c) s = (data_of s c, s)"
    using * by (simp add: loadWizardData_def data_of_def split: option.split)
  show "run_state (sayT c key) s = ((), s\<lparr>dl_sent := dl_sent s @ [(c, key)]\<rparr>)"
    using lang by (simp add: sayT_def)
qed

lemma run_expect:
  assumes "quiet s"
  shows "run_state (expectStateOrNotify c st) s =
    (if \<exists>u. row_of s c = Some u \<and> u_State u = st then (True, s) else (False, s\<lparr>dl_sent := dl_sent s @ [(c, ''callback_expired'')]\<rparr>))"
  using assms by (auto simp: expectStateOrNotify_def split: option.split)

text \<open>A saved answer.\<close>

definition saved_in :: "int \<Rightarrow> string \<Rightarrow> wizard_data \<Rightarrow> bot \<Rightarrow> dialogs \<Rightarrow> dialogs" where
  "saved_in c st wd b s = s\<lparr>dl_db := update_user c (\<lambda>u. u\<lparr>u_State := st, u_StateData := marshal_wizard (wd\<lparr>wd_UpdatedAt := bt_now b\<rparr>)\<rparr>) (dl_db s)\<rparr>"

lemma run_save [simp]:
  assumes "quiet s"
  shows "run_state (saveWizardStateOrAbort b c st wd) s = (True, saved_in c st wd b s)"
  using assms by (simp add: saveWizardStateOrAbort_def run_store UpdateUserState_def quiet_def saved_in_def)

lemma quiet_simps [simp]:
  "quiet (s\<lparr>dl_sent := x\<rparr>) = quiet s" "quiet (s\<lparr>dl_polls := n\<rparr>) = quiet s" "quiet (s\<lparr>dl_pages := p\<rparr>) = quiet s"
  "quiet (saved_in c st wd b s) = quiet s"
  by (simp_all add: quiet_def saved_in_def update_user_def)

lemma ok_simps [simp]:
  "dialogues_ok y (s\<lparr>dl_sent := x\<rparr>) = dialogues_ok y s" "dialogues_ok y (s\<lparr>dl_polls := n\<rparr>) = dialogues_ok y s"
  "dialogues_ok y (s\<lparr>dl_pages := p\<rparr>) = dialogues_ok y s"
  by (simp_all add: dialogues_ok_def)

lemma ok_quiet [simp]: "dialogues_ok y s \<Longrightarrow> quiet s"
  by (simp add: dialogues_ok_def)

lemma users_ok_update:
  "users_ok y (db_users d) \<Longrightarrow> (\<And>u. user_ok y u \<Longrightarrow> user_ok y (f u)) \<Longrightarrow> users_ok y (db_users (update_user c f d))"
  by (auto simp: users_ok_def update_user_def list_all_iff)

text \<open>Saving answers that fit their state keeps the invariant.\<close>

lemma ok_saved:
  assumes "dialogues_ok y s" "stage_ok y st wd"
  shows "dialogues_ok y (saved_in c st wd b s)"
proof -
  have "stage_ok y st (clean_wizard (wd\<lparr>wd_UpdatedAt := bt_now b\<rparr>))"
    using assms(2) stage_ok_numbers [of "clean_wizard (wd\<lparr>wd_UpdatedAt := bt_now b\<rparr>)" wd] by simp
  then have "user_ok y (u\<lparr>u_State := st, u_StateData := marshal_wizard (wd\<lparr>wd_UpdatedAt := bt_now b\<rparr>)\<rparr>)" for u
    by (simp add: user_ok_def dialogue_data_def unmarshal_marshal)
  then show ?thesis
    using assms(1) by (simp add: dialogues_ok_def quiet_def saved_in_def users_ok_update) (simp add: update_user_def)
qed

text \<open>The data of a user in a state have been checked as far as the state says.\<close>

lemma ok_data:
  assumes "dialogues_ok y s" "row_of s c = Some u"
  shows "stage_ok y (u_State u) (data_of s c)"
proof -
  have "(c, u) \<in> set (db_users (dl_db s))" using assms(2) by (simp add: row_of_def map_of_SomeD)
  then show ?thesis using assms by (auto simp: dialogues_ok_def users_ok_def list_all_iff user_ok_def data_of_def)
qed

lemma run_reset:
  assumes "dialogues_ok y s" "st \<in> {StateIdle, StateAskSource}"
  shows "dialogues_ok y (snd (run_state (reset_dialogue c st) s))"
proof -
  have "user_ok y (u\<lparr>u_State := st, u_StateData := ''{}''\<rparr>)" for u
    using assms(2) stage_ok_early by (auto simp: user_ok_def)
  then show ?thesis
    using assms(1) by (simp add: reset_dialogue_def run_store UpdateUserState_def dialogues_ok_def quiet_def users_ok_update) (simp add: update_user_def)
qed

subsection \<open>Programs that keep the invariant\<close>

definition keeps :: "int \<Rightarrow> 'a act \<Rightarrow> bool" where
  "keeps y m \<longleftrightarrow> (\<forall>s. dialogues_ok y s \<longrightarrow> dialogues_ok y (snd (run_state m s)))"

named_theorems keeps_rules

lemma keepsI: "(\<And>s. dialogues_ok y s \<Longrightarrow> dialogues_ok y (snd (run_state m s))) \<Longrightarrow> keeps y m"
  by (simp add: keeps_def)

lemma keepsD: "keeps y m \<Longrightarrow> dialogues_ok y s \<Longrightarrow> run_state m s = (r, s') \<Longrightarrow> dialogues_ok y s'"
  by (metis keeps_def snd_conv)

lemma keeps_return [keeps_rules]: "keeps y (State_Monad.return x)"
  by (simp add: keeps_def)

lemma keeps_bind [keeps_rules]: "keeps y m \<Longrightarrow> (\<And>r. keeps y (f r)) \<Longrightarrow> keeps y (State_Monad.bind m f)"
  by (auto simp: keeps_def split: prod.split)

lemma keeps_if [keeps_rules]: "(P \<Longrightarrow> keeps y m) \<Longrightarrow> (\<not> P \<Longrightarrow> keeps y n) \<Longrightarrow> keeps y (if P then m else n)"
  by simp

lemma keeps_option [keeps_rules]: "(r = None \<Longrightarrow> keeps y m) \<Longrightarrow> (\<And>x. r = Some x \<Longrightarrow> keeps y (n x)) \<Longrightarrow> keeps y (case r of None \<Rightarrow> m | Some x \<Rightarrow> n x)"
  by (cases r) simp_all

lemma keeps_sum [keeps_rules]: "(\<And>x. r = Inl x \<Longrightarrow> keeps y (m x)) \<Longrightarrow> (\<And>x. r = Inr x \<Longrightarrow> keeps y (n x)) \<Longrightarrow> keeps y (case r of Inl x \<Rightarrow> m x | Inr x \<Rightarrow> n x)"
  by (cases r) simp_all

lemma keeps_prod [keeps_rules]: "(\<And>a b. keeps y (m a b)) \<Longrightarrow> keeps y (case r of (a, b) \<Rightarrow> m a b)"
  by (cases r) simp

lemma keeps_let [keeps_rules]: "keeps y (f x) \<Longrightarrow> keeps y (let v = x in f v)"
  by simp

lemma keeps_say [keeps_rules]: "keeps y (say c key)" "keeps y (sayT c key)" "keeps y (getUserLang c)" "keeps y (loadWizardData c)" "keeps y (TriggerPoll b)"
  by (simp_all add: keeps_def TriggerPoll_def)

lemma keeps_reset [keeps_rules]: "keeps y (reset_dialogue c StateIdle)" "keeps y (reset_dialogue c StateAskSource)"
  by (simp_all add: keeps_def run_reset)

text \<open>A call of the store that leaves the rows of the users alone, or changes no state.\<close>

lemma keeps_store:
  assumes "\<And>d. db_faults d = [] \<Longrightarrow> db_faults (snd (f d)) = [] \<and> (users_ok y (db_users d) \<longrightarrow> users_ok y (db_users (snd (f d))))"
  shows "keeps y (store f)"
  using assms by (auto simp: keeps_def dialogues_ok_def quiet_def run_store split_beta)

lemma keeps_stores [keeps_rules]:
  "keeps y (store (GetUser c))" "keeps y (store (ListSearches c))" "keeps y (store (CountSearches c))" "keeps y (store CountUsers)"
  "keeps y (store CountAllSearches)" "keeps y (store (GetSearch i c))" "keeps y (store (GetSearchByShareToken t))"
  "keeps y (store (CountSaved c))" "keeps y (store (CountHidden c))" "keeps y (store (ListSaved c l n))" "keeps y (store (ListHidden c l n))"
  "keeps y (store (CountUserListings c))" "keeps y (store (ListUserListings c l n))" "keeps y (store (SaveBookmark c t))"
  "keeps y (store (HideListing c t))" "keeps y (store (ClearHidden c))" "keeps y (store (GetDigestMode c))" "keeps y (store (GetDailyDigest c))"
  "keeps y (store (CreateSearch now i tok sr))" "keeps y (store (UpdateSearch sr))" "keeps y (store (DeleteSearch i c))"
  "keeps y (store (SetSearchActive i c active))"
  by (rule keeps_store, simp add: GetUser_def ListSearches_def CountSearches_def CountUsers_def CountAllSearches_def GetSearch_def
    GetSearchByShareToken_def CountSaved_def CountHidden_def ListSaved_def ListHidden_def CountUserListings_def ListUserListings_def
    SaveBookmark_def HideListing_def ClearHidden_def GetDigestMode_def GetDailyDigest_def CreateSearch_def UpdateSearch_def DeleteSearch_def
    SetSearchActive_def update_own_def Let_def)+

lemma user_ok_columns:
  "u_State u' = u_State u \<Longrightarrow> u_StateData u' = u_StateData u \<Longrightarrow> user_ok y u' = user_ok y u"
  by (simp add: user_ok_def dialogue_data_def)


lemma new_user_ok: "user_ok y (new_user c name ch cid)"
  using stage_ok_early(1) by (simp add: user_ok_def new_user_def StateIdle_def)

lemma users_ok_set: "users_ok y us \<Longrightarrow> user_ok y u \<Longrightarrow> users_ok y (AList.update c u us)"
  by (induction us) (auto simp: users_ok_def)

lemma users_ok_map_of: "users_ok y us \<Longrightarrow> map_of us c = Some u \<Longrightarrow> user_ok y u"
  by (auto simp: users_ok_def list_all_iff dest: map_of_SomeD)

lemma keeps_upsert [keeps_rules]: "keeps y (store (UpsertUser c name))"
proof (rule keeps_store)
  fix d :: db
  assume "db_faults d = []"
  have name_ok: "user_ok y (u\<lparr>u_Username := n, u_ChannelID := i\<rparr>) = user_ok y u" for u n i by (rule user_ok_columns) simp_all
  note \<open>db_faults d = []\<close>
  moreover have "user_ok y (case map_of (db_users d) c of None \<Rightarrow> new_user c name ''telegram'' (itoa c)
      | Some u \<Rightarrow> u\<lparr>u_Username := name, u_ChannelID := (if u_ChannelID u = '''' then itoa c else u_ChannelID u)\<rparr>)"
    if "users_ok y (db_users d)"
    using users_ok_map_of [OF that] name_ok by (simp add: new_user_ok split: option.split)
  ultimately show "db_faults (snd (UpsertUser c name d)) = []
      \<and> (users_ok y (db_users d) \<longrightarrow> users_ok y (db_users (snd (UpsertUser c name d))))"
    by (simp add: UpsertUser_def Let_def users_ok_set)
qed

lemma keeps_column:
  assumes "\<And>u. u_State (f u) = u_State u" "\<And>u. u_StateData (f u) = u_StateData u"
  shows "keeps y (store (db_call err (\<lambda>d. (Inr (), update_user c f d))))"
proof (rule keeps_store)
  fix d :: db assume quiet: "db_faults d = []"
  have "user_ok y (f u) = user_ok y u" for u by (rule user_ok_columns) (rule assms)+
  then have "users_ok y (db_users (update_user c f d))" if "users_ok y (db_users d)"
    using that by (intro users_ok_update) simp_all
  moreover have "db_faults (update_user c f d) = []" using quiet by (simp add: update_user_def)
  ultimately show "db_faults (snd (db_call err (\<lambda>d. (Inr (), update_user c f d)) d)) = []
      \<and> (users_ok y (db_users d) \<longrightarrow> users_ok y (db_users (snd (db_call err (\<lambda>d. (Inr (), update_user c f d)) d))))"
    using quiet by simp
qed

lemma keeps_columns [keeps_rules]:
  "keeps y (store (SetUserLanguage c l))" "keeps y (store (SetDigestMode c mode interval))" "keeps y (store (SetDailyDigest c e t))"
  unfolding SetUserLanguage_def SetDigestMode_def SetDailyDigest_def by (rule keeps_column; simp)+

lemma link_users_ok: "users_ok y (db_users d) \<Longrightarrow> users_ok y (db_users (link_users tg web d))"
proof -
  have link_ok: "user_ok y (u\<lparr>u_LinkedWebID := w\<rparr>) = user_ok y u" for u w by (rule user_ok_columns) simp_all
  assume "users_ok y (db_users d)"
  then show ?thesis by (auto simp: users_ok_def link_users_def list_all_iff link_ok)
qed

definition fine :: "int \<Rightarrow> db \<Rightarrow> bool" where
  "fine y d \<longleftrightarrow> db_faults d = [] \<and> users_ok y (db_users d)"

lemma fine_consume: "fine y d \<Longrightarrow> fine y (snd (ConsumeLinkToken now token d))"
  by (simp add: fine_def ConsumeLinkToken_def split: option.split)

lemma fine_link: "fine y d \<Longrightarrow> fine y (snd (LinkTelegramToWeb c web d))"
  using link_users_ok [of y d c web] by (simp add: fine_def LinkTelegramToWeb_def move_data_def) (simp add: link_users_def)

lemma keeps_fine:
  assumes "\<And>d. fine y d \<Longrightarrow> fine y (snd (f d))"
  shows "keeps y (store f)"
  using assms by (auto simp: keeps_def dialogues_ok_def quiet_def fine_def run_store split_beta)

lemma keeps_link [keeps_rules]: "keeps y (store (handleLinkStart links now c param))"
proof (rule keeps_fine)
  fix d :: db assume d: "fine y d"
  have "fine y (snd (case ConsumeLinkToken now token d of
         (Inl _, d) \<Rightarrow> (LinkError, d)
       | (Inr (Inl _), d) \<Rightarrow> (LinkExpired, d)
       | (Inr (Inr web), d) \<Rightarrow> (case LinkTelegramToWeb c web d of (Inl _, d) \<Rightarrow> (LinkError, d) | (Inr _, d) \<Rightarrow> (LinkSuccess, d))))" for token
    using fine_consume [OF d, of now token] fine_link
    by (auto split: prod.splits sum.splits) (metis snd_conv)+
  then show "fine y (snd (handleLinkStart links now c param d))"
    using d by (simp add: handleLinkStart_def Let_def)
qed

subsection \<open>Saving in a state that is known\<close>

lemma keeps_save: "stage_ok y st wd \<Longrightarrow> keeps y (saveWizardStateOrAbort b c st wd)"
  by (simp add: keeps_def ok_saved)

lemma keeps_save_early [keeps_rules]:
  "keeps y (saveWizardStateOrAbort b c StateAskSource wd)" "keeps y (saveWizardStateOrAbort b c StateAskManufacturer wd)"
  "keeps y (saveWizardStateOrAbort b c StateSearchManufacturer wd)" "keeps y (saveWizardStateOrAbort b c StateAskModel wd)"
  "keeps y (saveWizardStateOrAbort b c StateSearchModel wd)" "keeps y (saveWizardStateOrAbort b c StateAskYearMin wd)"
  by (simp_all add: keeps_save stage_ok_early)

definition in_state :: "int \<Rightarrow> string \<Rightarrow> dialogs \<Rightarrow> bool" where
  "in_state c st s \<longleftrightarrow> (\<exists>u. row_of s c = Some u \<and> u_State u = st)"

definition keeps_at :: "int \<Rightarrow> int \<Rightarrow> string \<Rightarrow> 'a act \<Rightarrow> bool" where
  "keeps_at y c st m \<longleftrightarrow> (\<forall>s. dialogues_ok y s \<longrightarrow> in_state c st s \<longrightarrow> dialogues_ok y (snd (run_state m s)))"

named_theorems at_rules

lemma at_any: "keeps y m \<Longrightarrow> keeps_at y c st m"
  by (simp add: keeps_def keeps_at_def)

lemma at_load [at_rules]: "(\<And>wd. stage_ok y st wd \<Longrightarrow> keeps_at y c st (f wd)) \<Longrightarrow> keeps_at y c st (State_Monad.bind (loadWizardData c) f)"
  using ok_data by (fastforce simp: keeps_at_def in_state_def)

lemma at_lang [at_rules]: "(\<And>l. keeps_at y c st (f l)) \<Longrightarrow> keeps_at y c st (State_Monad.bind (getUserLang c) f)"
  by (simp add: keeps_at_def)

lemma at_if [at_rules]: "(P \<Longrightarrow> keeps_at y c st m) \<Longrightarrow> (\<not> P \<Longrightarrow> keeps_at y c st n) \<Longrightarrow> keeps_at y c st (if P then m else n)"
  by simp

lemma at_option [at_rules]: "(r = None \<Longrightarrow> keeps_at y c st m) \<Longrightarrow> (\<And>x. r = Some x \<Longrightarrow> keeps_at y c st (n x)) \<Longrightarrow> keeps_at y c st (case r of None \<Rightarrow> m | Some x \<Rightarrow> n x)"
  by (cases r) simp_all

lemma at_let [at_rules]: "keeps_at y c st (f x) \<Longrightarrow> keeps_at y c st (let v = x in f v)"
  by simp

lemma at_save [at_rules]:
  assumes "stage_ok y st' wd"
  shows "keeps_at y c st (save_then b c st' wd (say c key))" "keeps_at y c st (save_then b c st' wd (sayT c key))"
  using assms by (intro at_any keeps_rules keeps_save; simp)+

lemma at_say [at_rules]: "keeps_at y c st (say c key)" "keeps_at y c st (sayT c key)" "keeps_at y c st stop"
  by (intro at_any keeps_rules)+

lemma keeps_expect [keeps_rules]:
  assumes "keeps_at y c st m"
  shows "keeps y (do { ok \<leftarrow> expectStateOrNotify c st; if \<not> ok then stop else m })"
proof (rule keepsI)
  fix s assume s: "dialogues_ok y s"
  show "dialogues_ok y (snd (run_state (do { ok \<leftarrow> expectStateOrNotify c st; if \<not> ok then stop else m }) s))"
    using s assms by (auto simp: run_expect keeps_at_def in_state_def)
qed


subsection \<open>Every handler keeps the invariant\<close>

lemma keeps_questions [keeps_rules]:
  "keeps y (sourceDone b c)" "keeps y (onSourceToggle b c data)" "keeps y (onMfrPage b c data)" "keeps y (onMfrSearch b c data)"
  "keeps y (onMdlPage b c data)" "keeps y (onMdlSearch b c data)" "keeps y (handleManufacturerSearch b c data)" "keeps y (handleModelSearch b c data)"
  "keeps y (onEditRestart b c data)" "keeps y (onCancelCallback b c data)" "keeps y (onLanguageSwitch l b c data)"
  unfolding sourceDone_def onSourceToggle_def onMfrPage_def onMfrSearch_def onMdlPage_def onMdlSearch_def handleManufacturerSearch_def
    handleModelSearch_def onEditRestart_def onCancelCallback_def onLanguageSwitch_def
  by (intro keeps_rules)+

lemma keeps_sources [keeps_rules]: "keeps y (onLegacySourceSelected b c data)" "keeps y (onSourceDone b c data)"
  unfolding onLegacySourceSelected_def onSourceDone_def by (intro keeps_rules)+

lemma keeps_limit [keeps_rules]: "keeps y (checkSearchLimit b c key)" "keeps y (ensureUser c name)" "keeps y (create_search b sr)"
  unfolding checkSearchLimit_def ensureUser_def create_search_def by (intro keeps_rules)+

lemma keeps_searches [keeps_rules]:
  "keeps y (onConfirm b c data)" "keeps y (onDeleteSearch b c data)" "keeps y (onShareCopy b c data)" "keeps y (onQuickStart b c data)"
  "keeps y (start_watch b c)"
  unfolding onConfirm_def onDeleteSearch_def onShareCopy_def onQuickStart_def start_watch_def
  by (intro keeps_rules)+

lemma keeps_menus [keeps_rules]:
  "keeps y (onSaveListing b c data)" "keeps y (onHideListing b c data)" "keeps y (onClearHidden b c data)" "keeps y (onClearHiddenConfirm b c data)"
  "keeps y (onDigestOn b c data)" "keeps y (onDigestOff b c data)" "keeps y (onDigestInterval b c data)" "keeps y (set_daily e k b c)"
  unfolding onSaveListing_def onHideListing_def onClearHidden_def onClearHiddenConfirm_def onDigestOn_def onDigestOff_def onDigestInterval_def
    set_daily_def
  by (intro keeps_rules)+

lemma keeps_page [keeps_rules]: "keeps y (say_page c key ts)"
  by (simp add: keeps_def say_page_def)

lemma keeps_pages [keeps_rules]:
  "keeps y (sendHistoryPage b c n)" "keeps y (sendSavedPage b c n)" "keeps y (sendHiddenPage b c n)"
  unfolding sendHistoryPage_def sendSavedPage_def sendHiddenPage_def by (intro keeps_rules)+

text \<open>The guarded buttons: what they save goes with the state that they expect.\<close>

lemmas checks = stage_ok_checked year_min_ok_def years_ok_def prices_ok_def price_max_ok_def

lemma keeps_guarded [keeps_rules]:
  "keeps y (onManufacturerSelected b c data)" "keeps y (onModelSelected b c data)" "keeps y (onSkipPriceMin b c data)" "keeps y (onGearBoxSelected b c data)"
  "keeps y (onEngineSelected b c data)" "keeps y (onMaxKmSelected b c data)" "keeps y (onMaxHandSelected b c data)" "keeps y (onSkipKeywords b c data)"
  "keeps y (onSkipExcludeKeys b c data)"
  unfolding onManufacturerSelected_def onModelSelected_def onSkipPriceMin_def onGearBoxSelected_def onEngineSelected_def onMaxKmSelected_def
    onMaxHandSelected_def onSkipKeywords_def onSkipExcludeKeys_def
  by (rule keeps_expect, intro at_rules stage_ok_early; simp add: checks)+

text \<open>The answers in text.\<close>

lemma at_answers:
  assumes "bt_year b \<le> y"
  shows "keeps_at y c StateAskYearMin (handleYearMin b c text)" "keeps_at y c StateAskYearMax (handleYearMax b c text)"
    "keeps_at y c StateAskPriceMax (handlePriceMax b c text)" "keeps_at y c StateAskPriceMin (handlePriceMin b c text)"
    "keeps_at y c StateAskKeywords (handleKeywordsInput b c text)" "keeps_at y c StateAskExcludeKeys (handleExcludeKeysInput b c text)"
  unfolding handleYearMin_def handleYearMax_def handlePriceMax_def handlePriceMin_def handleKeywordsInput_def handleExcludeKeysInput_def maxYear_def
  using assms by (intro at_rules; simp add: checks Let_def)+


lemma keeps_buttons [keeps_rules]:
  "keeps y (onHistoryPage b c data)" "keeps y (onSavedPage b c data)" "keeps y (onHiddenPage b c data)" "keeps y (onDailyDigestOn b c data)"
  "keeps y (onDailyDigestOff b c data)" "keeps y (onWatchFromCallback b c data)"
  unfolding onHistoryPage_def onSavedPage_def onHiddenPage_def page_button_def onDailyDigestOn_def onDailyDigestOff_def onWatchFromCallback_def
  by (intro keeps_rules)+

lemma keeps_exact: "(k, h) \<in> set callbackExact \<Longrightarrow> keeps y (h b c data)"
  unfolding callbackExact_def by (auto intro!: keeps_rules)

lemma keeps_prefixed: "(k, h) \<in> set callbackPrefixes \<Longrightarrow> keeps y (h b c data)"
  unfolding callbackPrefixes_def by (auto intro!: keeps_rules)

lemma keeps_dispatch: "keeps y (dispatchCallbackData b c data)"
proof (cases "map_of callbackExact data")
  case (Some h)
  then show ?thesis using keeps_exact [OF map_of_SomeD] by (simp add: dispatchCallbackData_def)
next
  case None
  have "(p, h) \<in> set callbackPrefixes" if "find (\<lambda>(p, h). prefix p data) callbackPrefixes = Some (p, h)" for p h
    using that by (auto simp: find_Some_iff in_set_conv_nth)
  then show ?thesis using None keeps_prefixed
    by (auto simp: dispatchCallbackData_def split: option.split intro!: keeps_rules)
qed

lemma keeps_known [keeps_rules]: "keeps y act \<Longrightarrow> keeps y (as_known c name act)"
  unfolding as_known_def by (intro keeps_rules)

lemma keeps_number [keeps_rules]: "(\<And>i. keeps y (f i)) \<Longrightarrow> keeps y (with_number c name text f)"
  unfolding with_number_def by (intro keeps_rules)

lemma keeps_starts [keeps_rules]: "keeps y (handleShareStart b c param)" "keeps y (link_start b c param)"
  unfolding handleShareStart_def link_start_def by (intro keeps_rules)+

lemma keeps_commands: "(m, h) \<in> set command_routes \<Longrightarrow> keeps y (h b c name text)"
  unfolding command_routes_def
  by (auto simp: handleStart_def handleWatch_def handleList_def handleStop_def handlePause_def handleResume_def handleShare_def handleCancel_def
    handleHelp_def handleHistory_def handleDigest_def handleSettings_def handleStats_def handleLanguage_def handleEdit_def handleSaved_def
    handleHidden_def handleUpgrade_def intro!: keeps_rules)

lemma keeps_searching: "keeps_at y c st (handleManufacturerSearch b c text)" "keeps_at y c st (handleModelSearch b c text)"
  by (intro at_any keeps_rules)+

lemma at_routes:
  assumes "bt_year b \<le> y" "map_of dialogue_routes st = Some h"
  shows "keeps_at y c st (h b c text)"
  using assms(2) keeps_searching at_answers [OF assms(1)]
  by (auto simp: dialogue_routes_def split: if_splits)

lemma at_expired:
  assumes "\<And>e. \<not> e \<Longrightarrow> keeps_at y c st m"
  shows "keeps_at y c st (do { e \<leftarrow> dialogue_expired b c st; if e then stop else m })"
  using assms run_reset [of y _ StateIdle c]
  by (auto simp: keeps_at_def dialogue_expired_def split: prod.split) (metis snd_conv ok_simps(1) run_reads(4) ok_quiet)+

lemma keeps_default:
  assumes "bt_year b \<le> y"
  shows "keeps y (handleDefault b c name text)"
proof -
  have at: "keeps_at y c st (do {
         let text = trim_space text;
         expired \<leftarrow> dialogue_expired b c st;
         if expired then stop
         else case map_of dialogue_routes st of
           Some h \<Rightarrow> h b c text
         | None \<Rightarrow> if text \<noteq> '''' \<and> \<not> prefix ''/'' text then sayT c ''unknown_command'' else stop
       })" for st
    unfolding Let_def using at_routes [OF assms] by (intro at_expired at_rules) auto
  have "keeps y (do { r \<leftarrow> store (GetUser c); case r of Inr (Some user) \<Rightarrow> m (u_State user) | _ \<Rightarrow> stop })"
    if "\<And>st. keeps_at y c st (m st)" for m :: "string \<Rightarrow> unit act"
    using that by (auto simp: keeps_def keeps_at_def in_state_def split: option.split)
  from keeps_known [OF this [OF at]] show ?thesis unfolding handleDefault_def .
qed


lemma keeps_update:
  assumes "dialogues_ok y (bs_dialogs s)" "bt_year b \<le> y"
  shows "dialogues_ok y (bs_dialogs (handle_update b u s))"
proof -
  have run: "dialogues_ok y (bs_dialogs (perform m s'))" if "keeps y m" "dialogues_ok y (bs_dialogs s')" for m s'
    using that by (simp add: perform_def keeps_def)
  have limited: "dialogues_ok y (bs_dialogs (rateLimited b c refused m s))" if "keeps y refused" "keeps y m" for c refused m
    using that assms(1) run by (auto simp: rateLimited_def split: prod.split)
  show ?thesis
  proof (cases u)
    case (Message c name msg)
    have "(m, h) \<in> set command_routes" if "find (\<lambda>(m, h). text_matches m msg) command_routes = Some (m, h)" for m h
      using that by (auto simp: find_Some_iff in_set_conv_nth)
    then have "keeps y (h b c name msg)" if "command_for msg = Some h" for h
      using that keeps_commands by (auto simp: command_for_def)
    then show ?thesis
      using Message limited run [OF keeps_default [OF assms(2)] assms(1)] keeps_say(1) by (auto split: option.split)
  next
    case (Button c f data)
    have "keeps y (handleCallback b c f data)"
      using keeps_dispatch by (simp add: handleCallback_def keeps_return)
    then show ?thesis using Button limited [OF keeps_return] by simp
  qed (use assms(1) in simp)
qed

lemma keeps_updates:
  assumes "dialogues_ok y (bs_dialogs s)" "\<forall>(b, u) \<in> set us. bt_year b \<le> y"
  shows "dialogues_ok y (bs_dialogs (handle_updates us s))"
  using assms by (induction us arbitrary: s) (auto simp: keeps_update)

subsection \<open>What is saved\<close>

definition in_wizard_range :: "int \<Rightarrow> search \<Rightarrow> bool" where
  "in_wizard_range y s \<longleftrightarrow> 1990 \<le> s_YearMin s \<and> s_YearMin s \<le> s_YearMax s \<and> s_YearMax s \<le> y + 2
     \<and> 1000 \<le> s_PriceMax s \<and> s_PriceMax s \<le> 10000000 \<and> 0 \<le> s_PriceMin s \<and> s_PriceMin s \<le> s_PriceMax s"

lemma reset_searches: "db_searches (dl_db (snd (run_state (reset_dialogue c st) s))) = db_searches (dl_db s)"
  by (simp add: reset_dialogue_def run_store UpdateUserState_def split_beta)
    (rule db_call_frame; simp add: update_user_def)

lemma update_new_rows:
  assumes "run_state (store (UpdateSearch new)) s = (r, s')" "x \<in> set (db_searches (dl_db s'))" "x \<notin> set (db_searches (dl_db s))"
  obtains old where "x = updated_row new old"
  using assms by (auto simp: run_store UpdateSearch_def db_call_eq update_own_def Let_def split: prod.splits if_splits)

lemma create_new_rows:
  assumes "run_state (create_search b new) s = (r, s')" "x \<in> set (db_searches (dl_db s'))" "x \<notin> set (db_searches (dl_db s))"
  shows "s_YearMin x = s_YearMin new \<and> s_YearMax x = s_YearMax new \<and> s_PriceMin x = s_PriceMin new \<and> s_PriceMax x = s_PriceMax new"
  using assms by (auto simp: create_search_def run_store CreateSearch_def db_call_eq split: prod.splits if_splits)

lemma run_limit:
  assumes "quiet s"
  shows "run_state (checkSearchLimit b c key) s = (False, s) \<or> (\<exists>m. run_state (checkSearchLimit b c key) s = (True, s\<lparr>dl_sent := m\<rparr>))"
  using assms by (auto simp: checkSearchLimit_def run_store CountSearches_def quiet_def)

lemma poll_searches [simp]: "db_searches (dl_db (snd (run_state (TriggerPoll b) s))) = db_searches (dl_db s)"
  by (simp add: TriggerPoll_def)

lemma confirm_range:
  assumes "dialogues_ok y s" "x \<in> set (db_searches (dl_db (snd (run_state (onConfirm b c data) s))))" "x \<notin> set (db_searches (dl_db s))"
  shows "in_wizard_range y x"
proof (cases "in_state c StateConfirm s")
  case False
  then have "snd (run_state (onConfirm b c data) s) = s\<lparr>dl_sent := dl_sent s @ [(c, ''wizard_session_expired'')]\<rparr>"
    using assms(1) by (auto simp: onConfirm_def in_state_def split: option.splits)
  then show ?thesis using assms by simp
next
  case True
  then obtain u where u: "row_of s c = Some u" "u_State u = StateConfirm" by (auto simp: in_state_def)
  define wd where "wd = data_of s c"
  have "stage_ok y StateConfirm wd" using ok_data [OF assms(1) u(1)] u(2) by (simp add: wd_def)
  then have good: "in_wizard_range y (wizard_search i c wd)" for i
    by (simp add: stage_ok_checked in_wizard_range_def years_ok_def prices_ok_def price_max_ok_def wizard_search_def)
  have quiet: "quiet s" using assms(1) by simp
  obtain r1 s1 where upd: "run_state (store (UpdateSearch (wizard_search (wd_EditSearchID wd) c wd))) s = (r1, s1)" by fastforce
  obtain r2 s2 where cre: "run_state (create_search b (wizard_search 0 c wd)) s = (r2, s2)" by fastforce
  have "db_searches (dl_db (snd (run_state (onConfirm b c data) s))) \<in> {db_searches (dl_db s), db_searches (dl_db s1), db_searches (dl_db s2)}"
  proof (cases "wd_EditSearchID wd > 0")
    case True
    then show ?thesis
      using quiet u upd by (cases r1) (auto simp: onConfirm_def wd_def [symmetric] split_beta reset_searches)
  next
    case False
    from run_limit [OF quiet, of b c "''watch_limit''"] show ?thesis
      using quiet u cre False by (cases r2) (auto simp: onConfirm_def wd_def [symmetric] split_beta reset_searches)
  qed
  then consider "x \<in> set (db_searches (dl_db s1))" | "x \<in> set (db_searches (dl_db s2))" using assms(2,3) by auto
  then show ?thesis
  proof cases
    case 1
    from update_new_rows [OF upd 1 assms(3)] obtain old where "x = updated_row (wizard_search (wd_EditSearchID wd) c wd) old" .
    then show ?thesis using good [of "wd_EditSearchID wd"] by (simp add: in_wizard_range_def updated_row_def)
  next
    case 2
    from create_new_rows [OF cre 2 assms(3)] show ?thesis using good [of 0] by (simp add: in_wizard_range_def)
  qed
qed


lemma confirm_route:
  "bs_dialogs (handle_update b (Button c c ''confirm:yes'') s) = bs_dialogs s
   \<or> bs_dialogs (handle_update b (Button c c ''confirm:yes'') s) = snd (run_state (onConfirm b c ''confirm:yes'') (bs_dialogs s))"
proof -
  have route: "map_of callbackExact ''confirm:yes'' = Some onConfirm" by (simp add: callbackExact_def)
  show ?thesis
    by (auto simp: rateLimited_def perform_def handleCallback_def dispatchCallbackData_def route split: prod.split)
qed

definition searches_of :: "bot_state \<Rightarrow> search list" where
  "searches_of s = db_searches (dl_db (bs_dialogs s))"

text \<open>C10. A search saved by the dialogue has passed every check of the dialogue, as long as no call to the database fails (what a
  failing read does is the property below): from rows whose answers have been checked, whatever messages and buttons, of whatever
  users, old buttons included, came before, in whatever order, no later than in year \<open>y\<close>, the years of a search that
  a press of "confirm" adds or changes run from 1990 at the earliest to two years from now at the latest, and its prices are
  between 0 and the maximum, which is from 1,000 to 10,000,000.\<close>

theorem saved_search_is_in_range:
  assumes "dialogues_ok y (bs_dialogs s)" "\<forall>(b, u) \<in> set us. bt_year b \<le> y"
    and "x \<in> set (searches_of (handle_update b (Button c c ''confirm:yes'') (handle_updates us s)))"
    and "x \<notin> set (searches_of (handle_updates us s))"
  shows "in_wizard_range y x"
proof -
  let ?s = "handle_updates us s"
  have ok: "dialogues_ok y (bs_dialogs ?s)" by (rule keeps_updates [OF assms(1,2)])
  show ?thesis
    using confirm_route [of b c ?s] assms(3,4) confirm_range [OF ok] by (auto simp: searches_of_def)
qed

subsection \<open>Confirming twice\<close>

lemma row_of_reset:
  assumes "quiet s" "row_of s c = Some u"
  shows "row_of (snd (run_state (reset_dialogue c st) s)) c = Some (u\<lparr>u_State := st, u_StateData := ''{}''\<rparr>)"
    "quiet (snd (run_state (reset_dialogue c st) s))"
  using assms
  by (simp_all add: reset_dialogue_def run_store UpdateUserState_def row_of_def quiet_def update_user_def map_of_map_pairs)
    (simp add: update_user_def)?

lemma row_of_simps [simp]:
  "row_of (s\<lparr>dl_sent := m\<rparr>) c = row_of s c" "row_of (s\<lparr>dl_polls := n\<rparr>) c = row_of s c"
  by (simp_all add: row_of_def)

lemma poll_row [simp]: "row_of (snd (run_state (TriggerPoll b) s)) c = row_of s c" "quiet (snd (run_state (TriggerPoll b) s)) = quiet s"
  by (simp_all add: TriggerPoll_def)

lemma store_frame:
  assumes "quiet s"
  shows "run_state (store (UpdateSearch new)) s = (r, s') \<Longrightarrow> quiet s' \<and> row_of s' c = row_of s c"
    "run_state (create_search b new) s = (q, s') \<Longrightarrow> quiet s' \<and> row_of s' c = row_of s c"
  using assms
  by (auto simp: run_store create_search_def UpdateSearch_def CreateSearch_def update_own_def Let_def quiet_def row_of_def split: if_splits)

lemma failed_update:
  assumes "quiet s" "run_state (store (UpdateSearch new)) s = (Inl e, s')"
  shows "db_searches (dl_db s') = db_searches (dl_db s)"
proof -
  have "map (\<lambda>x. if s_ID x = s_ID new \<and> s_ChatID x = s_ChatID new then updated_row new x else x) xs = xs"
    if "\<not> list_ex (\<lambda>x. s_ID x = s_ID new \<and> s_ChatID x = s_ChatID new) xs" for xs
    using that by (induction xs) auto
  then show ?thesis using assms by (auto simp: run_store UpdateSearch_def update_own_def Let_def quiet_def split: if_splits)
qed

lemma failed_create:
  assumes "quiet s" "run_state (create_search b new) s = (Inl e, s')"
  shows "db_searches (dl_db s') = db_searches (dl_db s)"
  using assms by (auto simp: run_store create_search_def CreateSearch_def quiet_def split: if_splits)

lemma confirm_leaves_idle:
  assumes "quiet s" "db_searches (dl_db (snd (run_state (onConfirm b c data) s))) \<noteq> db_searches (dl_db s)"
  shows "quiet (snd (run_state (onConfirm b c data) s)) \<and> \<not> in_state c StateConfirm (snd (run_state (onConfirm b c data) s))"
proof (cases "in_state c StateConfirm s")
  case False
  then show ?thesis using assms by (auto simp: onConfirm_def in_state_def split: option.splits)
next
  case True
  then obtain u where u: "row_of s c = Some u" "u_State u = StateConfirm" by (auto simp: in_state_def)
  define wd where "wd = data_of s c"
  have names: "StateIdle \<noteq> StateConfirm" by (simp add: state_names)
  show ?thesis
  proof (cases "wd_EditSearchID wd > 0")
    case True
    obtain r1 s1 where upd: "run_state (store (UpdateSearch (wizard_search (wd_EditSearchID wd) c wd))) s = (r1, s1)" by fastforce
    have s1: "quiet s1" "row_of s1 c = Some u" using store_frame(1) [OF assms(1) upd] u by simp_all
    show ?thesis
      using assms u upd True s1 names failed_update [OF assms(1)]
      by (cases r1) (auto simp: onConfirm_def wd_def [symmetric] split_beta row_of_reset in_state_def)
  next
    case False
    obtain r2 s2 where cre: "run_state (create_search b (wizard_search 0 c wd)) s = (r2, s2)" by fastforce
    have s2: "quiet s2" "row_of s2 c = Some u" using store_frame(2) [OF assms(1) cre] u by simp_all
    from run_limit [OF assms(1), of b c "''watch_limit''"] show ?thesis
      using assms u cre False s2 names failed_create [OF assms(1)]
      by (cases r2) (auto simp: onConfirm_def wd_def [symmetric] split_beta row_of_reset in_state_def)
  qed
qed

text \<open>C11. A second press of "confirm" saves nothing: after a press that has added or changed a search the searches stay as they
  are, since the dialogue is over, when no call to the database fails.\<close>

theorem confirm_works_once:
  assumes "quiet (bs_dialogs s)" "s' = handle_update b (Button c c ''confirm:yes'') s" "searches_of s' \<noteq> searches_of s"
  shows "searches_of (handle_update b' (Button c c ''confirm:yes'') s') = searches_of s'"
proof -
  have s': "bs_dialogs s' = snd (run_state (onConfirm b c ''confirm:yes'') (bs_dialogs s))"
    using confirm_route [of b c s] assms(2,3) by (auto simp: searches_of_def)
  then have idle: "quiet (bs_dialogs s')" "\<not> in_state c StateConfirm (bs_dialogs s')"
    using confirm_leaves_idle [OF assms(1), of b c "''confirm:yes''"] assms(3) by (simp_all add: searches_of_def)
  then have "db_searches (dl_db (snd (run_state (onConfirm b' c ''confirm:yes'') (bs_dialogs s')))) = db_searches (dl_db (bs_dialogs s'))"
    by (auto simp: onConfirm_def in_state_def split: option.splits)
  then show ?thesis using confirm_route [of b' c s'] by (auto simp: searches_of_def)
qed


subsection \<open>An example\<close>

definition sample_bot :: bot where
  "sample_bot = \<lparr>bt_MaxSearches = 3, bt_QuickStartManufacturer = 19, bt_QuickStartModel = 8640, bt_ManufacturerName = (\<lambda>_. ''Toyota''),
     bt_ModelName = (\<lambda>_ _. ''Yaris''), bt_T = (\<lambda>_ key. key), bt_poll = True, bt_links = True, bt_listings = True, bt_digests = True,
     bt_dailyDigests = True, bt_saved = True, bt_hidden = True, bt_adminChatID = 1, bt_username = ''bot'', bt_now = 1000, bt_year = 2026,
     bt_time = seconds 1000, bt_newID = 5, bt_shareToken = ''tok''\<rparr>"

definition sample_answers :: wizard_data where
  "sample_answers = empty_wizard\<lparr>wd_Source := ''yad2'', wd_Manufacturer := 19, wd_ManufacturerName := ''Toyota'', wd_Model := 1,
     wd_ModelName := ''Yaris'', wd_YearMin := 2015, wd_YearMax := 2020, wd_PriceMax := 90000, wd_PriceMin := 10000\<rparr>"

definition sample_dialogs :: "bool list \<Rightarrow> string \<Rightarrow> dialogs" where
  "sample_dialogs faults st = \<lparr>dl_db = empty_db\<lparr>db_faults := faults,
       db_users := [(7, (new_user 7 ''a'' ''telegram'' ''7'')\<lparr>u_State := st, u_StateData := marshal_wizard sample_answers\<rparr>)]\<rparr>,
     dl_sent = [], dl_pages = [], dl_polls = 0\<rparr>"

definition sample_bot_state :: "bool list \<Rightarrow> string \<Rightarrow> bot_state" where
  "sample_bot_state faults st = \<lparr>bs_dialogs = sample_dialogs faults st, bs_limits = []\<rparr>"

lemma sample_row: "row_of (sample_dialogs fs st) 7 = Some ((new_user 7 ''a'' ''telegram'' ''7'')\<lparr>u_State := st, u_StateData := marshal_wizard sample_answers\<rparr>)"
  by (simp add: row_of_def sample_dialogs_def)

lemma sample_quiet: "quiet (sample_dialogs [] st)"
  by (simp add: quiet_def sample_dialogs_def)

lemma sample_data: "data_of (sample_dialogs fs st) 7 = clean_wizard sample_answers"
  by (simp add: data_of_def sample_row dialogue_data_def unmarshal_marshal)

lemma sample_ok: "dialogues_ok 2026 (sample_dialogs [] st)"
proof -
  have "stage_ok 2026 st (clean_wizard sample_answers)"
    by (simp add: stage_ok_def year_min_ok_def years_ok_def prices_ok_def price_max_ok_def sample_answers_def)
  then show ?thesis
    using sample_quiet by (simp add: dialogues_ok_def sample_dialogs_def users_ok_def user_ok_def dialogue_data_def unmarshal_marshal empty_db_def)
qed

lemma limit_free:
  assumes "quiet s" "int (length (filter (\<lambda>x. s_ChatID x = c \<and> s_Active x) (db_searches (dl_db s)))) < maxSearchesForUser b"
  shows "run_state (checkSearchLimit b c key) s = (False, s)"
  using assms by (simp add: checkSearchLimit_def run_store CountSearches_def quiet_def)

text \<open>The row that a confirmed dialogue becomes.\<close>

definition confirmed_row :: "bot \<Rightarrow> dialogs \<Rightarrow> search \<Rightarrow> search" where
  "confirmed_row b s new = new\<lparr>s_ID := bt_newID b, s_UserSeq := next_user_seq (s_ChatID new) (db_searches (dl_db s)),
     s_Source := source_or_default (s_Source new), s_SellerFilter := NormalizeSellerFilter (s_SellerFilter new), s_Active := True,
     s_CreatedAt := bt_time b, s_ShareToken := bt_shareToken b\<rparr>"

lemma confirm_creates:
  assumes "quiet s" "in_state c StateConfirm s" "wd_EditSearchID (data_of s c) \<le> 0"
    and "int (length (filter (\<lambda>x. s_ChatID x = c \<and> s_Active x) (db_searches (dl_db s)))) < maxSearchesForUser b"
    and "search_columns_fit (wizard_search 0 c (data_of s c))" "\<not> list_ex (\<lambda>x. s_ShareToken x = bt_shareToken b) (db_searches (dl_db s))"
  shows "db_searches (dl_db (snd (run_state (onConfirm b c data) s))) = db_searches (dl_db s) @ [confirmed_row b s (wizard_search 0 c (data_of s c))]"
proof -
  obtain u where u: "row_of s c = Some u" "u_State u = StateConfirm" using assms(2) by (auto simp: in_state_def)
  have chat: "s_ChatID (wizard_search 0 c wd) = c" for wd by (simp add: wizard_search_def)
  have "run_state (create_search b (wizard_search 0 c (data_of s c))) s
      = (Inr (bt_newID b), s\<lparr>dl_db := (dl_db s)\<lparr>db_searches := db_searches (dl_db s) @ [confirmed_row b s (wizard_search 0 c (data_of s c))]\<rparr>\<rparr>)"
    using assms(1,5,6) u by (simp add: create_search_def run_store CreateSearch_def quiet_def chat row_of_def confirmed_row_def)
  then show ?thesis
    using assms(1,3) u limit_free [OF assms(1,4)] by (simp add: onConfirm_def split_beta reset_searches)
qed

lemma confirm_passes:
  assumes "bs_limits s = []" "c \<noteq> 0"
  shows "bs_dialogs (handle_update b (Button c c ''confirm:yes'') s) = snd (run_state (onConfirm b c ''confirm:yes'') (bs_dialogs s))"
proof -
  have route: "map_of callbackExact ''confirm:yes'' = Some onConfirm" by (simp add: callbackExact_def)
  have pass: "\<not> fst (isRateLimited now c [])" for now
    by (simp add: isRateLimited_def limit_allow_def new_limit_def rateLimitBurst_def rateLimitInterval_def go_div_def duration_defs)
  show ?thesis
    using assms pass [of "bt_time b"]
    by (cases "isRateLimited (bt_time b) c []") (simp add: rateLimited_def perform_def handleCallback_def dispatchCallbackData_def route)
qed

lemma sample_confirmed:
  "searches_of (handle_update sample_bot (Button 7 7 ''confirm:yes'') (sample_bot_state [] StateConfirm))
   = [confirmed_row sample_bot (sample_dialogs [] StateConfirm) (wizard_search 0 7 (clean_wizard sample_answers))]"
proof -
  have "wd_EditSearchID (clean_wizard sample_answers) = 0"
    "search_columns_fit (wizard_search 0 7 (clean_wizard sample_answers))"
    by (simp_all add: search_columns_fit_def int4_def wizard_search_def blank_search_def clean_wizard_def sample_answers_def empty_wizard_def)
  moreover have "db_searches (dl_db (sample_dialogs [] StateConfirm)) = []" by (simp add: sample_dialogs_def empty_db_def)
  ultimately show ?thesis
    using confirm_creates [of "sample_dialogs [] StateConfirm" 7 sample_bot] confirm_passes [of "sample_bot_state [] StateConfirm" 7 sample_bot]
    by (simp add: searches_of_def sample_bot_state_def sample_quiet sample_data in_state_def sample_row maxSearchesForUser_def sample_bot_def)
qed

theorem saved_search_is_in_range_witness:
  "in_wizard_range 2026 (confirmed_row sample_bot (sample_dialogs [] StateConfirm) (wizard_search 0 7 (clean_wizard sample_answers)))"
proof -
  have "searches_of (sample_bot_state [] StateConfirm) = []" "dialogues_ok 2026 (bs_dialogs (sample_bot_state [] StateConfirm))"
    using sample_ok by (simp_all add: searches_of_def sample_bot_state_def sample_dialogs_def empty_db_def)
  then show ?thesis
    by (intro saved_search_is_in_range [of 2026 "sample_bot_state [] StateConfirm" "[]" _ sample_bot 7])
      (simp_all add: sample_confirmed del: handle_update.simps)
qed

theorem confirm_works_once_witness:
  "searches_of (handle_update sample_bot (Button 7 7 ''confirm:yes'')
     (handle_update sample_bot (Button 7 7 ''confirm:yes'') (sample_bot_state [] StateConfirm)))
   = [confirmed_row sample_bot (sample_dialogs [] StateConfirm) (wizard_search 0 7 (clean_wizard sample_answers))]"
proof -
  have "searches_of (sample_bot_state [] StateConfirm) = []" "quiet (bs_dialogs (sample_bot_state [] StateConfirm))"
    by (simp_all add: searches_of_def sample_bot_state_def sample_dialogs_def empty_db_def quiet_def)
  then show ?thesis
    using confirm_works_once [OF _ refl, of "sample_bot_state [] StateConfirm" sample_bot 7 sample_bot] sample_confirmed by simp
qed

subsection \<open>A failing read\<close>

lemma skip_then_confirm:
  assumes "row_of s c = Some u" "u_State u = StateAskExcludeKeys" "db_faults (dl_db s) = [False, False, True]"
    and "int (length (filter (\<lambda>x. s_ChatID x = c \<and> s_Active x) (db_searches (dl_db s)))) < maxSearchesForUser b"
    and "\<not> list_ex (\<lambda>x. s_ShareToken x = bt_shareToken b) (db_searches (dl_db s))"
  shows "\<exists>x. db_searches (dl_db (snd (run_state (onConfirm b c ''confirm:yes'') (snd (run_state (onSkipExcludeKeys b c ''skip_exclude_keys'') s))))) = db_searches (dl_db s) @ [x]
    \<and> s_ChatID x = c \<and> s_Name x = ''all-cars'' \<and> s_Manufacturer x = 0 \<and> s_Model x = 0 \<and> s_YearMin x = 0 \<and> s_YearMax x = 0
    \<and> s_PriceMin x = 0 \<and> s_PriceMax x = 0 \<and> s_MaxKm x = 0 \<and> s_MaxHand x = 0 \<and> s_Keywords x = [] \<and> s_ExcludeKeys x = [] \<and> s_Active x"
proof -
  define wd where "wd = empty_wizard\<lparr>wd_UpdatedAt := bt_now b\<rparr>"
  define s' where "s' = snd (run_state (onSkipExcludeKeys b c ''skip_exclude_keys'') s)"
  have user: "map_of (db_users (dl_db s)) c = Some u" using assms(1) by (simp add: row_of_def)
  have data: "wd\<lparr>wd_ExcludeKeys := ''''\<rparr> = wd" by (simp add: wd_def empty_wizard_def)
  have db': "dl_db s' = update_user c (\<lambda>u. u\<lparr>u_State := StateConfirm, u_StateData := marshal_wizard wd\<rparr>) ((dl_db s)\<lparr>db_faults := []\<rparr>)"
    using user assms(2,3)
    by (simp add: s'_def onSkipExcludeKeys_def expectStateOrNotify_def getUserLang_def loadWizardData_def saveWizardStateOrAbort_def sayT_def
        run_store GetUser_def UpdateUserState_def db_call_eq update_user_def wd_def empty_wizard_def cong: if_cong)
  have row: "row_of s' c = Some (u\<lparr>u_State := StateConfirm, u_StateData := marshal_wizard wd\<rparr>)"
    using user by (simp add: row_of_def db' update_user_def map_of_map_pairs)
  have quiet: "quiet s'" "db_searches (dl_db s') = db_searches (dl_db s)" by (simp_all add: quiet_def db' update_user_def)
  have data': "data_of s' c = clean_wizard wd" by (simp add: data_of_def row dialogue_data_def unmarshal_marshal)
  have blank: "wd_EditSearchID (clean_wizard wd) = 0" "search_columns_fit (wizard_search 0 c (clean_wizard wd))"
    by (simp_all add: search_columns_fit_def int4_def wizard_search_def blank_search_def clean_wizard_def wd_def empty_wizard_def)
  have "db_searches (dl_db (snd (run_state (onConfirm b c ''confirm:yes'') s'))) = db_searches (dl_db s) @ [confirmed_row b s' (wizard_search 0 c (clean_wizard wd))]"
    using confirm_creates [OF quiet(1), of c b "''confirm:yes''"] assms(4,5) blank by (simp add: in_state_def row quiet data')
  then show ?thesis unfolding s'_def [symmetric]
    by (simp add: confirmed_row_def wizard_search_def wizard_name_def blank_search_def clean_wizard_def wd_def empty_wizard_def)
qed

text \<open>A press of a button of the dialogue, when the limiter knows nothing yet of the chat, and a second one at the same time.\<close>

lemma first_press:
  assumes "bs_limits s = []" "c \<noteq> 0" "map_of callbackExact data = Some h"
  shows "bs_dialogs (handle_update b (Button c c data) s) = snd (run_state (h b c data) (bs_dialogs s))"
    "bs_limits (handle_update b (Button c c data) s) = [(c, \<lparr>ul_tokens = 9, ul_lastTick = bt_time b, ul_lastSeen = bt_time b\<rparr>)]"
  using assms
  by (simp_all add: rateLimited_def isRateLimited_def limit_allow_def new_limit_def rateLimitBurst_def go_div_def perform_def handleCallback_def
      dispatchCallbackData_def)

lemma second_press:
  assumes "bs_limits s = [(c, \<lparr>ul_tokens = 9, ul_lastTick = bt_time b, ul_lastSeen = bt_time b\<rparr>)]" "c \<noteq> 0" "map_of callbackExact data = Some h"
  shows "bs_dialogs (handle_update b (Button c c data) s) = snd (run_state (h b c data) (bs_dialogs s))"
  using assms
  by (simp add: rateLimited_def isRateLimited_def limit_allow_def go_div_def perform_def handleCallback_def dispatchCallbackData_def)

text \<open>C12. One failing read of the user's row throws the answers away without a word. A user who has answered the questions, whatever the
  answers, and has room for one more search presses "skip" at the last question and then "confirm". When, in the first press, the
  read of the answers fails (the third call to the database; those before it, and all after it, succeed), the dialogue goes on with
  no answers, and the second press saves a search for all cars, of any year and any price.\<close>

theorem failed_read_forgets_answers:
  assumes "row_of (bs_dialogs s) c = Some u" "u_State u = StateAskExcludeKeys" "db_faults (dl_db (bs_dialogs s)) = [False, False, True]"
    and "int (length (filter (\<lambda>x. s_ChatID x = c \<and> s_Active x) (searches_of s))) < maxSearchesForUser b"
    and "\<not> list_ex (\<lambda>x. s_ShareToken x = bt_shareToken b) (searches_of s)" "bs_limits s = []" "c \<noteq> 0"
  shows "\<exists>x. searches_of (handle_updates [(b, Button c c ''skip_exclude_keys''), (b, Button c c ''confirm:yes'')] s) = searches_of s @ [x]
    \<and> s_ChatID x = c \<and> s_Name x = ''all-cars'' \<and> s_Manufacturer x = 0 \<and> s_Model x = 0 \<and> s_YearMin x = 0 \<and> s_YearMax x = 0
    \<and> s_PriceMin x = 0 \<and> s_PriceMax x = 0 \<and> s_MaxKm x = 0 \<and> s_MaxHand x = 0 \<and> s_Keywords x = [] \<and> s_ExcludeKeys x = [] \<and> s_Active x"
proof -
  have routes: "map_of callbackExact ''skip_exclude_keys'' = Some onSkipExcludeKeys" "map_of callbackExact ''confirm:yes'' = Some onConfirm"
    by (simp_all add: callbackExact_def)
  let ?s1 = "handle_update b (Button c c ''skip_exclude_keys'') s"
  have one: "bs_dialogs ?s1 = snd (run_state (onSkipExcludeKeys b c ''skip_exclude_keys'') (bs_dialogs s))"
    and limits: "bs_limits ?s1 = [(c, \<lparr>ul_tokens = 9, ul_lastTick = bt_time b, ul_lastSeen = bt_time b\<rparr>)]"
    by (rule first_press [OF assms(6,7) routes(1)])+
  have "bs_dialogs (handle_updates [(b, Button c c ''skip_exclude_keys''), (b, Button c c ''confirm:yes'')] s)
      = snd (run_state (onConfirm b c ''confirm:yes'') (snd (run_state (onSkipExcludeKeys b c ''skip_exclude_keys'') (bs_dialogs s))))"
    using second_press [OF limits assms(7) routes(2)] one by (simp del: handle_update.simps)
  then show ?thesis
    using skip_then_confirm [OF assms(1-3), of b] assms(4,5) by (simp add: searches_of_def del: handle_updates.simps)
qed

text \<open>A user who has asked for a Yaris of 2015 to 2020.\<close>

theorem failed_read_forgets_answers_witness:
  "\<exists>x. searches_of (handle_updates [(sample_bot, Button 7 7 ''skip_exclude_keys''), (sample_bot, Button 7 7 ''confirm:yes'')]
      (sample_bot_state [False, False, True] StateAskExcludeKeys)) = [x] \<and> s_Name x = ''all-cars'' \<and> s_YearMin x = 0"
proof -
  let ?s = "sample_bot_state [False, False, True] StateAskExcludeKeys"
  have "db_faults (dl_db (bs_dialogs ?s)) = [False, False, True]" "searches_of ?s = []" "bs_limits ?s = []"
    by (simp_all add: sample_bot_state_def sample_dialogs_def empty_db_def searches_of_def)
  moreover have "row_of (bs_dialogs ?s) 7 = Some ((new_user 7 ''a'' ''telegram'' ''7'')\<lparr>u_State := StateAskExcludeKeys, u_StateData := marshal_wizard sample_answers\<rparr>)"
    by (simp add: sample_bot_state_def sample_row)
  ultimately show ?thesis
    using failed_read_forgets_answers [of ?s 7 _ sample_bot]
    by (auto simp: maxSearchesForUser_def sample_bot_def simp del: handle_updates.simps)
qed

end
