(* ===== verification/BodyType.thy ===== *)
theory BodyType
  imports IngestValidation
begin

section \<open>Body types (internal/bodytype/bodytype.go)\<close>

text \<open>
  The source names the body of a car in Hebrew or English and numbers it; the program knows eight kinds. The regular
  expressions of \<open>word\<close> find a word between ASCII word boundaries, in any letter case; Unicode's case folding takes the
  long s for an s. Hebrew text is written as its UTF-8 bytes.
\<close>

definition bytes :: "nat list \<Rightarrow> string" where "bytes ns = map char_of ns"

definition Sedan :: string where "Sedan = ''sedan''"
definition Hatchback :: string where "Hatchback = ''hatchback''"
definition SUV :: string where "SUV = ''suv''"
definition Coupe :: string where "Coupe = ''coupe''"
definition Wagon :: string where "Wagon = ''wagon''"
definition Convertible :: string where "Convertible = ''convertible''"
definition Minivan :: string where "Minivan = ''minivan''"
definition Pickup :: string where "Pickup = ''pickup''"

definition all_types :: "string list" where
  "all_types = [Sedan, Hatchback, SUV, Coupe, Wagon, Convertible, Minivan, Pickup]"

lemmas body_types = Sedan_def Hatchback_def SUV_def Coupe_def Wagon_def Convertible_def Minivan_def Pickup_def

subsection \<open>Words in a text\<close>

text \<open>What follows the pattern, which is in lower case, at the start of a text.\<close>

fun strip_fold :: "string \<Rightarrow> string \<Rightarrow> string option" where
  "strip_fold [] s = Some s"
| "strip_fold (c # p) s =
    (case s of [] \<Rightarrow> None
     | d # r \<Rightarrow>
         if lower_char d = c then strip_fold p r
         else if c = CHR ''s'' \<and> prefix (bytes [0xC5, 0xBF]) s then strip_fold p (drop 2 s)
         else None)"

definition word_byte :: "char \<Rightarrow> bool" where
  "word_byte c \<longleftrightarrow> is_letter c \<or> is_digit c \<or> c = CHR ''_''"

definition boundary :: "string \<Rightarrow> nat \<Rightarrow> bool" where
  "boundary s i \<longleftrightarrow> (0 < i \<and> i \<le> length s \<and> word_byte (s ! (i - 1))) \<noteq> (i < length s \<and> word_byte (s ! i))"

definition has_word :: "string \<Rightarrow> string \<Rightarrow> bool" where
  "has_word p s \<longleftrightarrow> list_ex (\<lambda>i. case strip_fold p (drop i s) of None \<Rightarrow> False
     | Some r \<Rightarrow> boundary s i \<and> boundary s (length s - length r)) [0..<length s]"

subsection \<open>The kinds\<close>

datatype matcher = Substr string | Word string

fun matched :: "matcher \<Rightarrow> string \<Rightarrow> bool" where
  "matched (Substr p) s \<longleftrightarrow> contains s p"
| "matched (Word p) s \<longleftrightarrow> has_word p s"

definition matchers :: "(string \<times> matcher) list" where
  "matchers =
    [(Hatchback, Substr (bytes [0xD7, 0x94, 0xD7, 0x90, 0xD7, 0xA6, 0x27, 0xD7, 0x91, 0xD7, 0xA7])),
     (Hatchback, Substr (bytes [0xD7, 0x94, 0xD7, 0x90, 0xD7, 0xA6, 0xD7, 0xB3, 0xD7, 0x91, 0xD7, 0xA7])),
     (Hatchback, Substr (bytes [0xD7, 0x9C, 0xD7, 0x99, 0xD7, 0xA4, 0xD7, 0x98, 0xD7, 0x91, 0xD7, 0xA7])),
     (Hatchback, Substr ''hatchback''), (Hatchback, Substr ''liftback''), (Hatchback, Word ''hb''),
     (Sedan, Substr (bytes [0xD7, 0xA1, 0xD7, 0x93, 0xD7, 0x90, 0xD7, 0x9F])), (Sedan, Substr ''sedan''),
     (SUV, Substr (bytes [0xD7, 0xA4, 0xD7, 0xA0, 0xD7, 0x90, 0xD7, 0x99, 0x2D, 0xD7, 0xA9, 0xD7, 0x98, 0xD7, 0x97])),
     (SUV, Substr (bytes [0xD7, 0xA4, 0xD7, 0xA0, 0xD7, 0x90, 0xD7, 0x99, 0x20, 0xD7, 0xA9, 0xD7, 0x98, 0xD7, 0x97])),
     (SUV, Substr (bytes [0xD7, 0xA9, 0xD7, 0x98, 0xD7, 0x97, 0x20, 0xD7, 0xA7, 0xD7, 0xA9, 0xD7, 0x95, 0xD7, 0x97])),
     (SUV, Substr (bytes [0xD7, 0xA7, 0xD7, 0xA8, 0xD7, 0x95, 0xD7, 0xA1, 0xD7, 0x90, 0xD7, 0x95, 0xD7, 0x91, 0xD7, 0xA8])),
     (SUV, Substr ''crossover''), (SUV, Substr (bytes [0xD7, 0x92, 0x27, 0xD7, 0x99, 0xD7, 0xA4])),
     (SUV, Substr (bytes [0xD7, 0x92, 0xD7, 0xB3, 0xD7, 0x99, 0xD7, 0xA4])), (SUV, Word ''suv''),
     (Wagon, Substr (bytes [0xD7, 0xA1, 0xD7, 0x98, 0xD7, 0x99, 0xD7, 0x99, 0xD7, 0xA9, 0xD7, 0x9F])),
     (Wagon, Substr (bytes [0xD7, 0x98, 0xD7, 0x95, 0xD7, 0xA8, 0xD7, 0xA8])), (Wagon, Substr ''station''), (Wagon, Substr ''touring''),
     (Wagon, Substr ''wagon''), (Wagon, Word ''sw''), (Coupe, Substr (bytes [0xD7, 0xA7, 0xD7, 0x95, 0xD7, 0xA4, 0xD7, 0x94])),
     (Coupe, Substr (bytes [0xD7, 0xA7, 0xD7, 0x95, 0xD7, 0xA4, 0xD7, 0x90])), (Coupe, Substr ''coupe''),
     (Convertible, Substr (bytes [0xD7, 0xA7, 0xD7, 0x91, 0xD7, 0xA8, 0xD7, 0x99, 0xD7, 0x95, 0xD7, 0x9C, 0xD7, 0x94])),
     (Convertible, Substr (bytes [0xD7, 0xA7, 0xD7, 0x91, 0xD7, 0xA8, 0xD7, 0x99, 0xD7, 0x95, 0xD7, 0x9C, 0xD7, 0x98])),
     (Convertible, Substr ''convertible''), (Convertible, Substr ''cabrio''),
     (Minivan, Substr (bytes [0xD7, 0x9E, 0xD7, 0x99, 0xD7, 0xA0, 0xD7, 0x99, 0xD7, 0x95, 0xD7, 0x95, 0xD7, 0x9F])),
     (Minivan, Substr (bytes [0xD7, 0x9E, 0xD7, 0x99, 0xD7, 0xA0, 0xD7, 0x99, 0xD7, 0x95, 0xD7, 0x95, 0xD7, 0x90, 0xD7, 0x9F])),
     (Minivan, Substr ''minivan''), (Minivan, Word ''mpv''), (Pickup, Substr (bytes [0xD7, 0x98, 0xD7, 0xA0, 0xD7, 0x93, 0xD7, 0xA8])),
     (Pickup, Substr ''pickup'')]"

definition yad2IDToType :: "int \<Rightarrow> string" where
  "yad2IDToType i =
    (if i = 1 then Sedan else if i = 2 then Hatchback else if i = 3 then Wagon else if i = 4 then Coupe
     else if i = 6 then SUV else if i = 7 then SUV else if i = 14 then Hatchback else [])"

definition matchText :: "string \<Rightarrow> string" where
  "matchText s = (if s = [] then [] else case find (\<lambda>(t, m). matched m (to_lower s)) matchers of Some (t, m) \<Rightarrow> t | None \<Rightarrow> [])"

text \<open>The texts in their order, then the number.\<close>

definition FromYad2 :: "int \<Rightarrow> string list \<Rightarrow> string" where
  "FromYad2 i texts = (case find (\<lambda>t. matchText t \<noteq> []) texts of Some t \<Rightarrow> matchText t | None \<Rightarrow> yad2IDToType i)"

subsection \<open>Lemmas\<close>

lemma matchers_known: "list_all (\<lambda>(t, m). t \<in> set all_types) matchers"
  by (simp add: matchers_def all_types_def)

lemma matchText_known: "matchText s = [] \<or> matchText s \<in> set all_types"
  using matchers_known by (auto simp: matchText_def list_all_iff find_Some_iff split: option.split dest!: nth_mem)

text \<open>Whatever the source writes, the kind is one of the eight or none.\<close>

lemma FromYad2_known: "FromYad2 i texts = [] \<or> FromYad2 i texts \<in> set all_types"
  using matchText_known by (auto simp: FromYad2_def yad2IDToType_def all_types_def split: option.split)

lemma FromYad2_text_first: "matchText t \<noteq> [] \<Longrightarrow> FromYad2 i (t # ts) = matchText t"
  by (simp add: FromYad2_def)

lemma word_examples: "has_word ''hb'' ''a hb''" "\<not> has_word ''suv'' ''suvs''"
  by (simp_all add: has_word_def boundary_def word_byte_def lower_char_def bytes_def is_letter_def is_digit_def between_def)

lemma FromYad2_number: "(\<And>t. t \<in> set ts \<Longrightarrow> matchText t = []) \<Longrightarrow> FromYad2 i ts = yad2IDToType i"
  by (auto simp: FromYad2_def find_Some_iff split: option.split)

end
