(* ===== verification/Yad2Feed.thy ===== *)
theory Yad2Feed
  imports BodyType JsonFields FlexTime FetchBase Enricher
begin

section \<open>The pages of the source (internal/fetcher/yad2/parser.go, item_parser.go)\<close>

text \<open>
  From a page of the source to listings. The page carries its data as JSON in a script tag, which a regular expression
  finds; another interface answers with JSON alone. A \<open>json.RawMessage\<close>, which the code reads a second time, is the value
  that it holds. Logging, and the probe that is only made for it, are left out.
\<close>

subsection \<open>The script tag\<close>

definition challengeMarker :: string where "challengeMarker = ''Are you for real''"

text \<open>What the expression matches at a position: the tag up to its first \<open>>\<close>, with the attribute somewhere in it after a
  word boundary, then as little as possible up to the closing tag.\<close>

definition quoted :: "string \<Rightarrow> string option" where
  "quoted s = (case s of [] \<Rightarrow> None | q # r \<Rightarrow> if q = CHR 0x22 \<or> q = CHR 0x27 then Some r else None)"

definition id_at :: "string \<Rightarrow> bool" where
  "id_at s \<longleftrightarrow> Option.bind (Option.bind (Option.bind (strip_fold ''id='' s) quoted) (strip_fold ''__next_data__'')) quoted \<noteq> None"

fun has_id :: "char \<Rightarrow> string \<Rightarrow> bool" where
  "has_id prev [] \<longleftrightarrow> False"
| "has_id prev (c # s) \<longleftrightarrow> (\<not> word_byte prev \<and> id_at (c # s)) \<or> has_id c s"

fun until_close :: "string \<Rightarrow> string option" where
  "until_close [] = None"
| "until_close (c # s) = (if strip_fold ''</script>'' (c # s) \<noteq> None then Some [] else map_option ((#) c) (until_close s))"

definition script_at :: "string \<Rightarrow> string option" where
  "script_at s =
    (case strip_fold ''<script'' s of None \<Rightarrow> None
     | Some r \<Rightarrow>
         if has_id (CHR ''t'') (takeWhile (\<lambda>c. c \<noteq> CHR ''>'') r)
         then (case dropWhile (\<lambda>c. c \<noteq> CHR ''>'') r of [] \<Rightarrow> None | _ # body \<Rightarrow> until_close body) else None)"

fun next_data :: "string \<Rightarrow> string option" where
  "next_data [] = None"
| "next_data (c # s) = (case script_at (c # s) of Some b \<Rightarrow> Some b | None \<Rightarrow> next_data s)"

definition ExtractNextDataJSON :: "string \<Rightarrow> goerr + string" where
  "ExtractNextDataJSON html =
    (if contains html challengeMarker then Inl [ErrChallenge]
     else case next_data html of
       Some b \<Rightarrow> if b = [] then Inl [OtherError ''script tag not found''] else Inr b
     | None \<Rightarrow> Inl [OtherError ''script tag not found''])"

subsection \<open>The items of a feed\<close>

record text_field =
  tf_Text :: string
  tf_EnglishText :: string
  tf_TextEng :: string
  tf_ID :: int

record item_address =
  ad_City :: text_field
  ad_Area :: text_field

record item_meta =
  md_CoverImage :: string
  md_CoverImg :: string
  md_Description :: string

record item_dates =
  dt_CreatedAt :: string
  dt_UpdatedAt :: string

record vehicle_dates = item_dates +
  dt_YearOfProduction :: int

record feed_item =
  fi_Token :: string
  fi_Manufacturer :: text_field
  fi_Model :: text_field
  fi_SubModel :: text_field
  fi_Year :: int
  fi_Month :: int
  fi_EngineVolume :: real
  fi_EngineVolumeNew :: real
  fi_HorsePower :: int
  fi_EngineType :: text_field
  fi_GearBox :: text_field
  fi_BodyType :: text_field
  fi_Km :: int
  fi_Hand :: "json option"
  fi_Price :: int
  fi_Address :: item_address
  fi_MetaData :: item_meta
  fi_Images :: "string list"
  fi_CoverImageTop :: string
  fi_CoverImgTop :: string
  fi_Dates :: item_dates
  fi_VehicleDates :: vehicle_dates

definition zero_text :: text_field where
  "zero_text = \<lparr>tf_Text = [], tf_EnglishText = [], tf_TextEng = [], tf_ID = 0\<rparr>"

definition zero_item :: feed_item where
  "zero_item = \<lparr>fi_Token = [], fi_Manufacturer = zero_text, fi_Model = zero_text, fi_SubModel = zero_text, fi_Year = 0, fi_Month = 0,
     fi_EngineVolume = 0, fi_EngineVolumeNew = 0, fi_HorsePower = 0, fi_EngineType = zero_text, fi_GearBox = zero_text, fi_BodyType = zero_text,
     fi_Km = 0, fi_Hand = None, fi_Price = 0, fi_Address = \<lparr>ad_City = zero_text, ad_Area = zero_text\<rparr>,
     fi_MetaData = \<lparr>md_CoverImage = [], md_CoverImg = [], md_Description = []\<rparr>, fi_Images = [], fi_CoverImageTop = [], fi_CoverImgTop = [],
     fi_Dates = \<lparr>dt_CreatedAt = [], dt_UpdatedAt = []\<rparr>, fi_VehicleDates = \<lparr>dt_CreatedAt = [], dt_UpdatedAt = [], dt_YearOfProduction = 0\<rparr>\<rparr>"

definition text_fields :: "(string \<times> text_field setter) list" where
  "text_fields = [(''text'', str_field tf_Text_update), (''english_text'', str_field tf_EnglishText_update),
     (''texteng'', str_field tf_TextEng_update), (''id'', int64_field tf_ID_update)]"

abbreviation text_at :: "('w \<Rightarrow> text_field) \<Rightarrow> ((text_field \<Rightarrow> text_field) \<Rightarrow> 'w \<Rightarrow> 'w) \<Rightarrow> 'w setter" where
  "text_at \<equiv> struct_field text_fields"

definition item_fields :: "(string \<times> feed_item setter) list" where
  "item_fields =
    [(''token'', str_field fi_Token_update), (''manufacturer'', text_at fi_Manufacturer fi_Manufacturer_update),
     (''model'', text_at fi_Model fi_Model_update), (''submodel'', text_at fi_SubModel fi_SubModel_update),
     (''year_of_production'', int64_field fi_Year_update), (''month_of_production'', int64_field fi_Month_update),
     (''engine_volume'', float_field fi_EngineVolume_update), (''enginevolume'', float_field fi_EngineVolumeNew_update),
     (''horsepower'', int64_field fi_HorsePower_update), (''enginetype'', text_at fi_EngineType fi_EngineType_update),
     (''gearbox'', text_at fi_GearBox fi_GearBox_update), (''bodytype'', text_at fi_BodyType fi_BodyType_update),
     (''km'', int64_field fi_Km_update), (''hand'', raw_field fi_Hand_update), (''price'', int64_field fi_Price_update),
     (''address'', struct_field [(''city'', text_at ad_City ad_City_update), (''area'', text_at ad_Area ad_Area_update)] fi_Address fi_Address_update),
     (''metadata'', struct_field [(''coverimage'', str_field md_CoverImage_update), (''cover_image'', str_field md_CoverImg_update),
        (''description'', str_field md_Description_update)] fi_MetaData fi_MetaData_update),
     (''images'', slice_field read_str fi_Images_update), (''coverimage'', str_field fi_CoverImageTop_update),
     (''cover_image'', str_field fi_CoverImgTop_update),
     (''dates'', struct_field [(''createdat'', str_field dt_CreatedAt_update), (''updatedat'', str_field dt_UpdatedAt_update)] fi_Dates fi_Dates_update),
     (''vehicledates'', struct_field [(''createdat'', str_field dt_CreatedAt_update), (''updatedat'', str_field dt_UpdatedAt_update),
        (''yearofproduction'', int64_field dt_YearOfProduction_update)] fi_VehicleDates fi_VehicleDates_update)]"

definition textFromField :: "text_field \<Rightarrow> string" where
  "textFromField f = (if tf_EnglishText f \<noteq> [] then tf_EnglishText f else if tf_TextEng f \<noteq> [] then tf_TextEng f else tf_Text f)"

text \<open>A number, or an object with a number in it.\<close>

definition parseHand :: "json option \<Rightarrow> int" where
  "parseHand raw =
    (case raw of None \<Rightarrow> 0
     | Some v \<Rightarrow>
         (case int64_field (\<lambda>f. f) v 0 of
            Some n \<Rightarrow> n
          | None \<Rightarrow> (case members_of text_fields v zero_text of Some f \<Rightarrow> tf_ID f | None \<Rightarrow> 0)))"

definition first_nonempty :: "string list \<Rightarrow> string" where
  "first_nonempty ss = (case find (\<lambda>s. s \<noteq> []) ss of Some s \<Rightarrow> s | None \<Rightarrow> [])"

definition resolveImageURL :: "feed_item \<Rightarrow> string" where
  "resolveImageURL item = first_nonempty ([md_CoverImage (fi_MetaData item), md_CoverImg (fi_MetaData item), fi_CoverImageTop item, fi_CoverImgTop item]
     @ take 1 (fi_Images item))"

subsection \<open>Expressions on the text of the sub-model\<close>

definition re_space :: "char \<Rightarrow> bool" where
  "re_space c \<longleftrightarrow> c \<in> {CHR 0x20, CHR 0x09, CHR 0x0A, CHR 0x0C, CHR 0x0D}"

text \<open>\<open>subModelHPRe\<close>: digits and the mark of horse power in brackets. \<open>subModelGearRe\<close>: either of two texts.\<close>

definition hp_at :: "string \<Rightarrow> string option" where
  "hp_at s =
    (case s of [] \<Rightarrow> None
     | c # r \<Rightarrow>
         if c = CHR ''('' \<and> takeWhile is_digit r \<noteq> [] \<and> prefix (bytes [0xD7, 0x9B, 0xD7, 0xB4, 0xD7, 0xA1, 0x29]) (dropWhile re_space (dropWhile is_digit r))
         then Some (takeWhile is_digit r) else None)"

fun sub_model_hp :: "string \<Rightarrow> string option" where
  "sub_model_hp [] = None"
| "sub_model_hp (c # s) = (case hp_at (c # s) of Some ds \<Rightarrow> Some ds | None \<Rightarrow> sub_model_hp s)"

definition sub_model_automatic :: "string \<Rightarrow> bool" where
  "sub_model_automatic s \<longleftrightarrow> contains s (bytes [0xD7, 0x90, 0xD7, 0x95, 0xD7, 0x98, 0xD7, 0xB3]) \<or> contains s (bytes [0xD7, 0x90, 0xD7, 0x95, 0xD7, 0x98, 0x27])"

definition automatic :: string where
  "automatic = bytes [0xD7, 0x90, 0xD7, 0x95, 0xD7, 0x98, 0xD7, 0x95, 0xD7, 0x9E, 0xD7, 0x98]"

definition atoi_digits :: "string \<Rightarrow> int option" where
  "atoi_digits ds = (if decimal_value ds < 2 ^ 63 then Some (decimal_value ds) else None)"

definition sub_model_power :: "string \<Rightarrow> int" where
  "sub_model_power s = (case Option.bind (sub_model_hp s) atoi_digits of Some n \<Rightarrow> n | None \<Rightarrow> 0)"

subsection \<open>Listings\<close>

definition item_listing :: "time_parser \<Rightarrow> bool option \<Rightarrow> feed_item \<Rightarrow> raw_listing" where
  "item_listing tp commercial item =
    (let sub = textFromField (fi_SubModel item);
         created = first_nonempty [dt_CreatedAt (fi_Dates item), dt_CreatedAt (fi_VehicleDates item)];
         updated = first_nonempty [dt_UpdatedAt (fi_Dates item), dt_UpdatedAt (fi_VehicleDates item)]
     in \<lparr>rl_Token = fi_Token item, rl_Manufacturer = textFromField (fi_Manufacturer item), rl_ManufacturerID = tf_ID (fi_Manufacturer item),
        rl_ManufacturerNameHe = tf_Text (fi_Manufacturer item), rl_Model = textFromField (fi_Model item), rl_ModelID = tf_ID (fi_Model item),
        rl_ModelNameHe = tf_Text (fi_Model item), rl_SubModel = sub, rl_SubModelID = tf_ID (fi_SubModel item),
        rl_BodyType = FromYad2 (tf_ID (fi_BodyType item)) [textFromField (fi_BodyType item), tf_Text (fi_BodyType item)],
        rl_Year = (if fi_Year item = 0 then dt_YearOfProduction (fi_VehicleDates item) else fi_Year item), rl_Month = fi_Month item,
        rl_EngineVolume = (if fi_EngineVolume item = 0 then fi_EngineVolumeNew item else fi_EngineVolume item),
        rl_HorsePower = (if fi_HorsePower item = 0 then sub_model_power sub else fi_HorsePower item),
        rl_EngineType = textFromField (fi_EngineType item),
        rl_GearBox = (if textFromField (fi_GearBox item) = [] \<and> sub_model_automatic sub then automatic else textFromField (fi_GearBox item)),
        rl_Km = fi_Km item, rl_Hand = parseHand (fi_Hand item), rl_Price = fi_Price item,
        rl_City = textFromField (ad_City (fi_Address item)), rl_Area = textFromField (ad_Area (fi_Address item)),
        rl_Description = md_Description (fi_MetaData item), rl_ImageURL = resolveImageURL item,
        rl_PageLink = ''https://www.yad2.co.il/vehicles/item/'' @ fi_Token item, rl_Commercial = commercial, rl_OriginalOwnership = [],
        rl_CreatedAt = ParseFlexTime tp created, rl_UpdatedAt = ParseFlexTime tp updated\<rparr>)"

text \<open>None is an error: a value of the wrong type, or no token.\<close>

definition itemToListing :: "time_parser \<Rightarrow> json \<times> bool option \<Rightarrow> raw_listing option" where
  "itemToListing tp tagged =
    (case members_of item_fields (fst tagged) zero_item of
       None \<Rightarrow> None
     | Some item \<Rightarrow> if fi_Token item = [] then None else Some (item_listing tp (snd tagged) item))"

fun build_loop :: "time_parser \<Rightarrow> string list \<Rightarrow> (json \<times> bool option) list \<Rightarrow> raw_listing list" where
  "build_loop tp seen [] = []"
| "build_loop tp seen (it # items) =
    (case itemToListing tp it of
       None \<Rightarrow> build_loop tp seen items
     | Some l \<Rightarrow> if rl_Token l \<in> set seen then build_loop tp seen items else l # build_loop tp (rl_Token l # seen) items)"

definition buildListings :: "time_parser \<Rightarrow> (json \<times> bool option) list \<Rightarrow> raw_listing list" where
  "buildListings tp = build_loop tp []"

definition listingKeys :: "string list" where
  "listingKeys = [''private'', ''commercial'', ''platinum'', ''solo'', ''boost'']"

definition listingKeyCommercial :: "string \<Rightarrow> bool option" where
  "listingKeyCommercial key =
    (if key = ''private'' then Some False
     else if key \<in> {''commercial'', ''platinum'', ''solo'', ''boost''} then Some True else None)"

text \<open>The envelope of a page: the data of its queries.\<close>

definition read_query :: "json \<Rightarrow> json option option" where
  "read_query v = members_of [(''state'', members_of [(''data'', raw_field (\<lambda>f. f))])] v None"

definition queries_field :: "json option list setter" where
  "queries_field = members_of [(''props'', members_of [(''pageprops'', members_of [(''dehydratedstate'',
     members_of [(''queries'', slice_field read_query (\<lambda>f. f))])])])]"

definition legacy_items :: "json option setter" where
  "legacy_items = members_of [(''data'', members_of [(''feed'', members_of [(''feed_items'', raw_field (\<lambda>f. f))])])]"

text \<open>The items of the buckets that are lists, in the order of the keys.\<close>

definition bucket_lists :: "(string \<times> json) list \<Rightarrow> (json \<times> bool option) list list" where
  "bucket_lists bucket = List.map_filter (\<lambda>key. case map_of bucket key of
     Some (JArr vs) \<Rightarrow> Some (map (\<lambda>v. (v, listingKeyCommercial key)) vs) | _ \<Rightarrow> None) listingKeys"

fun extractItems :: "json option list \<Rightarrow> (json \<times> bool option) list option" where
  "extractItems [] = None"
| "extractItems (q # qs) =
    (case Option.bind q raw_map of
       None \<Rightarrow> extractItems qs
     | Some bucket \<Rightarrow>
         if bucket_lists bucket \<noteq> [] then Some (concat (bucket_lists bucket))
         else case legacy_items (the q) None of
           Some (Some JNull) \<Rightarrow> Some []
         | Some (Some (JArr vs)) \<Rightarrow> Some (map (\<lambda>v. (v, None)) vs)
         | _ \<Rightarrow> extractItems qs)"

definition parseNextData :: "time_parser \<Rightarrow> string \<Rightarrow> goerr + raw_listing list" where
  "parseNextData tp data =
    (case Option.bind (json_read data) (\<lambda>v. queries_field v []) of
       None \<Rightarrow> Inl [OtherError ''unmarshal'']
     | Some qs \<Rightarrow>
         (case extractItems qs of
            None \<Rightarrow> Inl [OtherError ''no feed items found'']
          | Some items \<Rightarrow> Inr (buildListings tp items)))"

definition ParseListingsPage :: "time_parser \<Rightarrow> string \<Rightarrow> goerr + raw_listing list" where
  "ParseListingsPage tp html =
    (case ExtractNextDataJSON html of Inl e \<Rightarrow> Inl e | Inr data \<Rightarrow> parseNextData tp data)"

subsection \<open>The JSON interface\<close>

definition looksLikeBotProtection :: "string \<Rightarrow> bool" where
  "looksLikeBotProtection body \<longleftrightarrow> list_ex (contains (to_lower body))
     [''perfdrive'', ''shieldsquare'', ''validate.perfdrive.com'', ''are you for real'', ''cf-browser-verification'', ''captcha'']"

text \<open>The pointer tells an empty feed from none.\<close>

definition feed_pointer :: "json list option setter" where
  "feed_pointer v w = (case v of JNull \<Rightarrow> Some None | JArr vs \<Rightarrow> Some (Some vs) | _ \<Rightarrow> None)"

definition gw_items :: "json list option setter" where
  "gw_items = members_of [(''data'', members_of [(''feed'', members_of [(''feed_items'', feed_pointer)])])]"

definition ParseGwFeed :: "time_parser \<Rightarrow> string \<Rightarrow> goerr + raw_listing list" where
  "ParseGwFeed tp body =
    (if looksLikeBotProtection body then Inl [ErrChallenge]
     else case Option.bind (json_read body) (\<lambda>v. gw_items v None) of
       None \<Rightarrow> Inl [OtherError ''unmarshal gw feed'']
     | Some None \<Rightarrow> Inl [OtherError ''gw feed missing data.feed.feed_items'']
     | Some (Some vs) \<Rightarrow> Inr (buildListings tp (map (\<lambda>v. (v, None)) vs)))"


subsection \<open>The page of an item (item_parser.go)\<close>

record page_details = item_details +
  id_OriginalOwnership :: string
  id_CurrentOwnership :: string

record ownership_field =
  ow_Text :: string
  ow_TextEng :: string
  ow_ID :: int

record place =
  pl_Text :: string
  pl_TextEng :: string

record page_address =
  pa_City :: place
  pa_Area :: place

record item_page =
  ip_Km :: int
  ip_Kilometer :: int
  ip_CoverImage :: string
  ip_CoverImg :: string
  ip_Images :: "string list"
  ip_Address :: page_address
  ip_BodyType :: "ownership_field option"
  ip_CurrentOwnership :: "ownership_field option"
  ip_OriginalOwnership :: "ownership_field option"
  ip_Ownership :: "ownership_field option"
  ip_PreviousOwnership :: "ownership_field option"

definition zero_place :: place where "zero_place = \<lparr>pl_Text = [], pl_TextEng = []\<rparr>"

definition zero_page :: item_page where
  "zero_page = \<lparr>ip_Km = 0, ip_Kilometer = 0, ip_CoverImage = [], ip_CoverImg = [], ip_Images = [],
     ip_Address = \<lparr>pa_City = zero_place, pa_Area = zero_place\<rparr>, ip_BodyType = None, ip_CurrentOwnership = None, ip_OriginalOwnership = None,
     ip_Ownership = None, ip_PreviousOwnership = None\<rparr>"

definition place_fields :: "(string \<times> place setter) list" where
  "place_fields = [(''text'', str_field pl_Text_update), (''texteng'', str_field pl_TextEng_update)]"

abbreviation owner_at :: "(item_page \<Rightarrow> ownership_field option) \<Rightarrow> ((ownership_field option \<Rightarrow> ownership_field option) \<Rightarrow> item_page \<Rightarrow> item_page) \<Rightarrow> item_page setter" where
  "owner_at \<equiv> pointer_field [(''text'', str_field ow_Text_update), (''texteng'', str_field ow_TextEng_update), (''id'', int64_field ow_ID_update)]
     \<lparr>ow_Text = [], ow_TextEng = [], ow_ID = 0\<rparr>"

definition page_fields :: "(string \<times> item_page setter) list" where
  "page_fields =
    [(''km'', int64_field ip_Km_update), (''kilometer'', int64_field ip_Kilometer_update), (''coverimage'', str_field ip_CoverImage_update),
     (''cover_image'', str_field ip_CoverImg_update), (''images'', slice_field read_str ip_Images_update),
     (''address'', struct_field [(''city'', struct_field place_fields pa_City pa_City_update), (''area'', struct_field place_fields pa_Area pa_Area_update)]
        ip_Address ip_Address_update),
     (''bodytype'', owner_at ip_BodyType ip_BodyType_update), (''currentownership'', owner_at ip_CurrentOwnership ip_CurrentOwnership_update),
     (''originalownership'', owner_at ip_OriginalOwnership ip_OriginalOwnership_update), (''ownership'', owner_at ip_Ownership ip_Ownership_update),
     (''previousownership'', owner_at ip_PreviousOwnership ip_PreviousOwnership_update)]"

definition normalizeOwnership :: "string \<Rightarrow> string" where
  "normalizeOwnership text =
    (let t = trim_space text; lower = to_lower t in
     if t = [] then []
     else if contains t (bytes [0xD7, 0xA4, 0xD7, 0xA8, 0xD7, 0x98, 0xD7, 0x99]) then ''private''
     else if contains t (bytes [0xD7, 0x9C, 0xD7, 0x99, 0xD7, 0xA1, 0xD7, 0x99, 0xD7, 0xA0, 0xD7, 0x92]) \<or> contains lower ''leasing'' then ''lease''
     else if contains t (bytes [0xD7, 0x94, 0xD7, 0xA9, 0xD7, 0x9B, 0xD7, 0xA8, 0xD7, 0x94]) \<or> contains lower ''rental'' then ''rental''
     else if lower = ''private'' then ''private''
     else if lower = ''lease'' \<or> lower = ''leasing'' then ''lease''
     else if lower = ''rental'' then ''rental''
     else [])"

definition firstNonEmpty :: "string list \<Rightarrow> string" where
  "firstNonEmpty ss = (case find (\<lambda>s. trim_space s \<noteq> []) ss of Some s \<Rightarrow> s | None \<Rightarrow> [])"

definition ownership_of :: "ownership_field \<Rightarrow> string" where
  "ownership_of f =
    (let v = normalizeOwnership (firstNonEmpty [ow_Text f, ow_TextEng f])
     in if v \<noteq> [] then v else normalizeOwnership (firstNonEmpty [ow_TextEng f, ow_Text f]))"

definition resolveItemImageURL :: "item_page \<Rightarrow> string" where
  "resolveItemImageURL d = first_nonempty ([ip_CoverImage d, ip_CoverImg d] @ take 1 (ip_Images d))"

definition effectiveKm :: "item_page \<Rightarrow> int" where
  "effectiveKm d = (if ip_Km d > 0 then ip_Km d else ip_Kilometer d)"

definition some_detail :: "page_details \<Rightarrow> bool" where
  "some_detail r \<longleftrightarrow> id_Km r > 0 \<or> id_ImageURL r \<noteq> [] \<or> id_City r \<noteq> [] \<or> id_Area r \<noteq> [] \<or> id_OriginalOwnership r \<noteq> []
     \<or> id_CurrentOwnership r \<noteq> [] \<or> id_BodyType r \<noteq> []"

text \<open>None when the page holds no detail.\<close>

definition detailsFromPageData :: "item_page \<Rightarrow> page_details option" where
  "detailsFromPageData d =
    (let r = \<lparr>id_Km = effectiveKm d, id_ImageURL = resolveItemImageURL d,
           id_City = firstNonEmpty [pl_TextEng (pa_City (ip_Address d)), pl_Text (pa_City (ip_Address d))],
           id_Area = firstNonEmpty [pl_TextEng (pa_Area (ip_Address d)), pl_Text (pa_Area (ip_Address d))],
           id_BodyType = (case ip_BodyType d of None \<Rightarrow> [] | Some f \<Rightarrow> FromYad2 (ow_ID f) [ow_TextEng f, ow_Text f]),
           id_OriginalOwnership = first_nonempty (map ownership_of (List.map_filter id [ip_OriginalOwnership d, ip_PreviousOwnership d, ip_Ownership d])),
           id_CurrentOwnership = (case ip_CurrentOwnership d of None \<Rightarrow> [] | Some f \<Rightarrow> ownership_of f)\<rparr>
     in if some_detail r then Some r else None)"

definition details_in :: "json \<Rightarrow> page_details option" where
  "details_in v = Option.bind (members_of page_fields v zero_page) detailsFromPageData"

definition item_envelope :: "item_page option setter" where
  "item_envelope = members_of [(''props'', members_of [(''pageprops'', members_of [(''itemdata'', pointer_field page_fields zero_page (\<lambda>w. w) (\<lambda>f. f))])])]"

fun first_details :: "json list \<Rightarrow> page_details option" where
  "first_details [] = None"
| "first_details (v # vs) = (case details_in v of Some r \<Rightarrow> Some r | None \<Rightarrow> first_details vs)"

text \<open>The queries: the data itself, or one of its members, which Go visits in an order of its own.\<close>

fun query_details :: "((string \<times> json) list \<Rightarrow> json list) \<Rightarrow> json option list \<Rightarrow> page_details option" where
  "query_details visit [] = None"
| "query_details visit (q # qs) =
    (case q of None \<Rightarrow> query_details visit qs
     | Some v \<Rightarrow>
         (case details_in v of Some r \<Rightarrow> Some r
          | None \<Rightarrow>
              (case Option.bind (raw_map v) (\<lambda>wrapper. first_details (visit wrapper)) of
                 Some r \<Rightarrow> Some r | None \<Rightarrow> query_details visit qs)))"

definition parseItemNextData :: "((string \<times> json) list \<Rightarrow> json list) \<Rightarrow> string \<Rightarrow> goerr + page_details" where
  "parseItemNextData visit data =
    (case json_read data of
       None \<Rightarrow> Inl [OtherError ''unmarshal item'']
     | Some v \<Rightarrow>
         (case item_envelope v None of
            None \<Rightarrow> Inl [OtherError ''unmarshal item'']
          | Some itemData \<Rightarrow>
              (case Option.bind itemData detailsFromPageData of
                 Some r \<Rightarrow> Inr r
               | None \<Rightarrow>
                   (case Option.bind (queries_field v []) (query_details visit) of
                      Some r \<Rightarrow> Inr r | None \<Rightarrow> Inl [OtherError ''no enrichment data found'']))))"

definition ParseItemPage :: "((string \<times> json) list \<Rightarrow> json list) \<Rightarrow> string \<Rightarrow> goerr + page_details" where
  "ParseItemPage visit html = (case ExtractNextDataJSON html of Inl e \<Rightarrow> Inl e | Inr data \<Rightarrow> parseItemNextData visit data)"


subsection \<open>Lemmas: what a page yields\<close>

lemma item_token: "itemToListing tp it = Some l \<Longrightarrow> rl_Token l \<noteq> [] \<and> rl_PageLink l = ''https://www.yad2.co.il/vehicles/item/'' @ rl_Token l \<and> rl_Commercial l = snd it"
  by (auto simp: itemToListing_def item_listing_def Let_def split: option.splits if_splits)

lemma build_tokens: "distinct (map rl_Token (build_loop tp seen items)) \<and> rl_Token ` set (build_loop tp seen items) \<inter> set seen = {}"
  by (induction tp seen items rule: build_loop.induct) (auto split: option.splits)

lemma build_sound: "l \<in> set (build_loop tp seen items) \<Longrightarrow> \<exists>it \<in> set items. itemToListing tp it = Some l"
  by (induction tp seen items rule: build_loop.induct) (auto split: option.splits if_splits)

lemma build_complete:
  "it \<in> set items \<Longrightarrow> itemToListing tp it = Some l \<Longrightarrow> rl_Token l \<in> set seen \<union> rl_Token ` set (build_loop tp seen items)"
  by (induction tp seen items rule: build_loop.induct) (auto split: option.splits)

text \<open>The listings of a feed: no token twice, none empty, every item that can be read has one, with its token and link.\<close>

definition feed_ok :: "raw_listing list \<Rightarrow> bool" where
  "feed_ok ls \<longleftrightarrow> distinct (map rl_Token ls) \<and> list_all (\<lambda>l. rl_Token l \<noteq> [] \<and> rl_PageLink l = ''https://www.yad2.co.il/vehicles/item/'' @ rl_Token l) ls"

lemma buildListings_ok: "feed_ok (buildListings tp items)"
  using build_tokens [of tp "[]" items] item_token by (fastforce simp: feed_ok_def buildListings_def list_all_iff dest: build_sound)

lemma buildListings_complete: "it \<in> set items \<Longrightarrow> itemToListing tp it = Some l \<Longrightarrow> rl_Token l \<in> rl_Token ` set (buildListings tp items)"
  using build_complete [of it items tp l "[]"] by (simp add: buildListings_def)

lemma ParseListingsPage_ok: "ParseListingsPage tp html = Inr ls \<Longrightarrow> feed_ok ls"
  using buildListings_ok by (auto simp: ParseListingsPage_def parseNextData_def split: sum.splits option.splits)

lemma ParseGwFeed_ok: "ParseGwFeed tp body = Inr ls \<Longrightarrow> feed_ok ls"
  using buildListings_ok by (auto simp: ParseGwFeed_def split: option.splits if_splits)

subsection \<open>Lemmas: the script tag\<close>

lemma strip_fold_suffix: "strip_fold p s = Some r \<Longrightarrow> suffix r s"
proof (induction p s rule: strip_fold.induct)
  case (2 c p s)
  show ?case
  proof (cases s)
    case (Cons d t)
    then consider "lower_char d = c" "strip_fold p t = Some r" | "\<not> lower_char d = c" "strip_fold p (drop 2 s) = Some r"
      using 2(3) by (auto split: if_splits)
    then show ?thesis
    proof cases
      case 1
      then show ?thesis using 2(1) Cons by (auto intro: suffix_ConsI)
    next
      case 2
      then have "suffix r (drop 2 s)" using "2.IH"(2) [of d t] "2.prems" Cons by (auto split: if_splits)
      then show ?thesis by (rule suffix_order.trans) (rule suffix_drop)
    qed
  qed (use 2(3) in simp)
qed simp

lemma strip_fold_lower: "CHR ''s'' \<notin> set p \<Longrightarrow> strip_fold p s = Some r \<Longrightarrow> \<exists>t. s = t @ r \<and> to_lower t = p"
proof (induction p s rule: strip_fold.induct)
  case (2 c p s)
  then obtain d t where s: "s = d # t" "lower_char d = c" "strip_fold p t = Some r"
    by (auto split: list.splits if_splits)
  then obtain u where "t = u @ r" "to_lower u = p" using 2 by auto
  then show ?case using s by (intro exI [of _ "d # u"]) (simp add: to_lower_def)
qed (simp add: to_lower_def)

lemma has_id_marker: "has_id prev s \<Longrightarrow> sublist ''__next_data__'' (to_lower s)"
proof (induction prev s rule: has_id.induct)
  case (2 prev c s)
  show ?case
  proof (cases "id_at (c # s)")
    case True
    then obtain r q where r: "strip_fold ''id='' (c # s) = Some r" "quoted r = Some q" "strip_fold ''__next_data__'' q \<noteq> None"
      by (auto simp: id_at_def bind_eq_Some_conv)
    obtain w where w: "strip_fold ''__next_data__'' q = Some w" using r(3) by blast
    obtain t where t: "q = t @ w" "to_lower t = ''__next_data__''" using strip_fold_lower [OF _ w] by auto
    have "suffix r (c # s)" "suffix q r" using r strip_fold_suffix by (auto simp: quoted_def suffix_ConsI split: list.splits if_splits)
    then obtain pre where "c # s = pre @ q" by (meson suffix_def suffix_order.trans)
    then have "to_lower (c # s) = to_lower pre @ to_lower t @ to_lower w" using t(1) by (simp only: to_lower_append)
    then show ?thesis using t(2) by (simp only: sublist_appendI)
  next
    case False
    then have "sublist ''__next_data__'' (to_lower s)" using 2 by auto
    then show ?thesis by (simp add: to_lower_def sublist_Cons_right)
  qed
qed simp


lemma long_s: "bytes [0xC5, 0xBF] = [CHR 0xC5, CHR 0xBF]"
  by code_simp

lemma lower_char_less: "lower_char c = CHR ''<'' \<longleftrightarrow> c = CHR ''<''"
proof
  assume "lower_char c = CHR ''<''"
  then have "(of_char (lower_char c) :: nat) = 60" by simp
  then have "(of_char c :: nat) = of_char (CHR ''<'')" by (simp add: lower_char_code Let_def split: if_splits)
  then show "c = CHR ''<''" by (simp only: of_char_eq_iff)
qed (simp add: lower_char_def)

lemma strip_fold_before:
  "CHR ''<'' \<notin> set p \<Longrightarrow> strip_fold p (u @ CHR ''<'' # v) = Some r \<Longrightarrow> \<exists>w. r = w @ CHR ''<'' # v \<and> suffix w u"
proof (induction p "u @ CHR ''<'' # v" arbitrary: u rule: strip_fold.induct)
  case (2 c p)
  show ?case
  proof (cases u)
    case Nil
    then show ?thesis using 2(3,4) by (auto simp: lower_char_def long_s split: if_splits)
  next
    case (Cons d t)
    show ?thesis
    proof (cases "lower_char d = c")
      case True
      then have "\<exists>w. r = w @ CHR ''<'' # v \<and> suffix w t" using 2(1) True 2(3,4) Cons by auto
      then show ?thesis using Cons by (auto intro: suffix_ConsI)
    next
      case False
      then have long: "c = CHR ''s''" "prefix (bytes [0xC5, 0xBF]) (d # t @ CHR ''<'' # v)"
        and r: "strip_fold p (drop 2 (d # t @ CHR ''<'' # v)) = Some r"
        using 2(4) Cons by (auto split: if_splits)
      obtain e t' where t: "t = e # t'" using long(2) by (cases t) (auto simp: long_s)
      have "\<exists>w. r = w @ CHR ''<'' # v \<and> suffix w t'" using 2(2) False long r 2(3) Cons t by auto
      then show ?thesis using Cons t by (auto intro: suffix_ConsI)
    qed
  qed
qed auto

lemma script_at_before:
  assumes "\<not> sublist ''__next_data__'' (to_lower (c # p))" "CHR ''>'' \<notin> set attrs" "until_close body = Some b"
  shows "script_at ((c # p) @ ''<script'' @ attrs @ CHR ''>'' # body) \<in> {None, Some b}"
proof (cases "strip_fold ''<script'' ((c # p) @ ''<script'' @ attrs @ CHR ''>'' # body)")
  case None
  then show ?thesis by (simp add: script_at_def)
next
  case (Some r)
  let ?tail = "''script'' @ attrs @ CHR ''>'' # body"
  have "strip_fold ''script'' (p @ CHR ''<'' # ?tail) = Some r" using Some by (simp split: if_splits)
  then obtain w where r: "r = w @ CHR ''<'' # ?tail" "suffix w p" using strip_fold_before [of "''script''" p ?tail r] by auto
  show ?thesis
  proof (cases "CHR ''>'' \<in> set w")
    case True
    then have tag: "takeWhile (\<lambda>c. c \<noteq> CHR ''>'') r = takeWhile (\<lambda>c. c \<noteq> CHR ''>'') w" by (simp add: r takeWhile_append1 [OF True])
    have "sublist (takeWhile (\<lambda>c. c \<noteq> CHR ''>'') w) (c # p)"
      using r(2) takeWhile_is_prefix by (meson prefix_imp_sublist sublist_Cons_right sublist_order.order.trans suffix_imp_sublist)
    then obtain ps ss where "c # p = ps @ takeWhile (\<lambda>c. c \<noteq> CHR ''>'') w @ ss" unfolding sublist_def by blast
    then have "sublist (to_lower (takeWhile (\<lambda>c. c \<noteq> CHR ''>'') w)) (to_lower (c # p))" by (simp only: to_lower_append sublist_appendI)
    then have "\<not> has_id (CHR ''t'') (takeWhile (\<lambda>c. c \<noteq> CHR ''>'') w)" using assms(1) has_id_marker sublist_order.order.trans by blast
    then show ?thesis using Some tag by (simp add: script_at_def)
  next
    case False
    then have "\<And>c. c \<in> set w \<Longrightarrow> c \<noteq> CHR ''>''" by auto
    then have rest: "dropWhile (\<lambda>c. c \<noteq> CHR ''>'') r = CHR ''>'' # body"
      using assms(2) by (auto simp: r dropWhile_append)
    show ?thesis using Some rest assms(3) by (simp add: script_at_def)
  qed
qed

lemma next_data_behind:
  assumes "\<not> sublist ''__next_data__'' (to_lower pre)" "CHR ''>'' \<notin> set attrs" "has_id (CHR ''t'') attrs" "until_close body = Some b"
  shows "next_data (pre @ ''<script'' @ attrs @ CHR ''>'' # body) = Some b"
  using assms(1)
proof (induction pre)
  case Nil
  have span: "takeWhile (\<lambda>c. c \<noteq> CHR ''>'') (attrs @ CHR ''>'' # body) = attrs" "dropWhile (\<lambda>c. c \<noteq> CHR ''>'') (attrs @ CHR ''>'' # body) = CHR ''>'' # body"
    using assms(2) by (auto simp: takeWhile_append dropWhile_append)
  have "script_at (''<script'' @ attrs @ CHR ''>'' # body) = Some b"
    using assms(3,4) span by (simp add: script_at_def lower_char_def)
  then show ?case by simp
next
  case (Cons c pre)
  then have "next_data (pre @ ''<script'' @ attrs @ CHR ''>'' # body) = Some b" by (simp add: to_lower_def sublist_Cons_right)
  then show ?case using script_at_before [OF Cons.prems assms(2,4)] by auto
qed

lemma until_close_here: "CHR ''<'' \<notin> set b \<Longrightarrow> until_close (b @ ''</script>'' @ post) = Some b"
proof (induction b)
  case Nil
  have "strip_fold ''</script>'' (''</script>'' @ post) = Some post" by (simp add: lower_char_def)
  then show ?case by (simp del: strip_fold.simps)
next
  case (Cons c b)
  have "lower_char c \<noteq> CHR ''<''" using Cons.prems by (auto simp: lower_char_less)
  then have "strip_fold ''</script>'' (c # b @ ''</script>'' @ post) = None" by simp
  then show ?case using Cons by (simp del: strip_fold.simps)
qed

end
