(* ===== verification/Yad2Page.thy ===== *)
theory Yad2Page
  imports Yad2Feed
begin

section \<open>Reading back a page of the source\<close>

text \<open>
  The pages that the source makes, and the proof that the parser takes from them what was put in, whatever texts the users
  of the source have written.
\<close>

text \<open>What \<open>json.Marshal\<close> writes can stand in a script: it has no \<open><\<close>.\<close>

lemma hex_digit_less: "n < 16 \<Longrightarrow> hex_digit n \<noteq> CHR ''<''"
proof
  assume "n < 16" "hex_digit n = CHR ''<''"
  then have "(of_char (hex_digit n) :: nat) = 60" by simp
  then show False using \<open>n < 16\<close> by (simp add: hex_digit_def split: if_splits)
qed

lemma unicode_escape_less: "CHR ''<'' \<notin> set (unicode_escape n)"
  using hex_digit_less by (auto simp: unicode_escape_def dest: sym)

lemma escape_byte_less: "CHR ''<'' \<notin> set (escape_byte c)"
  using unicode_escape_less by (auto simp: escape_byte_def short_escapes_def split: option.splits)

lemma escape_rune_less: "CHR ''<'' \<notin> set (escape_rune r)"
proof (cases "utf8_rune r \<and> length r \<noteq> 1")
  case True
  then have "\<forall>b \<in> set r. byte_in 0x80 0xFF b" using utf8_rune_bytes [of r] by auto
  then have "CHR ''<'' \<notin> set r" by (auto simp: byte_in_def)
  then show ?thesis using True unicode_escape_less by (simp add: escape_rune_def)
qed (use escape_byte_less unicode_escape_less in \<open>auto simp: escape_rune_def\<close>)

lemma json_string_less: "CHR ''<'' \<notin> set (json_string s)"
  using escape_rune_less by (auto simp: json_string_def)

lemma join_less: "c \<notin> set sep \<Longrightarrow> (\<And>s. s \<in> set ss \<Longrightarrow> c \<notin> set s) \<Longrightarrow> c \<notin> set (join_with sep ss)"
  by (induction sep ss rule: join_with.induct) auto

lemma json_text_less: "plain_json j \<Longrightarrow> CHR ''<'' \<notin> set (json_text j)"
proof (induction j)
  case (JNum l)
  then show ?case by (auto simp: list_all_iff num_char_def is_digit_def between_def)
next
  case (JArr vs)
  have "CHR ''<'' \<notin> set (join_with '','' (map json_text vs))" by (rule join_less) (use JArr in \<open>auto simp: list_all_iff\<close>)
  then show ?case by simp
next
  case (JObj ms)
  have "CHR ''<'' \<notin> set (join_with '','' (map (\<lambda>(k, v). json_string k @ CHR '':'' # json_text v) ms))"
    by (rule join_less) (use JObj json_string_less in \<open>fastforce simp: list_all_iff\<close>)+
  then show ?case by simp
qed (simp_all add: json_string_less)


subsection \<open>A page\<close>

definition script_attrs :: string where
  "script_attrs = '' id='' @ [CHR 0x22] @ ''__NEXT_DATA__'' @ [CHR 0x22] @ '' type='' @ [CHR 0x22] @ ''application/json'' @ [CHR 0x22]"

definition page_with :: "string \<Rightarrow> string \<Rightarrow> string \<Rightarrow> string" where
  "page_with pre text post = pre @ ''<script'' @ script_attrs @ CHR ''>'' # text @ ''</script>'' @ post"

text \<open>The data of a page: its buckets of items, by their names.\<close>

definition feed_page :: "(string \<times> json list) list \<Rightarrow> json" where
  "feed_page buckets = JObj [(''props'', JObj [(''pageProps'', JObj [(''dehydratedState'', JObj [(''queries'',
     JArr [JObj [(''state'', JObj [(''data'', JObj (map (\<lambda>(key, items). (key, JArr items)) buckets))])]])])])])]"

lemma has_script_id: "has_id (CHR ''t'') script_attrs"
  by code_simp

lemma lower_names:
  "to_lower ''props'' = ''props''" "to_lower ''pageProps'' = ''pageprops''" "to_lower ''dehydratedState'' = ''dehydratedstate''"
  "to_lower ''queries'' = ''queries''" "to_lower ''state'' = ''state''" "to_lower ''data'' = ''data''" "to_lower ''feed'' = ''feed''"
  "to_lower ''feed_items'' = ''feed_items''"
  by code_simp+

lemma page_data:
  assumes "\<not> contains (to_lower pre) ''__next_data__''" "\<not> contains (page_with pre text post) challengeMarker" "CHR ''<'' \<notin> set text" "text \<noteq> []"
  shows "ExtractNextDataJSON (page_with pre text post) = Inr text"
proof -
  have "CHR ''>'' \<notin> set script_attrs" by (simp add: script_attrs_def)
  from next_data_behind [OF assms(1) [unfolded contains_iff_sublist] this has_script_id until_close_here [OF assms(3)]]
  show ?thesis using assms(2,4) by (simp add: ExtractNextDataJSON_def page_with_def)
qed

lemma page_names:
  "valid_string ''props'' = ''props''" "valid_string ''pageProps'' = ''pageProps''" "valid_string ''dehydratedState'' = ''dehydratedState''"
  "valid_string ''queries'' = ''queries''" "valid_string ''state'' = ''state''" "valid_string ''data'' = ''data''"
  "valid_string ''feed'' = ''feed''" "valid_string ''feed_items'' = ''feed_items''"
  by (rule ascii_valid; simp add: byte_in_def)+

lemma key_name: "key \<in> set listingKeys \<Longrightarrow> valid_string key = key"
proof -
  assume "key \<in> set listingKeys"
  then have "list_all (byte_in 0 0x7F) key" by (auto simp: listingKeys_def byte_in_def)
  then show ?thesis by (rule ascii_valid)
qed

lemma clean_feed_page:
  "fst ` set buckets \<subseteq> set listingKeys \<Longrightarrow> clean_json (feed_page buckets) = feed_page (map (\<lambda>(key, items). (key, map clean_json items)) buckets)"
  using key_name by (fastforce simp: feed_page_def page_names)

lemma page_queries:
  "queries_field (feed_page buckets) [] = Some [Some (JObj (map (\<lambda>(key, items). (key, JArr items)) buckets))]"
  by (simp add: queries_field_def feed_page_def members_of_def slice_field_def read_query_def raw_field_def lower_names)

text \<open>A map with distinct names.\<close>

lemma raw_map_distinct:
  assumes "distinct (map fst ms)"
  shows "\<exists>b. raw_map (JObj ms) = Some b \<and> map_of b = map_of ms"
proof -
  have "map_of (AList.updates (map fst ms) (map snd ms) []) = map_of (rev ms)"
    by (simp add: updates_conv' map_upds_def zip_map_fst_snd)
  also have "\<dots> = map_of ms" using assms by (intro map_of_inject_set [THEN iffD2]) (simp_all add: rev_map [symmetric])
  finally show ?thesis by (simp add: raw_map_def)
qed

lemma page_buckets:
  assumes "map_of b = map_of (map (\<lambda>(key, items). (key, JArr items)) buckets)"
  shows "bucket_lists b = List.map_filter (\<lambda>key. map_option (map (\<lambda>v. (v, listingKeyCommercial key))) (map_of buckets key)) listingKeys"
proof -
  have "map_of b key = map_option JArr (map_of buckets key)" for key by (simp add: assms map_of_map)
  then show ?thesis unfolding bucket_lists_def by (intro arg_cong2 [where f = List.map_filter] ext) (simp_all split: option.split)
qed

text \<open>The items of the buckets in the order of the keys, with the kind of seller.\<close>

definition bucket_items :: "(string \<times> 'a list) list \<Rightarrow> ('a \<times> bool option) list" where
  "bucket_items buckets = concat (map (\<lambda>(key, commercial).
     case map_of buckets key of None \<Rightarrow> [] | Some items \<Rightarrow> map (\<lambda>v. (v, Some commercial)) items)
     [(''private'', False), (''commercial'', True), (''platinum'', True), (''solo'', True), (''boost'', True)])"

lemma concat_buckets:
  "concat (List.map_filter (\<lambda>key. map_option (map (\<lambda>v. (v, listingKeyCommercial key))) (map_of buckets key)) listingKeys) = bucket_items buckets"
  by (simp add: bucket_items_def listingKeys_def listingKeyCommercial_def map_filter_simps split: option.split)

lemma parse_feed_page:
  assumes "buckets \<noteq> []" "distinct (map fst buckets)" "fst ` set buckets \<subseteq> set listingKeys" "\<forall>(key, items) \<in> set buckets. list_all plain_json items"
  shows "parseNextData tp (json_text (feed_page buckets)) =
    Inr (buildListings tp (bucket_items (map (\<lambda>(key, items). (key, map clean_json items)) buckets)))"
proof -
  let ?cs = "map (\<lambda>(key, items). (key, map clean_json items)) buckets"
  have "plain_json (feed_page buckets)" using assms(4) by (auto simp: feed_page_def list_all_iff)
  then have read: "json_read (json_text (feed_page buckets)) = Some (feed_page ?cs)"
    by (simp add: json_roundtrip clean_feed_page [OF assms(3)])
  have keys: "map fst (map (\<lambda>(key, items). (key, JArr items)) ?cs) = map fst buckets" by auto
  then obtain b where b: "raw_map (JObj (map (\<lambda>(key, items). (key, JArr items)) ?cs)) = Some b"
      "map_of b = map_of (map (\<lambda>(key, items). (key, JArr items)) ?cs)"
    using raw_map_distinct assms(2) by metis
  obtain key items rest where "buckets = (key, items) # rest" using assms(1) by (cases buckets) auto
  then have "key \<in> set listingKeys" "map_of ?cs key \<noteq> None" using assms(3) by auto
  then have "bucket_lists b \<noteq> []" unfolding page_buckets [OF b(2)] by (auto simp: List.map_filter_def filter_empty_conv)
  then show ?thesis using b(1) by (simp add: parseNextData_def read page_queries page_buckets [OF b(2)] concat_buckets)
qed

subsection \<open>The first listing of each token\<close>

definition first_of_token :: "('a \<Rightarrow> string) \<Rightarrow> 'a list \<Rightarrow> 'a list" where
  "first_of_token token xs = map ((!) xs) (filter (\<lambda>i. \<forall>j < i. token (xs ! j) \<noteq> token (xs ! i)) [0..<length xs])"

lemma first_of_unseen:
  "map ((!) (x # xs)) (filter (\<lambda>i. token ((x # xs) ! i) \<notin> S \<and> (\<forall>j < i. token ((x # xs) ! j) \<noteq> token ((x # xs) ! i))) [0..<length (x # xs)]) =
   (if token x \<in> S then [] else [x]) @
   map ((!) xs) (filter (\<lambda>i. token (xs ! i) \<notin> insert (token x) S \<and> (\<forall>j < i. token (xs ! j) \<noteq> token (xs ! i))) [0..<length xs])"
proof -
  have up: "[0..<length (x # xs)] = 0 # map Suc [0..<length xs]" by (simp add: upt_conv_Cons map_Suc_upt del: upt_Suc)
  have "(\<forall>j < Suc i. token ((x # xs) ! j) \<noteq> token (xs ! i)) \<longleftrightarrow> token x \<noteq> token (xs ! i) \<and> (\<forall>j < i. token (xs ! j) \<noteq> token (xs ! i))" for i
    by (auto simp: less_Suc_eq_0_disj)
  then show ?thesis unfolding up by (simp add: filter_map comp_def) (auto intro!: arg_cong [where f = "map ((!) xs)"] filter_cong)
qed

lemma build_first:
  assumes "list_all2 (\<lambda>p it. \<exists>l. itemToListing tp it = Some l \<and> R p l) ps items" "\<And>p l. R p l \<Longrightarrow> rl_Token l = token p"
  shows "list_all2 R (map ((!) ps) (filter (\<lambda>i. token (ps ! i) \<notin> set seen \<and> (\<forall>j < i. token (ps ! j) \<noteq> token (ps ! i))) [0..<length ps]))
    (build_loop tp seen items)"
  using assms(1)
proof (induction ps items arbitrary: seen rule: list_all2_induct)
  case Nil
  then show ?case by simp
next
  case (Cons p ps it items)
  then obtain l where l: "itemToListing tp it = Some l" "R p l" by blast
  then have t: "rl_Token l = token p" using assms(2) by blast
  show ?case
  proof (cases "token p \<in> set seen")
    case True
    then show ?thesis unfolding first_of_unseen using Cons.IH [of seen] l t by (simp add: insert_absorb)
  next
    case False
    then show ?thesis unfolding first_of_unseen using Cons.IH [of "token p # seen"] l t by simp
  qed
qed

subsection \<open>What a seller posts\<close>

record posted =
  po_token :: string
  po_make :: "int \<times> string"
  po_model :: "int \<times> string"
  po_year :: int
  po_km :: int
  po_hand :: int
  po_price :: int
  po_description :: string

text \<open>An item as the source writes it.\<close>

definition posted_item :: "posted \<Rightarrow> json" where
  "posted_item p =
    (let field = (\<lambda>(i, t). JObj [(''id'', JNum (itoa i)), (''text'', JStr t)])
     in JObj [(''token'', JStr (po_token p)), (''manufacturer'', field (po_make p)), (''model'', field (po_model p)),
          (''vehicleDates'', JObj [(''yearOfProduction'', JNum (itoa (po_year p)))]), (''km'', JNum (itoa (po_km p))),
          (''hand'', JObj [(''id'', JNum (itoa (po_hand p)))]), (''price'', JNum (itoa (po_price p))),
          (''metaData'', JObj [(''description'', JStr (po_description p))])])"

definition int64 :: "int \<Rightarrow> bool" where
  "int64 i \<longleftrightarrow> - (2 ^ 63) \<le> i \<and> i < 2 ^ 63"

definition posted_ok :: "posted \<Rightarrow> bool" where
  "posted_ok p \<longleftrightarrow> po_token p \<noteq> [] \<and> valid_utf8 (po_token p) \<and>
     list_all int64 [fst (po_make p), fst (po_model p), po_year p, po_km p, po_hand p, po_price p]"

text \<open>The listing that a post becomes. Bytes that are no UTF-8 come back as replacement characters.\<close>

definition reads_as :: "posted \<times> bool option \<Rightarrow> raw_listing \<Rightarrow> bool" where
  "reads_as pc l \<longleftrightarrow> (case pc of (p, commercial) \<Rightarrow>
     rl_Token l = po_token p \<and> rl_PageLink l = ''https://www.yad2.co.il/vehicles/item/'' @ po_token p \<and>
     rl_ManufacturerID l = fst (po_make p) \<and> rl_Manufacturer l = valid_string (snd (po_make p)) \<and>
     rl_ModelID l = fst (po_model p) \<and> rl_Model l = valid_string (snd (po_model p)) \<and>
     rl_Year l = po_year p \<and> rl_Km l = po_km p \<and> rl_Hand l = po_hand p \<and> rl_Price l = po_price p \<and>
     rl_Description l = valid_string (po_description p) \<and> rl_Commercial l = commercial)"

lemma item_names:
  "valid_string ''token'' = ''token''" "valid_string ''manufacturer'' = ''manufacturer''" "valid_string ''model'' = ''model''"
  "valid_string ''vehicleDates'' = ''vehicleDates''" "valid_string ''yearOfProduction'' = ''yearOfProduction''" "valid_string ''km'' = ''km''"
  "valid_string ''hand'' = ''hand''" "valid_string ''price'' = ''price''" "valid_string ''metaData'' = ''metaData''"
  "valid_string ''description'' = ''description''" "valid_string ''id'' = ''id''" "valid_string ''text'' = ''text''"
  by (rule ascii_valid; simp add: byte_in_def)+

lemma item_lower:
  "to_lower ''token'' = ''token''" "to_lower ''manufacturer'' = ''manufacturer''" "to_lower ''model'' = ''model''"
  "to_lower ''vehicleDates'' = ''vehicledates''" "to_lower ''yearOfProduction'' = ''yearofproduction''" "to_lower ''km'' = ''km''"
  "to_lower ''hand'' = ''hand''" "to_lower ''price'' = ''price''" "to_lower ''metaData'' = ''metadata''"
  "to_lower ''description'' = ''description''" "to_lower ''id'' = ''id''" "to_lower ''text'' = ''text''"
  by code_simp+

lemma plain_posted: "plain_json (posted_item p)"
  by (cases "po_make p"; cases "po_model p") (simp add: posted_item_def plain_itoa [unfolded plain_json.simps] Let_def)

lemma plain_itoa_number: "number_literal (itoa i) \<and> list_all num_char (itoa i)"
  using plain_itoa by simp

lemma read_posted:
  assumes "posted_ok p"
  shows "\<exists>l. itemToListing tp (clean_json (posted_item p), commercial) = Some l \<and> reads_as (p, commercial) l"
proof -
  obtain mi mt where make: "po_make p = (mi, mt)" by fastforce
  obtain ni nt where model: "po_model p = (ni, nt)" by fastforce
  have nums: "int64_literal (itoa mi) = Some mi" "int64_literal (itoa ni) = Some ni" "int64_literal (itoa (po_year p)) = Some (po_year p)"
    "int64_literal (itoa (po_km p)) = Some (po_km p)" "int64_literal (itoa (po_hand p)) = Some (po_hand p)"
    "int64_literal (itoa (po_price p)) = Some (po_price p)"
    using assms by (auto simp: posted_ok_def int64_def make model intro!: int64_itoa)
  have tok: "valid_string (po_token p) = po_token p" "po_token p \<noteq> []" using assms by (simp_all add: posted_ok_def valid_string_id)
  let ?item = "zero_item\<lparr>fi_Token := po_token p, fi_Manufacturer := zero_text\<lparr>tf_ID := mi, tf_Text := valid_string mt\<rparr>,
    fi_Model := zero_text\<lparr>tf_ID := ni, tf_Text := valid_string nt\<rparr>,
    fi_VehicleDates := (fi_VehicleDates zero_item)\<lparr>dt_YearOfProduction := po_year p\<rparr>, fi_Km := po_km p,
    fi_Hand := Some (JObj [(''id'', JNum (itoa (po_hand p)))]), fi_Price := po_price p,
    fi_MetaData := (fi_MetaData zero_item)\<lparr>md_Description := valid_string (po_description p)\<rparr>\<rparr>"
  have "members_of item_fields (clean_json (posted_item p)) zero_item = Some ?item"
    by (simp add: posted_item_def Let_def make model item_names item_lower item_fields_def text_fields_def struct_field_def
        str_field_def int64_field_def raw_field_def nums tok zero_item_def zero_text_def)
  then have "itemToListing tp (clean_json (posted_item p), commercial) = Some (item_listing tp commercial ?item)"
    using tok by (simp add: itemToListing_def)
  moreover have "reads_as (p, commercial) (item_listing tp commercial ?item)"
    by (simp add: reads_as_def item_listing_def Let_def make model textFromField_def zero_item_def zero_text_def parseHand_def
        int64_field_def text_fields_def item_lower nums)
  ultimately show ?thesis by blast
qed

lemma bucket_items_map:
  "bucket_items (map (\<lambda>(key, ps). (key, map f ps)) buckets) = map (\<lambda>(p, c). (f p, c)) (bucket_items buckets)"
proof -
  have "map_of (map (\<lambda>(key, ps). (key, map f ps)) buckets) key = map_option (map f) (map_of buckets key)" for key
    by (simp add: map_of_map)
  then show ?thesis by (simp add: bucket_items_def split: option.split)
qed

lemma bucket_items_in:
  assumes "(p, c) \<in> set (bucket_items buckets)"
  obtains key ps where "(key, ps) \<in> set buckets" "p \<in> set ps"
proof -
  obtain key ps where "map_of buckets key = Some ps" "p \<in> set ps"
    using assms by (auto simp: bucket_items_def split: option.splits dest: sym)
  then show ?thesis using that map_of_SomeD by metis
qed

text \<open>C35. What sellers post is read back from the page, whatever they write into their texts, quotes, tags and broken text
  included. A page carries its posts as JSON in its script, in one or more of the five buckets; before the script it does
  not name the script's id, and nowhere does it have the mark of a challenge, which the parser would take it for. Then the
  parser answers one listing for every token, the first post of it, in the order private, commercial, platinum, solo, boost
  and within a bucket in the order of the page; and each listing has the token, the link, the numbers and the texts of its
  post, and the kind of seller of its bucket.\<close>

theorem page_reads_back:
  assumes "buckets \<noteq> []" "distinct (map fst buckets)" "fst ` set buckets \<subseteq> set listingKeys"
    and "\<forall>(key, posts) \<in> set buckets. list_all posted_ok posts"
    and "text = json_text (feed_page (map (\<lambda>(key, posts). (key, map posted_item posts)) buckets))"
    and "\<not> contains (to_lower pre) ''__next_data__''" "\<not> contains (page_with pre text post) challengeMarker"
  shows "\<exists>ls. ParseListingsPage tp (page_with pre text post) = Inr ls \<and>
    list_all2 reads_as (first_of_token (\<lambda>(p, c). po_token p) (bucket_items buckets)) ls"
proof -
  let ?js = "map (\<lambda>(key, posts). (key, map posted_item posts)) buckets"
  let ?items = "bucket_items (map (\<lambda>(key, items). (key, map clean_json items)) ?js)"
  have js: "?js \<noteq> []" "distinct (map fst ?js)" "fst ` set ?js \<subseteq> set listingKeys" "\<forall>(key, items) \<in> set ?js. list_all plain_json items"
    using assms(1-3) by (auto simp: comp_def case_prod_beta list_all_iff plain_posted)
  have plain: "plain_json (feed_page ?js)" using js(4) by (auto simp: feed_page_def list_all_iff)
  have "text \<noteq> []" by (simp add: assms(5) feed_page_def)
  from page_data [OF assms(6,7) _ this] have
    parsed: "ParseListingsPage tp (page_with pre text post) = Inr (buildListings tp ?items)"
    using json_text_less [OF plain] parse_feed_page [OF js, of tp] by (simp add: ParseListingsPage_def assms(5))
  have items: "?items = map (\<lambda>(p, c). (clean_json (posted_item p), c)) (bucket_items buckets)"
    unfolding bucket_items_map by (simp add: case_prod_beta comp_def)
  have "list_all2 (\<lambda>pc it. \<exists>l. itemToListing tp it = Some l \<and> reads_as pc l) (bucket_items buckets) ?items"
    unfolding items list_all2_map2 list_all2_same
  proof
    fix pc assume "pc \<in> set (bucket_items buckets)"
    moreover obtain p c where pc: "pc = (p, c)" by fastforce
    ultimately obtain key ps where "(key, ps) \<in> set buckets" "p \<in> set ps" using bucket_items_in by metis
    then have "posted_ok p" using assms(4) by (fastforce simp: list_all_iff)
    then show "\<exists>l. itemToListing tp (case pc of (p, c) \<Rightarrow> (clean_json (posted_item p), c)) = Some l \<and> reads_as pc l"
      using read_posted pc by simp
  qed
  moreover have "rl_Token l = (\<lambda>(p, c). po_token p) pc" if "reads_as pc l" for pc l using that by (auto simp: reads_as_def)
  ultimately have "list_all2 reads_as (first_of_token (\<lambda>(p, c). po_token p) (bucket_items buckets)) (buildListings tp ?items)"
    using build_first [where tp = tp and R = reads_as and token = "\<lambda>(p, c). po_token p" and seen = "[]" and ps = "bucket_items buckets" and items = ?items]
    unfolding first_of_token_def buildListings_def by (simp only: list.set empty_iff not_False_eq_True simp_thms)
  then show ?thesis using parsed by blast
qed

definition sample_post :: posted where
  "sample_post = \<lparr>po_token = ''ab1'', po_make = (19, ''<b>''), po_model = (7, ''x''), po_year = 2019, po_km = 81000, po_hand = 2,
     po_price = 52000, po_description = ''</script>''\<rparr>"

definition sample_buckets :: "(string \<times> posted list) list" where
  "sample_buckets = [(''commercial'', [sample_post, sample_post\<lparr>po_token := ''c'', po_price := 41000\<rparr>]), (''private'', [sample_post])]"

lemma digit_texts:
  "itoa 19 = ''19''" "itoa 7 = ''7''" "itoa 2019 = ''2019''" "itoa 81000 = ''81000''" "itoa 2 = ''2''" "itoa 52000 = ''52000''"
  "itoa 41000 = ''41000''"
  by (simp_all add: itoa_def nat_digits.simps digit_char_def) code_simp+

definition sample_item :: "string \<Rightarrow> string \<Rightarrow> json" where
  "sample_item token price = JObj [(''token'', JStr token), (''manufacturer'', JObj [(''id'', JNum ''19''), (''text'', JStr ''<b>'')]),
     (''model'', JObj [(''id'', JNum ''7''), (''text'', JStr ''x'')]), (''vehicleDates'', JObj [(''yearOfProduction'', JNum ''2019'')]),
     (''km'', JNum ''81000''), (''hand'', JObj [(''id'', JNum ''2'')]), (''price'', JNum price),
     (''metaData'', JObj [(''description'', JStr ''</script>'')])]"

lemma sample_page:
  "map (\<lambda>(key, posts). (key, map posted_item posts)) sample_buckets =
    [(''commercial'', [sample_item ''ab1'' ''52000'', sample_item ''c'' ''41000'']), (''private'', [sample_item ''ab1'' ''52000''])]"
  by (simp add: sample_buckets_def posted_item_def sample_post_def digit_texts sample_item_def Let_def)

theorem page_reads_back_witness:
  "\<exists>ls. ParseListingsPage (\<lambda>_ _ _. None) (page_with ''<script>'' (json_text (feed_page
      [(''commercial'', [sample_item ''ab1'' ''52000'', sample_item ''c'' ''41000'']), (''private'', [sample_item ''ab1'' ''52000''])])) ''<b>'') = Inr ls \<and>
    map (\<lambda>l. (rl_Token l, rl_Price l, rl_Commercial l)) ls = [(''ab1'', 52000, Some False), (''c'', 41000, Some True)]"
proof -
  let ?text = "json_text (feed_page [(''commercial'', [sample_item ''ab1'' ''52000'', sample_item ''c'' ''41000'']), (''private'', [sample_item ''ab1'' ''52000''])])"
  have ok: "posted_ok sample_post" "posted_ok (sample_post\<lparr>po_token := ''c'', po_price := 41000\<rparr>)" by code_simp+
  have "\<exists>ls. ParseListingsPage (\<lambda>_ _ _. None) (page_with ''<script>'' ?text ''<b>'') = Inr ls \<and>
    list_all2 reads_as (first_of_token (\<lambda>(p, c). po_token p) (bucket_items sample_buckets)) ls"
  proof (rule page_reads_back)
    show "?text = json_text (feed_page (map (\<lambda>(key, posts). (key, map posted_item posts)) sample_buckets))" by (simp only: sample_page)
    show "\<not> contains (to_lower ''<script>'') ''__next_data__''" by code_simp
    show "\<not> contains (page_with ''<script>'' ?text ''<b>'') challengeMarker" by code_simp
  qed (use ok in \<open>simp_all add: sample_buckets_def listingKeys_def\<close>)
  moreover have "first_of_token (\<lambda>(p, c). po_token p) (bucket_items sample_buckets) =
      [(sample_post, Some False), (sample_post\<lparr>po_token := ''c'', po_price := 41000\<rparr>, Some True)]" by code_simp
  ultimately show ?thesis by (auto simp: list_all2_Cons1 reads_as_def sample_post_def)
qed


subsection \<open>The JSON interface and the item page\<close>

definition gw_page :: "json \<Rightarrow> json" where
  "gw_page feed = JObj [(''data'', JObj [(''feed'', feed)])]"

lemma gw_page_items:
  "gw_items (gw_page (JObj [(''feed_items'', JArr vs)])) None = Some (Some vs)" "gw_items (gw_page (JObj [])) None = Some None"
  by (simp_all add: gw_items_def gw_page_def members_of_def feed_pointer_def lower_names)

lemma gw_reads_back:
  assumes "list_all plain_json items" "\<not> looksLikeBotProtection (json_text (gw_page (JObj [(''feed_items'', JArr items)])))"
  shows "ParseGwFeed tp (json_text (gw_page (JObj [(''feed_items'', JArr items)]))) = Inr (buildListings tp (map (\<lambda>v. (clean_json v, None)) items))"
proof -
  have "plain_json (gw_page (JObj [(''feed_items'', JArr items)]))" using assms(1) by (simp add: gw_page_def)
  then have "json_read (json_text (gw_page (JObj [(''feed_items'', JArr items)]))) = Some (gw_page (JObj [(''feed_items'', JArr (map clean_json items))]))"
    by (simp add: json_roundtrip) (simp add: gw_page_def page_names)
  then show ?thesis using assms(2) by (simp add: ParseGwFeed_def gw_page_items comp_def)
qed

text \<open>An empty feed is no error, a feed without the list is one.\<close>

lemma gw_feed_empty: "ParseGwFeed tp (json_text (gw_page (JObj [(''feed_items'', JArr [])]))) = Inr []"
proof -
  have "\<not> looksLikeBotProtection (json_text (gw_page (JObj [(''feed_items'', JArr [])])))" by code_simp
  then show ?thesis using gw_reads_back [of "[]"] by (simp add: buildListings_def)
qed

lemma gw_feed_missing: "ParseGwFeed tp (json_text (gw_page (JObj []))) = Inl [OtherError ''gw feed missing data.feed.feed_items'']"
proof -
  have "plain_json (gw_page (JObj []))" by (simp add: gw_page_def)
  then have "json_read (json_text (gw_page (JObj []))) = Some (gw_page (JObj []))" by (simp add: json_roundtrip) (simp add: gw_page_def page_names)
  moreover have "\<not> looksLikeBotProtection (json_text (gw_page (JObj [])))" by code_simp
  ultimately show ?thesis by (simp add: ParseGwFeed_def gw_page_items)
qed

text \<open>The answer is searched as a whole for the marks of a challenge, so one listing whose text has such a word makes all of
  it a challenge.\<close>

lemma listing_reads_as_challenge:
  "ParseGwFeed tp (json_text (gw_page (JObj [(''feed_items'', JArr [JObj [(''token'', JStr ''ab1''), (''metaData'',
     JObj [(''description'', JStr ''No captcha'')])]])]))) = Inl [ErrChallenge]"
proof -
  have "looksLikeBotProtection (json_text (gw_page (JObj [(''feed_items'', JArr [JObj [(''token'', JStr ''ab1''), (''metaData'',
     JObj [(''description'', JStr ''No captcha'')])]])])))" by code_simp
  then show ?thesis by (simp add: ParseGwFeed_def)
qed

text \<open>When the data of a query has details in several members, Go's order of the map decides which ones are used.\<close>

lemma item_details_depend_on_order:
  "map_option id_Km (query_details (map snd) [Some (JObj [(''a'', JObj [(''km'', JNum ''1'')]), (''b'', JObj [(''km'', JNum ''2'')])])]) = Some 1"
  "map_option id_Km (query_details (\<lambda>w. rev (map snd w)) [Some (JObj [(''a'', JObj [(''km'', JNum ''1'')]), (''b'', JObj [(''km'', JNum ''2'')])])]) = Some 2"
  by code_simp+

text \<open>Whatever order, only details that some part of the data holds are used.\<close>

lemma first_details_sound: "first_details vs = Some r \<Longrightarrow> \<exists>v \<in> set vs. details_in v = Some r"
  by (induction vs) (auto split: option.splits)

lemma details_something: "details_in v = Some r \<Longrightarrow> some_detail r"
  by (auto simp: details_in_def detailsFromPageData_def Let_def bind_eq_Some_conv split: if_splits)

end
