(* ===== verification/Yad2Fetch.thy ===== *)
theory Yad2Fetch
  imports Yad2Page Proxies "HOL-Library.List_Lexorder" "HOL-Library.Char_ord"
begin

section \<open>Fetching from the source (internal/fetcher/yad2/yad2.go)\<close>

text \<open>
  A fetch takes a proxy and its client, asks for a page or for the JSON feed, and blames the proxy when the source answers
  with a challenge. The HTTP client is an argument: what it answers to a URL, and which client \<open>NewClient\<close> makes for a proxy.
  The URLs that are asked for are recorded.
\<close>

subsection \<open>State\<close>

datatype client = OwnClient | ItemClient | Pooled nat

record yad2_env =
  ye_get :: "client \<Rightarrow> string \<Rightarrow> goerr + int \<times> string"
  ye_made :: "string \<Rightarrow> nat option"
  ye_times :: time_parser
  ye_visit :: "(string \<times> json) list \<Rightarrow> json list"

record yad2_fetcher =
  yf_baseURL :: string
  yf_gwBaseURL :: string
  yf_useGwFeed :: bool
  yf_proxyPool :: "proxy_pool option"
  yf_clientPool :: "client_pool option"
  yf_asked :: "string list"

definition defaultBaseURL :: string where "defaultBaseURL = ''https://www.yad2.co.il/vehicles/cars''"
definition gwFeedURL :: string where "gwFeedURL = ''https://gw.yad2.co.il/feed-search-legacy/vehicles/cars''"

subsection \<open>The URL of a search\<close>

text \<open>\<open>url.Values\<close>: the values need no escape; \<open>Encode\<close> sorts by the names.\<close>

definition query_pairs :: "source_params \<Rightarrow> (string \<times> string) list" where
  "query_pairs p =
     (if p_Manufacturer p > 0 then [(''manufacturer'', itoa (p_Manufacturer p))] else []) @
     (if p_Model p > 0 then [(''model'', itoa (p_Model p))] else []) @
     (if p_YearMin p > 0 \<or> p_YearMax p > 0
      then [(''year'', itoa (if p_YearMin p = 0 then 2000 else p_YearMin p) @ ''-'' @ itoa (if p_YearMax p = 0 then 2030 else p_YearMax p))] else []) @
     (if p_PriceMin p > 0 \<or> p_PriceMax p > 0
      then [(''price'', itoa (p_PriceMin p) @ ''-'' @ itoa (if p_PriceMax p = 0 then 9999999 else p_PriceMax p))] else []) @
     (if p_MaxKm p > 0 then [(''km'', ''-1-'' @ itoa (p_MaxKm p))] else []) @
     (if p_EngineMinCC p > 0 then [(''engineval'', itoa (p_EngineMinCC p) @ ''--1'')] else []) @
     (if p_MaxHand p > 0 then [(''hand'', ''0-'' @ itoa (p_MaxHand p))] else []) @
     (let seller = to_lower (trim_space (p_SellerFilter p)) in
      if seller = ''private'' then [(''ownerID'', ''1'')]
      else if seller \<in> {''commercial'', ''dealer'', ''dealership''} then [(''ownerID'', ''2'')] else []) @
     (if p_PhotoOnly p then [(''imgOnly'', ''1'')] else []) @
     [(''Order'', ''1'')] @
     (if p_Page p > 0 then [(''page'', itoa (p_Page p))] else [])"

definition encode_query :: "(string \<times> string) list \<Rightarrow> string" where
  "encode_query ps = join_with ''&'' (map (\<lambda>(k, v). k @ ''='' @ v) (sort_key fst ps))"

text \<open>For a base without a query of its own.\<close>

definition buildURL :: "string \<Rightarrow> source_params \<Rightarrow> string" where
  "buildURL base params = base @ ''?'' @ encode_query (query_pairs params)"

text \<open>The path is escaped by \<open>PathEscape\<close>, and again when the URL is written.\<close>

definition path_byte :: "char \<Rightarrow> string" where
  "path_byte c =
    (if is_letter c \<or> is_digit c \<or> c \<in> set ''-_.~$&+=:@'' then [c]
     else ''%25'' @ map (\<lambda>d. if of_char d < (97 :: nat) then d else char_of (of_char d - (32 :: nat))) [hex_digit (of_char c div 16), hex_digit (of_char c mod 16)])"

definition itemURL :: "string \<Rightarrow> string" where
  "itemURL token = ''https://www.yad2.co.il/vehicles/item/'' @ concat (map path_byte token)"

subsection \<open>Steps of a fetch\<close>

definition looksLikeGenericError :: "string \<Rightarrow> bool" where
  "looksLikeGenericError body \<longleftrightarrow> contains (to_lower body) ''<title>400 bad request</title>'' \<or> contains (to_lower body) ''<title>403 forbidden</title>''"

text \<open>The proxy to use (empty for none) and the client; \<open>own\<close> is the fetcher's.\<close>

definition choose_client :: "yad2_env \<Rightarrow> client \<Rightarrow> gotime \<Rightarrow> yad2_fetcher \<Rightarrow> (client \<times> string) \<times> yad2_fetcher" where
  "choose_client env own now f =
    (case yf_proxyPool f of None \<Rightarrow> ((own, []), f)
     | Some pool \<Rightarrow>
         (case Next now pool of
            (proxy, pool) \<Rightarrow>
              (case yf_clientPool f of
                 None \<Rightarrow> ((own, proxy), f\<lparr>yf_proxyPool := Some pool\<rparr>)
               | Some cp \<Rightarrow>
                   (case Get proxy (ye_made env proxy) cp of
                      (c, cp) \<Rightarrow> ((case c of None \<Rightarrow> own | Some n \<Rightarrow> Pooled n, proxy), f\<lparr>yf_proxyPool := Some pool, yf_clientPool := Some cp\<rparr>)))))"

definition ask :: "yad2_env \<Rightarrow> client \<Rightarrow> string \<Rightarrow> yad2_fetcher \<Rightarrow> (goerr + int \<times> string) \<times> yad2_fetcher" where
  "ask env c url f = (ye_get env c url, f\<lparr>yf_asked := yf_asked f @ [url]\<rparr>)"

definition blame :: "gotime \<Rightarrow> string \<Rightarrow> yad2_fetcher \<Rightarrow> yad2_fetcher" where
  "blame now proxy f = (if proxy = [] then f else f\<lparr>yf_proxyPool := map_option (MarkUnhealthy now proxy) (yf_proxyPool f)\<rparr>)"

definition drop_client :: "string \<Rightarrow> yad2_fetcher \<Rightarrow> yad2_fetcher" where
  "drop_client proxy f = (if proxy = [] then f else f\<lparr>yf_clientPool := map_option (Evict proxy) (yf_clientPool f)\<rparr>)"

definition gw_url :: "source_params \<Rightarrow> yad2_fetcher \<Rightarrow> string" where
  "gw_url params f = buildURL (if yf_gwBaseURL f = [] then gwFeedURL else yf_gwBaseURL f) params"

definition fetchGwFeed :: "yad2_env \<Rightarrow> client \<Rightarrow> source_params \<Rightarrow> yad2_fetcher \<Rightarrow> (goerr + raw_listing list) \<times> yad2_fetcher" where
  "fetchGwFeed env c params f =
    (case ask env c (gw_url params f) f of
       (Inl e, f) \<Rightarrow> (Inl e, f)
     | (Inr (status, body), f) \<Rightarrow>
         (if looksLikeBotProtection body then Inl [ErrChallenge]
          else if status \<noteq> 200 then (if status = 400 \<or> status = 429 then Inl [ErrRateLimited] else Inl [OtherError ''gw feed unexpected status''])
          else ParseGwFeed (ye_times env) body, f))"

definition fetch_page :: "yad2_env \<Rightarrow> gotime \<Rightarrow> client \<Rightarrow> string \<Rightarrow> source_params \<Rightarrow> yad2_fetcher \<Rightarrow> (goerr + raw_listing list) \<times> yad2_fetcher" where
  "fetch_page env now c proxy params f =
    (case ask env c (buildURL (yf_baseURL f) params) f of
       (Inl e, f) \<Rightarrow> (Inl e, drop_client proxy f)
     | (Inr (status, body), f) \<Rightarrow>
         if status \<noteq> 200 then
           (if looksLikeBotProtection body then (Inl [ErrChallenge], blame now proxy f)
            else if status = 400 \<or> status = 429 then (Inl [ErrRateLimited], f)
            else (Inl [OtherError ''unexpected status''], f))
         else (ParseListingsPage (ye_times env) body, f))"

definition Fetch :: "yad2_env \<Rightarrow> gotime \<Rightarrow> source_params \<Rightarrow> yad2_fetcher \<Rightarrow> (goerr + raw_listing list) \<times> yad2_fetcher" where
  "Fetch env now params f =
    (case choose_client env OwnClient now f of
       ((c, proxy), f) \<Rightarrow>
         if yf_useGwFeed f then
           (case fetchGwFeed env c params f of
              (Inr listings, f) \<Rightarrow> (Inr listings, f)
            | (Inl e, f) \<Rightarrow>
                if errors_is e ErrChallenge then (Inl e, blame now proxy f)
                else if errors_is e ErrRateLimited then (Inl e, f)
                else fetch_page env now c proxy params f)
         else fetch_page env now c proxy params f)"

definition FetchItem :: "yad2_env \<Rightarrow> gotime \<Rightarrow> string \<Rightarrow> yad2_fetcher \<Rightarrow> (goerr + page_details) \<times> yad2_fetcher" where
  "FetchItem env now token f =
    (case choose_client env ItemClient now f of
       ((c, proxy), f) \<Rightarrow>
         (case ask env c (itemURL token) f of
            (Inl e, f) \<Rightarrow> (Inl e, drop_client proxy f)
          | (Inr (status, body), f) \<Rightarrow>
              if status \<noteq> 200 then
                (if looksLikeBotProtection body \<or> ((status = 400 \<or> status = 403) \<and> looksLikeGenericError body)
                 then (Inl [ErrChallenge], blame now proxy f)
                 else if status = 404 \<or> status = 410 then (Inl [ErrItemGone], f)
                 else (Inl [OtherError ''status''], f))
              else
                (case ParseItemPage (ye_visit env) body of
                   Inr details \<Rightarrow> (Inr details, f)
                 | Inl e \<Rightarrow> if looksLikeBotProtection body then (Inl [ErrChallenge], blame now proxy f) else (Inl e, f))))"

text \<open>\<open>FetchRawPage\<close>, which the catalogue is loaded with, uses the fetcher's own client.\<close>

definition FetchRawPage :: "yad2_env \<Rightarrow> string \<Rightarrow> yad2_fetcher \<Rightarrow> (goerr + string) \<times> yad2_fetcher" where
  "FetchRawPage env url f =
    (case ask env OwnClient url f of
       (Inl e, f) \<Rightarrow> (Inl e, f)
     | (Inr (status, body), f) \<Rightarrow>
         (if status \<noteq> 200 then (if looksLikeBotProtection body then Inl [ErrChallenge] else Inl [OtherError ''unexpected status'']) else Inr body, f))"


subsection \<open>Lemmas\<close>

lemma choose_frame [simp]:
  "yf_asked (snd (choose_client env own now f)) = yf_asked f" "yf_useGwFeed (snd (choose_client env own now f)) = yf_useGwFeed f"
  "yf_gwBaseURL (snd (choose_client env own now f)) = yf_gwBaseURL f" "yf_baseURL (snd (choose_client env own now f)) = yf_baseURL f"
  by (simp_all add: choose_client_def split: option.split prod.split)

lemma choose_pool: "yf_proxyPool f = Some p \<Longrightarrow> Next now p = (u, q) \<Longrightarrow>
    snd (fst (choose_client env own now f)) = u \<and> yf_proxyPool (snd (choose_client env own now f)) = Some q"
  by (simp add: choose_client_def split: option.split prod.split)

lemma blame_frame [simp]: "yf_asked (blame now proxy f) = yf_asked f"
  by (simp add: blame_def)

lemma ask_simps [simp]: "fst (ask env c url f) = ye_get env c url" "snd (ask env c url f) = f\<lparr>yf_asked := yf_asked f @ [url]\<rparr>"
  by (simp_all add: ask_def)

text \<open>Marking concerns the first entry with the URL, which is the only one when the URLs are distinct.\<close>

lemma mark_first_map: "distinct (map pe_url es) \<Longrightarrow> mark_first url g es = map (\<lambda>e. if pe_url e = url then g e else e) es"
proof (induction es)
  case (Cons e es)
  have "pe_url e' \<noteq> pe_url e" if "e' \<in> set es" for e' using Cons.prems that by (force simp: image_iff)
  then have "map (\<lambda>e'. if pe_url e' = pe_url e then g e' else e') es = es" by (intro map_idI) simp
  then show ?case using Cons by auto
qed simp

lemma blamed_not_usable:
  assumes "distinct (urls p)" "later \<le> now + proxyCooldown" "e \<in> set (pp_proxies (MarkUnhealthy now url p))" "usable later e"
  shows "pe_url e \<noteq> url"
proof
  assume same: "pe_url e = url"
  have "pp_proxies (MarkUnhealthy now url p) = map (\<lambda>e. if pe_url e = url then e\<lparr>pe_healthy := False, pe_cooldown := now + proxyCooldown\<rparr> else e) (pp_proxies p)"
    using assms(1) by (simp add: MarkUnhealthy_def urls_def mark_first_map)
  with assms(3) have "e \<in> (\<lambda>e. if pe_url e = url then e\<lparr>pe_healthy := False, pe_cooldown := now + proxyCooldown\<rparr> else e) ` set (pp_proxies p)"
    by (simp only: set_map)
  then obtain e0 where "e = (if pe_url e0 = url then e0\<lparr>pe_healthy := False, pe_cooldown := now + proxyCooldown\<rparr> else e0)"
    by (elim imageE)
  then have "\<not> pe_healthy e \<and> pe_cooldown e = now + proxyCooldown" using same by (simp split: if_splits)
  then show False using assms(2,4) by (simp add: usable_def)
qed

lemma fold_choice_less: "x < n \<Longrightarrow> \<forall>i \<in> set is. i < n \<Longrightarrow> fold (\<lambda>i j. if P i j then i else j) is x < (n :: nat)"
  by (induction "is" arbitrary: x) auto

lemma oldest_less: "es \<noteq> [] \<Longrightarrow> oldest_entry es < length es"
  unfolding oldest_entry_def by (rule fold_choice_less) auto

lemma Next_urls: "pool_ok p \<Longrightarrow> Next now p = (u, q) \<Longrightarrow> urls q = urls p \<and> pool_ok q \<and> (pp_proxies p \<noteq> [] \<longrightarrow> u \<in> set (urls p))"
proof -
  assume ok: "pool_ok p" and n: "Next now p = (u, q)"
  show ?thesis
  proof (cases "pp_proxies p = []")
    case False
    then have i: "pp_idx p < length (pp_proxies p)" using ok by (simp add: pool_ok_def)
    obtain r q' where l: "next_loop now (length (pp_proxies p)) p = (r, q')" by fastforce
    note F = loop_facts [OF i l]
    show ?thesis
    proof (cases r)
      case None
      define k where "k = oldest_entry (pp_proxies q')"
      have "pp_proxies q' \<noteq> []" using False F(2) by auto
      then have k: "k < length (pp_proxies q')" using oldest_less by (simp add: k_def)
      have "u = pe_url (pp_proxies q' ! k)" "q = q'\<lparr>pp_proxies := (pp_proxies q')[k := (pp_proxies q' ! k)\<lparr>pe_healthy := True\<rparr>]\<rparr>"
        using n l None False by (simp_all add: Next_def Let_def k_def)
      then have "urls q = urls q'" "length (pp_proxies q) = length (pp_proxies q')" "pp_idx q = pp_idx q'" "u \<in> set (urls q')"
        using k by (simp_all add: urls_def map_update list_update_same_conv)
      then show ?thesis using F(1,2,3) False by (auto simp: pool_ok_def)
    next
      case (Some v)
      then show ?thesis using n l False F by (simp add: Next_def pool_ok_def)
    qed
  qed (use ok n in \<open>simp add: Next_def\<close>)
qed


definition used :: "yad2_env \<Rightarrow> client \<Rightarrow> gotime \<Rightarrow> yad2_fetcher \<Rightarrow> string" where
  "used env own now f = snd (fst (choose_client env own now f))"

lemma used_next: "yf_proxyPool f = Some p \<Longrightarrow> used env own now f = fst (Next now p)"
  by (cases "Next now p") (simp add: used_def choose_pool)

lemma choose_gw_url [simp]: "gw_url params (snd (choose_client env own now f)) = gw_url params f"
  by (simp add: gw_url_def)

text \<open>A proxy that was blamed is not used again for five minutes while another one is usable.\<close>

lemma blamed_rests:
  assumes "pool_ok p" "distinct (urls p)" "yf_proxyPool f = Some (MarkUnhealthy now u p)" "later \<le> now + proxyCooldown"
    and "list_ex (usable later) (pp_proxies (MarkUnhealthy now u p))"
  shows "used env own later f \<noteq> u"
proof -
  let ?q = "MarkUnhealthy now u p"
  have ok: "pool_ok ?q" using assms(1) by (simp add: pool_ok_def) (metis length_0_conv marked(2))
  obtain e where e: "e \<in> set (pp_proxies ?q)" "usable later e" using assms(5) by (auto simp: list_ex_iff)
  obtain v r where n: "Next later ?q = (v, r)" by fastforce
  from resting_proxy_is_last_resort [OF ok e n] obtain e' where "e' \<in> set (pp_proxies ?q)" "pe_url e' = v" "usable later e'" by blast
  then have "v \<noteq> u" using blamed_not_usable [OF assms(2,4)] by blast
  then show ?thesis using n by (simp add: used_next [OF assms(3)])
qed

text \<open>C36. When the source answers the JSON feed with a challenge, the fetch ends there, without a second request for the page;
  and the proxy it used is left alone for five minutes, as long as another one can be used.\<close>

theorem blocked_fetch_rests_proxy:
  assumes "yf_useGwFeed f" "yf_proxyPool f = Some p" "pool_ok p" "pp_proxies p \<noteq> []" "distinct (urls p)" "[] \<notin> set (urls p)"
    and "\<forall>c. ye_get env c (gw_url params f) = Inr (status, body)" "looksLikeBotProtection body" "Fetch env now params f = (r, f')"
  shows "r = Inl [ErrChallenge] \<and> yf_asked f' = yf_asked f @ [gw_url params f] \<and>
    (\<forall>later q. later \<le> now + proxyCooldown \<longrightarrow> yf_proxyPool f' = Some q \<longrightarrow> list_ex (usable later) (pp_proxies q) \<longrightarrow>
      used env own later f' \<noteq> used env OwnClient now f)"
proof -
  obtain u q where n: "Next now p = (u, q)" by fastforce
  obtain c x f1 where ch: "choose_client env OwnClient now f = ((c, x), f1)" by (metis prod.exhaust)
  have x: "x = u" and q: "yf_proxyPool f1 = Some q" using choose_pool [OF assms(2) n, of env OwnClient] ch by simp_all
  have N: "urls q = urls p" "pool_ok q" "u \<in> set (urls p)" using Next_urls [OF assms(3) n] assms(4) by simp_all
  then have u: "u \<noteq> []" using assms(6) by blast
  have f1: "yf_asked f1 = yf_asked f" "gw_url params f1 = gw_url params f" "yf_useGwFeed f1"
    using choose_frame [of env OwnClient now f] choose_gw_url [of params env OwnClient now f] ch assms(1) by simp_all
  have gw: "fetchGwFeed env c params f1 = (Inl [ErrChallenge], f1\<lparr>yf_asked := yf_asked f @ [gw_url params f]\<rparr>)"
    using assms(7,8) f1 by (simp add: fetchGwFeed_def ask_def)
  then have res: "r = Inl [ErrChallenge]" "f' = blame now u (f1\<lparr>yf_asked := yf_asked f @ [gw_url params f]\<rparr>)"
    using assms(9) ch x f1(3) by (simp_all add: Fetch_def)
  have pool: "yf_proxyPool f' = Some (MarkUnhealthy now u q)" using res(2) u q by (simp add: blame_def)
  have "used env own later f' \<noteq> u" if "later \<le> now + proxyCooldown" "list_ex (usable later) (pp_proxies (MarkUnhealthy now u q))" for later
    using blamed_rests [OF N(2) _ pool that] N(1) assms(5) by simp
  moreover have "used env OwnClient now f = u" using used_next [OF assms(2)] n by simp
  ultimately show ?thesis using res pool by auto
qed

definition blocked_env :: yad2_env where
  "blocked_env = \<lparr>ye_get = (\<lambda>_ _. Inr (200, ''<html>captcha</html>'')), ye_made = (\<lambda>_. Some 1), ye_times = (\<lambda>_ _ _. None), ye_visit = map snd\<rparr>"

definition two_proxies :: yad2_fetcher where
  "two_proxies = \<lparr>yf_baseURL = defaultBaseURL, yf_gwBaseURL = gwFeedURL, yf_useGwFeed = True, yf_proxyPool = Some (NewProxyPool [''a'', ''b'']),
     yf_clientPool = Some NewClientPool, yf_asked = []\<rparr>"

definition any_car :: source_params where
  "any_car = \<lparr>p_Manufacturer = 0, p_Model = 0, p_YearMin = 0, p_YearMax = 0, p_PriceMin = 0, p_PriceMax = 0, p_Page = 0, p_MaxKm = 0, p_MaxHand = 0,
     p_EngineMinCC = 0, p_SellerFilter = [], p_PhotoOnly = False\<rparr>"

theorem blocked_fetch_rests_proxy_witness:
  "fst (Fetch blocked_env 5 any_car two_proxies) = Inl [ErrChallenge] \<and>
   used blocked_env OwnClient 6 (snd (Fetch blocked_env 5 any_car two_proxies)) \<noteq> used blocked_env OwnClient 5 two_proxies"
proof -
  obtain r f' where F: "Fetch blocked_env 5 any_car two_proxies = (r, f')" by fastforce
  have "pool_ok (NewProxyPool [''a'', ''b''])" "urls (NewProxyPool [''a'', ''b'']) = [''a'', ''b'']" "pp_proxies (NewProxyPool [''a'', ''b'']) \<noteq> []"
    by (simp_all add: NewProxyPool_def pool_ok_def urls_def)
  moreover have "looksLikeBotProtection ''<html>captcha</html>''" by code_simp
  ultimately have T: "r = Inl [ErrChallenge] \<and> (\<forall>later q. later \<le> 5 + proxyCooldown \<longrightarrow> yf_proxyPool f' = Some q \<longrightarrow>
      list_ex (usable later) (pp_proxies q) \<longrightarrow> used blocked_env OwnClient later f' \<noteq> used blocked_env OwnClient 5 two_proxies)"
    using blocked_fetch_rests_proxy [of two_proxies "NewProxyPool [''a'', ''b'']" blocked_env any_car 200 "''<html>captcha</html>''" 5 r f' OwnClient] F
    by (simp add: two_proxies_def blocked_env_def)
  have "map_option (\<lambda>q. list_ex (usable 6) (pp_proxies q)) (yf_proxyPool (snd (Fetch blocked_env 5 any_car two_proxies))) = Some True"
    by code_simp
  moreover have "6 \<le> 5 + proxyCooldown" by (simp add: proxyCooldown_def duration_defs)
  ultimately show ?thesis using T F by (auto simp: map_option_case split: option.splits)
qed


text \<open>A challenge that comes as a page, with status 200, is not held against the proxy, though the same answer to an item's page is.\<close>

lemma page_challenge_not_blamed:
  assumes "\<not> yf_useGwFeed f" "yf_proxyPool f = Some p" "Next now p = (u, q)" "\<forall>c url. ye_get env c url = Inr (200, body)" "contains body challengeMarker"
  shows "fst (Fetch env now params f) = Inl [ErrChallenge] \<and> yf_proxyPool (snd (Fetch env now params f)) = Some q"
proof -
  obtain c x f1 where ch: "choose_client env OwnClient now f = ((c, x), f1)" by (metis prod.exhaust)
  have q: "yf_proxyPool f1 = Some q" "\<not> yf_useGwFeed f1"
    using choose_pool [OF assms(2,3), of env OwnClient] choose_frame(2) [of env OwnClient now f] ch assms(1) by simp_all
  have "ParseListingsPage tp body = Inl [ErrChallenge]" for tp using assms(5) by (simp add: ParseListingsPage_def ExtractNextDataJSON_def)
  then show ?thesis using ch q assms(4) by (simp add: Fetch_def fetch_page_def ask_def)
qed

text \<open>At most two requests, and what comes back is a proper feed.\<close>

lemma gw_asked: "fetchGwFeed env c params f = (r, f') \<Longrightarrow> yf_asked f' = yf_asked f @ [gw_url params f]"
  by (auto simp: fetchGwFeed_def ask_def split: sum.splits prod.splits)

lemma page_asked: "yf_asked (snd (fetch_page env now c proxy params f)) = yf_asked f @ [buildURL (yf_baseURL f) params]"
  by (auto simp: fetch_page_def ask_def drop_client_def split: sum.splits prod.splits)

lemma Fetch_requests: "length (yf_asked (snd (Fetch env now params f))) \<le> length (yf_asked f) + 2"
proof -
  obtain c x f1 where ch: "choose_client env OwnClient now f = ((c, x), f1)" by (metis prod.exhaust)
  then have a: "yf_asked f1 = yf_asked f" using choose_frame(1) [of env OwnClient now f] by simp
  obtain r f2 where gw: "fetchGwFeed env c params f1 = (r, f2)" by fastforce
  show ?thesis
    using ch a gw gw_asked [OF gw] page_asked [of env now c x params f1] page_asked [of env now c x params f2]
    by (auto simp: Fetch_def split: sum.split)
qed

lemma Fetch_ok: "Fetch env now params f = (Inr ls, f') \<Longrightarrow> feed_ok ls"
proof -
  have page: "feed_ok ls" if "fetch_page env now c x params g = (Inr ls, g')" for c x g g'
    using that ParseListingsPage_ok by (auto simp: fetch_page_def split: sum.splits prod.splits if_splits)
  have gw: "feed_ok ls" if "fetchGwFeed env c params g = (Inr ls, g')" for c g g'
    using that ParseGwFeed_ok by (auto simp: fetchGwFeed_def split: sum.splits prod.splits if_splits)
  show "Fetch env now params f = (Inr ls, f') \<Longrightarrow> feed_ok ls"
    using page gw by (auto simp: Fetch_def split: sum.splits prod.splits if_splits)
qed

end
