(* ===== verification/SourceEnrich.thy ===== *)
theory SourceEnrich
  imports Yad2Feed "HOL-Library.Multiset"
begin

section \<open>Completing a list of listings (internal/fetcher/yad2/enricher.go, client.go)\<close>

text \<open>
  The pass over the listings that lack a mileage, an image or a city: it fetches their pages one after another, in a random
  order, and stops when the source does not want to be asked. \<open>fetch n token\<close> is the answer to the \<open>n\<close>-th request;
  \<open>ended w n\<close> tells whether the context has
  ended before it, or, when \<open>w\<close>, while the pass waits after it.
\<close>

subsection \<open>The pass\<close>

definition defaultEnrichDelay :: duration where "defaultEnrichDelay = seconds 2"
definition defaultMaxPerCycle :: int where "defaultMaxPerCycle = 25"
definition maxConsecutiveFailures :: nat where "maxConsecutiveFailures = 3"
definition challengeBackoff :: duration where "challengeBackoff = seconds 7"
definition maxChallengeRetries :: nat where "maxChallengeRetries = 2"

record enricher_config =
  ec_Delay :: duration
  ec_MaxPerCycle :: int
  ec_ChallengeBackoff :: duration

definition NewEnricher :: "enricher_config \<Rightarrow> enricher_config" where
  "NewEnricher cfg = cfg\<lparr>ec_Delay := (if ec_Delay cfg = 0 then defaultEnrichDelay else ec_Delay cfg),
     ec_MaxPerCycle := (if ec_MaxPerCycle cfg = 0 then defaultMaxPerCycle else ec_MaxPerCycle cfg),
     ec_ChallengeBackoff := (if ec_ChallengeBackoff cfg = 0 then challengeBackoff else ec_ChallengeBackoff cfg)\<rparr>"

definition needs_details :: "raw_listing \<Rightarrow> bool" where
  "needs_details l \<longleftrightarrow> rl_Km l \<le> 0 \<or> rl_ImageURL l = [] \<or> rl_City l = []"

definition candidates :: "raw_listing list \<Rightarrow> nat list" where
  "candidates ls = filter (\<lambda>i. needs_details (ls ! i)) [0..<length ls]"

text \<open>The details fill what is missing.\<close>

definition fill_in :: "page_details \<Rightarrow> raw_listing \<Rightarrow> raw_listing" where
  "fill_in d l = l\<lparr>rl_Km := (if rl_Km l \<le> 0 \<and> id_Km d > 0 then id_Km d else rl_Km l),
     rl_ImageURL := (if rl_ImageURL l = [] then id_ImageURL d else rl_ImageURL l),
     rl_City := (if rl_City l = [] then id_City d else rl_City l),
     rl_Area := (if rl_Area l = [] then id_Area d else rl_Area l),
     rl_OriginalOwnership := (if rl_OriginalOwnership l = [] then id_OriginalOwnership d else rl_OriginalOwnership l),
     rl_BodyType := (if rl_BodyType l = [] then id_BodyType d else rl_BodyType l)\<rparr>"

record enrich_pass =
  ep_listings :: "raw_listing list"
  ep_enriched :: nat
  ep_attempts :: nat
  ep_failures :: nat
  ep_challenges :: nat

text \<open>One candidate; the flag tells whether the pass goes on.\<close>

definition enrich_one :: "int \<Rightarrow> (bool \<Rightarrow> nat \<Rightarrow> bool) \<Rightarrow> (nat \<Rightarrow> string \<Rightarrow> goerr + page_details) \<Rightarrow> nat \<Rightarrow> enrich_pass \<Rightarrow> bool \<times> enrich_pass" where
  "enrich_one maxPer ended fetch i s =
    (if maxPer > 0 \<and> int (ep_enriched s) \<ge> maxPer then (False, s)
     else if ended False (ep_attempts s) then (False, s)
     else
       let n = ep_attempts s; l = ep_listings s ! i; s = s\<lparr>ep_attempts := n + 1\<rparr> in
       case fetch n (rl_Token l) of
         Inl e \<Rightarrow>
           if errors_is e ErrChallenge then
             (let s = s\<lparr>ep_challenges := ep_challenges s + 1\<rparr>
              in (\<not> (ep_challenges s \<ge> maxChallengeRetries \<or> ended True n), s))
           else
             (let s = s\<lparr>ep_failures := ep_failures s + 1\<rparr>
              in (\<not> ep_failures s \<ge> maxConsecutiveFailures, s))
       | Inr d \<Rightarrow>
           (True, s\<lparr>ep_failures := 0, ep_challenges := 0, ep_listings := (ep_listings s)[i := fill_in d l],
              ep_enriched := (if fill_in d l \<noteq> l then ep_enriched s + 1 else ep_enriched s)\<rparr>))"

fun enrich_loop :: "int \<Rightarrow> (bool \<Rightarrow> nat \<Rightarrow> bool) \<Rightarrow> (nat \<Rightarrow> string \<Rightarrow> goerr + page_details) \<Rightarrow> nat list \<Rightarrow> enrich_pass \<Rightarrow> enrich_pass" where
  "enrich_loop maxPer ended fetch [] s = s"
| "enrich_loop maxPer ended fetch (i # cs) s =
    (case enrich_one maxPer ended fetch i s of (go_on, s) \<Rightarrow> if go_on then enrich_loop maxPer ended fetch cs s else s)"

definition start_pass :: "raw_listing list \<Rightarrow> enrich_pass" where
  "start_pass ls = \<lparr>ep_listings = ls, ep_enriched = 0, ep_attempts = 0, ep_failures = 0, ep_challenges = 0\<rparr>"

text \<open>\<open>shuffle\<close> stands for \<open>rand.Shuffle\<close>.\<close>

definition Enrich :: "enricher_config \<Rightarrow> (bool \<Rightarrow> nat \<Rightarrow> bool) \<Rightarrow> (nat \<Rightarrow> string \<Rightarrow> goerr + page_details) \<Rightarrow> (nat list \<Rightarrow> nat list) \<Rightarrow>
    raw_listing list \<Rightarrow> enrich_pass" where
  "Enrich cfg ended fetch shuffle ls =
    (if candidates ls = [] then start_pass ls
     else enrich_loop (ec_MaxPerCycle (NewEnricher cfg)) ended fetch (shuffle (candidates ls)) (start_pass ls))"

subsection \<open>Lemmas: known data stays\<close>

text \<open>The second listing has all that is known of the first, and is the same car.\<close>

definition fuller :: "raw_listing \<Rightarrow> raw_listing \<Rightarrow> bool" where
  "fuller l m \<longleftrightarrow>
     m = l\<lparr>rl_Km := rl_Km m, rl_ImageURL := rl_ImageURL m, rl_City := rl_City m, rl_Area := rl_Area m,
           rl_OriginalOwnership := rl_OriginalOwnership m, rl_BodyType := rl_BodyType m\<rparr> \<and>
     (rl_Km l > 0 \<longrightarrow> rl_Km m = rl_Km l) \<and> (rl_ImageURL l \<noteq> [] \<longrightarrow> rl_ImageURL m = rl_ImageURL l) \<and>
     (rl_City l \<noteq> [] \<longrightarrow> rl_City m = rl_City l) \<and> (rl_Area l \<noteq> [] \<longrightarrow> rl_Area m = rl_Area l) \<and>
     (rl_OriginalOwnership l \<noteq> [] \<longrightarrow> rl_OriginalOwnership m = rl_OriginalOwnership l) \<and> (rl_BodyType l \<noteq> [] \<longrightarrow> rl_BodyType m = rl_BodyType l)"

lemma fuller_refl [simp]: "fuller l l"
  by (simp add: fuller_def)

lemma fuller_step:
  assumes "fuller l m" "m' = m\<lparr>rl_Km := rl_Km m', rl_ImageURL := rl_ImageURL m', rl_City := rl_City m', rl_Area := rl_Area m',
           rl_OriginalOwnership := rl_OriginalOwnership m', rl_BodyType := rl_BodyType m'\<rparr>"
    "rl_Km m > 0 \<longrightarrow> rl_Km m' = rl_Km m" "rl_ImageURL m \<noteq> [] \<longrightarrow> rl_ImageURL m' = rl_ImageURL m"
    "rl_City m \<noteq> [] \<longrightarrow> rl_City m' = rl_City m" "rl_Area m \<noteq> [] \<longrightarrow> rl_Area m' = rl_Area m"
    "rl_OriginalOwnership m \<noteq> [] \<longrightarrow> rl_OriginalOwnership m' = rl_OriginalOwnership m" "rl_BodyType m \<noteq> [] \<longrightarrow> rl_BodyType m' = rl_BodyType m"
  shows "fuller l m'"
proof -
  obtain a1 a2 a3 a4 a5 a6 where m: "m = l\<lparr>rl_Km := a1, rl_ImageURL := a2, rl_City := a3, rl_Area := a4, rl_OriginalOwnership := a5, rl_BodyType := a6\<rparr>"
    using assms(1) unfolding fuller_def by blast
  obtain b1 b2 b3 b4 b5 b6 where m': "m' = m\<lparr>rl_Km := b1, rl_ImageURL := b2, rl_City := b3, rl_Area := b4, rl_OriginalOwnership := b5, rl_BodyType := b6\<rparr>"
    using assms(2) by blast
  show ?thesis using assms(1) assms(3-8) unfolding fuller_def m' m by simp
qed

lemma fuller_fill_in: "fuller l m \<Longrightarrow> fuller l (fill_in d m)"
  by (erule fuller_step) (simp_all add: fill_in_def)

lemma one_fuller:
  assumes "list_all2 fuller ls (ep_listings s)" "enrich_one maxPer ended fetch i s = (g, s')"
  shows "list_all2 fuller ls (ep_listings s')"
proof -
  have upd: "list_all2 fuller ls ((ep_listings s)[i := fill_in d (ep_listings s ! i)])" for d
  proof (cases "i < length (ep_listings s)")
    case True
    then have "fuller (ls ! i) (fill_in d (ep_listings s ! i))"
      using assms(1) by (auto intro: fuller_fill_in simp: list_all2_conv_all_nth)
    then have "list_all2 fuller (ls[i := ls ! i]) ((ep_listings s)[i := fill_in d (ep_listings s ! i)])" by (rule list_all2_update_cong [OF assms(1)])
    then show ?thesis by simp
  qed (use assms(1) in \<open>simp add: list_update_beyond\<close>)
  show ?thesis using assms upd by (auto simp: enrich_one_def Let_def split: sum.splits if_splits)
qed

lemma loop_fuller:
  "list_all2 fuller ls (ep_listings s) \<Longrightarrow> list_all2 fuller ls (ep_listings (enrich_loop maxPer ended fetch cs s))"
proof (induction cs arbitrary: s)
  case (Cons i cs)
  then show ?case using one_fuller [OF Cons.prems, of maxPer ended fetch i] by (cases "enrich_one maxPer ended fetch i s") auto
qed simp

text \<open>The counters: as many requests as candidates at most, no more successes than requests, and the limit of the cycle.\<close>

definition counts_ok :: "int \<Rightarrow> enrich_pass \<Rightarrow> bool" where
  "counts_ok maxPer s \<longleftrightarrow> ep_enriched s \<le> ep_attempts s \<and> (maxPer > 0 \<longrightarrow> int (ep_enriched s) \<le> maxPer)"

lemma one_counts:
  assumes "counts_ok maxPer s" "enrich_one maxPer ended fetch i s = (g, s')"
  shows "counts_ok maxPer s' \<and> ep_attempts s' \<le> ep_attempts s + 1"
  using assms by (auto simp: enrich_one_def counts_ok_def Let_def split: sum.splits if_splits)

lemma loop_counts:
  "counts_ok maxPer s \<Longrightarrow> counts_ok maxPer (enrich_loop maxPer ended fetch cs s) \<and>
    ep_attempts (enrich_loop maxPer ended fetch cs s) \<le> ep_attempts s + length cs"
proof (induction cs arbitrary: s)
  case (Cons i cs)
  obtain g s1 where one: "enrich_one maxPer ended fetch i s = (g, s1)" by fastforce
  show ?case using Cons.IH [of s1] one_counts [OF Cons.prems one] one by fastforce
qed simp

text \<open>How many requests the pass still makes when all of them fail: it ends with the third error or the second challenge.\<close>

definition patience :: "enrich_pass \<Rightarrow> nat" where
  "patience s = (maxConsecutiveFailures - ep_failures s) + (maxChallengeRetries - ep_challenges s) - 1"

definition patient :: "enrich_pass \<Rightarrow> bool" where
  "patient s \<longleftrightarrow> ep_failures s < maxConsecutiveFailures \<and> ep_challenges s < maxChallengeRetries"

lemma one_fails:
  assumes "fetch (ep_attempts s) (rl_Token (ep_listings s ! i)) = Inl e" "patient s" "enrich_one maxPer ended fetch i s = (g, s')"
  shows "ep_listings s' = ep_listings s \<and> ep_enriched s' = ep_enriched s \<and> ep_attempts s' \<le> ep_attempts s + 1 \<and>
    (g \<longrightarrow> patient s' \<and> patience s' + 1 = patience s \<and> ep_attempts s' = ep_attempts s + 1)"
  using assms by (auto simp: enrich_one_def Let_def patience_def patient_def maxConsecutiveFailures_def maxChallengeRetries_def split: if_splits)

lemma loop_gives_up:
  assumes "\<forall>n t. \<exists>e. fetch n t = Inl e" "patient s"
  shows "ep_attempts (enrich_loop maxPer ended fetch cs s) \<le> ep_attempts s + patience s \<and>
    ep_listings (enrich_loop maxPer ended fetch cs s) = ep_listings s"
  using assms(2)
proof (induction cs arbitrary: s)
  case (Cons i cs)
  obtain g s1 where one: "enrich_one maxPer ended fetch i s = (g, s1)" by fastforce
  obtain e where e: "fetch (ep_attempts s) (rl_Token (ep_listings s ! i)) = Inl e" using assms(1) by blast
  note F = one_fails [OF e Cons.prems one]
  have "1 \<le> patience s"
    using Cons.prems unfolding patience_def patient_def maxConsecutiveFailures_def maxChallengeRetries_def by arith
  then show ?case using Cons.IH [of s1] F one by (cases g) auto
qed simp

text \<open>Only the listings of the order can change.\<close>

lemma one_elsewhere:
  assumes "enrich_one maxPer ended fetch i s = (g, s')" "j \<noteq> i"
  shows "ep_listings s' ! j = ep_listings s ! j"
  using assms by (auto simp: enrich_one_def Let_def split: sum.splits if_splits)

lemma loop_elsewhere: "j \<notin> set cs \<Longrightarrow> ep_listings (enrich_loop maxPer ended fetch cs s) ! j = ep_listings s ! j"
proof (induction cs arbitrary: s)
  case (Cons i cs)
  obtain g s1 where one: "enrich_one maxPer ended fetch i s = (g, s1)" by fastforce
  from one_elsewhere [OF one, of j] Cons.prems Cons.IH [of s1] one show ?case by (cases g) auto
qed simp

lemma NewEnricher_limit:
  "ec_MaxPerCycle (NewEnricher cfg) = (if ec_MaxPerCycle cfg = 0 then 25 else ec_MaxPerCycle cfg)"
  by (simp add: NewEnricher_def defaultMaxPerCycle_def)

lemma start_ok: "counts_ok (ec_MaxPerCycle (NewEnricher cfg)) (start_pass ls)" "patient (start_pass ls)" "patience (start_pass ls) = 4"
    "ep_listings (start_pass ls) = ls" "ep_attempts (start_pass ls) = 0"
  by (simp_all add: counts_ok_def start_pass_def patient_def patience_def maxConsecutiveFailures_def maxChallengeRetries_def)

text \<open>C37. The pass over the listings never loses what is known: each listing stays the same car, with every known mileage, image,
  place, owner and body type as it was, whatever the source answers and in whatever order, and a listing that lacks no mileage, image
  or city is left as it is; it asks once for each of the others at most, and completes no more than the limit of the cycle; and when
  the source refuses every request, it leaves the listings as they are and asks at most four times. That \<open>rand.Shuffle\<close> permutes is
  its documented behaviour.\<close>

theorem enrichment_keeps_known_data:
  assumes "mset (shuffle (candidates ls)) = mset (candidates ls)"
  shows "list_all2 fuller ls (ep_listings (Enrich cfg ended fetch shuffle ls))
    \<and> (\<forall>i<length ls. \<not> needs_details (ls ! i) \<longrightarrow> ep_listings (Enrich cfg ended fetch shuffle ls) ! i = ls ! i)
    \<and> ep_attempts (Enrich cfg ended fetch shuffle ls) \<le> length (candidates ls)
    \<and> ep_enriched (Enrich cfg ended fetch shuffle ls) \<le> ep_attempts (Enrich cfg ended fetch shuffle ls)
    \<and> (ec_MaxPerCycle cfg \<ge> 0 \<longrightarrow>
        int (ep_enriched (Enrich cfg ended fetch shuffle ls)) \<le> (if ec_MaxPerCycle cfg = 0 then 25 else ec_MaxPerCycle cfg))
    \<and> ((\<forall>n t. \<exists>e. fetch n t = Inl e) \<longrightarrow>
        ep_listings (Enrich cfg ended fetch shuffle ls) = ls \<and> ep_attempts (Enrich cfg ended fetch shuffle ls) \<le> 4)"
proof -
  let ?e = "Enrich cfg ended fetch shuffle ls"
  have order: "length (shuffle (candidates ls)) = length (candidates ls)" "set (shuffle (candidates ls)) = set (candidates ls)"
    using assms by (metis mset_eq_length, metis set_mset_mset)
  note run = Enrich_def [of cfg ended fetch shuffle ls]
  have known: "list_all2 fuller ls (ep_listings ?e)"
    by (auto simp: run start_ok list_all2_refl intro: loop_fuller)
  have untouched: "\<forall>i<length ls. \<not> needs_details (ls ! i) \<longrightarrow> ep_listings ?e ! i = ls ! i"
  proof (intro allI impI)
    fix i
    assume "i < length ls" "\<not> needs_details (ls ! i)"
    then have "i \<notin> set (candidates ls)" by (simp add: candidates_def)
    then show "ep_listings ?e ! i = ls ! i" by (simp add: run start_ok loop_elsewhere order)
  qed
  have counts: "counts_ok (ec_MaxPerCycle (NewEnricher cfg)) ?e \<and> ep_attempts ?e \<le> length (candidates ls)"
    using loop_counts [OF start_ok(1) [of cfg ls], where cs = "shuffle (candidates ls)" and ended = ended and fetch = fetch] start_ok(1) [of cfg ls]
    by (simp add: run start_ok order)
  have silent: "ep_listings ?e = ls \<and> ep_attempts ?e \<le> 4" if "\<forall>n t. \<exists>e. fetch n t = Inl e"
    using loop_gives_up [OF that start_ok(2) [of ls], where cs = "shuffle (candidates ls)" and maxPer = "ec_MaxPerCycle (NewEnricher cfg)" and ended = ended]
    by (simp add: run start_ok)
  from counts have limit: "ec_MaxPerCycle cfg \<ge> 0 \<longrightarrow> int (ep_enriched ?e) \<le> (if ec_MaxPerCycle cfg = 0 then 25 else ec_MaxPerCycle cfg)"
    by (auto simp: counts_ok_def NewEnricher_limit split: if_splits)
  show ?thesis using known untouched counts limit silent by (simp add: counts_ok_def)
qed

text \<open>Two cars, one without an image and one without a mileage, asked in the opposite order: the source answers the first request
  with a challenge and the second with the page.\<close>

definition two_cars :: "raw_listing list" where
  "two_cars = [zero_raw_listing\<lparr>rl_Token := ''a'', rl_Km := 9, rl_City := ''Haifa''\<rparr>,
     zero_raw_listing\<lparr>rl_Token := ''b'', rl_ImageURL := ''y'', rl_City := ''Eilat''\<rparr>]"

definition second_answers :: "nat \<Rightarrow> string \<Rightarrow> goerr + page_details" where
  "second_answers n t = (if n = 0 then Inl [ErrChallenge]
     else Inr \<lparr>id_Km = 7, id_ImageURL = ''x'', id_City = ''Lod'', id_Area = [], id_BodyType = ''suv'',
       id_OriginalOwnership = ''private'', id_CurrentOwnership = []\<rparr>)"

theorem enrichment_keeps_known_data_witness:
  "list_all2 fuller two_cars (ep_listings (Enrich \<lparr>ec_Delay = 0, ec_MaxPerCycle = 0, ec_ChallengeBackoff = 0\<rparr> (\<lambda>_ _. False) second_answers rev two_cars))
    \<and> ep_listings (Enrich \<lparr>ec_Delay = 0, ec_MaxPerCycle = 0, ec_ChallengeBackoff = 0\<rparr> (\<lambda>_ _. False) second_answers rev two_cars) =
      [zero_raw_listing\<lparr>rl_Token := ''a'', rl_Km := 9, rl_City := ''Haifa'', rl_ImageURL := ''x'', rl_OriginalOwnership := ''private'', rl_BodyType := ''suv''\<rparr>,
       zero_raw_listing\<lparr>rl_Token := ''b'', rl_ImageURL := ''y'', rl_City := ''Eilat''\<rparr>]
    \<and> ep_attempts (Enrich \<lparr>ec_Delay = 0, ec_MaxPerCycle = 0, ec_ChallengeBackoff = 0\<rparr> (\<lambda>_ _. False) second_answers rev two_cars) \<le> 2"
proof (intro conjI)
  let ?cfg = "\<lparr>ec_Delay = 0, ec_MaxPerCycle = 0, ec_ChallengeBackoff = 0\<rparr>"
  have c: "candidates two_cars = [0, 1]"
    by (simp add: candidates_def two_cars_def needs_details_def zero_raw_listing_def upt_rec)
  have perm: "mset (rev (candidates two_cars)) = mset (candidates two_cars)" by simp
  from enrichment_keeps_known_data [where shuffle = rev and ls = two_cars and cfg = ?cfg and ended = "\<lambda>_ _. False" and fetch = second_answers, OF perm] c
  show "list_all2 fuller two_cars (ep_listings (Enrich ?cfg (\<lambda>_ _. False) second_answers rev two_cars))"
    "ep_attempts (Enrich ?cfg (\<lambda>_ _. False) second_answers rev two_cars) \<le> 2" by simp_all
  show "ep_listings (Enrich ?cfg (\<lambda>_ _. False) second_answers rev two_cars) =
      [zero_raw_listing\<lparr>rl_Token := ''a'', rl_Km := 9, rl_City := ''Haifa'', rl_ImageURL := ''x'', rl_OriginalOwnership := ''private'', rl_BodyType := ''suv''\<rparr>,
       zero_raw_listing\<lparr>rl_Token := ''b'', rl_ImageURL := ''y'', rl_City := ''Eilat''\<rparr>]"
    by (simp add: Enrich_def c, simp add: enrich_one_def start_pass_def second_answers_def two_cars_def NewEnricher_limit
      errors_is_def maxChallengeRetries_def maxConsecutiveFailures_def fill_in_def zero_raw_listing_def)
qed

end
