(* ===== verification/InFlight.thy ===== *)
theory InFlight
  imports CwPrelude
begin

section \<open>Requests that outlive their callers (internal/fetcher/yad2/client.go)\<close>

text \<open>
  The stealth client cannot cancel a request, so the goroutine of a request goes on when its caller has gone. The limiter holds a
  slot for each such goroutine until the request has really ended. The model interleaves the goroutines: a call is the phase of
  its fetching goroutine together with the phase of its caller, and one step is one of the channel operations of \<open>run\<close>.
  The code counts the outstanding goroutines of all clients in one global counter, for its metrics; \<open>lm_outstanding\<close> is the share
  of one limiter in it.
\<close>

subsection \<open>The calls\<close>

text \<open>\<open>Fetching\<close>: the request runs; \<open>Finished\<close>: its result lies in \<open>ch\<close>; \<open>Released\<close>: the slot is free again.\<close>

datatype fetch_phase = Fetching | Finished | Released

text \<open>\<open>Waits\<close>: the caller is in the last \<open>select\<close>; \<open>Answered\<close>: it has the result; \<open>Left\<close>: its context ended, and a goroutine
  waits for the result in its place; \<open>Collected\<close>: that goroutine has read it.\<close>

datatype caller_phase = Waits | Answered | Left | Collected

record limiter =
  lm_cap :: nat
  lm_sem :: nat
  lm_outstanding :: int
  lm_calls :: "(fetch_phase \<times> caller_phase) list"

definition maxInFlightStealthFetches :: int where "maxInFlightStealthFetches = 16"

definition newInFlightLimiter :: "int \<Rightarrow> limiter" where
  "newInFlightLimiter limit = \<lparr>lm_cap = nat (if limit < 1 then 1 else limit), lm_sem = 0, lm_outstanding = 0, lm_calls = []\<rparr>"

definition set_call :: "nat \<Rightarrow> fetch_phase \<times> caller_phase \<Rightarrow> limiter \<Rightarrow> limiter" where
  "set_call i c l = l\<lparr>lm_calls := (lm_calls l)[i := c]\<rparr>"

text \<open>What happens to the limiter: a new caller takes a slot or is refused; the fetching goroutine sends its result and then frees
  the slot; the caller takes the result or leaves, in which case the result is read later.\<close>

datatype flight_event = Enter | Refuse | Finish nat | Release nat | Answer nat | Leave nat | Collect nat

inductive flight_step :: "limiter \<Rightarrow> flight_event \<Rightarrow> limiter \<Rightarrow> bool" where
  enter: "lm_sem l < lm_cap l \<Longrightarrow>
    flight_step l Enter (l\<lparr>lm_sem := lm_sem l + 1, lm_calls := lm_calls l @ [(Fetching, Waits)]\<rparr>)"
| refuse: "lm_sem l = lm_cap l \<Longrightarrow> flight_step l Refuse l"
| finish: "i < length (lm_calls l) \<Longrightarrow> lm_calls l ! i = (Fetching, c) \<Longrightarrow> flight_step l (Finish i) (set_call i (Finished, c) l)"
| release: "i < length (lm_calls l) \<Longrightarrow> lm_calls l ! i = (Finished, c) \<Longrightarrow>
    flight_step l (Release i) (set_call i (Released, c) (l\<lparr>lm_sem := lm_sem l - 1\<rparr>))"
| answer: "i < length (lm_calls l) \<Longrightarrow> lm_calls l ! i = (f, Waits) \<Longrightarrow> f \<noteq> Fetching \<Longrightarrow>
    flight_step l (Answer i) (set_call i (f, Answered) l)"
| leave: "i < length (lm_calls l) \<Longrightarrow> lm_calls l ! i = (f, Waits) \<Longrightarrow>
    flight_step l (Leave i) (set_call i (f, Left) (l\<lparr>lm_outstanding := lm_outstanding l + 1\<rparr>))"
| collect: "i < length (lm_calls l) \<Longrightarrow> lm_calls l ! i = (f, Left) \<Longrightarrow> f \<noteq> Fetching \<Longrightarrow>
    flight_step l (Collect i) (set_call i (f, Collected) (l\<lparr>lm_outstanding := lm_outstanding l - 1\<rparr>))"

code_pred (modes: i \<Rightarrow> i \<Rightarrow> o \<Rightarrow> bool) flight_step .

inductive_cases stepE: "flight_step l e l'"
inductive_simps Enter_iff: "flight_step l Enter l'"
inductive_simps Refuse_iff: "flight_step l Refuse l'"
inductive_simps Finish_iff: "flight_step l (Finish i) l'"
inductive_simps Release_iff: "flight_step l (Release i) l'"
inductive_simps Collect_iff: "flight_step l (Collect i) l'"

inductive flight_run :: "limiter \<Rightarrow> flight_event list \<Rightarrow> limiter \<Rightarrow> bool" where
  run_nil: "flight_run l [] l"
| run_snoc: "flight_run l es m \<Longrightarrow> flight_step m e n \<Longrightarrow> flight_run l (es @ [e]) n"

subsection \<open>The invariant\<close>

definition holds_slot :: "fetch_phase \<times> caller_phase \<Rightarrow> bool" where
  "holds_slot c \<longleftrightarrow> fst c \<noteq> Released"

definition has_left :: "fetch_phase \<times> caller_phase \<Rightarrow> bool" where
  "has_left c \<longleftrightarrow> snd c = Left"

definition flight_ok :: "limiter \<Rightarrow> bool" where
  "flight_ok l \<longleftrightarrow> lm_sem l = length (filter holds_slot (lm_calls l)) \<and> lm_sem l \<le> lm_cap l \<and>
     lm_outstanding l = int (length (filter has_left (lm_calls l))) \<and>
     (\<forall>c \<in> set (lm_calls l). fst c = Fetching \<longrightarrow> snd c \<in> {Waits, Left})"

lemma count_update:
  assumes "i < length xs"
  shows "int (length (filter P (xs[i := x]))) = int (length (filter P xs)) - (if P (xs ! i) then 1 else 0) + (if P x then 1 else 0)"
  using assms
proof (induction xs arbitrary: i)
  case (Cons y ys)
  show ?case
  proof (cases i)
    case (Suc j)
    then show ?thesis using Cons.IH [of j] Cons.prems by (simp split: if_splits)
  qed simp
qed simp

lemma step_ok: "flight_step l e l' \<Longrightarrow> flight_ok l \<Longrightarrow> flight_ok l' \<and> lm_cap l' = lm_cap l"
proof (induction rule: flight_step.induct)
  case (release i l c)
  then have "0 < lm_sem l"
    using nth_mem [of i "lm_calls l"] by (force simp: flight_ok_def holds_slot_def filter_empty_conv)
  then show ?case
    using release count_update [of i "lm_calls l" holds_slot "(Released, c)"] count_update [of i "lm_calls l" has_left "(Released, c)"]
    by (auto simp: flight_ok_def set_call_def holds_slot_def has_left_def dest!: set_update_subset_insert [THEN subsetD])
next
  case (finish i l c)
  then show ?case
    using nth_mem [of i "lm_calls l"] count_update [of i "lm_calls l" holds_slot "(Finished, c)"] count_update [of i "lm_calls l" has_left "(Finished, c)"]
    by (auto simp: flight_ok_def set_call_def holds_slot_def has_left_def dest!: set_update_subset_insert [THEN subsetD])
next
  case (answer i l f)
  then show ?case
    using count_update [of i "lm_calls l" holds_slot "(f, Answered)"] count_update [of i "lm_calls l" has_left "(f, Answered)"]
    by (auto simp: flight_ok_def set_call_def holds_slot_def has_left_def dest!: set_update_subset_insert [THEN subsetD])
next
  case (leave i l f)
  then show ?case
    using count_update [of i "lm_calls l" holds_slot "(f, Left)"] count_update [of i "lm_calls l" has_left "(f, Left)"]
    by (auto simp: flight_ok_def set_call_def holds_slot_def has_left_def dest!: set_update_subset_insert [THEN subsetD])
next
  case (collect i l f)
  then show ?case
    using count_update [of i "lm_calls l" holds_slot "(f, Collected)"] count_update [of i "lm_calls l" has_left "(f, Collected)"]
    by (auto simp: flight_ok_def set_call_def holds_slot_def has_left_def dest!: set_update_subset_insert [THEN subsetD])
qed (auto simp: flight_ok_def holds_slot_def has_left_def)

lemma new_ok: "flight_ok (newInFlightLimiter n)"
  by (simp add: flight_ok_def newInFlightLimiter_def)

lemma run_ok: "flight_run l es l' \<Longrightarrow> flight_ok l \<Longrightarrow> flight_ok l' \<and> lm_cap l' = lm_cap l"
  by (induction rule: flight_run.induct) (auto dest: step_ok)

subsection \<open>The slots come back\<close>

definition to_do :: "fetch_phase \<times> caller_phase \<Rightarrow> nat" where
  "to_do c = (case fst c of Fetching \<Rightarrow> 2 | Finished \<Rightarrow> 1 | Released \<Rightarrow> 0) + (case snd c of Waits \<Rightarrow> 2 | Left \<Rightarrow> 1 | _ \<Rightarrow> 0)"

definition still_to_do :: "limiter \<Rightarrow> nat" where
  "still_to_do l = (\<Sum>c\<leftarrow>lm_calls l. to_do c)"

lemma sum_update_less:
  fixes g :: "'a \<Rightarrow> nat"
  shows "i < length xs \<Longrightarrow> g x < g (xs ! i) \<Longrightarrow> (\<Sum>c\<leftarrow>xs[i := x]. g c) < (\<Sum>c\<leftarrow>xs. g c)"
proof (induction xs arbitrary: i)
  case (Cons y ys)
  show ?case
  proof (cases i)
    case (Suc j)
    then show ?thesis using Cons.IH [of j] Cons.prems by simp
  qed (use Cons.prems in simp)
qed simp

lemma step_decreases: "flight_step l e l' \<Longrightarrow> e \<notin> {Enter, Refuse} \<Longrightarrow> still_to_do l' < still_to_do l"
  by (induction rule: flight_step.induct) (auto simp: still_to_do_def set_call_def to_do_def intro!: sum_update_less)

definition at_rest :: "limiter \<Rightarrow> bool" where
  "at_rest l \<longleftrightarrow> (\<forall>e l'. flight_step l e l' \<longrightarrow> e \<in> {Enter, Refuse})"

lemma at_rest_call:
  assumes "at_rest l" "i < length (lm_calls l)" "flight_ok l"
  shows "\<not> holds_slot (lm_calls l ! i) \<and> \<not> has_left (lm_calls l ! i)"
proof -
  obtain f c where fc: "lm_calls l ! i = (f, c)" by fastforce
  have no: "\<not> flight_step l e l'" if "e \<notin> {Enter, Refuse}" for e l' using assms(1) that by (auto simp: at_rest_def)
  have "f \<noteq> Fetching" using flight_step.finish [OF assms(2)] no fc by blast
  moreover have "f \<noteq> Finished" using flight_step.release [OF assms(2)] no fc by blast
  moreover have "c \<noteq> Left" using flight_step.collect [OF assms(2), of f] no fc calculation(1) by blast
  ultimately show ?thesis using fc by (cases f) (simp_all add: holds_slot_def has_left_def)
qed

lemma at_rest_free: "at_rest l \<Longrightarrow> flight_ok l \<Longrightarrow> lm_sem l = 0 \<and> lm_outstanding l = 0"
proof -
  assume l: "at_rest l" "flight_ok l"
  have "\<not> holds_slot c \<and> \<not> has_left c" if "c \<in> set (lm_calls l)" for c
    using that at_rest_call [OF l(1) _ l(2)] by (fastforce simp only: in_set_conv_nth)
  then have "filter holds_slot (lm_calls l) = []" "filter has_left (lm_calls l) = []" by (simp_all add: filter_empty_conv)
  then show ?thesis using l(2) by (simp add: flight_ok_def)
qed

lemma length_filter_weaken: "(\<And>x. P x \<Longrightarrow> Q x) \<Longrightarrow> length (filter P xs) \<le> length (filter Q xs)"
  by (induction xs) (auto intro: le_SucI)

lemma fetching_bounded: "flight_ok l \<Longrightarrow> length (filter (\<lambda>c. fst c = Fetching) (lm_calls l)) \<le> lm_cap l"
proof -
  assume ok: "flight_ok l"
  have "length (filter (\<lambda>c. fst c = Fetching) (lm_calls l)) \<le> length (filter holds_slot (lm_calls l))"
    by (intro length_filter_weaken) (simp add: holds_slot_def)
  then show ?thesis using ok by (simp add: flight_ok_def)
qed

text \<open>C38. The limiter bounds the requests that are really on their way, whoever still waits for them: in every interleaving there are at
  most \<open>max 1 limit\<close> of them, a new caller is let in exactly when fewer slots than that are held, and each step of a call brings it
  closer to its end, at which every slot is free again and no goroutine is left over.\<close>

theorem in_flight_bounded:
  assumes "flight_run (newInFlightLimiter limit) es l"
  shows "int (length (filter (\<lambda>c. fst c = Fetching) (lm_calls l))) \<le> max 1 limit
    \<and> ((\<exists>l'. flight_step l Enter l') \<longleftrightarrow> int (length (filter holds_slot (lm_calls l))) < max 1 limit)
    \<and> (flight_step l Refuse l \<longleftrightarrow> int (length (filter holds_slot (lm_calls l))) = max 1 limit)
    \<and> (\<forall>e l'. flight_step l e l' \<and> e \<notin> {Enter, Refuse} \<longrightarrow> still_to_do l' < still_to_do l)
    \<and> (at_rest l \<longrightarrow> lm_sem l = 0 \<and> lm_outstanding l = 0)"
proof -
  have ok: "flight_ok l" and cap: "int (lm_cap l) = max 1 limit"
    using run_ok [OF assms new_ok] by (simp_all add: newInFlightLimiter_def)
  have sem: "lm_sem l = length (filter holds_slot (lm_calls l))" using ok by (simp add: flight_ok_def)
  show ?thesis
    using fetching_bounded [OF ok] cap step_decreases at_rest_free [OF _ ok] by (auto simp: Enter_iff Refuse_iff sem simp flip: of_nat_less_iff)
qed

text \<open>A limiter of one slot: the caller leaves, the request goes on, and the next caller is refused.\<close>

theorem in_flight_bounded_witness:
  "\<exists>l. flight_run (newInFlightLimiter 0) [Enter, Leave 0] l \<and> lm_calls l = [(Fetching, Left)] \<and> lm_outstanding l = 1 \<and>
     flight_step l Refuse l \<and> \<not> (\<exists>l'. flight_step l Enter l')"
proof -
  let ?a = "\<lparr>lm_cap = 1, lm_sem = 1, lm_outstanding = 0, lm_calls = [(Fetching, Waits)]\<rparr>"
  let ?b = "\<lparr>lm_cap = 1, lm_sem = 1, lm_outstanding = 1, lm_calls = [(Fetching, Left)]\<rparr>"
  have "flight_step (newInFlightLimiter 0) Enter ?a" by (simp add: Enter_iff newInFlightLimiter_def)
  moreover have "flight_step ?a (Leave 0) ?b"
    using flight_step.leave [of 0 ?a Fetching] by (simp add: set_call_def)
  ultimately have run: "flight_run (newInFlightLimiter 0) [Enter, Leave 0] ?b"
    using run_snoc [OF run_snoc [OF run_nil]] by fastforce
  from in_flight_bounded [OF run] have "flight_step ?b Refuse ?b \<and> \<not> (\<exists>l'. flight_step ?b Enter l')"
    by (simp add: holds_slot_def)
  with run show ?thesis by (intro exI [of _ ?b]) simp
qed

end
