(* ===== verification/Spec2Isabelle.thy ===== *)
theory Spec2Isabelle
  imports Percolator Market Fitness Paginate Circuit FetchCache RateLimit RemovalBudget Cycle Enricher Ingest EnrichQueue SearchApi LogHub Proxies Admin Dialogue
    Yad2Fetch SourceEnrich InFlight
begin

text \<open>
  A model of carwatch, a service that watches a car market and alerts its users, and of what its parts promise.

  \<^bold>\<open>The program.\<close> Users save searches, over the web API (internal/api), with the browser extension or with a Telegram bot
  (internal/bot). A scheduler (internal/scheduler) runs cycles: it groups the active searches of all users by what the
  source is asked for, fetches each group once (internal/fetcher: pages, a circuit breaker, a cache), matches the
  listings against the searches (internal/percolator, internal/filter), claims each match in the database so that it
  is alerted once, prices and scores it (internal/scoring, internal/pricelist), stores it, and hands the alerts to the
  notifier, at once or through a Redis stream (internal/broker, cmd/notifier), or into a digest. A second stream feeds
  the enricher (internal/enricher), which reads the page of a listing and completes its row. The extension pushes
  listings that it sees in the user's browser (internal/api/listings.go). All state is in PostgreSQL
  (internal/storage/postgres), Redis, and a few locked structures in memory.

  \<^bold>\<open>The theories.\<close> They follow the code from the bottom up; each states which files it models.

  Ground. CwPrelude: Go's values, the functions of the standard library the code calls, generic lemmas.
  Model: the records that travel (listings, searches, criteria, source parameters, seller filter).
  Database: the tables as one record, with an oracle \<open>db_faults\<close> that says which calls fail, and the rule for what a
  failing call leaves.

  Matching and scoring. ListingFilter, Percolator: the two filters, the stateless one and the one that reads a search
  directly, and their equivalence; the reasons of a rejection. Market: medians, deal scores, suspicious listings.
  Fitness: the fitness score and its breakdown.

  Fetching. FetchBase: errors as chains of sentinels, the interface of a fetcher. Paginate, Circuit, FetchCache: the
  three decorators. Proxies: the pool of proxies and the pool of clients. A locked section is one atomic step; callers
  that interleave are step relations.

  Source. JsonFields: how encoding/json fills a record from a document. FlexTime, BodyType: the dates and the body types of the
  source. Yad2Feed: from the bytes of a page, or of the JSON interface, to the listings, and from the page of an item to its
  details. Yad2Page: a page that is written is read back. Yad2Fetch: the fetcher with its URLs, proxies, clients and fallbacks.
  SourceEnrich: the pass that completes listings. InFlight: the slots of requests that outlive their callers, as a step relation.

  Storage. Claims, Prices, ListingStore, DigestFlow, SearchStore, Accounts: the operations of the store on the claims,
  the price history, the listing history, the digest queue with the delivery ledger, the searches, the users with the
  linking of accounts.

  Scheduler. World: the state of the scheduler. Delivery: how a batch becomes alerts. MatchStage, Pipeline,
  ProcessStage: matching and claiming, pricing and scoring, storing, delivering and releasing claims. FetchStage: the
  grouping of the searches, retries, targeted fetches. DigestFlow: interval and daily digests. Cycle: maintenance,
  and \<open>run_cycle\<close>, which composes all of it the way \<open>Scheduler.runCycle\<close> does.

  Queues and channels. Telegram, Channels: the texts and the choice of the channel. AlertQueue, EnrichQueue: the two
  consumers with their retries, dead letters and reclaims. Redis is a parameter: a record of operations, with the
  documented laws of a consumer group as the assumptions of a locale.
  Enricher: the adaptive rate limiter and the enrichment of one listing.

  API. RateLimit, RemovalBudget: the limits of the API. IngestValidation, Ingest: what the extension may push and what
  a push does. SearchApi: the handlers of the searches and the account they act for. ExtTokens: the credentials of the
  extension. Auth: who a request comes from: the middlewares, the routes, the cache of Firebase users. Admin: the
  requests of an administrator and the tokens that confirm them. LogHub: the ring of the last log entries and its hub.
  Feeds: bookmarks, hidden listings, the pages of listings with their orders, the notification centre.

  Bot. Json: the text form of values, as encoding/json writes and reads it. WizardData: the answers of a dialogue and their
  text. Wizard, BotMenus: the handlers of the buttons, answers and commands, in the state monad of the library over the
  tables and what is sent. Bot: the routes, the limiter, and \<open>handle_update\<close>, which takes an update to its handler.
  Dialogue: the invariant of the dialogues, with rules for its preservation that follow the structure of the handlers.

  \<^bold>\<open>What the lemmas show.\<close> Each theory proves the functional behaviour of its operations and the invariants they keep;
  the numbered properties are what a user or operator relies on, among them: a listing is alerted at most once per
  claim, and claims follow the outcome of the delivery; the percolator is the filter; both ways of counting the
  listings of a search agree; scores stay in range; breakers, caches, budgets and token buckets keep their bounds
  under every interleaving of their steps; bookmarked listings survive all four ways of retiring a listing; known data
  is not lost by merging; a digest is delivered whole or kept whole; a split message is the message; the
  purge of the enrichment stream ends; accounts do not reach each other's searches; stored searches stay well formed; a
  revoked token stays revoked; a request acts as the account of the user who signed in; destructive requests are confirmed;
  pages partition their list; bookmarks stay capped; what the bot remembers of a dialogue reads back as it was written, and
  the searches it saves are in range; a page of the source is read as the feed it carries.
  Some properties state behaviour that is not what the code means to do. They are listed as findings.

  \<^bold>\<open>Interfaces.\<close> The locales state what a client relies on (\<open>token_bucket\<close>, \<open>keyed_limiter\<close>, \<open>consumer_group\<close> and others);
  each is interpreted on the definitions of the code, or on a concrete instance of the parameter where the provider
  is an outside service.

  \<^bold>\<open>Bounds and fuel.\<close> Loops of the code that end by structure are recursions on lists. The loop of a reader of a stream
  and of the purge takes fuel; the lemmas show that the length of the stream plus one is enough, and the properties say
  so. Go's \<open>int\<close> is unbounded here; where a width matters, the 32-bit columns of the tables and the shift of
  the rate limiter, it is written out.

  \<^bold>\<open>What is simplified.\<close> \<open>float64\<close> is exact real arithmetic. A string is a list of bytes; the functions on letter case and
  space are Go's on ASCII, and runes are decoded from UTF-8 where the code works on runes. Times are integers
  (nanoseconds), the zero time is 0; a locked section reads the clock once. The order in which a Go map is iterated is
  that of an association list, so that a statement for all lists covers all orders. A transaction is all or nothing;
  concurrent transactions are sequences of transactions, except where a race is an argument of the model. Columns that
  nothing in the model reads (creation and last-seen times of users, parts of the statistics) are left out, and so are
  the cascades of the schema on tables that are not modelled. Digest tokens are taken to hold no comma.

  \<^bold>\<open>Not modelled.\<close> The HTTP clients of the source with their TLS sessions and the headless browser, the price page and the catalogue service: what they answer
  is an argument. The driver and PostgreSQL's execution, Redis, Firebase, web push and the Telegram
  service: libraries and services outside the repository. Goroutines, tickers and shutdown of the processes, logging, metrics,
  the wording of messages, their buttons and the translations: output without a decision of the core. The statistics of the administration pages, the
  benchmarks and the web user interface. The bracketed IPv6 hosts of \<open>net/url\<close> and the letter case of non-ASCII hosts
  but for the runes that Go maps to ASCII.
\<close>

end
